(* ===== verification/Prelude.thy ===== *)
theory Prelude
  imports Main
begin

text \<open>
  What every component shares: the errors a TypeScript function can throw, the computations
  that read and write a store and may throw (an \<^verbatim>\<open>async\<close> function awaited to its end),
  their sequencing, and the two calculi the component proofs use: \<open>preserves\<close> (an invariant
  of the store survives the computation, whether it returns or throws) and inversion of a
  computation that returned.  A computation that throws keeps the writes it already made:
  the indexer issues its SQL statements without a surrounding transaction.
\<close>

named_theorems js_simps \<open>evaluation of computations\<close>
named_theorems preserves_intros \<open>preservation of a store predicate\<close>
named_theorems js_elims \<open>inversion of computations that returned\<close>

section \<open>Errors\<close>

datatype sql_error =
    UniqueViolation string
  | ForeignKeyViolation string
  | CheckViolation string
  | NotNullViolation string
  | InvalidText string
  | OutOfRange string

datatype js_error =
    SyntaxError
  | TypeError
  | RangeError
  | ErrorMsg string
  | SqlError sql_error
  | Invariant string
  | InsufficientReservesError
  | InsufficientInputAmountError
  | ValidationError string

section \<open>Pure functions that throw\<close>

definition bindS :: "js_error + 'a \<Rightarrow> ('a \<Rightarrow> js_error + 'b) \<Rightarrow> js_error + 'b" where
  "bindS m f = (case m of Inl e \<Rightarrow> Inl e | Inr x \<Rightarrow> f x)"

lemma bindS_simps [simp, js_simps]:
  "bindS (Inl e) f = Inl e"
  "bindS (Inr x) f = f x"
  by (simp_all add: bindS_def)

text \<open>\<^verbatim>\<open>invariant(c, m)\<close> followed by the rest of the function: a failed check throws \<open>m\<close>.\<close>

definition invariantS :: "bool \<Rightarrow> string \<Rightarrow> js_error + 'a \<Rightarrow> js_error + 'a" where
  "invariantS c m k = (if c then k else Inl (Invariant m))"

lemma invariantS_simps [simp, js_simps]:
  "invariantS True m k = k"
  "invariantS False m k = Inl (Invariant m)"
  by (simp_all add: invariantS_def)

lemma invariantS_eq_Inr: "invariantS c m k = Inr y \<longleftrightarrow> c \<and> k = Inr y"
  by (simp add: invariantS_def)

lemma invariantS_InrE [js_elims]:
  assumes "invariantS c m k = Inr y"
  obtains c and "k = Inr y"
  using assms by (auto simp: invariantS_eq_Inr)

lemma bindS_eq_Inr: "bindS m f = Inr y \<longleftrightarrow> (\<exists>x. m = Inr x \<and> f x = Inr y)"
  by (cases m) auto

lemma bindS_InrE [js_elims]:
  assumes "bindS m f = Inr y"
  obtains x where "m = Inr x" and "f x = Inr y"
  using assms by (auto simp: bindS_eq_Inr)

text \<open>\<^verbatim>\<open>xs.map(f)\<close> for an \<open>f\<close> that may throw: the first throw ends the loop.\<close>

fun mapS :: "('a \<Rightarrow> js_error + 'b) \<Rightarrow> 'a list \<Rightarrow> js_error + 'b list" where
  "mapS f [] = Inr []"
| "mapS f (x # xs) = bindS (f x) (\<lambda>y. bindS (mapS f xs) (\<lambda>ys. Inr (y # ys)))"

lemma mapS_all_Inr:
  "(\<And>x. x \<in> set xs \<Longrightarrow> f x = Inr (g x)) \<Longrightarrow> mapS f xs = Inr (map g xs)"
  by (induction xs) auto

lemma mapS_length: "mapS f xs = Inr ys \<Longrightarrow> length ys = length xs"
  by (induction xs arbitrary: ys) (auto elim!: js_elims)

section \<open>Computations over a store\<close>

type_synonym ('s, 'a) js = "'s \<Rightarrow> (js_error + 'a) \<times> 's"

definition returnM :: "'a \<Rightarrow> ('s, 'a) js" where
  "returnM x = (\<lambda>s. (Inr x, s))"

definition throwM :: "js_error \<Rightarrow> ('s, 'a) js" where
  "throwM e = (\<lambda>s. (Inl e, s))"

definition bindM :: "('s, 'a) js \<Rightarrow> ('a \<Rightarrow> ('s, 'b) js) \<Rightarrow> ('s, 'b) js" where
  "bindM m f = (\<lambda>s. case m s of (Inl e, s') \<Rightarrow> (Inl e, s') | (Inr x, s') \<Rightarrow> f x s')"

definition thenM :: "('s, unit) js \<Rightarrow> ('s, 'b) js \<Rightarrow> ('s, 'b) js" where
  "thenM m n = bindM m (\<lambda>_. n)"

definition getsM :: "('s \<Rightarrow> 'a) \<Rightarrow> ('s, 'a) js" where
  "getsM f = (\<lambda>s. (Inr (f s), s))"

definition modifyM :: "('s \<Rightarrow> 's) \<Rightarrow> ('s, unit) js" where
  "modifyM f = (\<lambda>s. (Inr (), f s))"

definition liftS :: "js_error + 'a \<Rightarrow> ('s, 'a) js" where
  "liftS m = (\<lambda>s. (m, s))"

definition whenM :: "bool \<Rightarrow> ('s, unit) js \<Rightarrow> ('s, unit) js" where
  "whenM b m = (if b then m else returnM ())"

text \<open>\<open>requireM c e\<close>: a constraint the database checks against the store as it is.\<close>

definition requireM :: "('s \<Rightarrow> bool) \<Rightarrow> js_error \<Rightarrow> ('s, unit) js" where
  "requireM c e = (\<lambda>s. if c s then (Inr (), s) else (Inl e, s))"

fun forM :: "'a list \<Rightarrow> ('a \<Rightarrow> ('s, unit) js) \<Rightarrow> ('s, unit) js" where
  "forM [] f = returnM ()"
| "forM (x # xs) f = thenM (f x) (forM xs f)"

text \<open>A computation over a part of a larger store.\<close>

definition zoomM :: "('w \<Rightarrow> 's) \<Rightarrow> ('s \<Rightarrow> 'w \<Rightarrow> 'w) \<Rightarrow> ('s, 'a) js \<Rightarrow> ('w, 'a) js" where
  "zoomM get put m = (\<lambda>w. case m (get w) of (r, s) \<Rightarrow> (r, put s w))"

subsection \<open>Evaluation\<close>

lemma run_simps [js_simps]:
  "returnM x s = (Inr x, s)"
  "throwM e s = (Inl e, s)"
  "getsM f s = (Inr (f s), s)"
  "modifyM g s = (Inr (), g s)"
  "liftS m s = (m, s)"
  "whenM b n s = (if b then n s else (Inr (), s))"
  "requireM c e s = (if c s then (Inr (), s) else (Inl e, s))"
  by (simp_all add: returnM_def throwM_def getsM_def modifyM_def liftS_def whenM_def requireM_def)

lemma run_bind [js_simps]:
  "bindM m f s = (case m s of (Inl e, s') \<Rightarrow> (Inl e, s') | (Inr x, s') \<Rightarrow> f x s')"
  by (simp add: bindM_def)

lemma run_then [js_simps]:
  "thenM m n s = (case m s of (Inl e, s') \<Rightarrow> (Inl e, s') | (Inr _, s') \<Rightarrow> n s')"
  by (simp add: thenM_def bindM_def)

lemma run_zoom [js_simps]:
  "zoomM get put m w = (fst (m (get w)), put (snd (m (get w))) w)"
  by (simp add: zoomM_def split: prod.split)

text \<open>Steps that cannot throw, evaluated without unfolding what follows them.\<close>

lemma run_steps:
  "bindM (getsM f) g s = g (f s) s"
  "thenM (modifyM h) n s = n (h s)"
  "bindM (returnM x) g s = g x s"
  by (simp_all add: bindM_def thenM_def getsM_def modifyM_def returnM_def)

lemma bindM_assoc: "bindM (bindM m f) g = bindM m (\<lambda>x. bindM (f x) g)"
  by (rule ext) (simp add: bindM_def split: prod.split sum.split)

lemma thenM_assoc: "thenM (thenM m n) k = thenM m (thenM n k)"
  by (simp add: thenM_def bindM_assoc)

lemma thenM_returnM: "thenM m (returnM ()) = m"
  by (rule ext) (simp add: thenM_def bindM_def returnM_def split: prod.split sum.split)

lemma returnM_thenM: "thenM (returnM ()) m = m"
  by (rule ext) (simp add: thenM_def bindM_def returnM_def)

lemma forM_append: "forM (xs @ ys) f = thenM (forM xs f) (forM ys f)"
  by (induction xs) (simp_all add: thenM_assoc returnM_thenM)

lemma forM_concat: "forM (concat (map g xs)) f = forM xs (\<lambda>x. forM (g x) f)"
  by (induction xs) (simp_all add: forM_append)

subsection \<open>Inversion of a computation that returned\<close>

lemma bindM_InrE [js_elims]:
  assumes "bindM m f s = (Inr y, t)"
  obtains x s' where "m s = (Inr x, s')" and "f x s' = (Inr y, t)"
  using assms by (auto simp: bindM_def split: prod.splits sum.splits)

lemma thenM_InrE [js_elims]:
  assumes "thenM m n s = (Inr y, t)"
  obtains s' where "m s = (Inr (), s')" and "n s' = (Inr y, t)"
  using assms by (auto simp: thenM_def elim: bindM_InrE)

lemma requireM_InrE [js_elims]:
  assumes "requireM c e s = (Inr y, t)"
  obtains "c s" and "t = s"
  using assms by (auto simp: requireM_def split: if_splits)

lemma liftS_InrE [js_elims]:
  assumes "liftS m s = (Inr y, t)"
  obtains "m = Inr y" and "t = s"
  using assms by (auto simp: liftS_def)

lemma forM_invariant:
  assumes "forM xs f s = (Inr (), t)"
    and "I s"
    and "\<And>x s s'. x \<in> set xs \<Longrightarrow> I s \<Longrightarrow> f x s = (Inr (), s') \<Longrightarrow> I s'"
  shows "I t"
  using assms
proof (induction xs arbitrary: s)
  case Nil
  then show ?case by (simp add: returnM_def)
next
  case (Cons x xs)
  from Cons.prems(1) obtain s' where "f x s = (Inr (), s')" and rest: "forM xs f s' = (Inr (), t)"
    by (auto elim: thenM_InrE)
  with Cons.prems have "I s'" by (meson list.set_intros(1))
  with rest show ?case
    by (rule Cons.IH) (use Cons.prems(3) in auto)
qed

subsection \<open>Preservation, on every path\<close>

definition preserves :: "('s \<Rightarrow> bool) \<Rightarrow> ('s, 'a) js \<Rightarrow> bool" where
  "preserves P m \<longleftrightarrow> (\<forall>s. P s \<longrightarrow> P (snd (m s)))"

lemma preservesI: "(\<And>s. P s \<Longrightarrow> P (snd (m s))) \<Longrightarrow> preserves P m"
  by (simp add: preserves_def)

lemma preservesD: "preserves P m \<Longrightarrow> P s \<Longrightarrow> P (snd (m s))"
  by (simp add: preserves_def)

lemma preserves_run: "preserves P m \<Longrightarrow> m s = (r, t) \<Longrightarrow> P s \<Longrightarrow> P t"
  by (metis preservesD snd_conv)

lemma preserves_basic [preserves_intros]:
  "preserves P (returnM x)"
  "preserves P (throwM e)"
  "preserves P (getsM f)"
  "preserves P (liftS m')"
  "preserves P (requireM c e)"
  by (simp_all add: preserves_def js_simps)

lemma preserves_bind [preserves_intros]:
  assumes "preserves P m" and "\<And>x. preserves P (f x)"
  shows "preserves P (bindM m f)"
proof (rule preservesI)
  fix s
  assume "P s"
  then have "P (snd (m s))" using assms(1) by (rule preservesD [rotated])
  then show "P (snd (bindM m f s))"
    by (auto simp: bindM_def split: prod.split sum.split intro: preservesD [OF assms(2)])
qed

lemma preserves_then [preserves_intros]:
  "preserves P m \<Longrightarrow> preserves P n \<Longrightarrow> preserves P (thenM m n)"
  by (simp add: thenM_def preserves_bind)

lemma preserves_when [preserves_intros]: "preserves P m \<Longrightarrow> preserves P (whenM b m)"
  by (simp add: whenM_def preserves_basic)

lemma preserves_if [preserves_intros]:
  "(b \<Longrightarrow> preserves P m) \<Longrightarrow> (\<not> b \<Longrightarrow> preserves P n) \<Longrightarrow> preserves P (if b then m else n)"
  by simp

lemma preserves_option [preserves_intros]:
  "preserves P m \<Longrightarrow> (\<And>x. preserves P (f x)) \<Longrightarrow>
   preserves P (case v of None \<Rightarrow> m | Some x \<Rightarrow> f x)"
  by (cases v) simp_all

lemma preserves_Let [preserves_intros]: "preserves P (f v) \<Longrightarrow> preserves P (let x = v in f x)"
  by simp

lemma preserves_for [preserves_intros]:
  "(\<And>x. x \<in> set xs \<Longrightarrow> preserves P (f x)) \<Longrightarrow> preserves P (forM xs f)"
  by (induction xs) (auto intro: preserves_intros)

lemma preserves_modify: "(\<And>s. P s \<Longrightarrow> P (f s)) \<Longrightarrow> preserves P (modifyM f)"
  by (simp add: preserves_def js_simps)

text \<open>A write guarded by a constraint check: the check may be used for preservation.\<close>

lemma preserves_require_modify [preserves_intros]:
  "(\<And>s. P s \<Longrightarrow> c s \<Longrightarrow> P (f s)) \<Longrightarrow> preserves P (thenM (requireM c e) (modifyM f))"
  by (simp add: preserves_def js_simps)

subsection \<open>Frames\<close>

text \<open>\<open>keeps f m\<close>: the part \<open>f\<close> of the store is the same after \<open>m\<close>, on every path.\<close>

named_theorems keeps_intros \<open>parts of the store a computation leaves alone\<close>

definition keeps :: "('s \<Rightarrow> 'b) \<Rightarrow> ('s, 'a) js \<Rightarrow> bool" where
  "keeps f m \<longleftrightarrow> (\<forall>s. f (snd (m s)) = f s)"

lemma keepsD: "keeps f m \<Longrightarrow> m s = (r, t) \<Longrightarrow> f t = f s"
  by (metis keeps_def snd_conv)

lemma keeps_comp: "keeps f m \<Longrightarrow> keeps (\<lambda>s. g (f s)) m"
  by (simp add: keeps_def)

lemma keeps_preserves: "keeps f m \<longleftrightarrow> (\<forall>c. preserves (\<lambda>s. f s = c) m)"
  by (auto simp: keeps_def preserves_def)

lemma keeps_basic [keeps_intros]:
  "keeps f (returnM x)"
  "keeps f (throwM e)"
  "keeps f (getsM g)"
  "keeps f (liftS m')"
  "keeps f (requireM c e)"
  by (simp_all add: keeps_def js_simps)

lemma keeps_bind [keeps_intros]:
  "keeps f m \<Longrightarrow> (\<And>x. keeps f (g x)) \<Longrightarrow> keeps f (bindM m g)"
  by (simp add: keeps_preserves preserves_bind)

lemma keeps_lift_bind:
  "(\<And>x. v = Inr x \<Longrightarrow> keeps f (g x)) \<Longrightarrow> keeps f (bindM (liftS v) g)"
  by (cases v) (simp_all add: keeps_def bindM_def liftS_def)

lemma keeps_then [keeps_intros]: "keeps f m \<Longrightarrow> keeps f n \<Longrightarrow> keeps f (thenM m n)"
  by (simp add: keeps_preserves preserves_then)

lemma keeps_when [keeps_intros]: "keeps f m \<Longrightarrow> keeps f (whenM b m)"
  by (simp add: keeps_preserves preserves_when)

lemma keeps_if [keeps_intros]: "keeps f m \<Longrightarrow> keeps f n \<Longrightarrow> keeps f (if b then m else n)"
  by simp

lemma keeps_option [keeps_intros]:
  "keeps f m \<Longrightarrow> (\<And>x. keeps f (g x)) \<Longrightarrow> keeps f (case v of None \<Rightarrow> m | Some x \<Rightarrow> g x)"
  by (cases v) simp_all

lemma keeps_for [keeps_intros]: "(\<And>x. x \<in> set xs \<Longrightarrow> keeps f (g x)) \<Longrightarrow> keeps f (forM xs g)"
  by (simp add: keeps_preserves preserves_for)

lemma keeps_modify: "(\<And>s. f (g s) = f s) \<Longrightarrow> keeps f (modifyM g)"
  by (simp add: keeps_def js_simps)

section \<open>SQL statements\<close>

text \<open>
  One SQL statement: it checks its column conversions and the constraints of the schema
  against the store, and either changes the store or throws and changes nothing.
\<close>

fun first_failure :: "(('s \<Rightarrow> bool) \<times> js_error) list \<Rightarrow> 's \<Rightarrow> js_error option" where
  "first_failure [] s = None"
| "first_failure ((c, e) # cs) s = (if c s then first_failure cs s else Some e)"

definition statement :: "(('s \<Rightarrow> bool) \<times> js_error) list \<Rightarrow> ('s \<Rightarrow> 's) \<Rightarrow> ('s, unit) js" where
  "statement checks f = (\<lambda>s. case first_failure checks s of
     Some e \<Rightarrow> (Inl e, s) | None \<Rightarrow> (Inr (), f s))"

lemma first_failure_None: "first_failure cs s = None \<longleftrightarrow> list_all (\<lambda>(c, e). c s) cs"
proof (induction cs)
  case (Cons ce cs)
  then show ?case by (cases ce) (simp split: if_split)
qed simp

lemma statement_ok: "list_all (\<lambda>(c, e). c s) checks \<Longrightarrow> statement checks f s = (Inr (), f s)"
  using first_failure_None [of checks s] by (simp add: statement_def)

lemma statement_InrE [js_elims]:
  assumes "statement checks f s = (Inr y, t)"
  obtains "t = f s" and "list_all (\<lambda>(c, e). c s) checks"
  using assms first_failure_None [of checks s]
  by (auto simp: statement_def split: option.splits)

lemma preserves_statement:
  assumes "\<And>s. P s \<Longrightarrow> list_all (\<lambda>(c, e). c s) checks \<Longrightarrow> P (f s)"
  shows "preserves P (statement checks f)"
proof (rule preservesI)
  fix s
  assume "P s"
  then show "P (snd (statement checks f s))"
    using assms [of s] first_failure_None [of checks s]
    by (auto simp: statement_def split: option.split)
qed

lemma keeps_statement: "(\<And>s. f (g s) = f s) \<Longrightarrow> keeps f (statement checks g)"
  by (simp add: keeps_def statement_def split: option.split)

section \<open>Tables\<close>

text \<open>
  A table is the list of its rows.  \<open>update_where\<close> and \<open>delete_where\<close> are
  \<^verbatim>\<open>UPDATE ... SET ... WHERE\<close> and \<^verbatim>\<open>DELETE FROM ... WHERE\<close>; \<open>upsert\<close> is
  \<^verbatim>\<open>INSERT ... ON CONFLICT (key) DO UPDATE\<close>, with \<open>merge\<close> computing the
  row left after a conflict.
\<close>

definition update_where :: "('r \<Rightarrow> bool) \<Rightarrow> ('r \<Rightarrow> 'r) \<Rightarrow> 'r list \<Rightarrow> 'r list" where
  "update_where p f t = map (\<lambda>r. if p r then f r else r) t"

definition delete_where :: "('r \<Rightarrow> bool) \<Rightarrow> 'r list \<Rightarrow> 'r list" where
  "delete_where p t = filter (\<lambda>r. \<not> p r) t"

definition upsert :: "('r \<Rightarrow> bool) \<Rightarrow> ('r \<Rightarrow> 'r) \<Rightarrow> 'r \<Rightarrow> 'r list \<Rightarrow> 'r list" where
  "upsert conflict merge r t =
     (if \<exists>x \<in> set t. conflict x then update_where conflict merge t else t @ [r])"

lemma set_update_where [simp]:
  "set (update_where p f t) = (\<lambda>r. if p r then f r else r) ` set t"
  by (simp add: update_where_def)

lemma set_delete_where [simp]: "set (delete_where p t) = {r \<in> set t. \<not> p r}"
  by (simp add: delete_where_def)

lemma map_update_where_key:
  "(\<And>r. p r \<Longrightarrow> k (f r) = k r) \<Longrightarrow> map k (update_where p f t) = map k t"
  by (simp add: update_where_def)

lemma image_update_where:
  assumes "\<And>r. p r \<Longrightarrow> k (f r) = k r"
  shows "k ` set (update_where p f t) = k ` set t"
  by (metis assms list.set_map map_update_where_key)

lemma update_where_none: "(\<And>r. r \<in> set t \<Longrightarrow> \<not> p r) \<Longrightarrow> update_where p f t = t"
  by (simp add: update_where_def map_idI)

text \<open>Replacing the one row with a given key \<open>j\<close> keeps another key \<open>k\<close> distinct.\<close>

lemma distinct_map_replace_one:
  assumes "distinct (map k t)" and "distinct (map j t)"
    and "\<And>x. x \<in> set t \<Longrightarrow> k x = k r \<Longrightarrow> j x = j r"
  shows "distinct (map k (update_where (\<lambda>x. j x = j r) (\<lambda>_. r) t))"
  using assms
proof (induction t)
  case Nil
  then show ?case by (simp add: update_where_def)
next
  case (Cons x t)
  let ?u = "update_where (\<lambda>x. j x = j r) (\<lambda>_. r) t"
  have cons: "update_where (\<lambda>x. j x = j r) (\<lambda>_. r) (x # t) = (if j x = j r then r else x) # ?u"
    by (simp add: update_where_def)
  show ?case
  proof (cases "j x = j r")
    case True
    then have none: "y \<in> set t \<Longrightarrow> j y \<noteq> j r" for y
      using Cons.prems(2) by (auto simp: image_iff)
    then have "?u = t" by (rule update_where_none)
    moreover have "k r \<notin> k ` set t"
      using none Cons.prems(3) by force
    ultimately show ?thesis using True Cons.prems(1) cons by simp
  next
    case False
    then have "k x \<noteq> k r" using Cons.prems(3) by force
    then have "k x \<notin> k ` set ?u" using Cons.prems(1) by force
    moreover have "distinct (map k ?u)" using Cons by simp
    ultimately show ?thesis using False cons by simp
  qed
qed

lemma filter_update_where:
  "(\<And>r. p r \<Longrightarrow> \<not> P r \<and> \<not> P (f r)) \<Longrightarrow> filter P (update_where p f t) = filter P t"
  by (induction t) (simp_all add: update_where_def)

lemma update_where_twice:
  "(\<And>r. q (if p r then f r else r) \<longleftrightarrow> q' r) \<Longrightarrow>
   (\<And>r. q' r \<Longrightarrow> g (if p r then f r else r) = h r) \<Longrightarrow> (\<And>r. \<not> q' r \<Longrightarrow> p r \<Longrightarrow> f r = h' r) \<Longrightarrow>
   update_where q g (update_where p f t) = map (\<lambda>r. if q' r then h r else if p r then h' r else r) t"
  by (simp add: update_where_def)

lemma upsert_mem: "r \<in> set (upsert conflict (\<lambda>_. r) r t)"
  by (auto simp: upsert_def)

lemma set_upsert_replace:
  "set (upsert conflict (\<lambda>_. r) r t) = insert r {x \<in> set t. \<not> conflict x}"
  by (auto simp: upsert_def)

lemma set_upsert_subset: "set (upsert conflict m r t) \<subseteq> insert r (set t \<union> m ` {x \<in> set t. conflict x})"
  by (auto simp: upsert_def)

lemma distinct_map_upsert_replace:
  assumes "distinct (map k t)" and "\<And>x. conflict x \<longleftrightarrow> k x = k r"
  shows "distinct (map k (upsert conflict (\<lambda>_. r) r t))"
proof (cases "\<exists>x \<in> set t. conflict x")
  case True
  have "map k (update_where conflict (\<lambda>_. r) t) = map k t"
    by (rule map_update_where_key) (simp add: assms(2))
  with True assms(1) show ?thesis by (simp add: upsert_def)
next
  case False
  with assms show ?thesis by (auto simp: upsert_def)
qed

lemma set_key_upsert:
  assumes "\<And>x. k (m x) = k x" and "\<And>x. conflict x \<longleftrightarrow> k x = k r"
  shows "k ` set (upsert conflict m r t) = insert (k r) (k ` set t)"
proof (cases "\<exists>x \<in> set t. conflict x")
  case True
  then have "k r \<in> k ` set t" using assms(2) by (auto simp: image_iff intro: sym)
  with True show ?thesis by (simp add: upsert_def image_update_where assms(1) insert_absorb del: set_update_where)
next
  case False
  then show ?thesis by (simp add: upsert_def)
qed

lemma distinct_key_upsert:
  assumes "\<And>x. k (m x) = k x" and "\<And>x. conflict x \<longleftrightarrow> k x = k r" and "distinct (map k t)"
  shows "distinct (map k (upsert conflict m r t))"
proof (cases "\<exists>x \<in> set t. conflict x")
  case True
  with assms show ?thesis by (simp add: upsert_def map_update_where_key)
next
  case False
  with assms show ?thesis by (auto simp: upsert_def)
qed

lemma distinct_map_delete_where: "distinct (map k t) \<Longrightarrow> distinct (map k (delete_where p t))"
  by (simp add: delete_where_def distinct_map inj_on_def)

section \<open>Integer ranges\<close>

text \<open>\<^verbatim>\<open>for (let i = a; i <= b; i += 1)\<close> visits \<open>[a..b]\<close> in order.\<close>

definition range_list :: "int \<Rightarrow> int \<Rightarrow> int list" where
  "range_list a b = [a..b]"

lemma set_range_list [simp]: "set (range_list a b) = {a..b}"
  by (simp add: range_list_def)

lemma range_list_rec: "range_list a b = (if a \<le> b then a # range_list (a + 1) b else [])"
  unfolding range_list_def by (rule upto.simps)

lemma range_list_snoc: "a \<le> b \<Longrightarrow> range_list a b = range_list a (b - 1) @ [b]"
  unfolding range_list_def by (rule upto_rec2)

end
