(* ===== verification/JsText.thy ===== *)
theory JsText
  imports Prelude "HOL-Library.Code_Target_Nat"
begin

text \<open>
  The parts of the JavaScript standard library the indexer uses on texts and numbers:
  \<^verbatim>\<open>trim\<close>, \<^verbatim>\<open>toLowerCase\<close>, \<^verbatim>\<open>slice\<close>, \<^verbatim>\<open>padStart\<close>, \<^verbatim>\<open>BigInt(text)\<close>,
  \<^verbatim>\<open>Number.parseInt\<close>, \<^verbatim>\<open>Number(bigint)\<close> and \<^verbatim>\<open>toString\<close>.  A bigint is an \<open>int\<close>;
  a number obtained from a text or a bigint is an integer-valued double, so it is rounded to 53
  significant bits (\<open>round_double\<close>), is \<open>JNaN\<close> where no digit could be read and
  \<open>JInfinity\<close> beyond the largest double.  Texts are ASCII.
  The lemmas are the round trips between integers and their digits and the range in which
  numbers are exact.
\<close>

section \<open>Characters and texts\<close>

definition is_space :: "char \<Rightarrow> bool" where
  "is_space c \<longleftrightarrow> (let n = (of_char c :: nat) in n = 32 \<or> (9 \<le> n \<and> n \<le> 13) \<or> n = 160)"

definition trimStart :: "string \<Rightarrow> string" where
  "trimStart s = dropWhile is_space s"

definition js_trim :: "string \<Rightarrow> string" where
  "js_trim s = rev (dropWhile is_space (rev (trimStart s)))"

definition lower_char :: "char \<Rightarrow> char" where
  "lower_char c = (let n = (of_char c :: nat) in if 65 \<le> n \<and> n \<le> 90 then char_of (n + 32) else c)"

definition toLowerCase :: "string \<Rightarrow> string" where
  "toLowerCase s = map lower_char s"

definition startsWith :: "string \<Rightarrow> string \<Rightarrow> bool" where
  "startsWith s p \<longleftrightarrow> take (length p) s = p"

text \<open>\<^verbatim>\<open>s.slice(a, b)\<close> for nonnegative \<open>a\<close>, \<open>b\<close>, and \<^verbatim>\<open>s.slice(-k)\<close>.\<close>

definition js_slice :: "string \<Rightarrow> nat \<Rightarrow> nat \<Rightarrow> string" where
  "js_slice s a b = take (b - a) (drop a s)"

definition slice_last :: "nat \<Rightarrow> string \<Rightarrow> string" where
  "slice_last k s = drop (length s - k) s"

definition padStart :: "nat \<Rightarrow> string \<Rightarrow> string" where
  "padStart k s = replicate (k - length s) CHR ''0'' @ s"

text \<open>Truthiness of an optional text: neither absent nor empty.\<close>

definition truthy :: "string option \<Rightarrow> bool" where
  "truthy v = (case v of None \<Rightarrow> False | Some s \<Rightarrow> s \<noteq> [])"

section \<open>Digits\<close>

definition digit_value :: "char \<Rightarrow> nat option" where
  "digit_value c =
     (let n = (of_char c :: nat) in
      if 48 \<le> n \<and> n \<le> 57 then Some (n - 48)
      else if 97 \<le> n \<and> n \<le> 122 then Some (n - 87)
      else if 65 \<le> n \<and> n \<le> 90 then Some (n - 55)
      else None)"

definition digit_char :: "nat \<Rightarrow> char" where
  "digit_char d = char_of (if d < 10 then 48 + d else 87 + d)"

definition is_digit :: "nat \<Rightarrow> char \<Rightarrow> bool" where
  "is_digit b c = (case digit_value c of None \<Rightarrow> False | Some d \<Rightarrow> d < b)"

definition digit_step :: "nat \<Rightarrow> nat \<Rightarrow> char \<Rightarrow> nat" where
  "digit_step b acc c = acc * b + (case digit_value c of None \<Rightarrow> 0 | Some d \<Rightarrow> d)"

definition digits_val :: "nat \<Rightarrow> string \<Rightarrow> nat" where
  "digits_val b cs = foldl (digit_step b) 0 cs"

fun nat_str :: "nat \<Rightarrow> nat \<Rightarrow> string" where
  "nat_str b n =
     (if n < b \<or> b < 2 then [digit_char n] else nat_str b (n div b) @ [digit_char (n mod b)])"

declare nat_str.simps [simp del]

text \<open>\<^verbatim>\<open>x.toString(b)\<close> of a bigint.\<close>

definition bigint_str :: "nat \<Rightarrow> int \<Rightarrow> string" where
  "bigint_str b i = (if i < 0 then ''-'' @ nat_str b (nat (- i)) else nat_str b (nat i))"

definition parse_nat :: "nat \<Rightarrow> string \<Rightarrow> js_error + int" where
  "parse_nat b cs =
     (if cs \<noteq> [] \<and> list_all (is_digit b) cs then Inr (int (digits_val b cs)) else Inl SyntaxError)"

text \<open>\<^verbatim>\<open>BigInt(s)\<close>: surrounding white space is dropped, the empty text is 0.\<close>

definition BigInt :: "string \<Rightarrow> js_error + int" where
  "BigInt s =
     (let t = js_trim s in
      if t = [] then Inr 0
      else if startsWith t ''0x'' \<or> startsWith t ''0X'' then parse_nat 16 (drop 2 t)
      else if startsWith t ''0o'' \<or> startsWith t ''0O'' then parse_nat 8 (drop 2 t)
      else if startsWith t ''0b'' \<or> startsWith t ''0B'' then parse_nat 2 (drop 2 t)
      else if hd t = CHR ''-'' then bindS (parse_nat 10 (tl t)) (\<lambda>v. Inr (- v))
      else if hd t = CHR ''+'' then parse_nat 10 (tl t)
      else parse_nat 10 t)"

section \<open>Numbers\<close>

datatype jsnum = JNaN | JInfinity bool | JNum int

fun bitlen :: "nat \<Rightarrow> nat" where
  "bitlen n = (if n = 0 then 0 else Suc (bitlen (n div 2)))"

declare bitlen.simps [simp del]

text \<open>Round to 53 significant bits, ties to even.\<close>

definition round_double :: "nat \<Rightarrow> nat" where
  "round_double n =
     (if n < 2 ^ 53 then n
      else (let e = bitlen n - 53; q = n div 2 ^ e; r = n mod 2 ^ e; half = 2 ^ (e - 1) in
            (if half < r \<or> (r = half \<and> odd q) then q + 1 else q) * 2 ^ e))"

text \<open>\<^verbatim>\<open>Number(x)\<close> of a bigint.\<close>

definition number_of_bigint :: "int \<Rightarrow> jsnum" where
  "number_of_bigint i =
     (let r = round_double (nat \<bar>i\<bar>) in
      if 2 ^ 1024 \<le> r then JInfinity (i < 0) else JNum (if i < 0 then - int r else int r))"

definition parseInt :: "nat \<Rightarrow> string \<Rightarrow> jsnum" where
  "parseInt b s =
     (let t = trimStart s;
          neg = (t \<noteq> [] \<and> hd t = CHR ''-'');
          t1 = (if t \<noteq> [] \<and> (hd t = CHR ''-'' \<or> hd t = CHR ''+'') then tl t else t);
          t2 = (if b = 16 \<and> (startsWith t1 ''0x'' \<or> startsWith t1 ''0X'') then drop 2 t1 else t1);
          ds = takeWhile (is_digit b) t2
      in if ds = [] then JNaN
         else number_of_bigint (if neg then - int (digits_val b ds) else int (digits_val b ds)))"

text \<open>
  \<^verbatim>\<open>x.toString()\<close> of a number prints the least number of significant digits that
  read back as \<open>x\<close>.  \<open>shortest_at x k\<close> is the value with \<open>k\<close> significant digits that
  reads back as \<open>x\<close>, the closer one when there are two; from \<open>10^21\<close> on the text is in
  exponent form.
\<close>

definition shortest_at :: "nat \<Rightarrow> nat \<Rightarrow> nat option" where
  "shortest_at x k =
     (let p = 10 ^ (length (nat_str 10 x) - k); lo = x div p * p; hi = lo + p in
      if round_double lo = x \<and> (round_double hi \<noteq> x \<or> x - lo \<le> hi - x) then Some lo
      else if round_double hi = x then Some hi else None)"

definition js_decimal :: "nat \<Rightarrow> nat" where
  "js_decimal x =
     (case List.map_filter (shortest_at x) [1..<Suc (length (nat_str 10 x))] of
        [] \<Rightarrow> x | v # _ \<Rightarrow> v)"

definition strip_zeros :: "string \<Rightarrow> string" where
  "strip_zeros ds = rev (dropWhile (\<lambda>c. c = CHR ''0'') (rev ds))"

definition nat_number_str :: "nat \<Rightarrow> string" where
  "nat_number_str x =
     (let ds = nat_str 10 (js_decimal x); sig = strip_zeros ds; n = length ds in
      if n \<le> 21 then ds
      else if length sig \<le> 1 then sig @ ''e+'' @ nat_str 10 (n - 1)
      else [hd sig] @ ''.'' @ tl sig @ ''e+'' @ nat_str 10 (n - 1))"

fun number_str :: "jsnum \<Rightarrow> string" where
  "number_str JNaN = ''NaN''"
| "number_str (JInfinity neg) = (if neg then ''-Infinity'' else ''Infinity'')"
| "number_str (JNum i) =
     (if i < 0 then ''-'' @ nat_number_str (nat (- i)) else nat_number_str (nat i))"

text \<open>Comparison and subtraction of numbers; a comparison with \<open>JNaN\<close> is false.\<close>

fun js_less :: "jsnum \<Rightarrow> jsnum \<Rightarrow> bool" where
  "js_less (JNum a) (JNum b) = (a < b)"
| "js_less (JInfinity a) (JInfinity b) = (a \<and> \<not> b)"
| "js_less (JInfinity a) (JNum _) = a"
| "js_less (JNum _) (JInfinity b) = (\<not> b)"
| "js_less _ _ = False"

fun js_sub :: "jsnum \<Rightarrow> jsnum \<Rightarrow> jsnum" where
  "js_sub (JNum a) (JNum b) = JNum (a - b)"
| "js_sub (JInfinity a) (JNum _) = JInfinity a"
| "js_sub (JNum _) (JInfinity b) = JInfinity (\<not> b)"
| "js_sub (JInfinity a) (JInfinity b) = (if a = b then JNaN else JInfinity a)"
| "js_sub _ _ = JNaN"

section \<open>Lemmas on digits\<close>

lemma digit_value_char [simp]: "d < 36 \<Longrightarrow> digit_value (digit_char d) = Some d"
  by (auto simp: digit_value_def digit_char_def Let_def)

lemma is_digit_char: "d < b \<Longrightarrow> b \<le> 36 \<Longrightarrow> is_digit b (digit_char d)"
  by (simp add: is_digit_def)

lemma digits_val_snoc: "digits_val b (cs @ [c]) = digit_step b (digits_val b cs) c"
  by (simp add: digits_val_def)

lemma nat_str_nonempty [simp]: "nat_str b n \<noteq> []"
  by (subst nat_str.simps) simp

lemma nat_str_digits:
  assumes "2 \<le> b" and "b \<le> 36"
  shows "list_all (is_digit b) (nat_str b n)"
  using assms
proof (induction b n rule: nat_str.induct)
  case (1 b n)
  then show ?case
    by (subst nat_str.simps) (auto simp: is_digit_char)
qed

lemma digits_val_nat_str [simp]:
  assumes "2 \<le> b" and "b \<le> 36"
  shows "digits_val b (nat_str b n) = n"
  using assms
proof (induction b n rule: nat_str.induct)
  case (1 b n)
  show ?case
  proof (cases "n < b")
    case True
    with "1.prems" show ?thesis
      by (subst nat_str.simps) (simp add: digits_val_def digit_step_def)
  next
    case False
    with "1" have "digits_val b (nat_str b (n div b)) = n div b" by simp
    moreover have "n mod b < 36"
      using "1.prems" by (meson less_le_trans mod_less_divisor order_less_le_trans zero_less_numeral)
    ultimately show ?thesis
      using False "1.prems" by (subst nat_str.simps) (simp add: digits_val_snoc digit_step_def)
  qed
qed

lemma length_nat_str:
  assumes "2 \<le> b" and "n < b ^ k" and "0 < k"
  shows "length (nat_str b n) \<le> k"
  using assms
proof (induction b n arbitrary: k rule: nat_str.induct)
  case (1 b n)
  show ?case
  proof (cases "n < b")
    case True
    with "1.prems" show ?thesis by (subst nat_str.simps) simp
  next
    case False
    then obtain j where k: "k = Suc j" and "0 < j"
      using "1.prems" by (cases k; cases "k - 1") auto
    have "n div b < b ^ j"
      using "1.prems" k by (simp add: less_mult_imp_div_less mult.commute)
    with "1.IH" "1.prems" False \<open>0 < j\<close> have "length (nat_str b (n div b)) \<le> j" by simp
    with False "1.prems" k show ?thesis by (subst nat_str.simps) simp
  qed
qed

lemma digit_step_zero_char: "digit_step b acc CHR ''0'' = acc * b"
  by (simp add: digit_step_def digit_value_def)

lemma foldl_zeros: "foldl (digit_step b) 0 (replicate k CHR ''0'') = 0"
  by (induction k) (simp_all add: digit_step_zero_char)

lemma digits_val_pad [simp]: "digits_val b (padStart k s) = digits_val b s"
  by (simp add: digits_val_def padStart_def foldl_zeros)

lemma digits_pad: "0 < b \<Longrightarrow> list_all (is_digit b) s \<Longrightarrow> list_all (is_digit b) (padStart k s)"
proof -
  assume "0 < b" and s: "list_all (is_digit b) s"
  then have "is_digit b CHR ''0''" by (simp add: is_digit_def digit_value_def)
  with s show ?thesis by (auto simp: padStart_def list_all_iff)
qed

lemma length_padStart: "length s \<le> k \<Longrightarrow> length (padStart k s) = k"
  by (simp add: padStart_def)

lemma hex_digits_no_space: "is_digit b c \<Longrightarrow> \<not> is_space c"
  by (auto simp: is_digit_def digit_value_def is_space_def Let_def split: if_splits)

lemma js_trim_id: "s \<noteq> [] \<Longrightarrow> \<not> is_space (hd s) \<Longrightarrow> \<not> is_space (last s) \<Longrightarrow> js_trim s = s"
proof -
  assume "s \<noteq> []" and "\<not> is_space (hd s)" and l: "\<not> is_space (last s)"
  then have t: "trimStart s = s" by (cases s) (simp_all add: trimStart_def)
  from \<open>s \<noteq> []\<close> obtain ys y where "s = ys @ [y]" by (cases s rule: rev_cases) auto
  with l t show ?thesis by (simp add: js_trim_def)
qed

text \<open>\<^verbatim>\<open>BigInt(`0x${ds}`)\<close> reads hexadecimal digits back.\<close>

lemma BigInt_hex:
  assumes "ds \<noteq> []" and "list_all (is_digit 16) ds"
  shows "BigInt (''0x'' @ ds) = Inr (int (digits_val 16 ds))"
proof -
  from assms have "is_digit 16 (last ds)" by (simp add: list_all_iff)
  then have "\<not> is_space (last (''0x'' @ ds))"
    using assms(1) by (simp add: hex_digits_no_space)
  then have "js_trim (''0x'' @ ds) = ''0x'' @ ds"
    by (intro js_trim_id) (simp_all add: is_space_def)
  with assms show ?thesis by (simp add: BigInt_def startsWith_def parse_nat_def)
qed

section \<open>Lemmas on numbers\<close>

lemma round_double_small: "n < 2 ^ 53 \<Longrightarrow> round_double n = n"
  by (simp add: round_double_def)

lemma bitlen_lower: "0 < n \<Longrightarrow> 2 ^ (bitlen n - 1) \<le> n"
proof (induction n rule: bitlen.induct)
  case (1 n)
  show ?case
  proof (cases "n div 2 = 0")
    case True
    with "1.prems" have "n = 1" by simp
    then show ?thesis by (simp add: bitlen.simps [of "Suc 0"] bitlen.simps [of 0])
  next
    case False
    with "1" have IH: "2 ^ (bitlen (n div 2) - 1) \<le> n div 2" by simp
    have pos: "0 < bitlen (n div 2)" using False by (subst bitlen.simps) simp
    then have "(2::nat) ^ (bitlen n - 1) = 2 * 2 ^ (bitlen (n div 2) - 1)"
      using "1.prems" by (subst bitlen.simps) (simp add: power_eq_if)
    also have "\<dots> \<le> 2 * (n div 2)" using IH by simp
    finally show ?thesis by linarith
  qed
qed

lemma bitlen_upper: "n < 2 ^ bitlen n"
proof (induction n rule: bitlen.induct)
  case (1 n)
  show ?case
  proof (cases "n = 0")
    case True
    then show ?thesis by (simp add: bitlen.simps [of 0])
  next
    case False
    with "1" have "n div 2 < 2 ^ bitlen (n div 2)" by simp
    with False show ?thesis by (subst bitlen.simps) simp
  qed
qed

lemma round_double_ge: "2 ^ 53 \<le> n \<Longrightarrow> 2 ^ 53 \<le> round_double n"
proof -
  assume n: "2 ^ 53 \<le> n"
  define e where "e = bitlen n - 53"
  have "(2::nat) ^ 53 < 2 ^ bitlen n" using n bitlen_upper [of n] by linarith
  then have bl: "53 < bitlen n" by (rule power_less_imp_less_exp [rotated]) simp
  have "2 ^ (52 + e) \<le> n"
    using bitlen_lower [of n] n bl by (simp add: e_def)
  then have "2 ^ 52 \<le> n div 2 ^ e"
    by (simp add: power_add less_eq_div_iff_mult_less_eq)
  then have q: "2 ^ 52 * 2 ^ e \<le> (if c then n div 2 ^ e + 1 else n div 2 ^ e) * 2 ^ e" for c
    by (intro mult_right_mono) simp_all
  have "(2::nat) ^ 53 \<le> 2 ^ (52 + e)"
    using bl by (intro power_increasing) (simp_all add: e_def)
  also have "\<dots> \<le> round_double n"
    using q n unfolding round_double_def e_def [symmetric] Let_def by (simp add: power_add)
  finally show ?thesis .
qed

text \<open>Up to \<open>2^53\<close> a number is exact: the safe integers.\<close>

lemma number_of_bigint_exact: "\<bar>i\<bar> < 2 ^ 53 \<Longrightarrow> number_of_bigint i = JNum i"
proof -
  assume i: "\<bar>i\<bar> < 2 ^ 53"
  then have "nat \<bar>i\<bar> < 2 ^ 53" by (simp add: nat_less_iff)
  then have r: "round_double (nat \<bar>i\<bar>) = nat \<bar>i\<bar>" by (rule round_double_small)
  have "nat \<bar>i\<bar> < 2 ^ 1024"
    using \<open>nat \<bar>i\<bar> < 2 ^ 53\<close> by (rule less_trans) simp
  then show ?thesis by (simp add: number_of_bigint_def r Let_def)
qed

lemma shortest_at_small:
  assumes "x < 2 ^ 53" and "shortest_at x k = Some v"
  shows "v = x"
proof -
  define p :: nat where "p = 10 ^ (length (nat_str 10 x) - k)"
  define lo where "lo = x div p * p"
  have "0 < p" by (simp add: p_def)
  have lo: "lo \<le> x" by (simp add: lo_def)
  have hi: "x < lo + p"
    using \<open>0 < p\<close> by (simp add: lo_def) (metis mod_less_divisor add.commute div_mult_mod_eq nat_add_left_cancel_less)
  have "round_double lo = lo" using lo assms(1) by (simp add: round_double_small)
  moreover have "round_double (lo + p) \<noteq> x"
    using hi assms(1) round_double_ge [of "lo + p"] round_double_small [of "lo + p"]
    by (cases "lo + p < 2 ^ 53") auto
  ultimately show ?thesis
    using assms(2) by (auto simp: shortest_at_def Let_def p_def [symmetric] lo_def [symmetric] split: if_splits)
qed

lemma js_decimal_small:
  assumes "x < 2 ^ 53"
  shows "js_decimal x = x"
proof -
  have "set (List.map_filter (shortest_at x) ks) \<subseteq> {x}" for ks
    using shortest_at_small [OF assms] by (auto simp: List.map_filter_def)
  then show ?thesis
    by (auto simp: js_decimal_def split: list.split) (metis insert_subset list.simps(15) singletonD)
qed

lemma nat_number_str_small:
  assumes "x < 2 ^ 53"
  shows "nat_number_str x = nat_str 10 x"
proof -
  have "x < 10 ^ 16" using assms by simp
  then have "length (nat_str 10 x) \<le> 16" by (intro length_nat_str) simp_all
  then show ?thesis by (simp add: nat_number_str_def js_decimal_small [OF assms] Let_def)
qed

section \<open>Evaluation\<close>

text \<open>Small numbers, the common case, are evaluated without powers and rounding.\<close>

lemma number_of_bigint_code [code]:
  "number_of_bigint i =
     (if - 9007199254740992 < i \<and> i < 9007199254740992 then JNum i
      else let r = round_double (nat \<bar>i\<bar>) in
        if 2 ^ 1024 \<le> r then JInfinity (i < 0) else JNum (if i < 0 then - int r else int r))"
proof (cases "- 9007199254740992 < i \<and> i < 9007199254740992")
  case True
  then have "\<bar>i\<bar> < 2 ^ 53" by (simp add: abs_if)
  with True show ?thesis by (simp add: number_of_bigint_exact)
next
  case False
  then show ?thesis by (simp only: number_of_bigint_def if_False)
qed

lemma nat_number_str_code [code]:
  "nat_number_str x = (if x < 9007199254740992 then nat_str 10 x else
     let ds = nat_str 10 (js_decimal x); sig = strip_zeros ds; n = length ds in
      if n \<le> 21 then ds
      else if length sig \<le> 1 then sig @ ''e+'' @ nat_str 10 (n - 1)
      else [hd sig] @ ''.'' @ tl sig @ ''e+'' @ nat_str 10 (n - 1))"
  using nat_number_str_small [of x] by (simp add: nat_number_str_def)

end
