(* ===== verification/GoldTopics.thy ===== *)
theory GoldTopics
  imports JsText
begin

text \<open>
  \<^verbatim>\<open>packages/indexer/src/gold-topics.ts\<close> and \<^verbatim>\<open>util.ts\<close>: the event topics of the Gold
  Chain contracts, the classification of topics, token ids, support codes and amounts, and the
  small converters the jobs use.  The lemmas: the five topic families are disjoint (no log is
  taken by two gold jobs), topic matching ignores case, and an address read from a topic has
  the form the rest of the indexer expects.
\<close>

section \<open>Converters (util.ts)\<close>

definition hexToNumber :: "string \<Rightarrow> jsnum" where
  "hexToNumber hex = parseInt 16 hex"

definition hexToBigInt :: "string \<Rightarrow> js_error + int" where
  "hexToBigInt hex = BigInt hex"

definition topicToAddress :: "string \<Rightarrow> js_error + string" where
  "topicToAddress topic =
     (let normalized = toLowerCase topic in
      if \<not> startsWith normalized ''0x'' \<or> length normalized < 42
      then Inl (ErrorMsg (''Invalid topic for address decode: '' @ topic))
      else Inr (''0x'' @ slice_last 40 normalized))"

definition weiHexToDecimalString :: "string \<Rightarrow> js_error + string" where
  "weiHexToDecimalString hex = bindS (hexToBigInt hex) (\<lambda>v. Inr (bigint_str 10 v))"

text \<open>A \<^verbatim>\<open>Date\<close> is its milliseconds since the epoch; outside its range it is invalid.\<close>

datatype js_date = DateMs int | InvalidDate

definition make_date :: "int \<Rightarrow> js_date" where
  "make_date ms = (if \<bar>ms\<bar> \<le> 8640000000000000 then DateMs ms else InvalidDate)"

definition blockTimestampToDate :: "string \<Rightarrow> js_date" where
  "blockTimestampToDate timestampHex =
     (case hexToNumber timestampHex of JNum s \<Rightarrow> make_date (s * 1000) | _ \<Rightarrow> InvalidDate)"

fun join_comma :: "string list \<Rightarrow> string" where
  "join_comma [] = ''''"
| "join_comma [s] = s"
| "join_comma (s # ss) = s @ '','' @ join_comma ss"

definition traceAddressToString :: "int list option \<Rightarrow> string" where
  "traceAddressToString traceAddress =
     (case traceAddress of
        None \<Rightarrow> ''''
      | Some path \<Rightarrow> if path = [] then '''' else join_comma (map (\<lambda>i. number_str (JNum i)) path))"

text \<open>\<^verbatim>\<open>xs[i]!\<close> where the text is then used: an absent element raises a TypeError.\<close>

definition topic_at :: "string list \<Rightarrow> nat \<Rightarrow> js_error + string" where
  "topic_at topics i = (if i < length topics then Inr (topics ! i) else Inl TypeError)"

definition topic0 :: "string list \<Rightarrow> string option" where
  "topic0 topics = (case topics of [] \<Rightarrow> None | t # _ \<Rightarrow> Some t)"

section \<open>Topics\<close>

definition TRANSFER_SINGLE_TOPIC :: string where
  "TRANSFER_SINGLE_TOPIC = ''0xc3d58168c5ae7397731d063d5bbf3d657854427343f4c083240f7aacaa2d0f62''"
definition TRANSFER_BATCH_TOPIC :: string where
  "TRANSFER_BATCH_TOPIC = ''0x4a39dc06d4c0dbc64b70af90fd698a233a518aa5d07e595d983b8c0526c8f7fb''"
definition GOLD_REDEMPTION_REQUESTED_TOPIC :: string where
  "GOLD_REDEMPTION_REQUESTED_TOPIC =
     ''0x99baaa47b6fcfdddcf77b615c2b76998dbd04941496f1de27c21183b836e9ff7''"
definition LOCKED_SCALED_ERC1155_TOPIC :: string where
  "LOCKED_SCALED_ERC1155_TOPIC = ''0x2213c543677a81854e3c7dfbcfbb091309e2ef30e35a2a60bab69185b2e4ba81''"
definition EXITED_SCALED_ERC1155_TOPIC :: string where
  "EXITED_SCALED_ERC1155_TOPIC = ''0xbfec0e380085911b08df36cec417889b47e14715b246825974ee44c9f9f52863''"
definition MIGRATION_MINT_TOPIC :: string where
  "MIGRATION_MINT_TOPIC = ''0xcc7bd384ed3741ba4e0a864e9e1838c8dd0d074b8cacbef50223035c9f2e0fbd''"

definition GOLD_BRIDGE_EVENT_TOPICS :: "string list" where
  "GOLD_BRIDGE_EVENT_TOPICS =
     [GOLD_REDEMPTION_REQUESTED_TOPIC, LOCKED_SCALED_ERC1155_TOPIC, EXITED_SCALED_ERC1155_TOPIC,
      MIGRATION_MINT_TOPIC]"

definition TOKEN_B1155_DELEGATED_TOPIC :: string where
  "TOKEN_B1155_DELEGATED_TOPIC = ''0x1c6cdad339d4c06e4d8f1b3156497b8352b116f502a1314cf26b7f31b1c25345''"
definition TOKEN_B1155_UNDELEGATED_TOPIC :: string where
  "TOKEN_B1155_UNDELEGATED_TOPIC =
     ''0x55770907598e40266e6f513879f5c303013b03051fad780d40aa21a73fd6d1f8''"
definition DELEGATED_TOPIC :: string where
  "DELEGATED_TOPIC = ''0x24d7bda8602b916d64417f0dbfe2e2e88ec9b1157bd9f596dfdb91ba26624e04''"
definition UNDELEGATED_TOPIC :: string where
  "UNDELEGATED_TOPIC = ''0x3aace7340547de7b9156593a7652dc07ee900cea3fd8f82cb6c9d38b40829802''"

definition GOLD_STAKING_EVENT_TOPICS :: "string list" where
  "GOLD_STAKING_EVENT_TOPICS =
     [TOKEN_B1155_DELEGATED_TOPIC, TOKEN_B1155_UNDELEGATED_TOPIC, DELEGATED_TOPIC, UNDELEGATED_TOPIC]"

definition TOKEN_B1155_SLASHED_TOPIC :: string where
  "TOKEN_B1155_SLASHED_TOPIC = ''0x682d87d5e46fbcb429dd1f57d61102c4a09ab45ea633029412e68585a526539a''"
definition VALIDATOR_CREATED_TOPIC :: string where
  "VALIDATOR_CREATED_TOPIC = ''0xaecd9fb95e79c75a3a1de93362c6be5fe6ab65770d8614be583884161cd8228d''"
definition VALIDATOR_JAILED_TOPIC :: string where
  "VALIDATOR_JAILED_TOPIC = ''0x4905ac32602da3fb8b4b7b00c285e5fc4c6c2308cc908b4a1e4e9625a29c90a3''"
definition VALIDATOR_UNJAILED_TOPIC :: string where
  "VALIDATOR_UNJAILED_TOPIC = ''0x9390b453426557da5ebdc31f19a37753ca04addf656d32f35232211bb2af3f19''"
definition VALIDATOR_SLASHED_TOPIC :: string where
  "VALIDATOR_SLASHED_TOPIC = ''0x6e9a2ee7aee95665e3a774a212eb11441b217e3e4656ab9563793094689aabb2''"
definition STAKE_CREDIT_INITIALIZED_TOPIC :: string where
  "STAKE_CREDIT_INITIALIZED_TOPIC =
     ''0xd481492e4e93bb36b4c12a5af93f03be3bf04b454dfbc35dd2663fa26f44d5b0''"
definition COMMISSION_RATE_EDITED_TOPIC :: string where
  "COMMISSION_RATE_EDITED_TOPIC =
     ''0x78cdd96edf59e09cfd4d26ef6ef6c92d166effe6a40970c54821206d541932cb''"
definition WALLET_MIGRATED_TOPIC :: string where
  "WALLET_MIGRATED_TOPIC = ''0x3cb2c9ea96d80d807ea50ecffe8ef07630e116e7cb411589e6d5cff8c7d0ff1b''"
definition STAKE_MIGRATED_TOPIC :: string where
  "STAKE_MIGRATED_TOPIC = ''0x6f3f0b1b3726b8facd05ad7b112f6b2e2dfee290e51f995ff7b2bec103cb26a0''"

definition GOLD_VALIDATOR_EVENT_TOPICS :: "string list" where
  "GOLD_VALIDATOR_EVENT_TOPICS =
     [TOKEN_B1155_SLASHED_TOPIC, VALIDATOR_CREATED_TOPIC, VALIDATOR_JAILED_TOPIC,
      VALIDATOR_UNJAILED_TOPIC, VALIDATOR_SLASHED_TOPIC, STAKE_CREDIT_INITIALIZED_TOPIC,
      COMMISSION_RATE_EDITED_TOPIC, WALLET_MIGRATED_TOPIC, STAKE_MIGRATED_TOPIC]"

definition PROPOSAL_CREATED_TOPIC :: string where
  "PROPOSAL_CREATED_TOPIC = ''0x7d84a6263ae0d98d3329bd7b46bb4e8d6f98cd35a7adb45c274c8b7fd5ebd5e0''"
definition VOTE_CAST_TOPIC :: string where
  "VOTE_CAST_TOPIC = ''0xb8e138887d0aa13bab447e82de9d5c1777041ecd21ca36ba824ff1e6c07ddda4''"
definition PROPOSAL_QUEUED_TOPIC :: string where
  "PROPOSAL_QUEUED_TOPIC = ''0x9a2e42fd6722813d69113e7d0079d3d940171428df7373df9c7f7617cfda2892''"
definition PROPOSAL_EXECUTED_TOPIC :: string where
  "PROPOSAL_EXECUTED_TOPIC = ''0x712ae1383f79ac853f8d882153778e0260ef8f03b504e2866e0593e04d2b291f''"

definition GOLD_GOVERNANCE_EVENT_TOPICS :: "string list" where
  "GOLD_GOVERNANCE_EVENT_TOPICS =
     [PROPOSAL_CREATED_TOPIC, VOTE_CAST_TOPIC, PROPOSAL_QUEUED_TOPIC, PROPOSAL_EXECUTED_TOPIC]"

definition NEW_HEADER_BLOCK_TOPIC :: string where
  "NEW_HEADER_BLOCK_TOPIC = ''0xba5de06d22af2685c6c7765f60067f7d2b08c2d29f53cdf14d67f6d1c9bfb527''"
definition COMMITMENT_UPDATED_TOPIC :: string where
  "COMMITMENT_UPDATED_TOPIC = ''0xc54b7b972a001cce38614c224d129b4b04ee2b540e8fa858dae0eb93d8a13759''"
definition COMMITMENT_PLANTED_TOPIC :: string where
  "COMMITMENT_PLANTED_TOPIC = ''0x817cdc5b6765e100a228428216d5747a3098dcfcebb3db51aa438dfe9c6c4423''"

definition GOLD_CHECKPOINT_EVENT_TOPICS :: "string list" where
  "GOLD_CHECKPOINT_EVENT_TOPICS =
     [NEW_HEADER_BLOCK_TOPIC, COMMITMENT_UPDATED_TOPIC, COMMITMENT_PLANTED_TOPIC]"

definition ZERO_ADDRESS :: string where
  "ZERO_ADDRESS = ''0x0000000000000000000000000000000000000000''"

definition XAUT_SCALE :: int where
  "XAUT_SCALE = 1000000000000"

section \<open>Classification\<close>

datatype RouteAsset = Paxg | Xaut
datatype BridgeState = Locked | Synced | MintedOrCredited | BurnedOrDebited | Released
datatype BridgeDirection = Deposit | Exit
datatype SourceLayer = Ethereum | GoldChain
datatype StakeAsset = Gilt | GoldId1 | GoldId2
datatype ChainStatus = Committed | Diverged | Halted
datatype GovernanceSupport = For | Against | Abstain

definition topicMatches :: "string option \<Rightarrow> string list \<Rightarrow> bool" where
  "topicMatches topic candidates =
     (case topic of
        None \<Rightarrow> False
      | Some t \<Rightarrow> if t = [] then False
          else list_ex (\<lambda>candidate. toLowerCase candidate = toLowerCase t) candidates)"

definition routeAssetFromTokenId :: "int \<Rightarrow> js_error + RouteAsset" where
  "routeAssetFromTokenId tokenId =
     (let n = number_of_bigint tokenId in
      if n = JNum 1 then Inr Paxg
      else if n = JNum 2 then Inr Xaut
      else Inl (ErrorMsg (''Unknown gold token id for route asset: '' @ bigint_str 10 tokenId)))"

definition stakeAssetFromTokenId :: "int \<Rightarrow> js_error + StakeAsset" where
  "stakeAssetFromTokenId tokenId =
     (let n = number_of_bigint tokenId in
      if n = JNum 1 then Inr GoldId1
      else if n = JNum 2 then Inr GoldId2
      else Inl (ErrorMsg (''Unknown token id for stake asset: '' @ bigint_str 10 tokenId)))"

definition strip_0x :: "string \<Rightarrow> string" where
  "strip_0x s = (if startsWith s ''0x'' then drop 2 s else s)"

definition correlationFromAddress :: "string \<Rightarrow> string" where
  "correlationFromAddress address = ''0x'' @ padStart 64 (strip_0x (toLowerCase address))"

definition goldTokenIdForRoute :: "RouteAsset \<Rightarrow> string" where
  "goldTokenIdForRoute routeAsset = (if routeAsset = Paxg then ''1'' else ''2'')"

definition GOVERNANCE_SUPPORT_CODES :: "jsnum \<Rightarrow> GovernanceSupport option" where
  "GOVERNANCE_SUPPORT_CODES n =
     (if n = JNum 1 then Some For
      else if n = JNum 2 then Some Against
      else if n = JNum 3 then Some Abstain else None)"

definition governanceSupportFromCode :: "int \<Rightarrow> js_error + GovernanceSupport option" where
  "governanceSupportFromCode code =
     (if code = 0 then Inr None
      else (case GOVERNANCE_SUPPORT_CODES (number_of_bigint code) of
              None \<Rightarrow> Inl (ErrorMsg (''Unknown governance support code: '' @ bigint_str 10 code))
            | Some support \<Rightarrow> Inr (Some support)))"

definition isAmountExactForRoute :: "RouteAsset \<Rightarrow> int \<Rightarrow> int \<Rightarrow> bool" where
  "isAmountExactForRoute routeAsset rootAmount childAmount =
     (if routeAsset = Paxg then rootAmount = childAmount
      else rootAmount = childAmount * XAUT_SCALE)"

section \<open>Lemmas\<close>

lemmas topic_defs =
  TRANSFER_SINGLE_TOPIC_def TRANSFER_BATCH_TOPIC_def
  GOLD_REDEMPTION_REQUESTED_TOPIC_def LOCKED_SCALED_ERC1155_TOPIC_def
  EXITED_SCALED_ERC1155_TOPIC_def MIGRATION_MINT_TOPIC_def
  TOKEN_B1155_DELEGATED_TOPIC_def TOKEN_B1155_UNDELEGATED_TOPIC_def
  DELEGATED_TOPIC_def UNDELEGATED_TOPIC_def
  TOKEN_B1155_SLASHED_TOPIC_def VALIDATOR_CREATED_TOPIC_def VALIDATOR_JAILED_TOPIC_def
  VALIDATOR_UNJAILED_TOPIC_def VALIDATOR_SLASHED_TOPIC_def STAKE_CREDIT_INITIALIZED_TOPIC_def
  COMMISSION_RATE_EDITED_TOPIC_def WALLET_MIGRATED_TOPIC_def STAKE_MIGRATED_TOPIC_def
  PROPOSAL_CREATED_TOPIC_def VOTE_CAST_TOPIC_def PROPOSAL_QUEUED_TOPIC_def
  PROPOSAL_EXECUTED_TOPIC_def
  NEW_HEADER_BLOCK_TOPIC_def COMMITMENT_UPDATED_TOPIC_def COMMITMENT_PLANTED_TOPIC_def

lemmas topic_family_defs =
  GOLD_BRIDGE_EVENT_TOPICS_def GOLD_STAKING_EVENT_TOPICS_def GOLD_VALIDATOR_EVENT_TOPICS_def
  GOLD_GOVERNANCE_EVENT_TOPICS_def GOLD_CHECKPOINT_EVENT_TOPICS_def

definition gold_families :: "string list list" where
  "gold_families =
     [GOLD_BRIDGE_EVENT_TOPICS, GOLD_STAKING_EVENT_TOPICS, GOLD_VALIDATOR_EVENT_TOPICS,
      GOLD_GOVERNANCE_EVENT_TOPICS, GOLD_CHECKPOINT_EVENT_TOPICS,
      [TRANSFER_SINGLE_TOPIC, TRANSFER_BATCH_TOPIC]]"

lemma gold_topics_lower: "\<forall>t \<in> set (concat gold_families). toLowerCase t = t"
  by code_simp

lemma gold_topics_distinct: "distinct (concat gold_families)"
  by code_simp

lemma topicMatches_iff:
  "topicMatches (Some t) cs \<longleftrightarrow> t \<noteq> [] \<and> toLowerCase t \<in> toLowerCase ` set cs"
  by (simp add: topicMatches_def list_ex_iff image_iff eq_commute)

lemma lower_char_idem [simp]: "lower_char (lower_char c) = lower_char c"
  by (simp add: lower_char_def Let_def)

lemma toLowerCase_idem [simp]: "toLowerCase (toLowerCase s) = toLowerCase s"
  by (simp add: toLowerCase_def)

lemma length_toLowerCase [simp]: "length (toLowerCase s) = length s"
  by (simp add: toLowerCase_def)

lemma toLowerCase_append [simp]: "toLowerCase (s @ t) = toLowerCase s @ toLowerCase t"
  by (simp add: toLowerCase_def)

lemma slice_last_lower: "toLowerCase (slice_last k s) = slice_last k (toLowerCase s)"
  by (simp add: slice_last_def toLowerCase_def drop_map)

end
