(* ===== verification/Abi.thy ===== *)
theory Abi
  imports GoldTopics
begin

text \<open>
  \<^verbatim>\<open>packages/indexer/src/abi.ts\<close>: static ABI words, dynamic uint256 arrays and the
  conversion between transaction hashes and 32-byte words.  A word is a 64-digit hexadecimal
  text.  The lemmas are the round trips: decoding what was encoded gives the words back, words
  past the end of the data read as 0, an array behind an offset is read from its offset, and
  hash and word convert back and forth.
\<close>

definition word_hex :: "int \<Rightarrow> string" where
  "word_hex word = padStart 64 (bigint_str 16 word)"

definition abiEncodeStatic :: "int list \<Rightarrow> string" where
  "abiEncodeStatic words = ''0x'' @ concat (map word_hex words)"

definition data_hex :: "string \<Rightarrow> string" where
  "data_hex data = (if startsWith data ''0x'' then drop 2 data else data)"

definition abiDecodeStatic :: "string \<Rightarrow> nat \<Rightarrow> js_error + int list" where
  "abiDecodeStatic data wordCount =
     (let hex = data_hex data in
      mapS (\<lambda>index.
        let start = index * 64; slice = js_slice hex start (start + 64) in
        if slice = [] then Inr 0 else BigInt (''0x'' @ slice)) [0..<wordCount])"

text \<open>A nonnegative number used as an index; a negative one, NaN or Infinity never arises here.\<close>

definition index_of_number :: "jsnum \<Rightarrow> nat" where
  "index_of_number n = (case n of JNum i \<Rightarrow> nat i | _ \<Rightarrow> 0)"

definition abiDecodeUint256Array :: "string \<Rightarrow> nat \<Rightarrow> js_error + int list" where
  "abiDecodeUint256Array data arrayIndex =
     (let hex = data_hex data in
      bindS (BigInt (''0x'' @ js_slice hex (arrayIndex * 64) ((arrayIndex + 1) * 64))) (\<lambda>offsetWord.
      let offset = index_of_number (number_of_bigint (offsetWord div 32)) in
      bindS (BigInt (''0x'' @ js_slice hex (offset * 64) ((offset + 1) * 64))) (\<lambda>lengthWord.
      let len = index_of_number (number_of_bigint lengthWord) in
      mapS (\<lambda>index.
        let start = (offset + 1 + index) * 64 in
        BigInt (''0x'' @ js_slice hex start (start + 64))) [0..<len])))"

definition bytes32FromTxHash :: "string \<Rightarrow> js_error + int" where
  "bytes32FromTxHash txHash =
     (let normalized = strip_0x (toLowerCase txHash) in
      BigInt (''0x'' @ slice_last 64 (padStart 64 normalized)))"

definition txHashFromBytes32 :: "int \<Rightarrow> string" where
  "txHashFromBytes32 word = ''0x'' @ slice_last 64 (word_hex word)"

section \<open>Words\<close>

definition word_ok :: "int \<Rightarrow> bool" where
  "word_ok w \<longleftrightarrow> 0 \<le> w \<and> w < 2 ^ 256"

lemma word_hex_nat: "word_ok w \<Longrightarrow> word_hex w = padStart 64 (nat_str 16 (nat w))"
  by (simp add: word_hex_def bigint_str_def word_ok_def)

lemma length_word_hex [simp]: "word_ok w \<Longrightarrow> length (word_hex w) = 64"
proof -
  assume w: "word_ok w"
  then have "nat w < 2 ^ 256" by (simp add: word_ok_def nat_less_iff)
  then have "nat w < 16 ^ 64" by simp
  then have "length (nat_str 16 (nat w)) \<le> 64" by (intro length_nat_str) simp_all
  with w show ?thesis by (simp add: word_hex_nat length_padStart)
qed

lemma word_hex_digits: "word_ok w \<Longrightarrow> list_all (is_digit 16) (word_hex w)"
  by (simp add: word_hex_nat digits_pad nat_str_digits)

lemma digits_val_word_hex: "word_ok w \<Longrightarrow> int (digits_val 16 (word_hex w)) = w"
  by (simp add: word_hex_nat word_ok_def)

lemma BigInt_word_hex: "word_ok w \<Longrightarrow> BigInt (''0x'' @ word_hex w) = Inr w"
  using BigInt_hex [of "word_hex w"] length_word_hex [of w]
  by (fastforce simp: word_hex_digits digits_val_word_hex)

lemma data_hex_encode [simp]: "data_hex (abiEncodeStatic ws) = concat (map word_hex ws)"
  by (simp add: data_hex_def abiEncodeStatic_def startsWith_def)

lemma drop_words:
  assumes "\<forall>w \<in> set ws. word_ok w"
  shows "drop (i * 64) (concat (map word_hex ws)) = concat (map word_hex (drop i ws))"
  using assms
proof (induction ws arbitrary: i)
  case Nil
  then show ?case by simp
next
  case (Cons w ws)
  then show ?case by (cases i) simp_all
qed

lemma slice_words:
  assumes "\<forall>w \<in> set ws. word_ok w"
  shows "js_slice (concat (map word_hex ws)) (i * 64) (i * 64 + 64) =
         (if i < length ws then word_hex (ws ! i) else [])"
proof -
  have "js_slice (concat (map word_hex ws)) (i * 64) (i * 64 + 64) =
        take 64 (concat (map word_hex (drop i ws)))"
    using assms by (simp add: js_slice_def drop_words)
  also have "\<dots> = (if i < length ws then word_hex (ws ! i) else [])"
    using assms by (auto simp: Cons_nth_drop_Suc [symmetric])
  finally show ?thesis .
qed

text \<open>Reading one word of an encoded sequence.\<close>

lemma BigInt_slice_word:
  assumes "\<forall>w \<in> set ws. word_ok w" and "i < length ws"
  shows "BigInt (''0x'' @ js_slice (concat (map word_hex ws)) (i * 64) (i * 64 + 64)) = Inr (ws ! i)"
proof -
  from assms have "word_ok (ws ! i)" by simp
  then have "BigInt (''0x'' @ word_hex (ws ! i)) = Inr (ws ! i)" by (rule BigInt_word_hex)
  with assms show ?thesis by (simp add: slice_words)
qed

lemma word_hex_nonempty: "word_ok w \<Longrightarrow> word_hex w \<noteq> []"
  using length_word_hex by fastforce

section \<open>Round trips\<close>

text \<open>Words past the end of the data decode as 0, as the decoders of older events rely on.\<close>

lemma abiDecodeStatic_encode_general:
  assumes "\<forall>w \<in> set ws. word_ok w"
  shows "abiDecodeStatic (abiEncodeStatic ws) n =
         Inr (map (\<lambda>i. if i < length ws then ws ! i else 0) [0..<n])"
  unfolding abiDecodeStatic_def Let_def data_hex_encode
proof (rule mapS_all_Inr)
  fix i
  assume "i \<in> set [0..<n]"
  show "(if js_slice (concat (map word_hex ws)) (i * 64) (i * 64 + 64) = [] then Inr 0
         else BigInt (''0x'' @ js_slice (concat (map word_hex ws)) (i * 64) (i * 64 + 64))) =
        Inr (if i < length ws then ws ! i else 0)"
  proof (cases "i < length ws")
    case True
    then have "word_hex (ws ! i) \<noteq> []" using assms word_hex_nonempty by simp
    with True assms show ?thesis
      using BigInt_slice_word [OF assms True] by (simp add: slice_words)
  next
    case False
    with assms show ?thesis by (simp add: slice_words)
  qed
qed

lemma abiDecodeStatic_prefix:
  assumes "\<forall>w \<in> set ws. word_ok w" and "n \<le> length ws"
  shows "abiDecodeStatic (abiEncodeStatic ws) n = Inr (take n ws)"
proof -
  have "map (\<lambda>i. if i < length ws then ws ! i else 0) [0..<n] = take n ws"
    using assms(2) by (auto intro: nth_equalityI)
  then show ?thesis by (simp add: abiDecodeStatic_encode_general assms(1))
qed

lemma index_small: "0 \<le> i \<Longrightarrow> i < 2 ^ 53 \<Longrightarrow> index_of_number (number_of_bigint i) = nat i"
  by (simp add: number_of_bigint_exact index_of_number_def)

text \<open>
  An array of the ABI's dynamic encoding: the word at \<open>k\<close> is the byte offset of the
  array, and at that word stand its length and its elements.
\<close>

lemma abiDecodeUint256Array_at:
  assumes ok: "\<forall>w \<in> set ws. word_ok w"
    and k: "k < length ws" and off: "ws ! k = 32 * int p"
    and p: "p < length ws" and len: "ws ! p = int (length xs)"
    and xs: "take (length xs) (drop (p + 1) ws) = xs"
    and small: "length ws < 2 ^ 53"
  shows "abiDecodeUint256Array (abiEncodeStatic ws) k = Inr xs"
proof -
  let ?h = "concat (map word_hex ws)"
  have fits: "p + 1 + length xs \<le> length ws"
    using xs p by (metis (no_types) Suc_eq_plus1 Suc_leI add_leD1 diff_is_0_eq le_add_diff_inverse
        length_drop length_take min.cobounded1 nat_add_left_cancel_le nat_le_linear)
  have o: "index_of_number (number_of_bigint (ws ! k div 32)) = p"
    using off p small by (subst index_small) auto
  have l: "index_of_number (number_of_bigint (ws ! p)) = length xs"
    using len fits small by (subst index_small) auto
  have elem: "BigInt (''0x'' @ js_slice ?h ((p + 1 + i) * 64) ((p + 1 + i) * 64 + 64)) = Inr (xs ! i)"
    if "i < length xs" for i
  proof -
    have "ws ! (p + 1 + i) = xs ! i"
      using that fits xs by (metis add_leD1 nth_drop nth_take)
    with that fits show ?thesis using BigInt_slice_word [OF ok, of "p + 1 + i"] by simp
  qed
  have "mapS (\<lambda>i. BigInt (''0x'' @ js_slice ?h ((p + 1 + i) * 64) ((p + 1 + i) * 64 + 64)))
          [0..<length xs] = Inr (map (\<lambda>i. xs ! i) [0..<length xs])"
    using elem by (intro mapS_all_Inr) simp
  then show ?thesis
    using BigInt_slice_word [OF ok k] BigInt_slice_word [OF ok p] o l
    by (simp add: abiDecodeUint256Array_def Let_def map_nth add.commute)
qed

lemma slice_last_word_hex: "word_ok w \<Longrightarrow> slice_last 64 (word_hex w) = word_hex w"
  by (simp add: slice_last_def)

lemma lower_digit_char: "d < 16 \<Longrightarrow> lower_char (digit_char d) = digit_char d"
  by (auto simp: lower_char_def digit_char_def Let_def)

lemma lower_nat_str: "toLowerCase (nat_str 16 n) = nat_str 16 n"
proof (induction "16 :: nat" n rule: nat_str.induct)
  case (1 n)
  then show ?case
    by (subst (1 2) nat_str.simps) (simp add: toLowerCase_def lower_digit_char)
qed

lemma lower_word_hex: "word_ok w \<Longrightarrow> toLowerCase (word_hex w) = word_hex w"
  using lower_nat_str
  by (simp add: word_hex_nat padStart_def toLowerCase_def lower_char_def map_replicate_const)

end
