(* ===== verification/Database.thy ===== *)
theory Database
  imports GoldTopics Finality
begin

text \<open>
  The row types of \<^verbatim>\<open>packages/indexer/src/writer-types.ts\<close> and the database the indexer
  writes, with the constraints of the migrations (unique keys, foreign keys, checks, column
  ranges).  A table holds the rows as the writer was given them: an integer column keeps the
  number, a \<^verbatim>\<open>numeric\<close> column the decimal text, read by \<open>numeric_in\<close>.  Row ids and the
  columns the indexer never writes are left out.
  \<open>db_wf\<close> is the invariant the schema enforces; it is proved here for the parts every
  writer shares (growing parent tables, changing the finality of rows, deleting rows).
\<close>

section \<open>Rows\<close>

record BlockRow =
  blk_number :: int
  blk_hash :: string
  blk_parentHash :: string
  blk_timestamp :: js_date
  blk_validatorAddress :: string
  blk_gasUsed :: int
  blk_gasLimit :: int
  blk_finalityStatus :: FinalityStatus

record TransactionRow =
  tx_hash :: string
  tx_blockNumber :: jsnum
  tx_fromAddress :: string
  tx_toAddress :: "string option"
  tx_value :: string
  tx_gas :: int
  tx_gasPrice :: "string option"
  tx_maxFeePerGas :: "string option"
  tx_maxPriorityFeePerGas :: "string option"
  tx_input :: string
  tx_nonce :: int
  tx_transactionIndex :: jsnum
  tx_status :: jsnum
  tx_finalityStatus :: FinalityStatus

record ReceiptRow =
  rcpt_transactionHash :: string
  rcpt_cumulativeGasUsed :: int
  rcpt_gasUsed :: int
  rcpt_contractAddress :: "string option"
  rcpt_status :: jsnum
  rcpt_logsBloom :: string

record LogRow =
  log_transactionHash :: string
  log_blockNumber :: jsnum
  log_address :: string
  log_topics :: "string list"
  log_data :: string
  log_logIndex :: jsnum
  log_finalityStatus :: FinalityStatus

record InternalTxRow =
  itx_transactionHash :: string
  itx_blockNumber :: jsnum
  itx_fromAddress :: string
  itx_toAddress :: "string option"
  itx_value :: string
  itx_type :: "string option"
  itx_traceAddress :: string
  itx_error :: "string option"
  itx_finalityStatus :: FinalityStatus

datatype TokenStandard = Erc20 | Erc721 | Erc1155

record TokenTransferRow =
  tt_blockNumber :: jsnum
  tt_transactionHash :: string
  tt_contractAddress :: string
  tt_fromAddress :: string
  tt_toAddress :: string
  tt_tokenStandard :: TokenStandard
  tt_tokenId :: "string option"
  tt_amount :: string
  tt_logIndex :: jsnum
  tt_finalityStatus :: FinalityStatus

record BridgeTransferRow =
  br_routeAsset :: RouteAsset
  br_rootAmount :: string
  br_childAmount :: string
  br_bridgeState :: BridgeState
  br_finalityStatus :: FinalityStatus
  br_rootTxHash :: "string option"
  br_childTxHash :: "string option"
  br_direction :: BridgeDirection
  br_sourceLayer :: SourceLayer
  br_receiptCorrelationId :: string
  br_amountExact :: bool

record StakingEventRow =
  st_blockNumber :: jsnum
  st_transactionHash :: string
  st_eventType :: string
  st_stakerAddress :: string
  st_amount :: string
  st_stakeAsset :: StakeAsset
  st_validatorAddress :: "string option"
  st_finalityStatus :: FinalityStatus

record ValidatorEventRow =
  ve_blockNumber :: jsnum
  ve_transactionHash :: string
  ve_eventType :: string
  ve_validatorAddress :: string
  ve_amount :: "string option"
  ve_commissionBps :: jsnum
  ve_jailed :: bool
  ve_elected :: bool
  ve_finalityStatus :: FinalityStatus

record GovernanceEventRow =
  gov_blockNumber :: jsnum
  gov_transactionHash :: string
  gov_eventType :: string
  gov_proposerAddress :: "string option"
  gov_voterAddress :: "string option"
  gov_proposalId :: "string option"
  gov_support :: "GovernanceSupport option"
  gov_timelockEta :: "js_date option"
  gov_finalityStatus :: FinalityStatus

record CheckpointRow =
  cp_blockNumber :: jsnum
  cp_checkpointHash :: string
  cp_validatorSetHash :: string
  cp_chainStatus :: ChainStatus
  cp_finalityStatus :: FinalityStatus

section \<open>Numeric columns\<close>

datatype numeric = NumInt int | NumNaN | NumInf bool

text \<open>
  The texts the indexer writes into numeric columns: integers in plain or exponent form, and
  what \<^verbatim>\<open>toString\<close> prints for the numbers that are no integers.
\<close>

definition numeric_in :: "string \<Rightarrow> js_error + numeric" where
  "numeric_in s =
     (if s = ''NaN'' then Inr NumNaN
      else if s = ''Infinity'' then Inr (NumInf False)
      else if s = ''-Infinity'' then Inr (NumInf True)
      else
        (let neg = (s \<noteq> [] \<and> hd s = CHR ''-'');
             t = (if neg then tl s else s);
             mant = takeWhile (\<lambda>c. c \<noteq> CHR ''e'') t;
             rest = dropWhile (\<lambda>c. c \<noteq> CHR ''e'') t;
             ip = takeWhile (\<lambda>c. c \<noteq> CHR ''.'') mant;
             fd = drop 1 (dropWhile (\<lambda>c. c \<noteq> CHR ''.'') mant);
             exp_ok = (rest = [] \<or> (startsWith rest ''e+'' \<and> 2 < length rest \<and>
                         list_all (is_digit 10) (drop 2 rest)));
             ex = (if rest = [] then 0 else digits_val 10 (drop 2 rest));
             v = int (digits_val 10 (ip @ fd)) * 10 ^ (ex - length fd)
         in if ip \<noteq> [] \<and> list_all (is_digit 10) (ip @ fd) \<and> exp_ok \<and> length fd \<le> ex
            then Inr (NumInt (if neg then - v else v))
            else Inl (SqlError (InvalidText ''numeric''))))"

definition numeric_ok :: "string \<Rightarrow> bool" where
  "numeric_ok s = (case numeric_in s of Inl _ \<Rightarrow> False | Inr _ \<Rightarrow> True)"

definition numeric_opt_ok :: "string option \<Rightarrow> bool" where
  "numeric_opt_ok v = (case v of None \<Rightarrow> True | Some s \<Rightarrow> numeric_ok s)"

text \<open>The value of a stored text; amounts are integers.\<close>

definition numeric_val :: "string \<Rightarrow> numeric" where
  "numeric_val s = (case numeric_in s of Inl _ \<Rightarrow> NumNaN | Inr v \<Rightarrow> v)"

definition amount_val :: "string \<Rightarrow> int" where
  "amount_val s = (case numeric_val s of NumInt i \<Rightarrow> i | _ \<Rightarrow> 0)"

text \<open>Integer columns reject what does not fit them, NaN and Infinity included.\<close>

definition fits :: "nat \<Rightarrow> int \<Rightarrow> bool" where
  "fits bits i \<longleftrightarrow> - (2 ^ (bits - 1)) \<le> i \<and> i < 2 ^ (bits - 1)"

definition number_fits :: "nat \<Rightarrow> jsnum \<Rightarrow> bool" where
  "number_fits bits n = (case n of JNum i \<Rightarrow> fits bits i | _ \<Rightarrow> False)"

definition date_ok :: "js_date \<Rightarrow> bool" where
  "date_ok d = (case d of DateMs _ \<Rightarrow> True | InvalidDate \<Rightarrow> False)"

lemma numeric_in_digits:
  assumes "ds \<noteq> []" and "list_all (is_digit 10) ds"
  shows "numeric_in ds = Inr (NumInt (int (digits_val 10 ds)))"
    and "numeric_in (''-'' @ ds) = Inr (NumInt (- int (digits_val 10 ds)))"
proof -
  have dig: "is_digit 10 c \<Longrightarrow> c \<noteq> CHR ''e'' \<and> c \<noteq> CHR ''.'' \<and> c \<noteq> CHR ''-'' \<and> c \<noteq> CHR ''N'' \<and> c \<noteq> CHR ''I''"
    for c by (auto simp: is_digit_def digit_value_def)
  then have no: "c \<noteq> CHR ''e''" "c \<noteq> CHR ''.''" if "c \<in> set ds" for c
    using assms(2) that by (auto simp: list_all_iff)
  have tw: "takeWhile (\<lambda>c. c \<noteq> CHR ''e'') ds = ds" "takeWhile (\<lambda>c. c \<noteq> CHR ''.'') ds = ds"
    "dropWhile (\<lambda>c. c \<noteq> CHR ''e'') ds = []" "dropWhile (\<lambda>c. c \<noteq> CHR ''.'') ds = []"
    using no by (auto simp: dropWhile_eq_Nil_conv)
  have h: "is_digit 10 (hd ds)" using assms by (cases ds) auto
  have ne: "ds \<noteq> ''NaN''" "ds \<noteq> ''Infinity''" "ds \<noteq> ''-Infinity''" "ds \<noteq> ''Infinity''"
    using dig [OF h] by auto
  show "numeric_in ds = Inr (NumInt (int (digits_val 10 ds)))"
    using assms dig [OF h] ne no by (simp add: numeric_in_def Let_def tw)
  show "numeric_in (''-'' @ ds) = Inr (NumInt (- int (digits_val 10 ds)))"
    using assms ne no by (simp add: numeric_in_def Let_def tw)
qed

text \<open>An integer printed in base 10 is read back by a numeric column.\<close>

lemma numeric_in_bigint_str: "numeric_in (bigint_str 10 i) = Inr (NumInt i)"
proof (cases "i < 0")
  case True
  then show ?thesis
    using numeric_in_digits(2) [of "nat_str 10 (nat (- i))"] by (simp add: bigint_str_def nat_str_digits)
next
  case False
  then show ?thesis
    using numeric_in_digits(1) [of "nat_str 10 (nat i)"] by (simp add: bigint_str_def nat_str_digits)
qed

lemma amount_val_bigint_str [simp]: "amount_val (bigint_str 10 i) = i"
  by (simp add: amount_val_def numeric_val_def numeric_in_bigint_str)

section \<open>Tables\<close>

record ContractRow =
  c_address :: string
  c_bytecode :: "string option"

record TokenContractRow =
  tc_address :: string
  tc_type :: TokenStandard
  tc_name :: "string option"
  tc_symbol :: "string option"
  tc_decimals :: "jsnum option"

record TokenBalanceRow =
  tb_address :: string
  tb_contractAddress :: string
  tb_tokenId :: numeric
  tb_balance :: int

record GoldSupplyRow =
  gs_tokenId :: numeric
  gs_supply :: int

record db =
  blocks :: "BlockRow list"
  transactions :: "TransactionRow list"
  receipts :: "ReceiptRow list"
  logs :: "LogRow list"
  internal_txs :: "InternalTxRow list"
  addresses :: "string list"
  contracts :: "ContractRow list"
  token_contracts :: "TokenContractRow list"
  token_transfers :: "TokenTransferRow list"
  token_balances :: "TokenBalanceRow list"
  bridge_transfers :: "BridgeTransferRow list"
  staking_events :: "StakingEventRow list"
  validator_events :: "ValidatorEventRow list"
  governance_events :: "GovernanceEventRow list"
  checkpoints :: "CheckpointRow list"
  gold_supply :: "GoldSupplyRow list"

definition empty_db :: db where
  "empty_db = \<lparr>blocks = [], transactions = [], receipts = [], logs = [], internal_txs = [],
     addresses = [], contracts = [], token_contracts = [], token_transfers = [],
     token_balances = [], bridge_transfers = [], staking_events = [], validator_events = [],
     governance_events = [], checkpoints = [], gold_supply = []\<rparr>"

section \<open>Schema invariant\<close>

definition block_nums :: "BlockRow list \<Rightarrow> jsnum set" where
  "block_nums bs = (\<lambda>b. JNum (blk_number b)) ` set bs"

definition tx_hashes :: "TransactionRow list \<Rightarrow> string set" where
  "tx_hashes ts = tx_hash ` set ts"

definition wf_blocks :: "BlockRow list \<Rightarrow> bool" where
  "wf_blocks bs \<longleftrightarrow> distinct (map blk_number bs) \<and> distinct (map blk_hash bs)"

definition wf_txs :: "jsnum set \<Rightarrow> TransactionRow list \<Rightarrow> bool" where
  "wf_txs B ts \<longleftrightarrow> distinct (map tx_hash ts) \<and> (\<forall>r \<in> set ts. tx_blockNumber r \<in> B)"

definition wf_receipts :: "string set \<Rightarrow> ReceiptRow list \<Rightarrow> bool" where
  "wf_receipts T rs \<longleftrightarrow> distinct (map rcpt_transactionHash rs) \<and> rcpt_transactionHash ` set rs \<subseteq> T"

text \<open>Rows of a table that refers to a block and a transaction.\<close>

definition refs_ok :: "('r \<Rightarrow> jsnum) \<Rightarrow> ('r \<Rightarrow> string) \<Rightarrow> jsnum set \<Rightarrow> string set \<Rightarrow> 'r list \<Rightarrow> bool" where
  "refs_ok blk tx B T rs \<longleftrightarrow> (\<forall>r \<in> set rs. blk r \<in> B \<and> tx r \<in> T)"

definition tt_key :: "TokenTransferRow \<Rightarrow> string \<times> jsnum \<times> numeric option" where
  "tt_key r = (tt_transactionHash r, tt_logIndex r, map_option numeric_val (tt_tokenId r))"

definition tt_id_ok :: "TokenTransferRow \<Rightarrow> bool" where
  "tt_id_ok r \<longleftrightarrow> (tt_tokenStandard r \<noteq> Erc1155 \<or> tt_tokenId r \<noteq> None) \<and>
     (tt_tokenStandard r \<noteq> Erc721 \<or> tt_tokenId r \<noteq> None)"

definition wf_transfers :: "string set \<Rightarrow> TokenTransferRow list \<Rightarrow> bool" where
  "wf_transfers C rs \<longleftrightarrow> (\<forall>r \<in> set rs. tt_contractAddress r \<in> C \<and> tt_id_ok r) \<and>
     distinct (map tt_key (filter (\<lambda>r. tt_tokenId r \<noteq> None) rs))"

definition tb_key :: "TokenBalanceRow \<Rightarrow> string \<times> string \<times> numeric" where
  "tb_key r = (tb_address r, tb_contractAddress r, tb_tokenId r)"

definition wf_balances :: "string set \<Rightarrow> string set \<Rightarrow> TokenBalanceRow list \<Rightarrow> bool" where
  "wf_balances A C rs \<longleftrightarrow> distinct (map tb_key rs) \<and>
     (\<forall>r \<in> set rs. tb_address r \<in> A \<and> tb_contractAddress r \<in> C)"

definition wf_contracts :: "string list \<Rightarrow> ContractRow list \<Rightarrow> TokenContractRow list \<Rightarrow> bool" where
  "wf_contracts as cs tcs \<longleftrightarrow> distinct as \<and> distinct (map c_address cs) \<and> c_address ` set cs \<subseteq> set as \<and>
     distinct (map tc_address tcs) \<and> tc_address ` set tcs \<subseteq> c_address ` set cs"

abbreviation token_addrs :: "db \<Rightarrow> string set" where
  "token_addrs d \<equiv> tc_address ` set (token_contracts d)"

definition wf_gold :: "jsnum set \<Rightarrow> string set \<Rightarrow> db \<Rightarrow> bool" where
  "wf_gold B T d \<longleftrightarrow>
     refs_ok st_blockNumber st_transactionHash B T (staking_events d) \<and>
     refs_ok ve_blockNumber ve_transactionHash B T (validator_events d) \<and>
     refs_ok gov_blockNumber gov_transactionHash B T (governance_events d) \<and>
     (\<forall>r \<in> set (checkpoints d). cp_blockNumber r \<in> B) \<and>
     distinct (map gs_tokenId (gold_supply d))"

definition wf_evm :: "jsnum set \<Rightarrow> string set \<Rightarrow> db \<Rightarrow> bool" where
  "wf_evm B T d \<longleftrightarrow>
     wf_txs B (transactions d) \<and> wf_receipts T (receipts d) \<and>
     refs_ok log_blockNumber log_transactionHash B T (logs d) \<and>
     refs_ok itx_blockNumber itx_transactionHash B T (internal_txs d) \<and>
     refs_ok tt_blockNumber tt_transactionHash B T (token_transfers d)"

definition db_wf :: "db \<Rightarrow> bool" where
  "db_wf d \<longleftrightarrow>
     wf_blocks (blocks d) \<and>
     wf_evm (block_nums (blocks d)) (tx_hashes (transactions d)) d \<and>
     wf_gold (block_nums (blocks d)) (tx_hashes (transactions d)) d \<and>
     wf_contracts (addresses d) (contracts d) (token_contracts d) \<and>
     wf_transfers (token_addrs d) (token_transfers d) \<and>
     wf_balances (set (addresses d)) (token_addrs d) (token_balances d)"

lemmas wf_defs =
  db_wf_def wf_evm_def wf_gold_def wf_blocks_def wf_txs_def wf_receipts_def refs_ok_def
  wf_transfers_def wf_balances_def wf_contracts_def

lemma empty_db_wf: "db_wf empty_db"
  by (simp add: wf_defs empty_db_def)

subsection \<open>Writing one table\<close>

text \<open>One rule per table: what its new rows have to satisfy.\<close>

lemma db_wf_refs:
  assumes "db_wf d"
  shows "refs_ok log_blockNumber log_transactionHash (block_nums (blocks d)) (tx_hashes (transactions d)) ls \<Longrightarrow>
      db_wf (d\<lparr>logs := ls\<rparr>)"
    "refs_ok itx_blockNumber itx_transactionHash (block_nums (blocks d)) (tx_hashes (transactions d)) is \<Longrightarrow>
      db_wf (d\<lparr>internal_txs := is\<rparr>)"
    "refs_ok st_blockNumber st_transactionHash (block_nums (blocks d)) (tx_hashes (transactions d)) ss \<Longrightarrow>
      db_wf (d\<lparr>staking_events := ss\<rparr>)"
    "refs_ok ve_blockNumber ve_transactionHash (block_nums (blocks d)) (tx_hashes (transactions d)) vs \<Longrightarrow>
      db_wf (d\<lparr>validator_events := vs\<rparr>)"
    "refs_ok gov_blockNumber gov_transactionHash (block_nums (blocks d)) (tx_hashes (transactions d)) gs \<Longrightarrow>
      db_wf (d\<lparr>governance_events := gs\<rparr>)"
    "(\<forall>r \<in> set cps. cp_blockNumber r \<in> block_nums (blocks d)) \<Longrightarrow> db_wf (d\<lparr>checkpoints := cps\<rparr>)"
    "distinct (map gs_tokenId gsup) \<Longrightarrow> db_wf (d\<lparr>gold_supply := gsup\<rparr>)"
    "db_wf (d\<lparr>bridge_transfers := bts\<rparr>)"
    "wf_receipts (tx_hashes (transactions d)) rs \<Longrightarrow> db_wf (d\<lparr>receipts := rs\<rparr>)"
    "wf_balances (set (addresses d)) (token_addrs d) bals \<Longrightarrow> db_wf (d\<lparr>token_balances := bals\<rparr>)"
  using assms by (simp_all add: db_wf_def wf_evm_def wf_gold_def)

lemma db_wf_transfers:
  assumes "db_wf d" and "wf_transfers (token_addrs d) ts"
    and "refs_ok tt_blockNumber tt_transactionHash (block_nums (blocks d)) (tx_hashes (transactions d)) ts"
  shows "db_wf (d\<lparr>token_transfers := ts\<rparr>)"
  using assms by (simp add: db_wf_def wf_evm_def wf_gold_def)

subsection \<open>Parents only grow\<close>

lemma refs_ok_mono: "refs_ok blk tx B T rs \<Longrightarrow> B \<subseteq> B' \<Longrightarrow> T \<subseteq> T' \<Longrightarrow> refs_ok blk tx B' T' rs"
  by (auto simp: refs_ok_def)

lemma wf_evm_mono: "wf_evm B T d \<Longrightarrow> B \<subseteq> B' \<Longrightarrow> T \<subseteq> T' \<Longrightarrow> wf_evm B' T' d"
  by (auto simp: wf_evm_def wf_txs_def wf_receipts_def elim: refs_ok_mono)

lemma wf_gold_mono: "wf_gold B T d \<Longrightarrow> B \<subseteq> B' \<Longrightarrow> T \<subseteq> T' \<Longrightarrow> wf_gold B' T' d"
  by (auto simp: wf_gold_def elim: refs_ok_mono)

lemma wf_transfers_mono: "wf_transfers C rs \<Longrightarrow> C \<subseteq> C' \<Longrightarrow> wf_transfers C' rs"
  by (auto simp: wf_transfers_def)

lemma wf_balances_mono: "wf_balances A C rs \<Longrightarrow> A \<subseteq> A' \<Longrightarrow> C \<subseteq> C' \<Longrightarrow> wf_balances A' C' rs"
  by (auto simp: wf_balances_def)

lemma db_wf_blocks:
  assumes "db_wf d" and "wf_blocks bs" and "block_nums (blocks d) \<subseteq> block_nums bs"
  shows "db_wf (d\<lparr>blocks := bs\<rparr>)"
proof -
  have "wf_evm (block_nums bs) (tx_hashes (transactions d)) d"
    and "wf_gold (block_nums bs) (tx_hashes (transactions d)) d"
    using assms by (auto simp: db_wf_def intro: wf_evm_mono wf_gold_mono)
  with assms show ?thesis by (simp add: db_wf_def wf_evm_def wf_gold_def)
qed

lemma db_wf_transactions:
  assumes "db_wf d" and "wf_txs (block_nums (blocks d)) ts"
    and "tx_hashes (transactions d) \<subseteq> tx_hashes ts"
  shows "db_wf (d\<lparr>transactions := ts\<rparr>)"
proof -
  have "wf_evm (block_nums (blocks d)) (tx_hashes ts) d"
    and "wf_gold (block_nums (blocks d)) (tx_hashes ts) d"
    using assms by (auto simp: db_wf_def intro: wf_evm_mono wf_gold_mono)
  with assms show ?thesis by (simp add: db_wf_def wf_evm_def wf_gold_def)
qed

lemma db_wf_contract_tables:
  assumes "db_wf d" and "wf_contracts as cs tcs"
    and "set (addresses d) \<subseteq> set as" and "token_addrs d \<subseteq> tc_address ` set tcs"
  shows "db_wf (d\<lparr>addresses := as, contracts := cs, token_contracts := tcs\<rparr>)"
proof -
  have "wf_transfers (tc_address ` set tcs) (token_transfers d)"
    and "wf_balances (set as) (tc_address ` set tcs) (token_balances d)"
    using assms by (auto simp: db_wf_def intro: wf_transfers_mono wf_balances_mono)
  with assms show ?thesis by (simp add: db_wf_def wf_evm_def wf_gold_def)
qed

subsection \<open>Rows removed, rows with another finality\<close>

lemma refs_ok_subset: "refs_ok blk tx B T rs \<Longrightarrow> set rs' \<subseteq> set rs \<Longrightarrow> refs_ok blk tx B T rs'"
  by (auto simp: refs_ok_def)

lemma refs_ok_delete [simp]: "refs_ok blk tx B T rs \<Longrightarrow> refs_ok blk tx B T (delete_where p rs)"
  by (auto simp: refs_ok_def)

lemma refs_ok_update:
  "refs_ok blk tx B T rs \<Longrightarrow> (\<And>r. blk (f r) = blk r) \<Longrightarrow> (\<And>r. tx (f r) = tx r) \<Longrightarrow>
   refs_ok blk tx B T (update_where p f rs)"
  by (auto simp: refs_ok_def)

lemma wf_transfers_delete [simp]: "wf_transfers C rs \<Longrightarrow> wf_transfers C (delete_where p rs)"
  unfolding wf_transfers_def
proof (elim conjE, intro conjI)
  assume d: "distinct (map tt_key (filter (\<lambda>r. tt_tokenId r \<noteq> None) rs))"
  have "filter (\<lambda>r. tt_tokenId r \<noteq> None) (delete_where p rs) =
        delete_where p (filter (\<lambda>r. tt_tokenId r \<noteq> None) rs)"
    by (simp add: delete_where_def conj_commute)
  then show "distinct (map tt_key (filter (\<lambda>r. tt_tokenId r \<noteq> None) (delete_where p rs)))"
    using distinct_map_delete_where [OF d] by simp
qed auto

lemma wf_transfers_update:
  assumes "wf_transfers C rs"
    and "\<And>r. tt_key (f r) = tt_key r" "\<And>r. tt_tokenStandard (f r) = tt_tokenStandard r"
      "\<And>r. tt_contractAddress (f r) = tt_contractAddress r" "\<And>r. tt_tokenId (f r) = tt_tokenId r"
  shows "wf_transfers C (update_where p f rs)"
proof -
  have "filter (\<lambda>r. tt_tokenId r \<noteq> None) (update_where p f rs) =
        update_where p f (filter (\<lambda>r. tt_tokenId r \<noteq> None) rs)"
    using assms(5) by (induction rs) (auto simp: update_where_def)
  then have "map tt_key (filter (\<lambda>r. tt_tokenId r \<noteq> None) (update_where p f rs)) =
             map tt_key (filter (\<lambda>r. tt_tokenId r \<noteq> None) rs)"
    by (simp add: map_update_where_key assms(2))
  with assms show ?thesis by (auto simp: wf_transfers_def tt_id_ok_def)
qed

section \<open>Tables with a finality column\<close>

text \<open>
  What the writers rely on for every table whose rows carry a block number and a finality
  status: setting the status changes nothing else they look at.  The three statements the
  writers issue against such a table are \<open>mark_at\<close> (mark a block's rows reverted),
  \<open>refresh_at\<close> (give the rows of a block that are not reverted a new status) and
  \<open>clear_at\<close> (delete a block's rows).
\<close>

definition refresh_at ::
  "('r \<Rightarrow> bool) \<Rightarrow> ('r \<Rightarrow> FinalityStatus) \<Rightarrow> (FinalityStatus \<Rightarrow> 'r \<Rightarrow> 'r) \<Rightarrow>
   FinalityStatus \<Rightarrow> 'r list \<Rightarrow> 'r list" where
  "refresh_at at fin set_fin status rs =
     update_where (\<lambda>r. at r \<and> fin r \<noteq> Reverted) (set_fin status) rs"

definition mark_at :: "('r \<Rightarrow> bool) \<Rightarrow> (FinalityStatus \<Rightarrow> 'r \<Rightarrow> 'r) \<Rightarrow> 'r list \<Rightarrow> 'r list" where
  "mark_at at set_fin rs = update_where at (set_fin Reverted) rs"

locale finality_table =
  fixes blk :: "'r \<Rightarrow> 'b"
    and fin :: "'r \<Rightarrow> FinalityStatus"
    and set_fin :: "FinalityStatus \<Rightarrow> 'r \<Rightarrow> 'r"
  assumes fin_set [simp]: "fin (set_fin st r) = st"
    and blk_set [simp]: "blk (set_fin st r) = blk r"
    and set_set [simp]: "set_fin st (set_fin st' r) = set_fin st r"
begin

lemma mark_at_reverted: "r \<in> set (mark_at (\<lambda>r. blk r = n) set_fin rs) \<Longrightarrow> blk r = n \<Longrightarrow> fin r = Reverted"
  unfolding mark_at_def set_update_where by (elim imageE) (simp split: if_splits)

lemma mark_at_other: "filter (\<lambda>r. blk r \<noteq> n) (mark_at (\<lambda>r. blk r = n) set_fin rs) = filter (\<lambda>r. blk r \<noteq> n) rs"
  unfolding mark_at_def by (rule filter_update_where) simp

lemma refresh_at_status:
  "r \<in> set (refresh_at (\<lambda>r. blk r = n) fin set_fin st rs) \<Longrightarrow> blk r = n \<Longrightarrow> fin r \<in> {st, Reverted}"
  unfolding refresh_at_def set_update_where by (elim imageE) (simp split: if_splits)

lemma refresh_at_other:
  "filter (\<lambda>r. blk r \<noteq> n) (refresh_at (\<lambda>r. blk r = n) fin set_fin st rs) = filter (\<lambda>r. blk r \<noteq> n) rs"
  unfolding refresh_at_def by (rule filter_update_where) simp

text \<open>A reverted row stays as it is: finality updates never bring it back.\<close>

lemma refresh_at_keeps_reverted:
  assumes "st \<noteq> Reverted"
  shows "filter (\<lambda>r. fin r = Reverted) (refresh_at at fin set_fin st rs) =
         filter (\<lambda>r. fin r = Reverted) rs"
  using assms unfolding refresh_at_def by (intro filter_update_where) simp

lemma refresh_at_twice:
  assumes "st' \<noteq> Reverted"
  shows "refresh_at (\<lambda>r. blk r = n) fin set_fin st (refresh_at (\<lambda>r. blk r = n) fin set_fin st' rs) =
         refresh_at (\<lambda>r. blk r = n) fin set_fin st rs"
  unfolding refresh_at_def update_where_def using assms by (simp, blast)

lemma refresh_at_blk: "map blk (refresh_at at fin set_fin st rs) = map blk rs"
  by (simp add: refresh_at_def map_update_where_key)

lemma mark_at_blk: "map blk (mark_at at set_fin rs) = map blk rs"
  by (simp add: mark_at_def map_update_where_key)

end

abbreviation set_blk_fin :: "FinalityStatus \<Rightarrow> BlockRow \<Rightarrow> BlockRow" where
  "set_blk_fin st r \<equiv> r\<lparr>blk_finalityStatus := st\<rparr>"
abbreviation set_tx_fin :: "FinalityStatus \<Rightarrow> TransactionRow \<Rightarrow> TransactionRow" where
  "set_tx_fin st r \<equiv> r\<lparr>tx_finalityStatus := st\<rparr>"
abbreviation set_log_fin :: "FinalityStatus \<Rightarrow> LogRow \<Rightarrow> LogRow" where
  "set_log_fin st r \<equiv> r\<lparr>log_finalityStatus := st\<rparr>"
abbreviation set_itx_fin :: "FinalityStatus \<Rightarrow> InternalTxRow \<Rightarrow> InternalTxRow" where
  "set_itx_fin st r \<equiv> r\<lparr>itx_finalityStatus := st\<rparr>"
abbreviation set_tt_fin :: "FinalityStatus \<Rightarrow> TokenTransferRow \<Rightarrow> TokenTransferRow" where
  "set_tt_fin st r \<equiv> r\<lparr>tt_finalityStatus := st\<rparr>"
abbreviation set_br_fin :: "FinalityStatus \<Rightarrow> BridgeTransferRow \<Rightarrow> BridgeTransferRow" where
  "set_br_fin st r \<equiv> r\<lparr>br_finalityStatus := st\<rparr>"
abbreviation set_st_fin :: "FinalityStatus \<Rightarrow> StakingEventRow \<Rightarrow> StakingEventRow" where
  "set_st_fin st r \<equiv> r\<lparr>st_finalityStatus := st\<rparr>"
abbreviation set_ve_fin :: "FinalityStatus \<Rightarrow> ValidatorEventRow \<Rightarrow> ValidatorEventRow" where
  "set_ve_fin st r \<equiv> r\<lparr>ve_finalityStatus := st\<rparr>"
abbreviation set_gov_fin :: "FinalityStatus \<Rightarrow> GovernanceEventRow \<Rightarrow> GovernanceEventRow" where
  "set_gov_fin st r \<equiv> r\<lparr>gov_finalityStatus := st\<rparr>"
abbreviation set_cp_fin :: "FinalityStatus \<Rightarrow> CheckpointRow \<Rightarrow> CheckpointRow" where
  "set_cp_fin st r \<equiv> r\<lparr>cp_finalityStatus := st\<rparr>"

interpretation fin_block: finality_table blk_number blk_finalityStatus set_blk_fin
  by unfold_locales simp_all
interpretation fin_tx: finality_table tx_blockNumber tx_finalityStatus set_tx_fin
  by unfold_locales simp_all
interpretation fin_log: finality_table log_blockNumber log_finalityStatus set_log_fin
  by unfold_locales simp_all
interpretation fin_itx: finality_table itx_blockNumber itx_finalityStatus set_itx_fin
  by unfold_locales simp_all
interpretation fin_transfer: finality_table tt_blockNumber tt_finalityStatus set_tt_fin
  by unfold_locales simp_all
interpretation fin_bridge: finality_table br_receiptCorrelationId br_finalityStatus set_br_fin
  by unfold_locales simp_all
interpretation fin_staking: finality_table st_blockNumber st_finalityStatus set_st_fin
  by unfold_locales simp_all
interpretation fin_validator: finality_table ve_blockNumber ve_finalityStatus set_ve_fin
  by unfold_locales simp_all
interpretation fin_governance: finality_table gov_blockNumber gov_finalityStatus set_gov_fin
  by unfold_locales simp_all
interpretation fin_checkpoint: finality_table cp_blockNumber cp_finalityStatus set_cp_fin
  by unfold_locales simp_all

end
