(* ===== verification/RpcTypes.thy ===== *)
theory RpcTypes
  imports Abi Database
begin

text \<open>
  \<^verbatim>\<open>packages/indexer/src/rpc/types.ts\<close>: what the node answers.  A client is the record of
  its four methods; the indexer only reads from it, and its answers are taken to be the same
  throughout one call of the indexer (the repository's own client, \<^verbatim>\<open>rpc/fixture-client.ts\<close>,
  serves one stage of a recorded chain at a time).
\<close>

record RpcLog =
  rl_transactionHash :: string
  rl_blockNumber :: string
  rl_address :: string
  rl_topics :: "string list"
  rl_data :: string
  rl_logIndex :: string

record RpcReceipt =
  rr_transactionHash :: string
  rr_blockNumber :: string
  rr_cumulativeGasUsed :: string
  rr_gasUsed :: string
  rr_contractAddress :: "string option"
  rr_status :: string
  rr_logsBloom :: string
  rr_logs :: "RpcLog list"

record RpcTransaction =
  rt_hash :: string
  rt_blockNumber :: string
  rt_from :: string
  rt_to :: "string option"
  rt_value :: string
  rt_gas :: string
  rt_gasPrice :: "string option"
  rt_maxFeePerGas :: "string option"
  rt_maxPriorityFeePerGas :: "string option"
  rt_input :: string
  rt_nonce :: string
  rt_transactionIndex :: string

record RpcBlock =
  rb_number :: string
  rb_hash :: string
  rb_parentHash :: string
  rb_timestamp :: string
  rb_miner :: string
  rb_gasUsed :: string
  rb_gasLimit :: string
  rb_transactions :: "RpcTransaction list"

datatype RpcTrace =
  RpcTrace (trace_type: string) (trace_from: string) (trace_to: "string option")
    (trace_value: "string option") (trace_error: "string option")
    (trace_address: "int list option") (trace_calls: "RpcTrace list option")

record RpcClient =
  getBlockNumber :: int
  getBlockByNumber :: "int \<Rightarrow> RpcBlock option"
  getTransactionReceipt :: "string \<Rightarrow> RpcReceipt option"
  getTransactionTraces :: "string \<Rightarrow> RpcTrace list"

section \<open>The fixture client\<close>

text \<open>
  \<^verbatim>\<open>rpc/fixture-client.ts\<close>: a recorded chain, in one stage or several.  JSON objects keyed
  by text are association lists.
\<close>

record FixtureData =
  fx_head :: string
  fx_blocks :: "(string \<times> RpcBlock) list"
  fx_receipts :: "(string \<times> RpcReceipt) list"
  fx_traces :: "(string \<times> RpcTrace list) list"

datatype Fixture = Single FixtureData | Staged "FixtureData list"

record FixtureRpcClient =
  stageIndex :: nat
  fixture_data :: Fixture

definition blockKey :: "int \<Rightarrow> string" where
  "blockKey blockNumber = ''0x'' @ bigint_str 16 blockNumber"

definition advanceStage :: "FixtureRpcClient \<Rightarrow> FixtureRpcClient" where
  "advanceStage c =
     (case fixture_data c of
        Single _ \<Rightarrow> c
      | Staged stages \<Rightarrow> if stageIndex c + 1 < length stages then c\<lparr>stageIndex := stageIndex c + 1\<rparr> else c)"

text \<open>\<^verbatim>\<open>stages[stageIndex] ?? stages[0]!\<close>; without stages the accesses that follow throw.\<close>

definition current_stage :: "FixtureRpcClient \<Rightarrow> js_error + FixtureData" where
  "current_stage c =
     (case fixture_data c of
        Single d \<Rightarrow> Inr d
      | Staged stages \<Rightarrow>
          if stageIndex c < length stages then Inr (stages ! stageIndex c)
          else (case stages of [] \<Rightarrow> Inl TypeError | d # _ \<Rightarrow> Inr d))"

definition fixture_getBlockNumber :: "FixtureRpcClient \<Rightarrow> js_error + jsnum" where
  "fixture_getBlockNumber c = bindS (current_stage c) (\<lambda>d. Inr (parseInt 16 (fx_head d)))"

definition fixture_getBlockByNumber :: "FixtureRpcClient \<Rightarrow> int \<Rightarrow> js_error + RpcBlock option" where
  "fixture_getBlockByNumber c blockNumber =
     bindS (current_stage c) (\<lambda>d. Inr (map_of (fx_blocks d) (blockKey blockNumber)))"

definition fixture_getTransactionReceipt :: "FixtureRpcClient \<Rightarrow> string \<Rightarrow> js_error + RpcReceipt option" where
  "fixture_getTransactionReceipt c txHash =
     bindS (current_stage c) (\<lambda>d. Inr (map_of (fx_receipts d) txHash))"

definition fixture_getTransactionTraces :: "FixtureRpcClient \<Rightarrow> string \<Rightarrow> js_error + RpcTrace list" where
  "fixture_getTransactionTraces c txHash =
     bindS (current_stage c) (\<lambda>d. Inr (case map_of (fx_traces d) txHash of None \<Rightarrow> [] | Some ts \<Rightarrow> ts))"

text \<open>The client the indexer is given for the current stage, when its head is a number.\<close>

definition fixture_client :: "FixtureData \<Rightarrow> int \<Rightarrow> RpcClient" where
  "fixture_client d head = \<lparr>
     getBlockNumber = head,
     getBlockByNumber = (\<lambda>n. map_of (fx_blocks d) (blockKey n)),
     getTransactionReceipt = map_of (fx_receipts d),
     getTransactionTraces = (\<lambda>h. case map_of (fx_traces d) h of None \<Rightarrow> [] | Some ts \<Rightarrow> ts)\<rparr>"

lemma advanceStage_bound:
  assumes "fixture_data c = Staged stages" and "stageIndex c < length stages"
  shows "stageIndex (advanceStage c) < length stages"
  using assms by (simp add: advanceStage_def)

text \<open>Different block numbers have different keys.\<close>

lemma nat_str_inj: "2 \<le> b \<Longrightarrow> b \<le> 36 \<Longrightarrow> nat_str b m = nat_str b n \<Longrightarrow> m = n"
  by (metis digits_val_nat_str)

lemma blockKey_inj: "0 \<le> m \<Longrightarrow> 0 \<le> n \<Longrightarrow> blockKey m = blockKey n \<Longrightarrow> m = n"
  by (auto simp: blockKey_def bigint_str_def dest: nat_str_inj [rotated 2])

end
