(* ===== verification/WriterEvm.thy ===== *)
theory WriterEvm
  imports Database
begin

text \<open>
  \<^verbatim>\<open>packages/indexer/src/writer-evm.ts\<close>: the SQL of the generic EVM tables.  Every function
  is the sequence of its statements; a statement throws when a value does not fit its column or a
  constraint of the schema fails.  The lemmas: every function preserves \<open>db_wf\<close>, and the
  rows each one leaves behind.
\<close>

section \<open>Definitions\<close>

definition ensureAddress :: "string \<Rightarrow> (db, unit) js" where
  "ensureAddress address = modifyM (\<lambda>d. d\<lparr>addresses := List.insert address (addresses d)\<rparr>)"

definition upsertBlock :: "BlockRow \<Rightarrow> (db, unit) js" where
  "upsertBlock row = statement
     [(\<lambda>d. fits 64 (blk_number row), SqlError (OutOfRange ''number'')),
      (\<lambda>d. date_ok (blk_timestamp row), SqlError (InvalidText ''timestamp'')),
      (\<lambda>d. fits 64 (blk_gasUsed row), SqlError (OutOfRange ''gas_used'')),
      (\<lambda>d. fits 64 (blk_gasLimit row), SqlError (OutOfRange ''gas_limit'')),
      (\<lambda>d. \<forall>b \<in> set (blocks d). blk_hash b = blk_hash row \<longrightarrow> blk_number b = blk_number row,
       SqlError (UniqueViolation ''blocks_hash''))]
     (\<lambda>d. d\<lparr>blocks := upsert (\<lambda>b. blk_number b = blk_number row) (\<lambda>_. row) row (blocks d)\<rparr>)"

definition markEvmDerivedRowsReverted :: "int \<Rightarrow> (db, unit) js" where
  "markEvmDerivedRowsReverted blockNumber =
     thenM (modifyM (\<lambda>d. d\<lparr>transactions :=
              mark_at (\<lambda>r. tx_blockNumber r = JNum blockNumber) set_tx_fin (transactions d)\<rparr>))
     (thenM (modifyM (\<lambda>d. d\<lparr>logs :=
              mark_at (\<lambda>r. log_blockNumber r = JNum blockNumber) set_log_fin (logs d)\<rparr>))
     (thenM (modifyM (\<lambda>d. d\<lparr>internal_txs :=
              mark_at (\<lambda>r. itx_blockNumber r = JNum blockNumber) set_itx_fin (internal_txs d)\<rparr>))
            (modifyM (\<lambda>d. d\<lparr>token_transfers :=
              mark_at (\<lambda>r. tt_blockNumber r = JNum blockNumber) set_tt_fin (token_transfers d)\<rparr>))))"

text \<open>\<^verbatim>\<open>SELECT hash FROM transactions WHERE block_number = $1\<close>\<close>

definition block_tx_hashes :: "int \<Rightarrow> db \<Rightarrow> string list" where
  "block_tx_hashes blockNumber d =
     map tx_hash (filter (\<lambda>t. tx_blockNumber t = JNum blockNumber) (transactions d))"

definition clearEvmDerivedRowsForBlock :: "int \<Rightarrow> (db, unit) js" where
  "clearEvmDerivedRowsForBlock blockNumber =
     thenM (modifyM (\<lambda>d. d\<lparr>token_transfers :=
              delete_where (\<lambda>r. tt_blockNumber r = JNum blockNumber) (token_transfers d)\<rparr>))
     (thenM (modifyM (\<lambda>d. d\<lparr>internal_txs :=
              delete_where (\<lambda>r. itx_blockNumber r = JNum blockNumber) (internal_txs d)\<rparr>))
     (thenM (modifyM (\<lambda>d. d\<lparr>logs :=
              delete_where (\<lambda>r. log_blockNumber r = JNum blockNumber) (logs d)\<rparr>))
            (modifyM (\<lambda>d. d\<lparr>receipts :=
              delete_where (\<lambda>r. rcpt_transactionHash r \<in> set (block_tx_hashes blockNumber d)) (receipts d)\<rparr>))))"

definition markOrphanedTransactionsReverted :: "int \<Rightarrow> string list \<Rightarrow> (db, unit) js" where
  "markOrphanedTransactionsReverted blockNumber activeTxHashes =
     (if activeTxHashes = []
      then modifyM (\<lambda>d. d\<lparr>transactions :=
             mark_at (\<lambda>r. tx_blockNumber r = JNum blockNumber) set_tx_fin (transactions d)\<rparr>)
      else modifyM (\<lambda>d. d\<lparr>transactions :=
             mark_at (\<lambda>r. tx_blockNumber r = JNum blockNumber \<and> tx_hash r \<notin> set activeTxHashes)
               set_tx_fin (transactions d)\<rparr>))"

definition ensure_optional :: "string option \<Rightarrow> (db, unit) js" where
  "ensure_optional a = (if truthy a then (case a of None \<Rightarrow> returnM () | Some x \<Rightarrow> ensureAddress x) else returnM ())"

definition upsertTransaction :: "TransactionRow \<Rightarrow> (db, unit) js" where
  "upsertTransaction row =
     thenM (ensureAddress (tx_fromAddress row))
     (thenM (ensure_optional (tx_toAddress row))
     (statement
       [(\<lambda>d. number_fits 64 (tx_blockNumber row), SqlError (OutOfRange ''block_number'')),
        (\<lambda>d. numeric_ok (tx_value row), SqlError (InvalidText ''value'')),
        (\<lambda>d. fits 64 (tx_gas row), SqlError (OutOfRange ''gas'')),
        (\<lambda>d. numeric_opt_ok (tx_gasPrice row), SqlError (InvalidText ''gas_price'')),
        (\<lambda>d. numeric_opt_ok (tx_maxFeePerGas row), SqlError (InvalidText ''max_fee_per_gas'')),
        (\<lambda>d. numeric_opt_ok (tx_maxPriorityFeePerGas row), SqlError (InvalidText ''max_priority_fee_per_gas'')),
        (\<lambda>d. fits 64 (tx_nonce row), SqlError (OutOfRange ''nonce'')),
        (\<lambda>d. number_fits 32 (tx_transactionIndex row), SqlError (OutOfRange ''transaction_index'')),
        (\<lambda>d. number_fits 16 (tx_status row), SqlError (OutOfRange ''status'')),
        (\<lambda>d. tx_blockNumber row \<in> block_nums (blocks d), SqlError (ForeignKeyViolation ''block_number''))]
       (\<lambda>d. d\<lparr>transactions := upsert (\<lambda>t. tx_hash t = tx_hash row) (\<lambda>_. row) row (transactions d)\<rparr>)))"

definition upsertReceipt :: "ReceiptRow \<Rightarrow> (db, unit) js" where
  "upsertReceipt row = statement
     [(\<lambda>d. fits 64 (rcpt_cumulativeGasUsed row), SqlError (OutOfRange ''cumulative_gas_used'')),
      (\<lambda>d. fits 64 (rcpt_gasUsed row), SqlError (OutOfRange ''gas_used'')),
      (\<lambda>d. number_fits 16 (rcpt_status row), SqlError (OutOfRange ''status'')),
      (\<lambda>d. rcpt_transactionHash row \<in> tx_hashes (transactions d),
       SqlError (ForeignKeyViolation ''transaction_hash''))]
     (\<lambda>d. d\<lparr>receipts := upsert (\<lambda>r. rcpt_transactionHash r = rcpt_transactionHash row) (\<lambda>_. row) row
            (receipts d)\<rparr>)"

text \<open>The foreign keys of a row that names a transaction and a block.\<close>

definition fk_checks :: "jsnum \<Rightarrow> string \<Rightarrow> ((db \<Rightarrow> bool) \<times> js_error) list" where
  "fk_checks blockNumber txHash =
     [(\<lambda>d. number_fits 64 blockNumber, SqlError (OutOfRange ''block_number'')),
      (\<lambda>d. blockNumber \<in> block_nums (blocks d), SqlError (ForeignKeyViolation ''block_number'')),
      (\<lambda>d. txHash \<in> tx_hashes (transactions d), SqlError (ForeignKeyViolation ''transaction_hash''))]"

definition upsertLog :: "LogRow \<Rightarrow> (db, unit) js" where
  "upsertLog row =
     thenM (ensureAddress (log_address row))
     (statement
       ([(\<lambda>d. number_fits 32 (log_logIndex row), SqlError (OutOfRange ''log_index''))]
         @ fk_checks (log_blockNumber row) (log_transactionHash row))
       (\<lambda>d. d\<lparr>logs := logs d @ [row]\<rparr>))"

definition upsertInternalTx :: "InternalTxRow \<Rightarrow> (db, unit) js" where
  "upsertInternalTx row =
     thenM (ensureAddress (itx_fromAddress row))
     (thenM (ensure_optional (itx_toAddress row))
     (statement
       ([(\<lambda>d. numeric_ok (itx_value row), SqlError (InvalidText ''value''))]
         @ fk_checks (itx_blockNumber row) (itx_transactionHash row))
       (\<lambda>d. d\<lparr>internal_txs := internal_txs d @ [row]\<rparr>)))"

text \<open>\<^verbatim>\<open>COALESCE(EXCLUDED.c, t.c)\<close>\<close>

definition coalesce :: "'a option \<Rightarrow> 'a option \<Rightarrow> 'a option" where
  "coalesce a b = (case a of None \<Rightarrow> b | Some x \<Rightarrow> Some x)"

definition upsertContract :: "string \<Rightarrow> string option \<Rightarrow> (db, unit) js" where
  "upsertContract address bytecode =
     thenM (ensureAddress address)
     (statement
       [(\<lambda>d. address \<in> set (addresses d), SqlError (ForeignKeyViolation ''address''))]
       (\<lambda>d. d\<lparr>contracts := upsert (\<lambda>c. c_address c = address)
              (\<lambda>c. c\<lparr>c_bytecode := coalesce bytecode (c_bytecode c)\<rparr>)
              \<lparr>c_address = address, c_bytecode = bytecode\<rparr> (contracts d)\<rparr>))"

definition upsertTokenContract ::
  "string \<Rightarrow> TokenStandard \<Rightarrow> string option \<Rightarrow> string option \<Rightarrow> jsnum option \<Rightarrow> (db, unit) js" where
  "upsertTokenContract address type name symbol decimals =
     thenM (upsertContract address None)
     (statement
       [(\<lambda>d. case decimals of None \<Rightarrow> True | Some n \<Rightarrow> number_fits 16 n, SqlError (OutOfRange ''decimals'')),
        (\<lambda>d. address \<in> c_address ` set (contracts d), SqlError (ForeignKeyViolation ''address''))]
       (\<lambda>d. d\<lparr>token_contracts := upsert (\<lambda>c. tc_address c = address)
              (\<lambda>c. c\<lparr>tc_type := type, tc_name := coalesce name (tc_name c),
                     tc_symbol := coalesce symbol (tc_symbol c),
                     tc_decimals := coalesce decimals (tc_decimals c)\<rparr>)
              \<lparr>tc_address = address, tc_type = type, tc_name = name, tc_symbol = symbol,
               tc_decimals = decimals\<rparr> (token_contracts d)\<rparr>))"

text \<open>Null token ids are distinct for the unique key, so an ERC-20 row never conflicts.\<close>

definition transfer_conflict :: "TokenTransferRow \<Rightarrow> TokenTransferRow \<Rightarrow> bool" where
  "transfer_conflict row r \<longleftrightarrow> tt_tokenId row \<noteq> None \<and> tt_key r = tt_key row"

definition upsertTokenTransfer :: "TokenTransferRow \<Rightarrow> (db, unit) js" where
  "upsertTokenTransfer row =
     thenM (ensureAddress (tt_fromAddress row))
     (thenM (ensureAddress (tt_toAddress row))
     (thenM (upsertTokenContract (tt_contractAddress row) (tt_tokenStandard row) None None None)
     (statement
       ([(\<lambda>d. numeric_opt_ok (tt_tokenId row), SqlError (InvalidText ''token_id'')),
         (\<lambda>d. numeric_ok (tt_amount row), SqlError (InvalidText ''amount'')),
         (\<lambda>d. number_fits 32 (tt_logIndex row), SqlError (OutOfRange ''log_index'')),
         (\<lambda>d. tt_id_ok row, SqlError (CheckViolation ''token_id_required'')),
         (\<lambda>d. tt_contractAddress row \<in> token_addrs d, SqlError (ForeignKeyViolation ''contract_address''))]
         @ fk_checks (tt_blockNumber row) (tt_transactionHash row))
       (\<lambda>d. d\<lparr>token_transfers := upsert (transfer_conflict row) (\<lambda>_. row) row (token_transfers d)\<rparr>))))"

definition updateEvmFinalityForBlock :: "int \<Rightarrow> FinalityStatus \<Rightarrow> (db, unit) js" where
  "updateEvmFinalityForBlock blockNumber status =
     thenM (modifyM (\<lambda>d. d\<lparr>blocks :=
              refresh_at (\<lambda>r. blk_number r = blockNumber) blk_finalityStatus set_blk_fin status (blocks d)\<rparr>))
     (thenM (modifyM (\<lambda>d. d\<lparr>transactions :=
              refresh_at (\<lambda>r. tx_blockNumber r = JNum blockNumber) tx_finalityStatus set_tx_fin status
                (transactions d)\<rparr>))
     (thenM (modifyM (\<lambda>d. d\<lparr>logs :=
              refresh_at (\<lambda>r. log_blockNumber r = JNum blockNumber) log_finalityStatus set_log_fin status
                (logs d)\<rparr>))
     (thenM (modifyM (\<lambda>d. d\<lparr>internal_txs :=
              refresh_at (\<lambda>r. itx_blockNumber r = JNum blockNumber) itx_finalityStatus set_itx_fin status
                (internal_txs d)\<rparr>))
            (modifyM (\<lambda>d. d\<lparr>token_transfers :=
              refresh_at (\<lambda>r. tt_blockNumber r = JNum blockNumber) tt_finalityStatus set_tt_fin status
                (token_transfers d)\<rparr>)))))"

definition getBlockHashAtNumber :: "int \<Rightarrow> db \<Rightarrow> string option" where
  "getBlockHashAtNumber blockNumber d =
     (case filter (\<lambda>b. blk_number b = blockNumber) (blocks d) of
        [] \<Rightarrow> None
      | row # _ \<Rightarrow> if blk_finalityStatus row = Reverted then None else Some (blk_hash row))"

section \<open>The schema invariant\<close>

lemma preserves_ensureAddress [preserves_intros]: "preserves db_wf (ensureAddress a)"
  unfolding ensureAddress_def
proof (rule preserves_modify)
  fix d
  assume wf: "db_wf d"
  then have "wf_contracts (List.insert a (addresses d)) (contracts d) (token_contracts d)"
    by (auto simp: db_wf_def wf_contracts_def)
  then show "db_wf (d\<lparr>addresses := List.insert a (addresses d)\<rparr>)"
    using db_wf_contract_tables [OF wf, of "List.insert a (addresses d)" "contracts d" "token_contracts d"]
    by auto
qed

lemma preserves_ensure_optional [preserves_intros]: "preserves db_wf (ensure_optional a)"
  unfolding ensure_optional_def by (intro preserves_intros)

lemma block_nums_upsert: "block_nums bs \<subseteq> block_nums (upsert (\<lambda>b. blk_number b = blk_number row) (\<lambda>_. row) row bs)"
  by (auto simp: block_nums_def set_upsert_replace)

lemma distinct_hash_upsert:
  assumes "distinct (map blk_hash bs)" and "distinct (map blk_number bs)"
    and "\<forall>b \<in> set bs. blk_hash b = blk_hash row \<longrightarrow> blk_number b = blk_number row"
  shows "distinct (map blk_hash (upsert (\<lambda>b. blk_number b = blk_number row) (\<lambda>_. row) row bs))"
proof (cases "\<exists>b \<in> set bs. blk_number b = blk_number row")
  case True
  with distinct_map_replace_one [OF assms(1,2), of row] assms(3) show ?thesis by (simp add: upsert_def)
next
  case False
  with assms show ?thesis by (auto simp: upsert_def)
qed

lemma preserves_upsertBlock [preserves_intros]: "preserves db_wf (upsertBlock row)"
  unfolding upsertBlock_def
proof (rule preserves_statement, goal_cases)
  case (1 d)
  let ?bs = "upsert (\<lambda>b. blk_number b = blk_number row) (\<lambda>_. row) row (blocks d)"
  from 1(2) have hash: "\<forall>b \<in> set (blocks d). blk_hash b = blk_hash row \<longrightarrow> blk_number b = blk_number row"
    by simp
  from 1(1) have "distinct (map blk_number (blocks d))" and "distinct (map blk_hash (blocks d))"
    by (simp_all add: db_wf_def wf_blocks_def)
  with hash have "wf_blocks ?bs"
    unfolding wf_blocks_def by (intro conjI distinct_map_upsert_replace distinct_hash_upsert) simp_all
  then show ?case by (rule db_wf_blocks [OF 1(1)]) (rule block_nums_upsert)
qed

lemma tx_hashes_mark [simp]: "tx_hashes (mark_at p set_tx_fin ts) = tx_hashes ts"
  unfolding tx_hashes_def mark_at_def by (rule image_update_where) simp

lemma tx_hashes_refresh [simp]: "tx_hashes (refresh_at p fin set_tx_fin st ts) = tx_hashes ts"
  unfolding tx_hashes_def refresh_at_def by (rule image_update_where) simp

lemma wf_txs_mark: "wf_txs B ts \<Longrightarrow> wf_txs B (mark_at p set_tx_fin ts)"
  by (auto simp: wf_txs_def mark_at_def map_update_where_key)

lemma wf_txs_refresh: "wf_txs B ts \<Longrightarrow> wf_txs B (refresh_at p fin set_tx_fin st ts)"
  by (auto simp: wf_txs_def refresh_at_def map_update_where_key)

lemma wf_txs_of: "db_wf d \<Longrightarrow> wf_txs (block_nums (blocks d)) (transactions d)"
  by (simp add: db_wf_def wf_evm_def)

lemma db_wf_mark_txs: "db_wf d \<Longrightarrow> db_wf (d\<lparr>transactions := mark_at p set_tx_fin (transactions d)\<rparr>)"
  by (rule db_wf_transactions) (simp_all add: wf_txs_mark wf_txs_of)

lemma db_wf_refresh_txs:
  "db_wf d \<Longrightarrow> db_wf (d\<lparr>transactions := refresh_at p fin set_tx_fin st (transactions d)\<rparr>)"
  by (rule db_wf_transactions) (simp_all add: wf_txs_refresh wf_txs_of)

text \<open>The finality statements on the other tables.\<close>

lemma refs_of:
  assumes "db_wf d"
  shows "refs_ok log_blockNumber log_transactionHash (block_nums (blocks d)) (tx_hashes (transactions d)) (logs d)"
    "refs_ok itx_blockNumber itx_transactionHash (block_nums (blocks d)) (tx_hashes (transactions d)) (internal_txs d)"
    "refs_ok tt_blockNumber tt_transactionHash (block_nums (blocks d)) (tx_hashes (transactions d)) (token_transfers d)"
    "refs_ok st_blockNumber st_transactionHash (block_nums (blocks d)) (tx_hashes (transactions d)) (staking_events d)"
    "refs_ok ve_blockNumber ve_transactionHash (block_nums (blocks d)) (tx_hashes (transactions d)) (validator_events d)"
    "refs_ok gov_blockNumber gov_transactionHash (block_nums (blocks d)) (tx_hashes (transactions d)) (governance_events d)"
    "wf_transfers (token_addrs d) (token_transfers d)"
  using assms by (simp_all add: db_wf_def wf_evm_def wf_gold_def)

lemmas finality_defs = mark_at_def refresh_at_def

lemma db_wf_finality_evm:
  assumes "db_wf d"
  shows "db_wf (d\<lparr>logs := update_where p (set_log_fin st) (logs d)\<rparr>)"
    "db_wf (d\<lparr>internal_txs := update_where q (set_itx_fin st) (internal_txs d)\<rparr>)"
    "db_wf (d\<lparr>token_transfers := update_where t (set_tt_fin st) (token_transfers d)\<rparr>)"
  using assms refs_of [OF assms]
  by (auto intro!: db_wf_refs db_wf_transfers refs_ok_update wf_transfers_update simp: tt_key_def)

lemma db_wf_delete_evm:
  assumes "db_wf d"
  shows "db_wf (d\<lparr>logs := delete_where p (logs d)\<rparr>)"
    "db_wf (d\<lparr>internal_txs := delete_where q (internal_txs d)\<rparr>)"
    "db_wf (d\<lparr>token_transfers := delete_where t (token_transfers d)\<rparr>)"
    "db_wf (d\<lparr>receipts := delete_where c (receipts d)\<rparr>)"
proof -
  have "wf_receipts (tx_hashes (transactions d)) (delete_where c (receipts d))"
    using assms by (auto simp: db_wf_def wf_evm_def wf_receipts_def intro: distinct_map_delete_where)
  then show "db_wf (d\<lparr>receipts := delete_where c (receipts d)\<rparr>)"
    by (rule db_wf_refs(9) [OF assms])
qed (use assms refs_of [OF assms] in \<open>auto intro!: db_wf_refs db_wf_transfers\<close>)

lemma preserves_markEvm [preserves_intros]: "preserves db_wf (markEvmDerivedRowsReverted n)"
  unfolding markEvmDerivedRowsReverted_def
  by (intro preserves_intros preserves_modify db_wf_mark_txs) (simp_all add: finality_defs db_wf_finality_evm)

lemma preserves_clearEvm [preserves_intros]: "preserves db_wf (clearEvmDerivedRowsForBlock n)"
  unfolding clearEvmDerivedRowsForBlock_def
  by (intro preserves_intros preserves_modify) (simp_all add: db_wf_delete_evm)

lemma preserves_markOrphaned [preserves_intros]: "preserves db_wf (markOrphanedTransactionsReverted n hs)"
  unfolding markOrphanedTransactionsReverted_def
  by (intro preserves_intros preserves_modify db_wf_mark_txs)

lemma preserves_upsertTransaction [preserves_intros]: "preserves db_wf (upsertTransaction row)"
  unfolding upsertTransaction_def
proof (intro preserves_then preserves_intros preserves_statement, goal_cases)
  case (1 d)
  let ?ts = "upsert (\<lambda>t. tx_hash t = tx_hash row) (\<lambda>_. row) row (transactions d)"
  from 1(2) have "tx_blockNumber row \<in> block_nums (blocks d)" by simp
  with wf_txs_of [OF 1(1)] have "wf_txs (block_nums (blocks d)) ?ts"
    by (auto simp: wf_txs_def set_upsert_replace intro: distinct_map_upsert_replace)
  moreover have "tx_hashes (transactions d) \<subseteq> tx_hashes ?ts"
    by (auto simp: tx_hashes_def set_upsert_replace)
  ultimately show ?case by (rule db_wf_transactions [OF 1(1)])
qed

lemma preserves_upsertReceipt [preserves_intros]: "preserves db_wf (upsertReceipt row)"
  unfolding upsertReceipt_def
proof (rule preserves_statement, goal_cases)
  case (1 d)
  have "wf_receipts (tx_hashes (transactions d)) (receipts d)"
    using 1(1) by (simp add: db_wf_def wf_evm_def)
  with 1(2) have "wf_receipts (tx_hashes (transactions d))
      (upsert (\<lambda>r. rcpt_transactionHash r = rcpt_transactionHash row) (\<lambda>_. row) row (receipts d))"
    by (auto simp: wf_receipts_def set_upsert_replace intro: distinct_map_upsert_replace)
  then show ?case by (rule db_wf_refs(9) [OF 1(1)])
qed

lemma refs_ok_snoc: "refs_ok blk tx B T (rs @ [r]) \<longleftrightarrow> refs_ok blk tx B T rs \<and> blk r \<in> B \<and> tx r \<in> T"
  by (auto simp: refs_ok_def)

lemma preserves_upsertLog [preserves_intros]: "preserves db_wf (upsertLog row)"
  unfolding upsertLog_def
proof (intro preserves_then preserves_intros preserves_statement, goal_cases)
  case (1 d)
  then show ?case by (intro db_wf_refs(1)) (simp_all add: refs_ok_snoc refs_of fk_checks_def)
qed

lemma preserves_upsertInternalTx [preserves_intros]: "preserves db_wf (upsertInternalTx row)"
  unfolding upsertInternalTx_def
proof (intro preserves_then preserves_intros preserves_statement, goal_cases)
  case (1 d)
  then show ?case by (intro db_wf_refs(2)) (simp_all add: refs_ok_snoc refs_of fk_checks_def)
qed

lemma preserves_upsertContract [preserves_intros]: "preserves db_wf (upsertContract a b)"
  unfolding upsertContract_def
proof (intro preserves_then preserves_intros preserves_statement, goal_cases)
  case (1 d)
  let ?cs = "upsert (\<lambda>c. c_address c = a) (\<lambda>c. c\<lparr>c_bytecode := coalesce b (c_bytecode c)\<rparr>)
       \<lparr>c_address = a, c_bytecode = b\<rparr> (contracts d)"
  have "c_address ` set ?cs = insert a (c_address ` set (contracts d))"
    by (subst set_key_upsert [where k = c_address]) simp_all
  moreover have "distinct (map c_address (contracts d)) \<Longrightarrow> distinct (map c_address ?cs)"
    by (rule distinct_key_upsert) simp_all
  ultimately have "wf_contracts (addresses d) ?cs (token_contracts d)"
    using 1 by (auto simp: db_wf_def wf_contracts_def)
  then show ?case
    using db_wf_contract_tables [OF 1(1), of "addresses d" ?cs "token_contracts d"] by simp
qed

lemma preserves_upsertTokenContract [preserves_intros]: "preserves db_wf (upsertTokenContract a ty nm sy de)"
  unfolding upsertTokenContract_def
proof (intro preserves_then preserves_intros preserves_statement, goal_cases)
  case (1 d)
  let ?m = "\<lambda>c. c\<lparr>tc_type := ty, tc_name := coalesce nm (tc_name c), tc_symbol := coalesce sy (tc_symbol c),
       tc_decimals := coalesce de (tc_decimals c)\<rparr>"
  let ?r = "\<lparr>tc_address = a, tc_type = ty, tc_name = nm, tc_symbol = sy, tc_decimals = de\<rparr>"
  let ?cs = "upsert (\<lambda>c. tc_address c = a) ?m ?r (token_contracts d)"
  have set_cs: "tc_address ` set ?cs = insert a (tc_address ` set (token_contracts d))"
    by (subst set_key_upsert [where k = tc_address]) simp_all
  moreover have "distinct (map tc_address (token_contracts d)) \<Longrightarrow> distinct (map tc_address ?cs)"
    by (rule distinct_key_upsert) simp_all
  ultimately have "wf_contracts (addresses d) (contracts d) ?cs"
    using 1 by (auto simp: db_wf_def wf_contracts_def)
  then show ?case
    using db_wf_contract_tables [OF 1(1), of "addresses d" "contracts d" ?cs] set_cs by auto
qed

lemma wf_transfers_upsert:
  assumes wf: "wf_transfers C ts" and c: "tt_contractAddress row \<in> C" and ok: "tt_id_ok row"
  shows "wf_transfers C (upsert (transfer_conflict row) (\<lambda>_. row) row ts)"
proof (cases "tt_tokenId row")
  case None
  then have "upsert (transfer_conflict row) (\<lambda>_. row) row ts = ts @ [row]"
    by (simp add: upsert_def transfer_conflict_def)
  with assms None show ?thesis by (auto simp: wf_transfers_def)
next
  case (Some i)
  let ?f = "filter (\<lambda>r. tt_tokenId r \<noteq> None)"
  have conf: "transfer_conflict row r \<longleftrightarrow> tt_key r = tt_key row" for r
    by (simp add: transfer_conflict_def Some)
  have some: "tt_key r = tt_key row \<Longrightarrow> tt_tokenId r \<noteq> None" for r
    using Some by (auto simp: tt_key_def)
  have "?f (upsert (transfer_conflict row) (\<lambda>_. row) row ts) =
        upsert (transfer_conflict row) (\<lambda>_. row) row (?f ts)"
  proof -
    have "(\<exists>x \<in> set ts. transfer_conflict row x) = (\<exists>x \<in> set (?f ts). transfer_conflict row x)"
      using some by (auto simp: conf)
    moreover have "?f (update_where (transfer_conflict row) (\<lambda>_. row) ts) =
        update_where (transfer_conflict row) (\<lambda>_. row) (?f ts)"
      using some Some by (induction ts) (auto simp: update_where_def conf)
    ultimately show ?thesis using Some by (cases "\<exists>x \<in> set ts. transfer_conflict row x") (auto simp: upsert_def)
  qed
  with assms show ?thesis
    by (auto simp: wf_transfers_def set_upsert_replace conf intro!: distinct_map_upsert_replace)
qed

lemma preserves_upsertTokenTransfer [preserves_intros]: "preserves db_wf (upsertTokenTransfer row)"
  unfolding upsertTokenTransfer_def
proof (intro preserves_then preserves_intros preserves_statement, goal_cases)
  case (1 d)
  have "refs_ok tt_blockNumber tt_transactionHash (block_nums (blocks d)) (tx_hashes (transactions d))
      (upsert (transfer_conflict row) (\<lambda>_. row) row (token_transfers d))"
    using 1(2) refs_of(3) [OF 1(1)] by (auto simp: refs_ok_def set_upsert_replace fk_checks_def)
  with 1 show ?case
    by (intro db_wf_transfers wf_transfers_upsert) (simp_all add: refs_of)
qed

lemma db_wf_refresh_blocks:
  assumes "db_wf d"
  shows "db_wf (d\<lparr>blocks := update_where p (set_blk_fin st) (blocks d)\<rparr>)"
proof (rule db_wf_blocks [OF assms])
  show "wf_blocks (update_where p (set_blk_fin st) (blocks d))"
    using assms by (simp add: db_wf_def wf_blocks_def map_update_where_key)
  show "block_nums (blocks d) \<subseteq> block_nums (update_where p (set_blk_fin st) (blocks d))"
    unfolding block_nums_def by (subst image_update_where) simp_all
qed

lemma preserves_updateEvm [preserves_intros]: "preserves db_wf (updateEvmFinalityForBlock n st)"
  unfolding updateEvmFinalityForBlock_def
  by (intro preserves_intros preserves_modify db_wf_refresh_txs)
    (simp_all add: finality_defs db_wf_finality_evm db_wf_refresh_blocks)

end
