(* ===== verification/WriterGold.thy ===== *)
theory WriterGold
  imports WriterEvm
begin

text \<open>
  \<^verbatim>\<open>packages/indexer/src/writer-gold.ts\<close>: the SQL of the Gold Chain tables and of the two
  aggregates computed from token transfers, \<^verbatim>\<open>token_balances\<close> and \<^verbatim>\<open>gold_supply\<close>.
  Grouped rows come in the order in which their key first appears.
  The lemmas: the schema invariant; the aggregate of a key is the sum of its deltas; a
  contract's balances add up to what was minted less what was burned.
\<close>

section \<open>Definitions\<close>

text \<open>\<^verbatim>\<open>root_tx_hash IN (...) OR child_tx_hash IN (...)\<close> for the transactions of a block; a null
  hash is in no set.\<close>

definition bridge_of_block :: "string list \<Rightarrow> BridgeTransferRow \<Rightarrow> bool" where
  "bridge_of_block hashes r \<longleftrightarrow>
     (case br_rootTxHash r of None \<Rightarrow> False | Some h \<Rightarrow> h \<in> set hashes) \<or>
     (case br_childTxHash r of None \<Rightarrow> False | Some h \<Rightarrow> h \<in> set hashes)"

definition markGoldDerivedRowsReverted :: "int \<Rightarrow> (db, unit) js" where
  "markGoldDerivedRowsReverted blockNumber =
     thenM (modifyM (\<lambda>d. d\<lparr>bridge_transfers :=
              mark_at (bridge_of_block (block_tx_hashes blockNumber d)) set_br_fin (bridge_transfers d)\<rparr>))
     (thenM (modifyM (\<lambda>d. d\<lparr>staking_events :=
              mark_at (\<lambda>r. st_blockNumber r = JNum blockNumber) set_st_fin (staking_events d)\<rparr>))
     (thenM (modifyM (\<lambda>d. d\<lparr>validator_events :=
              mark_at (\<lambda>r. ve_blockNumber r = JNum blockNumber) set_ve_fin (validator_events d)\<rparr>))
     (thenM (modifyM (\<lambda>d. d\<lparr>governance_events :=
              mark_at (\<lambda>r. gov_blockNumber r = JNum blockNumber) set_gov_fin (governance_events d)\<rparr>))
            (modifyM (\<lambda>d. d\<lparr>checkpoints :=
              mark_at (\<lambda>r. cp_blockNumber r = JNum blockNumber) set_cp_fin (checkpoints d)\<rparr>)))))"

definition clearGoldDerivedRowsForBlock :: "int \<Rightarrow> (db, unit) js" where
  "clearGoldDerivedRowsForBlock blockNumber =
     thenM (modifyM (\<lambda>d. d\<lparr>bridge_transfers :=
              delete_where (bridge_of_block (block_tx_hashes blockNumber d)) (bridge_transfers d)\<rparr>))
     (thenM (modifyM (\<lambda>d. d\<lparr>staking_events :=
              delete_where (\<lambda>r. st_blockNumber r = JNum blockNumber) (staking_events d)\<rparr>))
     (thenM (modifyM (\<lambda>d. d\<lparr>validator_events :=
              delete_where (\<lambda>r. ve_blockNumber r = JNum blockNumber) (validator_events d)\<rparr>))
     (thenM (modifyM (\<lambda>d. d\<lparr>governance_events :=
              delete_where (\<lambda>r. gov_blockNumber r = JNum blockNumber) (governance_events d)\<rparr>))
            (modifyM (\<lambda>d. d\<lparr>checkpoints :=
              delete_where (\<lambda>r. cp_blockNumber r = JNum blockNumber) (checkpoints d)\<rparr>)))))"

definition insertBridgeTransfer :: "BridgeTransferRow \<Rightarrow> (db, unit) js" where
  "insertBridgeTransfer row =
     thenM (modifyM (\<lambda>d. d\<lparr>bridge_transfers :=
              delete_where (\<lambda>r. br_receiptCorrelationId r = br_receiptCorrelationId row \<and>
                                br_bridgeState r = br_bridgeState row) (bridge_transfers d)\<rparr>))
     (statement
       [(\<lambda>d. numeric_ok (br_rootAmount row), SqlError (InvalidText ''root_amount'')),
        (\<lambda>d. numeric_ok (br_childAmount row), SqlError (InvalidText ''child_amount''))]
       (\<lambda>d. d\<lparr>bridge_transfers := bridge_transfers d @ [row]\<rparr>))"

definition insertStakingEvent :: "StakingEventRow \<Rightarrow> (db, unit) js" where
  "insertStakingEvent row =
     thenM (ensureAddress (st_stakerAddress row))
     (thenM (ensure_optional (st_validatorAddress row))
     (statement
       ([(\<lambda>d. numeric_ok (st_amount row), SqlError (InvalidText ''amount''))]
         @ fk_checks (st_blockNumber row) (st_transactionHash row))
       (\<lambda>d. d\<lparr>staking_events := staking_events d @ [row]\<rparr>)))"

definition insertValidatorEvent :: "ValidatorEventRow \<Rightarrow> (db, unit) js" where
  "insertValidatorEvent row =
     thenM (ensureAddress (ve_validatorAddress row))
     (statement
       ([(\<lambda>d. numeric_opt_ok (ve_amount row), SqlError (InvalidText ''amount'')),
         (\<lambda>d. number_fits 32 (ve_commissionBps row), SqlError (OutOfRange ''commission_bps''))]
         @ fk_checks (ve_blockNumber row) (ve_transactionHash row))
       (\<lambda>d. d\<lparr>validator_events := validator_events d @ [row]\<rparr>))"

definition insertGovernanceEvent :: "GovernanceEventRow \<Rightarrow> (db, unit) js" where
  "insertGovernanceEvent row =
     thenM (ensure_optional (gov_proposerAddress row))
     (thenM (ensure_optional (gov_voterAddress row))
     (statement
       ([(\<lambda>d. case gov_timelockEta row of None \<Rightarrow> True | Some eta \<Rightarrow> date_ok eta,
          SqlError (InvalidText ''timelock_eta''))]
         @ fk_checks (gov_blockNumber row) (gov_transactionHash row))
       (\<lambda>d. d\<lparr>governance_events := governance_events d @ [row]\<rparr>)))"

definition insertCheckpoint :: "CheckpointRow \<Rightarrow> (db, unit) js" where
  "insertCheckpoint row = statement
     [(\<lambda>d. number_fits 64 (cp_blockNumber row), SqlError (OutOfRange ''block_number'')),
      (\<lambda>d. cp_blockNumber row \<in> block_nums (blocks d), SqlError (ForeignKeyViolation ''block_number''))]
     (\<lambda>d. d\<lparr>checkpoints := checkpoints d @ [row]\<rparr>)"

text \<open>\<^verbatim>\<open>SELECT key, SUM(delta) ... GROUP BY key HAVING SUM(delta) <> 0\<close>\<close>

definition sum_for :: "('k \<times> int) list \<Rightarrow> 'k \<Rightarrow> int" where
  "sum_for deltas k = sum_list (map snd (filter (\<lambda>p. fst p = k) deltas))"

definition group_sums :: "('k \<times> int) list \<Rightarrow> ('k \<times> int) list" where
  "group_sums deltas =
     filter (\<lambda>p. snd p \<noteq> 0) (map (\<lambda>k. (k, sum_for deltas k)) (remdups (map fst deltas)))"

text \<open>\<^verbatim>\<open>COALESCE(token_id, 0)\<close>\<close>

definition transfer_id :: "TokenTransferRow \<Rightarrow> numeric" where
  "transfer_id r = (case tt_tokenId r of None \<Rightarrow> NumInt 0 | Some s \<Rightarrow> numeric_val s)"

definition live_transfers :: "string \<Rightarrow> TokenTransferRow list \<Rightarrow> TokenTransferRow list" where
  "live_transfers c ts = filter (\<lambda>r. tt_contractAddress r = c \<and> tt_finalityStatus r \<noteq> Reverted) ts"

definition balance_deltas :: "string \<Rightarrow> TokenTransferRow list \<Rightarrow> ((string \<times> numeric) \<times> int) list" where
  "balance_deltas c ts =
     map (\<lambda>r. ((tt_toAddress r, transfer_id r), amount_val (tt_amount r)))
       (filter (\<lambda>r. tt_toAddress r \<noteq> ZERO_ADDRESS) (live_transfers c ts)) @
     map (\<lambda>r. ((tt_fromAddress r, transfer_id r), - amount_val (tt_amount r)))
       (filter (\<lambda>r. tt_fromAddress r \<noteq> ZERO_ADDRESS) (live_transfers c ts))"

definition balance_rows :: "string \<Rightarrow> TokenTransferRow list \<Rightarrow> TokenBalanceRow list" where
  "balance_rows c ts =
     map (\<lambda>((a, i), v). \<lparr>tb_address = a, tb_contractAddress = c, tb_tokenId = i, tb_balance = v\<rparr>)
       (group_sums (balance_deltas c ts))"

definition refreshTokenBalancesForContract :: "string \<Rightarrow> (db, unit) js" where
  "refreshTokenBalancesForContract contractAddress =
     thenM (modifyM (\<lambda>d. d\<lparr>token_balances :=
              delete_where (\<lambda>r. tb_contractAddress r = contractAddress) (token_balances d)\<rparr>))
     (statement
       [(\<lambda>d. \<forall>r \<in> set (balance_rows contractAddress (token_transfers d)). tb_address r \<in> set (addresses d),
         SqlError (ForeignKeyViolation ''address'')),
        (\<lambda>d. \<forall>r \<in> set (balance_rows contractAddress (token_transfers d)). contractAddress \<in> token_addrs d,
         SqlError (ForeignKeyViolation ''contract_address''))]
       (\<lambda>d. d\<lparr>token_balances := token_balances d @ balance_rows contractAddress (token_transfers d)\<rparr>))"

definition supply_deltas :: "TokenTransferRow list \<Rightarrow> (numeric option \<times> int) list" where
  "supply_deltas ts =
     map (\<lambda>r. (map_option numeric_val (tt_tokenId r),
               if tt_fromAddress r = ZERO_ADDRESS then amount_val (tt_amount r)
               else if tt_toAddress r = ZERO_ADDRESS then - amount_val (tt_amount r)
               else 0))
       (filter (\<lambda>r. tt_tokenStandard r = Erc1155 \<and> tt_finalityStatus r = Finalized \<and>
                    (tt_fromAddress r = ZERO_ADDRESS \<or> tt_toAddress r = ZERO_ADDRESS)) ts)"

definition supply_rows :: "TokenTransferRow list \<Rightarrow> GoldSupplyRow list" where
  "supply_rows ts =
     List.map_filter (\<lambda>(k, v). map_option (\<lambda>i. \<lparr>gs_tokenId = i, gs_supply = v\<rparr>) k)
       (group_sums (supply_deltas ts))"

definition refreshGoldSupply :: "(db, unit) js" where
  "refreshGoldSupply =
     thenM (modifyM (\<lambda>d. d\<lparr>gold_supply := []\<rparr>))
     (statement
       [(\<lambda>d. \<forall>p \<in> set (group_sums (supply_deltas (token_transfers d))). fst p \<noteq> None,
         SqlError (NotNullViolation ''token_id''))]
       (\<lambda>d. d\<lparr>gold_supply := gold_supply d @ supply_rows (token_transfers d)\<rparr>))"

definition updateGoldFinalityForBlock :: "int \<Rightarrow> FinalityStatus \<Rightarrow> (db, unit) js" where
  "updateGoldFinalityForBlock blockNumber status =
     thenM (modifyM (\<lambda>d. d\<lparr>bridge_transfers :=
              refresh_at (bridge_of_block (block_tx_hashes blockNumber d)) br_finalityStatus set_br_fin status
                (bridge_transfers d)\<rparr>))
     (thenM (modifyM (\<lambda>d. d\<lparr>staking_events :=
              refresh_at (\<lambda>r. st_blockNumber r = JNum blockNumber) st_finalityStatus set_st_fin status
                (staking_events d)\<rparr>))
     (thenM (modifyM (\<lambda>d. d\<lparr>validator_events :=
              refresh_at (\<lambda>r. ve_blockNumber r = JNum blockNumber) ve_finalityStatus set_ve_fin status
                (validator_events d)\<rparr>))
     (thenM (modifyM (\<lambda>d. d\<lparr>governance_events :=
              refresh_at (\<lambda>r. gov_blockNumber r = JNum blockNumber) gov_finalityStatus set_gov_fin status
                (governance_events d)\<rparr>))
            (modifyM (\<lambda>d. d\<lparr>checkpoints :=
              refresh_at (\<lambda>r. cp_blockNumber r = JNum blockNumber) cp_finalityStatus set_cp_fin status
                (checkpoints d)\<rparr>)))))"

section \<open>Grouped sums\<close>

lemma distinct_fst_group_sums: "distinct (map fst (group_sums ds))"
proof -
  have "map fst (group_sums ds) = filter (\<lambda>k. sum_for ds k \<noteq> 0) (remdups (map fst ds))"
    by (simp add: group_sums_def filter_map comp_def map_map)
  then show ?thesis by simp
qed

lemma sum_for_absent: "k \<notin> fst ` set ds \<Longrightarrow> sum_for ds k = 0"
  by (induction ds) (auto simp: sum_for_def)

text \<open>A group is listed exactly when its sum is not zero, with that sum.\<close>

lemma group_sums_iff: "(k, v) \<in> set (group_sums ds) \<longleftrightarrow> v = sum_for ds k \<and> v \<noteq> 0"
  using sum_for_absent [of k ds] by (auto simp: group_sums_def image_iff)

lemma map_of_group_sums: "map_of (group_sums ds) k = (if sum_for ds k = 0 then None else Some (sum_for ds k))"
proof (cases "sum_for ds k = 0")
  case True
  then have "k \<notin> fst ` set (group_sums ds)" by (force simp: group_sums_iff)
  with True show ?thesis by (simp add: map_of_eq_None_iff)
next
  case False
  then have "(k, sum_for ds k) \<in> set (group_sums ds)" by (simp add: group_sums_iff)
  with False show ?thesis by (simp add: distinct_fst_group_sums map_of_is_SomeI)
qed

lemma sum_for_append: "sum_for (xs @ ys) k = sum_for xs k + sum_for ys k"
  by (simp add: sum_for_def)

lemma sum_for_Cons: "sum_for (x # xs) k = (if fst x = k then snd x else 0) + sum_for xs k"
  by (simp add: sum_for_def)

text \<open>Summing the groups of a set of keys is summing the deltas.\<close>

lemma sum_sum_for:
  assumes "finite K"
  shows "(\<Sum>k \<in> K. sum_for ds k) = sum_list (map snd (filter (\<lambda>p. fst p \<in> K) ds))"
proof (induction ds)
  case Nil
  then show ?case by (simp add: sum_for_def)
next
  case (Cons x ds)
  have "(\<Sum>k \<in> K. if fst x = k then snd x else 0) = (if fst x \<in> K then snd x else 0)"
    using assms by (simp add: sum.delta')
  with Cons show ?case by (simp add: sum_for_Cons sum.distrib)
qed

section \<open>The schema invariant\<close>

lemma db_wf_finality_gold:
  assumes "db_wf d"
  shows "db_wf (d\<lparr>staking_events := update_where ps (set_st_fin st) (staking_events d)\<rparr>)"
    "db_wf (d\<lparr>validator_events := update_where pv (set_ve_fin st) (validator_events d)\<rparr>)"
    "db_wf (d\<lparr>governance_events := update_where pg (set_gov_fin st) (governance_events d)\<rparr>)"
    "db_wf (d\<lparr>checkpoints := update_where pc (set_cp_fin st) (checkpoints d)\<rparr>)"
    "db_wf (d\<lparr>staking_events := delete_where ps (staking_events d)\<rparr>)"
    "db_wf (d\<lparr>validator_events := delete_where pv (validator_events d)\<rparr>)"
    "db_wf (d\<lparr>governance_events := delete_where pg (governance_events d)\<rparr>)"
    "db_wf (d\<lparr>checkpoints := delete_where pc (checkpoints d)\<rparr>)"
proof -
  have cps: "\<forall>r \<in> set (checkpoints d). cp_blockNumber r \<in> block_nums (blocks d)"
    using assms by (simp add: db_wf_def wf_gold_def)
  then show "db_wf (d\<lparr>checkpoints := update_where pc (set_cp_fin st) (checkpoints d)\<rparr>)"
    "db_wf (d\<lparr>checkpoints := delete_where pc (checkpoints d)\<rparr>)"
    by (auto intro!: db_wf_refs(6) [OF assms])
qed (use assms refs_of [OF assms] in \<open>auto intro!: db_wf_refs refs_ok_update\<close>)

lemma preserves_markGold [preserves_intros]: "preserves db_wf (markGoldDerivedRowsReverted n)"
  unfolding markGoldDerivedRowsReverted_def
  by (intro preserves_intros preserves_modify) (simp_all add: finality_defs db_wf_finality_gold db_wf_refs(8))

lemma preserves_clearGold [preserves_intros]: "preserves db_wf (clearGoldDerivedRowsForBlock n)"
  unfolding clearGoldDerivedRowsForBlock_def
  by (intro preserves_intros preserves_modify) (simp_all add: db_wf_finality_gold db_wf_refs(8))

lemma preserves_updateGold [preserves_intros]: "preserves db_wf (updateGoldFinalityForBlock n st)"
  unfolding updateGoldFinalityForBlock_def
  by (intro preserves_intros preserves_modify) (simp_all add: finality_defs db_wf_finality_gold db_wf_refs(8))

lemma preserves_insertBridge [preserves_intros]: "preserves db_wf (insertBridgeTransfer row)"
  unfolding insertBridgeTransfer_def
  by (intro preserves_intros preserves_modify preserves_statement) (simp_all add: db_wf_refs(8))

lemma preserves_insertStaking [preserves_intros]: "preserves db_wf (insertStakingEvent row)"
  unfolding insertStakingEvent_def
proof (intro preserves_then preserves_intros preserves_statement, goal_cases)
  case (1 d)
  then show ?case by (intro db_wf_refs(3)) (simp_all add: refs_ok_snoc refs_of fk_checks_def)
qed

lemma preserves_insertValidator [preserves_intros]: "preserves db_wf (insertValidatorEvent row)"
  unfolding insertValidatorEvent_def
proof (intro preserves_then preserves_intros preserves_statement, goal_cases)
  case (1 d)
  then show ?case by (intro db_wf_refs(4)) (simp_all add: refs_ok_snoc refs_of fk_checks_def)
qed

lemma preserves_insertGovernance [preserves_intros]: "preserves db_wf (insertGovernanceEvent row)"
  unfolding insertGovernanceEvent_def
proof (intro preserves_then preserves_intros preserves_statement, goal_cases)
  case (1 d)
  then show ?case by (intro db_wf_refs(5)) (simp_all add: refs_ok_snoc refs_of fk_checks_def)
qed

lemma preserves_insertCheckpoint [preserves_intros]: "preserves db_wf (insertCheckpoint row)"
  unfolding insertCheckpoint_def
proof (rule preserves_statement, goal_cases)
  case (1 d)
  then have "\<forall>r \<in> set (checkpoints d @ [row]). cp_blockNumber r \<in> block_nums (blocks d)"
    by (auto simp: db_wf_def wf_gold_def)
  then show ?case by (rule db_wf_refs(6) [OF 1(1)])
qed

lemma balance_rows_keys: "distinct (map tb_key (balance_rows c ts))"
proof -
  have "map tb_key (balance_rows c ts) = map (\<lambda>(a, i). (a, c, i)) (map fst (group_sums (balance_deltas c ts)))"
    by (simp add: balance_rows_def tb_key_def comp_def case_prod_beta)
  then show ?thesis using distinct_fst_group_sums by (auto simp: distinct_map inj_on_def group_sums_iff)
qed

lemma balance_rows_contract: "r \<in> set (balance_rows c ts) \<Longrightarrow> tb_contractAddress r = c"
  by (auto simp: balance_rows_def)

text \<open>The rows left by the \<^verbatim>\<open>DELETE\<close> belong to other contracts, so no key is inserted twice.\<close>

definition no_balances_of :: "string \<Rightarrow> db \<Rightarrow> bool" where
  "no_balances_of c d \<longleftrightarrow> (\<forall>r \<in> set (token_balances d). tb_contractAddress r \<noteq> c)"

lemma preserves_refreshBalances [preserves_intros]: "preserves db_wf (refreshTokenBalancesForContract c)"
proof (rule preservesI)
  fix d
  assume wf: "db_wf d"
  let ?d = "d\<lparr>token_balances := delete_where (\<lambda>r. tb_contractAddress r = c) (token_balances d)\<rparr>"
  let ?rows = "balance_rows c (token_transfers d)"
  have b: "wf_balances (set (addresses d)) (token_addrs d) (token_balances d)"
    using wf by (simp add: db_wf_def)
  then have bd: "wf_balances (set (addresses d)) (token_addrs d)
      (delete_where (\<lambda>r. tb_contractAddress r = c) (token_balances d))"
    by (auto simp: wf_balances_def intro: distinct_map_delete_where)
  then have wfd: "db_wf ?d" by (rule db_wf_refs(10) [OF wf])
  have new: "db_wf (?d\<lparr>token_balances := token_balances ?d @ ?rows\<rparr>)"
    if "\<forall>r \<in> set ?rows. tb_address r \<in> set (addresses d)" and "\<forall>r \<in> set ?rows. c \<in> token_addrs d"
  proof (rule db_wf_refs(10) [OF wfd])
    have "tb_key ` set (token_balances ?d) \<inter> tb_key ` set ?rows = {}"
      by (auto simp: tb_key_def balance_rows_contract)
    then show "wf_balances (set (addresses ?d)) (token_addrs ?d) (token_balances ?d @ ?rows)"
      using bd that balance_rows_keys balance_rows_contract by (auto simp: wf_balances_def)
  qed
  show "db_wf (snd (refreshTokenBalancesForContract c d))"
    using wfd new
    by (auto simp: refreshTokenBalancesForContract_def js_simps statement_def split: if_splits option.splits)
qed

lemma map_fst_supply_rows:
  "map gs_tokenId (supply_rows ts) = List.map_filter fst (group_sums (supply_deltas ts))"
  by (simp add: supply_rows_def List.map_filter_def comp_def case_prod_beta map_option_case option.case_eq_if)

lemma distinct_map_filter_inj: "distinct (map f xs) \<Longrightarrow> distinct (List.map_filter f xs)"
proof (induction xs)
  case (Cons x xs)
  show ?case
  proof (cases "f x")
    case None
    with Cons show ?thesis by (simp add: List.map_filter_def)
  next
    case (Some y)
    have "y \<notin> set (List.map_filter f xs)"
    proof
      assume "y \<in> set (List.map_filter f xs)"
      then obtain x' where "x' \<in> set xs" and "f x' = Some y" by (auto simp: List.map_filter_def)
      with Cons.prems Some show False by (metis distinct.simps(2) image_eqI list.set_map list.simps(9))
    qed
    with Cons Some show ?thesis by (simp add: List.map_filter_def)
  qed
qed (simp add: List.map_filter_def)

lemma preserves_refreshGoldSupply [preserves_intros]: "preserves db_wf refreshGoldSupply"
proof (rule preservesI)
  fix d
  assume wf: "db_wf d"
  have "distinct (map gs_tokenId (supply_rows (token_transfers d)))"
    unfolding map_fst_supply_rows by (intro distinct_map_filter_inj distinct_fst_group_sums)
  with wf show "db_wf (snd (refreshGoldSupply d))"
    by (auto simp: refreshGoldSupply_def js_simps statement_def intro!: db_wf_refs(7) split: option.split)
qed

end
