(* ===== verification/JobsEvm.thy ===== *)
theory JobsEvm
  imports RpcTypes Writer
begin

text \<open>
  The jobs on generic EVM data, \<^verbatim>\<open>packages/indexer/src/jobs/\<close>: receipts, contract
  detection, logs, ERC-20/ERC-721 transfers, ERC-1155 transfers and internal transactions.
  The lemmas: every job preserves the schema invariant, what one job writes, and the shape of
  flattened traces.
\<close>

section \<open>receipts.ts, contract-detection.ts, logs.ts\<close>

definition processReceipts :: "RpcClient \<Rightarrow> string \<Rightarrow> (db, RpcReceipt option) js" where
  "processReceipts rpc txHash =
     (case getTransactionReceipt rpc txHash of
        None \<Rightarrow> returnM None
      | Some receipt \<Rightarrow>
          bindM (liftS (hexToBigInt (rr_cumulativeGasUsed receipt))) (\<lambda>cumulativeGasUsed.
          bindM (liftS (hexToBigInt (rr_gasUsed receipt))) (\<lambda>gasUsed.
          thenM (upsertReceipt \<lparr>
            rcpt_transactionHash = rr_transactionHash receipt,
            rcpt_cumulativeGasUsed = cumulativeGasUsed,
            rcpt_gasUsed = gasUsed,
            rcpt_contractAddress = rr_contractAddress receipt,
            rcpt_status = hexToNumber (rr_status receipt),
            rcpt_logsBloom = rr_logsBloom receipt\<rparr>)
          (returnM (Some receipt)))))"

definition processContractDetection :: "RpcReceipt \<Rightarrow> (db, unit) js" where
  "processContractDetection receipt =
     thenM (if truthy (rr_contractAddress receipt)
            then (case rr_contractAddress receipt of None \<Rightarrow> returnM () | Some a \<Rightarrow> upsertContract a None)
            else returnM ())
     (forM (rr_logs receipt) (\<lambda>log. upsertContract (rl_address log) None))"

definition log_row :: "FinalityStatus \<Rightarrow> RpcLog \<Rightarrow> LogRow" where
  "log_row finalityStatus log = \<lparr>
     log_transactionHash = rl_transactionHash log,
     log_blockNumber = hexToNumber (rl_blockNumber log),
     log_address = rl_address log,
     log_topics = rl_topics log,
     log_data = rl_data log,
     log_logIndex = hexToNumber (rl_logIndex log),
     log_finalityStatus = finalityStatus\<rparr>"

definition processLogs :: "RpcLog list \<Rightarrow> FinalityStatus \<Rightarrow> (db, unit) js" where
  "processLogs ls finalityStatus = forM ls (\<lambda>log. upsertLog (log_row finalityStatus log))"

section \<open>token-transfers-erc20-721.ts\<close>

definition TRANSFER_TOPIC :: string where
  "TRANSFER_TOPIC = ''0xddf252ad1be2c89b69c2b068fc378daa952ba7f163c4a11628f55a4df523b3ef''"

definition topic0_is :: "RpcLog \<Rightarrow> string \<Rightarrow> bool" where
  "topic0_is log topic \<longleftrightarrow> map_option toLowerCase (topic0 (rl_topics log)) = Some topic"

text \<open>The row of a Transfer log, or nothing when it has neither three nor four topics.\<close>

definition decodeErc20Erc721 :: "FinalityStatus \<Rightarrow> RpcLog \<Rightarrow> js_error + TokenTransferRow option" where
  "decodeErc20Erc721 finalityStatus log =
     (let blockNumber = hexToNumber (rl_blockNumber log);
          logIndex = hexToNumber (rl_logIndex log) in
      if length (rl_topics log) = 3 then
        bindS (topic_at (rl_topics log) 1) (\<lambda>t1. bindS (topicToAddress t1) (\<lambda>fromAddress.
        bindS (topic_at (rl_topics log) 2) (\<lambda>t2. bindS (topicToAddress t2) (\<lambda>toAddress.
        bindS (weiHexToDecimalString (if rl_data log = [] then ''0x0'' else rl_data log)) (\<lambda>amount.
        Inr (Some \<lparr>tt_blockNumber = blockNumber, tt_transactionHash = rl_transactionHash log,
          tt_contractAddress = rl_address log, tt_fromAddress = fromAddress, tt_toAddress = toAddress,
          tt_tokenStandard = Erc20, tt_tokenId = None, tt_amount = amount, tt_logIndex = logIndex,
          tt_finalityStatus = finalityStatus\<rparr>))))))
      else if length (rl_topics log) = 4 then
        bindS (topic_at (rl_topics log) 1) (\<lambda>t1. bindS (topicToAddress t1) (\<lambda>fromAddress.
        bindS (topic_at (rl_topics log) 2) (\<lambda>t2. bindS (topicToAddress t2) (\<lambda>toAddress.
        bindS (topic_at (rl_topics log) 3) (\<lambda>t3.
        Inr (Some \<lparr>tt_blockNumber = blockNumber, tt_transactionHash = rl_transactionHash log,
          tt_contractAddress = rl_address log, tt_fromAddress = fromAddress, tt_toAddress = toAddress,
          tt_tokenStandard = Erc721, tt_tokenId = Some (number_str (hexToNumber t3)), tt_amount = ''1'',
          tt_logIndex = logIndex, tt_finalityStatus = finalityStatus\<rparr>))))))
      else Inr None)"

text \<open>The contracts collected by the loop, in the order they were added.\<close>

definition dedup :: "'a list \<Rightarrow> 'a list" where
  "dedup xs = rev (remdups (rev xs))"

definition processTokenTransfersErc20Erc721 :: "RpcLog list \<Rightarrow> FinalityStatus \<Rightarrow> (db, unit) js" where
  "processTokenTransfersErc20Erc721 ls finalityStatus =
     thenM (forM ls (\<lambda>log.
       if \<not> topic0_is log TRANSFER_TOPIC then returnM ()
       else bindM (liftS (decodeErc20Erc721 finalityStatus log)) (\<lambda>r.
         case r of None \<Rightarrow> returnM () | Some row \<Rightarrow> upsertTokenTransfer row)))
     (forM (dedup (map rl_address
        (filter (\<lambda>log. topic0_is log TRANSFER_TOPIC \<and>
           (length (rl_topics log) = 3 \<or> length (rl_topics log) = 4)) ls)))
       refreshTokenBalancesForContract)"

section \<open>token-transfers-erc1155.ts\<close>

record Erc1155Transfer =
  e_blockNumber :: jsnum
  e_transactionHash :: string
  e_contractAddress :: string
  e_fromAddress :: string
  e_toAddress :: string
  e_tokenId :: string
  e_amount :: string
  e_logIndex :: jsnum

definition decodeTransferSingle :: "RpcLog \<Rightarrow> js_error + Erc1155Transfer" where
  "decodeTransferSingle log =
     bindS (abiDecodeStatic (rl_data log) 2) (\<lambda>ws.
     bindS (topic_at (rl_topics log) 2) (\<lambda>t2. bindS (topicToAddress t2) (\<lambda>fromAddress.
     bindS (topic_at (rl_topics log) 3) (\<lambda>t3. bindS (topicToAddress t3) (\<lambda>toAddress.
     Inr \<lparr>e_blockNumber = hexToNumber (rl_blockNumber log),
       e_transactionHash = rl_transactionHash log, e_contractAddress = rl_address log,
       e_fromAddress = fromAddress, e_toAddress = toAddress,
       e_tokenId = bigint_str 10 (ws ! 0), e_amount = bigint_str 10 (ws ! 1),
       e_logIndex = hexToNumber (rl_logIndex log)\<rparr>)))))"

definition decodeTransferBatch :: "RpcLog \<Rightarrow> js_error + Erc1155Transfer list" where
  "decodeTransferBatch log =
     bindS (abiDecodeUint256Array (rl_data log) 0) (\<lambda>ids.
     bindS (abiDecodeUint256Array (rl_data log) 1) (\<lambda>vals.
     if length ids \<noteq> length vals then Inl (ErrorMsg ''TransferBatch ids/values length mismatch'')
     else
       bindS (topic_at (rl_topics log) 2) (\<lambda>t2. bindS (topicToAddress t2) (\<lambda>fromAddress.
       bindS (topic_at (rl_topics log) 3) (\<lambda>t3. bindS (topicToAddress t3) (\<lambda>toAddress.
       Inr (map (\<lambda>(i, v). \<lparr>e_blockNumber = hexToNumber (rl_blockNumber log),
         e_transactionHash = rl_transactionHash log, e_contractAddress = rl_address log,
         e_fromAddress = fromAddress, e_toAddress = toAddress,
         e_tokenId = bigint_str 10 i, e_amount = bigint_str 10 v,
         e_logIndex = hexToNumber (rl_logIndex log)\<rparr>) (zip ids vals))))))))"

definition transfer_row :: "FinalityStatus \<Rightarrow> Erc1155Transfer \<Rightarrow> TokenTransferRow" where
  "transfer_row finalityStatus transfer = \<lparr>
     tt_blockNumber = e_blockNumber transfer, tt_transactionHash = e_transactionHash transfer,
     tt_contractAddress = e_contractAddress transfer, tt_fromAddress = e_fromAddress transfer,
     tt_toAddress = e_toAddress transfer, tt_tokenStandard = Erc1155,
     tt_tokenId = Some (e_tokenId transfer), tt_amount = e_amount transfer,
     tt_logIndex = e_logIndex transfer, tt_finalityStatus = finalityStatus\<rparr>"

definition writeTransfer :: "Erc1155Transfer \<Rightarrow> FinalityStatus \<Rightarrow> (db, unit) js" where
  "writeTransfer transfer finalityStatus = upsertTokenTransfer (transfer_row finalityStatus transfer)"

text \<open>The transfers of one log: none when it is no ERC-1155 transfer event.\<close>

definition decodeErc1155 :: "RpcLog \<Rightarrow> js_error + Erc1155Transfer list" where
  "decodeErc1155 log =
     (if topic0_is log TRANSFER_SINGLE_TOPIC then bindS (decodeTransferSingle log) (\<lambda>t. Inr [t])
      else if topic0_is log TRANSFER_BATCH_TOPIC then decodeTransferBatch log
      else Inr [])"

definition erc1155_contracts :: "RpcLog list \<Rightarrow> string list" where
  "erc1155_contracts ls = dedup (concat (map (\<lambda>log.
     case decodeErc1155 log of Inl _ \<Rightarrow> [] | Inr ts \<Rightarrow> map e_contractAddress ts) ls))"

definition processTokenTransfersErc1155 :: "RpcLog list \<Rightarrow> FinalityStatus \<Rightarrow> (db, unit) js" where
  "processTokenTransfersErc1155 ls finalityStatus =
     thenM (forM ls (\<lambda>log. bindM (liftS (decodeErc1155 log)) (\<lambda>ts.
       forM ts (\<lambda>transfer. writeTransfer transfer finalityStatus))))
     (thenM (forM (erc1155_contracts ls) refreshTokenBalancesForContract)
       (whenM (finalityStatus = Finalized) refreshGoldSupply))"

definition isMintTransfer :: "Erc1155Transfer \<Rightarrow> bool" where
  "isMintTransfer transfer \<longleftrightarrow> toLowerCase (e_fromAddress transfer) = ZERO_ADDRESS"

definition isBurnTransfer :: "Erc1155Transfer \<Rightarrow> bool" where
  "isBurnTransfer transfer \<longleftrightarrow> toLowerCase (e_toAddress transfer) = ZERO_ADDRESS"

section \<open>internal-txs.ts\<close>

lemma trace_calls_size: "trace_calls t = Some cs \<Longrightarrow> size_list size cs < size t"
  by (cases t) auto

function flattenTraces :: "RpcTrace list \<Rightarrow> nat \<Rightarrow> int list \<Rightarrow> (RpcTrace \<times> int list) list" where
  "flattenTraces [] index parentAddress = []"
| "flattenTraces (trace # traces) index parentAddress =
     (let traceAddress = (case trace_address trace of Some a \<Rightarrow> a | None \<Rightarrow> parentAddress @ [int index]) in
      (trace, traceAddress) #
      (case trace_calls trace of None \<Rightarrow> [] | Some calls \<Rightarrow> flattenTraces calls 0 traceAddress) @
      flattenTraces traces (Suc index) parentAddress)"
  by pat_completeness auto

termination
  by (relation "measure (\<lambda>(ts, i, p). size_list size ts)") (auto dest: trace_calls_size)

definition internal_row :: "string \<Rightarrow> jsnum \<Rightarrow> FinalityStatus \<Rightarrow> RpcTrace \<times> int list \<Rightarrow> js_error + InternalTxRow" where
  "internal_row txHash blockNumber finalityStatus ta =
     (case ta of (trace, traceAddress) \<Rightarrow>
       bindS (case trace_value trace of
                None \<Rightarrow> Inr ''0''
              | Some v \<Rightarrow> if v = [] then Inr ''0'' else weiHexToDecimalString v) (\<lambda>value.
       Inr \<lparr>itx_transactionHash = txHash, itx_blockNumber = blockNumber,
         itx_fromAddress = trace_from trace, itx_toAddress = trace_to trace, itx_value = value,
         itx_type = Some (trace_type trace), itx_traceAddress = traceAddressToString (Some traceAddress),
         itx_error = trace_error trace, itx_finalityStatus = finalityStatus\<rparr>))"

definition processInternalTxs :: "RpcClient \<Rightarrow> string \<Rightarrow> jsnum \<Rightarrow> FinalityStatus \<Rightarrow> (db, unit) js" where
  "processInternalTxs rpc txHash blockNumber finalityStatus =
     forM (flattenTraces (getTransactionTraces rpc txHash) 0 []) (\<lambda>ta.
       if trace_from (fst ta) = [] then returnM ()
       else bindM (liftS (internal_row txHash blockNumber finalityStatus ta)) upsertInternalTx)"

section \<open>The schema invariant\<close>

lemma preserves_processReceipts [preserves_intros]: "preserves db_wf (processReceipts rpc h)"
  unfolding processReceipts_def by (intro preserves_intros)

lemma preserves_contractDetection [preserves_intros]: "preserves db_wf (processContractDetection r)"
  unfolding processContractDetection_def by (intro preserves_intros)

lemma preserves_processLogs [preserves_intros]: "preserves db_wf (processLogs ls st)"
  unfolding processLogs_def by (intro preserves_intros)

lemma preserves_erc20 [preserves_intros]: "preserves db_wf (processTokenTransfersErc20Erc721 ls st)"
  unfolding processTokenTransfersErc20Erc721_def by (intro preserves_intros)

lemma preserves_erc1155 [preserves_intros]: "preserves db_wf (processTokenTransfersErc1155 ls st)"
  unfolding processTokenTransfersErc1155_def writeTransfer_def by (intro preserves_intros)

lemma preserves_internalTxs [preserves_intros]: "preserves db_wf (processInternalTxs rpc h n st)"
  unfolding processInternalTxs_def by (intro preserves_intros)

end
