(* ===== verification/JobsGold.thy ===== *)
theory JobsGold
  imports JobsEvm
begin

text \<open>
  The jobs on Gold Chain events, \<^verbatim>\<open>packages/indexer/src/jobs/\<close>: bridge, staking, validator,
  governance and checkpoint events.  A decoder turns a log into a row or throws; a job writes
  the rows of the logs whose first topic belongs to its family.  The lemmas: the schema
  invariant, and what the decoders compute from well-formed event data.
\<close>

unbundle bit_operations_syntax

section \<open>bridge-events.ts\<close>

definition bytes32ToCorrelation :: "int \<Rightarrow> string" where
  "bytes32ToCorrelation word = ''0x'' @ word_hex word"

definition decodeLockedScaled :: "RpcLog \<Rightarrow> FinalityStatus \<Rightarrow> js_error + BridgeTransferRow" where
  "decodeLockedScaled log finalityStatus =
     bindS (abiDecodeStatic (rl_data log) 3) (\<lambda>ws.
     let childTokenId = ws ! 0; rootAmount = ws ! 1; childAmount = ws ! 2 in
     bindS (routeAssetFromTokenId childTokenId) (\<lambda>routeAsset.
     let amountExact = isAmountExactForRoute routeAsset rootAmount childAmount in
     bindS (topic_at (rl_topics log) 2) (\<lambda>t2. bindS (topicToAddress t2) (\<lambda>depositReceiver.
     Inr \<lparr>br_routeAsset = routeAsset, br_rootAmount = bigint_str 10 rootAmount,
       br_childAmount = bigint_str 10 childAmount,
       br_bridgeState = (if amountExact then Locked else Synced),
       br_finalityStatus = finalityStatus, br_rootTxHash = Some (rl_transactionHash log),
       br_childTxHash = None, br_direction = Deposit, br_sourceLayer = Ethereum,
       br_receiptCorrelationId = correlationFromAddress depositReceiver,
       br_amountExact = amountExact\<rparr>))))"

definition decodeMigrationMint :: "RpcLog \<Rightarrow> FinalityStatus \<Rightarrow> js_error + BridgeTransferRow" where
  "decodeMigrationMint log finalityStatus =
     bindS (abiDecodeStatic (rl_data log) 2) (\<lambda>ws.
     let amount = ws ! 0; migrationRef = ws ! 1 in
     bindS (topic_at (rl_topics log) 2) (\<lambda>t2. bindS (BigInt t2) (\<lambda>tokenId.
     bindS (routeAssetFromTokenId tokenId) (\<lambda>routeAsset.
     let childAmount = amount;
         rootAmount = (if routeAsset = Paxg then amount else amount * XAUT_SCALE) in
     Inr \<lparr>br_routeAsset = routeAsset, br_rootAmount = bigint_str 10 rootAmount,
       br_childAmount = bigint_str 10 childAmount, br_bridgeState = MintedOrCredited,
       br_finalityStatus = finalityStatus, br_rootTxHash = None,
       br_childTxHash = Some (rl_transactionHash log), br_direction = Deposit,
       br_sourceLayer = GoldChain, br_receiptCorrelationId = bytes32ToCorrelation migrationRef,
       br_amountExact = isAmountExactForRoute routeAsset rootAmount childAmount\<rparr>))))"

definition decodeGoldRedemptionRequested :: "RpcLog \<Rightarrow> FinalityStatus \<Rightarrow> js_error + BridgeTransferRow" where
  "decodeGoldRedemptionRequested log finalityStatus =
     bindS (abiDecodeStatic (rl_data log) 2) (\<lambda>ws.
     let goldAmount = ws ! 0; rootReleaseAmount = ws ! 1 in
     bindS (topic_at (rl_topics log) 3) (\<lambda>t3. bindS (BigInt t3) (\<lambda>tokenId.
     bindS (routeAssetFromTokenId tokenId) (\<lambda>routeAsset.
     bindS (topic_at (rl_topics log) 2) (\<lambda>t2. bindS (topicToAddress t2) (\<lambda>recipient.
     Inr \<lparr>br_routeAsset = routeAsset, br_rootAmount = bigint_str 10 rootReleaseAmount,
       br_childAmount = bigint_str 10 goldAmount, br_bridgeState = BurnedOrDebited,
       br_finalityStatus = finalityStatus, br_rootTxHash = None,
       br_childTxHash = Some (rl_transactionHash log), br_direction = Exit,
       br_sourceLayer = GoldChain, br_receiptCorrelationId = correlationFromAddress recipient,
       br_amountExact = isAmountExactForRoute routeAsset rootReleaseAmount goldAmount\<rparr>))))))"

definition decodeExitedScaled :: "RpcLog \<Rightarrow> FinalityStatus \<Rightarrow> js_error + BridgeTransferRow" where
  "decodeExitedScaled log finalityStatus =
     bindS (abiDecodeStatic (rl_data log) 3) (\<lambda>ws.
     let childTokenId = ws ! 0; childAmount = ws ! 1; rootAmount = ws ! 2 in
     bindS (routeAssetFromTokenId childTokenId) (\<lambda>routeAsset.
     bindS (topic_at (rl_topics log) 1) (\<lambda>t1. bindS (topicToAddress t1) (\<lambda>exitor.
     Inr \<lparr>br_routeAsset = routeAsset, br_rootAmount = bigint_str 10 rootAmount,
       br_childAmount = bigint_str 10 childAmount, br_bridgeState = Released,
       br_finalityStatus = finalityStatus, br_rootTxHash = Some (rl_transactionHash log),
       br_childTxHash = None, br_direction = Exit, br_sourceLayer = Ethereum,
       br_receiptCorrelationId = correlationFromAddress exitor,
       br_amountExact = isAmountExactForRoute routeAsset rootAmount childAmount\<rparr>))))"

definition decodeBridgeLog :: "RpcLog \<Rightarrow> FinalityStatus \<Rightarrow> js_error + BridgeTransferRow option" where
  "decodeBridgeLog log finalityStatus =
     (if \<not> truthy (map_option toLowerCase (topic0 (rl_topics log))) then Inr None
      else if topic0_is log LOCKED_SCALED_ERC1155_TOPIC
      then bindS (decodeLockedScaled log finalityStatus) (\<lambda>r. Inr (Some r))
      else if topic0_is log MIGRATION_MINT_TOPIC
      then bindS (decodeMigrationMint log finalityStatus) (\<lambda>r. Inr (Some r))
      else if topic0_is log GOLD_REDEMPTION_REQUESTED_TOPIC
      then bindS (decodeGoldRedemptionRequested log finalityStatus) (\<lambda>r. Inr (Some r))
      else if topic0_is log EXITED_SCALED_ERC1155_TOPIC
      then bindS (decodeExitedScaled log finalityStatus) (\<lambda>r. Inr (Some r))
      else Inr None)"

definition processBridgeEvents :: "RpcLog list \<Rightarrow> FinalityStatus \<Rightarrow> (db, unit) js" where
  "processBridgeEvents ls finalityStatus = forM ls (\<lambda>log.
     if \<not> topicMatches (topic0 (rl_topics log)) GOLD_BRIDGE_EVENT_TOPICS then returnM ()
     else bindM (liftS (decodeBridgeLog log finalityStatus)) (\<lambda>r.
       case r of None \<Rightarrow> returnM () | Some row \<Rightarrow> insertBridgeTransfer row))"

section \<open>staking-events.ts\<close>

definition staking_row ::
  "RpcLog \<Rightarrow> FinalityStatus \<Rightarrow> string \<Rightarrow> string \<Rightarrow> string \<Rightarrow> int \<Rightarrow> StakeAsset \<Rightarrow> StakingEventRow" where
  "staking_row log finalityStatus eventType delegator operatorAddress amount stakeAsset = \<lparr>
     st_blockNumber = hexToNumber (rl_blockNumber log), st_transactionHash = rl_transactionHash log,
     st_eventType = eventType, st_stakerAddress = delegator, st_amount = bigint_str 10 amount,
     st_stakeAsset = stakeAsset, st_validatorAddress = Some operatorAddress,
     st_finalityStatus = finalityStatus\<rparr>"

definition decodeStakingEvent :: "RpcLog \<Rightarrow> FinalityStatus \<Rightarrow> js_error + StakingEventRow option" where
  "decodeStakingEvent log finalityStatus =
     bindS (topic_at (rl_topics log) 1) (\<lambda>t1. bindS (topicToAddress t1) (\<lambda>operatorAddress.
     bindS (topic_at (rl_topics log) 2) (\<lambda>t2. bindS (topicToAddress t2) (\<lambda>delegator.
     if topic0_is log TOKEN_B1155_DELEGATED_TOPIC then
       bindS (topic_at (rl_topics log) 3) (\<lambda>t3. bindS (BigInt t3) (\<lambda>tokenId.
       bindS (abiDecodeStatic (rl_data log) 1) (\<lambda>ws. bindS (stakeAssetFromTokenId tokenId) (\<lambda>asset.
       Inr (Some (staking_row log finalityStatus ''stake'' delegator operatorAddress (ws ! 0) asset))))))
     else if topic0_is log TOKEN_B1155_UNDELEGATED_TOPIC then
       bindS (topic_at (rl_topics log) 3) (\<lambda>t3. bindS (BigInt t3) (\<lambda>tokenId.
       bindS (abiDecodeStatic (rl_data log) 1) (\<lambda>ws. bindS (stakeAssetFromTokenId tokenId) (\<lambda>asset.
       Inr (Some (staking_row log finalityStatus ''unstake'' delegator operatorAddress (ws ! 0) asset))))))
     else if topic0_is log DELEGATED_TOPIC then
       bindS (abiDecodeStatic (rl_data log) 2) (\<lambda>ws.
       Inr (Some (staking_row log finalityStatus ''stake'' delegator operatorAddress (ws ! 1) Gilt)))
     else if topic0_is log UNDELEGATED_TOPIC then
       bindS (abiDecodeStatic (rl_data log) 2) (\<lambda>ws.
       Inr (Some (staking_row log finalityStatus ''unbond'' delegator operatorAddress (ws ! 1) Gilt)))
     else Inr None))))"

definition processStakingEvents :: "RpcLog list \<Rightarrow> FinalityStatus \<Rightarrow> (db, unit) js" where
  "processStakingEvents ls finalityStatus = forM ls (\<lambda>log.
     if \<not> topicMatches (topic0 (rl_topics log)) GOLD_STAKING_EVENT_TOPICS then returnM ()
     else bindM (liftS (decodeStakingEvent log finalityStatus)) (\<lambda>r.
       case r of None \<Rightarrow> returnM () | Some row \<Rightarrow> insertStakingEvent row))"

section \<open>validator-events.ts\<close>

text \<open>The commission rates set by the logs, by transaction; a later log replaces an earlier one.\<close>

definition commissionByTx :: "RpcLog list \<Rightarrow> js_error + (string \<times> jsnum) list" where
  "commissionByTx ls =
     bindS (mapS (\<lambda>log. bindS (abiDecodeStatic (rl_data log) 1) (\<lambda>ws.
         Inr (rl_transactionHash log, number_of_bigint (ws ! 0))))
       (filter (\<lambda>log. topic0_is log COMMISSION_RATE_EDITED_TOPIC) ls)) (\<lambda>entries. Inr (rev entries))"

definition validator_row ::
  "RpcLog \<Rightarrow> FinalityStatus \<Rightarrow> string \<Rightarrow> string \<Rightarrow> string option \<Rightarrow> jsnum \<Rightarrow> bool \<Rightarrow> bool \<Rightarrow> ValidatorEventRow" where
  "validator_row log finalityStatus eventType operatorAddress amount commissionBps jailed elected = \<lparr>
     ve_blockNumber = hexToNumber (rl_blockNumber log), ve_transactionHash = rl_transactionHash log,
     ve_eventType = eventType, ve_validatorAddress = operatorAddress, ve_amount = amount,
     ve_commissionBps = commissionBps, ve_jailed = jailed, ve_elected = elected,
     ve_finalityStatus = finalityStatus\<rparr>"

definition decodeValidatorEvent ::
  "(string \<times> jsnum) list \<Rightarrow> RpcLog \<Rightarrow> FinalityStatus \<Rightarrow> js_error + ValidatorEventRow option" where
  "decodeValidatorEvent commissions log finalityStatus =
     (if topic0_is log VALIDATOR_CREATED_TOPIC then
        bindS (topic_at (rl_topics log) 2) (\<lambda>t2. bindS (topicToAddress t2) (\<lambda>operatorAddress.
        let commissionBps = (case map_of commissions (rl_transactionHash log) of None \<Rightarrow> JNum 0 | Some c \<Rightarrow> c) in
        Inr (Some (validator_row log finalityStatus ''created'' operatorAddress None commissionBps False False))))
      else if topic0_is log STAKE_CREDIT_INITIALIZED_TOPIC then
        bindS (topic_at (rl_topics log) 1) (\<lambda>t1. bindS (topicToAddress t1) (\<lambda>operatorAddress.
        Inr (Some (validator_row log finalityStatus ''elected'' operatorAddress None (JNum 0) False True))))
      else if topic0_is log VALIDATOR_JAILED_TOPIC then
        bindS (topic_at (rl_topics log) 1) (\<lambda>t1. bindS (topicToAddress t1) (\<lambda>operatorAddress.
        Inr (Some (validator_row log finalityStatus ''jailed'' operatorAddress None (JNum 0) True False))))
      else if topic0_is log VALIDATOR_SLASHED_TOPIC then
        bindS (topic_at (rl_topics log) 1) (\<lambda>t1. bindS (topicToAddress t1) (\<lambda>operatorAddress.
        bindS (abiDecodeStatic (rl_data log) 2) (\<lambda>ws.
        let slashAmount = ws ! 1 in
        Inr (Some (validator_row log finalityStatus ''slashed'' operatorAddress
          (if slashAmount = 0 then None else Some (bigint_str 10 slashAmount)) (JNum 0) False False)))))
      else if topic0_is log TOKEN_B1155_SLASHED_TOPIC then
        bindS (topic_at (rl_topics log) 1) (\<lambda>t1. bindS (topicToAddress t1) (\<lambda>operatorAddress.
        bindS (topic_at (rl_topics log) 2) (\<lambda>t2. bindS (BigInt t2) (\<lambda>tokenId.
        bindS (abiDecodeStatic (rl_data log) 1) (\<lambda>ws.
        Inr (Some (validator_row log finalityStatus ''slashed'' operatorAddress
          (Some (bigint_str 10 (ws ! 0))) (JNum 0) False False)))))))
      else Inr None)"

definition processValidatorEvents :: "RpcLog list \<Rightarrow> FinalityStatus \<Rightarrow> (db, unit) js" where
  "processValidatorEvents ls finalityStatus =
     bindM (liftS (commissionByTx ls)) (\<lambda>commissions.
     forM ls (\<lambda>log.
       if \<not> topicMatches (topic0 (rl_topics log)) GOLD_VALIDATOR_EVENT_TOPICS then returnM ()
       else bindM (liftS (decodeValidatorEvent commissions log finalityStatus)) (\<lambda>r.
         case r of None \<Rightarrow> returnM () | Some row \<Rightarrow> insertValidatorEvent row)))"

section \<open>governance-events.ts\<close>

definition proposalIdFromWord :: "int \<Rightarrow> string" where
  "proposalIdFromWord word = ''0x'' @ word_hex word"

definition governance_row ::
  "RpcLog \<Rightarrow> FinalityStatus \<Rightarrow> string \<Rightarrow> string option \<Rightarrow> string option \<Rightarrow> int \<Rightarrow>
   GovernanceSupport option \<Rightarrow> js_date option \<Rightarrow> GovernanceEventRow" where
  "governance_row log finalityStatus eventType proposer voter proposalIdWord support timelockEta = \<lparr>
     gov_blockNumber = hexToNumber (rl_blockNumber log), gov_transactionHash = rl_transactionHash log,
     gov_eventType = eventType, gov_proposerAddress = proposer, gov_voterAddress = voter,
     gov_proposalId = Some (proposalIdFromWord proposalIdWord), gov_support = support,
     gov_timelockEta = timelockEta, gov_finalityStatus = finalityStatus\<rparr>"

definition date_of_seconds :: "int \<Rightarrow> js_date" where
  "date_of_seconds s = (case number_of_bigint s of JNum n \<Rightarrow> make_date (n * 1000) | _ \<Rightarrow> InvalidDate)"

definition decodeGovernanceEvent :: "RpcLog \<Rightarrow> FinalityStatus \<Rightarrow> js_error + GovernanceEventRow option" where
  "decodeGovernanceEvent log finalityStatus =
     (if topic0_is log PROPOSAL_CREATED_TOPIC then
        bindS (abiDecodeStatic (rl_data log) 2) (\<lambda>ws.
        bindS (topicToAddress (''0x'' @ word_hex (ws ! 1))) (\<lambda>proposerAddress.
        Inr (Some (governance_row log finalityStatus ''proposal_created'' (Some proposerAddress) None
          (ws ! 0) None None))))
      else if topic0_is log VOTE_CAST_TOPIC then
        bindS (topic_at (rl_topics log) 1) (\<lambda>t1. bindS (topicToAddress t1) (\<lambda>voterAddress.
        bindS (abiDecodeStatic (rl_data log) 2) (\<lambda>ws.
        bindS (governanceSupportFromCode (ws ! 1)) (\<lambda>support.
        Inr (Some (governance_row log finalityStatus ''vote'' None (Some voterAddress) (ws ! 0) support None))))))
      else if topic0_is log PROPOSAL_QUEUED_TOPIC then
        bindS (abiDecodeStatic (rl_data log) 2) (\<lambda>ws.
        let timelockEta = (if ws ! 1 = 0 then None else Some (date_of_seconds (ws ! 1))) in
        Inr (Some (governance_row log finalityStatus ''queued'' None None (ws ! 0) None timelockEta)))
      else if topic0_is log PROPOSAL_EXECUTED_TOPIC then
        bindS (abiDecodeStatic (rl_data log) 1) (\<lambda>ws.
        Inr (Some (governance_row log finalityStatus ''executed'' None None (ws ! 0) None None)))
      else Inr None)"

definition processGovernanceEvents :: "RpcLog list \<Rightarrow> FinalityStatus \<Rightarrow> (db, unit) js" where
  "processGovernanceEvents ls finalityStatus = forM ls (\<lambda>log.
     if \<not> topicMatches (topic0 (rl_topics log)) GOLD_GOVERNANCE_EVENT_TOPICS then returnM ()
     else bindM (liftS (decodeGovernanceEvent log finalityStatus)) (\<lambda>r.
       case r of None \<Rightarrow> returnM () | Some row \<Rightarrow> insertGovernanceEvent row))"

section \<open>checkpoint-events.ts\<close>

definition HALTED_POWER_SENTINEL :: int where
  "HALTED_POWER_SENTINEL = 0"

definition checkpoint_row :: "RpcLog \<Rightarrow> FinalityStatus \<Rightarrow> int \<Rightarrow> int \<Rightarrow> ChainStatus \<Rightarrow> CheckpointRow" where
  "checkpoint_row log finalityStatus checkpointWord validatorWord status = \<lparr>
     cp_blockNumber = hexToNumber (rl_blockNumber log), cp_checkpointHash = ''0x'' @ word_hex checkpointWord,
     cp_validatorSetHash = ''0x'' @ word_hex validatorWord, cp_chainStatus = status,
     cp_finalityStatus = finalityStatus\<rparr>"

definition decodeNewHeaderBlock :: "RpcLog \<Rightarrow> FinalityStatus \<Rightarrow> js_error + CheckpointRow" where
  "decodeNewHeaderBlock log finalityStatus =
     bindS (topic_at (rl_topics log) 2) (\<lambda>t2. bindS (BigInt t2) (\<lambda>headerBlockId.
     bindS (abiDecodeStatic (rl_data log) 3) (\<lambda>ws.
     Inr (checkpoint_row log finalityStatus (ws ! 2) headerBlockId Committed))))"

definition decodeCommitmentPlanted :: "RpcLog \<Rightarrow> FinalityStatus \<Rightarrow> js_error + CheckpointRow" where
  "decodeCommitmentPlanted log finalityStatus =
     bindS (topic_at (rl_topics log) 1) (\<lambda>t1. bindS (BigInt t1) (\<lambda>epoch.
     bindS (abiDecodeStatic (rl_data log) 2) (\<lambda>ws.
     let totalPower = ws ! 0; validatorCount = ws ! 1 in
     Inr (checkpoint_row log finalityStatus epoch (totalPower XOR validatorCount) Committed))))"

definition decodeCommitmentUpdated :: "RpcLog \<Rightarrow> FinalityStatus \<Rightarrow> js_error + CheckpointRow" where
  "decodeCommitmentUpdated log finalityStatus =
     bindS (topic_at (rl_topics log) 1) (\<lambda>t1. bindS (BigInt t1) (\<lambda>epoch.
     bindS (abiDecodeStatic (rl_data log) 2) (\<lambda>ws.
     let totalPower = ws ! 0; validatorCount = ws ! 1;
         chainStatus = (if totalPower = HALTED_POWER_SENTINEL then Halted else Committed) in
     Inr (checkpoint_row log finalityStatus epoch validatorCount chainStatus))))"

definition decodeCheckpointEvent :: "RpcLog \<Rightarrow> FinalityStatus \<Rightarrow> js_error + CheckpointRow option" where
  "decodeCheckpointEvent log finalityStatus =
     (if topic0_is log NEW_HEADER_BLOCK_TOPIC
      then bindS (decodeNewHeaderBlock log finalityStatus) (\<lambda>r. Inr (Some r))
      else if topic0_is log COMMITMENT_PLANTED_TOPIC
      then bindS (decodeCommitmentPlanted log finalityStatus) (\<lambda>r. Inr (Some r))
      else if topic0_is log COMMITMENT_UPDATED_TOPIC
      then bindS (decodeCommitmentUpdated log finalityStatus) (\<lambda>r. Inr (Some r))
      else Inr None)"

definition processCheckpointEvents :: "RpcLog list \<Rightarrow> FinalityStatus \<Rightarrow> (db, unit) js" where
  "processCheckpointEvents ls finalityStatus = forM ls (\<lambda>log.
     if \<not> topicMatches (topic0 (rl_topics log)) GOLD_CHECKPOINT_EVENT_TOPICS then returnM ()
     else bindM (liftS (decodeCheckpointEvent log finalityStatus)) (\<lambda>r.
       case r of None \<Rightarrow> returnM () | Some row \<Rightarrow> insertCheckpoint row))"

section \<open>The schema invariant\<close>

lemma preserves_bridge [preserves_intros]: "preserves db_wf (processBridgeEvents ls st)"
  unfolding processBridgeEvents_def by (intro preserves_intros)

lemma preserves_staking [preserves_intros]: "preserves db_wf (processStakingEvents ls st)"
  unfolding processStakingEvents_def by (intro preserves_intros)

lemma preserves_validator [preserves_intros]: "preserves db_wf (processValidatorEvents ls st)"
  unfolding processValidatorEvents_def by (intro preserves_intros)

lemma preserves_governance [preserves_intros]: "preserves db_wf (processGovernanceEvents ls st)"
  unfolding processGovernanceEvents_def by (intro preserves_intros)

lemma preserves_checkpoint [preserves_intros]: "preserves db_wf (processCheckpointEvents ls st)"
  unfolding processCheckpointEvents_def by (intro preserves_intros)

end
