(* ===== verification/JobQueue.thy ===== *)
theory JobQueue
  imports Prelude
begin

text \<open>
  \<^verbatim>\<open>packages/indexer/src/queue.ts\<close>: the job types and the first-in first-out queue.  The
  handler is given one job and the store; it cannot reach the queue it is called from (the
  queue's \<^verbatim>\<open>jobs\<close> are private), so draining visits exactly the pending jobs.  If the
  handler throws, the jobs after the failing one stay queued.
  The locale \<open>job_queue\<close> states what the fan-out relies on and proves that filling
  an empty queue and draining it runs the handler on the jobs in order.
\<close>

datatype JobType =
    Receipts | ContractDetection | Logs | TokenTransfersErc20_721 | TokenTransfersErc1155
  | BridgeEvents | StakingEvents | ValidatorEvents | GovernanceEvents | CheckpointEvents
  | InternalTxs

record 'p Job =
  job_type :: JobType
  job_payload :: 'p

record 'p JobQueue =
  queue_jobs :: "'p Job list"

definition new_queue :: "'p JobQueue" where
  "new_queue = \<lparr>queue_jobs = []\<rparr>"

definition enqueue :: "'p Job \<Rightarrow> 'p JobQueue \<Rightarrow> 'p JobQueue" where
  "enqueue job q = q\<lparr>queue_jobs := queue_jobs q @ [job]\<rparr>"

fun drain_jobs ::
  "('p Job \<Rightarrow> ('s, unit) js) \<Rightarrow> 'p Job list \<Rightarrow> 's \<Rightarrow> (js_error + unit) \<times> ('p Job list \<times> 's)" where
  "drain_jobs handler [] s = (Inr (), ([], s))"
| "drain_jobs handler (j # jobs) s =
     (case handler j s of
        (Inl e, s') \<Rightarrow> (Inl e, (jobs, s'))
      | (Inr _, s') \<Rightarrow> drain_jobs handler jobs s')"

definition drain :: "('p Job \<Rightarrow> ('s, unit) js) \<Rightarrow> ('p JobQueue \<times> 's, unit) js" where
  "drain handler = (\<lambda>(q, s).
     case drain_jobs handler (queue_jobs q) s of
       (r, (jobs, s')) \<Rightarrow> (r, (q\<lparr>queue_jobs := jobs\<rparr>, s')))"

section \<open>The interface\<close>

locale job_queue =
  fixes empty_q :: 'q
    and enq :: "'j \<Rightarrow> 'q \<Rightarrow> 'q"
    and drn :: "('j \<Rightarrow> ('s, unit) js) \<Rightarrow> ('q \<times> 's, unit) js"
    and pending :: "'q \<Rightarrow> 'j list"
  assumes pending_empty: "pending empty_q = []"
    and pending_enq: "pending (enq j q) = pending q @ [j]"
    and drain_runs: "drn h (q, s) = (r, (q', s')) \<Longrightarrow> forM (pending q) h s = (r, s')"
    and drain_empties: "drn h (q, s) = (Inr (), (q', s')) \<Longrightarrow> pending q' = []"
begin

lemma pending_fold_enq: "pending (fold enq js q) = pending q @ js"
  by (induction js arbitrary: q) (simp_all add: pending_enq)

lemma drain_filled:
  assumes "drn h (fold enq js empty_q, s) = (r, (q', s'))"
  shows "forM js h s = (r, s')"
  using drain_runs [OF assms] by (simp add: pending_fold_enq pending_empty)

end

lemma drain_jobs_forM: "drain_jobs h js s = (r, (rest, s')) \<Longrightarrow> forM js h s = (r, s')"
  by (induction js arbitrary: s) (auto simp: js_simps split: prod.splits sum.splits)

lemma drain_jobs_empties: "drain_jobs h js s = (Inr (), (rest, s')) \<Longrightarrow> rest = []"
  by (induction js arbitrary: s) (auto split: prod.splits sum.splits)

interpretation jq: job_queue new_queue enqueue drain queue_jobs
  by unfold_locales
    (auto simp: new_queue_def enqueue_def drain_def split: prod.splits
      dest: drain_jobs_forM drain_jobs_empties)

text \<open>Draining as a computation on the store: what the fan-out awaits.\<close>

lemma drain_as_forM:
  "(case drain h (fold enqueue js new_queue, s) of (r, (q, s')) \<Rightarrow> (r, s')) = forM js h s"
  by (cases "drain h (fold enqueue js new_queue, s)") (auto dest!: jq.drain_filled)

end
