(* ===== verification/Backfill.thy ===== *)
theory Backfill
  imports JsText
begin

text \<open>
  \<^verbatim>\<open>packages/indexer/src/backfill.ts\<close> and \<^verbatim>\<open>head-follower.ts\<close>: the set of indexed
  block numbers (a list without duplicates), the ranges still
  missing below a head, and the merging of ranges.
  The lemmas: the missing ranges cover exactly the numbers of \<open>1..upTo\<close> that are not
  indexed and are maximal; merging covers the same numbers by separated ranges.
\<close>

record BlockRange =
  rng_from :: int
  rng_to :: int

record MissingRangeTracker =
  indexed :: "int list"

definition new_tracker :: MissingRangeTracker where
  "new_tracker = \<lparr>indexed = []\<rparr>"

definition markIndexed :: "int \<Rightarrow> MissingRangeTracker \<Rightarrow> MissingRangeTracker" where
  "markIndexed blockNumber t = t\<lparr>indexed := List.insert blockNumber (indexed t)\<rparr>"

definition markRangeIndexed :: "int \<Rightarrow> int \<Rightarrow> MissingRangeTracker \<Rightarrow> MissingRangeTracker" where
  "markRangeIndexed frm to t = fold markIndexed (range_list frm to) t"

text \<open>One pass of the loop: the ranges found so far and the open range, if there is one.\<close>

definition missing_step ::
  "int list \<Rightarrow> int \<Rightarrow> BlockRange list \<times> int option \<Rightarrow> BlockRange list \<times> int option" where
  "missing_step ixs blockNumber st =
     (case st of (missing, rangeStart) \<Rightarrow>
        if blockNumber \<notin> set ixs
        then (missing, case rangeStart of None \<Rightarrow> Some blockNumber | Some s \<Rightarrow> Some s)
        else (case rangeStart of
                None \<Rightarrow> (missing, None)
              | Some s \<Rightarrow> (missing @ [\<lparr>rng_from = s, rng_to = blockNumber - 1\<rparr>], None)))"

definition getMissingRanges :: "MissingRangeTracker \<Rightarrow> int \<Rightarrow> BlockRange list" where
  "getMissingRanges t upTo =
     (if upTo < 1 then []
      else (case fold (missing_step (indexed t)) (range_list 1 upTo) ([], None) of
              (missing, None) \<Rightarrow> missing
            | (missing, Some s) \<Rightarrow> missing @ [\<lparr>rng_from = s, rng_to = upTo\<rparr>]))"

definition MAX_SAFE_INTEGER :: int where
  "MAX_SAFE_INTEGER = 2 ^ 53 - 1"

definition hasGap :: "MissingRangeTracker \<Rightarrow> bool" where
  "hasGap t = (0 < length (getMissingRanges t MAX_SAFE_INTEGER))"

definition getIndexedBlocks :: "MissingRangeTracker \<Rightarrow> int list" where
  "getIndexedBlocks t = sort (indexed t)"

definition merge_step :: "BlockRange list \<Rightarrow> BlockRange \<Rightarrow> BlockRange list" where
  "merge_step merged current =
     (let l = last merged in
      if rng_from current \<le> rng_to l + 1
      then butlast merged @ [l\<lparr>rng_to := max (rng_to l) (rng_to current)\<rparr>]
      else merged @ [current])"

definition mergeRanges :: "BlockRange list \<Rightarrow> BlockRange list" where
  "mergeRanges ranges =
     (case sort_key rng_from ranges of
        [] \<Rightarrow> []
      | first # rest \<Rightarrow> foldl merge_step [first] rest)"

record HeadFollower =
  lastHead :: int
  pollIntervalMs :: "int option"

text \<open>\<open>pollHead\<close> stores the head the node answers; \<open>rpcHead\<close> is that answer.\<close>

definition pollHead :: "int \<Rightarrow> HeadFollower \<Rightarrow> int \<times> HeadFollower" where
  "pollHead rpcHead f = (rpcHead, f\<lparr>lastHead := rpcHead\<rparr>)"

definition getLastHead :: "HeadFollower \<Rightarrow> int" where
  "getLastHead f = lastHead f"

definition getPollIntervalMs :: "HeadFollower \<Rightarrow> int" where
  "getPollIntervalMs f = (case pollIntervalMs f of None \<Rightarrow> 0 | Some ms \<Rightarrow> ms)"

section \<open>What ranges cover\<close>

definition covers :: "BlockRange list \<Rightarrow> int set" where
  "covers rs = (\<Union>r \<in> set rs. {rng_from r..rng_to r})"

definition wf_range :: "BlockRange \<Rightarrow> bool" where
  "wf_range r \<longleftrightarrow> rng_from r \<le> rng_to r"

text \<open>Separated: in order, and a number is left out between two neighbours.\<close>

definition separated :: "BlockRange list \<Rightarrow> bool" where
  "separated rs \<longleftrightarrow> sorted_wrt (\<lambda>r q. rng_to r + 1 < rng_from q) rs"

lemma covers_append [simp]: "covers (rs @ qs) = covers rs \<union> covers qs"
  by (auto simp: covers_def)

lemma covers_single [simp]: "covers [r] = {rng_from r..rng_to r}"
  by (simp add: covers_def)

lemma covers_Cons: "covers (r # rs) = {rng_from r..rng_to r} \<union> covers rs"
  by (simp add: covers_def)

lemma separated_snoc:
  "separated (rs @ [q]) \<longleftrightarrow> separated rs \<and> (\<forall>r \<in> set rs. rng_to r + 1 < rng_from q)"
  by (simp add: separated_def sorted_wrt_append)

lemma set_markIndexed [simp]: "set (indexed (markIndexed b t)) = insert b (set (indexed t))"
  by (simp add: markIndexed_def)

lemma set_markRangeIndexed: "set (indexed (markRangeIndexed a b t)) = {a..b} \<union> set (indexed t)"
proof -
  have "set (indexed (fold markIndexed xs t)) = set xs \<union> set (indexed t)" for xs
    by (induction xs arbitrary: t) auto
  then show ?thesis by (simp add: markRangeIndexed_def)
qed

section \<open>Missing ranges\<close>

text \<open>
  What the loop keeps after visiting \<open>1..n\<close>: the closed ranges and the open one cover
  the numbers that are not indexed, every closed range ends before an indexed number, and an
  open range reaches up to \<open>n\<close>.
\<close>

definition missing_inv :: "int list \<Rightarrow> int \<Rightarrow> BlockRange list \<times> int option \<Rightarrow> bool" where
  "missing_inv ixs n st =
     (case st of (rs, open_at) \<Rightarrow>
        covers rs \<union> (case open_at of None \<Rightarrow> {} | Some s \<Rightarrow> {s..n}) = {1..n} - set ixs \<and>
        (\<forall>r \<in> set rs. wf_range r \<and> rng_to r < n) \<and> separated rs \<and>
        (case open_at of
           None \<Rightarrow> n < 1 \<or> n \<in> set ixs
         | Some s \<Rightarrow> s \<le> n \<and> (\<forall>r \<in> set rs. rng_to r + 1 < s)))"

lemma missing_inv_start: "missing_inv ixs 0 ([], None)"
  by (simp add: missing_inv_def covers_def separated_def)

lemma atMost_snoc_int: "0 \<le> n \<Longrightarrow> {1..n + 1} = insert (n + 1) {1..n :: int}"
  by auto

lemma missing_step_inv:
  assumes inv: "missing_inv ixs n (rs, open_at)" and "0 \<le> n"
  shows "missing_inv ixs (n + 1) (missing_step ixs (n + 1) (rs, open_at))"
proof (cases open_at)
  case None
  have r: "r \<in> set rs \<Longrightarrow> rng_to r < n" for r
    using inv by (auto simp: missing_inv_def)
  have sep: "r \<in> set rs \<Longrightarrow> rng_to r + 1 < n + 1" for r using r by force
  from None inv sep \<open>0 \<le> n\<close> show ?thesis
    by (auto simp: missing_inv_def missing_step_def atMost_snoc_int)
next
  case (Some s)
  with inv \<open>0 \<le> n\<close> have cov: "covers rs \<union> {s..n} = {1..n} - set ixs" and "s \<le> n"
    and wf: "\<forall>r \<in> set rs. wf_range r \<and> rng_to r < n" and sep: "separated rs"
    and lt: "\<forall>r \<in> set rs. rng_to r + 1 < s"
    by (auto simp: missing_inv_def)
  have ext: "{s..n + 1} = insert (n + 1) {s..n}" using \<open>s \<le> n\<close> by auto
  show ?thesis
  proof (cases "n + 1 \<in> set ixs")
    case True
    with Some cov wf sep lt \<open>s \<le> n\<close> \<open>0 \<le> n\<close> show ?thesis
      by (auto simp: missing_inv_def missing_step_def separated_snoc atMost_snoc_int wf_range_def)
  next
    case False
    with Some cov wf sep lt \<open>s \<le> n\<close> \<open>0 \<le> n\<close> show ?thesis
      by (auto simp: missing_inv_def missing_step_def atMost_snoc_int ext)
  qed
qed

lemma missing_loop_inv: "missing_inv ixs (int n) (fold (missing_step ixs) (range_list 1 (int n)) ([], None))"
proof (induction n)
  case 0
  then show ?case using missing_inv_start by (simp add: range_list_rec)
next
  case (Suc n)
  let ?st = "fold (missing_step ixs) (range_list 1 (int n)) ([], None)"
  have "range_list 1 (int n + 1) = range_list 1 (int n) @ [int n + 1]"
    using range_list_snoc [of 1 "int n + 1"] by simp
  moreover have "missing_inv ixs (int n + 1) (missing_step ixs (int n + 1) ?st)"
    using missing_step_inv [of ixs "int n" "fst ?st" "snd ?st"] Suc by simp
  ultimately show ?case by (simp add: add.commute)
qed

lemma getMissingRanges_spec:
  "covers (getMissingRanges t upTo) = {1..upTo} - set (indexed t) \<and>
   (\<forall>r \<in> set (getMissingRanges t upTo). wf_range r) \<and> separated (getMissingRanges t upTo)"
proof (cases "upTo < 1")
  case True
  then show ?thesis by (simp add: getMissingRanges_def covers_def separated_def)
next
  case False
  obtain rs open_at where st: "fold (missing_step (indexed t)) (range_list 1 upTo) ([], None) = (rs, open_at)"
    by fastforce
  with False missing_loop_inv [of "indexed t" "nat upTo"] have "missing_inv (indexed t) upTo (rs, open_at)"
    by simp
  with False st show ?thesis
    by (auto simp: getMissingRanges_def missing_inv_def separated_snoc wf_range_def split: option.splits)
qed

section \<open>Merging\<close>

text \<open>The merged list, its last range and what is still to come: all later ranges start no
  earlier than the last one, since the input was sorted.\<close>

lemma merge_step_inv:
  assumes "rs \<noteq> []" and "separated rs" and "\<forall>r \<in> set rs. wf_range r"
    and "wf_range q" and "rng_from (last rs) \<le> rng_from q"
  shows "merge_step rs q \<noteq> []" "separated (merge_step rs q)" "\<forall>r \<in> set (merge_step rs q). wf_range r"
    "covers (merge_step rs q) = covers rs \<union> {rng_from q..rng_to q}"
    "rng_from (last (merge_step rs q)) \<le> rng_from q"
proof -
  obtain bs l where rs: "rs = bs @ [l]" using assms(1) by (cases rs rule: rev_cases) auto
  have gap: "\<forall>r \<in> set bs. rng_to r + 1 < rng_from l" and sepb: "separated bs"
    using assms(2) by (simp_all add: rs separated_snoc)
  have wfl: "rng_from l \<le> rng_to l" using assms(3) by (simp add: rs wf_range_def)
  have before: "\<forall>r \<in> set bs. rng_to r < rng_to l" using gap wfl by force
  have un: "{rng_from l..max (rng_to l) (rng_to q)} = {rng_from l..rng_to l} \<union> {rng_from q..rng_to q}"
    if "rng_from q \<le> rng_to l + 1"
    using that assms(4,5) wfl by (auto simp: rs wf_range_def)
  show "merge_step rs q \<noteq> []" by (simp add: merge_step_def Let_def)
  show "separated (merge_step rs q)"
    using gap sepb before by (auto simp: merge_step_def Let_def rs separated_def sorted_wrt_append)
  show "\<forall>r \<in> set (merge_step rs q). wf_range r"
    using assms(3,4) by (auto simp: merge_step_def Let_def rs wf_range_def)
  show "covers (merge_step rs q) = covers rs \<union> {rng_from q..rng_to q}"
    using un by (auto simp: merge_step_def Let_def rs covers_Cons)
  show "rng_from (last (merge_step rs q)) \<le> rng_from q"
    using assms(5) by (simp add: merge_step_def Let_def rs)
qed

lemma merge_loop:
  assumes "rs \<noteq> []" and "separated rs" and "\<forall>r \<in> set rs. wf_range r"
    and "\<forall>q \<in> set qs. wf_range q" and "sorted (map rng_from qs)"
    and "\<forall>q \<in> set qs. rng_from (last rs) \<le> rng_from q"
  shows "separated (foldl merge_step rs qs) \<and> (\<forall>r \<in> set (foldl merge_step rs qs). wf_range r) \<and>
         covers (foldl merge_step rs qs) = covers rs \<union> covers qs"
  using assms
proof (induction qs arbitrary: rs)
  case Nil
  then show ?case by (simp add: covers_def)
next
  case (Cons q qs)
  have q: "wf_range q" "rng_from (last rs) \<le> rng_from q" using Cons.prems by auto
  note step = merge_step_inv [OF Cons.prems(1-3) q]
  have "\<forall>p \<in> set qs. rng_from (last (merge_step rs q)) \<le> rng_from p"
    using Cons.prems(5) step(5) by force
  with Cons.IH [OF step(1-3)] Cons.prems(4,5) step(4) show ?case
    by (auto simp: covers_Cons)
qed

section \<open>Visiting ranges\<close>

text \<open>Separated ranges, visited one after the other, are the covered numbers in order.\<close>

definition range_numbers :: "BlockRange list \<Rightarrow> int list" where
  "range_numbers rs = concat (map (\<lambda>r. range_list (rng_from r) (rng_to r)) rs)"

lemma set_range_numbers: "set (range_numbers rs) = covers rs"
  by (simp add: range_numbers_def covers_def)

lemma sorted_range_numbers:
  assumes "separated rs"
  shows "sorted_wrt (<) (range_numbers rs)"
  using assms
proof (induction rs)
  case (Cons r rs)
  have "range_numbers (r # rs) = range_list (rng_from r) (rng_to r) @ range_numbers rs"
    by (simp add: range_numbers_def)
  moreover have "x < y" if "x \<in> {rng_from r..rng_to r}" "y \<in> covers rs" for x y
    using that Cons.prems by (force simp: separated_def covers_def)
  ultimately show ?case
    using Cons by (simp add: sorted_wrt_append set_range_numbers range_list_def separated_def)
qed (simp add: range_numbers_def)

lemma missing_numbers: "range_numbers (getMissingRanges t upTo) =
    filter (\<lambda>n. n \<notin> set (indexed t)) (range_list 1 upTo)"
proof (rule strict_sorted_equal [symmetric])
  show "sorted_wrt (<) (range_numbers (getMissingRanges t upTo))"
    by (simp add: sorted_range_numbers getMissingRanges_spec)
  show "sorted_wrt (<) (filter (\<lambda>n. n \<notin> set (indexed t)) (range_list 1 upTo))"
    by (simp add: sorted_wrt_filter range_list_def)
  show "set (filter (\<lambda>n. n \<notin> set (indexed t)) (range_list 1 upTo)) = set (range_numbers (getMissingRanges t upTo))"
    using getMissingRanges_spec by (auto simp: set_range_numbers)
qed

text \<open>
  Merging ranges covers the same heights, by ranges that are not empty, come in order and leave a
  height out between any two.
\<close>

theorem mergeRanges_spec:
  assumes "\<forall>r \<in> set ranges. wf_range r"
  shows "covers (mergeRanges ranges) = covers ranges \<and> separated (mergeRanges ranges) \<and>
         (\<forall>r \<in> set (mergeRanges ranges). wf_range r)"
proof (cases "sort_key rng_from ranges")
  case Nil
  then have "ranges = []" by (metis set_empty set_sort)
  then show ?thesis by (simp add: mergeRanges_def covers_def separated_def)
next
  case (Cons first rest)
  have s: "set (first # rest) = set ranges" by (metis Cons set_sort)
  have srt: "sorted (map rng_from (first # rest))" by (metis Cons sorted_sort_key)
  have "covers ranges = covers [first] \<union> covers rest"
    by (simp add: covers_def s [symmetric])
  then show ?thesis
    using merge_loop [of "[first]" rest] s srt assms Cons
    by (auto simp: mergeRanges_def separated_def)
qed

theorem mergeRanges_spec_witness: "covers (mergeRanges [\<lparr>rng_from = 3, rng_to = 4\<rparr>, \<lparr>rng_from = 1, rng_to = 2\<rparr>]) = {1..4}"
proof -
  have "covers [\<lparr>rng_from = 3, rng_to = 4\<rparr>, \<lparr>rng_from = 1, rng_to = 2\<rparr>] = {1..4}" by (auto simp: covers_def)
  then show ?thesis
    using mergeRanges_spec [of "[\<lparr>rng_from = 3, rng_to = 4\<rparr>, \<lparr>rng_from = 1, rng_to = 2\<rparr>]"]
    by (simp add: wf_range_def)
qed

end
