(* ===== verification/Indexer.thy ===== *)
theory Indexer
  imports JobsGold JobQueue Backfill
begin

text \<open>
  \<^verbatim>\<open>packages/indexer/src/jobs/fan-out.ts\<close> and \<^verbatim>\<open>indexer.ts\<close>: the jobs of one block and
  the indexing loop.  A \<open>world\<close> is what a call of the indexer changes: the database, the
  \<open>IndexerState\<close> it was given and the events sent to \<^verbatim>\<open>onIndexed\<close>, newest last.
  Block heights are integers, \<^verbatim>\<open>env\<close> is the value of the confirmation-depth variable.
\<close>

section \<open>fan-out.ts\<close>

record TxJobPayload =
  pl_txHash :: string
  pl_blockNumber :: jsnum
  pl_finalityStatus :: FinalityStatus

text \<open>The jobs of one transaction, in the order they are queued.\<close>

definition tx_job_types :: "JobType list" where
  "tx_job_types =
     [Receipts, ContractDetection, Logs, TokenTransfersErc20_721, TokenTransfersErc1155, BridgeEvents,
      StakingEvents, ValidatorEvents, GovernanceEvents, CheckpointEvents, InternalTxs]"

text \<open>
  The handler closes over the variable \<open>receipt\<close>, so its store is the database together
  with that variable.
\<close>

definition onDb :: "(db, 'a) js \<Rightarrow> (db \<times> RpcReceipt option, 'a) js" where
  "onDb m = zoomM fst (\<lambda>d w. (d, snd w)) m"

definition with_receipt :: "(RpcReceipt \<Rightarrow> (db, unit) js) \<Rightarrow> (db \<times> RpcReceipt option, unit) js" where
  "with_receipt f = bindM (getsM snd) (\<lambda>r. case r of None \<Rightarrow> returnM () | Some receipt \<Rightarrow> onDb (f receipt))"

definition job_handler ::
  "RpcClient \<Rightarrow> TxJobPayload \<Rightarrow> TxJobPayload Job \<Rightarrow> (db \<times> RpcReceipt option, unit) js" where
  "job_handler rpc payload job =
     (let st = pl_finalityStatus payload in
      case job_type job of
        Receipts \<Rightarrow> bindM (onDb (processReceipts rpc (pl_txHash payload)))
                      (\<lambda>receipt. modifyM (\<lambda>w. (fst w, receipt)))
      | ContractDetection \<Rightarrow> with_receipt processContractDetection
      | Logs \<Rightarrow> with_receipt (\<lambda>r. processLogs (rr_logs r) st)
      | TokenTransfersErc20_721 \<Rightarrow> with_receipt (\<lambda>r. processTokenTransfersErc20Erc721 (rr_logs r) st)
      | TokenTransfersErc1155 \<Rightarrow> with_receipt (\<lambda>r. processTokenTransfersErc1155 (rr_logs r) st)
      | BridgeEvents \<Rightarrow> with_receipt (\<lambda>r. processBridgeEvents (rr_logs r) st)
      | StakingEvents \<Rightarrow> with_receipt (\<lambda>r. processStakingEvents (rr_logs r) st)
      | ValidatorEvents \<Rightarrow> with_receipt (\<lambda>r. processValidatorEvents (rr_logs r) st)
      | GovernanceEvents \<Rightarrow> with_receipt (\<lambda>r. processGovernanceEvents (rr_logs r) st)
      | CheckpointEvents \<Rightarrow> with_receipt (\<lambda>r. processCheckpointEvents (rr_logs r) st)
      | InternalTxs \<Rightarrow> with_receipt (\<lambda>r.
          processInternalTxs rpc (pl_txHash payload) (pl_blockNumber payload) st))"

definition run_tx_jobs :: "RpcClient \<Rightarrow> TxJobPayload \<Rightarrow> (db, unit) js" where
  "run_tx_jobs rpc payload = (\<lambda>d.
     let queue = fold enqueue (map (\<lambda>t. \<lparr>job_type = t, job_payload = payload\<rparr>) tx_job_types) new_queue in
     case drain (job_handler rpc payload) (queue, (d, None)) of
       (r, (q, (d', receipt))) \<Rightarrow> (r, d'))"

definition runBlockJobs :: "string option \<Rightarrow> RpcClient \<Rightarrow> RpcBlock \<Rightarrow> int \<Rightarrow> (db, unit) js" where
  "runBlockJobs env rpc block headNumber =
     (let blockNumber = parseInt 16 (rb_number block) in
      bindM (liftS (finalityStatusForBlock env blockNumber (JNum headNumber) False)) (\<lambda>finalityStatus.
      forM (rb_transactions block) (\<lambda>tx.
        run_tx_jobs rpc \<lparr>pl_txHash = rt_hash tx, pl_blockNumber = blockNumber,
                         pl_finalityStatus = finalityStatus\<rparr>)))"

section \<open>indexer.ts\<close>

datatype LiveFeedEvent =
    BlockEvent (ev_number: string) (ev_hash: string) (ev_timestamp: string) (ev_finality: FinalityStatus)
  | TxEvent (ev_hash: string) (ev_blockNumber: string) (ev_from: string) (ev_to: string)
      (ev_value: string) (ev_finality: FinalityStatus)

record IndexerState =
  tracker :: MissingRangeTracker
  lastIndexedHead :: int

definition createIndexerState :: IndexerState where
  "createIndexerState = \<lparr>tracker = new_tracker, lastIndexedHead = 0\<rparr>"

record world =
  w_db :: db
  w_state :: IndexerState
  w_feed :: "LiveFeedEvent list"

definition dbM :: "(db, 'a) js \<Rightarrow> (world, 'a) js" where
  "dbM m = zoomM w_db (\<lambda>d w. w\<lparr>w_db := d\<rparr>) m"

definition onIndexed :: "LiveFeedEvent \<Rightarrow> (world, unit) js" where
  "onIndexed ev = modifyM (\<lambda>w. w\<lparr>w_feed := w_feed w @ [ev]\<rparr>)"

text \<open>A stored hash that differs from the one the node reports.\<close>

definition stale_hash :: "string option \<Rightarrow> string \<Rightarrow> bool" where
  "stale_hash stored h \<longleftrightarrow> truthy stored \<and> stored \<noteq> Some h"

definition block_row :: "int \<Rightarrow> RpcBlock \<Rightarrow> FinalityStatus \<Rightarrow> js_error + BlockRow" where
  "block_row blockNumber block finalityStatus =
     bindS (hexToBigInt (rb_gasUsed block)) (\<lambda>gasUsed.
     bindS (hexToBigInt (rb_gasLimit block)) (\<lambda>gasLimit.
     Inr \<lparr>blk_number = blockNumber, blk_hash = rb_hash block, blk_parentHash = rb_parentHash block,
       blk_timestamp = blockTimestampToDate (rb_timestamp block),
       blk_validatorAddress = rb_miner block, blk_gasUsed = gasUsed, blk_gasLimit = gasLimit,
       blk_finalityStatus = finalityStatus\<rparr>))"

definition optional_wei :: "string option \<Rightarrow> js_error + string option" where
  "optional_wei v =
     (if truthy v then (case v of None \<Rightarrow> Inr None
                        | Some s \<Rightarrow> bindS (weiHexToDecimalString s) (\<lambda>t. Inr (Some t)))
      else Inr None)"

definition tx_row :: "RpcClient \<Rightarrow> int \<Rightarrow> RpcTransaction \<Rightarrow> FinalityStatus \<Rightarrow> js_error + TransactionRow" where
  "tx_row rpc blockNumber tx finalityStatus =
     (let status = (case getTransactionReceipt rpc (rt_hash tx) of
                      None \<Rightarrow> JNum 0 | Some receipt \<Rightarrow> hexToNumber (rr_status receipt)) in
      bindS (weiHexToDecimalString (rt_value tx)) (\<lambda>value.
      bindS (hexToBigInt (rt_gas tx)) (\<lambda>gas.
      bindS (optional_wei (rt_gasPrice tx)) (\<lambda>gasPrice.
      bindS (optional_wei (rt_maxFeePerGas tx)) (\<lambda>maxFeePerGas.
      bindS (optional_wei (rt_maxPriorityFeePerGas tx)) (\<lambda>maxPriorityFeePerGas.
      bindS (hexToBigInt (rt_nonce tx)) (\<lambda>nonce.
      Inr \<lparr>tx_hash = rt_hash tx, tx_blockNumber = JNum blockNumber, tx_fromAddress = rt_from tx,
        tx_toAddress = rt_to tx, tx_value = value, tx_gas = gas, tx_gasPrice = gasPrice,
        tx_maxFeePerGas = maxFeePerGas, tx_maxPriorityFeePerGas = maxPriorityFeePerGas,
        tx_input = rt_input tx, tx_nonce = nonce,
        tx_transactionIndex = hexToNumber (rt_transactionIndex tx), tx_status = status,
        tx_finalityStatus = finalityStatus\<rparr>)))))))"

definition process_tx :: "RpcClient \<Rightarrow> int \<Rightarrow> FinalityStatus \<Rightarrow> RpcTransaction \<Rightarrow> (world, unit) js" where
  "process_tx rpc blockNumber finalityStatus tx =
     bindM (liftS (tx_row rpc blockNumber tx finalityStatus)) (\<lambda>row.
     thenM (dbM (upsertTransaction row))
     (onIndexed (TxEvent (rt_hash tx) (number_str (JNum blockNumber)) (rt_from tx)
        (case rt_to tx of None \<Rightarrow> '''' | Some a \<Rightarrow> a) (tx_value row) finalityStatus)))"

definition process_reorg_checks :: "int \<Rightarrow> RpcBlock \<Rightarrow> (db, unit) js" where
  "process_reorg_checks blockNumber block =
     thenM (whenM (1 < blockNumber)
       (bindM (getsM (getBlockHashAtNumber (blockNumber - 1))) (\<lambda>storedParentHash.
          whenM (stale_hash storedParentHash (rb_parentHash block))
            (thenM (markBlockRevertedFromNumber blockNumber) (clearDerivedRowsForBlock blockNumber)))))
     (bindM (getsM (getBlockHashAtNumber blockNumber)) (\<lambda>storedHash.
        whenM (stale_hash storedHash (rb_hash block))
          (thenM (markBlockRevertedByNumber blockNumber) (clearDerivedRowsForBlock blockNumber))))"

definition processBlock ::
  "string option \<Rightarrow> RpcClient \<Rightarrow> int \<Rightarrow> int \<Rightarrow> (world, bool) js" where
  "processBlock env rpc blockNumber headNumber =
     (case getBlockByNumber rpc blockNumber of
        None \<Rightarrow> returnM False
      | Some block \<Rightarrow>
          thenM (dbM (process_reorg_checks blockNumber block))
          (bindM (liftS (finalityStatusForBlock env (JNum blockNumber) (JNum headNumber) False)) (\<lambda>finalityStatus.
          bindM (liftS (block_row blockNumber block finalityStatus)) (\<lambda>row.
          thenM (dbM (upsertBlock row))
          (thenM (onIndexed (BlockEvent (number_str (JNum blockNumber)) (rb_hash block)
                    (rb_timestamp block) finalityStatus))
          (thenM (dbM (clearDerivedRowsForBlock blockNumber))
          (thenM (forM (rb_transactions block) (process_tx rpc blockNumber finalityStatus))
          (thenM (dbM (markOrphanedTransactionsReverted blockNumber (map rt_hash (rb_transactions block))))
          (thenM (dbM (runBlockJobs env rpc block headNumber))
          (thenM (modifyM (\<lambda>w. w\<lparr>w_state := (w_state w)\<lparr>
                    tracker := markIndexed blockNumber (tracker (w_state w)),
                    lastIndexedHead := max (lastIndexedHead (w_state w)) blockNumber\<rparr>\<rparr>))
          (returnM True)))))))))))"

definition process_range :: "string option \<Rightarrow> RpcClient \<Rightarrow> int \<Rightarrow> int \<Rightarrow> int \<Rightarrow> (world, unit) js" where
  "process_range env rpc head frm to =
     forM (range_list frm to) (\<lambda>n. bindM (processBlock env rpc n head) (\<lambda>_. returnM ()))"

text \<open>The first height of \<open>1..verifyUpTo\<close> whose stored hash is not the node's.\<close>

definition mismatch_at :: "RpcClient \<Rightarrow> db \<Rightarrow> int \<Rightarrow> bool" where
  "mismatch_at rpc d blockNumber =
     (case getBlockByNumber rpc blockNumber of
        None \<Rightarrow> False
      | Some rpcBlock \<Rightarrow> stale_hash (getBlockHashAtNumber blockNumber d) (rb_hash rpcBlock))"

definition find_reorg :: "RpcClient \<Rightarrow> int \<Rightarrow> db \<Rightarrow> int option" where
  "find_reorg rpc verifyUpTo d = List.find (mismatch_at rpc d) (range_list 1 verifyUpTo)"

definition indexToHead :: "string option \<Rightarrow> RpcClient \<Rightarrow> (world, int) js" where
  "indexToHead env rpc =
     (let head = getBlockNumber rpc in
      bindM (getsM (\<lambda>w. getMissingRanges (tracker (w_state w)) head)) (\<lambda>missingRanges.
      thenM (forM missingRanges (\<lambda>range. process_range env rpc head (rng_from range) (rng_to range)))
      (bindM (getsM (\<lambda>w. find_reorg rpc (min (lastIndexedHead (w_state w)) head) (w_db w))) (\<lambda>reorgFrom.
      thenM (case reorgFrom of
               Some r \<Rightarrow> process_range env rpc head r head
             | None \<Rightarrow> bindM (getsM (\<lambda>w. lastIndexedHead (w_state w)))
                         (\<lambda>l. process_range env rpc head (l + 1) head))
      (bindM (getsM (\<lambda>w. lastIndexedHead (w_state w))) (\<lambda>l.
      thenM (whenM (0 < l) (dbM (updateFinalityForRange env 1 head head None)))
      (returnM head)))))))"

definition indexBlockNumbers :: "string option \<Rightarrow> RpcClient \<Rightarrow> int list \<Rightarrow> (world, unit) js" where
  "indexBlockNumbers env rpc blockNumbers =
     (let head = getBlockNumber rpc in
      thenM (forM blockNumbers (\<lambda>n. bindM (processBlock env rpc n head) (\<lambda>_. returnM ())))
      (dbM (updateFinalityForRange env 1 (fold max blockNumbers head) head None)))"

end
