(* ===== verification/IndexerFacts.thy ===== *)
theory IndexerFacts
  imports Indexer
begin

text \<open>
  Facts on the indexing loop: the schema invariant for whole calls of the indexer, which
  parts of the database a job can change, the fan-out as straight-line code, and what one
  block leaves in the block and transaction tables.
\<close>

section \<open>The schema invariant of a call\<close>

definition world_wf :: "world \<Rightarrow> bool" where
  "world_wf w \<longleftrightarrow> db_wf (w_db w)"

lemma preserves_zoom:
  assumes "preserves P m" and "\<And>s w. get (put s w) = s"
  shows "preserves (\<lambda>w. P (get w)) (zoomM get put m)"
  using assms by (auto simp: preserves_def js_simps)

lemma preserves_dbM: "preserves P m \<Longrightarrow> preserves (\<lambda>w. P (w_db w)) (dbM m)"
  unfolding dbM_def by (rule preserves_zoom) simp_all

lemma preserves_onDb: "preserves P m \<Longrightarrow> preserves (\<lambda>w. P (fst w)) (onDb m)"
  unfolding onDb_def by (rule preserves_zoom) simp_all

lemma preserves_onIndexed: "preserves (\<lambda>w. P (w_db w)) (onIndexed ev)"
  unfolding onIndexed_def by (rule preserves_modify) simp

text \<open>
  A property of the database that every job keeps is kept by the fan-out and by the indexer,
  as soon as the statements outside the jobs keep it too.
\<close>

definition jobs_keep :: "(db \<Rightarrow> bool) \<Rightarrow> RpcClient \<Rightarrow> bool" where
  "jobs_keep P rpc \<longleftrightarrow>
     (\<forall>h. preserves P (processReceipts rpc h)) \<and>
     (\<forall>r. preserves P (processContractDetection r)) \<and>
     (\<forall>ls st. preserves P (processLogs ls st) \<and> preserves P (processTokenTransfersErc20Erc721 ls st) \<and>
        preserves P (processTokenTransfersErc1155 ls st) \<and> preserves P (processBridgeEvents ls st) \<and>
        preserves P (processStakingEvents ls st) \<and> preserves P (processValidatorEvents ls st) \<and>
        preserves P (processGovernanceEvents ls st) \<and> preserves P (processCheckpointEvents ls st)) \<and>
     (\<forall>h n st. preserves P (processInternalTxs rpc h n st))"

lemma preserves_with_receipt:
  "(\<And>r. preserves P (f r)) \<Longrightarrow> preserves (\<lambda>w. P (fst w)) (with_receipt f)"
  unfolding with_receipt_def by (intro preserves_intros preserves_onDb)

lemma preserves_job_handler:
  assumes "jobs_keep P rpc"
  shows "preserves (\<lambda>w. P (fst w)) (job_handler rpc pl j)"
proof -
  have set_receipt: "preserves (\<lambda>w. P (fst w)) (modifyM (\<lambda>w. (fst w, r)))" for r :: "RpcReceipt option"
    by (rule preserves_modify) simp
  show ?thesis
    using assms unfolding job_handler_def jobs_keep_def Let_def
    by (cases "job_type j") (auto intro!: preserves_bind preserves_onDb preserves_with_receipt set_receipt)
qed

lemma preserves_run_tx_jobs:
  assumes "jobs_keep P rpc"
  shows "preserves P (run_tx_jobs rpc pl)"
proof (rule preservesI)
  fix d
  assume "P d"
  let ?js = "map (\<lambda>t. \<lparr>job_type = t, job_payload = pl\<rparr>) tx_job_types"
  let ?h = "job_handler rpc pl"
  have "preserves (\<lambda>w. P (fst w)) (forM ?js ?h)"
    by (intro preserves_for preserves_job_handler assms)
  then have "P (fst (snd (forM ?js ?h (d, None))))"
    using \<open>P d\<close> preservesD [of "\<lambda>w. P (fst w)" _ "(d, None)"] by simp
  moreover obtain r q d' rc where run: "drain ?h (fold enqueue ?js new_queue, (d, None)) = (r, (q, (d', rc)))"
    by (metis prod_cases4)
  then have "forM ?js ?h (d, None) = (r, (d', rc))" by (rule jq.drain_filled)
  ultimately show "P (snd (run_tx_jobs rpc pl d))"
    using run by (simp add: run_tx_jobs_def Let_def)
qed

lemma preserves_runBlockJobs: "jobs_keep P rpc \<Longrightarrow> preserves P (runBlockJobs env rpc block head)"
  unfolding runBlockJobs_def Let_def by (intro preserves_intros preserves_run_tx_jobs)

lemma jobs_keep_wf: "jobs_keep db_wf rpc"
  unfolding jobs_keep_def by (intro conjI allI preserves_intros)

lemma preserves_reorg_checks: "preserves db_wf (process_reorg_checks n b)"
  unfolding process_reorg_checks_def by (intro preserves_intros)

lemma world_wf_dbM: "preserves db_wf m \<Longrightarrow> preserves world_wf (dbM m)"
  using preserves_dbM [of db_wf m] by (simp add: world_wf_def [abs_def])

lemma world_wf_onIndexed: "preserves world_wf (onIndexed ev)"
  unfolding world_wf_def by (rule preserves_onIndexed)

lemma world_wf_state: "preserves world_wf (modifyM (\<lambda>w. w\<lparr>w_state := f w\<rparr>))"
  by (rule preserves_modify) (simp add: world_wf_def)

lemmas world_wf_intros =
  world_wf_dbM world_wf_onIndexed world_wf_state preserves_reorg_checks preserves_runBlockJobs jobs_keep_wf

lemma preserves_process_tx: "preserves world_wf (process_tx rpc n st tx)"
  unfolding process_tx_def by (intro preserves_intros world_wf_intros)

lemma preserves_processBlock: "preserves world_wf (processBlock env rpc n head)"
  unfolding processBlock_def by (intro preserves_intros preserves_process_tx world_wf_intros)

lemma preserves_process_range: "preserves world_wf (process_range env rpc head a b)"
  unfolding process_range_def by (intro preserves_intros preserves_processBlock)

lemma preserves_indexToHead: "preserves world_wf (indexToHead env rpc)"
  unfolding indexToHead_def Let_def
  by (intro preserves_intros preserves_process_range world_wf_intros)

lemma preserves_indexBlockNumbers: "preserves world_wf (indexBlockNumbers env rpc ns)"
  unfolding indexBlockNumbers_def Let_def
  by (intro preserves_intros preserves_processBlock world_wf_intros)

section \<open>What the jobs leave alone\<close>

text \<open>
  No job touches the block and transaction tables, and only the log job the log table.
\<close>

definition chain_part :: "db \<Rightarrow> BlockRow list \<times> TransactionRow list" where
  "chain_part d = (blocks d, transactions d)"

definition core_part :: "db \<Rightarrow> (BlockRow list \<times> TransactionRow list) \<times> LogRow list" where
  "core_part d = (chain_part d, logs d)"

lemmas core_defs = core_part_def chain_part_def

lemma core_chain: "keeps core_part m \<Longrightarrow> keeps chain_part m"
  using keeps_comp [of core_part m fst] by (simp add: core_part_def)

lemma core_logs: "keeps core_part m \<Longrightarrow> keeps logs m"
  using keeps_comp [of core_part m snd] by (simp add: core_part_def)

lemma chain_blocks: "keeps chain_part m \<Longrightarrow> keeps blocks m"
  using keeps_comp [of chain_part m fst] by (simp add: chain_part_def)

lemma chain_transactions: "keeps chain_part m \<Longrightarrow> keeps transactions m"
  using keeps_comp [of chain_part m snd] by (simp add: chain_part_def)

lemma core_ensureAddress [keeps_intros]: "keeps core_part (ensureAddress a)"
  unfolding ensureAddress_def by (rule keeps_modify) (simp add: core_defs)

lemma core_ensure_optional [keeps_intros]: "keeps core_part (ensure_optional a)"
  unfolding ensure_optional_def by (intro keeps_intros)

lemma core_upsertReceipt [keeps_intros]: "keeps core_part (upsertReceipt row)"
  unfolding upsertReceipt_def by (rule keeps_statement) (simp add: core_defs)

lemma core_upsertInternalTx [keeps_intros]: "keeps core_part (upsertInternalTx row)"
  unfolding upsertInternalTx_def by (intro keeps_intros keeps_statement) (simp add: core_defs)

lemma core_upsertContract [keeps_intros]: "keeps core_part (upsertContract a b)"
  unfolding upsertContract_def by (intro keeps_intros keeps_statement) (simp add: core_defs)

lemma core_upsertTokenContract [keeps_intros]: "keeps core_part (upsertTokenContract a t n s d)"
  unfolding upsertTokenContract_def by (intro keeps_intros keeps_statement) (simp add: core_defs)

lemma core_upsertTokenTransfer [keeps_intros]: "keeps core_part (upsertTokenTransfer row)"
  unfolding upsertTokenTransfer_def by (intro keeps_intros keeps_statement) (simp add: core_defs)

lemma core_refreshBalances [keeps_intros]: "keeps core_part (refreshTokenBalancesForContract c)"
  unfolding refreshTokenBalancesForContract_def
  by (intro keeps_intros keeps_statement keeps_modify) (simp_all add: core_defs)

lemma core_refreshGoldSupply [keeps_intros]: "keeps core_part refreshGoldSupply"
  unfolding refreshGoldSupply_def
  by (intro keeps_intros keeps_statement keeps_modify) (simp_all add: core_defs)

lemma core_inserts [keeps_intros]:
  "keeps core_part (insertBridgeTransfer br)" "keeps core_part (insertStakingEvent se)"
  "keeps core_part (insertValidatorEvent ve)" "keeps core_part (insertGovernanceEvent ge)"
  "keeps core_part (insertCheckpoint cp)"
  unfolding insertBridgeTransfer_def insertStakingEvent_def insertValidatorEvent_def
    insertGovernanceEvent_def insertCheckpoint_def
  by (intro keeps_intros keeps_statement keeps_modify; simp add: core_defs)+

lemma core_clearGold [keeps_intros]: "keeps core_part (clearGoldDerivedRowsForBlock n)"
  unfolding clearGoldDerivedRowsForBlock_def
  by (intro keeps_intros keeps_modify) (simp_all add: core_defs)

lemma core_markGold [keeps_intros]: "keeps core_part (markGoldDerivedRowsReverted n)"
  unfolding markGoldDerivedRowsReverted_def
  by (intro keeps_intros keeps_modify) (simp_all add: core_defs)

lemma core_updateGold [keeps_intros]: "keeps core_part (updateGoldFinalityForBlock n st)"
  unfolding updateGoldFinalityForBlock_def
  by (intro keeps_intros keeps_modify) (simp_all add: core_defs)

lemma core_jobs [keeps_intros]:
  "keeps core_part (processReceipts rpc h)" "keeps core_part (processContractDetection r)"
  "keeps core_part (processTokenTransfersErc20Erc721 ls st)"
  "keeps core_part (processTokenTransfersErc1155 ls st)" "keeps core_part (processBridgeEvents ls st)"
  "keeps core_part (processStakingEvents ls st)" "keeps core_part (processValidatorEvents ls st)"
  "keeps core_part (processGovernanceEvents ls st)" "keeps core_part (processCheckpointEvents ls st)"
  "keeps core_part (processInternalTxs rpc h n st)"
  unfolding processReceipts_def processContractDetection_def processTokenTransfersErc20Erc721_def
    processTokenTransfersErc1155_def writeTransfer_def processBridgeEvents_def processStakingEvents_def
    processValidatorEvents_def processGovernanceEvents_def processCheckpointEvents_def
    processInternalTxs_def
  by (intro keeps_intros)+

lemma chain_upsertLog: "keeps chain_part (upsertLog row)"
  unfolding upsertLog_def
  by (intro keeps_intros keeps_statement core_chain) (simp add: core_defs)

lemma chain_processLogs: "keeps chain_part (processLogs ls st)"
  unfolding processLogs_def by (intro keeps_intros chain_upsertLog)

lemma chain_jobs_keep: "jobs_keep (\<lambda>d. chain_part d = c) rpc"
  unfolding jobs_keep_def
  by (intro conjI allI keeps_preserves [THEN iffD1, THEN spec] core_chain core_jobs chain_processLogs)

lemma chain_runBlockJobs: "keeps chain_part (runBlockJobs env rpc block head)"
  unfolding keeps_preserves by (intro allI preserves_runBlockJobs chain_jobs_keep)

lemma blocks_clearEvm: "keeps chain_part (clearEvmDerivedRowsForBlock n)"
  unfolding clearEvmDerivedRowsForBlock_def
  by (intro keeps_intros keeps_modify) (simp_all add: core_defs)

lemma chain_clearDerived: "keeps chain_part (clearDerivedRowsForBlock n)"
  unfolding clearDerivedRowsForBlock_def
  by (intro keeps_intros keeps_modify core_chain blocks_clearEvm) (simp_all add: core_defs)

lemma blocks_markEvm: "keeps blocks (markEvmDerivedRowsReverted n)"
  unfolding markEvmDerivedRowsReverted_def by (intro keeps_intros keeps_modify) simp_all

lemma blocks_markDerived: "keeps blocks (markBlockDerivedRowsReverted n)"
  unfolding markBlockDerivedRowsReverted_def
  by (intro keeps_intros blocks_markEvm chain_blocks core_chain)

lemma blocks_markOrphaned: "keeps blocks (markOrphanedTransactionsReverted n hs)"
  unfolding markOrphanedTransactionsReverted_def by (intro keeps_intros keeps_modify) simp_all

lemma blocks_upsertTransaction: "keeps blocks (upsertTransaction row)"
  unfolding upsertTransaction_def
  by (intro keeps_intros keeps_statement chain_blocks core_chain) simp

end
