(* ===== verification/ChainFacts.thy ===== *)
theory ChainFacts
  imports IndexerFacts
begin

text \<open>
  What the indexer leaves in the block table.  \<open>block_at\<close> reads the table as a map from
  heights to rows; every operation is described by its effect on that map.  From the
  effect of one block follow the effect of a range and of a whole call of
  \<^verbatim>\<open>indexToHead\<close>, and the states a sequence of calls reaches.
\<close>

section \<open>The block table as a map\<close>

definition block_at :: "db \<Rightarrow> int \<Rightarrow> BlockRow option" where
  "block_at d n = List.find (\<lambda>b. blk_number b = n) (blocks d)"

definition revert_row :: "BlockRow option \<Rightarrow> BlockRow option" where
  "revert_row = map_option (set_blk_fin Reverted)"

lemma find_filter: "List.find p xs = (case filter p xs of [] \<Rightarrow> None | x # _ \<Rightarrow> Some x)"
  by (induction xs) simp_all

lemma getBlockHash_at:
  "getBlockHashAtNumber n d = (case block_at d n of None \<Rightarrow> None
     | Some row \<Rightarrow> if blk_finalityStatus row = Reverted then None else Some (blk_hash row))"
  by (simp add: getBlockHashAtNumber_def block_at_def find_filter split: list.split)

lemma find_update_where:
  assumes "\<And>r. k (f r) = k r"
  shows "List.find (\<lambda>r. k r = n) (update_where p f rs) =
         map_option (\<lambda>r. if p r then f r else r) (List.find (\<lambda>r. k r = n) rs)"
  by (induction rs) (auto simp: update_where_def assms)

lemma find_some_key: "List.find (\<lambda>r. k r = n) rs = Some r \<Longrightarrow> k r = n"
  by (auto simp: find_Some_iff)

lemma find_upsert_key:
  assumes "k row = n"
  shows "List.find (\<lambda>r. k r = m) (upsert (\<lambda>r. k r = n) (\<lambda>_. row) row rs) =
         (if m = n then Some row else List.find (\<lambda>r. k r = m) rs)"
proof -
  have "List.find (\<lambda>r. k r = m) (update_where (\<lambda>r. k r = n) (\<lambda>_. row) rs) =
        (if m = n then (if \<exists>x \<in> set rs. k x = n then Some row else None)
         else List.find (\<lambda>r. k r = m) rs)"
    using assms by (induction rs) (auto simp: update_where_def)
  moreover have "List.find (\<lambda>r. k r = m) (rs @ [row]) =
      (case List.find (\<lambda>r. k r = m) rs of None \<Rightarrow> if m = n then Some row else None | Some x \<Rightarrow> Some x)"
    using assms by (induction rs) auto
  moreover have "\<forall>x \<in> set rs. k x \<noteq> n \<Longrightarrow> List.find (\<lambda>r. k r = n) rs = None"
    by (simp add: find_None_iff)
  ultimately show ?thesis by (auto simp: upsert_def split: option.split)
qed

lemma block_at_number: "block_at d n = Some row \<Longrightarrow> blk_number row = n"
  unfolding block_at_def by (rule find_some_key)

lemma block_at_cong: "blocks d = blocks d' \<Longrightarrow> block_at d = block_at d'"
  by (simp add: block_at_def fun_eq_iff)

lemma block_at_keeps: "keeps blocks m \<Longrightarrow> m d = (r, d') \<Longrightarrow> block_at d' = block_at d"
  by (intro block_at_cong) (rule keepsD)

lemma block_at_mark:
  assumes "blocks d' = mark_at (\<lambda>b. P (blk_number b)) set_blk_fin (blocks d)"
  shows "block_at d' m = (if P m then revert_row (block_at d m) else block_at d m)"
proof -
  have "block_at d' m = map_option (\<lambda>r. if P (blk_number r) then set_blk_fin Reverted r else r) (block_at d m)"
    using assms by (simp add: block_at_def mark_at_def find_update_where)
  then show ?thesis
    by (cases "block_at d m") (auto simp: revert_row_def dest: block_at_number)
qed

lemma block_at_refresh:
  assumes "blocks d' = refresh_at (\<lambda>b. blk_number b = n) blk_finalityStatus set_blk_fin st (blocks d)"
  shows "block_at d' m = (case block_at d m of None \<Rightarrow> None
      | Some row \<Rightarrow> Some (if m = n \<and> blk_finalityStatus row \<noteq> Reverted then set_blk_fin st row else row))"
proof -
  have "block_at d' m = map_option (\<lambda>r. if blk_number r = n \<and> blk_finalityStatus r \<noteq> Reverted
      then set_blk_fin st r else r) (block_at d m)"
    using assms by (simp add: block_at_def refresh_at_def find_update_where)
  then show ?thesis
    by (cases "block_at d m") (auto dest: block_at_number)
qed

section \<open>The writer on the block table\<close>

lemma blocks_clearDerived: "keeps blocks (clearDerivedRowsForBlock n)"
  by (rule chain_blocks [OF chain_clearDerived])

lemma block_at_upsertBlock:
  assumes "upsertBlock row d = (Inr (), d')"
  shows "block_at d' = (block_at d)(blk_number row := Some row)"
  using assms by (auto simp: upsertBlock_def block_at_def find_upsert_key fun_eq_iff elim!: statement_InrE)

lemma block_at_markByNumber:
  assumes "markBlockRevertedByNumber n d = (r, d')"
  shows "block_at d' m = (if m = n then revert_row (block_at d m) else block_at d m)"
proof -
  let ?d = "d\<lparr>blocks := mark_at (\<lambda>b. blk_number b = n) set_blk_fin (blocks d)\<rparr>"
  have "markBlockDerivedRowsReverted n ?d = (r, d')"
    using assms by (simp add: markBlockRevertedByNumber_def js_simps)
  then have "block_at d' = block_at ?d" by (rule block_at_keeps [OF blocks_markDerived])
  then show ?thesis by (simp add: block_at_mark [of ?d "\<lambda>m. m = n"])
qed

lemma block_at_markFromNumber:
  assumes "markBlockRevertedFromNumber n d = (r, d')"
  shows "block_at d' m = (if n \<le> m then revert_row (block_at d m) else block_at d m)"
proof -
  let ?d = "d\<lparr>blocks := mark_at (\<lambda>b. n \<le> blk_number b) set_blk_fin (blocks d)\<rparr>"
  have "forM (filter (\<lambda>b. n \<le> blk_number b) (blocks ?d))
          (\<lambda>row. markBlockDerivedRowsReverted (row_number row)) ?d = (r, d')"
    using assms by (simp add: markBlockRevertedFromNumber_def js_simps)
  then have "block_at d' = block_at ?d"
    by (rule block_at_keeps [rotated]) (intro keeps_intros blocks_markDerived)
  then show ?thesis by (simp add: block_at_mark [of ?d "\<lambda>m. n \<le> m"])
qed

lemma blocks_updateGold: "keeps blocks (updateGoldFinalityForBlock n st)"
  by (intro chain_blocks core_chain core_updateGold)

lemma block_at_updateEvm:
  assumes "updateEvmFinalityForBlock n st d = (r, d')"
  shows "block_at d' m = (case block_at d m of None \<Rightarrow> None
      | Some row \<Rightarrow> Some (if m = n \<and> blk_finalityStatus row \<noteq> Reverted then set_blk_fin st row else row))"
proof (rule block_at_refresh)
  show "blocks d' = refresh_at (\<lambda>b. blk_number b = n) blk_finalityStatus set_blk_fin st (blocks d)"
    using assms by (auto simp: updateEvmFinalityForBlock_def js_simps)
qed

section \<open>One block\<close>

definition parent_stale :: "RpcBlock \<Rightarrow> int \<Rightarrow> db \<Rightarrow> bool" where
  "parent_stale b n d \<longleftrightarrow> 1 < n \<and> stale_hash (getBlockHashAtNumber (n - 1) d) (rb_parentHash b)"

lemma block_at_reorg_checks:
  assumes "process_reorg_checks n b d = (Inr (), d')" and "m \<noteq> n"
  shows "block_at d' m = (if parent_stale b n d \<and> n < m then revert_row (block_at d m) else block_at d m)"
proof -
  obtain d1 where
    p: "whenM (1 < n) (bindM (getsM (getBlockHashAtNumber (n - 1))) (\<lambda>h.
          whenM (stale_hash h (rb_parentHash b))
            (thenM (markBlockRevertedFromNumber n) (clearDerivedRowsForBlock n)))) d = (Inr (), d1)"
    and h: "bindM (getsM (getBlockHashAtNumber n)) (\<lambda>h. whenM (stale_hash h (rb_hash b))
          (thenM (markBlockRevertedByNumber n) (clearDerivedRowsForBlock n))) d1 = (Inr (), d')"
    using assms(1) unfolding process_reorg_checks_def by (auto elim: thenM_InrE)
  have "block_at d1 m = (if parent_stale b n d \<and> n < m then revert_row (block_at d m) else block_at d m)"
    using p assms(2)
    by (auto simp: parent_stale_def run_simps run_steps block_at_markFromNumber
        dest!: block_at_keeps [OF blocks_clearDerived] split: if_splits elim!: thenM_InrE)
  moreover have "block_at d' m = block_at d1 m"
    using h assms(2)
    by (auto simp: run_simps run_steps block_at_markByNumber
        dest!: block_at_keeps [OF blocks_clearDerived] split: if_splits elim!: thenM_InrE)
  ultimately show ?thesis by simp
qed

lemma dbM_InrE [js_elims]:
  assumes "dbM m w = (Inr x, w')"
  obtains d where "m (w_db w) = (Inr x, d)" and "w' = w\<lparr>w_db := d\<rparr>"
  using assms by (cases "m (w_db w)") (auto simp: dbM_def js_simps)

lemma onIndexed_InrE [js_elims]:
  assumes "onIndexed ev w = (Inr x, w')"
  obtains "w' = w\<lparr>w_feed := w_feed w @ [ev]\<rparr>"
  using assms by (auto simp: onIndexed_def js_simps)

lemma keeps_dbM: "keeps f m \<Longrightarrow> keeps (\<lambda>w. f (w_db w)) (dbM m)"
  by (simp add: keeps_def dbM_def js_simps)

lemma state_dbM [keeps_intros]: "keeps w_state (dbM m)"
  by (simp add: keeps_def dbM_def js_simps)

lemma state_onIndexed [keeps_intros]: "keeps w_state (onIndexed ev)"
  by (simp add: keeps_def onIndexed_def js_simps)

lemma db_onIndexed: "keeps (\<lambda>w. f (w_db w)) (onIndexed ev)"
  by (simp add: keeps_def onIndexed_def js_simps)

lemma blocks_process_tx: "keeps (\<lambda>w. blocks (w_db w)) (process_tx rpc n st tx)"
  unfolding process_tx_def by (intro keeps_intros keeps_dbM blocks_upsertTransaction db_onIndexed)

lemma state_process_tx: "keeps w_state (process_tx rpc n st tx)"
  unfolding process_tx_def by (intro keeps_intros)

text \<open>Everything \<^verbatim>\<open>processBlock\<close> does after the block row was written, up to the tracker.\<close>

definition block_body :: "string option \<Rightarrow> RpcClient \<Rightarrow> int \<Rightarrow> int \<Rightarrow> RpcBlock \<Rightarrow> FinalityStatus \<Rightarrow> (world, unit) js" where
  "block_body env rpc n head b st =
     thenM (dbM (clearDerivedRowsForBlock n))
     (thenM (forM (rb_transactions b) (process_tx rpc n st))
     (thenM (dbM (markOrphanedTransactionsReverted n (map rt_hash (rb_transactions b))))
            (dbM (runBlockJobs env rpc b head))))"

lemma blocks_body: "keeps (\<lambda>w. blocks (w_db w)) (block_body env rpc n head b st)"
  unfolding block_body_def
  by (intro keeps_then keeps_for blocks_process_tx keeps_dbM blocks_clearDerived blocks_markOrphaned
      chain_blocks [OF chain_runBlockJobs])

lemma state_body: "keeps w_state (block_body env rpc n head b st)"
  unfolding block_body_def by (intro keeps_intros state_process_tx)

lemma processBlock_InrE:
  assumes "processBlock env rpc n head w = (Inr x, w')" and "getBlockByNumber rpc n = Some b"
  obtains st row d1 d2 w2 where
    "process_reorg_checks n b (w_db w) = (Inr (), d1)"
    "finalityStatusForBlock env (JNum n) (JNum head) False = Inr st"
    "block_row n b st = Inr row"
    "upsertBlock row d1 = (Inr (), d2)"
    "block_body env rpc n head b st
       (w\<lparr>w_db := d2, w_feed := w_feed w @ [BlockEvent (number_str (JNum n)) (rb_hash b) (rb_timestamp b) st]\<rparr>)
     = (Inr (), w2)"
    "w' = w2\<lparr>w_state := (w_state w2)\<lparr>tracker := markIndexed n (tracker (w_state w2)),
        lastIndexedHead := max (lastIndexedHead (w_state w2)) n\<rparr>\<rparr>"
    "x = True"
  using assms(1) unfolding processBlock_def assms(2) option.case
  by (elim thenM_InrE bindM_InrE liftS_InrE dbM_InrE onIndexed_InrE)
     (auto simp: run_simps block_body_def run_then dbM_def zoomM_def)

lemma block_row_fields:
  assumes "block_row n b st = Inr row"
  shows "blk_number row = n \<and> blk_hash row = rb_hash b \<and> blk_parentHash row = rb_parentHash b \<and>
         blk_validatorAddress row = rb_miner b \<and> blk_finalityStatus row = st"
  using assms by (auto simp: block_row_def bindS_eq_Inr)

lemma processBlock_effect:
  assumes "processBlock env rpc n head w = (Inr x, w')" and "getBlockByNumber rpc n = Some b"
    and "getConfirmationDepth env = Inr depth"
  obtains row where
    "block_row n b (if head - n < depth then Pending else Finalized) = Inr row"
    "\<And>m. block_at (w_db w') m =
       (if m = n then Some row
        else if parent_stale b n (w_db w) \<and> n < m then revert_row (block_at (w_db w) m)
        else block_at (w_db w) m)"
    "w_state w' = (w_state w)\<lparr>tracker := markIndexed n (tracker (w_state w)),
        lastIndexedHead := max (lastIndexedHead (w_state w)) n\<rparr>"
  using assms(1,2)
proof (rule processBlock_InrE)
  fix st row d1 d2 w2
  let ?w = "w\<lparr>w_db := d2, w_feed := w_feed w @ [BlockEvent (number_str (JNum n)) (rb_hash b) (rb_timestamp b) st]\<rparr>"
  assume checks: "process_reorg_checks n b (w_db w) = (Inr (), d1)"
    and fin: "finalityStatusForBlock env (JNum n) (JNum head) False = Inr st"
    and row: "block_row n b st = Inr row" and up: "upsertBlock row d1 = (Inr (), d2)"
    and body: "block_body env rpc n head b st ?w = (Inr (), w2)"
    and w': "w' = w2\<lparr>w_state := (w_state w2)\<lparr>tracker := markIndexed n (tracker (w_state w2)),
        lastIndexedHead := max (lastIndexedHead (w_state w2)) n\<rparr>\<rparr>"
  have "st = (if head - n < depth then Pending else Finalized)"
    using fin finality_of_depth [OF assms(3)] by simp
  moreover have "block_at (w_db w') = block_at d2"
    using keepsD [OF blocks_body body] w' by (intro block_at_cong) simp
  then have "block_at (w_db w') = (block_at d1)(n := Some row)"
    using block_at_upsertBlock [OF up] block_row_fields [OF row] by simp
  moreover have "w_state w2 = w_state w" using keepsD [OF state_body body] by simp
  ultimately show thesis
    using that [of row] row w' block_at_reorg_checks [OF checks] by simp
qed

section \<open>A range of blocks\<close>

definition node_hash :: "RpcClient \<Rightarrow> int \<Rightarrow> string" where
  "node_hash rpc n = (case getBlockByNumber rpc n of None \<Rightarrow> '''' | Some b \<Rightarrow> rb_hash b)"

text \<open>
  The node answers with a chain: every height up to its head has a block, with a hash, and
  the parent hash of a block is the hash of the block below.
\<close>

definition chain_ok :: "RpcClient \<Rightarrow> bool" where
  "chain_ok rpc = list_all (\<lambda>n. case getBlockByNumber rpc n of
       None \<Rightarrow> False
     | Some b \<Rightarrow> rb_hash b \<noteq> '''' \<and> (1 < n \<longrightarrow> rb_parentHash b = node_hash rpc (n - 1)))
     (range_list 1 (getBlockNumber rpc))"

text \<open>The stored block of a height is the node's.\<close>

definition fresh :: "RpcClient \<Rightarrow> db \<Rightarrow> int \<Rightarrow> bool" where
  "fresh rpc d n \<longleftrightarrow> getBlockHashAtNumber n d = Some (node_hash rpc n)"

lemma chain_okE:
  assumes "chain_ok rpc" and "1 \<le> n" and "n \<le> getBlockNumber rpc"
  obtains b where "getBlockByNumber rpc n = Some b" and "rb_hash b = node_hash rpc n"
    and "node_hash rpc n \<noteq> ''''" and "1 < n \<Longrightarrow> rb_parentHash b = node_hash rpc (n - 1)"
proof -
  have "case getBlockByNumber rpc n of None \<Rightarrow> False
     | Some b \<Rightarrow> rb_hash b \<noteq> [] \<and> (1 < n \<longrightarrow> rb_parentHash b = node_hash rpc (n - 1))"
    using assms unfolding chain_ok_def list_all_iff by simp
  then show thesis
    using that by (cases "getBlockByNumber rpc n") (simp_all add: node_hash_def [of rpc n])
qed

lemma fresh_not_stale: "fresh rpc d n \<Longrightarrow> \<not> stale_hash (getBlockHashAtNumber n d) (node_hash rpc n)"
  by (simp add: fresh_def stale_hash_def)

lemma fresh_or_stale:
  "truthy (getBlockHashAtNumber n d) \<Longrightarrow> \<not> stale_hash (getBlockHashAtNumber n d) (node_hash rpc n) \<Longrightarrow> fresh rpc d n"
  by (simp add: fresh_def stale_hash_def)

lemma fresh_cong: "block_at d n = block_at d' n \<Longrightarrow> fresh rpc d n = fresh rpc d' n"
  by (simp add: fresh_def getBlockHash_at)

lemma parent_stale_iff:
  assumes "chain_ok rpc" and "n \<le> getBlockNumber rpc" and "getBlockByNumber rpc n = Some b"
  shows "parent_stale b n d \<longleftrightarrow> 1 < n \<and> stale_hash (getBlockHashAtNumber (n - 1) d) (node_hash rpc (n - 1))"
proof -
  have "1 < n \<Longrightarrow> rb_parentHash b = node_hash rpc (n - 1)"
    using chain_okE [OF assms(1) _ assms(2)] assms(3) by (metis less_le option.inject)
  then show ?thesis by (auto simp: parent_stale_def)
qed

lemma fresh_after_row:
  assumes "block_at d n = Some row" and "block_row n b st = Inr row" and "st \<noteq> Reverted"
    and "rb_hash b = node_hash rpc n"
  shows "fresh rpc d n"
  using assms block_row_fields [OF assms(2)] by (simp add: fresh_def getBlockHash_at)

lemma process_range_Cons_last:
  assumes "process_range env rpc head a b w = (Inr (), w')" and "a \<le> b"
  obtains w1 x where "process_range env rpc head a (b - 1) w = (Inr (), w1)"
    and "processBlock env rpc b head w1 = (Inr x, w')"
  using assms unfolding process_range_def range_list_snoc [OF assms(2)] forM_append
  by (auto simp: run_simps elim!: thenM_InrE bindM_InrE)

text \<open>What a range of blocks does to the block table and to the state of the indexer.\<close>

definition range_effect :: "RpcClient \<Rightarrow> int \<Rightarrow> int \<Rightarrow> world \<Rightarrow> world \<Rightarrow> bool" where
  "range_effect rpc a b w w' \<longleftrightarrow>
     (\<forall>m. m < a \<longrightarrow> block_at (w_db w') m = block_at (w_db w) m) \<and>
     (\<forall>m. a \<le> m \<and> m \<le> b \<longrightarrow> fresh rpc (w_db w') m) \<and>
     (a = 1 \<or> \<not> stale_hash (getBlockHashAtNumber (a - 1) (w_db w)) (node_hash rpc (a - 1)) \<longrightarrow>
       (\<forall>m. b < m \<longrightarrow> block_at (w_db w') m = block_at (w_db w) m)) \<and>
     set (indexed (tracker (w_state w'))) = {a..b} \<union> set (indexed (tracker (w_state w))) \<and>
     lastIndexedHead (w_state w') = (if a \<le> b then max (lastIndexedHead (w_state w)) b else lastIndexedHead (w_state w))"

lemma range_effect_refl: "b < a \<Longrightarrow> b = a - 1 \<Longrightarrow> range_effect rpc a b w w"
  by (auto simp: range_effect_def)

lemma range_effect_snoc:
  assumes eff: "range_effect rpc a (b - 1) w w1" and "a \<le> b" and "1 \<le> a" and "b \<le> getBlockNumber rpc"
    and ok: "chain_ok rpc" and depth: "getConfirmationDepth env = Inr depth"
    and run: "processBlock env rpc b head w1 = (Inr x, w')"
  shows "range_effect rpc a b w w'"
proof -
  obtain blk where blk: "getBlockByNumber rpc b = Some blk" and hash: "rb_hash blk = node_hash rpc b"
    using chain_okE [OF ok _ \<open>b \<le> getBlockNumber rpc\<close>] \<open>a \<le> b\<close> \<open>1 \<le> a\<close> by (metis order_trans)
  obtain row where row: "block_row b blk (if head - b < depth then Pending else Finalized) = Inr row"
    and at: "\<And>m. block_at (w_db w') m =
       (if m = b then Some row
        else if parent_stale blk b (w_db w1) \<and> b < m then revert_row (block_at (w_db w1) m)
        else block_at (w_db w1) m)"
    and st: "w_state w' = (w_state w1)\<lparr>tracker := markIndexed b (tracker (w_state w1)),
        lastIndexedHead := max (lastIndexedHead (w_state w1)) b\<rparr>"
    using processBlock_effect [OF run blk depth] by blast
  have fresh_b: "fresh rpc (w_db w') b"
    using fresh_after_row [OF _ row _ hash, of "w_db w'"] at [of b] by simp
  have low: "m < b \<Longrightarrow> block_at (w_db w') m = block_at (w_db w1) m" for m by (simp add: at)
  have par: "\<not> parent_stale blk b (w_db w1)"
    if "a = 1 \<or> \<not> stale_hash (getBlockHashAtNumber (a - 1) (w_db w)) (node_hash rpc (a - 1))"
  proof (cases "a = b")
    case True
    then have "block_at (w_db w1) (a - 1) = block_at (w_db w) (a - 1)"
      using eff by (simp add: range_effect_def)
    with True that show ?thesis
      by (auto simp: parent_stale_iff [OF ok \<open>b \<le> getBlockNumber rpc\<close> blk] getBlockHash_at)
  next
    case False
    then have "fresh rpc (w_db w1) (b - 1)" using eff \<open>a \<le> b\<close> by (simp add: range_effect_def)
    then show ?thesis
      using fresh_not_stale by (simp add: parent_stale_iff [OF ok \<open>b \<le> getBlockNumber rpc\<close> blk])
  qed
  have "{a..b} = insert b {a..b - 1}" using \<open>a \<le> b\<close> by auto
  moreover have "fresh rpc (w_db w') m" if "a \<le> m" "m \<le> b" for m
    using fresh_b fresh_cong [OF low, of m rpc] eff that by (cases "m = b") (auto simp: range_effect_def)
  moreover have "block_at (w_db w') m = block_at (w_db w) m"
    if "b < m" "a = 1 \<or> \<not> stale_hash (getBlockHashAtNumber (a - 1) (w_db w)) (node_hash rpc (a - 1))" for m
    using par [OF that(2)] at [of m] that eff by (auto simp: range_effect_def)
  ultimately show ?thesis
    using eff low \<open>a \<le> b\<close> by (auto simp: range_effect_def st)
qed

lemma process_range_effect:
  assumes "process_range env rpc head a b w = (Inr (), w')" and "1 \<le> a" and "a \<le> b + 1"
    and "b \<le> getBlockNumber rpc" and "chain_ok rpc" and "getConfirmationDepth env = Inr depth"
  shows "range_effect rpc a b w w'"
  using assms
proof (induction "nat (b + 1 - a)" arbitrary: b w')
  case 0
  then have "b = a - 1" and "w' = w"
    by (auto simp: process_range_def range_list_def run_simps)
  then show ?case by (simp add: range_effect_refl)
next
  case (Suc k)
  then have ab: "a \<le> b" by linarith
  then obtain w1 x where r1: "process_range env rpc head a (b - 1) w = (Inr (), w1)"
    and r2: "processBlock env rpc b head w1 = (Inr x, w')"
    using process_range_Cons_last [OF Suc.prems(1)] by blast
  have k: "k = nat (b - 1 + 1 - a)" using Suc.hyps(2) by linarith
  have "range_effect rpc a (b - 1) w w1"
    using Suc.hyps(1) [OF k r1 Suc.prems(2) _ _ Suc.prems(5,6)] ab Suc.prems(4) by simp
  then show ?case by (rule range_effect_snoc [OF _ ab Suc.prems(2,4,5,6) r2])
qed

section \<open>A call of indexToHead\<close>

lemma process_missing:
  "forM (getMissingRanges t head) (\<lambda>r. process_range env rpc head (rng_from r) (rng_to r)) =
   forM (filter (\<lambda>n. n \<notin> set (indexed t)) (range_list 1 head))
     (\<lambda>n. bindM (processBlock env rpc n head) (\<lambda>_. returnM ()))"
  unfolding process_range_def forM_concat [symmetric] missing_numbers [symmetric]
  by (simp add: range_numbers_def)

text \<open>
  What the state promises between calls: exactly the heights up to \<open>lastIndexedHead\<close> are
  indexed, and each has a block that is not reverted.
\<close>

definition synced :: "world \<Rightarrow> bool" where
  "synced w \<longleftrightarrow> 0 \<le> lastIndexedHead (w_state w) \<and>
     set (indexed (tracker (w_state w))) = {1..lastIndexedHead (w_state w)} \<and>
     (\<forall>n \<in> {1..lastIndexedHead (w_state w)}. truthy (getBlockHashAtNumber n (w_db w)))"

lemma missing_when_synced:
  assumes "synced w"
  shows "filter (\<lambda>n. n \<notin> set (indexed (tracker (w_state w)))) (range_list 1 head) =
         range_list (lastIndexedHead (w_state w) + 1) head"
proof (rule strict_sorted_equal [symmetric])
  show eqs: "set (range_list (lastIndexedHead (w_state w) + 1) head) =
        set (filter (\<lambda>n. n \<notin> set (indexed (tracker (w_state w)))) (range_list 1 head))"
    using assms by (auto simp: synced_def)
qed (simp_all add: sorted_wrt_filter range_list_def)

lemma find_reorg_cases:
  assumes "chain_ok rpc"
  shows "case find_reorg rpc (getBlockNumber rpc) d of
      None \<Rightarrow> \<forall>n \<in> {1..getBlockNumber rpc}. \<not> stale_hash (getBlockHashAtNumber n d) (node_hash rpc n)
    | Some r \<Rightarrow> 1 \<le> r \<and> r \<le> getBlockNumber rpc \<and>
        (\<forall>n \<in> {1..<r}. \<not> stale_hash (getBlockHashAtNumber n d) (node_hash rpc n))"
proof -
  let ?h = "getBlockNumber rpc"
  have mis: "mismatch_at rpc d n \<longleftrightarrow> stale_hash (getBlockHashAtNumber n d) (node_hash rpc n)"
    if "1 \<le> n" "n \<le> ?h" for n
    by (rule chain_okE [OF assms that]) (simp add: mismatch_at_def)
  show ?thesis
  proof (cases "find_reorg rpc ?h d")
    case None
    then have "\<forall>n \<in> {1..?h}. \<not> mismatch_at rpc d n" by (auto simp: find_reorg_def find_None_iff)
    with None mis show ?thesis by simp
  next
    case (Some r)
    then obtain i where i: "i < length (range_list 1 ?h)" "range_list 1 ?h ! i = r"
      "\<forall>j < i. \<not> mismatch_at rpc d (range_list 1 ?h ! j)"
      by (auto simp: find_reorg_def find_Some_iff)
    have nth: "j < nat ?h \<Longrightarrow> range_list 1 ?h ! j = 1 + int j" for j
      by (simp add: range_list_def)
    have len: "length (range_list 1 ?h) = nat ?h" by (simp add: range_list_def)
    have r: "r = 1 + int i" using i(1,2) nth len by simp
    have "\<not> mismatch_at rpc d n" if "1 \<le> n" "n < r" for n
    proof -
      have "nat (n - 1) < i" and "nat (n - 1) < nat ?h" using r i(1) len that by linarith+
      with i(3) nth that show ?thesis by force
    qed
    then show ?thesis using Some r i(1) len mis by auto
  qed
qed

subsection \<open>The finality pass\<close>

lemma updateFinality_blocks:
  assumes run: "forM (range_list a b) (\<lambda>n.
       bindM (liftS (finalityStatusForBlockNumber env n head None)) (\<lambda>status.
       thenM (updateEvmFinalityForBlock n status) (updateGoldFinalityForBlock n status))) d = (Inr (), d')"
    and depth: "getConfirmationDepth env = Inr depth" and "a \<le> b + 1"
  shows "block_at d' m = (case block_at d m of None \<Rightarrow> None
      | Some row \<Rightarrow> Some (if a \<le> m \<and> m \<le> b \<and> blk_finalityStatus row \<noteq> Reverted
          then set_blk_fin (if head - m < depth then Pending else Finalized) row else row))"
  using run \<open>a \<le> b + 1\<close>
proof (induction "nat (b + 1 - a)" arbitrary: b d')
  case 0
  then show ?case by (auto simp: range_list_def run_simps split: option.split)
next
  case (Suc k)
  let ?st = "\<lambda>n. if head - n < depth then Pending else Finalized"
  let ?f = "\<lambda>n. bindM (liftS (finalityStatusForBlockNumber env n head None)) (\<lambda>status.
       thenM (updateEvmFinalityForBlock n status) (updateGoldFinalityForBlock n status))"
  have ab: "a \<le> b" and k: "k = nat (b - 1 + 1 - a)" using Suc.hyps(2) by linarith+
  obtain d1 where r1: "forM (range_list a (b - 1)) ?f d = (Inr (), d1)" and r2: "?f b d1 = (Inr (), d')"
    using Suc.prems(1) unfolding range_list_snoc [OF ab] forM_append by (auto simp: thenM_returnM elim: thenM_InrE)
  have "finalityStatusForBlockNumber env b head None = Inr (?st b)"
    using finality_of_depth [OF depth] by (simp add: finalityStatusForBlockNumber_def)
  with r2 obtain d2 where e: "updateEvmFinalityForBlock b (?st b) d1 = (Inr (), d2)"
    and g: "updateGoldFinalityForBlock b (?st b) d2 = (Inr (), d')"
    by (auto elim!: bindM_InrE liftS_InrE thenM_InrE)
  have "block_at d' = block_at d2" by (rule block_at_keeps [OF blocks_updateGold g])
  then show ?case
    using Suc.hyps(1) [OF k r1] ab block_at_updateEvm [OF e, of m]
    by (auto split: option.splits if_splits)
qed

lemma updateFinality_effect:
  assumes "updateFinalityForRange env 1 b head None d = (Inr (), d')"
    and "getConfirmationDepth env = Inr depth" and "0 \<le> b"
  shows "block_at d' m = (case block_at d m of None \<Rightarrow> None
      | Some row \<Rightarrow> Some (if 1 \<le> m \<and> m \<le> b \<and> blk_finalityStatus row \<noteq> Reverted
          then set_blk_fin (if head - m < depth then Pending else Finalized) row else row))"
proof -
  obtain d1 where r: "forM (range_list 1 b) (\<lambda>n.
       bindM (liftS (finalityStatusForBlockNumber env n head None)) (\<lambda>status.
       thenM (updateEvmFinalityForBlock n status) (updateGoldFinalityForBlock n status))) d = (Inr (), d1)"
    and s: "refreshGoldSupply d1 = (Inr (), d')"
    using assms(1) unfolding updateFinalityForRange_def by (auto elim: thenM_InrE)
  have "block_at d' = block_at d1"
    by (rule block_at_keeps [OF chain_blocks [OF core_chain [OF core_refreshGoldSupply]] s])
  then show ?thesis using updateFinality_blocks [OF r assms(2), of m] assms(3) by simp
qed

subsection \<open>The whole call\<close>

lemma index_phase:
  assumes sync: "synced w" and ok: "chain_ok rpc" and depth: "getConfirmationDepth env = Inr depth"
    and run: "process_range env rpc (getBlockNumber rpc) (lastIndexedHead (w_state w) + 1) (getBlockNumber rpc) w
        = (Inr (), w1)"
  shows "set (indexed (tracker (w_state w1))) = {1..max (lastIndexedHead (w_state w)) (getBlockNumber rpc)}"
    and "lastIndexedHead (w_state w1) = max (lastIndexedHead (w_state w)) (getBlockNumber rpc)"
    and "n \<le> lastIndexedHead (w_state w) \<Longrightarrow> block_at (w_db w1) n = block_at (w_db w) n"
    and "lastIndexedHead (w_state w) < n \<Longrightarrow> n \<le> getBlockNumber rpc \<Longrightarrow> fresh rpc (w_db w1) n"
proof -
  let ?L = "lastIndexedHead (w_state w)" and ?h = "getBlockNumber rpc"
  have L: "0 \<le> ?L" and ix: "set (indexed (tracker (w_state w))) = {1..?L}"
    using sync by (auto simp: synced_def)
  consider "?h \<le> ?L" "w1 = w" | "?L + 1 \<le> ?h + 1" "?L < ?h" "range_effect rpc (?L + 1) ?h w w1"
    using run L process_range_effect [OF run _ _ _ ok depth]
    by (cases "?h \<le> ?L") (auto simp: process_range_def range_list_def run_simps)
  note cs = this
  show "set (indexed (tracker (w_state w1))) = {1..max ?L ?h}"
    using cs by cases (use L ix in \<open>auto simp: range_effect_def\<close>)
  show "lastIndexedHead (w_state w1) = max ?L ?h"
    using cs by cases (auto simp: range_effect_def)
  show "block_at (w_db w1) n = block_at (w_db w) n" if "n \<le> ?L"
    using cs by cases (use that in \<open>auto simp: range_effect_def\<close>)
  show "fresh rpc (w_db w1) n" if "?L < n" "n \<le> ?h"
    using cs by cases (use that in \<open>auto simp: range_effect_def\<close>)
qed

lemma reorg_phase:
  assumes ok: "chain_ok rpc" and depth: "getConfirmationDepth env = Inr depth"
    and stored: "\<forall>n \<in> {1..getBlockNumber rpc}. truthy (getBlockHashAtNumber n (w_db w))"
    and head: "getBlockNumber rpc \<le> lastIndexedHead (w_state w)"
    and run: "(case find_reorg rpc (getBlockNumber rpc) (w_db w) of
               Some r \<Rightarrow> process_range env rpc (getBlockNumber rpc) r (getBlockNumber rpc)
             | None \<Rightarrow> bindM (getsM (\<lambda>w. lastIndexedHead (w_state w)))
                         (\<lambda>l. process_range env rpc (getBlockNumber rpc) (l + 1) (getBlockNumber rpc))) w
          = (Inr (), w')"
  shows "1 \<le> n \<Longrightarrow> n \<le> getBlockNumber rpc \<Longrightarrow> fresh rpc (w_db w') n"
    and "getBlockNumber rpc < n \<Longrightarrow> block_at (w_db w') n = block_at (w_db w) n"
    and "lastIndexedHead (w_state w') = lastIndexedHead (w_state w)"
    and "{1..lastIndexedHead (w_state w)} \<subseteq> set (indexed (tracker (w_state w))) \<Longrightarrow>
         set (indexed (tracker (w_state w'))) = set (indexed (tracker (w_state w)))"
proof -
  let ?h = "getBlockNumber rpc"
  note found = find_reorg_cases [OF ok, of "w_db w"]
  consider "w' = w" "\<forall>n \<in> {1..?h}. fresh rpc (w_db w) n"
    | r where "1 \<le> r" "r \<le> ?h" "\<forall>n \<in> {1..<r}. fresh rpc (w_db w) n" "range_effect rpc r ?h w w'"
  proof (cases "find_reorg rpc ?h (w_db w)")
    case None
    then have "w' = w" using run head
      by (simp add: run_steps process_range_def range_list_def run_simps)
    moreover have "\<forall>n \<in> {1..?h}. fresh rpc (w_db w) n"
      using found None stored fresh_or_stale by auto
    ultimately show ?thesis by (rule that(1))
  next
    case (Some r)
    then have r: "1 \<le> r" "r \<le> ?h" "process_range env rpc ?h r ?h w = (Inr (), w')"
      using found run by auto
    moreover have "\<forall>n \<in> {1..<r}. fresh rpc (w_db w) n"
      using found Some stored fresh_or_stale r(2) by auto
    ultimately show ?thesis
      using process_range_effect [OF r(3) r(1) _ _ ok depth] by (intro that(2)) auto
  qed
  note cs = this
  show "fresh rpc (w_db w') n" if "1 \<le> n" "n \<le> ?h"
    using cs
  proof cases
    case (2 r)
    then show ?thesis
      using that fresh_cong [of "w_db w'" n "w_db w" rpc] by (cases "n < r") (auto simp: range_effect_def)
  qed (use that in auto)
  show "block_at (w_db w') n = block_at (w_db w) n" if "?h < n"
    using cs
  proof cases
    case (2 r)
    then have "r = 1 \<or> \<not> stale_hash (getBlockHashAtNumber (r - 1) (w_db w)) (node_hash rpc (r - 1))"
      using fresh_not_stale by force
    with 2 that show ?thesis by (auto simp: range_effect_def)
  qed simp
  show "lastIndexedHead (w_state w') = lastIndexedHead (w_state w)"
    using cs by cases (use head in \<open>auto simp: range_effect_def\<close>)
  show "set (indexed (tracker (w_state w'))) = set (indexed (tracker (w_state w)))"
    if "{1..lastIndexedHead (w_state w)} \<subseteq> set (indexed (tracker (w_state w)))"
    using cs
  proof cases
    case (2 r)
    then have "{r..?h} \<subseteq> {1..lastIndexedHead (w_state w)}" using head by auto
    then have "{r..?h} \<subseteq> set (indexed (tracker (w_state w)))" using that by (rule order_trans)
    moreover have "set (indexed (tracker (w_state w'))) = {r..?h} \<union> set (indexed (tracker (w_state w)))"
      using 2(4) by (simp add: range_effect_def)
    ultimately show ?thesis by (simp add: Un_absorb1)
  qed simp
qed

lemma indexToHead_InrE:
  assumes "indexToHead env rpc w = (Inr h, w')" and "synced w"
  obtains w1 w2 where
    "process_range env rpc (getBlockNumber rpc) (lastIndexedHead (w_state w) + 1) (getBlockNumber rpc) w = (Inr (), w1)"
    "(case find_reorg rpc (min (lastIndexedHead (w_state w1)) (getBlockNumber rpc)) (w_db w1) of
        Some r \<Rightarrow> process_range env rpc (getBlockNumber rpc) r (getBlockNumber rpc)
      | None \<Rightarrow> bindM (getsM (\<lambda>w. lastIndexedHead (w_state w)))
                  (\<lambda>l. process_range env rpc (getBlockNumber rpc) (l + 1) (getBlockNumber rpc))) w1 = (Inr (), w2)"
    "whenM (0 < lastIndexedHead (w_state w2))
       (dbM (updateFinalityForRange env 1 (getBlockNumber rpc) (getBlockNumber rpc) None)) w2 = (Inr (), w')"
    "h = getBlockNumber rpc"
proof -
  let ?h = "getBlockNumber rpc"
  let ?second = "\<lambda>r. case r of Some r \<Rightarrow> process_range env rpc ?h r ?h
      | None \<Rightarrow> bindM (getsM (\<lambda>w. lastIndexedHead (w_state w))) (\<lambda>l. process_range env rpc ?h (l + 1) ?h)"
  let ?third = "\<lambda>l. thenM (whenM (0 < l) (dbM (updateFinalityForRange env 1 ?h ?h None))) (returnM ?h)"
  have "thenM (process_range env rpc ?h (lastIndexedHead (w_state w) + 1) ?h)
      (bindM (getsM (\<lambda>w. find_reorg rpc (min (lastIndexedHead (w_state w)) ?h) (w_db w))) (\<lambda>r.
        thenM (?second r) (bindM (getsM (\<lambda>w. lastIndexedHead (w_state w))) ?third))) w = (Inr h, w')"
    using assms(1) unfolding indexToHead_def Let_def run_steps process_missing missing_when_synced [OF assms(2)]
    unfolding process_range_def .
  then obtain w1 where r1: "process_range env rpc ?h (lastIndexedHead (w_state w) + 1) ?h w = (Inr (), w1)"
    and "thenM (?second (find_reorg rpc (min (lastIndexedHead (w_state w1)) ?h) (w_db w1)))
      (bindM (getsM (\<lambda>w. lastIndexedHead (w_state w))) ?third) w1 = (Inr h, w')"
    unfolding run_steps by (rule thenM_InrE)
  from this(2) obtain w2 where
    r2: "?second (find_reorg rpc (min (lastIndexedHead (w_state w1)) ?h) (w_db w1)) w1 = (Inr (), w2)"
    and "?third (lastIndexedHead (w_state w2)) w2 = (Inr h, w')"
    by (rule thenM_InrE) (simp only: run_steps)
  from this(2) obtain w3 where
    r3: "whenM (0 < lastIndexedHead (w_state w2)) (dbM (updateFinalityForRange env 1 ?h ?h None)) w2 = (Inr (), w3)"
    and "returnM ?h w3 = (Inr h, w')"
    by (rule thenM_InrE)
  from this(2) have "w3 = w'" and "h = ?h" by (simp_all add: returnM_def)
  with r3 show thesis by (intro that [OF r1 r2]) simp_all
qed

text \<open>The status a block of a height has below a head.\<close>

definition depth_status :: "int \<Rightarrow> int \<Rightarrow> int \<Rightarrow> FinalityStatus" where
  "depth_status depth head n = (if head - n < depth then Pending else Finalized)"

lemma indexToHead_effect:
  assumes sync: "synced w" and ok: "chain_ok rpc" and depth: "getConfirmationDepth env = Inr depth"
    and run: "indexToHead env rpc w = (Inr h, w')"
  shows "h = getBlockNumber rpc"
    and "synced w'"
    and "1 \<le> n \<Longrightarrow> n \<le> h \<Longrightarrow> \<exists>row. block_at (w_db w') n = Some row \<and> blk_hash row = node_hash rpc n \<and>
           blk_finalityStatus row = depth_status depth h n"
    and "1 \<le> h \<Longrightarrow> h < n \<Longrightarrow> n \<le> lastIndexedHead (w_state w) \<Longrightarrow> block_at (w_db w') n = block_at (w_db w) n"
proof -
  let ?h = "getBlockNumber rpc" and ?L = "lastIndexedHead (w_state w)"
  obtain w1 w2 where r1: "process_range env rpc ?h (?L + 1) ?h w = (Inr (), w1)"
    and r2: "(case find_reorg rpc (min (lastIndexedHead (w_state w1)) ?h) (w_db w1) of
        Some r \<Rightarrow> process_range env rpc ?h r ?h
      | None \<Rightarrow> bindM (getsM (\<lambda>w. lastIndexedHead (w_state w)))
                  (\<lambda>l. process_range env rpc ?h (l + 1) ?h)) w1 = (Inr (), w2)"
    and r3: "whenM (0 < lastIndexedHead (w_state w2)) (dbM (updateFinalityForRange env 1 ?h ?h None)) w2 = (Inr (), w')"
    and h: "h = ?h"
    by (rule indexToHead_InrE [OF run sync])
  note p1 = index_phase [OF sync ok depth r1]
  have L: "0 \<le> ?L" using sync by (simp add: synced_def)
  have m: "min (lastIndexedHead (w_state w1)) ?h = ?h" by (simp add: p1(2))
  have old: "n \<le> ?L \<Longrightarrow> truthy (getBlockHashAtNumber n (w_db w1))" if "1 \<le> n" for n
    using sync p1(3) [of n] that by (auto simp: synced_def getBlockHash_at)
  have new: "truthy (getBlockHashAtNumber n (w_db w1))" if "?L < n" "n \<le> ?h" for n
  proof -
    have "node_hash rpc n \<noteq> []" using chain_okE [OF ok _ that(2)] L that(1) by auto
    then show ?thesis using p1(4) [OF that] by (simp add: fresh_def truthy_def)
  qed
  have stored: "truthy (getBlockHashAtNumber n (w_db w1))" if "1 \<le> n" "n \<le> max ?L ?h" for n
    using old [OF that(1)] new [of n] that(2) by (cases "n \<le> ?L") auto
  have head: "?h \<le> lastIndexedHead (w_state w1)" by (simp add: p1(2))
  have st1: "\<forall>n \<in> {1..?h}. truthy (getBlockHashAtNumber n (w_db w1))" using stored by auto
  note p2 = reorg_phase [OF ok depth st1 head r2 [unfolded m]]
  have L2: "lastIndexedHead (w_state w2) = max ?L ?h" using p2(3) p1(2) by simp
  have ix2: "set (indexed (tracker (w_state w2))) = {1..max ?L ?h}" using p2(4) p1(1,2) by simp
  have s3: "w_state w' = w_state w2"
    using r3 by (rule keepsD [rotated]) (intro keeps_intros)
  have at: "block_at (w_db w') n = (case block_at (w_db w2) n of None \<Rightarrow> None
      | Some row \<Rightarrow> Some (if 1 \<le> n \<and> n \<le> ?h \<and> blk_finalityStatus row \<noteq> Reverted
          then set_blk_fin (depth_status depth ?h n) row else row))" for n
  proof (cases "1 \<le> ?h")
    case True
    then have "dbM (updateFinalityForRange env 1 ?h ?h None) w2 = (Inr (), w')"
      using r3 L2 by (simp add: run_simps max_def split: if_splits)
    then have "updateFinalityForRange env 1 ?h ?h None (w_db w2) = (Inr (), w_db w')"
      by (rule dbM_InrE) simp
    then show ?thesis
      using True updateFinality_effect [OF _ depth, of ?h ?h "w_db w2" "w_db w'" n]
      unfolding depth_status_def by linarith
  next
    case False
    then have same: "keeps blocks (updateFinalityForRange env 1 ?h ?h None)"
      unfolding updateFinalityForRange_def range_list_def
      by (simp add: returnM_thenM chain_blocks core_chain core_refreshGoldSupply)
    have "keeps (\<lambda>w. blocks (w_db w)) (whenM (0 < lastIndexedHead (w_state w2))
        (dbM (updateFinalityForRange env 1 ?h ?h None)))"
      by (intro keeps_when keeps_dbM same)
    from keepsD [OF this r3] have "block_at (w_db w') = block_at (w_db w2)" by (rule block_at_cong)
    with False show ?thesis by (auto split: option.split)
  qed
  show "h = ?h" by (rule h)
  show "\<exists>row. block_at (w_db w') n = Some row \<and> blk_hash row = node_hash rpc n \<and>
      blk_finalityStatus row = depth_status depth h n" if "1 \<le> n" "n \<le> h"
    using p2(1) [of n] that h at [of n]
    by (auto simp: fresh_def getBlockHash_at split: option.splits if_splits)
  show "block_at (w_db w') n = block_at (w_db w) n" if "1 \<le> h" "h < n" "n \<le> ?L"
    using p2(2) [of n] p1(3) [of n] that h at [of n] by (auto split: option.splits)
  have "truthy (getBlockHashAtNumber n (w_db w'))" if "1 \<le> n" "n \<le> max ?L ?h" for n
  proof -
    have "getBlockHashAtNumber n (w_db w') = getBlockHashAtNumber n (w_db w2)"
      using at [of n] by (auto simp: getBlockHash_at depth_status_def split: option.splits)
    moreover have "truthy (getBlockHashAtNumber n (w_db w2))"
    proof (cases "n \<le> ?h")
      case True
      then have "node_hash rpc n \<noteq> []" using chain_okE [OF ok that(1)] by auto
      with p2(1) [OF that(1) True] show ?thesis by (simp add: fresh_def truthy_def)
    next
      case False
      then show ?thesis using p2(2) [of n] stored [OF that] by (simp add: getBlockHash_at)
    qed
    ultimately show ?thesis by simp
  qed
  then show "synced w'" using L L2 ix2 s3 by (auto simp: synced_def)
qed

end
