(* ===== verification/BlockFacts.thy ===== *)
theory BlockFacts
  imports ChainFacts
begin

text \<open>
  What one block leaves in the transaction, log and token tables: the fan-out of a transaction
  as straight-line code, the logs of a block after it was processed, its transactions, and the
  aggregates the token jobs recompute.
\<close>

section \<open>The fan-out as straight-line code\<close>

text \<open>What the eleven queued jobs of a transaction amount to.\<close>

definition tx_jobs_inline :: "RpcClient \<Rightarrow> TxJobPayload \<Rightarrow> (db, unit) js" where
  "tx_jobs_inline rpc pl =
     bindM (processReceipts rpc (pl_txHash pl)) (\<lambda>receipt.
     case receipt of
       None \<Rightarrow> returnM ()
     | Some r \<Rightarrow>
         let ls = rr_logs r; st = pl_finalityStatus pl in
         thenM (processContractDetection r)
         (thenM (processLogs ls st)
         (thenM (processTokenTransfersErc20Erc721 ls st)
         (thenM (processTokenTransfersErc1155 ls st)
         (thenM (processBridgeEvents ls st)
         (thenM (processStakingEvents ls st)
         (thenM (processValidatorEvents ls st)
         (thenM (processGovernanceEvents ls st)
         (thenM (processCheckpointEvents ls st)
                (processInternalTxs rpc (pl_txHash pl) (pl_blockNumber pl) st))))))))))"

lemma with_receipt_Some: "with_receipt f (d, Some r) = (fst (f r d), (snd (f r d), Some r))"
  by (simp add: with_receipt_def onDb_def js_simps)

lemma with_receipt_None: "with_receipt f (d, None) = (Inr (), (d, None))"
  by (simp add: with_receipt_def js_simps)

text \<open>A handler that acts on the database and leaves the receipt alone.\<close>

lemma forM_lifted:
  assumes "\<And>j d. j \<in> set js \<Longrightarrow> h j (d, rc) = (fst (g j d), (snd (g j d), rc))"
  shows "forM js h (d, rc) = (fst (forM js g d), (snd (forM js g d), rc))"
  using assms
proof (induction js arbitrary: d)
  case (Cons j js)
  obtain r d' where g: "g j d = (r, d')" by fastforce
  with Cons.prems have "h j (d, rc) = (r, (d', rc))" by simp
  with g Cons show ?case by (cases r) (simp_all add: js_simps)
qed (simp add: js_simps)

definition job_action :: "RpcClient \<Rightarrow> TxJobPayload \<Rightarrow> RpcReceipt \<Rightarrow> JobType \<Rightarrow> (db, unit) js" where
  "job_action rpc pl r t = (let ls = rr_logs r; st = pl_finalityStatus pl in
     case t of
       Receipts \<Rightarrow> returnM ()
     | ContractDetection \<Rightarrow> processContractDetection r
     | Logs \<Rightarrow> processLogs ls st
     | TokenTransfersErc20_721 \<Rightarrow> processTokenTransfersErc20Erc721 ls st
     | TokenTransfersErc1155 \<Rightarrow> processTokenTransfersErc1155 ls st
     | BridgeEvents \<Rightarrow> processBridgeEvents ls st
     | StakingEvents \<Rightarrow> processStakingEvents ls st
     | ValidatorEvents \<Rightarrow> processValidatorEvents ls st
     | GovernanceEvents \<Rightarrow> processGovernanceEvents ls st
     | CheckpointEvents \<Rightarrow> processCheckpointEvents ls st
     | InternalTxs \<Rightarrow> processInternalTxs rpc (pl_txHash pl) (pl_blockNumber pl) st)"

lemma job_handler_action:
  "t \<noteq> Receipts \<Longrightarrow> job_handler rpc pl \<lparr>job_type = t, job_payload = pl\<rparr> (d, Some r) =
     (fst (job_action rpc pl r t d), (snd (job_action rpc pl r t d), Some r))"
  by (cases t) (simp_all add: job_handler_def job_action_def Let_def with_receipt_Some)

lemma job_handler_none:
  "t \<noteq> Receipts \<Longrightarrow> job_handler rpc pl \<lparr>job_type = t, job_payload = pl\<rparr> (d, None) = (Inr (), (d, None))"
  by (cases t) (simp_all add: job_handler_def Let_def with_receipt_None)

definition later_jobs :: "JobType list" where
  "later_jobs = tl tx_job_types"

lemma tx_job_types_split: "tx_job_types = Receipts # later_jobs" "Receipts \<notin> set later_jobs"
  by (simp_all add: later_jobs_def tx_job_types_def)

lemma forM_map: "forM (map g xs) f = forM xs (\<lambda>x. f (g x))"
  by (induction xs) simp_all

lemma run_tx_jobs_forM:
  "run_tx_jobs rpc pl = bindM (processReceipts rpc (pl_txHash pl)) (\<lambda>receipt.
     case receipt of None \<Rightarrow> returnM () | Some r \<Rightarrow> forM later_jobs (job_action rpc pl r))"
proof
  fix d
  let ?job = "\<lambda>t. \<lparr>job_type = t, job_payload = pl\<rparr>"
  let ?h = "\<lambda>t. job_handler rpc pl (?job t)"
  obtain r d1 where rec: "processReceipts rpc (pl_txHash pl) d = (r, d1)" by fastforce
  have first: "?h Receipts (d, None) = (case r of Inl e \<Rightarrow> (Inl e, (d1, None)) | Inr rc \<Rightarrow> (Inr (), (d1, rc)))"
    using rec by (cases r) (simp_all add: job_handler_def onDb_def js_simps)
  have some: "forM later_jobs ?h (d1, Some rc) =
      (fst (forM later_jobs (job_action rpc pl rc) d1), (snd (forM later_jobs (job_action rpc pl rc) d1), Some rc))"
    for rc using tx_job_types_split(2) by (intro forM_lifted job_handler_action) auto
  have "Receipts \<notin> set js \<Longrightarrow> forM js ?h (d1, None) = (Inr (), (d1, None))" for js
    by (induction js) (auto simp: js_simps job_handler_none)
  then have none: "forM later_jobs ?h (d1, None) = (Inr (), (d1, None))"
    using tx_job_types_split(2) by blast
  have "run_tx_jobs rpc pl d = (case forM tx_job_types ?h (d, None) of (r, (d', rc)) \<Rightarrow> (r, d'))"
    unfolding run_tx_jobs_def Let_def drain_as_forM [of "job_handler rpc pl" "map ?job tx_job_types" "(d, None)",
      unfolded forM_map, symmetric]
    by (simp split: prod.split)
  then show "run_tx_jobs rpc pl d = bindM (processReceipts rpc (pl_txHash pl)) (\<lambda>receipt.
      case receipt of None \<Rightarrow> returnM () | Some r \<Rightarrow> forM later_jobs (job_action rpc pl r)) d"
    using rec first some none
    by (cases r) (auto simp: tx_job_types_split(1) js_simps split: option.split)
qed

text \<open>
  Queueing the eleven jobs of a transaction and draining the queue is running them one after the
  other, the ten after the receipt only when the transaction has a receipt; a job that throws ends the
  transaction.
\<close>

theorem run_tx_jobs_inline: "run_tx_jobs rpc pl = tx_jobs_inline rpc pl"
proof -
  have "forM later_jobs (job_action rpc pl r) =
    (let ls = rr_logs r; st = pl_finalityStatus pl in
         thenM (processContractDetection r)
         (thenM (processLogs ls st)
         (thenM (processTokenTransfersErc20Erc721 ls st)
         (thenM (processTokenTransfersErc1155 ls st)
         (thenM (processBridgeEvents ls st)
         (thenM (processStakingEvents ls st)
         (thenM (processValidatorEvents ls st)
         (thenM (processGovernanceEvents ls st)
         (thenM (processCheckpointEvents ls st)
                (processInternalTxs rpc (pl_txHash pl) (pl_blockNumber pl) st))))))))))" for r
    by (simp add: later_jobs_def tx_job_types_def job_action_def Let_def thenM_returnM)
  then show ?thesis unfolding run_tx_jobs_forM tx_jobs_inline_def by simp
qed

section \<open>The logs of a block\<close>

lemma upsertLog_logs: "upsertLog row d = (Inr (), d') \<Longrightarrow> logs d' = logs d @ [row]"
  unfolding upsertLog_def ensureAddress_def
  by (auto simp: run_steps elim!: statement_InrE)

lemma processLogs_logs: "processLogs ls st d = (Inr (), d') \<Longrightarrow> logs d' = logs d @ map (log_row st) ls"
  unfolding processLogs_def
  by (induction ls arbitrary: d) (auto simp: run_simps upsertLog_logs elim!: thenM_InrE)

text \<open>The logs the node reports for the transactions of a block, as rows.\<close>

definition node_logs :: "RpcClient \<Rightarrow> FinalityStatus \<Rightarrow> RpcTransaction list \<Rightarrow> LogRow list" where
  "node_logs rpc st txs = concat (map (\<lambda>tx.
     case getTransactionReceipt rpc (rt_hash tx) of None \<Rightarrow> [] | Some r \<Rightarrow> map (log_row st) (rr_logs r)) txs)"

lemma processReceipts_InrE:
  assumes "processReceipts rpc h d = (Inr r, d')"
  obtains "r = getTransactionReceipt rpc h" and "logs d' = logs d"
proof
  show "logs d' = logs d" by (rule keepsD [OF core_logs [OF core_jobs(1)] assms])
  show "r = getTransactionReceipt rpc h"
    using assms unfolding processReceipts_def
    by (auto simp: run_simps split: option.splits elim!: bindM_InrE thenM_InrE)
qed

lemma run_tx_jobs_logs:
  assumes "run_tx_jobs rpc pl d = (Inr (), d')"
  shows "logs d' = logs d @ (case getTransactionReceipt rpc (pl_txHash pl) of None \<Rightarrow> []
    | Some r \<Rightarrow> map (log_row (pl_finalityStatus pl)) (rr_logs r))"
proof -
  obtain r d1 where rec: "processReceipts rpc (pl_txHash pl) d = (Inr r, d1)"
    and rest: "(case r of None \<Rightarrow> returnM () | Some r \<Rightarrow> forM later_jobs (job_action rpc pl r)) d1 = (Inr (), d')"
    using assms unfolding run_tx_jobs_forM by (rule bindM_InrE)
  have r: "r = getTransactionReceipt rpc (pl_txHash pl)" and d1: "logs d1 = logs d"
    using processReceipts_InrE [OF rec] by blast+
  show ?thesis
  proof (cases r)
    case None
    with r rest d1 show ?thesis by (simp add: run_simps)
  next
    case (Some rc)
    let ?st = "pl_finalityStatus pl"
    let ?after = "forM [TokenTransfersErc20_721, TokenTransfersErc1155, BridgeEvents, StakingEvents,
      ValidatorEvents, GovernanceEvents, CheckpointEvents, InternalTxs] (job_action rpc pl rc)"
    have jobs: "later_jobs = [ContractDetection, Logs] @ [TokenTransfersErc20_721, TokenTransfersErc1155,
      BridgeEvents, StakingEvents, ValidatorEvents, GovernanceEvents, CheckpointEvents, InternalTxs]"
      by (simp add: later_jobs_def tx_job_types_def)
    have "forM later_jobs (job_action rpc pl rc) =
        thenM (thenM (processContractDetection rc) (processLogs (rr_logs rc) ?st)) ?after"
      unfolding jobs forM_append by (simp add: job_action_def Let_def thenM_returnM)
    with rest Some have "thenM (thenM (processContractDetection rc) (processLogs (rr_logs rc) ?st)) ?after d1
        = (Inr (), d')" by simp
    then obtain d2 d3 where
      c: "processContractDetection rc d1 = (Inr (), d2)" and l: "processLogs (rr_logs rc) ?st d2 = (Inr (), d3)"
      and a: "?after d3 = (Inr (), d')"
      by (elim thenM_InrE) blast
    have "keeps logs ?after"
      by (rule keeps_for) (auto simp: job_action_def Let_def intro!: core_logs core_jobs keeps_basic)
    with a have "logs d' = logs d3" by (metis keepsD)
    moreover have "logs d2 = logs d1" by (rule keepsD [OF core_logs [OF core_jobs(2)] c])
    ultimately show ?thesis using processLogs_logs [OF l] d1 r [symmetric] Some by simp
  qed
qed

lemma run_txs_logs:
  assumes "forM txs (\<lambda>tx. run_tx_jobs rpc \<lparr>pl_txHash = rt_hash tx, pl_blockNumber = bn,
      pl_finalityStatus = st\<rparr>) d = (Inr (), d')"
  shows "logs d' = logs d @ node_logs rpc st txs"
  using assms
proof (induction txs arbitrary: d)
  case (Cons tx txs)
  then obtain d1 where "run_tx_jobs rpc \<lparr>pl_txHash = rt_hash tx, pl_blockNumber = bn,
      pl_finalityStatus = st\<rparr> d = (Inr (), d1)"
    and "logs d' = logs d1 @ node_logs rpc st txs"
    by (auto elim!: thenM_InrE)
  then show ?case by (auto dest!: run_tx_jobs_logs simp: node_logs_def split: option.split)
qed (simp add: run_simps node_logs_def)

lemma runBlockJobs_logs:
  assumes "runBlockJobs env rpc b head d = (Inr (), d')"
  obtains st where "finalityStatusForBlock env (parseInt 16 (rb_number b)) (JNum head) False = Inr st"
    and "logs d' = logs d @ node_logs rpc st (rb_transactions b)"
  using assms unfolding runBlockJobs_def Let_def
  by (auto elim!: bindM_InrE liftS_InrE dest!: run_txs_logs)

lemma clearDerived_logs:
  assumes "clearDerivedRowsForBlock n d = (Inr (), d')"
  shows "logs d' = delete_where (\<lambda>r. log_blockNumber r = JNum n) (logs d)"
proof -
  obtain d1 where e: "clearEvmDerivedRowsForBlock n d1 = (Inr (), d')" and "logs d1 = logs d"
  proof -
    let ?cs = "remdups (map tt_contractAddress (filter (\<lambda>r. tt_blockNumber r = JNum n) (token_transfers d)))"
    let ?d = "d\<lparr>token_transfers := delete_where (\<lambda>r. tt_blockNumber r = JNum n) (token_transfers d)\<rparr>"
    from assms obtain d2 d3 where a: "forM ?cs refreshTokenBalancesForContract ?d = (Inr (), d2)"
      and b: "clearGoldDerivedRowsForBlock n d2 = (Inr (), d3)"
      and c: "clearEvmDerivedRowsForBlock n d3 = (Inr (), d')"
      unfolding clearDerivedRowsForBlock_def run_steps by (auto elim!: thenM_InrE)
    have "keeps logs (forM ?cs refreshTokenBalancesForContract)"
      by (intro keeps_for core_logs core_refreshBalances)
    then have "logs d2 = logs ?d" using a by (rule keepsD)
    moreover have "logs d3 = logs d2" by (rule keepsD [OF core_logs [OF core_clearGold] b])
    ultimately show thesis using that [OF c] by simp
  qed
  then show ?thesis by (auto simp: clearEvmDerivedRowsForBlock_def js_simps)
qed

definition other_logs :: "int \<Rightarrow> db \<Rightarrow> LogRow list" where
  "other_logs n d = filter (\<lambda>r. log_blockNumber r \<noteq> JNum n) (logs d)"

lemma logs_markByNumber: "keeps (other_logs n) (markBlockRevertedByNumber n)"
  unfolding markBlockRevertedByNumber_def markBlockDerivedRowsReverted_def markEvmDerivedRowsReverted_def
    other_logs_def [abs_def]
  by (intro keeps_intros keeps_modify keeps_comp [OF core_logs [OF core_markGold]])
     (simp_all add: fin_log.mark_at_other)

lemma logs_clearDerived: "clearDerivedRowsForBlock n d = (Inr (), d') \<Longrightarrow> other_logs n d' = other_logs n d"
  by (drule clearDerived_logs) (simp add: other_logs_def delete_where_def)

lemma logs_reorg_checks:
  assumes "process_reorg_checks n b d = (Inr (), d')" and "\<not> parent_stale b n d"
  shows "other_logs n d' = other_logs n d"
proof -
  have skip: "whenM (1 < n) (bindM (getsM (getBlockHashAtNumber (n - 1))) (\<lambda>h.
          whenM (stale_hash h (rb_parentHash b))
            (thenM (markBlockRevertedFromNumber n) (clearDerivedRowsForBlock n)))) d = (Inr (), d)"
    using assms(2) by (auto simp: parent_stale_def run_simps run_steps)
  then have "bindM (getsM (getBlockHashAtNumber n)) (\<lambda>h. whenM (stale_hash h (rb_hash b))
          (thenM (markBlockRevertedByNumber n) (clearDerivedRowsForBlock n))) d = (Inr (), d')"
    using assms(1) unfolding process_reorg_checks_def by (auto elim: thenM_InrE)
  then show ?thesis
    by (auto simp: run_simps run_steps dest!: keepsD [OF logs_markByNumber] logs_clearDerived
        split: if_splits elim!: thenM_InrE)
qed

lemma logs_upsertBlock: "keeps logs (upsertBlock row)"
  unfolding upsertBlock_def by (rule keeps_statement) simp

lemma logs_process_tx: "keeps (\<lambda>w. logs (w_db w)) (process_tx rpc n st tx)"
  unfolding process_tx_def upsertTransaction_def
  by (intro keeps_intros keeps_dbM keeps_statement db_onIndexed core_logs) simp_all

lemma logs_markOrphaned: "keeps logs (markOrphanedTransactionsReverted n hs)"
  unfolding markOrphanedTransactionsReverted_def by (intro keeps_intros keeps_modify) simp_all

lemma block_body_InrE:
  assumes "block_body env rpc n head b st w = (Inr (), w')"
  obtains d1 w2 d3 where
    "clearDerivedRowsForBlock n (w_db w) = (Inr (), d1)"
    "forM (rb_transactions b) (process_tx rpc n st) (w\<lparr>w_db := d1\<rparr>) = (Inr (), w2)"
    "markOrphanedTransactionsReverted n (map rt_hash (rb_transactions b)) (w_db w2) = (Inr (), d3)"
    "runBlockJobs env rpc b head d3 = (Inr (), w_db w')"
  using assms unfolding block_body_def by (elim thenM_InrE dbM_InrE) simp

lemma block_body_logs:
  assumes body: "block_body env rpc n head b st w = (Inr (), w')"
    and num: "parseInt 16 (rb_number b) = JNum n" and depth: "getConfirmationDepth env = Inr depth"
  shows "logs (w_db w') = other_logs n (w_db w) @ node_logs rpc (depth_status depth head n) (rb_transactions b)"
proof -
  obtain d1 w2 d3 where clear: "clearDerivedRowsForBlock n (w_db w) = (Inr (), d1)"
    and txs: "forM (rb_transactions b) (process_tx rpc n st) (w\<lparr>w_db := d1\<rparr>) = (Inr (), w2)"
    and orph: "markOrphanedTransactionsReverted n (map rt_hash (rb_transactions b)) (w_db w2) = (Inr (), d3)"
    and jobs: "runBlockJobs env rpc b head d3 = (Inr (), w_db w')"
    by (rule block_body_InrE [OF body])
  have "logs d1 = other_logs n (w_db w)"
    using clearDerived_logs [OF clear] by (simp add: other_logs_def delete_where_def)
  moreover have "keeps (\<lambda>w. logs (w_db w)) (forM (rb_transactions b) (process_tx rpc n st))"
    by (intro keeps_for logs_process_tx)
  from keepsD [OF this txs] have "logs (w_db w2) = logs d1" by simp
  moreover have "logs d3 = logs (w_db w2)" by (rule keepsD [OF logs_markOrphaned orph])
  moreover have "logs (w_db w') = logs d3 @ node_logs rpc (depth_status depth head n) (rb_transactions b)"
    by (rule runBlockJobs_logs [OF jobs]) (simp add: num finality_of_depth [OF depth] depth_status_def)
  ultimately show ?thesis by simp
qed

lemma processBlock_logs:
  assumes run: "processBlock env rpc n head w = (Inr x, w')" and b: "getBlockByNumber rpc n = Some b"
    and num: "parseInt 16 (rb_number b) = JNum n" and depth: "getConfirmationDepth env = Inr depth"
  obtains old where
    "logs (w_db w') = old @ node_logs rpc (depth_status depth head n) (rb_transactions b)"
    "\<forall>r \<in> set old. log_blockNumber r \<noteq> JNum n"
    "\<not> parent_stale b n (w_db w) \<Longrightarrow> old = other_logs n (w_db w)"
  using run b
proof (rule processBlock_InrE)
  fix st row d1 d2 w2
  let ?w = "w\<lparr>w_db := d2, w_feed := w_feed w @ [BlockEvent (number_str (JNum n)) (rb_hash b) (rb_timestamp b) st]\<rparr>"
  assume checks: "process_reorg_checks n b (w_db w) = (Inr (), d1)"
    and up: "upsertBlock row d1 = (Inr (), d2)"
    and body: "block_body env rpc n head b st ?w = (Inr (), w2)"
    and w': "w' = w2\<lparr>w_state := (w_state w2)\<lparr>tracker := markIndexed n (tracker (w_state w2)),
        lastIndexedHead := max (lastIndexedHead (w_state w2)) n\<rparr>\<rparr>"
  have "logs d2 = logs d1" by (rule keepsD [OF logs_upsertBlock up])
  then have "other_logs n d2 = other_logs n d1" by (simp add: other_logs_def)
  then have "logs (w_db w') = other_logs n d1 @ node_logs rpc (depth_status depth head n) (rb_transactions b)"
    using block_body_logs [OF body num depth] w' by (simp add: other_logs_def)
  moreover have "\<forall>r \<in> set (other_logs n d1). log_blockNumber r \<noteq> JNum n" by (simp add: other_logs_def)
  ultimately show thesis using logs_reorg_checks [OF checks] by (rule that)
qed

section \<open>The transactions of a block\<close>

lemma upsertTransaction_transactions:
  assumes "upsertTransaction row d = (Inr (), d')"
  shows "transactions d' = upsert (\<lambda>t. tx_hash t = tx_hash row) (\<lambda>_. row) row (transactions d)"
proof -
  obtain d1 d2 where a: "ensureAddress (tx_fromAddress row) d = (Inr (), d1)"
    and b: "ensure_optional (tx_toAddress row) d1 = (Inr (), d2)"
    and c: "transactions d' = upsert (\<lambda>t. tx_hash t = tx_hash row) (\<lambda>_. row) row (transactions d2)"
    using assms unfolding upsertTransaction_def by (elim thenM_InrE statement_InrE) simp
  have "transactions d2 = transactions d1"
    by (rule keepsD [OF chain_transactions [OF core_chain [OF core_ensure_optional]] b])
  moreover have "transactions d1 = transactions d"
    by (rule keepsD [OF chain_transactions [OF core_chain [OF core_ensureAddress]] a])
  ultimately show ?thesis using c by simp
qed

lemma process_tx_transactions:
  assumes "process_tx rpc n st tx w = (Inr (), w')"
  obtains row where "tx_row rpc n tx st = Inr row"
    and "transactions (w_db w') = upsert (\<lambda>t. tx_hash t = tx_hash row) (\<lambda>_. row) row (transactions (w_db w))"
  using assms unfolding process_tx_def
  by (elim bindM_InrE liftS_InrE thenM_InrE dbM_InrE onIndexed_InrE) (simp add: upsertTransaction_transactions)

lemma tx_row_fields:
  assumes "tx_row rpc n tx st = Inr row"
  shows "tx_hash row = rt_hash tx \<and> tx_blockNumber row = JNum n \<and> tx_fromAddress row = rt_from tx \<and>
         tx_toAddress row = rt_to tx \<and> tx_finalityStatus row = st"
  using assms unfolding tx_row_def Let_def by (elim bindS_InrE) auto

lemma process_txs_rows:
  assumes "forM txs (process_tx rpc n st) w = (Inr (), w')" and "distinct (map rt_hash txs)"
  shows "tx \<in> set txs \<Longrightarrow> \<exists>row. tx_row rpc n tx st = Inr row \<and> row \<in> set (transactions (w_db w'))"
    and "r \<in> set (transactions (w_db w)) \<Longrightarrow> tx_hash r \<notin> rt_hash ` set txs \<Longrightarrow> r \<in> set (transactions (w_db w'))"
  using assms
proof (induction txs arbitrary: w tx r)
  case (Cons t txs)
  {
    case 1
    from 1(2) obtain w1 where t: "process_tx rpc n st t w = (Inr (), w1)"
      and rest: "forM txs (process_tx rpc n st) w1 = (Inr (), w')"
      by (auto elim: thenM_InrE)
    obtain row where row: "tx_row rpc n t st = Inr row"
      and up: "transactions (w_db w1) = upsert (\<lambda>t. tx_hash t = tx_hash row) (\<lambda>_. row) row (transactions (w_db w))"
      by (rule process_tx_transactions [OF t])
    show ?case
    proof (cases "tx = t")
      case True
      have "row \<in> set (transactions (w_db w1))" by (simp add: up set_upsert_replace)
      then have "row \<in> set (transactions (w_db w'))"
        using Cons.IH(2) [OF _ _ rest] 1(3) tx_row_fields [OF row] by simp
      with True row show ?thesis by blast
    next
      case False
      with 1 Cons.IH(1) [OF _ rest] show ?thesis by simp
    qed
  next
    case 2
    from 2(3) obtain w1 where t: "process_tx rpc n st t w = (Inr (), w1)"
      and rest: "forM txs (process_tx rpc n st) w1 = (Inr (), w')"
      by (auto elim: thenM_InrE)
    obtain row where row: "tx_row rpc n t st = Inr row"
      and up: "transactions (w_db w1) = upsert (\<lambda>t. tx_hash t = tx_hash row) (\<lambda>_. row) row (transactions (w_db w))"
      by (rule process_tx_transactions [OF t])
    have "r \<in> set (transactions (w_db w1))"
      using 2(1,2) tx_row_fields [OF row] by (simp add: up set_upsert_replace)
    then show ?case using Cons.IH(2) [OF _ _ rest] 2(2,4) by simp
  }
qed (auto simp: run_simps)

lemma markOrphaned_transactions:
  assumes "markOrphanedTransactionsReverted n hs d = (Inr (), d')"
  shows "transactions d' = update_where (\<lambda>r. tx_blockNumber r = JNum n \<and> tx_hash r \<notin> set hs)
    (set_tx_fin Reverted) (transactions d)"
  using assms by (auto simp: markOrphanedTransactionsReverted_def run_simps mark_at_def split: if_splits)

lemma processBlock_transactions:
  assumes run: "processBlock env rpc n head w = (Inr x, w')" and b: "getBlockByNumber rpc n = Some b"
    and depth: "getConfirmationDepth env = Inr depth" and dist: "distinct (map rt_hash (rb_transactions b))"
  shows "tx \<in> set (rb_transactions b) \<Longrightarrow>
      \<exists>row. tx_row rpc n tx (depth_status depth head n) = Inr row \<and> row \<in> set (transactions (w_db w'))"
    and "r \<in> set (transactions (w_db w')) \<Longrightarrow> tx_blockNumber r = JNum n \<Longrightarrow>
      tx_hash r \<notin> rt_hash ` set (rb_transactions b) \<Longrightarrow> tx_finalityStatus r = Reverted"
proof -
  obtain st row d1 d2 w2 where fin: "finalityStatusForBlock env (JNum n) (JNum head) False = Inr st"
    and body: "block_body env rpc n head b st
      (w\<lparr>w_db := d2, w_feed := w_feed w @ [BlockEvent (number_str (JNum n)) (rb_hash b) (rb_timestamp b) st]\<rparr>)
      = (Inr (), w2)" and w': "w_db w' = w_db w2"
    by (rule processBlock_InrE [OF run b]) simp
  have st: "st = depth_status depth head n"
    using fin finality_of_depth [OF depth] by (simp add: depth_status_def)
  obtain w0 w3 d3 where txs: "forM (rb_transactions b) (process_tx rpc n st) w0 = (Inr (), w3)"
    and orph: "markOrphanedTransactionsReverted n (map rt_hash (rb_transactions b)) (w_db w3) = (Inr (), d3)"
    and jobs: "runBlockJobs env rpc b head d3 = (Inr (), w_db w2)"
    by (rule block_body_InrE [OF body])
  have final: "transactions (w_db w') = update_where
      (\<lambda>r. tx_blockNumber r = JNum n \<and> tx_hash r \<notin> set (map rt_hash (rb_transactions b)))
      (set_tx_fin Reverted) (transactions (w_db w3))"
    using keepsD [OF chain_transactions [OF chain_runBlockJobs] jobs] markOrphaned_transactions [OF orph] w' by simp
  show "\<exists>row. tx_row rpc n tx (depth_status depth head n) = Inr row \<and> row \<in> set (transactions (w_db w'))"
    if mem: "tx \<in> set (rb_transactions b)"
  proof -
    obtain row where row: "tx_row rpc n tx st = Inr row" and "row \<in> set (transactions (w_db w3))"
      using process_txs_rows(1) [OF txs dist mem] by blast
    moreover have "tx_hash row \<in> rt_hash ` set (rb_transactions b)"
      using tx_row_fields [OF row] mem by simp
    ultimately have "row \<in> set (transactions (w_db w'))"
      unfolding final set_update_where by (intro image_eqI [of _ _ row]) simp_all
    with row st show ?thesis by blast
  qed
  show "tx_finalityStatus r = Reverted"
    if "r \<in> set (transactions (w_db w'))" "tx_blockNumber r = JNum n"
      "tx_hash r \<notin> rt_hash ` set (rb_transactions b)"
    using that unfolding final set_update_where by (elim imageE) (simp split: if_splits)
qed

end
