(* ===== verification/TokenFacts.thy ===== *)
theory TokenFacts
  imports BlockFacts
begin

text \<open>
  The two aggregates the indexer keeps of token transfers.  \<open>balance_at\<close> and
  \<open>supply_at\<close> read the tables, \<open>net_transfers\<close> and \<open>net_supply\<close> say
  what they should hold.  The lemmas: a refresh makes one contract's balances exact and leaves the
  other contracts alone, the token jobs and the clearing of a block end with the balances of every
  contract they touched exact, and the finality pass ends with an exact gold supply.
\<close>

section \<open>What the tables should hold\<close>

definition balance_at :: "db \<Rightarrow> string \<Rightarrow> string \<Rightarrow> numeric \<Rightarrow> int" where
  "balance_at d c a i = sum_list (map tb_balance
     (filter (\<lambda>r. tb_contractAddress r = c \<and> tb_address r = a \<and> tb_tokenId r = i) (token_balances d)))"

definition net_transfers :: "string \<Rightarrow> string \<Rightarrow> numeric \<Rightarrow> TokenTransferRow list \<Rightarrow> int" where
  "net_transfers c a i ts =
     sum_list (map (\<lambda>r. amount_val (tt_amount r))
       (filter (\<lambda>r. tt_contractAddress r = c \<and> tt_finalityStatus r \<noteq> Reverted \<and> transfer_id r = i \<and> tt_toAddress r = a) ts)) -
     sum_list (map (\<lambda>r. amount_val (tt_amount r))
       (filter (\<lambda>r. tt_contractAddress r = c \<and> tt_finalityStatus r \<noteq> Reverted \<and> transfer_id r = i \<and> tt_fromAddress r = a) ts))"

definition supply_at :: "db \<Rightarrow> numeric \<Rightarrow> int" where
  "supply_at d i = sum_list (map gs_supply (filter (\<lambda>r. gs_tokenId r = i) (gold_supply d)))"

definition net_supply :: "numeric \<Rightarrow> TokenTransferRow list \<Rightarrow> int" where
  "net_supply i ts =
     (let fin = filter (\<lambda>r. tt_tokenStandard r = Erc1155 \<and> tt_finalityStatus r = Finalized \<and>
            map_option numeric_val (tt_tokenId r) = Some i) ts in
      sum_list (map (\<lambda>r. amount_val (tt_amount r)) (filter (\<lambda>r. tt_fromAddress r = ZERO_ADDRESS) fin)) -
      sum_list (map (\<lambda>r. amount_val (tt_amount r))
        (filter (\<lambda>r. tt_fromAddress r \<noteq> ZERO_ADDRESS \<and> tt_toAddress r = ZERO_ADDRESS) fin)))"

section \<open>Grouped sums, read back\<close>

lemma filter_key_distinct:
  "distinct (map fst xs) \<Longrightarrow> filter (\<lambda>p. fst p = k) xs = (case map_of xs k of None \<Rightarrow> [] | Some v \<Rightarrow> [(k, v)])"
proof (induction xs)
  case (Cons x xs)
  then show ?case
    by (cases "fst x = k") (auto simp: map_of_eq_None_iff image_iff split: option.splits)
qed simp

lemma sum_for_group_sums: "sum_for (group_sums ds) k = sum_for ds k"
  unfolding sum_for_def [of "group_sums ds"] filter_key_distinct [OF distinct_fst_group_sums] map_of_group_sums
  by simp

lemma sum_group_sums: "sum_list (map snd (group_sums ds)) = sum_list (map snd ds)"
proof -
  let ?ks = "remdups (map fst ds)"
  have "sum_list (map snd (filter (\<lambda>p. snd p \<noteq> 0) xs)) = sum_list (map snd xs)" for xs :: "('a \<times> int) list"
    by (induction xs) simp_all
  then have "sum_list (map snd (group_sums ds)) = sum_list (map (sum_for ds) ?ks)"
    by (simp add: group_sums_def comp_def)
  also have "\<dots> = (\<Sum>k \<in> set (map fst ds). sum_for ds k)"
    by (simp add: sum_list_distinct_conv_sum_set)
  also have "\<dots> = sum_list (map snd (filter (\<lambda>p. fst p \<in> set (map fst ds)) ds))"
    by (rule sum_sum_for) simp
  also have "filter (\<lambda>p. fst p \<in> set (map fst ds)) ds = ds"
    by (rule filter_True) auto
  finally show ?thesis .
qed

lemma sum_list_filter_map: "sum_list (map f (filter p xs)) = sum_list (map (\<lambda>x. if p x then f x else 0) xs)"
  for f :: "'a \<Rightarrow> int"
  by (induction xs) simp_all

lemma sum_for_map: "sum_for (map (\<lambda>x. (key x, val x)) xs) k = sum_list (map (\<lambda>x. if key x = k then val x else 0) xs)"
  by (induction xs) (simp_all add: sum_for_def)

lemma sum_list_map_uminus: "sum_list (map (\<lambda>x. - f x) xs) = - sum_list (map f xs)" for f :: "'a \<Rightarrow> int"
  by (induction xs) simp_all

lemma sum_for_balance_deltas:
  assumes "a \<noteq> ZERO_ADDRESS"
  shows "sum_for (balance_deltas c ts) (a, i) = net_transfers c a i ts"
  using assms
  by (induction ts)
     (auto simp: balance_deltas_def live_transfers_def net_transfers_def sum_for_append sum_for_Cons sum_for_def)

lemma balance_rows_sum:
  "sum_list (map tb_balance (filter (\<lambda>r. tb_contractAddress r = c \<and> tb_address r = a \<and> tb_tokenId r = i)
     (balance_rows c ts))) = sum_for (balance_deltas c ts) (a, i)"
proof -
  let ?mk = "\<lambda>((a, i), v). \<lparr>tb_address = a, tb_contractAddress = c, tb_tokenId = i, tb_balance = v\<rparr>"
  have "filter (\<lambda>r. tb_contractAddress r = c \<and> tb_address r = a \<and> tb_tokenId r = i) (map ?mk gs) =
        map ?mk (filter (\<lambda>p. fst p = (a, i)) gs)" for gs :: "((string \<times> numeric) \<times> int) list"
    by (induction gs) auto
  then have "sum_list (map tb_balance (filter (\<lambda>r. tb_contractAddress r = c \<and> tb_address r = a \<and> tb_tokenId r = i)
      (balance_rows c ts))) = sum_for (group_sums (balance_deltas c ts)) (a, i)"
    unfolding balance_rows_def sum_for_def by (simp add: comp_def case_prod_beta)
  then show ?thesis by (simp only: sum_for_group_sums)
qed

lemma balance_rows_total:
  "sum_list (map tb_balance (balance_rows c ts)) = sum_list (map snd (balance_deltas c ts))"
proof -
  have "map tb_balance (balance_rows c ts) = map snd (group_sums (balance_deltas c ts))"
    by (simp add: balance_rows_def comp_def case_prod_beta)
  then show ?thesis by (simp add: sum_group_sums)
qed

section \<open>Refreshing balances\<close>

definition balances_of :: "string \<Rightarrow> db \<Rightarrow> TokenBalanceRow list" where
  "balances_of c d = filter (\<lambda>r. tb_contractAddress r = c) (token_balances d)"

definition balances_exact :: "string \<Rightarrow> db \<Rightarrow> bool" where
  "balances_exact c d \<longleftrightarrow> balances_of c d = balance_rows c (token_transfers d)"

lemma balances_exact_at:
  assumes "balances_exact c d" and "a \<noteq> ZERO_ADDRESS"
  shows "balance_at d c a i = net_transfers c a i (token_transfers d)"
proof -
  have "filter (\<lambda>r. tb_contractAddress r = c \<and> tb_address r = a \<and> tb_tokenId r = i) (token_balances d) =
        filter (\<lambda>r. tb_contractAddress r = c \<and> tb_address r = a \<and> tb_tokenId r = i) (balances_of c d)"
    by (auto simp: balances_of_def intro: filter_cong)
  then show ?thesis
    using assms by (simp add: balance_at_def balances_exact_def balance_rows_sum sum_for_balance_deltas)
qed

lemma refresh_effect:
  assumes "refreshTokenBalancesForContract c d = (Inr (), d')"
  shows "token_transfers d' = token_transfers d" and "balances_exact c d'"
    and "c' \<noteq> c \<Longrightarrow> balances_of c' d' = balances_of c' d"
proof -
  have d': "d' = d\<lparr>token_balances := delete_where (\<lambda>r. tb_contractAddress r = c) (token_balances d)
      @ balance_rows c (token_transfers d)\<rparr>"
    using assms unfolding refreshTokenBalancesForContract_def run_steps by (elim statement_InrE) simp
  have own: "filter (\<lambda>r. tb_contractAddress r = c) (balance_rows c ts) = balance_rows c ts" for ts
    by (rule filter_True) (simp add: balance_rows_contract)
  have other: "filter (\<lambda>r. tb_contractAddress r = c') (balance_rows c ts) = []" if "c' \<noteq> c" for ts
    using that balance_rows_contract by (auto simp: filter_empty_conv)
  show "token_transfers d' = token_transfers d" by (simp add: d')
  show "balances_exact c d'"
    by (simp add: d' balances_exact_def balances_of_def delete_where_def own)
  show "balances_of c' d' = balances_of c' d" if "c' \<noteq> c"
    using that by (simp add: d' balances_of_def delete_where_def other) (metis (mono_tags, lifting) filter_cong)
qed

lemma refresh_all_effect:
  assumes "forM cs refreshTokenBalancesForContract d = (Inr (), d')"
  shows "token_transfers d' = token_transfers d"
    and "c \<in> set cs \<or> balances_exact c d \<Longrightarrow> balances_exact c d'"
proof -
  have "token_transfers d' = token_transfers d \<and> (c \<in> set cs \<or> balances_exact c d \<longrightarrow> balances_exact c d')"
    using assms
  proof (induction cs arbitrary: d)
    case (Cons x cs)
    then obtain d1 where r: "refreshTokenBalancesForContract x d = (Inr (), d1)"
      and "forM cs refreshTokenBalancesForContract d1 = (Inr (), d')"
      by (auto elim: thenM_InrE)
    with Cons.IH have IH: "token_transfers d' = token_transfers d1"
      "c \<in> set cs \<or> balances_exact c d1 \<longrightarrow> balances_exact c d'" by auto
    moreover have "balances_exact c d1" if "c = x \<or> balances_exact c d"
      using that refresh_effect [OF r] by (cases "c = x") (simp_all add: balances_exact_def)
    ultimately show ?case using refresh_effect(1) [OF r] by auto
  qed (simp add: run_simps)
  then show "token_transfers d' = token_transfers d"
    and "c \<in> set cs \<or> balances_exact c d \<Longrightarrow> balances_exact c d'" by auto
qed

lemma set_dedup [simp]: "set (dedup xs) = set xs"
  by (simp add: dedup_def)

lemma erc20_exact:
  assumes "processTokenTransfersErc20Erc721 ls st d = (Inr (), d')" and "log \<in> set ls"
    and "topic0_is log TRANSFER_TOPIC" and "length (rl_topics log) = 3 \<or> length (rl_topics log) = 4"
  shows "balances_exact (rl_address log) d'"
proof -
  let ?cs = "dedup (map rl_address (filter (\<lambda>log. topic0_is log TRANSFER_TOPIC \<and>
      (length (rl_topics log) = 3 \<or> length (rl_topics log) = 4)) ls))"
  obtain d1 where "forM ?cs refreshTokenBalancesForContract d1 = (Inr (), d')"
    using assms(1) unfolding processTokenTransfersErc20Erc721_def by (rule thenM_InrE)
  moreover have "rl_address log \<in> set ?cs" using assms(2-4) by simp
  ultimately show ?thesis by (blast intro: refresh_all_effect(2))
qed

lemma supply_keeps: "keeps token_balances refreshGoldSupply" "keeps token_transfers refreshGoldSupply"
  unfolding refreshGoldSupply_def by (intro keeps_intros keeps_modify keeps_statement; simp)+

lemma erc1155_exact:
  assumes run: "processTokenTransfersErc1155 ls st d = (Inr (), d')" and "log \<in> set ls"
    and "decodeErc1155 log = Inr ts" and "t \<in> set ts"
  shows "balances_exact (e_contractAddress t) d'"
proof -
  have "e_contractAddress t \<in> set (erc1155_contracts ls)"
    using assms(2-4) by (auto simp: erc1155_contracts_def intro!: bexI [of _ log])
  moreover obtain d1 d2 where r: "forM (erc1155_contracts ls) refreshTokenBalancesForContract d1 = (Inr (), d2)"
    and s: "whenM (st = Finalized) refreshGoldSupply d2 = (Inr (), d')"
    using run unfolding processTokenTransfersErc1155_def by (elim thenM_InrE)
  ultimately have "balances_exact (e_contractAddress t) d2" by (blast intro: refresh_all_effect(2))
  moreover have "token_balances d' = token_balances d2" "token_transfers d' = token_transfers d2"
    using keepsD [OF keeps_when [OF supply_keeps(1)] s] keepsD [OF keeps_when [OF supply_keeps(2)] s] by simp_all
  ultimately show ?thesis by (simp add: balances_exact_def balances_of_def)
qed

section \<open>Clearing a block\<close>

lemma balance_rows_cong: "live_transfers c ts = live_transfers c ts' \<Longrightarrow> balance_rows c ts = balance_rows c ts'"
  by (simp add: balance_rows_def balance_deltas_def)

definition token_part :: "db \<Rightarrow> TokenTransferRow list \<times> TokenBalanceRow list" where
  "token_part d = (token_transfers d, token_balances d)"

lemma token_clearGold: "keeps token_part (clearGoldDerivedRowsForBlock n)"
  unfolding clearGoldDerivedRowsForBlock_def
  by (intro keeps_intros keeps_modify) (simp_all add: token_part_def)

lemma clearEvm_tokens:
  assumes "clearEvmDerivedRowsForBlock n d = (Inr (), d')"
  shows "token_transfers d' = delete_where (\<lambda>r. tt_blockNumber r = JNum n) (token_transfers d)"
    and "token_balances d' = token_balances d"
  using assms by (auto simp: clearEvmDerivedRowsForBlock_def js_simps)

lemma live_delete_other:
  assumes "c \<notin> tt_contractAddress ` {r \<in> set ts. p r}"
  shows "live_transfers c (delete_where p ts) = live_transfers c ts"
  using assms by (induction ts) (auto simp: live_transfers_def delete_where_def image_iff)

lemma clearDerived_exact:
  assumes run: "clearDerivedRowsForBlock n d = (Inr (), d')" and ex: "balances_exact c d"
  shows "balances_exact c d'"
proof -
  let ?p = "\<lambda>r. tt_blockNumber r = JNum n"
  let ?cs = "remdups (map tt_contractAddress (filter ?p (token_transfers d)))"
  let ?d = "d\<lparr>token_transfers := delete_where ?p (token_transfers d)\<rparr>"
  obtain d1 d2 where r: "forM ?cs refreshTokenBalancesForContract ?d = (Inr (), d1)"
    and g: "clearGoldDerivedRowsForBlock n d1 = (Inr (), d2)"
    and e: "clearEvmDerivedRowsForBlock n d2 = (Inr (), d')"
    using run unfolding clearDerivedRowsForBlock_def run_steps by (elim thenM_InrE)
  have "balances_exact c ?d" if "c \<notin> set ?cs"
  proof -
    have "live_transfers c (delete_where ?p (token_transfers d)) = live_transfers c (token_transfers d)"
      using that by (intro live_delete_other) auto
    then have "balance_rows c (delete_where ?p (token_transfers d)) = balance_rows c (token_transfers d)"
      by (rule balance_rows_cong)
    with ex show ?thesis by (simp add: balances_exact_def balances_of_def)
  qed
  then have "c \<in> set ?cs \<or> balances_exact c ?d" by blast
  then have "balances_exact c d1" by (rule refresh_all_effect(2) [OF r])
  moreover have "token_transfers d1 = delete_where ?p (token_transfers d)"
    using refresh_all_effect(1) [OF r] by simp
  then have "token_transfers d' = token_transfers d1" and "token_balances d' = token_balances d1"
    using clearEvm_tokens [OF e] keepsD [OF token_clearGold g]
    by (simp_all add: token_part_def delete_where_def)
  ultimately show ?thesis by (simp add: balances_exact_def balances_of_def)
qed

section \<open>Gold supply\<close>

lemma sum_for_supply_deltas: "sum_for (supply_deltas ts) (Some i) = net_supply i ts"
  by (induction ts) (auto simp: supply_deltas_def net_supply_def Let_def sum_for_Cons sum_for_def)

lemma supply_rows_sum:
  "sum_list (map gs_supply (filter (\<lambda>r. gs_tokenId r = i) (supply_rows ts))) = sum_for (supply_deltas ts) (Some i)"
proof -
  let ?mk = "\<lambda>(k, v). map_option (\<lambda>i. \<lparr>gs_tokenId = i, gs_supply = v\<rparr>) k"
  have "sum_list (map gs_supply (filter (\<lambda>r. gs_tokenId r = i) (List.map_filter ?mk gs))) =
        sum_for gs (Some i)" for gs :: "(numeric option \<times> int) list"
    by (induction gs) (auto simp: List.map_filter_def sum_for_def)
  then show ?thesis unfolding supply_rows_def by (simp only: sum_for_group_sums)
qed

lemma refreshGoldSupply_exact:
  assumes "refreshGoldSupply d = (Inr (), d')"
  shows "supply_at d' i = net_supply i (token_transfers d')"
  using assms unfolding refreshGoldSupply_def run_steps
  by (elim statement_InrE) (simp add: supply_at_def supply_rows_sum sum_for_supply_deltas)

lemma updateFinality_supply:
  assumes "updateFinalityForRange env a b h rf d = (Inr (), d')"
  shows "supply_at d' i = net_supply i (token_transfers d')"
  using assms unfolding updateFinalityForRange_def by (elim thenM_InrE refreshGoldSupply_exact)

lemma indexToHead_last_step:
  assumes "indexToHead env rpc w = (Inr h, w')"
  obtains w2 where "whenM (0 < lastIndexedHead (w_state w'))
      (dbM (updateFinalityForRange env 1 (getBlockNumber rpc) (getBlockNumber rpc) None)) w2 = (Inr (), w')"
proof -
  let ?u = "dbM (updateFinalityForRange env 1 (getBlockNumber rpc) (getBlockNumber rpc) None)"
  obtain w2 where r: "whenM (0 < lastIndexedHead (w_state w2)) ?u w2 = (Inr (), w')"
    using assms unfolding indexToHead_def Let_def run_steps
    by (elim thenM_InrE) (auto simp: run_steps run_simps elim!: thenM_InrE)
  moreover have "w_state w' = w_state w2"
    using r by (rule keepsD [rotated]) (intro keeps_intros)
  ultimately show thesis using that by simp
qed

lemma indexToHead_supply:
  assumes "indexToHead env rpc w = (Inr h, w')" and "0 < lastIndexedHead (w_state w')"
  shows "supply_at (w_db w') i = net_supply i (token_transfers (w_db w'))"
proof (rule indexToHead_last_step [OF assms(1)])
  fix w2
  assume "whenM (0 < lastIndexedHead (w_state w'))
      (dbM (updateFinalityForRange env 1 (getBlockNumber rpc) (getBlockNumber rpc) None)) w2 = (Inr (), w')"
  with assms(2) have "dbM (updateFinalityForRange env 1 (getBlockNumber rpc) (getBlockNumber rpc) None) w2 = (Inr (), w')"
    by (simp add: run_simps)
  then show ?thesis by (rule dbM_InrE) (simp add: updateFinality_supply)
qed

section \<open>Conservation\<close>

definition minted :: "string \<Rightarrow> TokenTransferRow list \<Rightarrow> int" where
  "minted c ts = sum_list (map (\<lambda>r. amount_val (tt_amount r))
     (filter (\<lambda>r. tt_fromAddress r = ZERO_ADDRESS \<and> tt_toAddress r \<noteq> ZERO_ADDRESS) (live_transfers c ts)))"

definition burned :: "string \<Rightarrow> TokenTransferRow list \<Rightarrow> int" where
  "burned c ts = sum_list (map (\<lambda>r. amount_val (tt_amount r))
     (filter (\<lambda>r. tt_toAddress r = ZERO_ADDRESS \<and> tt_fromAddress r \<noteq> ZERO_ADDRESS) (live_transfers c ts)))"

lemma sum_balance_deltas: "sum_list (map snd (balance_deltas c ts)) = minted c ts - burned c ts"
proof (induction ts)
  case (Cons r ts)
  then show ?case
    by (cases "tt_fromAddress r = ZERO_ADDRESS"; cases "tt_toAddress r = ZERO_ADDRESS")
       (simp_all add: balance_deltas_def minted_def burned_def live_transfers_def)
qed (simp add: balance_deltas_def minted_def burned_def live_transfers_def)

lemma balances_total:
  assumes "balances_exact c d"
  shows "sum_list (map tb_balance (balances_of c d)) = minted c (token_transfers d) - burned c (token_transfers d)"
  using assms by (simp add: balances_exact_def balance_rows_total sum_balance_deltas)

end
