(* ===== verification/Samples.thy ===== *)
theory Samples
  imports TokenFacts
begin

text \<open>
  A small recorded chain on which the properties of the indexer are instantiated: one block,
  the chain after a reorganisation that replaced it, and the
  first chain grown by a second block.  A log with
  one ERC-20 transfer stands for the data of the token jobs; two versions of a block with a transaction
  and a log each stand for what a replaced block leaves.
\<close>

definition sample_env :: "string option" where
  "sample_env = Some ''1''"

definition sample_block :: "string \<Rightarrow> string \<Rightarrow> string \<Rightarrow> RpcTransaction list \<Rightarrow> RpcBlock" where
  "sample_block number hash parent txs = \<lparr>rb_number = number, rb_hash = hash, rb_parentHash = parent,
     rb_timestamp = ''0x10'', rb_miner = ''0xee'', rb_gasUsed = ''0x0'', rb_gasLimit = ''0x1'',
     rb_transactions = txs\<rparr>"

definition sample_topic :: "char \<Rightarrow> string" where
  "sample_topic c = ''0x'' @ replicate 64 c"

definition sample_log :: RpcLog where
  "sample_log = \<lparr>rl_transactionHash = ''0xt1'', rl_blockNumber = ''0x1'', rl_address = ''0xc0'',
     rl_topics = [TRANSFER_TOPIC, sample_topic CHR ''0'', sample_topic CHR ''1''],
     rl_data = ''0x5'', rl_logIndex = ''0x0''\<rparr>"

definition sample_client :: "int \<Rightarrow> (int \<times> RpcBlock) list \<Rightarrow> RpcClient" where
  "sample_client head bs = \<lparr>getBlockNumber = head, getBlockByNumber = map_of bs,
     getTransactionReceipt = (\<lambda>_. None), getTransactionTraces = (\<lambda>_. [])\<rparr>"

definition chain_a :: RpcClient where
  "chain_a = sample_client 1 [(1, sample_block ''0x1'' ''0xh1'' ''0xh0'' [])]"

definition chain_b :: RpcClient where
  "chain_b = sample_client 1 [(1, sample_block ''0x1'' ''0xg1'' ''0xh0'' [])]"

definition chain_c :: RpcClient where
  "chain_c = sample_client 2
     [(1, sample_block ''0x1'' ''0xh1'' ''0xh0'' []), (2, sample_block ''0x2'' ''0xh2'' ''0xh1'' [])]"

definition sample_start :: world where
  "sample_start = \<lparr>w_db = empty_db, w_state = createIndexerState, w_feed = []\<rparr>"

definition row_a :: BlockRow where
  "row_a = \<lparr>blk_number = 1, blk_hash = ''0xh1'', blk_parentHash = ''0xh0'', blk_timestamp = DateMs 16000,
     blk_validatorAddress = ''0xee'', blk_gasUsed = 0, blk_gasLimit = 1, blk_finalityStatus = Pending\<rparr>"

definition world_a :: world where
  "world_a = \<lparr>w_db = empty_db\<lparr>blocks := [row_a]\<rparr>,
     w_state = \<lparr>tracker = \<lparr>indexed = [1]\<rparr>, lastIndexedHead = 1\<rparr>,
     w_feed = [BlockEvent ''1'' ''0xh1'' ''0x10'' Pending]\<rparr>"

definition row_c :: BlockRow where
  "row_c = \<lparr>blk_number = 2, blk_hash = ''0xh2'', blk_parentHash = ''0xh1'', blk_timestamp = DateMs 16000,
     blk_validatorAddress = ''0xee'', blk_gasUsed = 0, blk_gasLimit = 1, blk_finalityStatus = Pending\<rparr>"

definition world_c :: world where
  "world_c = \<lparr>w_db = empty_db\<lparr>blocks := [row_a\<lparr>blk_finalityStatus := Finalized\<rparr>, row_c]\<rparr>,
     w_state = \<lparr>tracker = \<lparr>indexed = [2, 1]\<rparr>, lastIndexedHead = 2\<rparr>,
     w_feed = [BlockEvent ''1'' ''0xh1'' ''0x10'' Pending, BlockEvent ''2'' ''0xh2'' ''0x10'' Pending]\<rparr>"

text \<open>A database with one block and one transaction, for the jobs.\<close>

definition sample_tx_row :: TransactionRow where
  "sample_tx_row = \<lparr>tx_hash = ''0xt1'', tx_blockNumber = JNum 1, tx_fromAddress = ''0xaa'', tx_toAddress = None,
     tx_value = ''0'', tx_gas = 1, tx_gasPrice = None, tx_maxFeePerGas = None, tx_maxPriorityFeePerGas = None,
     tx_input = ''0x'', tx_nonce = 0, tx_transactionIndex = JNum 0, tx_status = JNum 1,
     tx_finalityStatus = Pending\<rparr>"

definition sample_db :: db where
  "sample_db = empty_db\<lparr>blocks := [row_a], transactions := [sample_tx_row], addresses := [''0xaa'']\<rparr>"

definition world_b :: world where
  "world_b = snd (indexToHead sample_env chain_b world_a)"

lemma chain_a_ok: "chain_ok chain_a"
  by code_simp

lemma chain_b_ok: "chain_ok chain_b"
  by code_simp

lemma chain_c_ok: "chain_ok chain_c"
  by code_simp

lemma sample_depth: "getConfirmationDepth sample_env = Inr 1"
  by code_simp

lemma run_a: "indexToHead sample_env chain_a sample_start = (Inr 1, world_a)"
  by code_simp

lemma run_b: "indexToHead sample_env chain_b world_a = (Inr 1, world_b)"
proof -
  have "fst (indexToHead sample_env chain_b world_a) = Inr 1"
    by code_simp
  then show ?thesis by (simp add: world_b_def prod_eq_iff)
qed

section \<open>A second block, step by step\<close>

definition db_c :: db where
  "db_c = empty_db\<lparr>blocks := [row_a, row_c]\<rparr>"

lemma missing_c: "getMissingRanges (tracker (w_state world_a)) 2 = [\<lparr>rng_from = 2, rng_to = 2\<rparr>]"
  by code_simp

lemma block_c: "processBlock sample_env chain_c 2 2 world_a = (Inr True, world_c\<lparr>w_db := db_c\<rparr>)"
  by code_simp

lemma no_reorg_c: "find_reorg chain_c 2 db_c = None"
  by code_simp

definition finality_step :: "int \<Rightarrow> (db, unit) js" where
  "finality_step n = bindM (liftS (finalityStatusForBlockNumber sample_env n 2 None)) (\<lambda>status.
     thenM (updateEvmFinalityForBlock n status) (updateGoldFinalityForBlock n status))"

lemma finality_steps:
  "finality_step 1 db_c = (Inr (), w_db world_c)"
  "finality_step 2 (w_db world_c) = (Inr (), w_db world_c)"
  "refreshGoldSupply (w_db world_c) = (Inr (), w_db world_c)"
  by code_simp+

lemma finality_c: "updateFinalityForRange sample_env 1 2 2 None db_c = (Inr (), w_db world_c)"
proof -
  have "range_list 1 2 = [1, 2]" by code_simp
  then show ?thesis
    unfolding updateFinalityForRange_def finality_step_def [symmetric]
    by (simp add: js_simps finality_steps)
qed

lemma run_c: "indexToHead sample_env chain_c world_a = (Inr 2, world_c)"
proof -
  have head: "getBlockNumber chain_c = 2" by (simp add: chain_c_def sample_client_def)
  have r: "range_list 2 2 = [2]" "range_list 3 2 = []" by code_simp+
  have last: "lastIndexedHead (w_state world_c) = 2" by (simp add: world_c_def)
  have up: "dbM (updateFinalityForRange sample_env 1 2 2 None) (world_c\<lparr>w_db := db_c\<rparr>) = (Inr (), world_c)"
    by (simp add: dbM_def js_simps finality_c)
  show ?thesis
    by (simp add: indexToHead_def head missing_c process_range_def r js_simps last no_reorg_c block_c up)
qed

section \<open>A block with a transaction, and its replacement\<close>

text \<open>
  Two versions of the first block: one transaction each, whose log is anonymous in the first version and an
  ERC-20 transfer in the second.  The second version replaces the first: its transaction is stored and the one of
  the first version is reverted.
\<close>

definition sample_tx :: "string \<Rightarrow> RpcTransaction" where
  "sample_tx hash = \<lparr>rt_hash = hash, rt_blockNumber = ''0x1'', rt_from = ''0xaa'', rt_to = Some ''0xc0'', rt_value = ''0x7'',
     rt_gas = ''0x1'', rt_gasPrice = Some ''0x2'', rt_maxFeePerGas = None, rt_maxPriorityFeePerGas = None,
     rt_input = ''0x'', rt_nonce = ''0x0'', rt_transactionIndex = ''0x0''\<rparr>"

definition sample_receipt :: "string \<Rightarrow> string list \<Rightarrow> RpcReceipt" where
  "sample_receipt hash topics = \<lparr>rr_transactionHash = hash, rr_blockNumber = ''0x1'', rr_cumulativeGasUsed = ''0x1'',
     rr_gasUsed = ''0x1'', rr_contractAddress = None, rr_status = ''0x1'', rr_logsBloom = ''0x0'',
     rr_logs = [sample_log\<lparr>rl_transactionHash := hash, rl_topics := topics\<rparr>]\<rparr>"

definition chain_with :: "string \<Rightarrow> string \<Rightarrow> string list \<Rightarrow> RpcClient" where
  "chain_with hash tx topics = \<lparr>getBlockNumber = 1,
     getBlockByNumber = map_of [(1, sample_block ''0x1'' hash ''0xh0'' [sample_tx tx])],
     getTransactionReceipt = map_of [(tx, sample_receipt tx topics)], getTransactionTraces = (\<lambda>_. [])\<rparr>"

definition sample_holder :: string where
  "sample_holder = ''0x'' @ replicate 40 CHR ''1''"

definition stored_tx :: "string \<Rightarrow> FinalityStatus \<Rightarrow> TransactionRow" where
  "stored_tx hash st = \<lparr>tx_hash = hash, tx_blockNumber = JNum 1, tx_fromAddress = ''0xaa'', tx_toAddress = Some ''0xc0'',
     tx_value = ''7'', tx_gas = 1, tx_gasPrice = Some ''2'', tx_maxFeePerGas = None, tx_maxPriorityFeePerGas = None,
     tx_input = ''0x'', tx_nonce = 0, tx_transactionIndex = JNum 0, tx_status = JNum 1, tx_finalityStatus = st\<rparr>"

definition stored_receipt :: "string \<Rightarrow> ReceiptRow" where
  "stored_receipt hash = \<lparr>rcpt_transactionHash = hash, rcpt_cumulativeGasUsed = 1, rcpt_gasUsed = 1,
     rcpt_contractAddress = None, rcpt_status = JNum 1, rcpt_logsBloom = ''0x0''\<rparr>"

definition events_of :: "string \<Rightarrow> string \<Rightarrow> LiveFeedEvent list" where
  "events_of hash tx = [BlockEvent ''1'' hash ''0x10'' Pending, TxEvent tx ''1'' ''0xaa'' ''0xc0'' ''7'' Pending]"

definition chain_t :: RpcClient where
  "chain_t = chain_with ''0xk1'' ''0xt1'' []"

definition world_t :: world where
  "world_t = \<lparr>
     w_db = empty_db\<lparr>blocks := [row_a\<lparr>blk_hash := ''0xk1''\<rparr>], transactions := [stored_tx ''0xt1'' Pending],
       receipts := [stored_receipt ''0xt1''], logs := [log_row Pending (sample_log\<lparr>rl_topics := []\<rparr>)],
       addresses := [''0xc0'', ''0xaa''], contracts := [\<lparr>c_address = ''0xc0'', c_bytecode = None\<rparr>]\<rparr>,
     w_state = \<lparr>tracker = \<lparr>indexed = [1]\<rparr>, lastIndexedHead = 1\<rparr>, w_feed = events_of ''0xk1'' ''0xt1''\<rparr>"

definition chain_u :: RpcClient where
  "chain_u = chain_with ''0xm1'' ''0xt2'' (rl_topics sample_log)"

definition world_u :: world where
  "world_u = \<lparr>
     w_db = empty_db\<lparr>blocks := [row_a\<lparr>blk_hash := ''0xm1''\<rparr>],
       transactions := [stored_tx ''0xt1'' Reverted, stored_tx ''0xt2'' Pending], receipts := [stored_receipt ''0xt2''],
       logs := [log_row Pending (sample_log\<lparr>rl_transactionHash := ''0xt2''\<rparr>)],
       addresses := [sample_holder, ZERO_ADDRESS, ''0xc0'', ''0xaa''],
       contracts := [\<lparr>c_address = ''0xc0'', c_bytecode = None\<rparr>],
       token_contracts := [\<lparr>tc_address = ''0xc0'', tc_type = Erc20, tc_name = None, tc_symbol = None, tc_decimals = None\<rparr>],
       token_transfers := [\<lparr>tt_blockNumber = JNum 1, tt_transactionHash = ''0xt2'', tt_contractAddress = ''0xc0'',
                            tt_fromAddress = ZERO_ADDRESS, tt_toAddress = sample_holder, tt_tokenStandard = Erc20,
                            tt_tokenId = None, tt_amount = ''5'', tt_logIndex = JNum 0, tt_finalityStatus = Pending\<rparr>],
       token_balances := [\<lparr>tb_address = sample_holder, tb_contractAddress = ''0xc0'', tb_tokenId = NumInt 0, tb_balance = 5\<rparr>]\<rparr>,
     w_state = w_state world_t, w_feed = w_feed world_t @ events_of ''0xm1'' ''0xt2''\<rparr>"

lemma process_t: "processBlock sample_env chain_t 1 1 sample_start = (Inr True, world_t)"
  by code_simp

lemma process_u: "processBlock sample_env chain_u 1 1 world_t = (Inr True, world_u)"
  by code_simp

definition block_with :: "string \<Rightarrow> string \<Rightarrow> RpcBlock" where
  "block_with hash tx = sample_block ''0x1'' hash ''0xh0'' [sample_tx tx]"

lemma chain_u_block: "getBlockByNumber chain_u 1 = Some (block_with ''0xm1'' ''0xt2'')"
  by (simp add: chain_u_def chain_with_def block_with_def)

lemma block_with_number: "parseInt 16 (rb_number (block_with hash tx)) = JNum 1"
proof -
  have "rb_number (block_with hash tx) = ''0x1''" by (simp add: block_with_def sample_block_def)
  moreover have "parseInt 16 ''0x1'' = JNum 1" by code_simp
  ultimately show ?thesis by simp
qed

lemma block_with_txs: "rb_transactions (block_with hash tx) = [sample_tx tx]"
  by (simp add: block_with_def sample_block_def)

lemma chain_u_receipt:
  "getTransactionReceipt chain_u h = Some r \<Longrightarrow> h = ''0xt2'' \<and> r = sample_receipt ''0xt2'' (rl_topics sample_log)"
  by (simp add: chain_u_def chain_with_def split: if_splits)

lemma sample_tx_hash: "rt_hash (sample_tx h) = h"
  by (simp add: sample_tx_def)

lemma sample_receipt_logs:
  "l \<in> set (rr_logs (sample_receipt h topics)) \<Longrightarrow> rl_transactionHash l = h \<and> hexToNumber (rl_blockNumber l) = JNum 1"
proof -
  have "hexToNumber ''0x1'' = JNum 1" by code_simp
  then show "l \<in> set (rr_logs (sample_receipt h topics)) \<Longrightarrow> ?thesis" by (simp add: sample_receipt_def sample_log_def)
qed

end
