(* ===== verification/IndexerProps.thy ===== *)
theory IndexerProps
  imports Samples
begin

text \<open>
  The properties of the indexer: what a sequence of calls of \<^verbatim>\<open>indexToHead\<close> leaves in
  the database, what one processed block leaves, the aggregates, the fan-out, and the decoding
  of events.  Each property follows from the lemmas of the component theories.
\<close>

section \<open>Worlds the indexer reaches\<close>

text \<open>
  Calls of \<^verbatim>\<open>indexToHead\<close> that return, each against a node that answers with a chain (which
  may differ from the chain of the call before), starting from a new indexer on any database.
\<close>

inductive followed :: "world \<Rightarrow> bool" where
  followed_start: "followed \<lparr>w_db = d, w_state = createIndexerState, w_feed = feed\<rparr>"
| followed_call: "followed w \<Longrightarrow> chain_ok rpc \<Longrightarrow> getConfirmationDepth env = Inr depth \<Longrightarrow>
    indexToHead env rpc w = (Inr h, w') \<Longrightarrow> followed w'"

text \<open>Any calls against any node, whether they return or throw, starting from the empty schema.\<close>

inductive reached :: "world \<Rightarrow> bool" where
  reached_start: "reached \<lparr>w_db = empty_db, w_state = createIndexerState, w_feed = []\<rparr>"
| reached_head: "reached w \<Longrightarrow> reached (snd (indexToHead env rpc w))"
| reached_blocks: "reached w \<Longrightarrow> reached (snd (indexBlockNumbers env rpc ns w))"
| reached_block: "reached w \<Longrightarrow> reached (snd (processBlock env rpc n head w))"

inductive_cases followedE: "followed w"

lemma followed_synced: "followed w \<Longrightarrow> synced w"
proof (induction rule: followed.induct)
  case (followed_start d feed)
  then show ?case by (simp add: synced_def createIndexerState_def new_tracker_def)
next
  case (followed_call w rpc env depth h w')
  then show ?case by (blast intro: indexToHead_effect(2))
qed

lemma followed_a: "followed world_a"
proof -
  have "followed sample_start" unfolding sample_start_def by (rule followed_start)
  then show ?thesis by (rule followed_call [OF _ chain_a_ok sample_depth run_a])
qed

section \<open>The block table\<close>

text \<open>
  C1. A call of \<^verbatim>\<open>indexToHead\<close> that returns has caught up with the node: it returns the
  node's head, and every height from 1 to the head has a stored block with the node's hash that
  is not reverted, pending while it is less than the confirmation depth below the head and
  finalized otherwise.  This holds after any number of earlier calls and reorganisations, and
  after a restart on a database that holds anything.
\<close>

theorem indexToHead_converges:
  assumes "followed w" and "chain_ok rpc" and "getConfirmationDepth env = Inr depth"
    and "indexToHead env rpc w = (Inr h, w')"
  shows "h = getBlockNumber rpc \<and> (\<forall>n. 1 \<le> n \<and> n \<le> h \<longrightarrow>
    (\<exists>row. block_at (w_db w') n = Some row \<and> blk_hash row = node_hash rpc n \<and>
       blk_finalityStatus row = (if h - n < depth then Pending else Finalized)))"
  using indexToHead_effect(1,3) [OF followed_synced [OF assms(1)] assms(2-4)]
  unfolding depth_status_def by blast

theorem indexToHead_converges_witness:
  "\<exists>row. block_at (w_db world_b) 1 = Some row \<and> blk_hash row = ''0xg1'' \<and> blk_finalityStatus row = Pending"
proof -
  have "node_hash chain_b 1 = ''0xg1''"
    by (simp add: node_hash_def chain_b_def sample_client_def sample_block_def)
  then show ?thesis
    using indexToHead_converges [OF followed_a chain_b_ok sample_depth run_b, THEN conjunct2, rule_format, of 1]
    by simp
qed

text \<open>
  The schema invariant (unique keys, foreign keys, checks) holds in every database the indexer
  can leave behind, after calls that return and after calls that throw half-way, whatever the node
  answers.
\<close>

theorem reached_db_wf:
  assumes "reached w"
  shows "db_wf (w_db w)"
  using assms
proof (induction rule: reached.induct)
  case reached_start
  then show ?case by (simp add: empty_db_wf)
next
  case (reached_head w env rpc)
  then show ?case using preservesD [OF preserves_indexToHead] by (simp add: world_wf_def)
next
  case (reached_blocks w env rpc ns)
  then show ?case using preservesD [OF preserves_indexBlockNumbers] by (simp add: world_wf_def)
next
  case (reached_block w env rpc n head)
  then show ?case using preservesD [OF preserves_processBlock] by (simp add: world_wf_def)
qed

theorem reached_db_wf_witness: "db_wf (w_db world_b)"
proof -
  have "reached sample_start" unfolding sample_start_def by (rule reached_start)
  then have "reached world_a" using reached_head [of sample_start sample_env chain_a] by (simp add: run_a)
  then have "reached world_b" unfolding world_b_def by (rule reached_head)
  then show ?thesis by (rule reached_db_wf)
qed

text \<open>
  When the node's chain is shorter than before, the rows of the heights above the new head are
  left exactly as they were: a call that returns neither reverts nor removes them.
\<close>

theorem indexToHead_keeps_above_head:
  assumes "followed w" and "chain_ok rpc" and "getConfirmationDepth env = Inr depth"
    and "indexToHead env rpc w = (Inr h, w')" and "1 \<le> h" and "h < n" and "n \<le> lastIndexedHead (w_state w)"
  shows "block_at (w_db w') n = block_at (w_db w) n"
  by (rule indexToHead_effect(4) [OF followed_synced [OF assms(1)] assms(2-7)])

lemma run_d: "fst (indexToHead sample_env chain_a world_c) = Inr 1"
  by code_simp

lemma followed_c: "followed world_c"
  by (rule followed_call [OF followed_a chain_c_ok sample_depth run_c])

theorem indexToHead_keeps_above_head_witness:
  "block_at (w_db (snd (indexToHead sample_env chain_a world_c))) 2 = block_at (w_db world_c) 2"
proof -
  have "indexToHead sample_env chain_a world_c = (Inr 1, snd (indexToHead sample_env chain_a world_c))"
    using run_d by (simp add: prod_eq_iff)
  then show ?thesis
    by (rule indexToHead_keeps_above_head [OF followed_c chain_a_ok sample_depth]) (simp_all add: world_c_def)
qed

section \<open>What one block leaves behind\<close>

text \<open>
  C3. After a block was processed, the log rows of its height are exactly the logs the node reports
  for its transactions, in order and once each, with the block's finality: whatever an earlier
  version of the block, or an earlier pass over it, had left there is gone.
\<close>

theorem processBlock_logs_exact:
  assumes "getBlockByNumber rpc n = Some b" and "parseInt 16 (rb_number b) = JNum n"
    and "getConfirmationDepth env = Inr depth"
    and "\<forall>tx \<in> set (rb_transactions b). \<forall>r. getTransactionReceipt rpc (rt_hash tx) = Some r \<longrightarrow>
      (\<forall>l \<in> set (rr_logs r). hexToNumber (rl_blockNumber l) = JNum n)"
    and "processBlock env rpc n head w = (Inr x, w')"
  shows "filter (\<lambda>r. log_blockNumber r = JNum n) (logs (w_db w')) =
    node_logs rpc (if head - n < depth then Pending else Finalized) (rb_transactions b)"
proof -
  let ?new = "node_logs rpc (depth_status depth head n) (rb_transactions b)"
  obtain old where l: "logs (w_db w') = old @ ?new" and o: "\<forall>r \<in> set old. log_blockNumber r \<noteq> JNum n"
    by (rule processBlock_logs [OF assms(5,1,2,3)])
  have "filter (\<lambda>r. log_blockNumber r = JNum n) old = []" using o by (simp add: filter_empty_conv)
  moreover have "filter (\<lambda>r. log_blockNumber r = JNum n) ?new = ?new"
  proof (rule filter_True, rule ballI)
    fix r
    assume "r \<in> set ?new"
    then obtain tx rc l where "tx \<in> set (rb_transactions b)" "getTransactionReceipt rpc (rt_hash tx) = Some rc"
      "l \<in> set (rr_logs rc)" and r: "r = log_row (depth_status depth head n) l"
      by (auto simp: node_logs_def split: option.splits dest: sym)
    with assms(4) have "hexToNumber (rl_blockNumber l) = JNum n" by blast
    then show "log_blockNumber r = JNum n" by (simp add: r log_row_def)
  qed
  ultimately show ?thesis using l by (simp add: depth_status_def)
qed

text \<open>
  C4. After a block was processed, each of its transactions is stored with the row computed from the
  node's answer, and every stored transaction of that height the block does not contain is reverted.
\<close>

theorem processBlock_transactions_exact:
  assumes "getBlockByNumber rpc n = Some b" and "getConfirmationDepth env = Inr depth"
    and "distinct (map rt_hash (rb_transactions b))" and "processBlock env rpc n head w = (Inr x, w')"
  shows "(\<forall>tx \<in> set (rb_transactions b). \<exists>row.
       tx_row rpc n tx (if head - n < depth then Pending else Finalized) = Inr row \<and>
       row \<in> set (transactions (w_db w'))) \<and>
     (\<forall>r \<in> set (transactions (w_db w')). tx_blockNumber r = JNum n \<and>
       tx_hash r \<notin> rt_hash ` set (rb_transactions b) \<longrightarrow> tx_finalityStatus r = Reverted)"
  using processBlock_transactions [OF assms(4,1,2,3)] unfolding depth_status_def by blast

theorem processBlock_logs_exact_witness:
  "filter (\<lambda>r. log_blockNumber r = JNum 1) (logs (w_db world_u)) =
     [log_row Pending (sample_log\<lparr>rl_transactionHash := ''0xt2''\<rparr>)]
   \<and> logs (w_db world_t) = [log_row Pending (sample_log\<lparr>rl_topics := []\<rparr>)]"
proof -
  have "node_logs chain_u Pending [sample_tx ''0xt2''] = [log_row Pending (sample_log\<lparr>rl_transactionHash := ''0xt2''\<rparr>)]"
    by (simp add: node_logs_def sample_tx_hash chain_u_def chain_with_def sample_receipt_def)
  moreover have "\<forall>tx \<in> set (rb_transactions (block_with ''0xm1'' ''0xt2'')). \<forall>r. getTransactionReceipt chain_u (rt_hash tx) = Some r \<longrightarrow>
      (\<forall>l \<in> set (rr_logs r). hexToNumber (rl_blockNumber l) = JNum 1)"
    using sample_receipt_logs chain_u_receipt by blast
  ultimately show ?thesis
    using processBlock_logs_exact [OF chain_u_block block_with_number sample_depth _ process_u]
    by (simp add: block_with_txs world_t_def)
qed

theorem processBlock_transactions_exact_witness:
  "(\<exists>row. tx_row chain_u 1 (sample_tx ''0xt2'') Pending = Inr row \<and> row \<in> set (transactions (w_db world_u)))
   \<and> (\<exists>r. r \<in> set (transactions (w_db world_u)) \<and> tx_hash r = ''0xt1'' \<and> tx_finalityStatus r = Reverted)
   \<and> transactions (w_db world_t) = [stored_tx ''0xt1'' Pending]"
proof -
  have d: "distinct (map rt_hash (rb_transactions (block_with ''0xm1'' ''0xt2'')))" by (simp add: block_with_txs)
  note both = processBlock_transactions_exact [OF chain_u_block sample_depth d process_u, unfolded block_with_txs]
  have r: "stored_tx ''0xt1'' Reverted \<in> set (transactions (w_db world_u))" "tx_hash (stored_tx ''0xt1'' Reverted) = ''0xt1''"
    "tx_blockNumber (stored_tx ''0xt1'' Reverted) = JNum 1"
    by (simp_all add: world_u_def stored_tx_def)
  then have "tx_finalityStatus (stored_tx ''0xt1'' Reverted) = Reverted" using both by (simp add: sample_tx_hash)
  with r both show ?thesis by (auto simp: world_t_def)
qed

section \<open>Balances and supply\<close>

text \<open>
  C5. After the ERC-20/ERC-721 job returns, the balance of every holder of a contract that had a
  transfer in it is what the contract's transfers that are not reverted brought in less what they
  took out, per token id; a holder with no row has balance 0.
\<close>

theorem erc20_balances_exact:
  assumes "processTokenTransfersErc20Erc721 ls st d = (Inr (), d')" and "log \<in> set ls"
    and "topic0_is log TRANSFER_TOPIC" and "length (rl_topics log) = 3 \<or> length (rl_topics log) = 4"
    and "a \<noteq> ZERO_ADDRESS"
  shows "balance_at d' (rl_address log) a i = net_transfers (rl_address log) a i (token_transfers d')"
  by (rule balances_exact_at [OF erc20_exact [OF assms(1-4)] assms(5)])

lemma erc20_run: "fst (processTokenTransfersErc20Erc721 [sample_log] Pending sample_db) = Inr ()"
  by code_simp

lemma sample_log_transfer: "topic0_is sample_log TRANSFER_TOPIC" "length (rl_topics sample_log) = 3"
  by code_simp+

theorem erc20_balances_exact_witness:
  "balance_at (snd (processTokenTransfersErc20Erc721 [sample_log] Pending sample_db)) ''0xc0'' sample_holder (NumInt 0) = 5"
proof -
  let ?d = "snd (processTokenTransfersErc20Erc721 [sample_log] Pending sample_db)"
  have "processTokenTransfersErc20Erc721 [sample_log] Pending sample_db = (Inr (), ?d)"
    using erc20_run by (simp add: prod_eq_iff)
  moreover have "sample_holder \<noteq> ZERO_ADDRESS" by code_simp
  ultimately have "balance_at ?d (rl_address sample_log) sample_holder (NumInt 0) =
      net_transfers (rl_address sample_log) sample_holder (NumInt 0) (token_transfers ?d)"
    using erc20_balances_exact [of "[sample_log]" Pending sample_db ?d sample_log sample_holder "NumInt 0"]
      sample_log_transfer by simp
  moreover have "net_transfers ''0xc0'' sample_holder (NumInt 0) (token_transfers ?d) = 5" by code_simp
  ultimately show ?thesis by (simp add: sample_log_def)
qed

text \<open>
  C6. After the ERC-1155 job returns, the balances of every contract it decoded a transfer of are
  exact in the same sense, and they add up to what was minted less what was burned.
\<close>

theorem erc1155_balances_exact:
  assumes "processTokenTransfersErc1155 ls st d = (Inr (), d')" and "log \<in> set ls"
    and "decodeErc1155 log = Inr ts" and "t \<in> set ts"
  shows "(a \<noteq> ZERO_ADDRESS \<longrightarrow> balance_at d' (e_contractAddress t) a i =
      net_transfers (e_contractAddress t) a i (token_transfers d')) \<and>
    sum_list (map tb_balance (balances_of (e_contractAddress t) d')) =
      minted (e_contractAddress t) (token_transfers d') - burned (e_contractAddress t) (token_transfers d')"
  using balances_exact_at balances_total erc1155_exact [OF assms] by blast

definition sample_single :: RpcLog where
  "sample_single = \<lparr>rl_transactionHash = ''0xt1'', rl_blockNumber = ''0x1'', rl_address = ''0xc1'',
     rl_topics = [TRANSFER_SINGLE_TOPIC, sample_topic CHR ''9'', sample_topic CHR ''0'', sample_topic CHR ''1''],
     rl_data = abiEncodeStatic [1, 7], rl_logIndex = ''0x0''\<rparr>"

lemma erc1155_run: "fst (processTokenTransfersErc1155 [sample_single] Pending sample_db) = Inr ()"
  by code_simp

definition sample_transfer :: Erc1155Transfer where
  "sample_transfer = \<lparr>e_blockNumber = JNum 1, e_transactionHash = ''0xt1'', e_contractAddress = ''0xc1'',
     e_fromAddress = ZERO_ADDRESS, e_toAddress = sample_holder, e_tokenId = ''1'', e_amount = ''7'',
     e_logIndex = JNum 0\<rparr>"

lemma erc1155_decode: "decodeErc1155 sample_single = Inr [sample_transfer]"
  by code_simp

theorem erc1155_balances_exact_witness:
  "sum_list (map tb_balance (balances_of ''0xc1''
     (snd (processTokenTransfersErc1155 [sample_single] Pending sample_db)))) = 7"
proof -
  let ?d = "snd (processTokenTransfersErc1155 [sample_single] Pending sample_db)"
  have "processTokenTransfersErc1155 [sample_single] Pending sample_db = (Inr (), ?d)"
    using erc1155_run by (simp add: prod_eq_iff)
  then have "sum_list (map tb_balance (balances_of ''0xc1'' ?d)) =
      minted ''0xc1'' (token_transfers ?d) - burned ''0xc1'' (token_transfers ?d)"
    using erc1155_balances_exact [OF _ _ erc1155_decode, of "[sample_single]" Pending sample_db ?d sample_transfer]
    by (simp add: sample_transfer_def)
  moreover have "minted ''0xc1'' (token_transfers ?d) - burned ''0xc1'' (token_transfers ?d) = 7" by code_simp
  ultimately show ?thesis by simp
qed

text \<open>
  Clearing the rows of a block before it is indexed again keeps the balances of every contract
  exact: those of the contracts that lose transfers are recomputed, the others are not touched.
\<close>

theorem clearDerived_keeps_balances_exact:
  assumes "clearDerivedRowsForBlock n d = (Inr (), d')" and "balances_exact c d"
  shows "balances_exact c d'"
  by (rule clearDerived_exact [OF assms])

theorem clearDerived_keeps_balances_exact_witness:
  "balances_exact ''0xc0'' (snd (clearDerivedRowsForBlock 1 sample_db))"
proof -
  have "fst (clearDerivedRowsForBlock 1 sample_db) = Inr ()" by code_simp
  then have "clearDerivedRowsForBlock 1 sample_db = (Inr (), snd (clearDerivedRowsForBlock 1 sample_db))"
    by (simp add: prod_eq_iff)
  moreover have "balances_exact ''0xc0'' sample_db" by code_simp
  ultimately show ?thesis by (rule clearDerived_keeps_balances_exact)
qed

text \<open>
  C7. After every call of \<^verbatim>\<open>indexToHead\<close> that returns, once a block is indexed, the gold
  supply of each token id is what its finalized ERC-1155 transfers minted less what they burned.
\<close>

theorem gold_supply_exact:
  assumes "indexToHead env rpc w = (Inr h, w')" and "0 < lastIndexedHead (w_state w')"
  shows "supply_at (w_db w') i = net_supply i (token_transfers (w_db w'))"
  by (rule indexToHead_supply [OF assms])

theorem gold_supply_exact_witness: "supply_at (w_db world_a) (NumInt 1) = 0"
proof -
  have "0 < lastIndexedHead (w_state world_a)" by (simp add: world_a_def)
  then have "supply_at (w_db world_a) (NumInt 1) = net_supply (NumInt 1) (token_transfers (w_db world_a))"
    by (rule gold_supply_exact [OF run_a])
  then show ?thesis by (simp add: world_a_def empty_db_def net_supply_def)
qed

end
