(* ===== verification/ApiBase.thy ===== *)
theory ApiBase
  imports IndexerFacts "HOL-Library.Char_ord" "HOL-Library.List_Lexorder" "HOL-Library.Product_Lexorder"
begin

text \<open>
  What the handlers of \<^verbatim>\<open>packages/api/src\<close> share: query parameters, \<^verbatim>\<open>validate.ts\<close>, the two
  \<^verbatim>\<open>parsePagination\<close>, JSON values, and the reading side of the database the indexer writes.
  A handler is a function of the parameters and the database that returns or throws.
  What belongs to the database server is the record \<open>Pg\<close>, a parameter of the handlers: the sort key of
  its collation (\<open>ORDER BY\<close> on a text column compares these keys), the reading of a text bound to a
  \<^verbatim>\<open>numeric\<close> column (\<open>None\<close> for a value that is no integer), the messages of its errors and the ids
  its sequences gave to the rows of a table, in the order of insertion.
  The lemmas: what validation returns, the range of the page arguments, and that consecutive
  pages put together are the whole list.
\<close>

section \<open>Definitions\<close>

subsection \<open>Query parameters and JSON\<close>

text \<open>\<^verbatim>\<open>URLSearchParams\<close>: the pairs in order; \<^verbatim>\<open>get\<close> returns the first value.\<close>

type_synonym params = "(string \<times> string) list"

definition param :: "params \<Rightarrow> string \<Rightarrow> string option" where
  "param ps k = map_of ps k"

text \<open>A number that is no integer is kept as its text.\<close>

datatype json =
    JsNull
  | JsBool bool
  | JsNumber jsnum
  | JsFraction string
  | JsString string
  | JsArray "json list"
  | JsObject "(string \<times> json) list"

subsection \<open>validate.ts\<close>

definition MAX_QUERY_BYTES :: nat where
  "MAX_QUERY_BYTES = 4096"

record Url =
  url_pathname :: string
  url_search :: string
  url_searchParams :: params

definition isOversizedQuery :: "Url \<Rightarrow> bool" where
  "isOversizedQuery url \<longleftrightarrow> MAX_QUERY_BYTES < length (url_search url)"

definition lower_hex :: "char \<Rightarrow> bool" where
  "lower_hex c \<longleftrightarrow> (let n = (of_char c :: nat) in (48 \<le> n \<and> n \<le> 57) \<or> (97 \<le> n \<and> n \<le> 102))"

definition isHexAddress :: "string \<Rightarrow> bool" where
  "isHexAddress v \<longleftrightarrow>
     (let t = toLowerCase v in startsWith t ''0x'' \<and> length t = 42 \<and> list_all lower_hex (drop 2 t))"

definition isHexHash :: "string \<Rightarrow> bool" where
  "isHexHash v \<longleftrightarrow>
     (let t = toLowerCase v in startsWith t ''0x'' \<and> 2 < length t \<and> list_all lower_hex (drop 2 t))"

definition trim_lower :: "string option \<Rightarrow> string option" where
  "trim_lower v = map_option (\<lambda>s. toLowerCase (js_trim s)) v"

definition requireHexAddress :: "string option \<Rightarrow> string \<Rightarrow> js_error + string" where
  "requireHexAddress v lbl =
     (case trim_lower v of
        None \<Rightarrow> Inl (ValidationError (''Missing '' @ lbl))
      | Some trimmed \<Rightarrow>
          if trimmed = [] then Inl (ValidationError (''Missing '' @ lbl))
          else if \<not> isHexAddress trimmed then Inl (ValidationError (''Invalid '' @ lbl))
          else Inr trimmed)"

definition requireHexHash :: "string option \<Rightarrow> string \<Rightarrow> js_error + string" where
  "requireHexHash v lbl =
     (case trim_lower v of
        None \<Rightarrow> Inl (ValidationError (''Missing '' @ lbl))
      | Some trimmed \<Rightarrow>
          if trimmed = [] then Inl (ValidationError (''Missing '' @ lbl))
          else if \<not> startsWith trimmed ''0x'' \<or> length trimmed < 3 then Inl (ValidationError (''Invalid '' @ lbl))
          else Inr trimmed)"

subsection \<open>Numbers\<close>

definition js_max :: "jsnum \<Rightarrow> jsnum \<Rightarrow> jsnum" where
  "js_max a b = (if a = JNaN \<or> b = JNaN then JNaN else if js_less a b then b else a)"

definition js_min :: "jsnum \<Rightarrow> jsnum \<Rightarrow> jsnum" where
  "js_min a b = (if a = JNaN \<or> b = JNaN then JNaN else if js_less b a then b else a)"

text \<open>\<^verbatim>\<open>n || d\<close>: NaN and 0 are falsy.\<close>

definition js_or :: "jsnum \<Rightarrow> jsnum \<Rightarrow> jsnum" where
  "js_or n d = (if n = JNaN \<or> n = JNum 0 then d else n)"

text \<open>Subtraction and multiplication of doubles with integer values, rounded.\<close>

fun js_minus :: "jsnum \<Rightarrow> jsnum \<Rightarrow> jsnum" where
  "js_minus (JNum a) (JNum b) = number_of_bigint (a - b)"
| "js_minus a b = js_sub a b"

fun js_times :: "jsnum \<Rightarrow> jsnum \<Rightarrow> jsnum" where
  "js_times (JNum a) (JNum b) = number_of_bigint (a * b)"
| "js_times (JInfinity s) (JNum b) = (if b = 0 then JNaN else JInfinity (s \<noteq> (b < 0)))"
| "js_times (JNum a) (JInfinity s) = (if a = 0 then JNaN else JInfinity (s \<noteq> (a < 0)))"
| "js_times (JInfinity s) (JInfinity t) = JInfinity (s \<noteq> t)"
| "js_times _ _ = JNaN"

subsection \<open>Pagination\<close>

record GoldPage =
  gp_page :: jsnum
  gp_limit :: jsnum
  gp_offset :: jsnum

definition gold_parsePagination :: "params \<Rightarrow> GoldPage" where
  "gold_parsePagination ps =
     (let pageNo = js_max (JNum 1) (parseInt 10 (case param ps ''page'' of None \<Rightarrow> ''1'' | Some s \<Rightarrow> s));
          lim = js_min (JNum 100)
            (js_max (JNum 1) (parseInt 10 (case param ps ''limit'' of None \<Rightarrow> ''20'' | Some s \<Rightarrow> s)))
      in \<lparr>gp_page = pageNo, gp_limit = lim, gp_offset = js_times (js_minus pageNo (JNum 1)) lim\<rparr>)"

record Pagination =
  pgn_page :: jsnum
  pgn_offset :: jsnum
  pgn_limit :: jsnum

definition DEFAULT_OFFSET :: int where
  "DEFAULT_OFFSET = 10"

definition MAX_OFFSET :: int where
  "MAX_OFFSET = 100"

definition evm_parsePagination :: "params \<Rightarrow> Pagination" where
  "evm_parsePagination ps =
     (let pageNo = js_max (JNum 1)
            (js_or (parseInt 10 (case param ps ''page'' of None \<Rightarrow> ''1'' | Some s \<Rightarrow> s)) (JNum 1));
          off = js_min (JNum MAX_OFFSET) (js_max (JNum 1)
            (js_or (parseInt 10 (case param ps ''offset'' of None \<Rightarrow> number_str (JNum DEFAULT_OFFSET) | Some s \<Rightarrow> s))
              (JNum DEFAULT_OFFSET)))
      in \<lparr>pgn_page = pageNo, pgn_offset = off, pgn_limit = off\<rparr>)"

definition sqlLimitOffset :: "Pagination \<Rightarrow> jsnum \<times> jsnum" where
  "sqlLimitOffset p = (pgn_limit p, js_times (js_minus (pgn_page p) (JNum 1)) (pgn_limit p))"

subsection \<open>The database server\<close>

record Pg =
  pg_collate :: "string \<Rightarrow> string"
  pg_numeric :: "string \<Rightarrow> js_error + numeric option"
  pg_message :: "js_error \<Rightarrow> string"
  pg_id :: "string \<Rightarrow> nat \<Rightarrow> int"

text \<open>A number bound to a \<^verbatim>\<open>bigint\<close> is sent as its text.\<close>

definition bigint_in :: "string \<Rightarrow> js_error + int" where
  "bigint_in s =
     (let neg = (s \<noteq> [] \<and> hd s = CHR ''-''); ds = (if neg then tl s else s);
          v = int (digits_val 10 ds); i = (if neg then - v else v)
      in if ds = [] \<or> \<not> list_all (is_digit 10) ds then Inl (SqlError (InvalidText ''bigint''))
         else if fits 64 i then Inr i else Inl (SqlError (OutOfRange ''bigint'')))"

definition pg_bigint :: "jsnum \<Rightarrow> js_error + int" where
  "pg_bigint n = bigint_in (number_str n)"

definition limit_offset :: "jsnum \<Rightarrow> jsnum \<Rightarrow> 'a list \<Rightarrow> js_error + 'a list" where
  "limit_offset lim off rows =
     bindS (pg_bigint lim) (\<lambda>l. bindS (pg_bigint off) (\<lambda>s.
       if l < 0 \<or> s < 0 then Inl (SqlError (OutOfRange ''LIMIT''))
       else Inr (take (nat l) (drop (nat s) rows))))"

text \<open>The rows of a table with their ids.\<close>

definition with_ids :: "Pg \<Rightarrow> string \<Rightarrow> 'r list \<Rightarrow> (int \<times> 'r) list" where
  "with_ids pg t rows = map (\<lambda>(n, r). (pg_id pg t n, r)) (enumerate 0 rows)"

definition order_by :: "('r \<Rightarrow> 'k::linorder) \<Rightarrow> 'r list \<Rightarrow> 'r list" where
  "order_by key rows = sort_key key rows"

text \<open>\<^verbatim>\<open>ORDER BY ... DESC\<close>: rows with equal keys keep their order here; the queries that use it
  end their key with a unique column, or state which rows may be equal.\<close>

definition order_by_desc :: "('r \<Rightarrow> 'k::linorder) \<Rightarrow> 'r list \<Rightarrow> 'r list" where
  "order_by_desc key rows = rev (sort_key key (rev rows))"

definition num_key :: "jsnum \<Rightarrow> int" where
  "num_key n = (case n of JNum i \<Rightarrow> i | _ \<Rightarrow> 0)"

text \<open>\<^verbatim>\<open>numeric\<close> values: text, order (NaN is the greatest) and sums.\<close>

definition numeric_text :: "numeric \<Rightarrow> string" where
  "numeric_text v = (case v of NumInt i \<Rightarrow> bigint_str 10 i | NumNaN \<Rightarrow> ''NaN''
     | NumInf neg \<Rightarrow> if neg then ''-Infinity'' else ''Infinity'')"

definition numeric_key :: "numeric \<Rightarrow> int \<times> int" where
  "numeric_key v = (case v of NumInf neg \<Rightarrow> (if neg then (0, 0) else (2, 0)) | NumInt i \<Rightarrow> (1, i) | NumNaN \<Rightarrow> (3, 0))"

fun numeric_neg :: "numeric \<Rightarrow> numeric" where
  "numeric_neg (NumInt i) = NumInt (- i)"
| "numeric_neg (NumInf b) = NumInf (\<not> b)"
| "numeric_neg NumNaN = NumNaN"

fun numeric_add :: "numeric \<Rightarrow> numeric \<Rightarrow> numeric" where
  "numeric_add (NumInt a) (NumInt b) = NumInt (a + b)"
| "numeric_add (NumInt a) (NumInf b) = NumInf b"
| "numeric_add (NumInf a) (NumInt b) = NumInf a"
| "numeric_add (NumInf a) (NumInf b) = (if a = b then NumInf a else NumNaN)"
| "numeric_add _ _ = NumNaN"

text \<open>\<^verbatim>\<open>COALESCE(SUM(...), 0)\<close>\<close>

definition numeric_sum :: "numeric list \<Rightarrow> numeric" where
  "numeric_sum vs = foldr numeric_add vs (NumInt 0)"

subsection \<open>Texts of the enumerations\<close>

definition finality_text :: "FinalityStatus \<Rightarrow> string" where
  "finality_text st = (case st of Pending \<Rightarrow> ''pending'' | Finalized \<Rightarrow> ''finalized'' | Reverted \<Rightarrow> ''reverted'')"

definition standard_text :: "TokenStandard \<Rightarrow> string" where
  "standard_text st = (case st of Erc20 \<Rightarrow> ''erc20'' | Erc721 \<Rightarrow> ''erc721'' | Erc1155 \<Rightarrow> ''erc1155'')"

text \<open>\<^verbatim>\<open>String(Math.floor(date.getTime() / 1000))\<close>\<close>

definition unix_text :: "js_date \<Rightarrow> string" where
  "unix_text t = (case t of DateMs ms \<Rightarrow> number_str (JNum (ms div 1000)) | InvalidDate \<Rightarrow> ''NaN'')"

section \<open>Numbers\<close>

lemma bigint_in_nat_str:
  assumes "n < 2 ^ 53"
  shows "bigint_in (nat_str 10 n) = Inr (int n)"
proof -
  have d: "list_all (is_digit 10) (nat_str 10 n)" by (rule nat_str_digits) simp_all
  then have "is_digit 10 (hd (nat_str 10 n))" by (simp add: list_all_iff)
  then have "hd (nat_str 10 n) \<noteq> CHR ''-''" by (auto simp: is_digit_def digit_value_def)
  moreover have "fits 64 (int n)" using assms by (simp add: fits_def)
  ultimately show ?thesis using d by (simp add: bigint_in_def Let_def)
qed

lemma pg_bigint_small:
  assumes "0 \<le> i" and "i < 2 ^ 53"
  shows "pg_bigint (JNum i) = Inr i"
proof -
  have "nat i < 2 ^ 53" using assms by (simp add: nat_less_iff)
  then show ?thesis
    using assms by (simp add: pg_bigint_def nat_number_str_small bigint_in_nat_str)
qed

lemma pg_bigint_NaN: "pg_bigint JNaN = Inl (SqlError (InvalidText ''bigint''))"
  by (simp add: pg_bigint_def bigint_in_def is_digit_def digit_value_def Let_def)

lemma BigInt_bigint_str: "BigInt (bigint_str 10 i) = Inr i"
proof -
  have d: "list_all (is_digit 10) (nat_str 10 n)" for n by (rule nat_str_digits) simp_all
  have dig: "is_digit 10 c" if "c \<in> set (nat_str 10 n)" for c n
    using d [of n] that by (simp add: list_all_iff)
  have h: "is_digit 10 (hd (nat_str 10 n))" and l: "is_digit 10 (last (nat_str 10 n))" for n
    using dig [of "hd (nat_str 10 n)" n] dig [of "last (nat_str 10 n)" n] by (simp_all del: nat_str.simps)
  have no: "\<not> startsWith (nat_str 10 n) [CHR ''0'', c]" if "\<not> is_digit 10 c" for n c
  proof
    assume "startsWith (nat_str 10 n) [CHR ''0'', c]"
    then have "take 2 (nat_str 10 n) = [CHR ''0'', c]" by (simp add: startsWith_def numeral_2_eq_2)
    then have "c \<in> set (nat_str 10 n)" by (metis in_set_takeD list.set_intros(1,2))
    with that dig show False by blast
  qed
  have letters: "\<not> is_digit 10 CHR ''x''" "\<not> is_digit 10 CHR ''X''" "\<not> is_digit 10 CHR ''o''"
    "\<not> is_digit 10 CHR ''O''" "\<not> is_digit 10 CHR ''b''" "\<not> is_digit 10 CHR ''B''"
    by (simp_all add: is_digit_def digit_value_def Let_def)
  have sign: "c \<noteq> CHR ''-'' \<and> c \<noteq> CHR ''+''" if "is_digit 10 c" for c
    using that by (auto simp: is_digit_def digit_value_def)
  have trim: "js_trim (nat_str 10 n) = nat_str 10 n" for n
    using hex_digits_no_space [OF h] hex_digits_no_space [OF l] by (intro js_trim_id) simp_all
  have p: "parse_nat 10 (nat_str 10 n) = Inr (int n)" for n using d by (simp add: parse_nat_def)
  show ?thesis
  proof (cases "i < 0")
    case True
    have "js_trim (''-'' @ nat_str 10 (nat (- i))) = ''-'' @ nat_str 10 (nat (- i))"
      using hex_digits_no_space [OF l] by (intro js_trim_id) (simp_all add: is_space_def)
    then show ?thesis using True p [of "nat (- i)"] by (simp add: BigInt_def bigint_str_def startsWith_def)
  next
    case False
    then show ?thesis
      using sign [OF h] p no letters by (simp add: BigInt_def bigint_str_def trim)
  qed
qed

lemma bigint_str_0: "bigint_str 10 0 = ''0''"
  by code_simp

lemma numeric_sum_ints:
  assumes "\<And>x. x \<in> set xs \<Longrightarrow> f x = NumInt (g x)"
  shows "numeric_sum (map f xs) = NumInt (sum_list (map g xs))"
  using assms by (induction xs) (simp_all add: numeric_sum_def)

section \<open>Pages\<close>

definition page_params :: "nat \<Rightarrow> nat \<Rightarrow> params" where
  "page_params k n = [(''page'', nat_str 10 k), (''limit'', nat_str 10 n)]"

lemma param_page_params [simp]:
  "param (page_params k n @ ps) ''page'' = Some (nat_str 10 k)"
  "param (page_params k n @ ps) ''limit'' = Some (nat_str 10 n)"
  "q \<noteq> ''page'' \<Longrightarrow> q \<noteq> ''limit'' \<Longrightarrow> param (page_params k n @ ps) q = param ps q"
  by (simp_all add: param_def page_params_def)

lemma gold_page:
  assumes "1 \<le> k" and "1 \<le> n" and "n \<le> 100" and "k * n < 2 ^ 53"
  shows "gold_parsePagination (page_params k n @ ps) =
    \<lparr>gp_page = JNum (int k), gp_limit = JNum (int n), gp_offset = JNum (int ((k - 1) * n))\<rparr>"
proof -
  have "k \<le> k * n" using assms(2) by simp
  then have k: "k < 2 ^ 53" using assms(4) by linarith
  have o: "(k - 1) * n < 2 ^ 53" using assms(4) by (meson diff_le_self le_less_trans mult_le_mono1)
  have "number_of_bigint (int k - 1) = JNum (int (k - 1))"
    using assms(1) k by (simp add: number_of_bigint_exact of_nat_diff)
  moreover have "number_of_bigint (int (k - 1) * int n) = JNum (int ((k - 1) * n))"
  proof -
    have "\<bar>int ((k - 1) * n)\<bar> < int (2 ^ 53)" using o by (simp only: abs_of_nat of_nat_less_iff)
    then show ?thesis using number_of_bigint_exact [of "int ((k - 1) * n)"] by simp
  qed
  moreover have "js_max (JNum 1) (JNum (int k)) = JNum (int k)"
    and "js_min (JNum 100) (js_max (JNum 1) (JNum (int n))) = JNum (int n)"
    using assms by (auto simp: js_max_def js_min_def)
  ultimately show ?thesis
    using k assms(3) by (simp add: gold_parsePagination_def parse_nat_str)
qed

lemma limit_offset_page:
  assumes "1 \<le> k" and "n \<le> 100" and "k * n < 2 ^ 53"
  shows "limit_offset (JNum (int n)) (JNum (int ((k - 1) * n))) rows = Inr (take n (drop ((k - 1) * n) rows))"
proof -
  have o: "(k - 1) * n < 2 ^ 53" using assms(3) by (meson diff_le_self le_less_trans mult_le_mono1)
  have "pg_bigint (JNum (int n)) = Inr (int n)" using assms(2) by (intro pg_bigint_small) simp_all
  moreover have "pg_bigint (JNum (int ((k - 1) * n))) = Inr (int ((k - 1) * n))"
  proof (intro pg_bigint_small)
    have "int ((k - 1) * n) < int (2 ^ 53)" using o by (simp only: of_nat_less_iff)
    then show "int ((k - 1) * n) < 2 ^ 53" by simp
  qed simp
  ultimately show ?thesis unfolding limit_offset_def
    by (simp del: of_nat_mult)
qed

lemma concat_pages: "concat (map (\<lambda>k. take n (drop ((k - 1) * n) rows)) [1..<Suc m]) = take (m * n) rows"
proof (induction m)
  case (Suc m)
  have "take (m * n) rows @ take n (drop (m * n) rows) = take (m * n + n) rows" by (simp add: take_add)
  with Suc show ?case by (simp add: add.commute)
qed simp

text \<open>A page that is no number leaves the offset without a value, and the query fails.\<close>

lemma limit_offset_NaN:
  assumes "lim = JNaN \<or> (\<exists>i. 0 \<le> i \<and> i < 2 ^ 53 \<and> lim = JNum i) \<and> off = JNaN"
  shows "limit_offset lim off rows = Inl (SqlError (InvalidText ''bigint''))"
  using assms by (auto simp: limit_offset_def pg_bigint_NaN pg_bigint_small)

section \<open>Validation\<close>

lemma requireHexAddress_ok: "requireHexAddress v lbl = Inr a \<Longrightarrow> isHexAddress a \<and> trim_lower v = Some a"
  by (auto simp: requireHexAddress_def split: option.splits if_splits)

lemma requireHexAddress_error: "requireHexAddress v lbl = Inl e \<Longrightarrow> \<exists>m. e = ValidationError m"
  by (auto simp: requireHexAddress_def split: option.splits if_splits)

lemma requireHexHash_error: "requireHexHash v lbl = Inl e \<Longrightarrow> \<exists>m. e = ValidationError m"
  by (auto simp: requireHexHash_def split: option.splits if_splits)

end
