(* ===== verification/GoldQueries.thy ===== *)
theory GoldQueries
  imports ApiBase
begin

text \<open>
  \<^verbatim>\<open>packages/api/src/gold/queries.ts\<close> and \<^verbatim>\<open>gold/types.ts\<close>: the lists of bridge transfers, redemption
  receipts, staking, validator, delegation, checkpoint and governance events, and the migration
  status.  Each query is a function of the database the indexer writes.
  The lemmas: the shape of a receipt, and the contract \<open>paged_query\<close> of the list queries, whose
  pages put together are the whole list.
\<close>

section \<open>types.ts\<close>

datatype MigrationStatus = INACTIVE | PREPARE | ACTIVE | EXIT_ONLY | FINALIZED

record ApiBridgeRow =
  ab_id :: int
  ab_routeAsset :: RouteAsset
  ab_rootAmount :: string
  ab_childAmount :: string
  ab_bridgeState :: BridgeState
  ab_finalityStatus :: FinalityStatus
  ab_rootTxHash :: "string option"
  ab_childTxHash :: "string option"
  ab_direction :: BridgeDirection
  ab_sourceLayer :: SourceLayer
  ab_receiptCorrelationId :: "string option"
  ab_amountExact :: bool
  ab_complete :: bool

record RedemptionReceiptStage =
  rs_bridgeState :: BridgeState
  rs_routeAsset :: RouteAsset
  rs_rootAmount :: string
  rs_childAmount :: string
  rs_finalityStatus :: FinalityStatus
  rs_rootTxHash :: "string option"
  rs_childTxHash :: "string option"
  rs_sourceLayer :: SourceLayer
  rs_amountExact :: bool
  rs_complete :: bool

record RedemptionReceipt =
  rr_receiptCorrelationId :: string
  rr_routeAsset :: RouteAsset
  rr_stages :: "RedemptionReceiptStage list"
  rr_complete :: bool

record 'a Paginated =
  pgd_items :: "'a list"
  pgd_page :: jsnum
  pgd_limit :: jsnum
  pgd_total :: nat

section \<open>Bridge transfers and receipts\<close>

definition RECEIPT_STAGE_ORDER :: "BridgeState list" where
  "RECEIPT_STAGE_ORDER = [Locked, Synced, MintedOrCredited, BurnedOrDebited, Released]"

definition MIGRATION_EVENT_TYPES :: "(string \<times> MigrationStatus) list" where
  "MIGRATION_EVENT_TYPES =
     [(''migration_inactive'', INACTIVE), (''migration_prepare'', PREPARE), (''migration_active'', ACTIVE),
      (''migration_exit_only'', EXIT_ONLY), (''migration_finalized'', FINALIZED)]"

text \<open>A \<^verbatim>\<open>numeric\<close> column read back as text.\<close>

abbreviation column_text :: "string \<Rightarrow> string" where
  "column_text s \<equiv> numeric_text (numeric_val s)"

definition mapBridgeRow :: "int \<times> BridgeTransferRow \<Rightarrow> ApiBridgeRow" where
  "mapBridgeRow row = (case row of (i, r) \<Rightarrow>
     \<lparr>ab_id = i, ab_routeAsset = br_routeAsset r, ab_rootAmount = column_text (br_rootAmount r),
      ab_childAmount = column_text (br_childAmount r), ab_bridgeState = br_bridgeState r,
      ab_finalityStatus = br_finalityStatus r, ab_rootTxHash = br_rootTxHash r,
      ab_childTxHash = br_childTxHash r, ab_direction = br_direction r, ab_sourceLayer = br_sourceLayer r,
      ab_receiptCorrelationId = Some (br_receiptCorrelationId r), ab_amountExact = br_amountExact r,
      ab_complete = (br_finalityStatus r = Finalized)\<rparr>)"

definition mapReceiptStage :: "BridgeTransferRow \<Rightarrow> RedemptionReceiptStage" where
  "mapReceiptStage r =
     \<lparr>rs_bridgeState = br_bridgeState r, rs_routeAsset = br_routeAsset r,
      rs_rootAmount = column_text (br_rootAmount r), rs_childAmount = column_text (br_childAmount r),
      rs_finalityStatus = br_finalityStatus r, rs_rootTxHash = br_rootTxHash r,
      rs_childTxHash = br_childTxHash r, rs_sourceLayer = br_sourceLayer r,
      rs_amountExact = br_amountExact r, rs_complete = (br_finalityStatus r = Finalized)\<rparr>"

definition stageRank :: "BridgeState \<Rightarrow> nat" where
  "stageRank st = length (takeWhile (\<lambda>s. s \<noteq> st) RECEIPT_STAGE_ORDER)"

definition fetchBridgeActivity :: "Pg \<Rightarrow> db \<Rightarrow> ApiBridgeRow list \<times> ApiBridgeRow list" where
  "fetchBridgeActivity pg d =
     foldl (\<lambda>(finalized, pending) row.
         let mapped = mapBridgeRow row in
         if ab_finalityStatus mapped = Finalized then (finalized @ [mapped], pending)
         else if ab_finalityStatus mapped = Pending then (finalized, pending @ [mapped])
         else (finalized, pending))
       ([], []) (order_by fst (with_ids pg ''bridge_transfers'' (bridge_transfers d)))"

text \<open>The rows of one correlation id, in the order of the stages.\<close>

definition redemption_receipt :: "Pg \<Rightarrow> db \<Rightarrow> string \<Rightarrow> RedemptionReceipt" where
  "redemption_receipt pg d corrId =
     (let rows = order_by fst (filter (\<lambda>(i, r). br_receiptCorrelationId r = corrId)
            (with_ids pg ''bridge_transfers'' (bridge_transfers d)));
          stages = sort_key (\<lambda>s. stageRank (rs_bridgeState s)) (map (\<lambda>(i, r). mapReceiptStage r) rows);
          hasBurn = list_ex (\<lambda>s. rs_bridgeState s = BurnedOrDebited) stages;
          hasRelease = list_ex (\<lambda>s. rs_bridgeState s = Released) stages;
          allFinalized = list_all rs_complete stages
      in \<lparr>rr_receiptCorrelationId = corrId,
          rr_routeAsset = (case stages of [] \<Rightarrow> Paxg | s # _ \<Rightarrow> rs_routeAsset s),
          rr_stages = stages, rr_complete = (hasBurn \<and> hasRelease \<and> allFinalized)\<rparr>)"

definition receipt_ids :: "params \<Rightarrow> db \<Rightarrow> string list" where
  "receipt_ids ps d =
     (let correlationId = param ps ''receiptCorrelationId'' in
      remdups (map br_receiptCorrelationId
        (filter (\<lambda>r. br_bridgeState r \<in> {BurnedOrDebited, Released} \<and>
                     (truthy correlationId \<longrightarrow> Some (br_receiptCorrelationId r) = correlationId))
          (bridge_transfers d))))"

definition fetchRedemptionReceipts :: "Pg \<Rightarrow> params \<Rightarrow> db \<Rightarrow> js_error + RedemptionReceipt Paginated" where
  "fetchRedemptionReceipts pg ps d =
     (let pgn = gold_parsePagination ps; total = length (receipt_ids ps d) in
      bindS (limit_offset (gp_limit pgn) (gp_offset pgn) (order_by (pg_collate pg) (receipt_ids ps d))) (\<lambda>ids.
      Inr \<lparr>pgd_items = map (redemption_receipt pg d) ids, pgd_page = gp_page pgn, pgd_limit = gp_limit pgn,
           pgd_total = total\<rparr>))"

definition fetchRedemptionReceiptById :: "Pg \<Rightarrow> string \<Rightarrow> db \<Rightarrow> js_error + RedemptionReceipt option" where
  "fetchRedemptionReceiptById pg correlationId d =
     bindS (fetchRedemptionReceipts pg
         [(''receiptCorrelationId'', correlationId), (''page'', ''1''), (''limit'', ''1'')] d) (\<lambda>page.
     Inr (case pgd_items page of [] \<Rightarrow> None | r # _ \<Rightarrow> Some r))"

section \<open>Event lists\<close>

definition finalizedOnly :: "params \<Rightarrow> bool" where
  "finalizedOnly ps \<longleftrightarrow> param ps ''finalizedOnly'' \<noteq> Some ''false''"

text \<open>\<^verbatim>\<open>SELECT COUNT(*)\<close> over the selected rows, then \<^verbatim>\<open>ORDER BY id ASC LIMIT ... OFFSET ...\<close> of them.\<close>

definition paginate :: "params \<Rightarrow> (int \<times> 'r \<Rightarrow> 'a) \<Rightarrow> (int \<times> 'r) list \<Rightarrow> js_error + 'a Paginated" where
  "paginate ps f rows =
     (let pgn = gold_parsePagination ps in
      bindS (limit_offset (gp_limit pgn) (gp_offset pgn) (order_by fst rows)) (\<lambda>rs.
      Inr \<lparr>pgd_items = map f rs, pgd_page = gp_page pgn, pgd_limit = gp_limit pgn, pgd_total = length rows\<rparr>))"

record ApiStakingEvent =
  as_id :: int
  as_blockNumber :: jsnum
  as_transactionHash :: string
  as_eventType :: string
  as_stakerAddress :: string
  as_amount :: string
  as_finalityStatus :: FinalityStatus
  as_complete :: bool

definition staking_item :: "int \<times> StakingEventRow \<Rightarrow> ApiStakingEvent" where
  "staking_item row = (case row of (i, r) \<Rightarrow>
     \<lparr>as_id = i, as_blockNumber = st_blockNumber r, as_transactionHash = st_transactionHash r,
      as_eventType = st_eventType r, as_stakerAddress = st_stakerAddress r,
      as_amount = column_text (st_amount r), as_finalityStatus = st_finalityStatus r,
      as_complete = (st_finalityStatus r = Finalized)\<rparr>)"

definition staking_rows :: "Pg \<Rightarrow> params \<Rightarrow> db \<Rightarrow> (int \<times> StakingEventRow) list" where
  "staking_rows pg ps d =
     filter (\<lambda>(i, r). finalizedOnly ps \<longrightarrow> st_finalityStatus r = Finalized)
       (with_ids pg ''staking_events'' (staking_events d))"

definition fetchStakingEvents :: "Pg \<Rightarrow> params \<Rightarrow> db \<Rightarrow> js_error + ApiStakingEvent Paginated" where
  "fetchStakingEvents pg ps d = paginate ps staking_item (staking_rows pg ps d)"

record ApiValidatorEvent =
  av_id :: int
  av_blockNumber :: jsnum
  av_transactionHash :: string
  av_eventType :: string
  av_validatorAddress :: string
  av_amount :: "string option"
  av_finalityStatus :: FinalityStatus
  av_complete :: bool

definition validator_item :: "int \<times> ValidatorEventRow \<Rightarrow> ApiValidatorEvent" where
  "validator_item row = (case row of (i, r) \<Rightarrow>
     \<lparr>av_id = i, av_blockNumber = ve_blockNumber r, av_transactionHash = ve_transactionHash r,
      av_eventType = ve_eventType r, av_validatorAddress = ve_validatorAddress r,
      av_amount = map_option column_text (ve_amount r), av_finalityStatus = ve_finalityStatus r,
      av_complete = (ve_finalityStatus r = Finalized)\<rparr>)"

definition validator_rows :: "Pg \<Rightarrow> params \<Rightarrow> db \<Rightarrow> (int \<times> ValidatorEventRow) list" where
  "validator_rows pg ps d =
     filter (\<lambda>(i, r). finalizedOnly ps \<longrightarrow> ve_finalityStatus r = Finalized)
       (with_ids pg ''validator_events'' (validator_events d))"

definition fetchValidatorEvents :: "Pg \<Rightarrow> params \<Rightarrow> db \<Rightarrow> js_error + ApiValidatorEvent Paginated" where
  "fetchValidatorEvents pg ps d = paginate ps validator_item (validator_rows pg ps d)"

record ApiDelegationEvent =
  ad_id :: int
  ad_blockNumber :: jsnum
  ad_transactionHash :: string
  ad_delegatorAddress :: string
  ad_validatorAddress :: "string option"
  ad_amount :: string
  ad_finalityStatus :: FinalityStatus
  ad_complete :: bool

text \<open>
  The lateral join: the last finalized validator event up to the block of the stake.  The selected
  columns are \<^verbatim>\<open>s.*, v.validator_address\<close>; of two columns with one name the driver keeps the later, so the
  row's \<^verbatim>\<open>validator_address\<close> is that of the join.
\<close>

definition lateral_validator :: "Pg \<Rightarrow> db \<Rightarrow> StakingEventRow \<Rightarrow> string option" where
  "lateral_validator pg d s =
     (case order_by_desc (\<lambda>(j, v). (num_key (ve_blockNumber v), j))
         (filter (\<lambda>(j, v). num_key (ve_blockNumber v) \<le> num_key (st_blockNumber s) \<and>
                           ve_finalityStatus v = Finalized)
           (with_ids pg ''validator_events'' (validator_events d))) of
        [] \<Rightarrow> None | (j, v) # _ \<Rightarrow> Some (ve_validatorAddress v))"

definition delegation_item :: "Pg \<Rightarrow> db \<Rightarrow> int \<times> StakingEventRow \<Rightarrow> ApiDelegationEvent" where
  "delegation_item pg d row = (case row of (i, r) \<Rightarrow>
     let v = lateral_validator pg d r in
     \<lparr>ad_id = i, ad_blockNumber = st_blockNumber r, ad_transactionHash = st_transactionHash r,
      ad_delegatorAddress = st_stakerAddress r, ad_validatorAddress = (if truthy v then v else None),
      ad_amount = column_text (st_amount r), ad_finalityStatus = st_finalityStatus r,
      ad_complete = (st_finalityStatus r = Finalized)\<rparr>)"

definition delegation_rows :: "Pg \<Rightarrow> params \<Rightarrow> db \<Rightarrow> (int \<times> StakingEventRow) list" where
  "delegation_rows pg ps d =
     filter (\<lambda>(i, r). st_eventType r = ''stake'' \<and> (finalizedOnly ps \<longrightarrow> st_finalityStatus r = Finalized))
       (with_ids pg ''staking_events'' (staking_events d))"

definition fetchDelegationEvents :: "Pg \<Rightarrow> params \<Rightarrow> db \<Rightarrow> js_error + ApiDelegationEvent Paginated" where
  "fetchDelegationEvents pg ps d = paginate ps (delegation_item pg d) (delegation_rows pg ps d)"

record ApiCheckpoint =
  ac_id :: int
  ac_blockNumber :: jsnum
  ac_checkpointHash :: string
  ac_validatorSetHash :: string
  ac_finalityStatus :: FinalityStatus
  ac_complete :: bool

definition checkpoint_item :: "int \<times> CheckpointRow \<Rightarrow> ApiCheckpoint" where
  "checkpoint_item row = (case row of (i, r) \<Rightarrow>
     \<lparr>ac_id = i, ac_blockNumber = cp_blockNumber r, ac_checkpointHash = cp_checkpointHash r,
      ac_validatorSetHash = cp_validatorSetHash r, ac_finalityStatus = cp_finalityStatus r,
      ac_complete = (cp_finalityStatus r = Finalized)\<rparr>)"

definition checkpoint_rows :: "Pg \<Rightarrow> params \<Rightarrow> db \<Rightarrow> (int \<times> CheckpointRow) list" where
  "checkpoint_rows pg ps d =
     filter (\<lambda>(i, r). finalizedOnly ps \<longrightarrow> cp_finalityStatus r = Finalized)
       (with_ids pg ''checkpoints'' (checkpoints d))"

definition fetchCheckpoints :: "Pg \<Rightarrow> params \<Rightarrow> db \<Rightarrow> js_error + ApiCheckpoint Paginated" where
  "fetchCheckpoints pg ps d = paginate ps checkpoint_item (checkpoint_rows pg ps d)"

record ApiGovernanceEvent =
  ag_id :: int
  ag_blockNumber :: jsnum
  ag_transactionHash :: string
  ag_eventType :: string
  ag_proposerAddress :: "string option"
  ag_proposalId :: "string option"
  ag_finalityStatus :: FinalityStatus
  ag_complete :: bool

definition governance_item :: "int \<times> GovernanceEventRow \<Rightarrow> ApiGovernanceEvent" where
  "governance_item row = (case row of (i, r) \<Rightarrow>
     \<lparr>ag_id = i, ag_blockNumber = gov_blockNumber r, ag_transactionHash = gov_transactionHash r,
      ag_eventType = gov_eventType r,
      ag_proposerAddress = (if truthy (gov_proposerAddress r) then gov_proposerAddress r else None),
      ag_proposalId = (if truthy (gov_proposalId r) then gov_proposalId r else None),
      ag_finalityStatus = gov_finalityStatus r, ag_complete = (gov_finalityStatus r = Finalized)\<rparr>)"

definition governance_rows :: "Pg \<Rightarrow> params \<Rightarrow> db \<Rightarrow> (int \<times> GovernanceEventRow) list" where
  "governance_rows pg ps d =
     filter (\<lambda>(i, r). finalizedOnly ps \<longrightarrow> gov_finalityStatus r = Finalized)
       (with_ids pg ''governance_events'' (governance_events d))"

definition fetchGovernanceEvents :: "Pg \<Rightarrow> params \<Rightarrow> db \<Rightarrow> js_error + ApiGovernanceEvent Paginated" where
  "fetchGovernanceEvents pg ps d = paginate ps governance_item (governance_rows pg ps d)"

definition fetchMigrationStatus :: "Pg \<Rightarrow> db \<Rightarrow> MigrationStatus" where
  "fetchMigrationStatus pg d =
     (case order_by_desc (\<lambda>(i, r). (num_key (gov_blockNumber r), i))
         (filter (\<lambda>(i, r). gov_finalityStatus r = Finalized \<and>
                           gov_eventType r \<in> set (map fst MIGRATION_EVENT_TYPES))
           (with_ids pg ''governance_events'' (governance_events d))) of
        [] \<Rightarrow> INACTIVE
      | (i, r) # _ \<Rightarrow>
          (case map_of MIGRATION_EVENT_TYPES (gov_eventType r) of None \<Rightarrow> INACTIVE | Some mapped \<Rightarrow> mapped))"

section \<open>Pages put together\<close>

lemma limit_offset_map: "limit_offset l s (map f rows) = bindS (limit_offset l s rows) (\<lambda>rs. Inr (map f rs))"
  by (simp add: limit_offset_def bindS_def take_map drop_map split: sum.split)

lemma gp_limit_cases: "gp_limit (gold_parsePagination ps) = JNaN \<or>
  (\<exists>i. 1 \<le> i \<and> i \<le> 100 \<and> gp_limit (gold_parsePagination ps) = JNum i)"
proof -
  have "js_min (JNum 100) (js_max (JNum 1) n) = JNaN \<or>
      (\<exists>i. 1 \<le> i \<and> i \<le> 100 \<and> js_min (JNum 100) (js_max (JNum 1) n) = JNum i)" for n
    by (cases n) (auto simp: js_min_def js_max_def)
  then show ?thesis by (simp add: gold_parsePagination_def Let_def)
qed

lemma gp_offset_NaN:
  "param ps ''page'' = Some s \<Longrightarrow> parseInt 10 s = JNaN \<Longrightarrow> gp_offset (gold_parsePagination ps) = JNaN"
  by (simp add: gold_parsePagination_def js_max_def Let_def)

text \<open>The items of the pages \<open>1..m\<close> with \<open>n\<close> per page.\<close>

definition pages :: "(params \<Rightarrow> js_error + 'a Paginated) \<Rightarrow> params \<Rightarrow> nat \<Rightarrow> nat \<Rightarrow> js_error + 'a list" where
  "pages fetch ps n m =
     bindS (mapS (\<lambda>k. bindS (fetch (page_params k n @ ps)) (\<lambda>r. Inr (pgd_items r))) [1..<Suc m])
       (\<lambda>xs. Inr (concat xs))"

text \<open>
  What the list queries promise: the items are a page of a listing that does not depend on the
  page asked for, and the total is the listing's length.
\<close>

locale paged_query =
  fixes fetch :: "params \<Rightarrow> js_error + 'a Paginated"
    and listing :: "params \<Rightarrow> 'a list"
  assumes fetch_page: "fetch ps = (let pgn = gold_parsePagination ps in
      bindS (limit_offset (gp_limit pgn) (gp_offset pgn) (listing ps)) (\<lambda>xs.
      Inr \<lparr>pgd_items = xs, pgd_page = gp_page pgn, pgd_limit = gp_limit pgn, pgd_total = length (listing ps)\<rparr>))"
    and listing_args: "param ps ''finalizedOnly'' = param ps' ''finalizedOnly'' \<Longrightarrow>
      param ps ''receiptCorrelationId'' = param ps' ''receiptCorrelationId'' \<Longrightarrow> listing ps = listing ps'"
begin

lemma listing_page: "listing (page_params k n @ ps) = listing ps"
  by (rule listing_args) simp_all

lemma fetch_nth:
  assumes "1 \<le> k" and "1 \<le> n" and "n \<le> 100" and "k * n < 2 ^ 53"
  shows "fetch (page_params k n @ ps) = Inr \<lparr>pgd_items = take n (drop ((k - 1) * n) (listing ps)),
    pgd_page = JNum (int k), pgd_limit = JNum (int n), pgd_total = length (listing ps)\<rparr>"
  unfolding fetch_page listing_page gold_page [OF assms] Let_def GoldPage.select_convs
    limit_offset_page [OF assms(1,3,4)] bindS_simps ..

lemma pages_take:
  assumes "1 \<le> n" and "n \<le> 100" and "m * n < 2 ^ 53"
  shows "pages fetch ps n m = Inr (take (m * n) (listing ps))"
proof -
  have "fetch (page_params k n @ ps) = Inr \<lparr>pgd_items = take n (drop ((k - 1) * n) (listing ps)),
      pgd_page = JNum (int k), pgd_limit = JNum (int n), pgd_total = length (listing ps)\<rparr>"
    if "k \<in> set [1..<Suc m]" for k
  proof (rule fetch_nth)
    have "k * n \<le> m * n" using that by (intro mult_le_mono1) auto
    then show "k * n < 2 ^ 53" using assms(3) by linarith
  qed (use that assms in auto)
  then have "mapS (\<lambda>k. bindS (fetch (page_params k n @ ps)) (\<lambda>r. Inr (pgd_items r))) [1..<Suc m] =
      Inr (map (\<lambda>k. take n (drop ((k - 1) * n) (listing ps))) [1..<Suc m])"
    by (intro mapS_all_Inr) simp
  then show ?thesis by (simp only: pages_def bindS_simps concat_pages)
qed

lemma pages_listing:
  assumes "1 \<le> n" and "n \<le> 100" and "m * n < 2 ^ 53" and "length (listing ps) \<le> m * n"
  shows "pages fetch ps n m = Inr (listing ps)"
  using pages_take [OF assms(1-3)] assms(4) by simp

lemma fetch_bounded:
  assumes "fetch ps = Inr r"
  shows "length (pgd_items r) \<le> 100 \<and> pgd_total r = length (listing ps)"
proof -
  from assms obtain l s where l: "pg_bigint (gp_limit (gold_parsePagination ps)) = Inr l"
    and it: "pgd_items r = take (nat l) (drop s (listing ps))" and t: "pgd_total r = length (listing ps)"
    by (auto simp: fetch_page limit_offset_def bindS_eq_Inr Let_def split: if_splits)
  have "l \<le> 100" using gp_limit_cases [of ps] l by (auto simp: pg_bigint_NaN pg_bigint_small)
  then show ?thesis using it t by simp
qed

lemma fetch_page_NaN:
  assumes "param ps ''page'' = Some s" and "parseInt 10 s = JNaN"
  shows "fetch ps = Inl (SqlError (InvalidText ''bigint''))"
proof -
  let ?p = "gold_parsePagination ps"
  have "gp_limit ?p = JNaN \<or> (\<exists>i. 0 \<le> i \<and> i < 2 ^ 53 \<and> gp_limit ?p = JNum i) \<and> gp_offset ?p = JNaN"
    using gp_limit_cases [of ps] gp_offset_NaN [OF assms] by fastforce
  then have "limit_offset (gp_limit ?p) (gp_offset ?p) (listing ps) = Inl (SqlError (InvalidText ''bigint''))"
    by (rule limit_offset_NaN)
  then show ?thesis by (simp add: fetch_page Let_def)
qed

end

lemma length_order_by [simp]: "length (order_by k rows) = length rows"
  by (simp add: order_by_def)

lemma paginate_page: "paginate ps f rows = (let pgn = gold_parsePagination ps in
   bindS (limit_offset (gp_limit pgn) (gp_offset pgn) (map f (order_by fst rows))) (\<lambda>xs.
   Inr \<lparr>pgd_items = xs, pgd_page = gp_page pgn, pgd_limit = gp_limit pgn,
        pgd_total = length (map f (order_by fst rows))\<rparr>))"
  by (simp add: paginate_def limit_offset_map Let_def bindS_def split: sum.split)

interpretation staking_pages: paged_query "\<lambda>ps. fetchStakingEvents pg ps d"
  "\<lambda>ps. map staking_item (order_by fst (staking_rows pg ps d))" for pg d
  by unfold_locales (simp_all add: fetchStakingEvents_def paginate_page staking_rows_def finalizedOnly_def)

interpretation validator_pages: paged_query "\<lambda>ps. fetchValidatorEvents pg ps d"
  "\<lambda>ps. map validator_item (order_by fst (validator_rows pg ps d))" for pg d
  by unfold_locales (simp_all add: fetchValidatorEvents_def paginate_page validator_rows_def finalizedOnly_def)

interpretation delegation_pages: paged_query "\<lambda>ps. fetchDelegationEvents pg ps d"
  "\<lambda>ps. map (delegation_item pg d) (order_by fst (delegation_rows pg ps d))" for pg d
  by unfold_locales (simp_all add: fetchDelegationEvents_def paginate_page delegation_rows_def finalizedOnly_def)

interpretation checkpoint_pages: paged_query "\<lambda>ps. fetchCheckpoints pg ps d"
  "\<lambda>ps. map checkpoint_item (order_by fst (checkpoint_rows pg ps d))" for pg d
  by unfold_locales (simp_all add: fetchCheckpoints_def paginate_page checkpoint_rows_def finalizedOnly_def)

interpretation governance_pages: paged_query "\<lambda>ps. fetchGovernanceEvents pg ps d"
  "\<lambda>ps. map governance_item (order_by fst (governance_rows pg ps d))" for pg d
  by unfold_locales (simp_all add: fetchGovernanceEvents_def paginate_page governance_rows_def finalizedOnly_def)

interpretation receipt_pages: paged_query "\<lambda>ps. fetchRedemptionReceipts pg ps d"
  "\<lambda>ps. map (redemption_receipt pg d) (order_by (pg_collate pg) (receipt_ids ps d))" for pg d
  by unfold_locales
    (simp_all add: fetchRedemptionReceipts_def receipt_ids_def limit_offset_map Let_def bindS_def split: sum.split)

section \<open>Receipts\<close>

lemma set_with_ids: "snd ` set (with_ids pg t rows) = set rows"
proof -
  have "map snd (with_ids pg t rows) = rows"
    by (simp add: with_ids_def comp_def case_prod_beta)
  then show ?thesis by (metis list.set_map)
qed

lemma set_order_by [simp]: "set (order_by k rows) = set rows"
  by (simp add: order_by_def)

lemma receipt_stages:
  "set (rr_stages (redemption_receipt pg d c)) =
   mapReceiptStage ` {r \<in> set (bridge_transfers d). br_receiptCorrelationId r = c}"
proof -
  let ?t = "with_ids pg ''bridge_transfers'' (bridge_transfers d)"
  have "set (rr_stages (redemption_receipt pg d c)) =
      mapReceiptStage ` snd ` {p \<in> set ?t. br_receiptCorrelationId (snd p) = c}"
    by (simp add: redemption_receipt_def Let_def case_prod_beta image_image)
  also have "snd ` {p \<in> set ?t. br_receiptCorrelationId (snd p) = c} =
      {r \<in> snd ` set ?t. br_receiptCorrelationId r = c}"
    by blast
  finally show ?thesis by (simp add: set_with_ids)
qed

lemma receipt_complete_iff:
  "rr_complete (redemption_receipt pg d c) \<longleftrightarrow>
     (\<exists>r \<in> set (bridge_transfers d). br_receiptCorrelationId r = c \<and> br_bridgeState r = BurnedOrDebited) \<and>
     (\<exists>r \<in> set (bridge_transfers d). br_receiptCorrelationId r = c \<and> br_bridgeState r = Released) \<and>
     (\<forall>r \<in> set (bridge_transfers d). br_receiptCorrelationId r = c \<longrightarrow> br_finalityStatus r = Finalized)"
proof -
  let ?r = "redemption_receipt pg d c"
  have "rr_complete ?r \<longleftrightarrow> (\<exists>s \<in> set (rr_stages ?r). rs_bridgeState s = BurnedOrDebited) \<and>
      (\<exists>s \<in> set (rr_stages ?r). rs_bridgeState s = Released) \<and> (\<forall>s \<in> set (rr_stages ?r). rs_complete s)"
    by (simp add: redemption_receipt_def Let_def list_ex_iff list_all_iff)
  then show ?thesis unfolding receipt_stages by (auto simp: mapReceiptStage_def)
qed

lemma receipt_sorted: "sorted (map (\<lambda>s. stageRank (rs_bridgeState s)) (rr_stages (redemption_receipt pg d c)))"
  by (simp add: redemption_receipt_def Let_def)

lemma remdups_same: "(\<And>x. x \<in> set xs \<Longrightarrow> x = c) \<Longrightarrow> remdups xs = (if xs = [] then [] else [c])"
proof (induction xs)
  case (Cons x xs)
  then have "remdups xs = (if xs = [] then [] else [c])" and "x = c" by simp_all
  with Cons.prems show ?case by (cases xs) auto
qed simp

lemma parseInt_one: "parseInt 10 ''1'' = JNum 1"
  by code_simp

lemma receipt_by_id:
  assumes "c \<noteq> ''''"
  shows "fetchRedemptionReceiptById pg c d =
    Inr (if \<exists>r \<in> set (bridge_transfers d). br_receiptCorrelationId r = c \<and> br_bridgeState r \<in> {BurnedOrDebited, Released}
         then Some (redemption_receipt pg d c) else None)"
proof -
  let ?ps = "[(''receiptCorrelationId'', c), (''page'', ''1''), (''limit'', ''1'')]"
  let ?rows = "filter (\<lambda>r. br_bridgeState r \<in> {BurnedOrDebited, Released} \<and> br_receiptCorrelationId r = c) (bridge_transfers d)"
  have "receipt_ids ?ps d = remdups (map br_receiptCorrelationId ?rows)"
    using assms by (simp add: receipt_ids_def param_def truthy_def)
  also have "\<dots> = (if ?rows = [] then [] else [c])"
    by (subst remdups_same [of _ c]) auto
  finally have ids: "receipt_ids ?ps d = (if ?rows = [] then [] else [c])" .
  have pgn: "gold_parsePagination ?ps = \<lparr>gp_page = JNum 1, gp_limit = JNum 1, gp_offset = JNum 0\<rparr>"
    by (simp add: gold_parsePagination_def param_def parseInt_one js_max_def js_min_def number_of_bigint_exact Let_def)
  have l: "limit_offset (JNum 1) (JNum 0) xs = Inr (take 1 xs)" for xs :: "string list"
    by (simp add: limit_offset_def pg_bigint_small)
  have "fetchRedemptionReceiptById pg c d = Inr (if ?rows = [] then None else Some (redemption_receipt pg d c))"
    unfolding fetchRedemptionReceiptById_def fetchRedemptionReceipts_def pgn ids Let_def
    by (simp add: l order_by_def)
  then show ?thesis by (auto simp: filter_empty_conv)
qed

end
