(* ===== verification/GoldBoards.thy ===== *)
theory GoldBoards
  imports GoldQueries
begin

text \<open>
  The views of \<^verbatim>\<open>packages/api/src/gold\<close> that aggregate: \<^verbatim>\<open>solvency.ts\<close>, \<^verbatim>\<open>delegations.ts\<close>,
  \<^verbatim>\<open>validator-set.ts\<close>, \<^verbatim>\<open>governance-board.ts\<close> and \<^verbatim>\<open>checkpoint-status.ts\<close>.  Groups without an
  \<^verbatim>\<open>ORDER BY\<close> come in the order in which their key first appears.
\<close>

section \<open>solvency.ts\<close>

record SolvencyAsset =
  sa_routeAsset :: RouteAsset
  sa_goldTokenId :: string
  sa_lockedOnEthereum :: string
  sa_goldSupply :: string

record SolvencyResult =
  sr_paxg :: SolvencyAsset
  sr_xaut :: SolvencyAsset

definition bridge_sum :: "BridgeState \<Rightarrow> RouteAsset \<Rightarrow> db \<Rightarrow> numeric" where
  "bridge_sum st asset d =
     numeric_sum (map (\<lambda>r. numeric_val (br_rootAmount r))
       (filter (\<lambda>r. br_routeAsset r = asset \<and> br_bridgeState r = st \<and> br_finalityStatus r = Finalized \<and>
                    br_sourceLayer r = Ethereum) (bridge_transfers d)))"

definition LOCKED_SUM_SQL :: "RouteAsset \<Rightarrow> db \<Rightarrow> string" where
  "LOCKED_SUM_SQL asset d = numeric_text (bridge_sum Locked asset d)"

definition RELEASED_SUM_SQL :: "RouteAsset \<Rightarrow> db \<Rightarrow> string" where
  "RELEASED_SUM_SQL asset d = numeric_text (bridge_sum Released asset d)"

definition netLocked :: "string \<Rightarrow> string \<Rightarrow> js_error + string" where
  "netLocked locked released =
     bindS (BigInt locked) (\<lambda>lockedAmount. bindS (BigInt released) (\<lambda>releasedAmount.
     Inr (bigint_str 10 (lockedAmount - releasedAmount))))"

definition outstandingLockedTotal :: "RouteAsset \<Rightarrow> db \<Rightarrow> js_error + string" where
  "outstandingLockedTotal asset d = netLocked (LOCKED_SUM_SQL asset d) (RELEASED_SUM_SQL asset d)"

text \<open>\<^verbatim>\<open>WHERE token_id = $1\<close>; a parameter that is no integer equals no stored id.\<close>

definition supply_of :: "numeric option \<Rightarrow> db \<Rightarrow> string" where
  "supply_of k d =
     (case filter (\<lambda>r. Some (gs_tokenId r) = k) (gold_supply d) of
        [] \<Rightarrow> ''0'' | r # _ \<Rightarrow> bigint_str 10 (gs_supply r))"

definition goldSupply :: "Pg \<Rightarrow> string \<Rightarrow> db \<Rightarrow> js_error + string" where
  "goldSupply pg tokenId d = bindS (pg_numeric pg tokenId) (\<lambda>k. Inr (supply_of k d))"

definition computeSolvency :: "Pg \<Rightarrow> db \<Rightarrow> js_error + SolvencyResult" where
  "computeSolvency pg d =
     bindS (outstandingLockedTotal Paxg d) (\<lambda>paxgLocked.
     bindS (outstandingLockedTotal Xaut d) (\<lambda>xautLocked.
     bindS (goldSupply pg ''1'' d) (\<lambda>goldId1.
     bindS (goldSupply pg ''2'' d) (\<lambda>goldId2.
     Inr \<lparr>sr_paxg = \<lparr>sa_routeAsset = Paxg, sa_goldTokenId = ''1'', sa_lockedOnEthereum = paxgLocked,
                     sa_goldSupply = goldId1\<rparr>,
          sr_xaut = \<lparr>sa_routeAsset = Xaut, sa_goldTokenId = ''2'', sa_lockedOnEthereum = xautLocked,
                     sa_goldSupply = goldId2\<rparr>\<rparr>))))"

section \<open>delegations.ts\<close>

record DelegationRow =
  dg_delegator :: string
  dg_validator :: string
  dg_stakeAsset :: StakeAsset
  dg_amount :: string

record UnbondingRow =
  ub_delegator :: string
  ub_validator :: "string option"
  ub_stakeAsset :: StakeAsset
  ub_amount :: string

text \<open>\<^verbatim>\<open>CASE WHEN event_type = 'stake' THEN amount WHEN event_type = 'unstake' THEN -amount ELSE 0 END\<close>\<close>

definition stake_delta :: "StakingEventRow \<Rightarrow> numeric" where
  "stake_delta r =
     (if st_eventType r = ''stake'' then numeric_val (st_amount r)
      else if st_eventType r = ''unstake'' then numeric_neg (numeric_val (st_amount r))
      else NumInt 0)"

definition stake_rows :: "db \<Rightarrow> StakingEventRow list" where
  "stake_rows d =
     filter (\<lambda>r. st_finalityStatus r = Finalized \<and> st_eventType r \<in> {''stake'', ''unstake''}) (staking_events d)"

definition net_stake :: "(StakingEventRow \<Rightarrow> bool) \<Rightarrow> db \<Rightarrow> numeric" where
  "net_stake p d = numeric_sum (map stake_delta (filter p (stake_rows d)))"

definition delegation_key :: "StakingEventRow \<Rightarrow> string \<times> string option \<times> StakeAsset" where
  "delegation_key r = (st_stakerAddress r, st_validatorAddress r, st_stakeAsset r)"

definition delegation_groups :: "db \<Rightarrow> ((string \<times> string option \<times> StakeAsset) \<times> numeric) list" where
  "delegation_groups d =
     filter (\<lambda>(k, v). v \<noteq> NumInt 0)
       (map (\<lambda>k. (k, net_stake (\<lambda>r. delegation_key r = k) d)) (remdups (map delegation_key (stake_rows d))))"

definition computeDelegations :: "db \<Rightarrow> DelegationRow list \<times> UnbondingRow list" where
  "computeDelegations d =
     (List.map_filter (\<lambda>((s, v, a), n). map_option (\<lambda>validator.
          \<lparr>dg_delegator = s, dg_validator = validator, dg_stakeAsset = a, dg_amount = numeric_text n\<rparr>) v)
        (delegation_groups d),
      map (\<lambda>r. \<lparr>ub_delegator = st_stakerAddress r, ub_validator = st_validatorAddress r,
                ub_stakeAsset = st_stakeAsset r, ub_amount = column_text (st_amount r)\<rparr>)
        (filter (\<lambda>r. st_finalityStatus r = Finalized \<and> st_eventType r = ''unbond'') (staking_events d)))"

section \<open>validator-set.ts\<close>

record ValidatorSetRow =
  vs_validatorAddress :: string
  vs_votingPower :: string
  vs_giltStake :: string
  vs_goldId1Stake :: string
  vs_goldId2Stake :: string
  vs_commissionBps :: jsnum
  vs_jailed :: bool
  vs_elected :: bool

text \<open>\<^verbatim>\<open>GROUP BY validator_address, stake_asset\<close> of the stakes that name a validator.\<close>

definition stake_groups :: "db \<Rightarrow> ((string \<times> StakeAsset) \<times> string) list" where
  "stake_groups d =
     map (\<lambda>(v, a). ((v, a), numeric_text (net_stake (\<lambda>r. st_validatorAddress r = Some v \<and> st_stakeAsset r = a) d)))
       (remdups (List.map_filter (\<lambda>r. map_option (\<lambda>v. (v, st_stakeAsset r)) (st_validatorAddress r)) (stake_rows d)))"

text \<open>The map \<^verbatim>\<open>stakeByValidator\<close>: a later group would replace an earlier one of the same key.\<close>

definition stakeByValidator :: "db \<Rightarrow> string \<Rightarrow> StakeAsset \<Rightarrow> string option" where
  "stakeByValidator d =
     foldl (\<lambda>m row. case row of ((v, a), n) \<Rightarrow> m(v := (m v)(a := Some n))) (\<lambda>_ _. None) (stake_groups d)"

definition latest_validator_event :: "Pg \<Rightarrow> db \<Rightarrow> string \<Rightarrow> ValidatorEventRow option" where
  "latest_validator_event pg d a =
     (case order_by_desc (\<lambda>(i, r). (num_key (ve_blockNumber r), i))
         (filter (\<lambda>(i, r). ve_validatorAddress r = a \<and> ve_finalityStatus r = Finalized)
           (with_ids pg ''validator_events'' (validator_events d))) of
        [] \<Rightarrow> None | (i, r) # _ \<Rightarrow> Some r)"

definition validator_set_row :: "Pg \<Rightarrow> db \<Rightarrow> string \<Rightarrow> js_error + ValidatorSetRow" where
  "validator_set_row pg d a =
     (let latest = latest_validator_event pg d a;
          stakes = stakeByValidator d a;
          giltStake = (case stakes Gilt of None \<Rightarrow> ''0'' | Some s \<Rightarrow> s);
          goldId1Stake = (case stakes GoldId1 of None \<Rightarrow> ''0'' | Some s \<Rightarrow> s);
          goldId2Stake = (case stakes GoldId2 of None \<Rightarrow> ''0'' | Some s \<Rightarrow> s) in
      bindS (BigInt giltStake) (\<lambda>g. bindS (BigInt goldId1Stake) (\<lambda>i1. bindS (BigInt goldId2Stake) (\<lambda>i2.
      Inr \<lparr>vs_validatorAddress = a, vs_votingPower = bigint_str 10 (g + i1 + i2), vs_giltStake = giltStake,
           vs_goldId1Stake = goldId1Stake, vs_goldId2Stake = goldId2Stake,
           vs_commissionBps = (case latest of None \<Rightarrow> JNum 0 | Some r \<Rightarrow> ve_commissionBps r),
           vs_jailed = (case latest of None \<Rightarrow> False | Some r \<Rightarrow> ve_jailed r),
           vs_elected = (case latest of None \<Rightarrow> False | Some r \<Rightarrow> ve_elected r)\<rparr>))))"

definition computeValidatorSet :: "Pg \<Rightarrow> db \<Rightarrow> js_error + ValidatorSetRow list" where
  "computeValidatorSet pg d =
     mapS (validator_set_row pg d)
       (order_by (pg_collate pg) (remdups (map ve_validatorAddress
         (filter (\<lambda>r. ve_finalityStatus r = Finalized) (validator_events d)))))"

section \<open>governance-board.ts\<close>

record GovernanceVote =
  vote_voterAddress :: "string option"
  vote_support :: "GovernanceSupport option"

record GovernanceProposal =
  prop_proposalId :: "string option"
  prop_proposerAddress :: "string option"
  prop_votes :: "GovernanceVote list"

record TimelockQueueItem =
  tq_proposalId :: "string option"
  tq_timelockEta :: string

record GovernanceBoard =
  gb_proposals :: "GovernanceProposal list"
  gb_timelockQueue :: "TimelockQueueItem list"

text \<open>The finalized events of a type, \<^verbatim>\<open>ORDER BY block_number ASC, id ASC\<close>.\<close>

definition finalized_events :: "Pg \<Rightarrow> string \<Rightarrow> db \<Rightarrow> GovernanceEventRow list" where
  "finalized_events pg ty d =
     map snd (order_by (\<lambda>(i, r). (num_key (gov_blockNumber r), i))
       (filter (\<lambda>(i, r). gov_finalityStatus r = Finalized \<and> gov_eventType r = ty)
         (with_ids pg ''governance_events'' (governance_events d))))"

text \<open>Equality of two columns; null equals nothing.\<close>

definition sql_eq :: "'a option \<Rightarrow> 'a option \<Rightarrow> bool" where
  "sql_eq a b \<longleftrightarrow> a \<noteq> None \<and> a = b"

definition proposal_votes :: "Pg \<Rightarrow> db \<Rightarrow> string option \<Rightarrow> GovernanceVote list" where
  "proposal_votes pg d pid =
     map (\<lambda>v. \<lparr>vote_voterAddress = gov_voterAddress v, vote_support = gov_support v\<rparr>)
       (filter (\<lambda>v. sql_eq (gov_proposalId v) pid) (finalized_events pg ''vote'' d))"

definition timelock_item :: "GovernanceEventRow \<Rightarrow> js_error + TimelockQueueItem" where
  "timelock_item r =
     (case gov_timelockEta r of
        None \<Rightarrow> Inl TypeError
      | Some eta \<Rightarrow> Inr \<lparr>tq_proposalId = gov_proposalId r, tq_timelockEta = unix_text eta\<rparr>)"

definition computeGovernanceBoard :: "Pg \<Rightarrow> db \<Rightarrow> js_error + GovernanceBoard" where
  "computeGovernanceBoard pg d =
     (let proposals = map (\<lambda>created.
            \<lparr>prop_proposalId = gov_proposalId created, prop_proposerAddress = gov_proposerAddress created,
             prop_votes = proposal_votes pg d (gov_proposalId created)\<rparr>)
            (finalized_events pg ''proposal_created'' d);
          queued = filter (\<lambda>q. \<not> list_ex (\<lambda>e. gov_finalityStatus e = Finalized \<and> gov_eventType e = ''executed'' \<and>
              sql_eq (gov_proposalId e) (gov_proposalId q)) (governance_events d))
            (finalized_events pg ''queued'' d) in
      bindS (mapS timelock_item queued) (\<lambda>timelockQueue.
      Inr \<lparr>gb_proposals = proposals, gb_timelockQueue = timelockQueue\<rparr>))"

section \<open>checkpoint-status.ts\<close>

record LastCommitted =
  lc_blockNumber :: jsnum
  lc_checkpointHash :: string
  lc_validatorSetHash :: string

record CheckpointStatus =
  cs_lastCommitted :: "LastCommitted option"
  cs_halted :: bool
  cs_diverged :: bool

definition computeCheckpointStatus :: "Pg \<Rightarrow> db \<Rightarrow> CheckpointStatus" where
  "computeCheckpointStatus pg d =
     (let committed = order_by_desc (\<lambda>(i, r). (num_key (cp_blockNumber r), i))
            (filter (\<lambda>(i, r). cp_finalityStatus r = Finalized \<and> cp_chainStatus r = Committed)
              (with_ids pg ''checkpoints'' (checkpoints d)));
          halted = length (filter (\<lambda>r. cp_finalityStatus r = Finalized \<and> cp_chainStatus r = Halted) (checkpoints d));
          diverged = length (filter (\<lambda>r. cp_finalityStatus r = Finalized \<and> cp_chainStatus r = Diverged) (checkpoints d))
      in \<lparr>cs_lastCommitted = (case committed of
             [] \<Rightarrow> None
           | (i, r) # _ \<Rightarrow> Some \<lparr>lc_blockNumber = cp_blockNumber r, lc_checkpointHash = cp_checkpointHash r,
                                lc_validatorSetHash = cp_validatorSetHash r\<rparr>),
          cs_halted = (0 < halted), cs_diverged = (0 < diverged)\<rparr>)"

end
