(* ===== verification/GoldRows.thy ===== *)
theory GoldRows
  imports IndexerProps GoldBoards
begin

text \<open>
  What the rows of the Gold Chain tables look like in every database the indexer can leave: amounts
  are integers, and the event types, flags and states are those the jobs write.  The views of the
  interface rest on it.  The locale \<open>indexer_invariant\<close> says what a predicate of the database has to
  survive to hold after every call of the indexer; it is interpreted for \<open>gold_rows\<close>, and for
  \<open>no_bytecode\<close>: the contracts recorded by the jobs have no code.
\<close>

section \<open>The invariant\<close>

definition numeric_int :: "string \<Rightarrow> bool" where
  "numeric_int s = (case numeric_val s of NumInt i \<Rightarrow> True | _ \<Rightarrow> False)"

definition bridge_ok :: "BridgeTransferRow \<Rightarrow> bool" where
  "bridge_ok r \<longleftrightarrow> numeric_int (br_rootAmount r) \<and> numeric_int (br_childAmount r)"

definition staking_ok :: "StakingEventRow \<Rightarrow> bool" where
  "staking_ok r \<longleftrightarrow> st_eventType r \<in> {''stake'', ''unstake'', ''unbond''} \<and> numeric_int (st_amount r) \<and>
     st_validatorAddress r \<noteq> None \<and> (st_eventType r = ''unstake'' \<longrightarrow> st_stakeAsset r \<noteq> Gilt)"

definition validator_ok :: "ValidatorEventRow \<Rightarrow> bool" where
  "validator_ok r \<longleftrightarrow> (ve_eventType r \<noteq> ''created'' \<longrightarrow> ve_commissionBps r = JNum 0) \<and>
     (ve_jailed r \<longleftrightarrow> ve_eventType r = ''jailed'') \<and> (ve_elected r \<longleftrightarrow> ve_eventType r = ''elected'')"

definition governance_ok :: "GovernanceEventRow \<Rightarrow> bool" where
  "governance_ok r \<longleftrightarrow> gov_eventType r \<in> {''proposal_created'', ''vote'', ''queued'', ''executed''} \<and>
     gov_proposalId r \<noteq> None"

definition checkpoint_ok :: "CheckpointRow \<Rightarrow> bool" where
  "checkpoint_ok r \<longleftrightarrow> cp_chainStatus r \<noteq> Diverged"

definition gold_rows :: "db \<Rightarrow> bool" where
  "gold_rows d \<longleftrightarrow> (\<forall>r \<in> set (bridge_transfers d). bridge_ok r) \<and> (\<forall>r \<in> set (staking_events d). staking_ok r) \<and>
     (\<forall>r \<in> set (validator_events d). validator_ok r) \<and> (\<forall>r \<in> set (governance_events d). governance_ok r) \<and>
     (\<forall>r \<in> set (checkpoints d). checkpoint_ok r)"

lemmas row_ok_defs = bridge_ok_def staking_ok_def validator_ok_def governance_ok_def checkpoint_ok_def

lemma numeric_int_bigint_str [simp]: "numeric_int (bigint_str 10 i)"
  by (simp add: numeric_int_def numeric_val_def numeric_in_bigint_str)

lemma numeric_intE:
  assumes "numeric_int s"
  obtains "numeric_val s = NumInt (amount_val s)"
  using assms by (auto simp: numeric_int_def amount_val_def split: numeric.splits)

section \<open>The decoders\<close>

lemma preserves_lift_bind:
  "(\<And>x. v = Inr x \<Longrightarrow> preserves P (g x)) \<Longrightarrow> preserves P (bindM (liftS v) g)"
  by (cases v) (simp_all add: preserves_def bindM_def liftS_def)

lemma preserves_found:
  "(\<And>x. v = Some x \<Longrightarrow> preserves P (g x)) \<Longrightarrow> preserves P m \<Longrightarrow> preserves P (case v of None \<Rightarrow> m | Some x \<Rightarrow> g x)"
  by (cases v) auto

lemma decodeBridgeLog_ok: "decodeBridgeLog log st = Inr (Some r) \<Longrightarrow> bridge_ok r"
  by (auto simp: decodeBridgeLog_def decodeLockedScaled_def decodeMigrationMint_def bridge_ok_def Let_def
      decodeGoldRedemptionRequested_def decodeExitedScaled_def bindS_eq_Inr split: if_splits)

lemma stakeAsset_gold: "stakeAssetFromTokenId t = Inr a \<Longrightarrow> a \<noteq> Gilt"
  by (auto simp: stakeAssetFromTokenId_def Let_def split: if_splits)

lemma decodeStakingEvent_ok: "decodeStakingEvent log st = Inr (Some r) \<Longrightarrow> staking_ok r"
  using stakeAsset_gold
  by (auto simp: decodeStakingEvent_def staking_row_def staking_ok_def bindS_eq_Inr split: if_splits)

lemma decodeValidatorEvent_ok: "decodeValidatorEvent cs log st = Inr (Some r) \<Longrightarrow> validator_ok r"
  by (auto simp: decodeValidatorEvent_def validator_row_def validator_ok_def bindS_eq_Inr Let_def split: if_splits)

lemma decodeGovernanceEvent_ok: "decodeGovernanceEvent log st = Inr (Some r) \<Longrightarrow> governance_ok r"
  by (auto simp: decodeGovernanceEvent_def governance_row_def governance_ok_def bindS_eq_Inr Let_def split: if_splits)

lemma decodeCheckpointEvent_ok: "decodeCheckpointEvent log st = Inr (Some r) \<Longrightarrow> checkpoint_ok r"
  by (auto simp: decodeCheckpointEvent_def decodeNewHeaderBlock_def decodeCommitmentPlanted_def
      decodeCommitmentUpdated_def checkpoint_row_def checkpoint_ok_def bindS_eq_Inr Let_def split: if_splits)

section \<open>Statements on other tables\<close>

definition gold_part ::
  "db \<Rightarrow> BridgeTransferRow list \<times> StakingEventRow list \<times> ValidatorEventRow list \<times> GovernanceEventRow list \<times> CheckpointRow list" where
  "gold_part d = (bridge_transfers d, staking_events d, validator_events d, governance_events d, checkpoints d)"

lemma gold_part_preserves: "keeps gold_part m \<Longrightarrow> preserves gold_rows m"
  by (auto simp: keeps_def preserves_def gold_rows_def gold_part_def)

lemma part_ensureAddress [keeps_intros]: "keeps gold_part (ensureAddress a)"
  unfolding ensureAddress_def by (rule keeps_modify) (simp add: gold_part_def)

lemma part_ensure_optional [keeps_intros]: "keeps gold_part (ensure_optional a)"
  unfolding ensure_optional_def by (intro keeps_intros)

lemma part_upserts [keeps_intros]:
  "keeps gold_part (upsertReceipt rc)" "keeps gold_part (upsertInternalTx it)" "keeps gold_part (upsertContract a b)"
  "keeps gold_part (upsertTokenContract a t n s dc)" "keeps gold_part (upsertTokenTransfer tt)"
  "keeps gold_part (upsertLog lg)" "keeps gold_part (upsertTransaction tx)" "keeps gold_part (upsertBlock bl)"
  unfolding upsertReceipt_def upsertInternalTx_def upsertContract_def upsertTokenContract_def
    upsertTokenTransfer_def upsertLog_def upsertTransaction_def upsertBlock_def
  by (intro keeps_intros keeps_statement; simp add: gold_part_def)+

lemma part_refresh [keeps_intros]:
  "keeps gold_part (refreshTokenBalancesForContract c)" "keeps gold_part refreshGoldSupply"
  unfolding refreshTokenBalancesForContract_def refreshGoldSupply_def
  by (intro keeps_intros keeps_statement keeps_modify; simp add: gold_part_def)+

lemma part_evm [keeps_intros]:
  "keeps gold_part (clearEvmDerivedRowsForBlock n)" "keeps gold_part (markEvmDerivedRowsReverted n)"
  "keeps gold_part (markOrphanedTransactionsReverted n hs)" "keeps gold_part (updateEvmFinalityForBlock n st)"
  unfolding clearEvmDerivedRowsForBlock_def markEvmDerivedRowsReverted_def markOrphanedTransactionsReverted_def
    updateEvmFinalityForBlock_def
  by (intro keeps_intros keeps_modify; simp add: gold_part_def)+

lemma part_jobs:
  "keeps gold_part (processReceipts rpc h)" "keeps gold_part (processContractDetection r)"
  "keeps gold_part (processLogs ls st)"
  "keeps gold_part (processTokenTransfersErc20Erc721 ls st)" "keeps gold_part (processTokenTransfersErc1155 ls st)"
  "keeps gold_part (processInternalTxs rpc h n st)"
  unfolding processReceipts_def processContractDetection_def processLogs_def processTokenTransfersErc20Erc721_def
    processTokenTransfersErc1155_def writeTransfer_def processInternalTxs_def
  by (intro keeps_intros)+

section \<open>Statements on the Gold Chain tables\<close>

lemma row_ok_set_fin [simp]:
  "bridge_ok (set_br_fin st b) = bridge_ok b" "staking_ok (set_st_fin st s) = staking_ok s"
  "validator_ok (set_ve_fin st v) = validator_ok v" "governance_ok (set_gov_fin st g) = governance_ok g"
  "checkpoint_ok (set_cp_fin st c) = checkpoint_ok c"
  by (simp_all add: row_ok_defs)

lemma gold_rows_marks:
  "preserves gold_rows (markGoldDerivedRowsReverted n)" "preserves gold_rows (clearGoldDerivedRowsForBlock n)"
  "preserves gold_rows (updateGoldFinalityForBlock n st)"
  unfolding markGoldDerivedRowsReverted_def clearGoldDerivedRowsForBlock_def updateGoldFinalityForBlock_def
  by (intro preserves_intros preserves_modify; auto simp: gold_rows_def mark_at_def refresh_at_def)+

lemma gold_rows_insertBridge: "bridge_ok r \<Longrightarrow> preserves gold_rows (insertBridgeTransfer r)"
  unfolding insertBridgeTransfer_def
  by (intro preserves_intros preserves_modify preserves_statement) (auto simp: gold_rows_def)

lemma gold_rows_insertStaking: "staking_ok r \<Longrightarrow> preserves gold_rows (insertStakingEvent r)"
  unfolding insertStakingEvent_def
  by (intro preserves_then gold_part_preserves [OF part_ensureAddress] gold_part_preserves [OF part_ensure_optional]
      preserves_statement) (auto simp: gold_rows_def)

lemma gold_rows_insertValidator: "validator_ok r \<Longrightarrow> preserves gold_rows (insertValidatorEvent r)"
  unfolding insertValidatorEvent_def
  by (intro preserves_then gold_part_preserves [OF part_ensureAddress] preserves_statement) (auto simp: gold_rows_def)

lemma gold_rows_insertGovernance: "governance_ok r \<Longrightarrow> preserves gold_rows (insertGovernanceEvent r)"
  unfolding insertGovernanceEvent_def
  by (intro preserves_then gold_part_preserves [OF part_ensure_optional] preserves_statement) (auto simp: gold_rows_def)

lemma gold_rows_insertCheckpoint: "checkpoint_ok r \<Longrightarrow> preserves gold_rows (insertCheckpoint r)"
  unfolding insertCheckpoint_def by (intro preserves_statement) (auto simp: gold_rows_def)

lemma gold_rows_jobs:
  "preserves gold_rows (processBridgeEvents ls st)" "preserves gold_rows (processStakingEvents ls st)"
  "preserves gold_rows (processValidatorEvents ls st)" "preserves gold_rows (processGovernanceEvents ls st)"
  "preserves gold_rows (processCheckpointEvents ls st)"
  unfolding processBridgeEvents_def processStakingEvents_def processValidatorEvents_def
    processGovernanceEvents_def processCheckpointEvents_def
  by (intro preserves_for preserves_if preserves_basic preserves_lift_bind preserves_found
      gold_rows_insertBridge gold_rows_insertStaking gold_rows_insertValidator gold_rows_insertGovernance
      gold_rows_insertCheckpoint;
      auto intro: decodeBridgeLog_ok decodeStakingEvent_ok decodeValidatorEvent_ok decodeGovernanceEvent_ok
        decodeCheckpointEvent_ok)+

lemma gold_rows_jobs_keep: "jobs_keep gold_rows rpc"
  unfolding jobs_keep_def by (intro conjI allI gold_rows_jobs gold_part_preserves part_jobs)

lemma rows_mark_blocks: "preserves gold_rows (modifyM (\<lambda>d. d\<lparr>blocks := f d\<rparr>))"
  by (rule gold_part_preserves, rule keeps_modify) (simp add: gold_part_def)

lemma rows_mark_transfers: "preserves gold_rows (modifyM (\<lambda>d. d\<lparr>token_transfers := f d\<rparr>))"
  by (rule gold_part_preserves, rule keeps_modify) (simp add: gold_part_def)

lemma rows_writer:
  "preserves gold_rows (markBlockRevertedByNumber n)" "preserves gold_rows (markBlockRevertedFromNumber n)"
  "preserves gold_rows (clearDerivedRowsForBlock n)" "preserves gold_rows (updateFinalityForRange env a b h rf)"
  unfolding markBlockRevertedByNumber_def markBlockRevertedFromNumber_def clearDerivedRowsForBlock_def
    updateFinalityForRange_def markBlockDerivedRowsReverted_def
  by (intro preserves_then preserves_bind preserves_basic preserves_for rows_mark_blocks rows_mark_transfers
      gold_rows_marks gold_part_preserves part_evm part_refresh)+

section \<open>Invariants of the indexer\<close>

text \<open>
  What a predicate of the database has to survive to hold in every database the indexer leaves: the
  jobs, and the statements \<^verbatim>\<open>processBlock\<close> and \<^verbatim>\<open>indexToHead\<close> issue beside them.
\<close>

locale indexer_invariant =
  fixes P :: "db \<Rightarrow> bool"
  assumes at_start: "P empty_db"
    and by_jobs: "jobs_keep P rpc"
    and by_upsertTransaction: "preserves P (upsertTransaction tx)"
    and by_upsertBlock: "preserves P (upsertBlock bl)"
    and by_markOrphaned: "preserves P (markOrphanedTransactionsReverted n hs)"
    and by_markByNumber: "preserves P (markBlockRevertedByNumber n)"
    and by_markFromNumber: "preserves P (markBlockRevertedFromNumber n)"
    and by_clearDerived: "preserves P (clearDerivedRowsForBlock n)"
    and by_updateFinality: "preserves P (updateFinalityForRange env a b h rf)"
begin

definition holds :: "world \<Rightarrow> bool" where
  "holds w \<longleftrightarrow> P (w_db w)"

lemma holds_dbM: "preserves P m \<Longrightarrow> preserves holds (dbM m)"
  using preserves_dbM [of P m] by (simp add: holds_def [abs_def])

lemma holds_onIndexed: "preserves holds (onIndexed ev)"
  unfolding holds_def by (rule preserves_onIndexed)

lemma holds_state: "preserves holds (modifyM (\<lambda>w. w\<lparr>w_state := f w\<rparr>))"
  by (rule preserves_modify) (simp add: holds_def)

lemma keep_reorg_checks: "preserves P (process_reorg_checks n b)"
  unfolding process_reorg_checks_def
  by (intro preserves_then preserves_when preserves_bind preserves_basic by_markByNumber by_markFromNumber by_clearDerived)

lemma keep_process_tx: "preserves holds (process_tx rpc n st tx)"
  unfolding process_tx_def
  by (intro preserves_bind preserves_then preserves_basic holds_onIndexed holds_dbM by_upsertTransaction)

lemma keep_processBlock: "preserves holds (processBlock env rpc n head)"
  unfolding processBlock_def
  by (intro preserves_option preserves_bind preserves_then preserves_basic preserves_for holds_onIndexed holds_state
      keep_process_tx holds_dbM keep_reorg_checks preserves_runBlockJobs by_jobs by_upsertBlock by_markOrphaned by_clearDerived)

lemma keep_process_range: "preserves holds (process_range env rpc head a b)"
  unfolding process_range_def by (intro preserves_for preserves_bind preserves_basic keep_processBlock)

lemma keep_indexToHead: "preserves holds (indexToHead env rpc)"
  unfolding indexToHead_def Let_def
  by (intro preserves_intros keep_process_range holds_dbM by_updateFinality)

lemma keep_indexBlockNumbers: "preserves holds (indexBlockNumbers env rpc ns)"
  unfolding indexBlockNumbers_def Let_def
  by (intro preserves_intros keep_processBlock holds_dbM by_updateFinality)

lemma in_reached: "reached w \<Longrightarrow> P (w_db w)"
proof (induction rule: reached.induct)
  case reached_start
  then show ?case by (simp add: at_start)
next
  case (reached_head w env rpc)
  then show ?case using preservesD [OF keep_indexToHead] by (simp add: holds_def)
next
  case (reached_blocks w env rpc ns)
  then show ?case using preservesD [OF keep_indexBlockNumbers] by (simp add: holds_def)
next
  case (reached_block w env rpc n head)
  then show ?case using preservesD [OF keep_processBlock] by (simp add: holds_def)
qed

end

interpretation rows_inv: indexer_invariant gold_rows
proof
  show "gold_rows empty_db" by (simp add: gold_rows_def empty_db_def)
qed (intro gold_rows_jobs_keep rows_writer gold_part_preserves part_upserts part_evm)+

section \<open>Contracts have no bytecode\<close>

text \<open>The jobs record contracts without their code, so the column stays null.\<close>

definition no_bytecode :: "db \<Rightarrow> bool" where
  "no_bytecode d \<longleftrightarrow> (\<forall>c \<in> set (contracts d). c_bytecode c = None)"

lemma contracts_preserves: "keeps contracts m \<Longrightarrow> preserves no_bytecode m"
  by (auto simp: keeps_def preserves_def no_bytecode_def)

lemma code_ensureAddress [keeps_intros]: "keeps contracts (ensureAddress a)"
  unfolding ensureAddress_def by (rule keeps_modify) simp

lemma code_ensure_optional [keeps_intros]: "keeps contracts (ensure_optional a)"
  unfolding ensure_optional_def by (intro keeps_intros)

lemma code_statements [keeps_intros]:
  "keeps contracts (upsertReceipt rc)" "keeps contracts (upsertInternalTx it)"
  "keeps contracts (upsertLog lg)" "keeps contracts (upsertTransaction tx)" "keeps contracts (upsertBlock bl)"
  "keeps contracts (insertBridgeTransfer br)" "keeps contracts (insertStakingEvent se)"
  "keeps contracts (insertValidatorEvent ve)" "keeps contracts (insertGovernanceEvent ge)" "keeps contracts (insertCheckpoint cp)"
  "keeps contracts (refreshTokenBalancesForContract a)" "keeps contracts refreshGoldSupply"
  unfolding upsertReceipt_def upsertInternalTx_def upsertLog_def upsertTransaction_def upsertBlock_def
    insertBridgeTransfer_def insertStakingEvent_def insertValidatorEvent_def insertGovernanceEvent_def insertCheckpoint_def
    refreshTokenBalancesForContract_def refreshGoldSupply_def
  by (intro keeps_intros keeps_statement keeps_modify; simp)+

lemma code_marks [keeps_intros]:
  "keeps contracts (clearEvmDerivedRowsForBlock n)" "keeps contracts (markEvmDerivedRowsReverted n)"
  "keeps contracts (markOrphanedTransactionsReverted n hs)" "keeps contracts (updateEvmFinalityForBlock n st)"
  "keeps contracts (markGoldDerivedRowsReverted n)" "keeps contracts (clearGoldDerivedRowsForBlock n)"
  "keeps contracts (updateGoldFinalityForBlock n st)"
  unfolding clearEvmDerivedRowsForBlock_def markEvmDerivedRowsReverted_def markOrphanedTransactionsReverted_def
    updateEvmFinalityForBlock_def markGoldDerivedRowsReverted_def clearGoldDerivedRowsForBlock_def updateGoldFinalityForBlock_def
  by (intro keeps_intros keeps_modify; simp)+

lemma code_writer:
  "keeps contracts (markBlockRevertedByNumber n)" "keeps contracts (markBlockRevertedFromNumber n)"
  "keeps contracts (clearDerivedRowsForBlock n)" "keeps contracts (updateFinalityForRange env a b h rf)"
  unfolding markBlockRevertedByNumber_def markBlockRevertedFromNumber_def clearDerivedRowsForBlock_def
    updateFinalityForRange_def markBlockDerivedRowsReverted_def
  by (intro keeps_intros keeps_modify; simp)+

lemma code_upsertContract: "preserves no_bytecode (upsertContract a None)"
proof -
  have "no_bytecode (d\<lparr>contracts := upsert (\<lambda>c. c_address c = a) (\<lambda>c. c\<lparr>c_bytecode := coalesce None (c_bytecode c)\<rparr>)
      \<lparr>c_address = a, c_bytecode = None\<rparr> (contracts d)\<rparr>)" if "no_bytecode d" for d
    using that set_upsert_subset [of "\<lambda>c. c_address c = a" "\<lambda>c. c\<lparr>c_bytecode := coalesce None (c_bytecode c)\<rparr>"
        "\<lparr>c_address = a, c_bytecode = None\<rparr>" "contracts d"]
    by (fastforce simp: no_bytecode_def coalesce_def)
  then show ?thesis
    unfolding upsertContract_def
    by (intro preserves_then contracts_preserves [OF code_ensureAddress] preserves_statement)
qed

lemma code_upsertTokenContract: "preserves no_bytecode (upsertTokenContract a t n s dc)"
  unfolding upsertTokenContract_def
  by (intro preserves_then code_upsertContract contracts_preserves keeps_statement) simp

lemma code_upsertTokenTransfer: "preserves no_bytecode (upsertTokenTransfer tt)"
  unfolding upsertTokenTransfer_def
  by (intro preserves_then code_upsertTokenContract contracts_preserves keeps_statement code_ensureAddress) simp

lemma code_jobs:
  "preserves no_bytecode (processContractDetection r)" "preserves no_bytecode (processTokenTransfersErc20Erc721 ls st)"
  "preserves no_bytecode (processTokenTransfersErc1155 ls st)"
  unfolding processContractDetection_def processTokenTransfersErc20Erc721_def processTokenTransfersErc1155_def writeTransfer_def
  by (intro preserves_then preserves_bind preserves_basic preserves_for preserves_if preserves_when preserves_option
      code_upsertContract code_upsertTokenContract code_upsertTokenTransfer contracts_preserves [OF code_statements(11)]
      contracts_preserves [OF code_statements(12)])+

lemma code_other_jobs:
  "keeps contracts (processReceipts rpc h)" "keeps contracts (processLogs ls st)" "keeps contracts (processInternalTxs rpc h n st)"
  "keeps contracts (processBridgeEvents ls st)" "keeps contracts (processStakingEvents ls st)"
  "keeps contracts (processValidatorEvents ls st)" "keeps contracts (processGovernanceEvents ls st)"
  "keeps contracts (processCheckpointEvents ls st)"
  unfolding processReceipts_def processLogs_def processInternalTxs_def processBridgeEvents_def processStakingEvents_def
    processValidatorEvents_def processGovernanceEvents_def processCheckpointEvents_def
  by (intro keeps_intros)+

lemma code_jobs_keep: "jobs_keep no_bytecode rpc"
  unfolding jobs_keep_def by (intro conjI allI code_jobs contracts_preserves code_other_jobs)

interpretation code_inv: indexer_invariant no_bytecode
proof
  show "no_bytecode empty_db" by (simp add: no_bytecode_def empty_db_def)
qed (intro code_jobs_keep contracts_preserves code_writer code_statements code_marks)+

end
