(* ===== verification/ForeignKeys.thy ===== *)
theory ForeignKeys
  imports GoldRows
begin

text \<open>
  The writers order their statements so that the constraints of the schema hold by themselves: parents
  (blocks, transactions, addresses, contracts, token contracts) are written before the rows that
  refer to them.  \<open>quiet P m\<close> says that \<open>m\<close>, started where \<open>P\<close> holds, is never stopped by a foreign key, a check or a
  not-null constraint.  The theory proves it for every writer and job, from an invariant
  (\<open>fk_inv\<close>) that the jobs maintain, for a node whose receipts and logs name the block and the
  transaction they belong to.
\<close>

section \<open>Computations that violate no constraint\<close>

definition constraint :: "js_error \<Rightarrow> bool" where
  "constraint e = (case e of
     SqlError (ForeignKeyViolation _) \<Rightarrow> True
   | SqlError (CheckViolation _) \<Rightarrow> True
   | SqlError (NotNullViolation _) \<Rightarrow> True
   | _ \<Rightarrow> False)"

lemma constraint_simps [simp]:
  "constraint (SqlError (ForeignKeyViolation c))" "constraint (SqlError (CheckViolation c))"
  "constraint (SqlError (NotNullViolation c))" "\<not> constraint (SqlError (UniqueViolation c))"
  "\<not> constraint (SqlError (InvalidText c))" "\<not> constraint (SqlError (OutOfRange c))"
  by (simp_all add: constraint_def)

definition quiet :: "('s \<Rightarrow> bool) \<Rightarrow> ('s, 'a) js \<Rightarrow> bool" where
  "quiet P m \<longleftrightarrow> (\<forall>s e. P s \<longrightarrow> fst (m s) = Inl e \<longrightarrow> \<not> constraint e)"

text \<open>Pure functions throw no errors of the database.\<close>

definition no_sql :: "js_error + 'a \<Rightarrow> bool" where
  "no_sql v \<longleftrightarrow> (\<forall>e. v \<noteq> Inl (SqlError e))"

named_theorems no_sql_intros \<open>pure functions that throw no errors of the database\<close>
named_theorems quiet_intros \<open>computations that violate no constraint\<close>

lemma no_sql_simps [simp]: "no_sql (Inr x)" "no_sql (Inl e) \<longleftrightarrow> (\<forall>q. e \<noteq> SqlError q)"
  by (auto simp: no_sql_def)

lemma no_sql_bind [no_sql_intros]: "no_sql v \<Longrightarrow> (\<And>x. no_sql (f x)) \<Longrightarrow> no_sql (bindS v f)"
  by (cases v) auto

lemma no_sql_control [no_sql_intros]:
  "no_sql v \<Longrightarrow> no_sql w \<Longrightarrow> no_sql (if b then v else w)"
  "no_sql (f x) \<Longrightarrow> no_sql (let y = x in f y)"
  "no_sql (Inr z)"
  by simp_all

lemma no_sql_option [no_sql_intros]:
  "no_sql v \<Longrightarrow> (\<And>x. no_sql (f x)) \<Longrightarrow> no_sql (case a of None \<Rightarrow> v | Some x \<Rightarrow> f x)"
  by (cases a) auto

lemma no_sql_prod [no_sql_intros]: "(\<And>a b. no_sql (f a b)) \<Longrightarrow> no_sql (case p of (a, b) \<Rightarrow> f a b)"
  by (cases p) auto

lemma no_sql_mapS [no_sql_intros]: "(\<And>x. no_sql (f x)) \<Longrightarrow> no_sql (mapS f xs)"
  by (induction xs) (auto intro!: no_sql_intros)

lemma not_constraint: "no_sql v \<Longrightarrow> v = Inl e \<Longrightarrow> \<not> constraint e"
  by (auto simp: constraint_def split: js_error.splits sql_error.splits)

lemma quiet_basic [quiet_intros]:
  "quiet P (returnM x)" "quiet P (getsM g)" "quiet P (modifyM h)"
  by (simp_all add: quiet_def js_simps)

lemma quiet_lift [quiet_intros]: "no_sql v \<Longrightarrow> quiet P (liftS v)"
  by (auto simp: quiet_def js_simps dest: not_constraint)

lemma quiet_bind:
  assumes "quiet P m" and "\<And>s x s'. P s \<Longrightarrow> m s = (Inr x, s') \<Longrightarrow> Q x s'" and "\<And>x. quiet (Q x) (f x)"
  shows "quiet P (bindM m f)"
  unfolding quiet_def
proof (intro allI impI)
  fix s e
  assume P: "P s" and e: "fst (bindM m f s) = Inl e"
  obtain r s' where m: "m s = (r, s')" by fastforce
  show "\<not> constraint e"
  proof (cases r)
    case (Inl e')
    then show ?thesis using assms(1) P e m by (auto simp: quiet_def js_simps)
  next
    case (Inr x)
    then have "Q x s'" using assms(2) P m by blast
    then show ?thesis using assms(3) [of x] e m Inr by (auto simp: quiet_def js_simps)
  qed
qed

lemma quiet_seq:
  assumes "quiet P m" and "\<And>s s'. P s \<Longrightarrow> m s = (Inr (), s') \<Longrightarrow> Q s'" and "quiet Q n"
  shows "quiet P (thenM m n)"
  unfolding thenM_def using assms by (intro quiet_bind [where Q = "\<lambda>_. Q"]) auto

lemma quiet_then [quiet_intros]: "quiet P m \<Longrightarrow> preserves P m \<Longrightarrow> quiet P n \<Longrightarrow> quiet P (thenM m n)"
  by (rule quiet_seq [where Q = P]) (auto dest: preserves_run)

lemma quiet_lift_bind [quiet_intros]:
  "no_sql v \<Longrightarrow> (\<And>x. v = Inr x \<Longrightarrow> quiet P (f x)) \<Longrightarrow> quiet P (bindM (liftS v) f)"
  using not_constraint [of v] by (cases v) (auto simp: quiet_def js_simps)

lemma quiet_gets_bind [quiet_intros]: "(\<And>x. quiet P (f x)) \<Longrightarrow> quiet P (bindM (getsM g) f)"
  by (simp add: quiet_def js_simps)

lemma quiet_control [quiet_intros]:
  "quiet P m \<Longrightarrow> quiet P (whenM b m)"
  "(b \<Longrightarrow> quiet P m) \<Longrightarrow> (\<not> b \<Longrightarrow> quiet P n) \<Longrightarrow> quiet P (if b then m else n)"
  "quiet P (g v) \<Longrightarrow> quiet P (let x = v in g x)"
  by (simp_all add: whenM_def quiet_basic)

lemma quiet_found [quiet_intros]:
  "quiet P m \<Longrightarrow> (\<And>x. v = Some x \<Longrightarrow> quiet P (g x)) \<Longrightarrow> quiet P (case v of None \<Rightarrow> m | Some x \<Rightarrow> g x)"
  by (cases v) auto

lemma quiet_for:
  "(\<And>x. x \<in> set xs \<Longrightarrow> quiet P (f x)) \<Longrightarrow> (\<And>x. x \<in> set xs \<Longrightarrow> preserves P (f x)) \<Longrightarrow> quiet P (forM xs f)"
  by (induction xs) (auto intro: quiet_intros)

text \<open>A statement violates no constraint when those it checks hold.\<close>

lemma first_failure_SomeD: "first_failure checks s = Some e \<Longrightarrow> \<exists>c. (c, e) \<in> set checks \<and> \<not> c s"
  by (induction checks) (auto split: if_splits)

lemma quiet_statement:
  assumes "\<And>s. P s \<Longrightarrow> list_all (\<lambda>(c, e). constraint e \<longrightarrow> c s) checks"
  shows "quiet P (statement checks f)"
  using assms by (fastforce simp: quiet_def statement_def list_all_iff split: option.splits dest: first_failure_SomeD)

lemma quiet_weaken: "quiet Q m \<Longrightarrow> (\<And>s. P s \<Longrightarrow> Q s) \<Longrightarrow> quiet P m"
  unfolding quiet_def by blast

section \<open>The decoders\<close>

lemma no_sql_BigInt [no_sql_intros]: "no_sql (BigInt s)"
  unfolding BigInt_def by (intro no_sql_intros) (auto simp: parse_nat_def)

lemma no_sql_base [no_sql_intros]:
  "no_sql (hexToBigInt s)" "no_sql (topicToAddress t)" "no_sql (weiHexToDecimalString h)" "no_sql (topic_at ts i)"
  "no_sql (routeAssetFromTokenId k)" "no_sql (stakeAssetFromTokenId k)" "no_sql (governanceSupportFromCode k)"
  "no_sql (abiDecodeStatic dt n)" "no_sql (abiDecodeUint256Array dt n)" "no_sql (optional_wei v)"
  unfolding hexToBigInt_def topicToAddress_def weiHexToDecimalString_def topic_at_def routeAssetFromTokenId_def
    stakeAssetFromTokenId_def governanceSupportFromCode_def abiDecodeStatic_def abiDecodeUint256Array_def optional_wei_def
  by (intro no_sql_intros; simp add: hexToBigInt_def no_sql_BigInt split: option.split)+

lemma no_sql_finality [no_sql_intros]:
  "no_sql (finalityStatusForBlock env n h r)" "no_sql (finalityStatusForBlockNumber env i j rf)"
proof -
  have "no_sql (getConfirmationDepth env)"
    by (auto simp: getConfirmationDepth_def split: option.splits jsnum.splits)
  then show "no_sql (finalityStatusForBlock env n h r)" for n h r
    unfolding finalityStatusForBlock_def by (intro no_sql_intros)
  then show "no_sql (finalityStatusForBlockNumber env i j rf)"
    unfolding finalityStatusForBlockNumber_def by (intro no_sql_intros)
qed

lemma no_sql_rows [no_sql_intros]:
  "no_sql (block_row n b st)" "no_sql (tx_row rpc n tx st)" "no_sql (internal_row h bn st ta)"
  unfolding block_row_def tx_row_def internal_row_def
  by (intro no_sql_intros)+

lemma no_sql_decoders [no_sql_intros]:
  "no_sql (decodeErc20Erc721 st lg)" "no_sql (decodeErc1155 lg)" "no_sql (decodeBridgeLog lg st)"
  "no_sql (decodeStakingEvent lg st)" "no_sql (commissionByTx ls)" "no_sql (decodeValidatorEvent cs lg st)"
  "no_sql (decodeGovernanceEvent lg st)" "no_sql (decodeCheckpointEvent lg st)"
  unfolding decodeErc20Erc721_def decodeErc1155_def decodeTransferSingle_def decodeTransferBatch_def decodeBridgeLog_def
    decodeLockedScaled_def decodeMigrationMint_def decodeGoldRedemptionRequested_def decodeExitedScaled_def
    decodeStakingEvent_def commissionByTx_def decodeValidatorEvent_def decodeGovernanceEvent_def decodeCheckpointEvent_def
    decodeNewHeaderBlock_def decodeCommitmentPlanted_def decodeCommitmentUpdated_def
  by (intro no_sql_intros; simp)+

section \<open>The invariant\<close>

text \<open>
  The holders of every stored transfer are known addresses.  \<open>stored_keys A B H\<close> adds
  addresses, blocks and transactions that are already stored, \<open>fk_inv B H\<close> the schema invariant; \<open>B\<close> and \<open>H\<close> are those of
  the block that is being processed, and empty between blocks.
\<close>

definition known_holders :: "db \<Rightarrow> bool" where
  "known_holders d \<longleftrightarrow>
     (\<forall>r \<in> set (token_transfers d). tt_fromAddress r \<in> set (addresses d) \<and> tt_toAddress r \<in> set (addresses d))"

definition stored_keys :: "string set \<Rightarrow> jsnum set \<Rightarrow> string set \<Rightarrow> db \<Rightarrow> bool" where
  "stored_keys A B H d \<longleftrightarrow> known_holders d \<and> A \<subseteq> set (addresses d) \<and> B \<subseteq> block_nums (blocks d) \<and> H \<subseteq> tx_hashes (transactions d)"

definition fk_inv :: "jsnum set \<Rightarrow> string set \<Rightarrow> db \<Rightarrow> bool" where
  "fk_inv B H d \<longleftrightarrow> db_wf d \<and> stored_keys {} B H d"

lemma fk_inv_preserves: "preserves db_wf m \<Longrightarrow> preserves (stored_keys {} B H) m \<Longrightarrow> preserves (fk_inv B H) m"
  by (simp add: preserves_def fk_inv_def)

lemma keys_ensureAddress: "preserves (stored_keys A B H) (ensureAddress a)"
  unfolding ensureAddress_def by (rule preserves_modify) (auto simp: stored_keys_def known_holders_def)

lemma keys_ensure_optional: "preserves (stored_keys A B H) (ensure_optional a)"
  unfolding ensure_optional_def by (intro preserves_intros keys_ensureAddress)

lemmas keys_parents = keys_ensureAddress keys_ensure_optional preserves_then preserves_statement

lemma keys_upsertBlock: "preserves (stored_keys A B H) (upsertBlock row)"
  unfolding upsertBlock_def
  by (rule preserves_statement) (use block_nums_upsert in \<open>fastforce simp: stored_keys_def known_holders_def\<close>)

lemma keys_upsertTransaction: "preserves (stored_keys A B H) (upsertTransaction row)"
  unfolding upsertTransaction_def
  by (intro keys_parents) (auto simp: stored_keys_def known_holders_def tx_hashes_def set_upsert_replace)

lemma keys_rows:
  "preserves (stored_keys A B H) (upsertReceipt rc)" "preserves (stored_keys A B H) (upsertLog lg)"
  "preserves (stored_keys A B H) (upsertInternalTx it)" "preserves (stored_keys A B H) (upsertContract a b)"
  "preserves (stored_keys A B H) (insertStakingEvent se)"
  "preserves (stored_keys A B H) (insertValidatorEvent ve)" "preserves (stored_keys A B H) (insertGovernanceEvent ge)"
  "preserves (stored_keys A B H) (insertCheckpoint cp)"
  unfolding upsertReceipt_def upsertLog_def upsertInternalTx_def upsertContract_def
    insertStakingEvent_def insertValidatorEvent_def insertGovernanceEvent_def insertCheckpoint_def
  by (intro keys_parents; simp add: stored_keys_def known_holders_def)+

lemma keys_more_rows:
  "preserves (stored_keys A B H) (upsertTokenContract a t n s dc)" "preserves (stored_keys A B H) (insertBridgeTransfer br)"
  unfolding upsertTokenContract_def insertBridgeTransfer_def
  by (intro keys_parents keys_rows preserves_modify; simp add: stored_keys_def known_holders_def)+

text \<open>A transfer is stored after its holders.\<close>

lemma keys_after_ensureAddress:
  assumes "preserves (stored_keys (insert a A) B H) n"
  shows "preserves (stored_keys A B H) (thenM (ensureAddress a) n)"
  unfolding preserves_def
proof (intro allI impI)
  fix d
  assume "stored_keys A B H d"
  then have "stored_keys (insert a A) B H (d\<lparr>addresses := List.insert a (addresses d)\<rparr>)"
    by (auto simp: stored_keys_def known_holders_def)
  from preservesD [OF assms this] show "stored_keys A B H (snd (thenM (ensureAddress a) n d))"
    by (simp add: ensureAddress_def run_steps) (simp add: stored_keys_def)
qed

lemma keys_upsertTokenTransfer: "preserves (stored_keys A B H) (upsertTokenTransfer row)"
  unfolding upsertTokenTransfer_def
  by (intro keys_after_ensureAddress preserves_then keys_more_rows preserves_statement)
    (auto simp: stored_keys_def known_holders_def set_upsert_replace)

lemma keys_refresh:
  "preserves (stored_keys A B H) (refreshTokenBalancesForContract c)" "preserves (stored_keys A B H) refreshGoldSupply"
  unfolding refreshTokenBalancesForContract_def refreshGoldSupply_def
  by (intro keys_parents preserves_modify; simp add: stored_keys_def known_holders_def)+

text \<open>Marking, refreshing and deleting rows keeps the keys of the parents.\<close>

lemma block_nums_fin [simp]: "block_nums (update_where p (set_blk_fin st) bs) = block_nums bs"
  unfolding block_nums_def by (rule image_update_where) simp

lemma tx_hashes_fin [simp]: "tx_hashes (update_where p (set_tx_fin st) ts) = tx_hashes ts"
  unfolding tx_hashes_def by (rule image_update_where) simp

lemma keys_marks:
  "preserves (stored_keys A B H) (markEvmDerivedRowsReverted n)" "preserves (stored_keys A B H) (clearEvmDerivedRowsForBlock n)"
  "preserves (stored_keys A B H) (markOrphanedTransactionsReverted n hs)" "preserves (stored_keys A B H) (updateEvmFinalityForBlock n st)"
  unfolding markEvmDerivedRowsReverted_def clearEvmDerivedRowsForBlock_def markOrphanedTransactionsReverted_def
    updateEvmFinalityForBlock_def
  by (intro preserves_intros preserves_modify; auto simp: stored_keys_def known_holders_def finality_defs)+

lemma keys_gold_marks:
  "preserves (stored_keys A B H) (markGoldDerivedRowsReverted n)" "preserves (stored_keys A B H) (clearGoldDerivedRowsForBlock n)"
  "preserves (stored_keys A B H) (updateGoldFinalityForBlock n st)"
  unfolding markGoldDerivedRowsReverted_def clearGoldDerivedRowsForBlock_def updateGoldFinalityForBlock_def
  by (intro preserves_intros preserves_modify; simp add: stored_keys_def known_holders_def)+

lemma keys_writer:
  "preserves (stored_keys A B H) (markBlockRevertedByNumber n)" "preserves (stored_keys A B H) (markBlockRevertedFromNumber n)"
  "preserves (stored_keys A B H) (clearDerivedRowsForBlock n)" "preserves (stored_keys A B H) (updateFinalityForRange env a b h rf)"
  unfolding markBlockRevertedByNumber_def markBlockRevertedFromNumber_def clearDerivedRowsForBlock_def
    updateFinalityForRange_def markBlockDerivedRowsReverted_def
  by (intro preserves_then preserves_bind preserves_basic preserves_for keys_marks keys_gold_marks keys_refresh preserves_modify;
      simp add: stored_keys_def known_holders_def finality_defs)+

lemma keys_jobs:
  "preserves (stored_keys A B H) (processReceipts rpc h)" "preserves (stored_keys A B H) (processContractDetection r)"
  "preserves (stored_keys A B H) (processLogs ls st)" "preserves (stored_keys A B H) (processTokenTransfersErc20Erc721 ls st)"
  "preserves (stored_keys A B H) (processTokenTransfersErc1155 ls st)" "preserves (stored_keys A B H) (processBridgeEvents ls st)"
  "preserves (stored_keys A B H) (processStakingEvents ls st)" "preserves (stored_keys A B H) (processValidatorEvents ls st)"
  "preserves (stored_keys A B H) (processGovernanceEvents ls st)" "preserves (stored_keys A B H) (processCheckpointEvents ls st)"
  "preserves (stored_keys A B H) (processInternalTxs rpc h bn st)"
  unfolding processReceipts_def processContractDetection_def processLogs_def processTokenTransfersErc20Erc721_def
    processTokenTransfersErc1155_def writeTransfer_def processBridgeEvents_def processStakingEvents_def
    processValidatorEvents_def processGovernanceEvents_def processCheckpointEvents_def processInternalTxs_def
  by (intro preserves_option preserves_bind preserves_then preserves_basic preserves_for preserves_if preserves_when
      keys_rows keys_more_rows keys_upsertTokenTransfer keys_refresh)+

lemma fk_jobs_keep: "jobs_keep (fk_inv B H) rpc"
  unfolding jobs_keep_def by (intro conjI allI fk_inv_preserves keys_jobs preserves_intros)

interpretation fk: indexer_invariant "fk_inv {} {}"
proof
  show "fk_inv {} {} empty_db" by (simp add: fk_inv_def empty_db_wf stored_keys_def known_holders_def) (simp add: empty_db_def)
qed (intro fk_jobs_keep fk_inv_preserves keys_upsertTransaction keys_upsertBlock keys_marks keys_writer preserves_intros)+

section \<open>The writers\<close>

lemma fk_parents:
  "preserves (fk_inv B H) (ensureAddress a)" "preserves (fk_inv B H) (ensure_optional oa)"
  "preserves (fk_inv B H) (upsertContract c b)" "preserves (fk_inv B H) (upsertTokenContract c t n s dc)"
  "preserves (fk_inv B H) (refreshTokenBalancesForContract c)" "preserves (fk_inv B H) refreshGoldSupply"
  by (intro fk_inv_preserves preserves_intros keys_ensureAddress keys_ensure_optional keys_rows keys_more_rows keys_refresh)+

lemma fk_rows:
  "preserves (fk_inv B H) (upsertReceipt rc)" "preserves (fk_inv B H) (upsertLog lg)" "preserves (fk_inv B H) (upsertInternalTx it)"
  "preserves (fk_inv B H) (upsertTokenTransfer tt)" "preserves (fk_inv B H) (insertBridgeTransfer br)"
  "preserves (fk_inv B H) (insertStakingEvent se)" "preserves (fk_inv B H) (insertValidatorEvent ve)"
  "preserves (fk_inv B H) (insertGovernanceEvent ge)" "preserves (fk_inv B H) (insertCheckpoint cp)"
  by (intro fk_inv_preserves preserves_intros keys_rows keys_more_rows keys_upsertTokenTransfer)+

lemma quiet_ensure [quiet_intros]: "quiet P (ensureAddress a)" "quiet P (ensure_optional oa)"
  unfolding ensure_optional_def ensureAddress_def by (intro quiet_intros)+

lemma fk_inv_keys: "fk_inv B H d \<Longrightarrow> n \<in> B \<Longrightarrow> n \<in> block_nums (blocks d)" "fk_inv B H d \<Longrightarrow> h \<in> H \<Longrightarrow> h \<in> tx_hashes (transactions d)"
  by (auto simp: fk_inv_def stored_keys_def)

lemmas quiet_row = quiet_then quiet_ensure fk_parents quiet_statement

lemma quiet_rows:
  "rcpt_transactionHash rc \<in> H \<Longrightarrow> quiet (fk_inv B H) (upsertReceipt rc)"
  "log_blockNumber lg \<in> B \<Longrightarrow> log_transactionHash lg \<in> H \<Longrightarrow> quiet (fk_inv B H) (upsertLog lg)"
  "itx_blockNumber it \<in> B \<Longrightarrow> itx_transactionHash it \<in> H \<Longrightarrow> quiet (fk_inv B H) (upsertInternalTx it)"
  "st_blockNumber se \<in> B \<Longrightarrow> st_transactionHash se \<in> H \<Longrightarrow> quiet (fk_inv B H) (insertStakingEvent se)"
  "ve_blockNumber ve \<in> B \<Longrightarrow> ve_transactionHash ve \<in> H \<Longrightarrow> quiet (fk_inv B H) (insertValidatorEvent ve)"
  "gov_blockNumber ge \<in> B \<Longrightarrow> gov_transactionHash ge \<in> H \<Longrightarrow> quiet (fk_inv B H) (insertGovernanceEvent ge)"
  "cp_blockNumber cp \<in> B \<Longrightarrow> quiet (fk_inv B H) (insertCheckpoint cp)"
  "tx_blockNumber tx \<in> B \<Longrightarrow> quiet (fk_inv B H) (upsertTransaction tx)"
  "quiet (fk_inv B H) (upsertBlock bl)"
  unfolding upsertReceipt_def upsertLog_def upsertInternalTx_def insertStakingEvent_def insertValidatorEvent_def
    insertGovernanceEvent_def insertCheckpoint_def upsertTransaction_def upsertBlock_def
  by (intro quiet_row; simp add: fk_checks_def fk_inv_keys)+

lemma quiet_insertBridge: "quiet (fk_inv B H) (insertBridgeTransfer br)"
  unfolding insertBridgeTransfer_def
  by (rule quiet_seq [where Q = "\<lambda>_. True"]) (auto intro: quiet_intros quiet_statement)

text \<open>A contract is written after its address, a token contract after its contract, a transfer after its token contract.\<close>

lemma quiet_upsertContract: "quiet P (upsertContract a b)"
  unfolding upsertContract_def
  by (rule quiet_seq [where Q = "\<lambda>d. a \<in> set (addresses d)"])
    (auto simp: ensureAddress_def js_simps intro: quiet_intros quiet_statement)

lemma upsertContract_stored: "upsertContract a b d = (Inr (), d') \<Longrightarrow> a \<in> c_address ` set (contracts d')"
  unfolding upsertContract_def
  by (elim thenM_InrE statement_InrE) (simp add: set_key_upsert [where k = c_address])

lemma quiet_upsertTokenContract: "quiet P (upsertTokenContract a t n s dc)"
  unfolding upsertTokenContract_def
  by (rule quiet_seq [where Q = "\<lambda>d. a \<in> c_address ` set (contracts d)"])
    (auto simp del: image_iff dest: upsertContract_stored intro: quiet_upsertContract quiet_statement)

lemma upsertTokenContract_stored: "upsertTokenContract a t n s dc d = (Inr (), d') \<Longrightarrow> a \<in> token_addrs d'"
  unfolding upsertTokenContract_def
  by (elim thenM_InrE statement_InrE) (simp add: set_key_upsert [where k = tc_address])

lemma quiet_upsertTokenTransfer:
  assumes "tt_blockNumber row \<in> B" and "tt_transactionHash row \<in> H" and "tt_id_ok row"
  shows "quiet (fk_inv B H) (upsertTokenTransfer row)"
  unfolding upsertTokenTransfer_def
proof (rule quiet_then [OF quiet_ensure(1) fk_parents(1)], rule quiet_then [OF quiet_ensure(1) fk_parents(1)],
    rule quiet_seq [where Q = "\<lambda>d. fk_inv B H d \<and> tt_contractAddress row \<in> token_addrs d"], goal_cases)
  case 1
  show ?case by (rule quiet_upsertTokenContract)
next
  case (2 d d')
  then show ?case using preserves_run [OF fk_parents(4)] upsertTokenContract_stored by blast
next
  case 3
  show ?case using assms by (intro quiet_statement) (auto simp: fk_checks_def fk_inv_keys)
qed

text \<open>Balances refer to the holders and the contract of a stored transfer, supplies to its token id.\<close>

lemma balance_rows_holder:
  assumes "r \<in> set (balance_rows c ts)"
  obtains t where "t \<in> set ts" and "tt_contractAddress t = c" and "tb_address r = tt_toAddress t \<or> tb_address r = tt_fromAddress t"
proof -
  from assms obtain a i v where r: "r = \<lparr>tb_address = a, tb_contractAddress = c, tb_tokenId = i, tb_balance = v\<rparr>"
    and v: "((a, i), v) \<in> set (group_sums (balance_deltas c ts))" by (auto simp: balance_rows_def)
  then have "(a, i) \<in> fst ` set (balance_deltas c ts)" using sum_for_absent [of "(a, i)"] by (force simp: group_sums_iff)
  then show thesis using that r by (auto simp: balance_deltas_def live_transfers_def)
qed

lemma quiet_refreshBalances: "quiet (fk_inv B H) (refreshTokenBalancesForContract c)"
  unfolding refreshTokenBalancesForContract_def
proof (rule quiet_seq [where Q = "\<lambda>d. known_holders d \<and> wf_transfers (token_addrs d) (token_transfers d)"], goal_cases)
  case (2 d d')
  then show ?case by (auto simp: js_simps fk_inv_def stored_keys_def known_holders_def db_wf_def)
next
  case 3
  show ?case
    by (rule quiet_statement) (auto simp: known_holders_def wf_transfers_def elim!: balance_rows_holder)
qed (rule quiet_intros)

lemma quiet_refreshGoldSupply: "quiet (fk_inv B H) refreshGoldSupply"
  unfolding refreshGoldSupply_def
proof (rule quiet_seq [where Q = "\<lambda>d. wf_transfers (token_addrs d) (token_transfers d)"], goal_cases)
  case (2 d d')
  then show ?case by (auto simp: js_simps fk_inv_def db_wf_def)
next
  case 3
  have "k \<noteq> None" if "(k, v) \<in> set (group_sums (supply_deltas ts))" and "\<forall>t \<in> set ts. tt_id_ok t" for k v ts
  proof -
    have "k \<in> fst ` set (supply_deltas ts)" using that(1) sum_for_absent [of k] by (force simp: group_sums_iff)
    then show ?thesis using that(2) by (auto simp: supply_deltas_def tt_id_ok_def)
  qed
  then show ?case by (intro quiet_statement) (fastforce simp: wf_transfers_def)
qed (rule quiet_intros)

section \<open>The jobs of a transaction\<close>

text \<open>The logs of a receipt belong to the block \<open>n\<close> and to a transaction of \<open>H\<close>.\<close>

definition logs_in :: "jsnum \<Rightarrow> string set \<Rightarrow> RpcLog list \<Rightarrow> bool" where
  "logs_in n H ls \<longleftrightarrow> (\<forall>l \<in> set ls. hexToNumber (rl_blockNumber l) = n \<and> rl_transactionHash l \<in> H)"

lemma logs_inD: "logs_in n H ls \<Longrightarrow> l \<in> set ls \<Longrightarrow> hexToNumber (rl_blockNumber l) = n \<and> rl_transactionHash l \<in> H"
  by (simp add: logs_in_def)

lemma erc20_refs:
  "decodeErc20Erc721 st l = Inr (Some row) \<Longrightarrow>
   tt_blockNumber row = hexToNumber (rl_blockNumber l) \<and> tt_transactionHash row = rl_transactionHash l \<and> tt_id_ok row"
  by (auto simp: decodeErc20Erc721_def Let_def bindS_eq_Inr tt_id_ok_def split: if_splits)

lemma erc1155_refs:
  "decodeErc1155 l = Inr ts \<Longrightarrow> t \<in> set ts \<Longrightarrow>
   e_blockNumber t = hexToNumber (rl_blockNumber l) \<and> e_transactionHash t = rl_transactionHash l"
  by (auto simp: decodeErc1155_def decodeTransferSingle_def decodeTransferBatch_def bindS_eq_Inr split: if_splits)

lemma gold_refs:
  "decodeStakingEvent l st = Inr (Some se) \<Longrightarrow>
     st_blockNumber se = hexToNumber (rl_blockNumber l) \<and> st_transactionHash se = rl_transactionHash l"
  "decodeValidatorEvent cs l st = Inr (Some ve) \<Longrightarrow>
     ve_blockNumber ve = hexToNumber (rl_blockNumber l) \<and> ve_transactionHash ve = rl_transactionHash l"
  "decodeGovernanceEvent l st = Inr (Some ge) \<Longrightarrow>
     gov_blockNumber ge = hexToNumber (rl_blockNumber l) \<and> gov_transactionHash ge = rl_transactionHash l"
  "decodeCheckpointEvent l st = Inr (Some cp) \<Longrightarrow> cp_blockNumber cp = hexToNumber (rl_blockNumber l)"
  by (auto simp: decodeStakingEvent_def staking_row_def decodeValidatorEvent_def validator_row_def decodeGovernanceEvent_def
      governance_row_def decodeCheckpointEvent_def decodeNewHeaderBlock_def decodeCommitmentPlanted_def
      decodeCommitmentUpdated_def checkpoint_row_def bindS_eq_Inr Let_def split: if_splits)

lemmas fk_loop = preserves_for preserves_if preserves_option preserves_bind preserves_then preserves_basic fk_rows fk_parents

lemma quiet_receipts:
  assumes "\<And>r. getTransactionReceipt rpc h = Some r \<Longrightarrow> rr_transactionHash r \<in> H"
  shows "quiet (fk_inv B H) (processReceipts rpc h)"
  unfolding processReceipts_def using assms
  by (intro quiet_intros no_sql_base fk_rows quiet_rows) simp_all

lemma quiet_contractDetection: "quiet (fk_inv B H) (processContractDetection r)"
  unfolding processContractDetection_def
  by (intro quiet_then quiet_for quiet_control quiet_found quiet_basic quiet_upsertContract fk_loop)

lemma quiet_logs: "logs_in n H ls \<Longrightarrow> n \<in> B \<Longrightarrow> quiet (fk_inv B H) (processLogs ls st)"
  unfolding processLogs_def
  by (intro quiet_for quiet_rows fk_rows) (auto simp: log_row_def dest: logs_inD)

lemma quiet_erc20:
  "logs_in n H ls \<Longrightarrow> n \<in> B \<Longrightarrow> quiet (fk_inv B H) (processTokenTransfersErc20Erc721 ls st)"
  unfolding processTokenTransfersErc20Erc721_def
  by (intro quiet_then quiet_for quiet_control quiet_basic quiet_lift_bind quiet_found no_sql_intros quiet_refreshBalances
      quiet_upsertTokenTransfer fk_loop) (auto dest!: erc20_refs logs_inD)

lemma quiet_erc1155:
  "logs_in n H ls \<Longrightarrow> n \<in> B \<Longrightarrow> quiet (fk_inv B H) (processTokenTransfersErc1155 ls st)"
  unfolding processTokenTransfersErc1155_def writeTransfer_def
  by (intro quiet_then quiet_for quiet_control quiet_basic quiet_lift_bind no_sql_intros quiet_refreshBalances
      quiet_refreshGoldSupply quiet_upsertTokenTransfer fk_loop)
    (auto simp: transfer_row_def tt_id_ok_def dest!: erc1155_refs logs_inD)

lemma quiet_bridge: "quiet (fk_inv B H) (processBridgeEvents ls st)"
  unfolding processBridgeEvents_def
  by (intro quiet_for quiet_control quiet_basic quiet_lift_bind quiet_found no_sql_intros quiet_insertBridge fk_loop)

lemma quiet_gold:
  assumes "logs_in n H ls" and "n \<in> B"
  shows "quiet (fk_inv B H) (processStakingEvents ls st)" "quiet (fk_inv B H) (processValidatorEvents ls st)"
    "quiet (fk_inv B H) (processGovernanceEvents ls st)" "quiet (fk_inv B H) (processCheckpointEvents ls st)"
  unfolding processStakingEvents_def processValidatorEvents_def processGovernanceEvents_def processCheckpointEvents_def
  using assms
  by (intro quiet_for quiet_control quiet_basic quiet_lift_bind quiet_found no_sql_intros quiet_rows fk_loop;
      auto dest!: gold_refs logs_inD)+

lemma quiet_internal:
  assumes "n \<in> B" and "h \<in> H"
  shows "quiet (fk_inv B H) (processInternalTxs rpc h n st)"
proof -
  have "itx_blockNumber row = n \<and> itx_transactionHash row = h" if "internal_row h n st ta = Inr row" for ta row
    using that by (auto simp: internal_row_def bindS_eq_Inr split: prod.splits)
  then show ?thesis
    unfolding processInternalTxs_def using assms
    by (intro quiet_for quiet_control quiet_basic quiet_lift_bind no_sql_intros quiet_rows fk_loop) auto
qed

section \<open>A block\<close>

text \<open>
  What JSON-RPC says of a node's answers: a block has the number it was asked for, the receipt of a
  transaction names the transaction, and its logs name the transaction and the block.
\<close>

definition node_consistent :: "RpcClient \<Rightarrow> bool" where
  "node_consistent rpc \<longleftrightarrow> (\<forall>n b. getBlockByNumber rpc n = Some b \<longrightarrow> parseInt 16 (rb_number b) = JNum n \<and>
     (\<forall>tx \<in> set (rb_transactions b). \<forall>r. getTransactionReceipt rpc (rt_hash tx) = Some r \<longrightarrow>
        rr_transactionHash r = rt_hash tx \<and>
        (\<forall>l \<in> set (rr_logs r). hexToNumber (rl_blockNumber l) = JNum n \<and> rl_transactionHash l = rt_hash tx)))"

lemma quiet_run_tx_jobs:
  assumes "pl_txHash pl \<in> H" and "pl_blockNumber pl = n" and "n \<in> B"
    and receipt: "\<And>r. getTransactionReceipt rpc (pl_txHash pl) = Some r \<Longrightarrow> rr_transactionHash r \<in> H \<and> logs_in n H (rr_logs r)"
  shows "quiet (fk_inv B H) (run_tx_jobs rpc pl)"
  unfolding run_tx_jobs_forM
proof (rule quiet_bind [where Q = "\<lambda>r d. fk_inv B H d \<and> r = getTransactionReceipt rpc (pl_txHash pl)"], goal_cases)
  case 1
  show ?case using receipt by (intro quiet_receipts) blast
next
  case (2 d r d')
  then show ?case
    using preserves_run [OF fk_inv_preserves [OF preserves_processReceipts keys_jobs(1)]] processReceipts_InrE by metis
next
  case (3 r)
  have jobs: "quiet (fk_inv B H) (job_action rpc pl rc t) \<and> preserves (fk_inv B H) (job_action rpc pl rc t)"
    if "logs_in n H (rr_logs rc)" for rc t
    using that assms(1-3) fk_jobs_keep [of B H rpc, unfolded jobs_keep_def]
    by (cases t) (auto simp: job_action_def Let_def
        intro!: quiet_basic preserves_basic quiet_contractDetection quiet_logs quiet_erc20 quiet_erc1155 quiet_bridge quiet_gold quiet_internal)
  show ?case
  proof (cases "r = getTransactionReceipt rpc (pl_txHash pl)")
    case True
    then have "quiet (fk_inv B H) (case r of None \<Rightarrow> returnM () | Some rc \<Rightarrow> forM later_jobs (job_action rpc pl rc))"
      using receipt jobs by (intro quiet_found quiet_basic quiet_for) simp_all
    then show ?thesis by (rule quiet_weaken) blast
  qed (simp add: quiet_def)
qed

lemma quiet_runBlockJobs:
  assumes "node_consistent rpc" and "getBlockByNumber rpc n = Some b"
  shows "quiet (fk_inv {JNum n} (rt_hash ` set (rb_transactions b))) (runBlockJobs env rpc b head)"
proof -
  have num: "parseInt 16 (rb_number b) = JNum n" using assms by (simp add: node_consistent_def)
  show ?thesis
    unfolding runBlockJobs_def Let_def num
    using assms
    by (intro quiet_lift_bind no_sql_intros quiet_for preserves_run_tx_jobs fk_jobs_keep quiet_run_tx_jobs [where n = "JNum n"])
      (fastforce simp: node_consistent_def logs_in_def)+
qed

abbreviation fk_world :: "jsnum set \<Rightarrow> string set \<Rightarrow> world \<Rightarrow> bool" where
  "fk_world B H \<equiv> \<lambda>w. fk_inv B H (w_db w)"

lemma quiet_dbM: "quiet P m \<Longrightarrow> quiet (\<lambda>w. P (w_db w)) (dbM m)"
  by (simp add: quiet_def dbM_def js_simps)

lemma quiet_onIndexed: "quiet P (onIndexed ev)"
  unfolding onIndexed_def by (rule quiet_basic)

lemma fk_writer:
  "preserves (fk_inv B H) (markBlockRevertedByNumber n)" "preserves (fk_inv B H) (markBlockRevertedFromNumber n)"
  "preserves (fk_inv B H) (clearDerivedRowsForBlock n)" "preserves (fk_inv B H) (updateFinalityForRange env a b h rf)"
  "preserves (fk_inv B H) (upsertTransaction tx)" "preserves (fk_inv B H) (upsertBlock bl)"
  "preserves (fk_inv B H) (markOrphanedTransactionsReverted n hs)"
  by (intro fk_inv_preserves keys_writer keys_upsertTransaction keys_upsertBlock keys_marks preserves_intros)+

lemma quiet_marks:
  "quiet P (markBlockRevertedByNumber n)" "quiet P (markBlockRevertedFromNumber n)" "quiet P (markOrphanedTransactionsReverted n hs)"
  "quiet P (clearGoldDerivedRowsForBlock n)" "quiet P (clearEvmDerivedRowsForBlock n)"
  "quiet P (updateEvmFinalityForBlock n st)" "quiet P (updateGoldFinalityForBlock n st)"
proof -
  have "quiet (\<lambda>_. True) (markBlockRevertedByNumber n)" "quiet (\<lambda>_. True) (markBlockRevertedFromNumber n)"
    "quiet (\<lambda>_. True) (markOrphanedTransactionsReverted n hs)"
    "quiet (\<lambda>_. True) (clearGoldDerivedRowsForBlock n)" "quiet (\<lambda>_. True) (clearEvmDerivedRowsForBlock n)"
    "quiet (\<lambda>_. True) (updateEvmFinalityForBlock n st)" "quiet (\<lambda>_. True) (updateGoldFinalityForBlock n st)"
    unfolding markBlockRevertedByNumber_def markBlockRevertedFromNumber_def markOrphanedTransactionsReverted_def
      clearGoldDerivedRowsForBlock_def clearEvmDerivedRowsForBlock_def updateEvmFinalityForBlock_def
      updateGoldFinalityForBlock_def markBlockDerivedRowsReverted_def markEvmDerivedRowsReverted_def markGoldDerivedRowsReverted_def
    by (intro quiet_intros quiet_for; simp add: preserves_def)+
  then show "quiet P (markBlockRevertedByNumber n)" "quiet P (markBlockRevertedFromNumber n)"
    "quiet P (markOrphanedTransactionsReverted n hs)"
    "quiet P (clearGoldDerivedRowsForBlock n)" "quiet P (clearEvmDerivedRowsForBlock n)"
    "quiet P (updateEvmFinalityForBlock n st)" "quiet P (updateGoldFinalityForBlock n st)"
    by (auto intro: quiet_weaken)
qed

lemma fk_gold_marks:
  "preserves (fk_inv B H) (clearGoldDerivedRowsForBlock n)" "preserves (fk_inv B H) (updateEvmFinalityForBlock n st)"
  "preserves (fk_inv B H) (updateGoldFinalityForBlock n st)"
  by (intro fk_inv_preserves keys_gold_marks keys_marks preserves_intros)+

lemma fk_delete_transfers:
  "preserves (fk_inv B H) (modifyM (\<lambda>d. d\<lparr>token_transfers := delete_where p (token_transfers d)\<rparr>))"
  by (intro fk_inv_preserves preserves_modify) (auto simp: db_wf_delete_evm stored_keys_def known_holders_def)

lemma quiet_clearDerived: "quiet (fk_inv B H) (clearDerivedRowsForBlock n)"
  unfolding clearDerivedRowsForBlock_def
  by (intro quiet_gets_bind quiet_then quiet_basic quiet_for quiet_refreshBalances quiet_marks fk_delete_transfers
      fk_gold_marks preserves_for fk_parents)

lemma quiet_updateFinality: "quiet (fk_inv B H) (updateFinalityForRange env a b h rf)"
  unfolding updateFinalityForRange_def
  by (intro quiet_then quiet_for quiet_lift_bind no_sql_intros quiet_marks quiet_refreshGoldSupply preserves_for
      preserves_bind preserves_then preserves_basic fk_gold_marks)

lemma quiet_reorg_checks: "quiet (fk_inv B H) (process_reorg_checks n b)"
  unfolding process_reorg_checks_def
  by (intro quiet_then quiet_control quiet_gets_bind quiet_marks quiet_clearDerived fk_writer preserves_then preserves_when
      preserves_bind preserves_basic)

lemma quiet_process_tx: "JNum n \<in> B \<Longrightarrow> quiet (fk_world B H) (process_tx rpc n st tx)"
  unfolding process_tx_def
  by (intro quiet_lift_bind no_sql_intros quiet_then quiet_dbM quiet_rows quiet_onIndexed preserves_dbM fk_writer)
    (simp add: tx_row_fields)

text \<open>The transactions of the block are stored before its jobs run.\<close>

lemma process_tx_stored:
  assumes "fk_inv B H (w_db w)" and "process_tx rpc n st tx w = (Inr (), w')"
  shows "fk_inv B (insert (rt_hash tx) H) (w_db w')"
proof -
  obtain row d where row: "tx_row rpc n tx st = Inr row" and d: "upsertTransaction row (w_db w) = (Inr (), d)" "w_db w' = d"
    using assms(2) unfolding process_tx_def by (auto elim!: bindM_InrE liftS_InrE thenM_InrE dbM_InrE onIndexed_InrE)
  have "row \<in> set (transactions d)" using upsertTransaction_transactions [OF d(1)] by (simp add: upsert_mem)
  then have "rt_hash tx \<in> tx_hashes (transactions d)" using tx_row_fields [OF row] by (force simp: tx_hashes_def)
  moreover have "fk_inv B H d" using preserves_run [OF fk_writer(5) d(1) assms(1)] .
  ultimately show ?thesis using d(2) by (simp add: fk_inv_def stored_keys_def)
qed

lemma process_txs_stored:
  "fk_inv B H (w_db w) \<Longrightarrow> forM txs (process_tx rpc n st) w = (Inr (), w') \<Longrightarrow> fk_inv B (rt_hash ` set txs \<union> H) (w_db w')"
proof (induction txs arbitrary: w H)
  case (Cons tx txs)
  from Cons.prems(2) obtain w1 where "process_tx rpc n st tx w = (Inr (), w1)" and rest: "forM txs (process_tx rpc n st) w1 = (Inr (), w')"
    by (auto elim: thenM_InrE)
  then show ?case using Cons.IH [OF process_tx_stored [OF Cons.prems(1)] rest] by simp
qed (simp add: run_simps)

lemma upsertBlock_stored: "upsertBlock row d = (Inr (), d') \<Longrightarrow> JNum (blk_number row) \<in> block_nums (blocks d')"
  unfolding upsertBlock_def by (auto simp: block_nums_def upsert_mem elim!: statement_InrE)

lemma fk_process_tx: "preserves (fk_world B H) (process_tx rpc n st tx)"
  unfolding process_tx_def
  by (intro preserves_bind preserves_then preserves_basic preserves_dbM fk_writer preserves_onIndexed)

lemma block_row_number: "block_row n b st = Inr row \<Longrightarrow> blk_number row = n"
  by (auto simp: block_row_def bindS_eq_Inr)

lemma quiet_processBlock:
  assumes "node_consistent rpc"
  shows "quiet (fk_world {} {}) (processBlock env rpc n head)"
proof (cases "getBlockByNumber rpc n")
  case None
  then show ?thesis by (simp add: processBlock_def quiet_basic)
next
  case (Some b)
  let ?B = "{JNum n}" and ?H = "rt_hash ` set (rb_transactions b)"
  have jobs: "quiet (fk_world ?B ?H) (thenM (dbM (runBlockJobs env rpc b head)) (thenM (modifyM f) (returnM True)))" for f
    by (rule quiet_seq [where Q = "\<lambda>_. True"]) (auto intro!: quiet_dbM quiet_runBlockJobs [OF assms Some] quiet_intros simp: preserves_def)
  have txs: "quiet (fk_world ?B {}) (thenM (forM (rb_transactions b) (process_tx rpc n st))
      (thenM (dbM (markOrphanedTransactionsReverted n hs))
      (thenM (dbM (runBlockJobs env rpc b head)) (thenM (modifyM f) (returnM True)))))" for st hs f
    by (rule quiet_seq [where Q = "fk_world ?B ?H"])
      (auto intro!: quiet_for quiet_process_tx fk_process_tx quiet_then quiet_dbM quiet_marks preserves_dbM fk_writer jobs
        dest: process_txs_stored)
  have stored: "fk_inv ?B {} (w_db w')"
    if "fk_inv {} {} (w_db w)" "block_row n b st = Inr row" "dbM (upsertBlock row) w = (Inr (), w')" for st row w w'
    using that(3)
  proof (rule dbM_InrE)
    fix d
    assume d: "upsertBlock row (w_db w) = (Inr (), d)" "w' = w\<lparr>w_db := d\<rparr>"
    show ?thesis
      using preserves_run [OF fk_writer(6) d(1) that(1)] upsertBlock_stored [OF d(1)] block_row_number [OF that(2)] d(2)
      by (simp add: fk_inv_def stored_keys_def)
  qed
  show ?thesis
    unfolding processBlock_def Some option.case
  proof (rule quiet_then [OF quiet_dbM [OF quiet_reorg_checks] preserves_dbM [OF fk.keep_reorg_checks]],
      rule quiet_lift_bind [OF no_sql_finality(1)], rule quiet_lift_bind [OF no_sql_rows(1)], goal_cases)
    case (1 st row)
    show ?case
      by (rule quiet_seq [where Q = "fk_world ?B {}"])
        (auto intro!: quiet_dbM quiet_rows quiet_then quiet_onIndexed quiet_clearDerived preserves_onIndexed preserves_dbM fk_writer txs
          intro: stored [OF _ 1(2)])
  qed
qed

section \<open>The indexer\<close>

lemma fk_world_eq: "fk_world {} {} = fk.holds"
  by (rule ext) (simp add: fk.holds_def)

lemmas fk_calls = fk.keep_processBlock [folded fk_world_eq] fk.keep_process_range [folded fk_world_eq]

lemma quiet_process_range:
  assumes "node_consistent rpc"
  shows "quiet (fk_world {} {}) (process_range env rpc head a b)"
  unfolding process_range_def
  by (intro quiet_for quiet_bind [OF quiet_processBlock [OF assms], where Q = "\<lambda>_ _. True"] quiet_basic
      preserves_bind preserves_basic fk_calls) simp

lemma quiet_indexToHead:
  assumes "node_consistent rpc"
  shows "quiet (fk_world {} {}) (indexToHead env rpc)"
  unfolding indexToHead_def Let_def
  by (intro quiet_gets_bind quiet_then quiet_for quiet_found quiet_process_range [OF assms] quiet_control quiet_dbM
      quiet_updateFinality quiet_basic preserves_for preserves_option preserves_bind preserves_when preserves_basic fk_calls
      preserves_dbM fk_writer)

lemma quiet_indexBlockNumbers:
  assumes "node_consistent rpc"
  shows "quiet (fk_world {} {}) (indexBlockNumbers env rpc ns)"
  unfolding indexBlockNumbers_def Let_def
  by (intro quiet_then quiet_for quiet_bind [OF quiet_processBlock [OF assms], where Q = "\<lambda>_ _. True"] quiet_basic
      quiet_dbM quiet_updateFinality preserves_for preserves_bind preserves_basic fk_calls) simp

text \<open>
  C2. The statements come in an order in which the schema never refuses one: started on any database the indexer
  can have left (after calls that returned and calls that threw half-way, against any node), no call of the indexer against a
  consistent node fails on a foreign key, a check or a not-null constraint.  What can stop it is only the decoding of the
  node's data, a value that does not fit its column, and a block hash that is stored at another height.
\<close>

theorem no_constraint_violated:
  assumes "reached w" and "node_consistent rpc"
  shows "(\<forall>env e. fst (indexToHead env rpc w) = Inl e \<longrightarrow> \<not> constraint e) \<and>
    (\<forall>env ns e. fst (indexBlockNumbers env rpc ns w) = Inl e \<longrightarrow> \<not> constraint e) \<and>
    (\<forall>env n head e. fst (processBlock env rpc n head w) = Inl e \<longrightarrow> \<not> constraint e)"
  using quiet_indexToHead [OF assms(2)] quiet_indexBlockNumbers [OF assms(2)] quiet_processBlock [OF assms(2)]
    fk.in_reached [OF assms(1)]
  unfolding quiet_def by blast

lemma chain_u_consistent: "node_consistent chain_u"
  unfolding node_consistent_def
proof (intro allI impI)
  fix n b
  assume "getBlockByNumber chain_u n = Some b"
  then have b: "n = 1" "b = block_with ''0xm1'' ''0xt2''"
    by (auto simp: chain_u_def chain_with_def block_with_def split: if_splits)
  have "rr_transactionHash (sample_receipt ''0xt2'' ts) = ''0xt2''" for ts by (simp add: sample_receipt_def)
  then show "parseInt 16 (rb_number b) = JNum n \<and>
      (\<forall>tx \<in> set (rb_transactions b). \<forall>r. getTransactionReceipt chain_u (rt_hash tx) = Some r \<longrightarrow>
        rr_transactionHash r = rt_hash tx \<and>
        (\<forall>l \<in> set (rr_logs r). hexToNumber (rl_blockNumber l) = JNum n \<and> rl_transactionHash l = rt_hash tx))"
    using b block_with_number block_with_txs sample_receipt_logs by (auto dest!: chain_u_receipt)
qed

lemma reached_t: "reached world_t"
proof -
  have "reached sample_start" unfolding sample_start_def by (rule reached_start)
  from reached_block [OF this, of sample_env chain_t 1 1] show ?thesis by (simp add: process_t)
qed

theorem no_constraint_violated_witness:
  "reached world_t \<and> node_consistent chain_u \<and>
   fst (indexToHead sample_env chain_u world_t) \<noteq> Inl (SqlError (ForeignKeyViolation ''address''))"
  using no_constraint_violated [OF reached_t chain_u_consistent] reached_t chain_u_consistent constraint_simps(1) by blast

end
