(* ===== verification/EventProps.thy ===== *)
theory EventProps
  imports Samples
begin

text \<open>
  The properties of the parts the indexing loop is built from: ranges of heights, finality, the
  event topics and the decoding of event data, traces, and the inputs on which a job throws.
\<close>

section \<open>Definitions the properties use\<close>

text \<open>The rows of every table with a finality column that are reverted.\<close>

definition reverted_part :: "db \<Rightarrow> (BlockRow list \<times> TransactionRow list \<times> LogRow list \<times> InternalTxRow list \<times>
    TokenTransferRow list) \<times> (BridgeTransferRow list \<times> StakingEventRow list \<times> ValidatorEventRow list \<times>
    GovernanceEventRow list \<times> CheckpointRow list)" where
  "reverted_part d =
     ((filter (\<lambda>r. blk_finalityStatus r = Reverted) (blocks d),
       filter (\<lambda>r. tx_finalityStatus r = Reverted) (transactions d),
       filter (\<lambda>r. log_finalityStatus r = Reverted) (logs d),
       filter (\<lambda>r. itx_finalityStatus r = Reverted) (internal_txs d),
       filter (\<lambda>r. tt_finalityStatus r = Reverted) (token_transfers d)),
      (filter (\<lambda>r. br_finalityStatus r = Reverted) (bridge_transfers d),
       filter (\<lambda>r. st_finalityStatus r = Reverted) (staking_events d),
       filter (\<lambda>r. ve_finalityStatus r = Reverted) (validator_events d),
       filter (\<lambda>r. gov_finalityStatus r = Reverted) (governance_events d),
       filter (\<lambda>r. cp_finalityStatus r = Reverted) (checkpoints d)))"

text \<open>The traces of a call tree in preorder, and trees without explicit addresses.\<close>

function trace_nodes :: "RpcTrace list \<Rightarrow> RpcTrace list" where
  "trace_nodes [] = []"
| "trace_nodes (t # ts) =
     t # (case trace_calls t of None \<Rightarrow> [] | Some calls \<Rightarrow> trace_nodes calls) @ trace_nodes ts"
  by pat_completeness auto

termination
  by (relation "measure (size_list size)") (auto dest: trace_calls_size)

definition no_addresses :: "RpcTrace list \<Rightarrow> bool" where
  "no_addresses ts = list_all (\<lambda>t. trace_address t = None) (trace_nodes ts)"

text \<open>The canonical data of a TransferBatch event: two offsets, then the two arrays.\<close>

definition batch_data :: "int list \<Rightarrow> int list \<Rightarrow> string" where
  "batch_data ids vals = abiEncodeStatic
     ([64, 32 * (3 + int (length ids)), int (length ids)] @ ids @ [int (length vals)] @ vals)"

section \<open>Ranges\<close>

text \<open>
  The missing ranges cover exactly the heights of \<open>1..upTo\<close> that are not indexed, are not
  empty, come in order and are maximal: between two of them some height is indexed.
\<close>

theorem missing_ranges_exact:
  "covers (getMissingRanges t upTo) = {1..upTo} - set (indexed t) \<and>
   list_all wf_range (getMissingRanges t upTo) \<and> separated (getMissingRanges t upTo)"
  using getMissingRanges_spec by (simp add: list_all_iff)

text \<open>
  Backfilling ends: after every missing range was indexed, none is missing.
\<close>

theorem backfill_completes:
  "getMissingRanges (fold (\<lambda>r. markRangeIndexed (rng_from r) (rng_to r)) (getMissingRanges t upTo) t) upTo = []"
proof -
  let ?t = "fold (\<lambda>r. markRangeIndexed (rng_from r) (rng_to r)) (getMissingRanges t upTo) t"
  have "set (indexed (fold (\<lambda>r. markRangeIndexed (rng_from r) (rng_to r)) rs t)) = covers rs \<union> set (indexed t)" for rs
    by (induction rs arbitrary: t) (auto simp: covers_def set_markRangeIndexed)
  then have "set (indexed ?t) = covers (getMissingRanges t upTo) \<union> set (indexed t)" .
  then have empty: "covers (getMissingRanges ?t upTo) = {}"
    using getMissingRanges_spec [of t upTo] getMissingRanges_spec [of ?t upTo] by auto
  then have "r \<notin> set (getMissingRanges ?t upTo)" for r
    using getMissingRanges_spec [of ?t upTo] by (force simp: covers_def wf_range_def)
  then show ?thesis by (metis list.set_intros(1) neq_Nil_conv)
qed

text \<open>
  \<^verbatim>\<open>hasGap\<close> always answers yes: it asks for the ranges missing below the largest safe
  integer, and no tracker that fits in memory has indexed them all.
\<close>

theorem hasGap_always:
  assumes "length (indexed t) < 9007199254740991"
  shows "hasGap t"
proof -
  let ?r = "getMissingRanges t MAX_SAFE_INTEGER"
  have "card (set (indexed t)) < card {1..MAX_SAFE_INTEGER}"
    using assms card_length [of "indexed t"] by (simp add: MAX_SAFE_INTEGER_def)
  then have "\<not> {1..MAX_SAFE_INTEGER} \<subseteq> set (indexed t)"
    using card_mono [of "set (indexed t)" "{1..MAX_SAFE_INTEGER}"] by auto
  then have "covers ?r \<noteq> {}" using getMissingRanges_spec [of t MAX_SAFE_INTEGER] by auto
  then show ?thesis by (auto simp: hasGap_def covers_def)
qed

theorem hasGap_always_witness: "hasGap (markRangeIndexed 1 2 new_tracker)"
proof (rule hasGap_always)
  have "length (indexed (markRangeIndexed 1 2 new_tracker)) = 2" by code_simp
  then show "length (indexed (markRangeIndexed 1 2 new_tracker)) < 9007199254740991" by simp
qed

section \<open>Finality\<close>

text \<open>
  A block that is finalized below some head is finalized below every later head.
\<close>

theorem finality_monotone:
  assumes "finalityStatusForBlock env (JNum n) (JNum head) False = Inr Finalized" and "head \<le> head'"
  shows "finalityStatusForBlock env (JNum n) (JNum head') False = Inr Finalized"
proof -
  obtain depth where "getConfirmationDepth env = Inr depth"
    using assms(1) by (auto simp: finalityStatusForBlock_def elim: bindS_InrE)
  then show ?thesis using assms by (simp add: finality_of_depth split: if_splits)
qed

theorem finality_monotone_witness: "finalityStatusForBlock sample_env (JNum 1) (JNum 9) False = Inr Finalized"
proof (rule finality_monotone)
  show "finalityStatusForBlock sample_env (JNum 1) (JNum 2) False = Inr Finalized" by code_simp
qed simp

lemma reverted_updateEvm: "st \<noteq> Reverted \<Longrightarrow> keeps reverted_part (updateEvmFinalityForBlock n st)"
  unfolding updateEvmFinalityForBlock_def
  by (intro keeps_intros keeps_modify)
     (simp_all add: reverted_part_def fin_block.refresh_at_keeps_reverted fin_tx.refresh_at_keeps_reverted
       fin_log.refresh_at_keeps_reverted fin_itx.refresh_at_keeps_reverted fin_transfer.refresh_at_keeps_reverted)

lemma reverted_updateGold: "st \<noteq> Reverted \<Longrightarrow> keeps reverted_part (updateGoldFinalityForBlock n st)"
  unfolding updateGoldFinalityForBlock_def
  by (intro keeps_intros keeps_modify)
     (simp_all add: reverted_part_def fin_bridge.refresh_at_keeps_reverted fin_staking.refresh_at_keeps_reverted
       fin_validator.refresh_at_keeps_reverted fin_governance.refresh_at_keeps_reverted
       fin_checkpoint.refresh_at_keeps_reverted)

lemma reverted_supply: "keeps reverted_part refreshGoldSupply"
  unfolding refreshGoldSupply_def
  by (intro keeps_intros keeps_modify keeps_statement) (simp_all add: reverted_part_def)

text \<open>
  The finality pass never brings a reverted row back and reverts none: in each of the ten
  tables with a finality column the reverted rows are the same before and after it.
\<close>

theorem finality_pass_keeps_reverted:
  "reverted_part (snd (updateFinalityForRange env a b head None d)) = reverted_part d"
proof -
  have "st \<noteq> Reverted" if "finalityStatusForBlockNumber env n head None = Inr st" for n st
    using that finality_not_reverted by (auto simp: finalityStatusForBlockNumber_def)
  then have "keeps reverted_part (updateFinalityForRange env a b head None)"
    unfolding updateFinalityForRange_def
    by (intro keeps_then keeps_for keeps_lift_bind reverted_updateEvm reverted_updateGold reverted_supply)
  then show ?thesis by (simp add: keeps_def)
qed

text \<open>
  The confirmation depth is accepted as it is printed: any number below \<open>2^53\<close> in decimal
  is read back as itself, and an accepted depth is never negative.
\<close>

theorem confirmation_depth_roundtrip:
  assumes "n < 9007199254740992"
  shows "getConfirmationDepth (Some (nat_str 10 n)) = Inr (int n) \<and>
    (\<forall>env d. getConfirmationDepth env = Inr d \<longrightarrow> 0 \<le> d)"
  using assms getConfirmationDepth_nat [of n] getConfirmationDepth_nonneg by simp

theorem confirmation_depth_roundtrip_witness: "getConfirmationDepth (Some (nat_str 10 12)) = Inr 12"
  using confirmation_depth_roundtrip [of 12] by simp

section \<open>Topics\<close>

lemma distinct_concat_apart:
  "distinct (concat xss) \<Longrightarrow> i < length xss \<Longrightarrow> j < length xss \<Longrightarrow> i \<noteq> j \<Longrightarrow>
   set (xss ! i) \<inter> set (xss ! j) = {}"
proof (induction xss arbitrary: i j)
  case (Cons xs xss)
  have "set xs \<inter> set (xss ! k) = {}" if "k < length xss" for k
    using Cons.prems(1) nth_mem [OF that] by (simp add: disjoint_iff)
  with Cons show ?case by (cases i; cases j) (auto simp: Int_commute)
qed simp

text \<open>
  No log is taken by two of the five gold jobs: a topic that matches one family of event topics,
  in any mixture of upper and lower case, matches no other.
\<close>

theorem gold_families_apart:
  assumes "i < length gold_families" and "j < length gold_families" and "i \<noteq> j"
    and "topicMatches t (gold_families ! i)"
  shows "\<not> topicMatches t (gold_families ! j)"
proof
  assume m: "topicMatches t (gold_families ! j)"
  then obtain s where t: "t = Some s" by (cases t) (auto simp: topicMatches_def)
  have low: "toLowerCase x = x" if "x \<in> set (gold_families ! k)" "k < length gold_families" for x k
    using gold_topics_lower that by (metis UN_I nth_mem set_concat)
  have "toLowerCase s \<in> set (gold_families ! k)" if "topicMatches t (gold_families ! k)" "k < length gold_families" for k
    using that low by (auto simp: t topicMatches_iff)
  then show False using distinct_concat_apart [OF gold_topics_distinct assms(1-3)] assms m by blast
qed

theorem gold_families_apart_witness:
  "\<not> topicMatches (Some MIGRATION_MINT_TOPIC) (gold_families ! 1)"
proof (rule gold_families_apart [of 0])
  show "topicMatches (Some MIGRATION_MINT_TOPIC) (gold_families ! 0)" by code_simp
qed (simp_all add: gold_families_def)

section \<open>Event data\<close>

text \<open>
  Static event data decodes to the words it encodes: for any 256-bit words, decoding the first
  \<open>n\<close> words of their encoding gives them back, with zeros past the end of the data.
\<close>

theorem abi_static_roundtrip:
  assumes "\<forall>w \<in> set ws. 0 \<le> w \<and> w < 2 ^ 256"
  shows "abiDecodeStatic (abiEncodeStatic ws) n = Inr (take n (ws @ replicate (n - length ws) 0))"
proof -
  have "map (\<lambda>i. if i < length ws then ws ! i else 0) [0..<n] = take n (ws @ replicate (n - length ws) 0)"
    by (rule nth_equalityI) (auto simp: nth_append)
  then show ?thesis using assms abiDecodeStatic_encode_general [of ws n] by (simp add: word_ok_def)
qed

theorem abi_static_roundtrip_witness: "abiDecodeStatic (abiEncodeStatic [5, 2 ^ 255]) 3 = Inr [5, 2 ^ 255, 0]"
  using abi_static_roundtrip [of "[5, 2 ^ 255]" 3] by simp

text \<open>
  A transaction hash survives its conversion to a 32-byte word and back, and a word survives its
  conversion to a hash and back.
\<close>

theorem bytes32_roundtrip:
  assumes "0 \<le> w" and "w < 2 ^ 256"
  shows "bytes32FromTxHash (txHashFromBytes32 w) = Inr w"
proof -
  have w: "word_ok w" using assms by (simp add: word_ok_def)
  then have "slice_last 64 (padStart 64 (word_hex w)) = word_hex w"
    by (simp add: padStart_def slice_last_def)
  then show ?thesis
    using w BigInt_word_hex [OF w] lower_word_hex [OF w]
    by (simp add: bytes32FromTxHash_def txHashFromBytes32_def slice_last_word_hex strip_0x_def startsWith_def
        toLowerCase_def lower_char_def)
qed

theorem bytes32_roundtrip_witness: "bytes32FromTxHash (txHashFromBytes32 (2 ^ 200 + 7)) = Inr (2 ^ 200 + 7)"
  by (rule bytes32_roundtrip) simp_all

lemma batch_arrays:
  assumes ok: "\<forall>w \<in> set (ids @ vals). word_ok w" and len: "length ids = length vals" and small: "length ids < 2 ^ 40"
  shows "abiDecodeUint256Array (batch_data ids vals) 0 = Inr ids"
    and "abiDecodeUint256Array (batch_data ids vals) 1 = Inr vals"
proof -
  let ?n = "length ids"
  let ?ws = "[64, 32 * (3 + int ?n), int ?n] @ ids @ [int (length vals)] @ vals"
  have wok: "\<forall>w \<in> set ?ws. word_ok w"
    using ok small len by (auto simp: word_ok_def intro: order_less_trans [of _ "2 ^ 46"])
  have sm: "length ?ws < 2 ^ 53" using small len by simp
  show "abiDecodeUint256Array (batch_data ids vals) 0 = Inr ids"
    unfolding batch_data_def by (rule abiDecodeUint256Array_at [OF wok _ _ _ _ _ sm, of 0 2]) simp_all
  show "abiDecodeUint256Array (batch_data ids vals) 1 = Inr vals"
    unfolding batch_data_def
    by (rule abiDecodeUint256Array_at [OF wok _ _ _ _ _ sm, of 1 "3 + ?n"]) (simp_all add: nth_append nth_Cons' eval_nat_numeral)
qed

text \<open>
  C22. A TransferBatch event with the canonical data of two arrays of the same length decodes to one
  transfer per pair, in order, with the ids and amounts printed in decimal.
\<close>

theorem transfer_batch_decodes:
  assumes "\<forall>w \<in> set (ids @ vals). 0 \<le> w \<and> w < 2 ^ 256" and "length ids = length vals" and "length ids < 2 ^ 40"
    and "rl_data log = batch_data ids vals" and "rl_topics log = [t0, t1, t2, t3]"
    and "topicToAddress t2 = Inr a" and "topicToAddress t3 = Inr b"
  shows "\<exists>ts. decodeTransferBatch log = Inr ts \<and>
    map (\<lambda>t. (amount_val (e_tokenId t), amount_val (e_amount t))) ts = zip ids vals \<and>
    list_all (\<lambda>t. e_fromAddress t = a \<and> e_toAddress t = b \<and> e_contractAddress t = rl_address log) ts"
proof -
  have "\<forall>w \<in> set (ids @ vals). word_ok w" using assms(1) by (simp add: word_ok_def)
  note arr = batch_arrays [OF this assms(2,3)]
  show ?thesis
    using arr assms(2,4-7) by (auto simp: decodeTransferBatch_def topic_at_def list_all_iff comp_def case_prod_beta)
qed

definition sample_batch :: RpcLog where
  "sample_batch = \<lparr>rl_transactionHash = ''0xt1'', rl_blockNumber = ''0x1'', rl_address = ''0xc1'',
     rl_topics = [TRANSFER_BATCH_TOPIC, sample_topic CHR ''9'', sample_topic CHR ''0'', sample_topic CHR ''1''],
     rl_data = batch_data [1, 2] [7, 9], rl_logIndex = ''0x0''\<rparr>"

theorem transfer_batch_decodes_witness:
  "\<exists>ts. decodeTransferBatch sample_batch = Inr ts \<and>
    map (\<lambda>t. (amount_val (e_tokenId t), amount_val (e_amount t))) ts = [(1, 7), (2, 9)]"
proof -
  have a: "topicToAddress (sample_topic CHR ''0'') = Inr (''0x'' @ replicate 40 CHR ''0'')"
    "topicToAddress (sample_topic CHR ''1'') = Inr (''0x'' @ replicate 40 CHR ''1'')" by code_simp+
  obtain ts where "decodeTransferBatch sample_batch = Inr ts"
    and "map (\<lambda>t. (amount_val (e_tokenId t), amount_val (e_amount t))) ts = zip [1, 2] [7, 9]"
    using transfer_batch_decodes [of "[1, 2]" "[7, 9]" sample_batch, OF _ _ _ _ _ a]
    by (auto simp: sample_batch_def)
  then show ?thesis by auto
qed

section \<open>Bridge events\<close>

lemma number_of_bigint_small:
  assumes "number_of_bigint i = JNum k" and "\<bar>k\<bar> < 2 ^ 53"
  shows "i = k"
proof (cases "\<bar>i\<bar> < 2 ^ 53")
  case True
  with assms show ?thesis by (simp add: number_of_bigint_exact)
next
  case False
  then have "2 ^ 53 \<le> nat \<bar>i\<bar>" by (auto simp: le_nat_iff)
  then have "2 ^ 53 \<le> round_double (nat \<bar>i\<bar>)" by (rule round_double_ge)
  with assms show ?thesis by (auto simp: number_of_bigint_def Let_def split: if_splits)
qed

definition route_id :: "RouteAsset \<Rightarrow> int" where
  "route_id r = (case r of Paxg \<Rightarrow> 1 | Xaut \<Rightarrow> 2)"

definition route_scale :: "RouteAsset \<Rightarrow> int" where
  "route_scale r = (case r of Paxg \<Rightarrow> 1 | Xaut \<Rightarrow> 1000000000000)"

lemma routeAsset_id: "routeAssetFromTokenId (route_id r) = Inr r"
  by (cases r) (simp_all add: routeAssetFromTokenId_def route_id_def number_of_bigint_exact Let_def)

lemma exact_scale: "isAmountExactForRoute r root child \<longleftrightarrow> root = child * route_scale r"
  by (cases r) (simp_all add: isAmountExactForRoute_def route_scale_def XAUT_SCALE_def)

text \<open>
  A LockedScaled event decodes to a deposit of its route with both amounts as they were encoded;
  the deposit is locked exactly when the amount on Ethereum is the amount on the Gold Chain times the
  scale of the route (1 for PAXG, \<open>10^12\<close> for XAUT), and synced otherwise.
\<close>

theorem locked_deposit_decodes:
  assumes "0 \<le> root" and "root < 2 ^ 256" and "0 \<le> child" and "child < 2 ^ 256"
    and "rl_data log = abiEncodeStatic [route_id r, root, child]"
    and "rl_topics log = t0 # t1 # t2 # ts" and "topicToAddress t2 = Inr receiver"
  shows "\<exists>row. decodeLockedScaled log st = Inr row \<and> br_routeAsset row = r \<and> br_direction row = Deposit \<and>
    amount_val (br_rootAmount row) = root \<and> amount_val (br_childAmount row) = child \<and>
    br_receiptCorrelationId row = correlationFromAddress receiver \<and>
    br_bridgeState row = (if root = child * route_scale r then Locked else Synced)"
proof -
  have "\<forall>w \<in> set [route_id r, root, child]. word_ok w"
    using assms(1-4) by (cases r) (simp_all add: word_ok_def route_id_def)
  then have "abiDecodeStatic (rl_data log) 3 = Inr [route_id r, root, child]"
    using abiDecodeStatic_prefix [of "[route_id r, root, child]" 3] assms(5) by simp
  with assms(6,7) show ?thesis
    by (simp add: decodeLockedScaled_def Let_def routeAsset_id exact_scale topic_at_def)
qed

definition sample_locked :: RpcLog where
  "sample_locked = \<lparr>rl_transactionHash = ''0xt1'', rl_blockNumber = ''0x1'', rl_address = ''0xbad'',
     rl_topics = [LOCKED_SCALED_ERC1155_TOPIC, sample_topic CHR ''9'', sample_topic CHR ''1''],
     rl_data = abiEncodeStatic [route_id Xaut, 5000000000000, 5], rl_logIndex = ''0x0''\<rparr>"

theorem locked_deposit_decodes_witness:
  "\<exists>row. decodeLockedScaled sample_locked Pending = Inr row \<and> br_routeAsset row = Xaut \<and>
    amount_val (br_childAmount row) = 5 \<and> br_bridgeState row = Locked"
proof -
  have "topicToAddress (sample_topic CHR ''1'') = Inr (''0x'' @ replicate 40 CHR ''1'')" by code_simp
  then show ?thesis
    using locked_deposit_decodes [of 5000000000000 5 sample_locked Xaut LOCKED_SCALED_ERC1155_TOPIC
        "sample_topic CHR ''9''" "sample_topic CHR ''1''" "[]" _ Pending]
    by (auto simp: sample_locked_def route_scale_def)
qed

text \<open>
  A LockedScaled event with a token id other than 1 and 2, from whatever contract, makes the
  bridge job throw, and nothing after it is written: any contract that emits such an event stops the
  indexing of its block.
\<close>

theorem unknown_token_id_throws:
  assumes "0 \<le> i" and "i < 2 ^ 256" and "i \<noteq> 1" and "i \<noteq> 2" and "0 \<le> x" and "x < 2 ^ 256" and "0 \<le> y" and "y < 2 ^ 256"
    and "rl_topics log = LOCKED_SCALED_ERC1155_TOPIC # ts" and "rl_data log = abiEncodeStatic [i, x, y]"
  shows "processBridgeEvents (log # rest) st d =
    (Inl (ErrorMsg (''Unknown gold token id for route asset: '' @ bigint_str 10 i)), d)"
proof -
  have "\<forall>w \<in> set [i, x, y]. word_ok w" using assms(1-8) by (simp add: word_ok_def)
  then have ws: "abiDecodeStatic (rl_data log) 3 = Inr [i, x, y]"
    using abiDecodeStatic_prefix [of "[i, x, y]" 3] assms(10) by simp
  have "number_of_bigint i \<noteq> JNum 1" "number_of_bigint i \<noteq> JNum 2"
    using assms(3,4) number_of_bigint_small [of i 1] number_of_bigint_small [of i 2] by auto
  then have dec: "decodeLockedScaled log st = Inl (ErrorMsg (''Unknown gold token id for route asset: '' @ bigint_str 10 i))"
    by (simp add: decodeLockedScaled_def ws Let_def routeAssetFromTokenId_def)
  have low: "toLowerCase LOCKED_SCALED_ERC1155_TOPIC = LOCKED_SCALED_ERC1155_TOPIC"
    "LOCKED_SCALED_ERC1155_TOPIC \<noteq> []" "topicMatches (Some LOCKED_SCALED_ERC1155_TOPIC) GOLD_BRIDGE_EVENT_TOPICS"
    by code_simp+
  have "topic0_is log LOCKED_SCALED_ERC1155_TOPIC" "topicMatches (topic0 (rl_topics log)) GOLD_BRIDGE_EVENT_TOPICS"
    "truthy (map_option toLowerCase (topic0 (rl_topics log)))"
    using low by (simp_all add: topic0_is_def topic0_def assms(9) truthy_def)
  then show ?thesis
    by (simp add: processBridgeEvents_def decodeBridgeLog_def dec js_simps)
qed

theorem unknown_token_id_throws_witness:
  "\<exists>e. processBridgeEvents [sample_locked\<lparr>rl_data := abiEncodeStatic [3, 0, 0]\<rparr>] Pending sample_db = (Inl e, sample_db)"
  using unknown_token_id_throws [of 3 0 0 "sample_locked\<lparr>rl_data := abiEncodeStatic [3, 0, 0]\<rparr>"
      "[sample_topic CHR ''9'', sample_topic CHR ''1'']" "[]" Pending sample_db]
  by (simp add: sample_locked_def)

text \<open>
  The bridge table keeps one row per correlation id and state: after an insertion that returns, the
  new row is the only one of its pair, and the rows of other pairs are as before.  The correlation id of
  a deposit is its receiver's address, so a receiver's second deposit replaces the first.
\<close>

theorem bridge_insert_replaces:
  assumes "insertBridgeTransfer row d = (Inr (), d')"
  shows "filter (\<lambda>r. br_receiptCorrelationId r = br_receiptCorrelationId row \<and> br_bridgeState r = br_bridgeState row)
      (bridge_transfers d') = [row] \<and>
    filter (\<lambda>r. \<not> (br_receiptCorrelationId r = br_receiptCorrelationId row \<and> br_bridgeState r = br_bridgeState row))
      (bridge_transfers d') =
    filter (\<lambda>r. \<not> (br_receiptCorrelationId r = br_receiptCorrelationId row \<and> br_bridgeState r = br_bridgeState row))
      (bridge_transfers d)"
  using assms unfolding insertBridgeTransfer_def run_steps
  by (elim statement_InrE) (simp add: delete_where_def)

definition sample_bridge_row :: "string \<Rightarrow> BridgeTransferRow" where
  "sample_bridge_row amount = \<lparr>br_routeAsset = Paxg, br_rootAmount = amount, br_childAmount = amount,
     br_bridgeState = Locked, br_finalityStatus = Pending, br_rootTxHash = Some ''0xt1'', br_childTxHash = None,
     br_direction = Deposit, br_sourceLayer = Ethereum, br_receiptCorrelationId = ''0xcc'', br_amountExact = True\<rparr>"

theorem bridge_insert_replaces_witness:
  "filter (\<lambda>r. br_receiptCorrelationId r = ''0xcc'' \<and> br_bridgeState r = Locked)
     (bridge_transfers (snd (insertBridgeTransfer (sample_bridge_row ''8'')
        (sample_db\<lparr>bridge_transfers := [sample_bridge_row ''3'']\<rparr>)))) = [sample_bridge_row ''8'']"
proof -
  let ?d = "sample_db\<lparr>bridge_transfers := [sample_bridge_row ''3'']\<rparr>"
  have "fst (insertBridgeTransfer (sample_bridge_row ''8'') ?d) = Inr ()" by code_simp
  then have "insertBridgeTransfer (sample_bridge_row ''8'') ?d =
      (Inr (), snd (insertBridgeTransfer (sample_bridge_row ''8'') ?d))" by (simp add: prod_eq_iff)
  from bridge_insert_replaces [OF this] show ?thesis by (simp add: sample_bridge_row_def)
qed

section \<open>Token events\<close>

text \<open>
  A Transfer event with two indexed addresses and empty data, from whatever contract, makes the
  ERC-20 job throw a SyntaxError (\<^verbatim>\<open>BigInt("0x")\<close>) before anything is written.
\<close>

theorem empty_transfer_data_throws:
  assumes "rl_topics log = [TRANSFER_TOPIC, t1, t2]" and "topicToAddress t1 = Inr a" and "topicToAddress t2 = Inr b"
    and "rl_data log = ''0x''"
  shows "processTokenTransfersErc20Erc721 (log # rest) st d = (Inl SyntaxError, d)"
proof -
  have "BigInt ''0x'' = Inl SyntaxError" by code_simp
  then have "decodeErc20Erc721 st log = Inl SyntaxError"
    using assms by (simp add: decodeErc20Erc721_def topic_at_def weiHexToDecimalString_def hexToBigInt_def Let_def)
  moreover have "toLowerCase TRANSFER_TOPIC = TRANSFER_TOPIC" by code_simp
  then have "topic0_is log TRANSFER_TOPIC" using assms(1) by (simp add: topic0_is_def topic0_def)
  ultimately show ?thesis by (simp add: processTokenTransfersErc20Erc721_def js_simps)
qed

theorem empty_transfer_data_throws_witness:
  "processTokenTransfersErc20Erc721 [sample_log\<lparr>rl_data := ''0x''\<rparr>] Pending sample_db = (Inl SyntaxError, sample_db)"
proof (rule empty_transfer_data_throws)
  show "topicToAddress (sample_topic CHR ''0'') = Inr (''0x'' @ replicate 40 CHR ''0'')"
    "topicToAddress (sample_topic CHR ''1'') = Inr (''0x'' @ replicate 40 CHR ''1'')" by code_simp+
qed (simp_all add: sample_log_def)

lemma hexToNumber_word_hex:
  assumes "word_ok w"
  shows "hexToNumber (''0x'' @ word_hex w) = number_of_bigint w"
proof -
  have d: "list_all (is_digit 16) (word_hex w)" by (rule word_hex_digits [OF assms])
  then have tw: "takeWhile (is_digit 16) (word_hex w) = word_hex w" by (simp add: list_all_iff)
  have "word_hex w \<noteq> []" by (rule word_hex_nonempty [OF assms])
  then show ?thesis
    using digits_val_word_hex [OF assms]
    by (simp add: hexToNumber_def parseInt_def Let_def trimStart_def is_space_def startsWith_def tw)
qed

lemma decode_erc721_cong:
  "hexToNumber x = hexToNumber y \<Longrightarrow>
   decodeErc20Erc721 st (log\<lparr>rl_topics := [t0, t1, t2, x]\<rparr>) = decodeErc20Erc721 st (log\<lparr>rl_topics := [t0, t1, t2, y]\<rparr>)"
  by (simp add: decodeErc20Erc721_def topic_at_def Let_def)

text \<open>
  ERC-721 token ids are read as floating-point numbers: the transfers of the ids \<open>2^53\<close> and
  \<open>2^53 + 1\<close> of one contract decode to the same row.
\<close>

theorem erc721_ids_collide:
  "decodeErc20Erc721 st (log\<lparr>rl_topics := [TRANSFER_TOPIC, t1, t2, ''0x'' @ word_hex (2 ^ 53)]\<rparr>) =
   decodeErc20Erc721 st (log\<lparr>rl_topics := [TRANSFER_TOPIC, t1, t2, ''0x'' @ word_hex (2 ^ 53 + 1)]\<rparr>)"
proof -
  have "round_double 9007199254740992 = 9007199254740992" "round_double 9007199254740993 = 9007199254740992"
    by code_simp+
  then have "number_of_bigint (2 ^ 53) = JNum 9007199254740992" "number_of_bigint (2 ^ 53 + 1) = JNum 9007199254740992"
    by (simp_all add: number_of_bigint_def)
  moreover have "word_ok (2 ^ 53)" "word_ok (2 ^ 53 + 1)" by (simp_all add: word_ok_def)
  ultimately have eq: "hexToNumber (''0x'' @ word_hex (2 ^ 53)) = hexToNumber (''0x'' @ word_hex (2 ^ 53 + 1))"
    by (simp only: hexToNumber_word_hex)
  show ?thesis by (rule decode_erc721_cong [OF eq])
qed

section \<open>Governance\<close>

text \<open>
  How a vote's support code is stored: 0 as no support at all, 1 as for, 2 as against, 3 as abstain;
  every other code throws.
\<close>

theorem governance_support_codes:
  "governanceSupportFromCode 0 = Inr None \<and> governanceSupportFromCode 1 = Inr (Some For) \<and>
   governanceSupportFromCode 2 = Inr (Some Against) \<and> governanceSupportFromCode 3 = Inr (Some Abstain) \<and>
   (\<forall>c. c \<notin> {0, 1, 2, 3} \<longrightarrow> (\<exists>e. governanceSupportFromCode c = Inl e))"
proof -
  have "GOVERNANCE_SUPPORT_CODES (number_of_bigint c) = None" if "c \<notin> {0, 1, 2, 3}" for c
    using that number_of_bigint_small [of c 1] number_of_bigint_small [of c 2] number_of_bigint_small [of c 3]
    by (auto simp: GOVERNANCE_SUPPORT_CODES_def)
  then show ?thesis
    by (auto simp: governanceSupportFromCode_def GOVERNANCE_SUPPORT_CODES_def number_of_bigint_exact)
qed

theorem governance_support_codes_witness: "\<exists>e. governanceSupportFromCode 4 = Inl e"
  using governance_support_codes by simp

section \<open>Call traces\<close>

lemma flatten_nodes: "map fst (flattenTraces ts i p) = trace_nodes ts"
  by (induction ts i p rule: flattenTraces.induct) (auto simp: Let_def split: option.split)

lemma no_addresses_Cons:
  "no_addresses (t # ts) \<longleftrightarrow> trace_address t = None \<and>
     (case trace_calls t of None \<Rightarrow> True | Some cs \<Rightarrow> no_addresses cs) \<and> no_addresses ts"
  by (auto simp: no_addresses_def split: option.split)

text \<open>Addresses below a parent extend it, by an index that has not been used before.\<close>

lemma flatten_addresses:
  "no_addresses ts \<Longrightarrow> distinct (map snd (flattenTraces ts i p)) \<and>
   (\<forall>a \<in> set (map snd (flattenTraces ts i p)). \<exists>j q. i \<le> j \<and> a = p @ int j # q)"
proof (induction ts i p rule: flattenTraces.induct)
  case (2 t ts i p)
  let ?here = "p @ [int i]"
  define calls where "calls = map snd (case trace_calls t of None \<Rightarrow> [] | Some cs \<Rightarrow> flattenTraces cs 0 ?here)"
  define later where "later = map snd (flattenTraces ts (Suc i) p)"
  have none: "trace_address t = None" and ts: "no_addresses ts" using "2.prems" by (simp_all add: no_addresses_Cons)
  have flat: "map snd (flattenTraces (t # ts) i p) = ?here # calls @ later"
    using none by (simp add: Let_def calls_def later_def)
  have c: "distinct calls" "\<forall>a \<in> set calls. \<exists>j q. a = p @ int i # int j # q"
    using "2.IH"(1) [of ?here] "2.prems" none
    by (auto simp: no_addresses_Cons calls_def split: option.splits)
  have l: "distinct later" "\<forall>a \<in> set later. \<exists>j q. Suc i \<le> j \<and> a = p @ int j # q"
    using "2.IH"(2) ts none by (simp_all add: later_def)
  have "set calls \<inter> set later = {}" "?here \<notin> set calls" "?here \<notin> set later"
    using c(2) l(2) by fastforce+
  moreover have "\<exists>j q. i \<le> j \<and> a = p @ int j # q" if "a \<in> set (?here # calls @ later)" for a
    using that c(2) l(2) by (auto dest!: bspec [of "set calls"] bspec [of "set later"] intro: Suc_leD)
  ultimately show ?case using c(1) l(1) unfolding flat by auto
qed simp

text \<open>
  Flattening a call tree lists every call once, in preorder, and gives each its own address when the
  node reports none: no two internal transactions of a transaction share one.
\<close>

theorem flatten_traces_exact:
  "map fst (flattenTraces ts 0 []) = trace_nodes ts \<and>
   (no_addresses ts \<longrightarrow> distinct (map snd (flattenTraces ts 0 [])))"
  using flatten_nodes flatten_addresses by blast

definition sample_call :: "RpcTrace list option \<Rightarrow> RpcTrace" where
  "sample_call calls = RpcTrace ''call'' ''0xaa'' None None None None calls"

theorem flatten_traces_exact_witness:
  "distinct (map snd (flattenTraces [sample_call (Some [sample_call None, sample_call None]), sample_call None] 0 []))"
proof -
  have "no_addresses [sample_call (Some [sample_call None, sample_call None]), sample_call None]" by code_simp
  then show ?thesis using flatten_traces_exact by blast
qed

end
