(* ===== verification/BoardFacts.thy ===== *)
theory BoardFacts
  imports GoldRows TokenFacts
begin

text \<open>
  What the aggregating views compute, as integers: the locked total of solvency, the stakes of the
  validator set and of the delegations, and when the governance board and the timelock queue can be
  built.  The amounts are integers in every database of the indexer (\<open>gold_rows\<close>).
\<close>

section \<open>Solvency\<close>

definition bridge_total :: "BridgeState \<Rightarrow> RouteAsset \<Rightarrow> db \<Rightarrow> int" where
  "bridge_total st asset d =
     sum_list (map (\<lambda>r. amount_val (br_rootAmount r))
       (filter (\<lambda>r. br_routeAsset r = asset \<and> br_bridgeState r = st \<and> br_finalityStatus r = Finalized \<and>
                    br_sourceLayer r = Ethereum) (bridge_transfers d)))"

lemma numeric_val_int: "numeric_int s \<Longrightarrow> numeric_val s = NumInt (amount_val s)"
  by (auto elim: numeric_intE)

lemma bridge_sum_int: "gold_rows d \<Longrightarrow> bridge_sum st asset d = NumInt (bridge_total st asset d)"
  unfolding bridge_sum_def bridge_total_def
  by (rule numeric_sum_ints) (auto simp: gold_rows_def bridge_ok_def numeric_val_int)

lemma outstanding_int:
  "gold_rows d \<Longrightarrow>
   outstandingLockedTotal asset d = Inr (bigint_str 10 (bridge_total Locked asset d - bridge_total Released asset d))"
  by (simp add: outstandingLockedTotal_def netLocked_def LOCKED_SUM_SQL_def RELEASED_SUM_SQL_def bridge_sum_int
      numeric_text_def BigInt_bigint_str)

lemma supply_of_at:
  assumes "db_wf d"
  shows "supply_of (Some i) d = bigint_str 10 (supply_at d i)"
proof -
  have dist: "distinct (map gs_tokenId (gold_supply d))" using assms by (simp add: db_wf_def wf_gold_def)
  let ?rs = "filter (\<lambda>r. gs_tokenId r = i) (gold_supply d)"
  have "distinct (map gs_tokenId ?rs)" using dist by (simp add: distinct_map_filter)
  moreover have "set (map gs_tokenId ?rs) \<subseteq> {i}" by auto
  ultimately have "length ?rs \<le> 1"
    by (metis card_mono card.empty card.insert distinct_card empty_iff finite.emptyI finite.insertI length_map One_nat_def)
  then show ?thesis
    by (cases ?rs) (auto simp: supply_of_def supply_at_def bigint_str_0)
qed

text \<open>A row inserted over another of the same correlation id and state takes its place in the total.\<close>

lemma sum_filter_split:
  "sum_list (map f xs) = sum_list (map f (filter p xs)) + (sum_list (map f (filter (\<lambda>x. \<not> p x) xs)) :: int)"
  by (induction xs) simp_all

lemma insert_bridge_total:
  assumes "insertBridgeTransfer row d = (Inr (), d')"
    and "filter (\<lambda>r. br_receiptCorrelationId r = br_receiptCorrelationId row \<and> br_bridgeState r = Locked)
           (bridge_transfers d) = [old]"
    and "br_bridgeState row = Locked" "br_routeAsset row = asset" "br_finalityStatus row = Finalized" "br_sourceLayer row = Ethereum"
    and "br_routeAsset old = asset" "br_finalityStatus old = Finalized" "br_sourceLayer old = Ethereum"
  shows "bridge_total Locked asset d' =
    bridge_total Locked asset d - amount_val (br_rootAmount old) + amount_val (br_rootAmount row)"
proof -
  let ?same = "\<lambda>r. br_receiptCorrelationId r = br_receiptCorrelationId row \<and> br_bridgeState r = Locked"
  let ?q = "\<lambda>r. br_routeAsset r = asset \<and> br_bridgeState r = Locked \<and> br_finalityStatus r = Finalized \<and> br_sourceLayer r = Ethereum"
  let ?f = "\<lambda>r. amount_val (br_rootAmount r)"
  let ?rest = "filter ?q (filter (\<lambda>r. \<not> ?same r) (bridge_transfers d))"
  have old: "br_bridgeState old = Locked" proof -
    have "old \<in> set (filter ?same (bridge_transfers d))" using assms(2) by simp
    then show ?thesis by simp
  qed
  have d': "bridge_transfers d' = filter (\<lambda>r. \<not> ?same r) (bridge_transfers d) @ [row]"
    using assms(1,3) unfolding insertBridgeTransfer_def run_steps by (elim statement_InrE) (simp add: delete_where_def)
  have "bridge_total Locked asset d' = sum_list (map ?f ?rest) + ?f row"
    using assms(3-6) by (simp add: bridge_total_def d')
  moreover have "filter ?same (filter ?q (bridge_transfers d)) = filter ?q (filter ?same (bridge_transfers d))"
    by (simp add: conj_ac)
  then have "filter ?same (filter ?q (bridge_transfers d)) = [old]" using assms(2,7-9) old by simp
  moreover have "filter (\<lambda>r. \<not> ?same r) (filter ?q (bridge_transfers d)) = ?rest" by (simp add: conj_ac)
  ultimately show ?thesis
    using sum_filter_split [of ?f "filter ?q (bridge_transfers d)" ?same] by (simp add: bridge_total_def)
qed

lemma insert_other_state:
  assumes "insertBridgeTransfer row d = (Inr (), d')" and "br_bridgeState row = Locked" and "st \<noteq> Locked"
  shows "bridge_total st asset d' = bridge_total st asset d"
proof -
  have d': "bridge_transfers d' = filter (\<lambda>r. \<not> (br_receiptCorrelationId r = br_receiptCorrelationId row \<and> br_bridgeState r = Locked))
      (bridge_transfers d) @ [row]"
    using assms(1,2) unfolding insertBridgeTransfer_def run_steps by (elim statement_InrE) (simp add: delete_where_def)
  have "filter (\<lambda>r. br_routeAsset r = asset \<and> br_bridgeState r = st \<and> br_finalityStatus r = Finalized \<and>
      br_sourceLayer r = Ethereum) (bridge_transfers d') = filter (\<lambda>r. br_routeAsset r = asset \<and> br_bridgeState r = st \<and>
      br_finalityStatus r = Finalized \<and> br_sourceLayer r = Ethereum) (bridge_transfers d)"
    using assms(2,3) by (auto simp: d' intro: filter_cong)
  then show ?thesis by (simp add: bridge_total_def)
qed

section \<open>Stakes\<close>

definition stake_delta_int :: "StakingEventRow \<Rightarrow> int" where
  "stake_delta_int r =
     (if st_eventType r = ''stake'' then amount_val (st_amount r)
      else if st_eventType r = ''unstake'' then - amount_val (st_amount r) else 0)"

definition net_stake_int :: "(StakingEventRow \<Rightarrow> bool) \<Rightarrow> db \<Rightarrow> int" where
  "net_stake_int p d = sum_list (map stake_delta_int (filter p (stake_rows d)))"

lemma net_stake_eval: "gold_rows d \<Longrightarrow> net_stake p d = NumInt (net_stake_int p d)"
  unfolding net_stake_def net_stake_int_def
  by (rule numeric_sum_ints)
    (auto simp: stake_rows_def gold_rows_def staking_ok_def stake_delta_def stake_delta_int_def numeric_val_int)

lemma foldl_groups:
  "foldl (\<lambda>m row. case row of ((v, a), n) \<Rightarrow> m(v := (m v)(a := Some n))) m (map (\<lambda>k. (k, g k)) ks) v a =
   (if (v, a) \<in> set ks then Some (g (v, a)) else m v a)"
  by (induction ks arbitrary: m) (auto split: prod.split)

lemma stake_text:
  assumes "gold_rows d"
  shows "(case stakeByValidator d v a of None \<Rightarrow> ''0'' | Some s \<Rightarrow> s) =
    bigint_str 10 (net_stake_int (\<lambda>r. st_validatorAddress r = Some v \<and> st_stakeAsset r = a) d)"
proof -
  let ?ks = "remdups (List.map_filter (\<lambda>r. map_option (\<lambda>v. (v, st_stakeAsset r)) (st_validatorAddress r)) (stake_rows d))"
  let ?p = "\<lambda>r. st_validatorAddress r = Some v \<and> st_stakeAsset r = a"
  have "stake_groups d = map (\<lambda>k. (k, numeric_text (net_stake
      (\<lambda>r. st_validatorAddress r = Some (fst k) \<and> st_stakeAsset r = snd k) d))) ?ks"
    by (simp add: stake_groups_def case_prod_beta)
  then have "stakeByValidator d v a = (if (v, a) \<in> set ?ks then Some (numeric_text (net_stake ?p d)) else None)"
    unfolding stakeByValidator_def by (simp only: foldl_groups fst_conv snd_conv)
  moreover have "filter ?p (stake_rows d) = []" if "(v, a) \<notin> set ?ks"
    using that by (auto simp: List.map_filter_def filter_empty_conv image_iff)
  ultimately show ?thesis
    using assms by (auto simp: net_stake_eval numeric_text_def net_stake_int_def bigint_str_0)
qed

lemma net_stake_assets:
  "net_stake_int (\<lambda>r. p r \<and> st_stakeAsset r = Gilt) d + net_stake_int (\<lambda>r. p r \<and> st_stakeAsset r = GoldId1) d +
   net_stake_int (\<lambda>r. p r \<and> st_stakeAsset r = GoldId2) d = net_stake_int p d"
proof -
  have "sum_list (map f (filter (\<lambda>r. p r \<and> st_stakeAsset r = Gilt) xs)) +
      sum_list (map f (filter (\<lambda>r. p r \<and> st_stakeAsset r = GoldId1) xs)) +
      sum_list (map f (filter (\<lambda>r. p r \<and> st_stakeAsset r = GoldId2) xs)) = sum_list (map f (filter p xs))"
    for f :: "StakingEventRow \<Rightarrow> int" and xs
  proof (induction xs)
    case (Cons x xs)
    then show ?case by (cases "st_stakeAsset x") auto
  qed simp
  then show ?thesis by (simp add: net_stake_int_def)
qed

text \<open>The row of a validator: its stakes per asset, their sum, and the flags of its last event.\<close>

lemma validator_set_row_eval:
  assumes "gold_rows d"
  shows "validator_set_row pg d v = Inr \<lparr>vs_validatorAddress = v,
    vs_votingPower = bigint_str 10 (net_stake_int (\<lambda>r. st_validatorAddress r = Some v) d),
    vs_giltStake = bigint_str 10 (net_stake_int (\<lambda>r. st_validatorAddress r = Some v \<and> st_stakeAsset r = Gilt) d),
    vs_goldId1Stake = bigint_str 10 (net_stake_int (\<lambda>r. st_validatorAddress r = Some v \<and> st_stakeAsset r = GoldId1) d),
    vs_goldId2Stake = bigint_str 10 (net_stake_int (\<lambda>r. st_validatorAddress r = Some v \<and> st_stakeAsset r = GoldId2) d),
    vs_commissionBps = (case latest_validator_event pg d v of None \<Rightarrow> JNum 0 | Some r \<Rightarrow> ve_commissionBps r),
    vs_jailed = (case latest_validator_event pg d v of None \<Rightarrow> False | Some r \<Rightarrow> ve_jailed r),
    vs_elected = (case latest_validator_event pg d v of None \<Rightarrow> False | Some r \<Rightarrow> ve_elected r)\<rparr>"
  using net_stake_assets [of "\<lambda>r. st_validatorAddress r = Some v" d]
  by (simp only: validator_set_row_def Let_def stake_text [OF assms] BigInt_bigint_str bindS_simps)

lemma validator_set_power:
  assumes "gold_rows d" and "validator_set_row pg d v = Inr row"
  shows "vs_votingPower row = bigint_str 10 (net_stake_int (\<lambda>r. st_validatorAddress r = Some v) d)"
  using assms(2) unfolding validator_set_row_eval [OF assms(1)] by (auto simp del: bigint_str_def)

lemma computeValidatorSet_eval:
  assumes "gold_rows d"
  obtains rows where "computeValidatorSet pg d = Inr rows"
    and "\<And>row. row \<in> set rows \<Longrightarrow> validator_set_row pg d (vs_validatorAddress row) = Inr row"
    and "vs_validatorAddress ` set rows =
      ve_validatorAddress ` {r \<in> set (validator_events d). ve_finalityStatus r = Finalized}"
proof -
  let ?vs = "order_by (pg_collate pg) (remdups (map ve_validatorAddress
     (filter (\<lambda>r. ve_finalityStatus r = Finalized) (validator_events d))))"
  define row where "row v = (case validator_set_row pg d v of Inr r \<Rightarrow> r | Inl e \<Rightarrow> undefined)" for v
  have row: "validator_set_row pg d v = Inr (row v)" and addr: "vs_validatorAddress (row v) = v" for v
    using validator_set_row_eval [OF assms, of pg v] by (simp_all add: row_def)
  have "computeValidatorSet pg d = Inr (map row ?vs)"
    unfolding computeValidatorSet_def by (rule mapS_all_Inr) (simp add: row)
  then show ?thesis
    by (rule that) (auto simp: row addr image_image)
qed

section \<open>Delegations\<close>

lemma sum_list_nonzero:
  "sum_list (map snd (filter (\<lambda>p. q (fst p)) (filter (\<lambda>p. snd p \<noteq> 0) (map (\<lambda>k. (k, g k)) ks)))) =
   (sum_list (map g (filter q ks)) :: int)"
  by (induction ks) auto

lemma group_sums_total:
  "sum_list (map snd (filter (\<lambda>p. q (fst p)) (group_sums ds))) = sum_list (map snd (filter (\<lambda>p. q (fst p)) ds))"
proof -
  let ?ks = "filter q (remdups (map fst ds))"
  have "sum_list (map snd (filter (\<lambda>p. q (fst p)) (group_sums ds))) = sum_list (map (sum_for ds) ?ks)"
    unfolding group_sums_def by (rule sum_list_nonzero)
  also have "\<dots> = (\<Sum>k \<in> set ?ks. sum_for ds k)"
    by (rule sum_list_distinct_conv_sum_set) (rule distinct_filter, rule distinct_remdups)
  also have "\<dots> = sum_list (map snd (filter (\<lambda>p. fst p \<in> set ?ks) ds))" by (rule sum_sum_for) simp
  also have "filter (\<lambda>p. fst p \<in> set ?ks) ds = filter (\<lambda>p. q (fst p)) ds" by (rule filter_cong) auto
  finally show ?thesis .
qed

definition stake_deltas :: "db \<Rightarrow> ((string \<times> string option \<times> StakeAsset) \<times> int) list" where
  "stake_deltas d = map (\<lambda>r. (delegation_key r, stake_delta_int r)) (stake_rows d)"

lemma sum_for_stakes: "sum_for (stake_deltas d) k = net_stake_int (\<lambda>r. delegation_key r = k) d"
  by (simp add: sum_for_def stake_deltas_def net_stake_int_def filter_map comp_def)

lemma delegation_groups_eval:
  assumes "gold_rows d"
  shows "delegation_groups d = map (\<lambda>p. (fst p, NumInt (snd p))) (group_sums (stake_deltas d))"
proof -
  have "map fst (stake_deltas d) = map delegation_key (stake_rows d)" by (simp add: stake_deltas_def comp_def)
  then show ?thesis
    by (simp add: delegation_groups_def group_sums_def net_stake_eval [OF assms] sum_for_stakes filter_map comp_def
        case_prod_beta)
qed

definition delegated_to :: "string \<Rightarrow> DelegationRow list \<Rightarrow> int" where
  "delegated_to v gs = sum_list (map (\<lambda>g. amount_val (dg_amount g)) (filter (\<lambda>g. dg_validator g = v) gs))"

lemma delegated_to_groups:
  "delegated_to v (List.map_filter (\<lambda>((s, v, a), n). map_option (\<lambda>validator.
       \<lparr>dg_delegator = s, dg_validator = validator, dg_stakeAsset = a, dg_amount = numeric_text n\<rparr>) v)
     (map (\<lambda>p. (fst p, NumInt (snd p))) gs)) =
   sum_list (map snd (filter (\<lambda>p. fst (snd (fst p)) = Some v) gs))"
proof (induction gs)
  case (Cons g gs)
  obtain s u a n where g: "g = ((s, u, a), n)" by (metis prod_cases4 surj_pair)
  show ?case
    using Cons by (cases u) (simp_all add: g delegated_to_def List.map_filter_def numeric_text_def)
qed (simp add: delegated_to_def List.map_filter_def)

lemma delegated_to_net:
  assumes "gold_rows d"
  shows "delegated_to v (fst (computeDelegations d)) = net_stake_int (\<lambda>r. st_validatorAddress r = Some v) d"
proof -
  have "delegated_to v (fst (computeDelegations d)) =
      sum_list (map snd (filter (\<lambda>p. fst (snd (fst p)) = Some v) (group_sums (stake_deltas d))))"
    by (simp add: computeDelegations_def delegation_groups_eval [OF assms] delegated_to_groups)
  also have "\<dots> = sum_list (map snd (filter (\<lambda>p. fst (snd (fst p)) = Some v) (stake_deltas d)))"
    by (rule group_sums_total)
  also have "\<dots> = net_stake_int (\<lambda>r. st_validatorAddress r = Some v) d"
    by (simp add: stake_deltas_def net_stake_int_def filter_map comp_def delegation_key_def)
  finally show ?thesis .
qed

section \<open>Governance\<close>

lemma set_finalized_events:
  "set (finalized_events pg ty d) =
   {r \<in> set (governance_events d). gov_finalityStatus r = Finalized \<and> gov_eventType r = ty}"
proof -
  let ?t = "with_ids pg ''governance_events'' (governance_events d)"
  have "set (finalized_events pg ty d) = snd ` {p \<in> set ?t. gov_finalityStatus (snd p) = Finalized \<and> gov_eventType (snd p) = ty}"
    by (simp add: finalized_events_def case_prod_beta)
  also have "\<dots> = {r \<in> snd ` set ?t. gov_finalityStatus r = Finalized \<and> gov_eventType r = ty}" by blast
  finally show ?thesis by (simp add: set_with_ids)
qed

lemma mapS_first_failure:
  assumes "\<And>x e. x \<in> set xs \<Longrightarrow> f x = Inl e \<Longrightarrow> e = err"
  shows "mapS f xs = (if \<exists>x \<in> set xs. \<exists>e. f x = Inl e then Inl err else Inr (map (\<lambda>x. projr (f x)) xs))"
  using assms
proof (induction xs)
  case (Cons x xs)
  have ih: "mapS f xs = (if \<exists>x \<in> set xs. \<exists>e. f x = Inl e then Inl err else Inr (map (\<lambda>x. projr (f x)) xs))"
    by (rule Cons.IH) (use Cons.prems in auto)
  show ?case
  proof (cases "f x")
    case (Inl e)
    with Cons.prems [of x e] show ?thesis by auto
  next
    case (Inr y)
    then show ?thesis by (simp add: ih)
  qed
qed simp

text \<open>A queued proposal that was not executed.\<close>

definition waiting :: "db \<Rightarrow> GovernanceEventRow \<Rightarrow> bool" where
  "waiting d q \<longleftrightarrow> q \<in> set (governance_events d) \<and> gov_finalityStatus q = Finalized \<and> gov_eventType q = ''queued'' \<and>
     \<not> list_ex (\<lambda>e. gov_finalityStatus e = Finalized \<and> gov_eventType e = ''executed'' \<and>
          sql_eq (gov_proposalId e) (gov_proposalId q)) (governance_events d)"

lemma board_cases:
  "(\<exists>q. waiting d q \<and> gov_timelockEta q = None) \<Longrightarrow> computeGovernanceBoard pg d = Inl TypeError"
  "\<not> (\<exists>q. waiting d q \<and> gov_timelockEta q = None) \<Longrightarrow> \<exists>b. computeGovernanceBoard pg d = Inr b \<and>
     set (gb_timelockQueue b) = {\<lparr>tq_proposalId = gov_proposalId q, tq_timelockEta = unix_text eta\<rparr> | q eta.
       waiting d q \<and> gov_timelockEta q = Some eta}"
proof -
  define qs where "qs = filter (\<lambda>q. \<not> list_ex (\<lambda>e. gov_finalityStatus e = Finalized \<and> gov_eventType e = ''executed'' \<and>
          sql_eq (gov_proposalId e) (gov_proposalId q)) (governance_events d)) (finalized_events pg ''queued'' d)"
  have qs: "set qs = {q. waiting d q}" by (auto simp: qs_def waiting_def set_finalized_events)
  have board: "\<exists>ps. computeGovernanceBoard pg d =
      bindS (mapS timelock_item qs) (\<lambda>tq. Inr \<lparr>gb_proposals = ps, gb_timelockQueue = tq\<rparr>)"
    unfolding computeGovernanceBoard_def Let_def qs_def by blast
  have fails: "(\<exists>e. timelock_item q = Inl e) \<longleftrightarrow> gov_timelockEta q = None" for q
    by (simp add: timelock_item_def split: option.split)
  have m: "mapS timelock_item qs = (if \<exists>q \<in> set qs. \<exists>e. timelock_item q = Inl e then Inl TypeError
      else Inr (map (\<lambda>q. projr (timelock_item q)) qs))"
    by (rule mapS_first_failure) (auto simp: timelock_item_def split: option.splits)
  show "computeGovernanceBoard pg d = Inl TypeError" if "\<exists>q. waiting d q \<and> gov_timelockEta q = None"
    using that m board by (auto simp: qs fails)
  show "\<exists>b. computeGovernanceBoard pg d = Inr b \<and>
     set (gb_timelockQueue b) = {\<lparr>tq_proposalId = gov_proposalId q, tq_timelockEta = unix_text eta\<rparr> | q eta.
       waiting d q \<and> gov_timelockEta q = Some eta}"
    if none: "\<not> (\<exists>q. waiting d q \<and> gov_timelockEta q = None)"
  proof -
    have r: "mapS timelock_item qs = Inr (map (\<lambda>q. projr (timelock_item q)) qs)"
      using none m by (auto simp: qs fails)
    have "(\<lambda>q. projr (timelock_item q)) ` {q. waiting d q} =
        {\<lparr>tq_proposalId = gov_proposalId q, tq_timelockEta = unix_text eta\<rparr> | q eta.
          waiting d q \<and> gov_timelockEta q = Some eta}"
    proof (intro equalityI subsetI)
      fix x
      assume "x \<in> (\<lambda>q. projr (timelock_item q)) ` {q. waiting d q}"
      then obtain q where "waiting d q" and x: "x = projr (timelock_item q)" by blast
      with none obtain eta where "gov_timelockEta q = Some eta" by (cases "gov_timelockEta q") auto
      with \<open>waiting d q\<close> x show "x \<in> {\<lparr>tq_proposalId = gov_proposalId q, tq_timelockEta = unix_text eta\<rparr> | q eta.
          waiting d q \<and> gov_timelockEta q = Some eta}" by (auto simp: timelock_item_def)
    qed (force simp: timelock_item_def)
    then show ?thesis using board by (auto simp: r qs)
  qed
qed

end
