(* ===== verification/EvmApi.thy ===== *)
theory EvmApi
  imports GoldBoards
begin

text \<open>
  \<^verbatim>\<open>packages/api/src/evm\<close>: the read-only interface with Etherscan's parameters.  The store adds to the
  indexer's database the columns only this package touches: the verification columns of
  \<^verbatim>\<open>contracts\<close> (a contract without an entry has their defaults) and \<^verbatim>\<open>addresses.gilt_balance\<close>.
  The decoder of transaction input by an ABI belongs to the package ethers and is a parameter.
  Rows with equal sort keys come in the order of insertion.
\<close>

section \<open>Store and responses\<close>

record ContractMeta =
  cm_isVerified :: bool
  cm_sourceCode :: "string option"
  cm_abi :: "string option"
  cm_compilerVersion :: "string option"
  cm_optimizationEnabled :: "bool option"
  cm_optimizationRuns :: "int option"
  cm_evmVersion :: "string option"
  cm_constructorArguments :: "string option"

definition default_meta :: ContractMeta where
  "default_meta = \<lparr>cm_isVerified = False, cm_sourceCode = None, cm_abi = None, cm_compilerVersion = None,
     cm_optimizationEnabled = None, cm_optimizationRuns = None, cm_evmVersion = None,
     cm_constructorArguments = None\<rparr>"

record ApiStore =
  s_db :: db
  s_meta :: "(string \<times> ContractMeta) list"
  s_gilt :: "string \<Rightarrow> numeric"

definition meta_of :: "ApiStore \<Rightarrow> string \<Rightarrow> ContractMeta" where
  "meta_of s a = (case map_of (s_meta s) a of None \<Rightarrow> default_meta | Some m \<Rightarrow> m)"

definition contract_at :: "ApiStore \<Rightarrow> string \<Rightarrow> (ContractRow \<times> ContractMeta) option" where
  "contract_at s a =
     (case filter (\<lambda>c. c_address c = a) (contracts (s_db s)) of [] \<Rightarrow> None | c # _ \<Rightarrow> Some (c, meta_of s a))"

record EtherscanResponse =
  es_status :: string
  es_message :: string
  es_result :: json

definition api_ok :: "json \<Rightarrow> EtherscanResponse" where
  "api_ok r = \<lparr>es_status = ''1'', es_message = ''OK'', es_result = r\<rparr>"

definition api_empty :: "string \<Rightarrow> EtherscanResponse" where
  "api_empty message = \<lparr>es_status = ''1'', es_message = message, es_result = JsArray []\<rparr>"

definition notOk :: "string \<Rightarrow> EtherscanResponse" where
  "notOk message = \<lparr>es_status = ''0'', es_message = ''NOTOK'', es_result = JsString message\<rparr>"

text \<open>\<^verbatim>\<open>x ?? d\<close> and a nullable column in a JSON object.\<close>

definition nullish :: "string option \<Rightarrow> string \<Rightarrow> string" where
  "nullish v d = (case v of None \<Rightarrow> d | Some s \<Rightarrow> s)"

definition json_opt :: "string option \<Rightarrow> json" where
  "json_opt v = (case v of None \<Rightarrow> JsNull | Some s \<Rightarrow> JsString s)"

section \<open>tx-format.ts\<close>

record TxView =
  tv_tx :: TransactionRow
  tv_block :: BlockRow
  tv_receipt :: "ReceiptRow option"

definition TX_SELECT_SQL :: "db \<Rightarrow> TxView list" where
  "TX_SELECT_SQL d =
     concat (map (\<lambda>t. concat (map (\<lambda>b.
         let rs = filter (\<lambda>r. rcpt_transactionHash r = tx_hash t) (receipts d) in
         map (\<lambda>r. \<lparr>tv_tx = t, tv_block = b, tv_receipt = r\<rparr>) (if rs = [] then [None] else map Some rs))
       (filter (\<lambda>b. JNum (blk_number b) = tx_blockNumber t) (blocks d)))) (transactions d))"

definition formatTransactionRow :: "TxView \<Rightarrow> (string \<times> json) list" where
  "formatTransactionRow v =
     (let t = tv_tx v; b = tv_block v; r = tv_receipt v in
      [(''blockNumber'', JsString (number_str (tx_blockNumber t))),
       (''timeStamp'', JsString (unix_text (blk_timestamp b))),
       (''hash'', JsString (tx_hash t)),
       (''nonce'', JsString (bigint_str 10 (tx_nonce t))),
       (''blockHash'', JsString (blk_hash b)),
       (''transactionIndex'', JsString (number_str (tx_transactionIndex t))),
       (''from'', JsString (tx_fromAddress t)),
       (''to'', JsString (nullish (tx_toAddress t) '''')),
       (''value'', JsString (column_text (tx_value t))),
       (''gas'', JsString (bigint_str 10 (tx_gas t))),
       (''gasPrice'', JsString (nullish (map_option column_text (tx_gasPrice t)) ''0'')),
       (''isError'', JsString (if tx_status t = JNum 1 then ''0'' else ''1'')),
       (''txreceipt_status'', JsString (number_str (tx_status t))),
       (''input'', JsString (tx_input t)),
       (''contractAddress'', JsString (nullish (Option.bind r rcpt_contractAddress) '''')),
       (''cumulativeGasUsed'', JsString (nullish (map_option (\<lambda>r. bigint_str 10 (rcpt_cumulativeGasUsed r)) r) ''0'')),
       (''gasUsed'', JsString (nullish (map_option (\<lambda>r. bigint_str 10 (rcpt_gasUsed r)) r) ''0'')),
       (''finalityStatus'', JsString (finality_text (tx_finalityStatus t)))])"

section \<open>account.ts\<close>

definition requireAddress :: "params \<Rightarrow> js_error + string" where
  "requireAddress ps = requireHexAddress (param ps ''address'') ''address''"

definition parseBlockParam :: "string option \<Rightarrow> int \<Rightarrow> jsnum" where
  "parseBlockParam v defaultValue =
     (if \<not> truthy v then JNum defaultValue
      else (let parsed = parseInt 10 (the v) in if parsed = JNaN then JNum defaultValue else parsed))"

definition parseBlockRange :: "params \<Rightarrow> jsnum \<times> jsnum" where
  "parseBlockRange ps = (parseBlockParam (param ps ''startblock'') 0, parseBlockParam (param ps ''endblock'') 99999999)"

datatype SortOrder = ASC | DESC

definition sortOrder :: "params \<Rightarrow> SortOrder" where
  "sortOrder ps = (if map_option toLowerCase (param ps ''sort'') = Some ''asc'' then ASC else DESC)"

definition ordered :: "SortOrder \<Rightarrow> ('r \<Rightarrow> 'k::linorder) \<Rightarrow> 'r list \<Rightarrow> 'r list" where
  "ordered ord key rows = (case ord of ASC \<Rightarrow> order_by key rows | DESC \<Rightarrow> order_by_desc key rows)"

text \<open>\<^verbatim>\<open>block_number BETWEEN $1 AND $2\<close>\<close>

definition between :: "jsnum \<Rightarrow> int \<Rightarrow> int \<Rightarrow> bool" where
  "between n a b \<longleftrightarrow> a \<le> num_key n \<and> num_key n \<le> b"

definition json_list :: "string \<Rightarrow> ('r \<Rightarrow> (string \<times> json) list) \<Rightarrow> 'r list \<Rightarrow> EtherscanResponse" where
  "json_list none f rows = (if rows = [] then api_empty none else api_ok (JsArray (map (\<lambda>r. JsObject (f r)) rows)))"

definition addressTokenBalance :: "Pg \<Rightarrow> params \<Rightarrow> ApiStore \<Rightarrow> js_error + EtherscanResponse" where
  "addressTokenBalance pg ps s =
     bindS (requireAddress ps) (\<lambda>address.
     let rows = order_by (\<lambda>(tb, tc). (pg_collate pg (tb_contractAddress tb), numeric_key (tb_tokenId tb)))
           (concat (map (\<lambda>tb. map (\<lambda>tc. (tb, tc))
               (filter (\<lambda>tc. tc_address tc = tb_contractAddress tb) (token_contracts (s_db s))))
             (filter (\<lambda>tb. tb_address tb = address \<and> tb_balance tb \<noteq> 0) (token_balances (s_db s))))) in
     Inr (json_list ''No token balances found'' (\<lambda>(tb, tc).
       [(''contractAddress'', JsString (tb_contractAddress tb)),
        (''tokenID'', JsString (numeric_text (tb_tokenId tb))),
        (''balance'', JsString (bigint_str 10 (tb_balance tb))),
        (''tokenStandard'', JsString (standard_text (tc_type tc)))]) rows))"

definition accountBalance :: "params \<Rightarrow> ApiStore \<Rightarrow> js_error + EtherscanResponse" where
  "accountBalance ps s =
     bindS (requireAddress ps) (\<lambda>address.
     Inr (api_ok (JsString (if address \<in> set (addresses (s_db s)) then numeric_text (s_gilt s address) else ''0''))))"

definition accountTxList :: "params \<Rightarrow> ApiStore \<Rightarrow> js_error + EtherscanResponse" where
  "accountTxList ps s =
     bindS (requireAddress ps) (\<lambda>address.
     let (start, stop) = parseBlockRange ps; (lim, off) = sqlLimitOffset (evm_parsePagination ps) in
     bindS (pg_bigint start) (\<lambda>a. bindS (pg_bigint stop) (\<lambda>b.
     bindS (limit_offset lim off (ordered (sortOrder ps)
         (\<lambda>v. (num_key (tx_blockNumber (tv_tx v)), num_key (tx_transactionIndex (tv_tx v))))
         (filter (\<lambda>v. tx_finalityStatus (tv_tx v) \<noteq> Reverted \<and> blk_finalityStatus (tv_block v) \<noteq> Reverted \<and>
                      between (tx_blockNumber (tv_tx v)) a b \<and>
                      (tx_fromAddress (tv_tx v) = address \<or> tx_toAddress (tv_tx v) = Some address))
           (TX_SELECT_SQL (s_db s))))) (\<lambda>rows.
     Inr (json_list ''No transactions found'' formatTransactionRow rows)))))"

definition internal_item :: "InternalTxRow \<Rightarrow> BlockRow \<Rightarrow> (string \<times> json) list" where
  "internal_item it b =
     [(''blockNumber'', JsString (number_str (itx_blockNumber it))),
      (''timeStamp'', JsString (unix_text (blk_timestamp b))),
      (''hash'', JsString (itx_transactionHash it)),
      (''from'', JsString (itx_fromAddress it)),
      (''to'', JsString (nullish (itx_toAddress it) '''')),
      (''value'', JsString (column_text (itx_value it))),
      (''type'', JsString (nullish (itx_type it) ''call'')),
      (''traceId'', JsString (itx_traceAddress it)),
      (''isError'', JsString (if truthy (itx_error it) then ''1'' else ''0'')),
      (''errCode'', JsString (nullish (itx_error it) '''')),
      (''finalityStatus'', JsString (finality_text (itx_finalityStatus it)))]"

definition accountInternalTxList :: "Pg \<Rightarrow> params \<Rightarrow> ApiStore \<Rightarrow> js_error + EtherscanResponse" where
  "accountInternalTxList pg ps s =
     bindS (requireAddress ps) (\<lambda>address.
     let (start, stop) = parseBlockRange ps; (lim, off) = sqlLimitOffset (evm_parsePagination ps) in
     bindS (pg_bigint start) (\<lambda>a. bindS (pg_bigint stop) (\<lambda>b.
     bindS (limit_offset lim off (ordered (sortOrder ps) (\<lambda>((i, it), blk). (num_key (itx_blockNumber it), i))
         (filter (\<lambda>((i, it), blk). itx_finalityStatus it \<noteq> Reverted \<and> blk_finalityStatus blk \<noteq> Reverted \<and>
                      between (itx_blockNumber it) a b \<and>
                      (itx_fromAddress it = address \<or> itx_toAddress it = Some address))
           (concat (map (\<lambda>(i, it). map (\<lambda>blk. ((i, it), blk))
               (filter (\<lambda>blk. JNum (blk_number blk) = itx_blockNumber it) (blocks (s_db s))))
             (with_ids pg ''internal_txs'' (internal_txs (s_db s)))))))) (\<lambda>rows.
     Inr (json_list ''No internal transactions found'' (\<lambda>((i, it), blk). internal_item it blk) rows)))))"

record TransferView =
  trv_tt :: TokenTransferRow
  trv_block :: BlockRow
  trv_token :: TokenContractRow

definition transfer_views :: "db \<Rightarrow> TransferView list" where
  "transfer_views d =
     concat (map (\<lambda>tt. concat (map (\<lambda>b. map (\<lambda>tc. \<lparr>trv_tt = tt, trv_block = b, trv_token = tc\<rparr>)
         (filter (\<lambda>tc. tc_address tc = tt_contractAddress tt) (token_contracts d)))
       (filter (\<lambda>b. JNum (blk_number b) = tt_blockNumber tt) (blocks d)))) (token_transfers d))"

definition transfer_item :: "TransferView \<Rightarrow> (string \<times> json) list" where
  "transfer_item v =
     (let tt = trv_tt v; tc = trv_token v in
      [(''blockNumber'', JsString (number_str (tt_blockNumber tt))),
       (''timeStamp'', JsString (unix_text (blk_timestamp (trv_block v)))),
       (''hash'', JsString (tt_transactionHash tt)),
       (''nonce'', JsString ''0''),
       (''blockHash'', JsString ''''),
       (''from'', JsString (tt_fromAddress tt)),
       (''contractAddress'', JsString (tt_contractAddress tt)),
       (''to'', JsString (tt_toAddress tt)),
       (''value'', JsString (column_text (tt_amount tt))),
       (''tokenName'', JsString (nullish (tc_name tc) '''')),
       (''tokenSymbol'', JsString (nullish (tc_symbol tc) '''')),
       (''tokenDecimal'', JsString (case tc_decimals tc of None \<Rightarrow> '''' | Some n \<Rightarrow> number_str n)),
       (''transactionIndex'', JsString (number_str (tt_logIndex tt))),
       (''gas'', JsString ''0''),
       (''gasPrice'', JsString ''0''),
       (''gasUsed'', JsString ''0''),
       (''cumulativeGasUsed'', JsString ''0''),
       (''tokenID'', JsString (nullish (map_option column_text (tt_tokenId tt)) '''')),
       (''finalityStatus'', JsString (finality_text (tt_finalityStatus tt)))])"

text \<open>Which address the transfers are listed for: none when a hash, or a contract alone, is given.\<close>

definition tokentx_address :: "params \<Rightarrow> js_error + string option" where
  "tokentx_address ps =
     (let txhashParam = trim_lower (param ps ''txhash''); contractAddress = trim_lower (param ps ''contractaddress'') in
      if truthy txhashParam then bindS (requireHexHash txhashParam ''txhash'') (\<lambda>_. Inr None)
      else if truthy contractAddress \<and> \<not> truthy (param ps ''address'') then Inr None
      else bindS (requireAddress ps) (\<lambda>a. Inr (Some a)))"

definition accountTokenTx :: "params \<Rightarrow> ApiStore \<Rightarrow> TokenStandard \<Rightarrow> js_error + EtherscanResponse" where
  "accountTokenTx ps s standard =
     (let txhashParam = trim_lower (param ps ''txhash''); contractAddress = trim_lower (param ps ''contractaddress'') in
      bindS (tokentx_address ps) (\<lambda>address.
      let (start, stop) = parseBlockRange ps; (lim, off) = sqlLimitOffset (evm_parsePagination ps) in
      if \<not> truthy contractAddress \<and> \<not> truthy address \<and> \<not> truthy txhashParam
      then Inr (notOk ''Missing address, txhash, or contractaddress parameter'')
      else bindS (pg_bigint start) (\<lambda>a. bindS (pg_bigint stop) (\<lambda>b.
      bindS (limit_offset lim off (ordered (sortOrder ps)
          (\<lambda>v. (num_key (tt_blockNumber (trv_tt v)), num_key (tt_logIndex (trv_tt v))))
          (filter (\<lambda>v. let tt = trv_tt v in
              tt_finalityStatus tt \<noteq> Reverted \<and> blk_finalityStatus (trv_block v) \<noteq> Reverted \<and>
              tt_tokenStandard tt = standard \<and> between (tt_blockNumber tt) a b \<and>
              (truthy address \<longrightarrow> Some (tt_fromAddress tt) = address \<or> Some (tt_toAddress tt) = address) \<and>
              (truthy txhashParam \<longrightarrow> Some (tt_transactionHash tt) = txhashParam) \<and>
              (truthy contractAddress \<longrightarrow> Some (tt_contractAddress tt) = contractAddress))
            (transfer_views (s_db s))))) (\<lambda>rows.
      Inr (json_list ''No token transfers found'' transfer_item rows))))))"

definition handleAccountModule :: "Pg \<Rightarrow> string \<Rightarrow> params \<Rightarrow> ApiStore \<Rightarrow> js_error + EtherscanResponse" where
  "handleAccountModule pg action ps s =
     (let a = toLowerCase action in
      if a = ''balance'' then accountBalance ps s
      else if a = ''txlist'' then accountTxList ps s
      else if a = ''txlistinternal'' then accountInternalTxList pg ps s
      else if a = ''tokentx'' then accountTokenTx ps s Erc20
      else if a = ''tokennfttx'' then accountTokenTx ps s Erc721
      else if a = ''token1155tx'' then accountTokenTx ps s Erc1155
      else if a = ''addresstokenbalance'' then addressTokenBalance pg ps s
      else Inr (notOk (''Unknown action: '' @ action)))"

section \<open>logs.ts and stats.ts\<close>

text \<open>\<^verbatim>\<open>l.topics[i + 1] = $k\<close> for the topics given; an index past the end is null.\<close>

definition topics_match :: "params \<Rightarrow> string list \<Rightarrow> bool" where
  "topics_match ps topics \<longleftrightarrow>
     list_all (\<lambda>i. let t = param ps (''topic'' @ nat_str 10 i) in
        truthy t \<longrightarrow> i < length topics \<and> topics ! i = toLowerCase (the t)) [0, 1, 2, 3]"

definition handleLogsModule :: "string \<Rightarrow> params \<Rightarrow> ApiStore \<Rightarrow> js_error + EtherscanResponse" where
  "handleLogsModule action ps s =
     (if toLowerCase action \<noteq> ''getlogs'' then Inr (notOk (''Unknown action: '' @ action))
      else
        (let address = trim_lower (param ps ''address'');
             (lim, off) = sqlLimitOffset (evm_parsePagination ps) in
         bindS (pg_bigint (parseBlockParam (param ps ''fromBlock'') 0)) (\<lambda>a.
         bindS (pg_bigint (parseBlockParam (param ps ''toBlock'') 99999999)) (\<lambda>b.
         bindS (limit_offset lim off (order_by (\<lambda>l. (num_key (log_blockNumber l), num_key (log_logIndex l)))
             (concat (map (\<lambda>l. map (\<lambda>blk. l) (filter (\<lambda>blk. JNum (blk_number blk) = log_blockNumber l \<and>
                 blk_finalityStatus blk \<noteq> Reverted) (blocks (s_db s))))
               (filter (\<lambda>l. log_finalityStatus l \<noteq> Reverted \<and> between (log_blockNumber l) a b \<and>
                   (truthy address \<longrightarrow> Some (log_address l) = address) \<and> topics_match ps (log_topics l))
                 (logs (s_db s))))))) (\<lambda>rows.
         Inr (json_list ''No logs found'' (\<lambda>l.
           [(''transactionHash'', JsString (log_transactionHash l)),
            (''blockNumber'', JsString (number_str (log_blockNumber l))),
            (''address'', JsString (log_address l)),
            (''topics'', JsArray (map JsString (log_topics l))),
            (''data'', JsString (log_data l)),
            (''logIndex'', JsString (number_str (log_logIndex l))),
            (''finalityStatus'', JsString (finality_text (log_finalityStatus l)))]) rows))))))"

definition txCount :: "ApiStore \<Rightarrow> EtherscanResponse" where
  "txCount s = api_ok (JsString (nat_str 10
     (length (filter (\<lambda>t. tx_finalityStatus t \<noteq> Reverted) (transactions (s_db s))))))"

definition handleStatsModule :: "string \<Rightarrow> ApiStore \<Rightarrow> js_error + EtherscanResponse" where
  "handleStatsModule action s =
     (if toLowerCase action = ''txcount'' then Inr (txCount s) else Inr (notOk (''Unknown action: '' @ action)))"

section \<open>decode-input.ts\<close>

definition isEmptyInput :: "string \<Rightarrow> bool" where
  "isEmptyInput s \<longleftrightarrow> s = [] \<or> s = ''0x'' \<or> s = ''0X'' \<or> list_all (\<lambda>c. c = CHR ''0'') (drop 2 s)"

text \<open>The position of the last occurrence of a text; \<^verbatim>\<open>lastIndexOf\<close> without the value for none.\<close>

fun lastIndexOf :: "string \<Rightarrow> string \<Rightarrow> nat option" where
  "lastIndexOf [] m = (if m = [] then Some 0 else None)"
| "lastIndexOf (c # cs) m =
     (case lastIndexOf cs m of
        Some i \<Rightarrow> Some (Suc i)
      | None \<Rightarrow> if startsWith (c # cs) m then Some 0 else None)"

definition METADATA_MARKERS :: "string list" where
  "METADATA_MARKERS = [''a264697066735822'', ''a265627a7a723058'']"

definition strip_0x_prefix :: "string \<Rightarrow> string" where
  "strip_0x_prefix s = (if startsWith s ''0x'' then drop 2 s else s)"

fun strip_markers :: "string list \<Rightarrow> string \<Rightarrow> string option" where
  "strip_markers [] hex = None"
| "strip_markers (marker # rest) hex =
     (case lastIndexOf hex marker of
        Some idx \<Rightarrow> if 0 < idx \<and> int (length hex) - 200 < int idx then Some (''0x'' @ take idx hex)
                   else strip_markers rest hex
      | None \<Rightarrow> strip_markers rest hex)"

definition stripMetadata :: "string \<Rightarrow> string" where
  "stripMetadata bytecode =
     (let hex = strip_0x_prefix bytecode in
      case strip_markers METADATA_MARKERS hex of
        Some r \<Rightarrow> r
      | None \<Rightarrow> if startsWith bytecode ''0x'' then bytecode else ''0x'' @ hex)"

record DecodedInput =
  di_selector :: string
  di_signature :: "string option"
  di_args :: "json list option"

type_synonym parser = "string \<Rightarrow> string \<Rightarrow> (string \<times> json list) option"

definition normalized_input :: "string \<Rightarrow> string" where
  "normalized_input s = (if startsWith s ''0x'' then s else ''0x'' @ s)"

definition decodeInputData :: "parser \<Rightarrow> string \<Rightarrow> string option \<Rightarrow> DecodedInput" where
  "decodeInputData parse s abiJson =
     (if isEmptyInput s then \<lparr>di_selector = ''0x'', di_signature = Some ''nativeTransfer'', di_args = Some []\<rparr>
      else
        (let normalized = normalized_input s; selector = toLowerCase (js_slice normalized 0 10) in
         if \<not> truthy abiJson then \<lparr>di_selector = selector, di_signature = None, di_args = None\<rparr>
         else (case parse (the abiJson) normalized of
             None \<Rightarrow> \<lparr>di_selector = selector, di_signature = None, di_args = None\<rparr>
           | Some (sig, args) \<Rightarrow> \<lparr>di_selector = selector, di_signature = Some sig, di_args = Some args\<rparr>)))"

definition fetchDecodedInput :: "parser \<Rightarrow> ApiStore \<Rightarrow> string option \<Rightarrow> string \<Rightarrow> DecodedInput" where
  "fetchDecodedInput parse s toAddress inp =
     (if isEmptyInput inp then \<lparr>di_selector = ''0x'', di_signature = Some ''nativeTransfer'', di_args = Some []\<rparr>
      else
        (let undecoded = \<lparr>di_selector = toLowerCase (js_slice (normalized_input inp) 0 10),
               di_signature = None, di_args = None\<rparr> in
         if \<not> truthy toAddress then undecoded
         else (case contract_at s (toLowerCase (the toAddress)) of
             None \<Rightarrow> undecoded
           | Some (c, m) \<Rightarrow>
               if \<not> cm_isVerified m \<or> \<not> truthy (cm_abi m) then undecoded else decodeInputData parse inp (cm_abi m))))"

definition decoded_json :: "DecodedInput \<Rightarrow> json" where
  "decoded_json di = JsObject
     [(''selector'', JsString (di_selector di)), (''signature'', json_opt (di_signature di)),
      (''args'', (case di_args di of None \<Rightarrow> JsNull | Some xs \<Rightarrow> JsArray xs))]"

section \<open>transaction.ts and block-txlist.ts\<close>

definition live_tx :: "string \<Rightarrow> db \<Rightarrow> TransactionRow option" where
  "live_tx h d =
     (case filter (\<lambda>t. tx_hash t = h \<and> tx_finalityStatus t \<noteq> Reverted) (transactions d) of
        [] \<Rightarrow> None | t # _ \<Rightarrow> Some t)"

definition getTxReceiptStatus :: "params \<Rightarrow> ApiStore \<Rightarrow> js_error + EtherscanResponse" where
  "getTxReceiptStatus ps s =
     bindS (requireHexHash (param ps ''txhash'') ''txhash'') (\<lambda>txhash.
     Inr (case live_tx txhash (s_db s) of
        None \<Rightarrow> notOk ''Unable to locate Transaction Hash''
      | Some t \<Rightarrow> api_ok (JsObject
          [(''status'', JsString (if tx_status t = JNum 1 then ''1'' else ''0'')),
           (''finalityStatus'', JsString (finality_text (tx_finalityStatus t)))])))"

definition getTxStatus :: "params \<Rightarrow> ApiStore \<Rightarrow> js_error + EtherscanResponse" where
  "getTxStatus ps s =
     bindS (requireHexHash (param ps ''txhash'') ''txhash'') (\<lambda>txhash.
     Inr (case live_tx txhash (s_db s) of
        None \<Rightarrow> notOk ''Unable to locate Transaction Hash''
      | Some t \<Rightarrow> api_ok (JsObject
          [(''isError'', JsString (if tx_status t = JNum 1 then ''0'' else ''1'')),
           (''errDescription'', JsString (if tx_status t = JNum 1 then '''' else ''execution reverted'')),
           (''finalityStatus'', JsString (finality_text (tx_finalityStatus t))),
           (''blockNumber'', JsString (number_str (tx_blockNumber t)))])))"

definition handleTransactionModule :: "string \<Rightarrow> params \<Rightarrow> ApiStore \<Rightarrow> js_error + EtherscanResponse" where
  "handleTransactionModule action ps s =
     (let a = toLowerCase action in
      if a = ''gettxreceiptstatus'' then getTxReceiptStatus ps s
      else if a = ''getstatus'' then getTxStatus ps s
      else Inr (notOk (''Unknown action: '' @ action)))"

definition getBlockTxList :: "params \<Rightarrow> ApiStore \<Rightarrow> js_error + EtherscanResponse" where
  "getBlockTxList ps s =
     (let tag = (case param ps ''blockno'' of None \<Rightarrow> param ps ''tag'' | Some v \<Rightarrow> Some v) in
      if \<not> truthy tag then Inr (notOk ''Missing block number'')
      else if the tag = ''latest''
      then Inr (json_list ''No transactions found'' formatTransactionRow (take 1
        (order_by_desc (\<lambda>v. (num_key (tx_blockNumber (tv_tx v)), num_key (tx_transactionIndex (tv_tx v))))
          (filter (\<lambda>v. tx_finalityStatus (tv_tx v) \<noteq> Reverted) (TX_SELECT_SQL (s_db s))))))
      else
        (let blockNumber = parseInt 10 (the tag) in
         if blockNumber = JNaN then Inr (notOk ''Invalid block number'')
         else bindS (pg_bigint blockNumber) (\<lambda>n.
           Inr (json_list ''No transactions found'' formatTransactionRow
             (order_by (\<lambda>v. num_key (tx_transactionIndex (tv_tx v)))
               (filter (\<lambda>v. tx_blockNumber (tv_tx v) = JNum n \<and> tx_finalityStatus (tv_tx v) \<noteq> Reverted)
                 (TX_SELECT_SQL (s_db s))))))))"

definition formatBlock :: "BlockRow \<Rightarrow> (string \<times> json) list" where
  "formatBlock b =
     [(''number'', JsString (number_str (JNum (blk_number b)))),
      (''hash'', JsString (blk_hash b)),
      (''parentHash'', JsString (blk_parentHash b)),
      (''timestamp'', JsString (unix_text (blk_timestamp b))),
      (''validator'', JsString (blk_validatorAddress b)),
      (''gasUsed'', JsString (bigint_str 10 (blk_gasUsed b))),
      (''gasLimit'', JsString (bigint_str 10 (blk_gasLimit b))),
      (''finalityStatus'', JsString (finality_text (blk_finalityStatus b)))]"

definition found_block :: "BlockRow list \<Rightarrow> EtherscanResponse" where
  "found_block rows = (case rows of [] \<Rightarrow> notOk ''Block not found'' | b # _ \<Rightarrow> api_ok (JsObject (formatBlock b)))"

definition api_getBlockByNumber :: "params \<Rightarrow> ApiStore \<Rightarrow> js_error + EtherscanResponse" where
  "api_getBlockByNumber ps s =
     (let tag = (case param ps ''tag'' of None \<Rightarrow> param ps ''blockno'' | Some v \<Rightarrow> Some v) in
      if \<not> truthy tag then Inr (notOk ''Missing block number'')
      else if the tag = ''latest''
      then Inr (found_block (order_by_desc blk_number
        (filter (\<lambda>b. blk_finalityStatus b \<noteq> Reverted) (blocks (s_db s)))))
      else bindS (pg_bigint (parseInt 10 (the tag))) (\<lambda>n.
        Inr (found_block (filter (\<lambda>b. blk_number b = n \<and> blk_finalityStatus b \<noteq> Reverted) (blocks (s_db s))))))"

definition getBlockByHash :: "params \<Rightarrow> ApiStore \<Rightarrow> js_error + EtherscanResponse" where
  "getBlockByHash ps s =
     bindS (requireHexHash (param ps ''hash'') ''block hash'') (\<lambda>h.
     Inr (found_block (filter (\<lambda>b. blk_hash b = h \<and> blk_finalityStatus b \<noteq> Reverted) (blocks (s_db s)))))"

definition handleBlockModule :: "string \<Rightarrow> params \<Rightarrow> ApiStore \<Rightarrow> js_error + EtherscanResponse" where
  "handleBlockModule action ps s =
     (let a = toLowerCase action in
      if a = ''getblockbynumber'' then api_getBlockByNumber ps s
      else if a = ''getblockbyhash'' then getBlockByHash ps s
      else if a = ''getblocktxlist'' then getBlockTxList ps s
      else Inr (notOk (''Unknown action: '' @ action)))"

definition getTransactionByHash :: "parser \<Rightarrow> params \<Rightarrow> ApiStore \<Rightarrow> js_error + EtherscanResponse" where
  "getTransactionByHash parse ps s =
     bindS (requireHexHash (param ps ''txhash'') ''txhash'') (\<lambda>txhash.
     case filter (\<lambda>v. tx_hash (tv_tx v) = txhash \<and> tx_finalityStatus (tv_tx v) \<noteq> Reverted)
         (TX_SELECT_SQL (s_db s)) of
       [] \<Rightarrow> Inr (notOk ''Unable to locate Transaction Hash'')
     | v # _ \<Rightarrow>
         (let decodedInput = fetchDecodedInput parse s (tx_toAddress (tv_tx v)) (tx_input (tv_tx v));
              gasUsed = nullish (map_option (\<lambda>r. bigint_str 10 (rcpt_gasUsed r)) (tv_receipt v)) ''0'';
              gasPrice = nullish (map_option column_text (tx_gasPrice (tv_tx v))) ''0'' in
          bindS (BigInt gasUsed) (\<lambda>g. bindS (BigInt gasPrice) (\<lambda>p.
          Inr (api_ok (JsObject (formatTransactionRow v @
            [(''decodedInput'', decoded_json decodedInput), (''fee'', JsString (bigint_str 10 (g * p)))])))))))"

section \<open>token.ts, token-supply.ts and token-holders.ts\<close>

definition GOLD_CONTRACT :: string where
  "GOLD_CONTRACT = ''0x000000000000000000000000000000000000f001''"

definition balance_sum :: "string \<Rightarrow> numeric option \<Rightarrow> db \<Rightarrow> int" where
  "balance_sum c k d =
     sum_list (map tb_balance (filter (\<lambda>r. tb_contractAddress r = c \<and> Some (tb_tokenId r) = k) (token_balances d)))"

definition erc20Supply :: "db \<Rightarrow> string \<Rightarrow> string" where
  "erc20Supply d c = bigint_str 10 (balance_sum c (Some (NumInt 0)) d)"

definition erc721Supply :: "db \<Rightarrow> string \<Rightarrow> string" where
  "erc721Supply d c =
     nat_str 10 (length (filter (\<lambda>r. tb_contractAddress r = c \<and> 0 < tb_balance r) (token_balances d)))"

definition goldSupplyForId :: "Pg \<Rightarrow> db \<Rightarrow> string \<Rightarrow> js_error + string" where
  "goldSupplyForId pg d tokenId = bindS (pg_numeric pg tokenId) (\<lambda>k. Inr (supply_of k d))"

definition resolveTotalSupply ::
  "Pg \<Rightarrow> db \<Rightarrow> string \<Rightarrow> TokenStandard \<Rightarrow> string option \<Rightarrow> js_error + json" where
  "resolveTotalSupply pg d c tokenType tokenidParam =
     (if tokenType = Erc1155 \<and> c = GOLD_CONTRACT then
        (if truthy tokenidParam
         then bindS (goldSupplyForId pg d (the tokenidParam)) (\<lambda>x. Inr (JsString x))
         else bindS (goldSupplyForId pg d ''1'') (\<lambda>supply1. bindS (goldSupplyForId pg d ''2'') (\<lambda>supply2.
           Inr (JsArray
             [JsObject [(''tokenId'', JsString ''1''), (''totalSupply'', JsString supply1)],
              JsObject [(''tokenId'', JsString ''2''), (''totalSupply'', JsString supply2)]]))))
      else if tokenType = Erc1155 \<and> truthy tokenidParam then
        bindS (pg_numeric pg (the tokenidParam)) (\<lambda>k. Inr (JsString (bigint_str 10 (balance_sum c k d))))
      else if tokenType = Erc20 then Inr (JsString (erc20Supply d c))
      else if tokenType = Erc721 then Inr (JsString (erc721Supply d c))
      else Inr (JsString ''0''))"

definition token_fields :: "TokenContractRow \<Rightarrow> (string \<times> json) list" where
  "token_fields r =
     [(''contractAddress'', JsString (tc_address r)),
      (''tokenType'', JsString (standard_text (tc_type r))),
      (''tokenName'', JsString (nullish (tc_name r) '''')),
      (''symbol'', JsString (nullish (tc_symbol r) '''')),
      (''divisor'', JsString (case tc_decimals r of None \<Rightarrow> '''' | Some n \<Rightarrow> number_str n))]"

definition formatTokenInfoRow :: "TokenContractRow \<Rightarrow> json \<Rightarrow> (string \<times> json) list" where
  "formatTokenInfoRow r totalSupply = token_fields r @ [(''totalSupply'', totalSupply)]"

definition tokenList :: "Pg \<Rightarrow> ApiStore \<Rightarrow> EtherscanResponse" where
  "tokenList pg s =
     json_list ''No tokens found'' token_fields
       (order_by (\<lambda>r. pg_collate pg (tc_address r)) (token_contracts (s_db s)))"

definition token_at :: "string \<Rightarrow> db \<Rightarrow> TokenContractRow option" where
  "token_at c d = (case filter (\<lambda>r. tc_address r = c) (token_contracts d) of [] \<Rightarrow> None | r # _ \<Rightarrow> Some r)"

definition tokenInfo :: "Pg \<Rightarrow> params \<Rightarrow> ApiStore \<Rightarrow> js_error + EtherscanResponse" where
  "tokenInfo pg ps s =
     (let contractaddress = trim_lower (param ps ''contractaddress'') in
      if \<not> truthy contractaddress then Inr (notOk ''Missing contractaddress parameter'')
      else (case token_at (the contractaddress) (s_db s) of
          None \<Rightarrow> Inr (notOk ''Invalid contract address'')
        | Some row \<Rightarrow>
            bindS (resolveTotalSupply pg (s_db s) (the contractaddress) (tc_type row) (param ps ''tokenid'')) (\<lambda>totalSupply.
            Inr (api_ok (JsArray [JsObject (formatTokenInfoRow row totalSupply)])))))"

text \<open>The token id is sent as the text of the number.\<close>

definition fetchHolders :: "Pg \<Rightarrow> db \<Rightarrow> string \<Rightarrow> jsnum option \<Rightarrow> (string \<times> json) list list" where
  "fetchHolders pg d c tokenId =
     map (\<lambda>r. [(''address'', JsString (tb_address r)), (''balance'', JsString (bigint_str 10 (tb_balance r))),
              (''tokenId'', JsString (numeric_text (tb_tokenId r)))])
       (order_by (\<lambda>r. (- tb_balance r, pg_collate pg (tb_address r)))
         (filter (\<lambda>r. tb_contractAddress r = c \<and> tb_balance r \<noteq> 0 \<and>
              (case tokenId of None \<Rightarrow> True | Some n \<Rightarrow> tb_tokenId r = numeric_val (number_str n)))
           (token_balances d)))"

definition holders_response :: "(string \<times> json) list list \<Rightarrow> EtherscanResponse" where
  "holders_response holders = json_list ''No holders found'' (\<lambda>h. h) holders"

definition tokenHolderList :: "Pg \<Rightarrow> params \<Rightarrow> ApiStore \<Rightarrow> EtherscanResponse" where
  "tokenHolderList pg ps s =
     (let contractaddress = trim_lower (param ps ''contractaddress''); d = s_db s in
      if \<not> truthy contractaddress then notOk ''Missing contractaddress parameter''
      else (let c = the contractaddress in case token_at c d of
          None \<Rightarrow> notOk ''Invalid contract address''
        | Some row \<Rightarrow>
            (let tokenidParam = param ps ''tokenid'' in
             if tc_type row = Erc1155 \<and> c = GOLD_CONTRACT then
               (if \<not> truthy tokenidParam then api_ok (JsObject
                  [(''id1'', JsArray (map JsObject (fetchHolders pg d c (Some (JNum 1))))),
                   (''id2'', JsArray (map JsObject (fetchHolders pg d c (Some (JNum 2)))))])
                else (let tokenId = parseInt 10 (the tokenidParam) in
                  if tokenId = JNaN \<or> (tokenId \<noteq> JNum 1 \<and> tokenId \<noteq> JNum 2) then notOk ''GOLD tokenid must be 1 or 2''
                  else holders_response (fetchHolders pg d c (Some tokenId))))
             else if truthy tokenidParam then
               (let tokenId = parseInt 10 (the tokenidParam) in
                if tokenId = JNaN then notOk ''Invalid tokenid''
                else holders_response (fetchHolders pg d c (Some tokenId)))
             else holders_response (fetchHolders pg d c (if tc_type row = Erc20 then Some (JNum 0) else None)))))"

definition handleTokenModule :: "Pg \<Rightarrow> string \<Rightarrow> params \<Rightarrow> ApiStore \<Rightarrow> js_error + EtherscanResponse" where
  "handleTokenModule pg action ps s =
     (let a = toLowerCase action in
      if a = ''tokeninfo'' then tokenInfo pg ps s
      else if a = ''gettoken'' then tokenInfo pg ps s
      else if a = ''tokenholderlist'' then Inr (tokenHolderList pg ps s)
      else if a = ''tokenlist'' then Inr (tokenList pg s)
      else Inr (notOk (''Unknown action: '' @ action)))"

section \<open>contract.ts\<close>

definition getAbi :: "params \<Rightarrow> ApiStore \<Rightarrow> EtherscanResponse" where
  "getAbi ps s =
     (let address = trim_lower (param ps ''address'') in
      if \<not> truthy address then notOk ''Missing address parameter''
      else (case contract_at s (the address) of
          None \<Rightarrow> notOk ''Contract source code not verified''
        | Some (c, m) \<Rightarrow>
            if \<not> cm_isVerified m then notOk ''Contract source code not verified'' else api_ok (JsString ''[]'')))"

definition getSourceCode :: "params \<Rightarrow> ApiStore \<Rightarrow> EtherscanResponse" where
  "getSourceCode ps s =
     (let address = trim_lower (param ps ''address'') in
      if \<not> truthy address then notOk ''Missing address parameter''
      else (case contract_at s (the address) of
          None \<Rightarrow> notOk ''Contract source code not verified''
        | Some (c, m) \<Rightarrow> api_ok (JsArray [JsObject
            [(''SourceCode'', JsString ''''),
             (''ABI'', JsString ''Contract source code not verified''),
             (''ContractName'', JsString ''''),
             (''CompilerVersion'', JsString (nullish (cm_compilerVersion m) '''')),
             (''OptimizationUsed'', JsString (if cm_optimizationEnabled m = Some True then ''1'' else ''0'')),
             (''Runs'', JsString (case cm_optimizationRuns m of None \<Rightarrow> '''' | Some n \<Rightarrow> bigint_str 10 n)),
             (''ConstructorArguments'', JsString (nullish (cm_constructorArguments m) '''')),
             (''EVMVersion'', JsString (nullish (cm_evmVersion m) '''')),
             (''Library'', JsString ''''),
             (''LicenseType'', JsString ''Unknown''),
             (''Proxy'', JsString ''0''),
             (''Implementation'', JsString ''''),
             (''SwarmSource'', JsString ''''),
             (''IsVerified'', JsString (if cm_isVerified m then ''1'' else ''0'')),
             (''Bytecode'', JsString (nullish (c_bytecode c) ''''))]])))"

definition handleContractModule :: "string \<Rightarrow> params \<Rightarrow> ApiStore \<Rightarrow> js_error + EtherscanResponse" where
  "handleContractModule action ps s =
     (let a = toLowerCase action in
      if a = ''getabi'' then Inr (getAbi ps s)
      else if a = ''getsourcecode'' then Inr (getSourceCode ps s)
      else Inr (notOk (''Unknown action: '' @ action)))"

section \<open>dispatch.ts\<close>

text \<open>
  \<^verbatim>\<open>MODULE_HANDLERS[module]\<close> also finds what an object literal inherits: of the names without a capital,
  \<^verbatim>\<open>constructor\<close>, which called on the action boxes it (\<open>Boxed\<close>, serialised as the action's text), and
  \<^verbatim>\<open>__proto__\<close>, which is no function.
\<close>

datatype EvmResult = Etherscan EtherscanResponse | Boxed string

definition evm_module ::
  "Pg \<Rightarrow> parser \<Rightarrow> string \<Rightarrow> (string \<Rightarrow> params \<Rightarrow> ApiStore \<Rightarrow> js_error + EtherscanResponse) option" where
  "evm_module pg parse m =
     map_of
       [(''account'', handleAccountModule pg),
        (''transaction'', handleTransactionModule),
        (''tx'', \<lambda>action ps s. if toLowerCase action = ''gettxbyhash'' then getTransactionByHash parse ps s
                              else Inr (notOk (''Unknown action: '' @ action))),
        (''block'', handleBlockModule),
        (''logs'', handleLogsModule),
        (''token'', handleTokenModule pg),
        (''contract'', handleContractModule),
        (''stats'', \<lambda>action ps s. handleStatsModule action s)] m"

definition dispatchEvmApi :: "Pg \<Rightarrow> parser \<Rightarrow> params \<Rightarrow> ApiStore \<Rightarrow> js_error + EvmResult" where
  "dispatchEvmApi pg parse ps s =
     (let m = map_option toLowerCase (param ps ''module''); action = nullish (param ps ''action'') '''' in
      if \<not> truthy m \<or> action = '''' then Inr (Etherscan (notOk ''Missing module or action parameter''))
      else (case evm_module pg parse (the m) of
          Some handler \<Rightarrow> bindS (handler action ps s) (\<lambda>r. Inr (Etherscan r))
        | None \<Rightarrow>
            if the m = ''constructor'' then Inr (Boxed action)
            else if the m = ''__proto__'' then Inl TypeError
            else Inr (Etherscan (notOk (''Unknown module: '' @ the m)))))"

end
