(* ===== verification/ApiVerify.thy ===== *)
theory ApiVerify
  imports EvmApi
begin

text \<open>
  \<^verbatim>\<open>packages/api/src/verify.ts\<close>, \<^verbatim>\<open>contract-call.ts\<close>, \<^verbatim>\<open>contract-encode.ts\<close> and \<^verbatim>\<open>evm/rpc.ts\<close>:
  the requests that carry a JSON body.  The Solidity compiler (bundled and remote), the list of its
  releases, ethers' encoder and the chain's node are parameters.  Only a verified contract is
  written, in the columns \<open>ContractMeta\<close>.
\<close>

section \<open>Request bodies\<close>

text \<open>\<^verbatim>\<open>!body || typeof body !== "object"\<close>; an array is an object without the fields asked for.\<close>

definition is_object :: "json \<Rightarrow> bool" where
  "is_object j = (case j of JsObject _ \<Rightarrow> True | JsArray _ \<Rightarrow> True | _ \<Rightarrow> False)"

definition field :: "json \<Rightarrow> string \<Rightarrow> json option" where
  "field j k = (case j of JsObject fs \<Rightarrow> map_of fs k | _ \<Rightarrow> None)"

definition string_field :: "json \<Rightarrow> string \<Rightarrow> string option" where
  "string_field j k = (case field j k of Some (JsString s) \<Rightarrow> Some s | _ \<Rightarrow> None)"

definition json_truthy :: "json option \<Rightarrow> bool" where
  "json_truthy v = (case v of None \<Rightarrow> False | Some JsNull \<Rightarrow> False | Some (JsBool b) \<Rightarrow> b
     | Some (JsNumber n) \<Rightarrow> n \<noteq> JNum 0 \<and> n \<noteq> JNaN | Some (JsString s) \<Rightarrow> s \<noteq> [] | Some _ \<Rightarrow> True)"

record JsonResponse =
  jr_status :: int
  jr_body :: json

definition json_error :: "int \<Rightarrow> string \<Rightarrow> JsonResponse" where
  "json_error st m = \<lparr>jr_status = st, jr_body = JsObject [(''error'', JsString m)]\<rparr>"

section \<open>verify.ts\<close>

datatype verify_error = VerifyError string int | Rejected js_error

record VerifyRequest =
  vr_address :: string
  vr_source :: string
  vr_compilerVersion :: string
  vr_optimizationEnabled :: bool
  vr_optimizationRuns :: "json option"
  vr_evmVersion :: "string option"
  vr_constructorArguments :: "string option"

definition MAX_SOURCE_LENGTH :: nat where
  "MAX_SOURCE_LENGTH = 1000000"

definition js_includes :: "string \<Rightarrow> string \<Rightarrow> bool" where
  "js_includes s p \<longleftrightarrow> lastIndexOf s p \<noteq> None"

text \<open>\<^verbatim>\<open>\d+\.\d+\.\d+\<close> at the start of a text: the matched part and the rest.\<close>

definition version_at :: "string \<Rightarrow> (string \<times> string) option" where
  "version_at s =
     (let a = takeWhile (is_digit 10) s; r1 = dropWhile (is_digit 10) s;
          b = takeWhile (is_digit 10) (tl r1); r2 = dropWhile (is_digit 10) (tl r1);
          c = takeWhile (is_digit 10) (tl r2); r3 = dropWhile (is_digit 10) (tl r2)
      in if a \<noteq> [] \<and> r1 \<noteq> [] \<and> hd r1 = CHR ''.'' \<and> b \<noteq> [] \<and> r2 \<noteq> [] \<and> hd r2 = CHR ''.'' \<and> c \<noteq> []
         then Some (a @ ''.'' @ b @ ''.'' @ c, r3) else None)"

definition line_end :: "char \<Rightarrow> bool" where
  "line_end c \<longleftrightarrow> c = CHR 0x0A \<or> c = CHR 0x0D"

definition COMPILER_VERSION_RE :: "string \<Rightarrow> bool" where
  "COMPILER_VERSION_RE s =
     (case version_at (if startsWith s ''v'' then tl s else s) of
        None \<Rightarrow> False | Some (v, rest) \<Rightarrow> \<not> list_ex line_end rest)"

definition sanitizeVerifyRequest :: "json \<Rightarrow> verify_error + VerifyRequest" where
  "sanitizeVerifyRequest body =
     (if \<not> is_object body then Inl (VerifyError ''invalid_body'' 400)
      else (case requireHexAddress (string_field body ''address'') ''address'' of
          Inl e \<Rightarrow> Inl (Rejected e)
        | Inr address \<Rightarrow>
            (let source = nullish (string_field body ''source'') '''';
                 compilerVersion = nullish (string_field body ''compilerVersion'') '''' in
             if source = [] \<or> MAX_SOURCE_LENGTH < length source then Inl (VerifyError ''invalid_source'' 400)
             else if \<not> COMPILER_VERSION_RE compilerVersion \<or> js_includes compilerVersion ''/'' \<or>
                     js_includes compilerVersion ''..'' \<or> js_includes compilerVersion [CHR 0x00]
             then Inl (VerifyError ''invalid_compiler_version'' 400)
             else Inr \<lparr>vr_address = address, vr_source = source, vr_compilerVersion = compilerVersion,
               vr_optimizationEnabled = json_truthy (field body ''optimizationEnabled''),
               vr_optimizationRuns = (case field body ''optimizationRuns'' of
                   Some (JsNumber n) \<Rightarrow> Some (JsNumber n) | Some (JsFraction f) \<Rightarrow> Some (JsFraction f) | _ \<Rightarrow> None),
               vr_evmVersion = string_field body ''evmVersion'',
               vr_constructorArguments = string_field body ''constructorArguments''\<rparr>)))"

text \<open>The leftmost match of the version in a text.\<close>

fun first_version :: "string \<Rightarrow> string option" where
  "first_version [] = None"
| "first_version (c # cs) = (case version_at (c # cs) of Some (v, _) \<Rightarrow> Some v | None \<Rightarrow> first_version cs)"

definition normalizeSolcVersion :: "string \<Rightarrow> verify_error + string" where
  "normalizeSolcVersion v =
     (case first_version v of None \<Rightarrow> Inl (VerifyError ''invalid_compiler_version'' 400) | Some n \<Rightarrow> Inr n)"

definition toRemoteSolcVersionString :: "string \<Rightarrow> verify_error + string" where
  "toRemoteSolcVersionString f =
     (let middle = js_slice f 8 (length f - 3) in
      if startsWith f ''soljson-'' \<and> slice_last 3 f = ''.js'' \<and> 11 < length f \<and> \<not> list_ex line_end middle
      then Inr middle else Inl (VerifyError ''compiler_version_unavailable'' 400))"

text \<open>What the compiler is given and what it answers; \<open>None\<close> when it throws or answers no JSON.\<close>

record SolcInput =
  si_source :: string
  si_enabled :: bool
  si_runs :: json
  si_evmVersion :: string

record SolcOutput =
  so_errors :: "string list"
  so_contracts :: "(string \<times> string) list"

type_synonym compiler = "SolcInput \<Rightarrow> SolcOutput option"

datatype Releases = FetchFailed | FetchNotOk | Fetched "string \<Rightarrow> string option"

record Solc =
  solc_version :: string
  solc_bundled :: compiler
  solc_releases :: Releases
  solc_load :: "string \<Rightarrow> compiler option"

definition resolveRemoteSolcBinary :: "Solc \<Rightarrow> string \<Rightarrow> verify_error + string" where
  "resolveRemoteSolcBinary solc normalized =
     (case solc_releases solc of
        FetchFailed \<Rightarrow> Inl (Rejected TypeError)
      | FetchNotOk \<Rightarrow> Inl (VerifyError ''compiler_version_unavailable'' 400)
      | Fetched releases \<Rightarrow>
          if \<not> truthy (releases normalized) then Inl (VerifyError ''compiler_version_unavailable'' 400)
          else toRemoteSolcVersionString (the (releases normalized)))"

definition loadSolcCompiler :: "Solc \<Rightarrow> string \<Rightarrow> verify_error + compiler" where
  "loadSolcCompiler solc v =
     (case normalizeSolcVersion v of
        Inl e \<Rightarrow> Inl e
      | Inr normalized \<Rightarrow>
          (case normalizeSolcVersion (solc_version solc) of
             Inl e \<Rightarrow> Inl e
           | Inr bundled \<Rightarrow>
               if normalized = bundled then Inr (solc_bundled solc)
               else (case resolveRemoteSolcBinary solc normalized of
                   Inl e \<Rightarrow> Inl e
                 | Inr remote \<Rightarrow>
                     (case solc_load solc remote of
                        None \<Rightarrow> Inl (VerifyError ''compiler_version_unavailable'' 400)
                      | Some c \<Rightarrow> Inr c))))"

record Compiled =
  cd_bytecode :: string
  cd_abi :: string
  cd_compilerVersion :: string

definition compileContract :: "Solc \<Rightarrow> VerifyRequest \<Rightarrow> verify_error + Compiled" where
  "compileContract solc r =
     (case normalizeSolcVersion (vr_compilerVersion r) of
        Inl e \<Rightarrow> Inl e
      | Inr normalized \<Rightarrow>
          (case loadSolcCompiler solc (vr_compilerVersion r) of
             Inl e \<Rightarrow> Inl e
           | Inr compile \<Rightarrow>
               (case compile \<lparr>si_source = vr_source r, si_enabled = vr_optimizationEnabled r,
                    si_runs = (case vr_optimizationRuns r of None \<Rightarrow> JsNumber (JNum 200) | Some n \<Rightarrow> n),
                    si_evmVersion = nullish (vr_evmVersion r) ''paris''\<rparr> of
                  None \<Rightarrow> Inl (Rejected SyntaxError)
                | Some out \<Rightarrow>
                    if list_ex (\<lambda>sev. sev = ''error'') (so_errors out) then Inl (VerifyError ''compile_failed'' 400)
                    else (case so_contracts out of
                        [] \<Rightarrow> Inl (VerifyError ''compile_failed'' 400)
                      | (abi, object) # _ \<Rightarrow>
                          Inr \<lparr>cd_bytecode = ''0x'' @ object @
                                 (if truthy (vr_constructorArguments r)
                                  then strip_0x_prefix (the (vr_constructorArguments r)) else []),
                               cd_abi = abi, cd_compilerVersion = normalized\<rparr>))))"

definition bytecodeMatches :: "string \<Rightarrow> string \<Rightarrow> bool" where
  "bytecodeMatches onChain compiled \<longleftrightarrow>
     stripMetadata (toLowerCase onChain) = stripMetadata (toLowerCase compiled)"

text \<open>A text column takes no NUL; an \<^verbatim>\<open>integer\<close> column takes the 32-bit integers.\<close>

definition pg_text_ok :: "string option \<Rightarrow> bool" where
  "pg_text_ok v = (case v of None \<Rightarrow> True | Some s \<Rightarrow> CHR 0x00 \<notin> set s)"

definition pg_integer :: "json option \<Rightarrow> js_error + int option" where
  "pg_integer v =
     (case v of
        Some (JsNumber n) \<Rightarrow> bindS (pg_bigint n) (\<lambda>i.
          if fits 32 i then Inr (Some i) else Inl (SqlError (OutOfRange ''integer'')))
      | Some (JsFraction f) \<Rightarrow> Inl (SqlError (InvalidText ''integer''))
      | _ \<Rightarrow> Inr None)"

definition store_verified :: "VerifyRequest \<Rightarrow> Compiled \<Rightarrow> (ApiStore, unit) js" where
  "store_verified r c = (\<lambda>s.
     case pg_integer (vr_optimizationRuns r) of
       Inl e \<Rightarrow> (Inl e, s)
     | Inr runs \<Rightarrow>
         if \<not> pg_text_ok (Some (vr_source r)) \<or> \<not> pg_text_ok (Some (cd_abi c)) \<or>
            \<not> pg_text_ok (vr_evmVersion r) \<or> \<not> pg_text_ok (vr_constructorArguments r)
         then (Inl (SqlError (InvalidText ''text'')), s)
         else (Inr (), s\<lparr>s_meta := (vr_address r,
             \<lparr>cm_isVerified = True, cm_sourceCode = Some (vr_source r), cm_abi = Some (cd_abi c),
              cm_compilerVersion = Some (cd_compilerVersion c),
              cm_optimizationEnabled = Some (vr_optimizationEnabled r), cm_optimizationRuns = runs,
              cm_evmVersion = vr_evmVersion r, cm_constructorArguments = vr_constructorArguments r\<rparr>)
            # s_meta s\<rparr>))"

definition verify_failure :: "verify_error \<Rightarrow> string \<Rightarrow> JsonResponse" where
  "verify_failure e m = (case e of VerifyError msg st \<Rightarrow> json_error st msg | Rejected _ \<Rightarrow> json_error 400 m)"

definition sanitize_failure :: "verify_error \<Rightarrow> JsonResponse" where
  "sanitize_failure e =
     (case e of Rejected (ValidationError msg) \<Rightarrow> json_error 400 msg | _ \<Rightarrow> verify_failure e ''invalid_request'')"

definition handleVerify :: "Solc \<Rightarrow> json \<Rightarrow> (ApiStore, JsonResponse) js" where
  "handleVerify solc body = (\<lambda>s.
     case sanitizeVerifyRequest body of
       Inl e \<Rightarrow> (Inr (sanitize_failure e), s)
     | Inr request \<Rightarrow>
         (case contract_at s (vr_address request) of
            None \<Rightarrow> (Inr (json_error 404 ''not_found''), s)
          | Some (c, m) \<Rightarrow>
              (case compileContract solc request of
                 Inl e \<Rightarrow> (Inr (verify_failure e ''compile_failed''), s)
               | Inr compiled \<Rightarrow>
                   if \<not> bytecodeMatches (nullish (c_bytecode c) ''0x'') (cd_bytecode compiled)
                   then (Inr (json_error 400 ''bytecode_mismatch''), s)
                   else thenM (store_verified request compiled) (returnM
                     \<lparr>jr_status = 200, jr_body = JsObject
                        [(''verified'', JsBool True), (''address'', JsString (vr_address request)),
                         (''compilerVersion'', JsString (cd_compilerVersion compiled))]\<rparr>) s)))"

section \<open>evm/rpc.ts and contract-call.ts\<close>

record RpcReply =
  rp_result :: "json option"
  rp_error :: "string option"

text \<open>A caller returns the result or the message of what it throws.\<close>

type_synonym caller = "string \<Rightarrow> json list \<Rightarrow> string + string"

definition createHttpRpcCaller :: "(string \<Rightarrow> string \<Rightarrow> json list \<Rightarrow> string + RpcReply) \<Rightarrow> string \<Rightarrow> caller" where
  "createHttpRpcCaller post url = (\<lambda>meth ps.
     case post url meth ps of
       Inl m \<Rightarrow> Inl m
     | Inr reply \<Rightarrow>
         (case rp_error reply of
            Some m \<Rightarrow> Inl m
          | None \<Rightarrow> (case rp_result reply of Some (JsString r) \<Rightarrow> Inr r | _ \<Rightarrow> Inl ''Invalid RPC response'')))"

definition ethCall ::
  "(string \<Rightarrow> string \<Rightarrow> json list \<Rightarrow> string + RpcReply) \<Rightarrow> string option \<Rightarrow> string \<Rightarrow> string \<Rightarrow> caller option \<Rightarrow> string + string" where
  "ethCall post rpcUrl address dat caller =
     (if \<not> truthy rpcUrl \<and> caller = None then Inl ''rpc_unavailable''
      else (let call = (case caller of Some c \<Rightarrow> c | None \<Rightarrow> createHttpRpcCaller post (the rpcUrl)) in
        call ''eth_call'' [JsObject [(''to'', JsString address), (''data'', JsString dat)], JsString ''latest'']))"

definition handleContractCall ::
  "(string \<Rightarrow> string \<Rightarrow> json list \<Rightarrow> string + RpcReply) \<Rightarrow> string option \<Rightarrow> json \<Rightarrow> JsonResponse" where
  "handleContractCall post rpcUrl body =
     (if \<not> is_object body then json_error 400 ''invalid_body''
      else (case requireHexAddress (string_field body ''address'') ''address'' of
          Inl e \<Rightarrow> json_error 400 ''invalid_address''
        | Inr address \<Rightarrow>
            (let dat = nullish (map_option js_trim (string_field body ''data'')) '''' in
             if \<not> startsWith dat ''0x'' then json_error 400 ''invalid_data''
             else if \<not> truthy rpcUrl then json_error 503 ''rpc_unavailable''
             else (case ethCall post rpcUrl address dat None of
                 Inr r \<Rightarrow> \<lparr>jr_status = 200, jr_body = JsObject [(''result'', JsString r)]\<rparr>
               | Inl m \<Rightarrow> if m = ''rpc_unavailable'' then json_error 503 ''rpc_unavailable'' else json_error 502 m))))"

text \<open>The variant with a caller given: what the caller throws is not caught.\<close>

definition handleContractCallWithRpc ::
  "(string \<Rightarrow> string \<Rightarrow> json list \<Rightarrow> string + RpcReply) \<Rightarrow> string option \<Rightarrow> json \<Rightarrow> caller \<Rightarrow> string + JsonResponse" where
  "handleContractCallWithRpc post rpcUrl body caller =
     (if \<not> is_object body then Inr (json_error 400 ''invalid_body'')
      else (case requireHexAddress (string_field body ''address'') ''address'' of
          Inl e \<Rightarrow> Inr (json_error 400 ''invalid_address'')
        | Inr address \<Rightarrow>
            (let dat = nullish (map_option js_trim (string_field body ''data'')) '''' in
             if \<not> startsWith dat ''0x'' then Inr (json_error 400 ''invalid_data'')
             else (case ethCall post rpcUrl address dat (Some caller) of
                 Inl m \<Rightarrow> Inl m
               | Inr r \<Rightarrow> Inr \<lparr>jr_status = 200, jr_body = JsObject [(''result'', JsString r)]\<rparr>))))"

section \<open>contract-encode.ts\<close>

datatype EncodeResult = EncodeThrows | NoFragment | Encoded string

definition handleContractEncode :: "(string \<Rightarrow> json list \<Rightarrow> EncodeResult) \<Rightarrow> json \<Rightarrow> JsonResponse" where
  "handleContractEncode encode body =
     (if \<not> is_object body then json_error 400 ''invalid_body''
      else (case requireHexAddress (string_field body ''address'') ''address'' of
          Inl e \<Rightarrow> json_error 400 ''invalid_address''
        | Inr address \<Rightarrow>
            (let signature = nullish (map_option js_trim (string_field body ''signature'')) '''';
                 args = (case field body ''args'' of Some (JsArray xs) \<Rightarrow> xs | _ \<Rightarrow> []) in
             if signature = [] then json_error 400 ''invalid_signature''
             else (case encode signature args of
                 EncodeThrows \<Rightarrow> json_error 400 ''encode_failed''
               | NoFragment \<Rightarrow> json_error 400 ''invalid_signature''
               | Encoded dat \<Rightarrow> \<lparr>jr_status = 200, jr_body = JsObject [(''to'', JsString address), (''data'', JsString dat)]\<rparr>))))"

end
