(* ===== verification/ApiHttp.thy ===== *)
theory ApiHttp
  imports ApiVerify
begin

text \<open>
  \<^verbatim>\<open>packages/api/src/gold/register.ts\<close>, \<^verbatim>\<open>gold/app.ts\<close>, \<^verbatim>\<open>evm/register.ts\<close> and \<^verbatim>\<open>http.ts\<close>: the routes,
  the mapping of errors to statuses, and the request handler of the server.  A request has its URL
  parsed; its body is the text, read by \<^verbatim>\<open>JSON.parse\<close>, a parameter.  The outside world of the handlers
  (database server, compiler, ethers, the node) is the record \<open>Env\<close>.
\<close>

section \<open>Definitions\<close>

record Env =
  env_pg :: Pg
  env_parser :: parser
  env_solc :: Solc
  env_encode :: "string \<Rightarrow> json list \<Rightarrow> EncodeResult"
  env_post :: "string \<Rightarrow> string \<Rightarrow> json list \<Rightarrow> string + RpcReply"
  env_rpcUrl :: "string option"
  env_jsonParse :: "string \<Rightarrow> json option"

record HttpRequest =
  rq_method :: string
  rq_url :: Url
  rq_body :: string

datatype Body =
    JsonBody json
  | EvmBody EvmResult
  | SolvencyBody SolvencyResult
  | ReceiptBody RedemptionReceipt
  | ReceiptsBody "RedemptionReceipt Paginated"
  | ActivityBody "ApiBridgeRow list" "ApiBridgeRow list"
  | StakingBody "ApiStakingEvent Paginated"
  | ValidatorsBody "ApiValidatorEvent Paginated"
  | DelegationBody "ApiDelegationEvent Paginated"
  | CheckpointsBody "ApiCheckpoint Paginated"
  | GovernanceBody "ApiGovernanceEvent Paginated"
  | MigrationBody MigrationStatus
  | ValidatorSetBody "ValidatorSetRow list"
  | DelegationsBody "DelegationRow list" "UnbondingRow list"
  | CheckpointStatusBody CheckpointStatus
  | BoardBody GovernanceBoard

record HttpResponse =
  hr_status :: int
  hr_body :: Body

definition error_body :: "int \<Rightarrow> string \<Rightarrow> HttpResponse" where
  "error_body st m = \<lparr>hr_status = st, hr_body = JsonBody (JsObject [(''error'', JsString m)])\<rparr>"

definition of_json :: "JsonResponse \<Rightarrow> HttpResponse" where
  "of_json r = \<lparr>hr_status = jr_status r, hr_body = JsonBody (jr_body r)\<rparr>"

text \<open>\<^verbatim>\<open>error.message\<close>\<close>

definition error_message :: "Pg \<Rightarrow> js_error \<Rightarrow> string" where
  "error_message pg e = (case e of ValidationError m \<Rightarrow> m | ErrorMsg m \<Rightarrow> m | _ \<Rightarrow> pg_message pg e)"

subsection \<open>gold/register.ts and gold/app.ts\<close>

type_synonym gold_handler = "Url \<Rightarrow> db \<Rightarrow> js_error + HttpResponse"

definition withPool :: "(Url \<Rightarrow> db \<Rightarrow> js_error + Body) \<Rightarrow> gold_handler" where
  "withPool fn = (\<lambda>url d. bindS (fn url d) (\<lambda>body. Inr \<lparr>hr_status = 200, hr_body = body\<rparr>))"

definition redemption_receipts_route :: "Pg \<Rightarrow> gold_handler" where
  "redemption_receipts_route pg = (\<lambda>url d.
     let correlationId = param (url_searchParams url) ''receiptCorrelationId'' in
     if truthy correlationId then
       bindS (requireHexHash correlationId ''receiptCorrelationId'') (\<lambda>normalized.
       bindS (fetchRedemptionReceiptById pg normalized d) (\<lambda>receipt.
       Inr (case receipt of
          None \<Rightarrow> error_body 404 ''not_found''
        | Some r \<Rightarrow> \<lparr>hr_status = 200, hr_body = ReceiptBody r\<rparr>)))
     else bindS (fetchRedemptionReceipts pg (url_searchParams url) d) (\<lambda>body.
       Inr \<lparr>hr_status = 200, hr_body = ReceiptsBody body\<rparr>))"

definition mapBody :: "('a \<Rightarrow> Body) \<Rightarrow> js_error + 'a \<Rightarrow> js_error + Body" where
  "mapBody c m = bindS m (\<lambda>x. Inr (c x))"

definition gold_routes :: "Pg \<Rightarrow> (string \<times> gold_handler) list" where
  "gold_routes pg =
     [(''/gold/solvency'', withPool (\<lambda>url d. mapBody SolvencyBody (computeSolvency pg d))),
      (''/gold/redemption-receipts'', redemption_receipts_route pg),
      (''/gold/bridge-activity'', withPool (\<lambda>url d. Inr (case fetchBridgeActivity pg d of (f, p) \<Rightarrow> ActivityBody f p))),
      (''/gold/staking'', withPool (\<lambda>url d. mapBody StakingBody (fetchStakingEvents pg (url_searchParams url) d))),
      (''/gold/validators'', withPool (\<lambda>url d. mapBody ValidatorsBody (fetchValidatorEvents pg (url_searchParams url) d))),
      (''/gold/delegation'', withPool (\<lambda>url d. mapBody DelegationBody (fetchDelegationEvents pg (url_searchParams url) d))),
      (''/gold/checkpoints'', withPool (\<lambda>url d. mapBody CheckpointsBody (fetchCheckpoints pg (url_searchParams url) d))),
      (''/gold/governance'', withPool (\<lambda>url d. mapBody GovernanceBody (fetchGovernanceEvents pg (url_searchParams url) d))),
      (''/gold/migration-status'', withPool (\<lambda>url d. Inr (MigrationBody (fetchMigrationStatus pg d)))),
      (''/gold/validator-set'', withPool (\<lambda>url d. mapBody ValidatorSetBody (computeValidatorSet pg d))),
      (''/gold/delegations'', withPool (\<lambda>url d. Inr (case computeDelegations d of (a, b) \<Rightarrow> DelegationsBody a b))),
      (''/gold/checkpoint-status'', withPool (\<lambda>url d. Inr (CheckpointStatusBody (computeCheckpointStatus pg d)))),
      (''/gold/governance-board'', withPool (\<lambda>url d. mapBody BoardBody (computeGovernanceBoard pg d)))]"

definition dispatchGoldGet :: "Pg \<Rightarrow> Url \<Rightarrow> db \<Rightarrow> js_error + HttpResponse" where
  "dispatchGoldGet pg url d =
     (case map_of (gold_routes pg) (url_pathname url) of
        None \<Rightarrow> Inr (error_body 404 ''not_found'') | Some handler \<Rightarrow> handler url d)"

text \<open>\<^verbatim>\<open>createGoldApp(pool).handle\<close>; a handler that throws rejects the promise.\<close>

definition gold_app_handle :: "Pg \<Rightarrow> HttpRequest \<Rightarrow> db \<Rightarrow> js_error + HttpResponse" where
  "gold_app_handle pg req d =
     (if rq_method req \<noteq> ''GET'' then Inr (error_body 405 ''method_not_allowed'')
      else (case map_of (gold_routes pg) (url_pathname (rq_url req)) of
          None \<Rightarrow> Inr (error_body 404 ''not_found'') | Some handler \<Rightarrow> handler (rq_url req) d))"

text \<open>\<^verbatim>\<open>createGoldHandler\<close>: \<open>None\<close> when the request is left to others; a handler that throws rejects a
  promise nobody waits for.\<close>

definition handleGoldRequest :: "Pg \<Rightarrow> string \<Rightarrow> HttpRequest \<Rightarrow> db \<Rightarrow> (js_error + HttpResponse) option" where
  "handleGoldRequest pg pathPrefix req d =
     (if rq_method req \<noteq> ''GET'' \<or> \<not> startsWith (url_pathname (rq_url req)) pathPrefix then None
      else (case map_of (gold_routes pg) (url_pathname (rq_url req)) of
          None \<Rightarrow> Some (Inr (error_body 404 ''not_found'')) | Some handler \<Rightarrow> Some (handler (rq_url req) d)))"

subsection \<open>evm/register.ts\<close>

definition evm_error :: "int \<Rightarrow> string \<Rightarrow> string \<Rightarrow> HttpResponse" where
  "evm_error st message r =
     \<lparr>hr_status = st, hr_body = EvmBody (Etherscan
        \<lparr>es_status = ''0'', es_message = message, es_result = JsString r\<rparr>)\<rparr>"

text \<open>\<open>None\<close> when the path is not the interface's, so that the request goes on.\<close>

definition handleEvmRequest :: "Env \<Rightarrow> string \<Rightarrow> HttpRequest \<Rightarrow> ApiStore \<Rightarrow> HttpResponse option" where
  "handleEvmRequest env apiPath req s =
     (if url_pathname (rq_url req) \<noteq> apiPath then None
      else if rq_method req \<noteq> ''GET''
      then Some (evm_error 405 ''Method Not Allowed'' ''Read-only API: writes are not permitted'')
      else if isOversizedQuery (rq_url req) then Some (evm_error 400 ''NOTOK'' ''Query string too large'')
      else Some (case dispatchEvmApi (env_pg env) (env_parser env) (url_searchParams (rq_url req)) s of
          Inr response \<Rightarrow> \<lparr>hr_status = 200, hr_body = EvmBody response\<rparr>
        | Inl (ValidationError m) \<Rightarrow> evm_error 400 ''NOTOK'' m
        | Inl e \<Rightarrow> evm_error 500 ''NOTOK'' (error_message (env_pg env) e)))"

subsection \<open>http.ts\<close>

definition readJsonBody :: "Env \<Rightarrow> string \<Rightarrow> js_error + json" where
  "readJsonBody env body =
     (if body = [] then Inr (JsObject [])
      else (case env_jsonParse env body of None \<Rightarrow> Inl SyntaxError | Some j \<Rightarrow> Inr j))"

definition post_error :: "Env \<Rightarrow> js_error \<Rightarrow> HttpResponse" where
  "post_error env e =
     (if e = SyntaxError then error_body 400 ''invalid_json''
      else error_body 500 (error_message (env_pg env) e))"

definition handleVerifyPost :: "Env \<Rightarrow> HttpRequest \<Rightarrow> ApiStore \<Rightarrow> HttpResponse \<times> ApiStore" where
  "handleVerifyPost env req s =
     (case readJsonBody env (rq_body req) of
        Inl e \<Rightarrow> (post_error env e, s)
      | Inr body \<Rightarrow>
          (case handleVerify (env_solc env) body s of
             (Inl e, s') \<Rightarrow> (post_error env e, s')
           | (Inr response, s') \<Rightarrow> (of_json response, s')))"

definition handlePostRoute :: "Env \<Rightarrow> HttpRequest \<Rightarrow> ApiStore \<Rightarrow> (HttpResponse \<times> ApiStore) option" where
  "handlePostRoute env req s =
     (let p = url_pathname (rq_url req) in
      if p = ''/verify'' \<or> p = ''/contract/verify'' then Some (handleVerifyPost env req s)
      else if p = ''/contract/call'' then
        Some (case readJsonBody env (rq_body req) of
            Inl e \<Rightarrow> (post_error env e, s)
          | Inr body \<Rightarrow> (of_json (handleContractCall (env_post env) (env_rpcUrl env) body), s))
      else if p = ''/contract/encode'' then
        Some (case readJsonBody env (rq_body req) of
            Inl e \<Rightarrow> (post_error env e, s)
          | Inr body \<Rightarrow> (of_json (handleContractEncode (env_encode env) body), s))
      else None)"

definition encode_query :: "Env \<Rightarrow> Url \<Rightarrow> HttpResponse" where
  "encode_query env url =
     (if isOversizedQuery url then error_body 400 ''query_too_large''
      else
        (let ps = url_searchParams url; argsParam = param ps ''args'';
             parsed = (if truthy argsParam then env_jsonParse env (the argsParam) else Some (JsArray [])) in
         case parsed of
           None \<Rightarrow> error_body 400 ''invalid_args''
         | Some args \<Rightarrow> of_json (handleContractEncode (env_encode env)
             (JsObject [(''address'', json_opt (param ps ''address'')),
                        (''signature'', json_opt (param ps ''signature'')), (''args'', args)]))))"

definition gold_request :: "Env \<Rightarrow> HttpRequest \<Rightarrow> db \<Rightarrow> HttpResponse" where
  "gold_request env req d =
     (case map_of (gold_routes (env_pg env)) (url_pathname (rq_url req)) of
        None \<Rightarrow> error_body 404 ''Not found''
      | Some handler \<Rightarrow>
          (case handler (rq_url req) d of
             Inr response \<Rightarrow> response
           | Inl (ValidationError m) \<Rightarrow> error_body 400 m
           | Inl e \<Rightarrow> error_body 500 (error_message (env_pg env) e)))"

text \<open>The request handler of \<^verbatim>\<open>createApp\<close>.\<close>

definition handle_request :: "Env \<Rightarrow> string \<Rightarrow> HttpRequest \<Rightarrow> ApiStore \<Rightarrow> HttpResponse \<times> ApiStore" where
  "handle_request env apiPath req s =
     (case handleEvmRequest env apiPath req s of
        Some response \<Rightarrow> (response, s)
      | None \<Rightarrow>
          if rq_method req = ''POST'' then
            (case handlePostRoute env req s of
               Some r \<Rightarrow> r
             | None \<Rightarrow> (error_body 405 ''method_not_allowed'', s))
          else if rq_method req = ''GET'' \<and> url_pathname (rq_url req) = ''/contract/encode''
          then (encode_query env (rq_url req), s)
          else if rq_method req \<noteq> ''GET'' then (error_body 405 ''method_not_allowed'', s)
          else if isOversizedQuery (rq_url req) then (error_body 400 ''query_too_large'', s)
          else (gold_request env req (s_db s), s))"

end
