(* ===== verification/EvmFacts.thy ===== *)
theory EvmFacts
  imports BoardFacts ApiHttp "HOL-Library.Multiset"
begin

text \<open>
  Facts on the Etherscan interface and the requests with a body: the joins over a well-formed
  database, the pages of an account's transactions, holders against supply, what a verification
  can change, and the statuses of the server.
\<close>

section \<open>Joins\<close>

lemma filter_unique: "distinct (map k xs) \<Longrightarrow> x \<in> set xs \<Longrightarrow> filter (\<lambda>y. k y = k x) xs = [x]"
proof (induction xs)
  case (Cons y ys)
  show ?case
  proof (cases "x = y")
    case True
    with Cons.prems have "\<forall>z \<in> set ys. k z \<noteq> k x" by (auto simp: image_iff)
    then have "filter (\<lambda>z. k z = k x) ys = []" by (simp add: filter_empty_conv)
    with True show ?thesis by simp
  next
    case False
    with Cons.prems have "k y \<noteq> k x" by (auto simp: image_iff)
    with False Cons show ?thesis by simp
  qed
qed simp

lemma concat_singletons: "(\<And>x. x \<in> set xs \<Longrightarrow> f x = [g x]) \<Longrightarrow> concat (map f xs) = map g xs"
  by (induction xs) simp_all

text \<open>In a well-formed database a transaction has one block and at most one receipt.\<close>

definition tx_view :: "db \<Rightarrow> TransactionRow \<Rightarrow> TxView" where
  "tx_view d t = \<lparr>tv_tx = t, tv_block = hd (filter (\<lambda>b. JNum (blk_number b) = tx_blockNumber t) (blocks d)),
     tv_receipt = (case filter (\<lambda>r. rcpt_transactionHash r = tx_hash t) (receipts d) of [] \<Rightarrow> None | r # _ \<Rightarrow> Some r)\<rparr>"

lemma tx_block:
  assumes "db_wf d" and "t \<in> set (transactions d)"
  obtains b where "b \<in> set (blocks d)" and "tx_blockNumber t = JNum (blk_number b)"
    and "filter (\<lambda>b. JNum (blk_number b) = tx_blockNumber t) (blocks d) = [b]"
proof -
  have "tx_blockNumber t \<in> block_nums (blocks d)"
    using assms by (auto simp: db_wf_def wf_evm_def wf_txs_def)
  then obtain b where b: "b \<in> set (blocks d)" "tx_blockNumber t = JNum (blk_number b)"
    by (auto simp: block_nums_def)
  have "distinct (map blk_number (blocks d))" using assms(1) by (simp add: db_wf_def wf_blocks_def)
  then have "filter (\<lambda>y. blk_number y = blk_number b) (blocks d) = [b]" using b(1) by (rule filter_unique)
  then show ?thesis using that b by simp
qed

lemma TX_SELECT_SQL_wf:
  assumes "db_wf d"
  shows "TX_SELECT_SQL d = map (tx_view d) (transactions d)"
  unfolding TX_SELECT_SQL_def
proof (rule concat_singletons)
  fix t
  assume t: "t \<in> set (transactions d)"
  obtain b where b: "filter (\<lambda>b. JNum (blk_number b) = tx_blockNumber t) (blocks d) = [b]"
    by (rule tx_block [OF assms t])
  have dist: "distinct (map rcpt_transactionHash (receipts d))"
    using assms by (simp add: db_wf_def wf_evm_def wf_receipts_def)
  let ?rs = "filter (\<lambda>r. rcpt_transactionHash r = tx_hash t) (receipts d)"
  have "?rs = [] \<or> (\<exists>r. ?rs = [r])"
  proof (cases "\<exists>r \<in> set (receipts d). rcpt_transactionHash r = tx_hash t")
    case True
    then obtain r where "r \<in> set (receipts d)" and "rcpt_transactionHash r = tx_hash t" by blast
    with filter_unique [OF dist, of r] show ?thesis by simp
  qed (auto simp: filter_empty_conv)
  then show "concat (map (\<lambda>b. let rs = ?rs in map (\<lambda>r. \<lparr>tv_tx = t, tv_block = b, tv_receipt = r\<rparr>)
      (if rs = [] then [None] else map Some rs)) (filter (\<lambda>b. JNum (blk_number b) = tx_blockNumber t) (blocks d))) =
      [tx_view d t]"
    by (auto simp: b tx_view_def)
qed

section \<open>Pages of the Etherscan interface\<close>

definition evm_page_params :: "nat \<Rightarrow> nat \<Rightarrow> params" where
  "evm_page_params k n = [(''page'', nat_str 10 k), (''offset'', nat_str 10 n)]"

lemma param_evm_page [simp]:
  "param (evm_page_params k n @ ps) ''page'' = Some (nat_str 10 k)"
  "param (evm_page_params k n @ ps) ''offset'' = Some (nat_str 10 n)"
  "q \<noteq> ''page'' \<Longrightarrow> q \<noteq> ''offset'' \<Longrightarrow> param (evm_page_params k n @ ps) q = param ps q"
  by (simp_all add: param_def evm_page_params_def)

lemma evm_page:
  assumes "1 \<le> k" and "1 \<le> n" and "n \<le> 100" and "k * n < 2 ^ 53"
  shows "sqlLimitOffset (evm_parsePagination (evm_page_params k n @ ps)) =
    (JNum (int n), JNum (int ((k - 1) * n)))"
proof -
  have "k \<le> k * n" using assms(2) by simp
  then have k: "k < 2 ^ 53" using assms(4) by linarith
  have o: "(k - 1) * n < 2 ^ 53" using assms(4) by (meson diff_le_self le_less_trans mult_le_mono1)
  have "number_of_bigint (int k - 1) = JNum (int (k - 1))"
    using assms(1) k by (simp add: number_of_bigint_exact of_nat_diff)
  moreover have "number_of_bigint (int (k - 1) * int n) = JNum (int ((k - 1) * n))"
  proof -
    have "\<bar>int ((k - 1) * n)\<bar> < int (2 ^ 53)" using o by (simp only: abs_of_nat of_nat_less_iff)
    then show ?thesis using number_of_bigint_exact [of "int ((k - 1) * n)"] by simp
  qed
  moreover have "js_max (JNum 1) (js_or (JNum (int k)) (JNum 1)) = JNum (int k)"
    and "js_min (JNum MAX_OFFSET) (js_max (JNum 1) (js_or (JNum (int n)) (JNum DEFAULT_OFFSET))) = JNum (int n)"
    using assms by (auto simp: js_max_def js_min_def js_or_def MAX_OFFSET_def)
  ultimately show ?thesis
    using k assms(3) by (simp add: evm_parsePagination_def sqlLimitOffset_def parse_nat_str Let_def)
qed

text \<open>A page that is no number counts as the first.\<close>

lemma evm_page_NaN:
  assumes "param ps ''page'' = Some s" and "parseInt 10 s = JNaN"
  shows "pgn_page (evm_parsePagination ps) = JNum 1"
  using assms by (simp add: evm_parsePagination_def js_or_def js_max_def Let_def)

section \<open>Transactions of an account\<close>

definition of_account :: "string \<Rightarrow> int \<Rightarrow> int \<Rightarrow> TxView \<Rightarrow> bool" where
  "of_account a lo hi v \<longleftrightarrow> tx_finalityStatus (tv_tx v) \<noteq> Reverted \<and> blk_finalityStatus (tv_block v) \<noteq> Reverted \<and>
     between (tx_blockNumber (tv_tx v)) lo hi \<and> (tx_fromAddress (tv_tx v) = a \<or> tx_toAddress (tv_tx v) = Some a)"

definition tx_key :: "TxView \<Rightarrow> int \<times> int" where
  "tx_key v = (num_key (tx_blockNumber (tv_tx v)), num_key (tx_transactionIndex (tv_tx v)))"

definition account_txs :: "string \<Rightarrow> int \<Rightarrow> int \<Rightarrow> SortOrder \<Rightarrow> db \<Rightarrow> TxView list" where
  "account_txs a lo hi ord d = ordered ord tx_key (filter (of_account a lo hi) (TX_SELECT_SQL d))"

lemma accountTxList_page:
  assumes "requireAddress ps = Inr a" and "pg_bigint (fst (parseBlockRange ps)) = Inr lo"
    and "pg_bigint (snd (parseBlockRange ps)) = Inr hi"
    and "1 \<le> k" and "1 \<le> n" and "n \<le> 100" and "k * n < 2 ^ 53"
  shows "accountTxList (evm_page_params k n @ ps) s = Inr (json_list ''No transactions found'' formatTransactionRow
    (take n (drop ((k - 1) * n) (account_txs a lo hi (sortOrder ps) (s_db s)))))"
proof -
  let ?ps = "evm_page_params k n @ ps"
  have same: "requireAddress ?ps = requireAddress ps" "parseBlockRange ?ps = parseBlockRange ps" "sortOrder ?ps = sortOrder ps"
    by (simp_all add: requireAddress_def parseBlockRange_def sortOrder_def)
  obtain x y where r: "parseBlockRange ps = (x, y)" by fastforce
  have "limit_offset (JNum (int n)) (JNum (int ((k - 1) * n))) rows = Inr (take n (drop ((k - 1) * n) rows))" for rows :: "TxView list"
    using assms(4,6,7) by (rule limit_offset_page)
  then show ?thesis
    using assms(1-3) unfolding accountTxList_def same evm_page [OF assms(4-7)] account_txs_def of_account_def [abs_def] tx_key_def [abs_def]
    by (simp add: r del: of_nat_mult)
qed

lemma set_ordered [simp]: "set (ordered ord k rows) = set rows"
  by (cases ord) (simp_all add: ordered_def order_by_desc_def order_by_def)

lemma mset_ordered: "mset (ordered ord k rows) = mset rows"
  by (cases ord) (simp_all add: ordered_def order_by_desc_def order_by_def)

lemma distinct_ordered: "distinct (map f (ordered ord k rows)) = distinct (map f rows)"
  by (metis mset_map mset_ordered mset_eq_imp_distinct_iff)

lemma sorted_ordered: "sorted (map k (case ord of ASC \<Rightarrow> ordered ord k rows | DESC \<Rightarrow> rev (ordered ord k rows)))"
  by (cases ord) (simp_all add: ordered_def order_by_desc_def order_by_def)

lemma account_txs_exact:
  assumes "db_wf d"
  shows "tv_tx ` set (account_txs a lo hi ord d) =
      {t \<in> set (transactions d). of_account a lo hi (tx_view d t)}"
    and "distinct (map (\<lambda>v. tx_hash (tv_tx v)) (account_txs a lo hi ord d))"
    and "v \<in> set (account_txs a lo hi ord d) \<Longrightarrow> v = tx_view d (tv_tx v)"
proof -
  have v: "tv_tx (tx_view d t) = t" for t by (simp add: tx_view_def)
  show "tv_tx ` set (account_txs a lo hi ord d) = {t \<in> set (transactions d). of_account a lo hi (tx_view d t)}"
    by (force simp: account_txs_def TX_SELECT_SQL_wf [OF assms] v)
  have "distinct (map tx_hash (transactions d))" using assms by (simp add: db_wf_def wf_evm_def wf_txs_def)
  then have "distinct (map (\<lambda>v. tx_hash (tv_tx v)) (map (tx_view d) (transactions d)))" by (simp add: v comp_def)
  then show "distinct (map (\<lambda>v. tx_hash (tv_tx v)) (account_txs a lo hi ord d))"
    by (simp only: account_txs_def TX_SELECT_SQL_wf [OF assms] distinct_ordered distinct_map_filter)
  show "v \<in> set (account_txs a lo hi ord d) \<Longrightarrow> v = tx_view d (tv_tx v)"
    by (auto simp: account_txs_def TX_SELECT_SQL_wf [OF assms] v)
qed

section \<open>Verification\<close>

lemma lower_0x: "toLowerCase (''0x'' @ s) = ''0x'' @ toLowerCase s"
  by (simp add: toLowerCase_def lower_char_def)

text \<open>Only empty code is \<^verbatim>\<open>0x\<close> after its metadata is cut off.\<close>

lemma strip_markers_nonempty: "strip_markers ms hex = Some r \<Longrightarrow> 2 < length r \<or> hex = []"
  by (induction ms) (auto split: option.splits if_splits)

lemma stripMetadata_empty: "stripMetadata (''0x'' @ hex) = ''0x'' \<longleftrightarrow> hex = []"
proof (cases "strip_markers METADATA_MARKERS hex")
  case None
  then show ?thesis by (simp add: stripMetadata_def strip_0x_prefix_def startsWith_def)
next
  case (Some r)
  then have "hex \<noteq> [] \<Longrightarrow> r \<noteq> ''0x''" using strip_markers_nonempty [OF Some] by auto
  moreover have "strip_markers METADATA_MARKERS [] = None" by code_simp
  ultimately show ?thesis using Some by (auto simp: stripMetadata_def strip_0x_prefix_def startsWith_def)
qed

lemma matches_no_code: "bytecodeMatches ''0x'' (''0x'' @ hex) \<longleftrightarrow> hex = []"
proof -
  have "stripMetadata (toLowerCase ''0x'') = ''0x''" by code_simp
  then show ?thesis
    using stripMetadata_empty [of "toLowerCase hex"] by (auto simp: bytecodeMatches_def lower_0x toLowerCase_def lower_char_def)
qed

lemma compileContract_prefix: "compileContract solc r = Inr c \<Longrightarrow> \<exists>hex. cd_bytecode c = ''0x'' @ hex"
  by (auto simp: compileContract_def split: sum.splits option.splits if_splits list.splits prod.splits)

lemma verify_error_status:
  "sanitizeVerifyRequest b = Inl (VerifyError m st) \<Longrightarrow> st = 400"
  "normalizeSolcVersion v = Inl (VerifyError m st) \<Longrightarrow> st = 400"
  "resolveRemoteSolcBinary solc v = Inl (VerifyError m st) \<Longrightarrow> st = 400"
  by (auto simp: sanitizeVerifyRequest_def normalizeSolcVersion_def resolveRemoteSolcBinary_def toRemoteSolcVersionString_def Let_def
      split: sum.splits option.splits if_splits Releases.splits)

lemma loadSolcCompiler_status: "loadSolcCompiler solc v = Inl (VerifyError m st) \<Longrightarrow> st = 400"
  by (auto simp: loadSolcCompiler_def dest: verify_error_status split: sum.splits option.splits if_splits)

lemma compileContract_status: "compileContract solc r = Inl (VerifyError m st) \<Longrightarrow> st = 400"
  by (auto simp: compileContract_def dest: verify_error_status loadSolcCompiler_status
      split: sum.splits option.splits if_splits list.splits)

lemma handleVerify_cases:
  assumes "handleVerify solc body s = (res, s')"
  obtains (unchanged) "s' = s" and "\<forall>r. res = Inr r \<longrightarrow> jr_status r \<in> {400, 404}"
  | (verified) request c m compiled r where "sanitizeVerifyRequest body = Inr request"
      and "contract_at s (vr_address request) = Some (c, m)" and "compileContract solc request = Inr compiled"
      and "bytecodeMatches (nullish (c_bytecode c) ''0x'') (cd_bytecode compiled)"
      and "store_verified request compiled s = (Inr (), s')" and "res = Inr r" and "jr_status r = 200"
proof (cases "sanitizeVerifyRequest body")
  case (Inl e)
  then have "s' = s" and "res = Inr (sanitize_failure e)" using assms by (simp_all add: handleVerify_def)
  moreover have "jr_status (sanitize_failure e) = 400"
    using Inl verify_error_status(1)
    by (cases e) (auto simp: sanitize_failure_def verify_failure_def json_error_def split: js_error.splits)
  ultimately show ?thesis by (intro unchanged) auto
next
  case san: (Inr request)
  show ?thesis
  proof (cases "contract_at s (vr_address request)")
    case None
    then show ?thesis using assms san by (intro unchanged) (auto simp: handleVerify_def json_error_def)
  next
    case (Some cm)
    then obtain c m where cm: "contract_at s (vr_address request) = Some (c, m)" by (cases cm) simp
    show ?thesis
    proof (cases "compileContract solc request")
      case (Inl e)
      moreover have "jr_status (verify_failure e ''compile_failed'') = 400"
        using Inl compileContract_status by (cases e) (auto simp: verify_failure_def json_error_def)
      ultimately show ?thesis using assms san cm by (intro unchanged) (auto simp: handleVerify_def)
    next
      case comp: (Inr compiled)
      show ?thesis
      proof (cases "bytecodeMatches (nullish (c_bytecode c) ''0x'') (cd_bytecode compiled)")
        case False
        then show ?thesis using assms san cm comp by (intro unchanged) (auto simp: handleVerify_def json_error_def)
      next
        case True
        obtain q t where st: "store_verified request compiled s = (q, t)" by fastforce
        show ?thesis
        proof (cases q)
          case (Inl e)
          then have "t = s" using st by (auto simp: store_verified_def split: sum.splits if_splits)
          then show ?thesis
            using assms san cm comp True st Inl by (intro unchanged) (auto simp: handleVerify_def run_then)
        next
          case (Inr u)
          then show ?thesis
            using assms san cm comp True st by (intro verified) (auto simp: handleVerify_def run_then returnM_def)
        qed
      qed
    qed
  qed
qed

lemma store_verified_effect:
  assumes "store_verified r c s = (Inr (), s')"
  shows "s_db s' = s_db s" and "s_gilt s' = s_gilt s"
    and "cm_isVerified (meta_of s' (vr_address r))" and "cm_sourceCode (meta_of s' (vr_address r)) = Some (vr_source r)"
    and "cm_abi (meta_of s' (vr_address r)) = Some (cd_abi c)"
    and "a \<noteq> vr_address r \<Longrightarrow> meta_of s' a = meta_of s a"
  using assms by (auto simp: store_verified_def meta_of_def split: sum.splits if_splits)

section \<open>The server\<close>

lemma evm_request_status: "handleEvmRequest env p req s = Some r \<Longrightarrow> hr_status r \<in> {200, 400, 405, 500}"
  by (auto simp: handleEvmRequest_def evm_error_def split: if_splits sum.splits js_error.splits)

lemma post_error_status: "hr_status (post_error env e) \<in> {400, 500}"
  by (simp add: post_error_def error_body_def)

lemma contract_call_status: "jr_status (handleContractCall post url b) \<in> {200, 400, 502, 503}"
  by (auto simp: handleContractCall_def json_error_def Let_def split: sum.splits)

lemma contract_encode_status: "jr_status (handleContractEncode enc b) \<in> {200, 400}"
  by (auto simp: handleContractEncode_def json_error_def Let_def split: sum.splits EncodeResult.splits)

lemma gold_route_status: "(p, h) \<in> set (gold_routes pg) \<Longrightarrow> h url d = Inr r \<Longrightarrow> hr_status r \<in> {200, 404}"
  by (auto simp: gold_routes_def withPool_def mapBody_def redemption_receipts_route_def error_body_def bindS_eq_Inr Let_def
      split: if_splits option.splits)

lemma gold_request_status: "hr_status (gold_request env req d) \<in> {200, 400, 404, 500}"
proof (cases "map_of (gold_routes (env_pg env)) (url_pathname (rq_url req))")
  case None
  then show ?thesis by (simp add: gold_request_def error_body_def)
next
  case (Some h)
  then have "(url_pathname (rq_url req), h) \<in> set (gold_routes (env_pg env))" by (rule map_of_SomeD)
  then have "h (rq_url req) d = Inr r \<Longrightarrow> hr_status r \<in> {200, 404}" for r by (rule gold_route_status)
  then show ?thesis
    by (auto simp: gold_request_def Some error_body_def split: sum.split js_error.split)
qed

lemma handleVerifyPost_effect:
  assumes "handleVerifyPost env req s = (r, s')"
  shows "s_db s' = s_db s \<and> s_gilt s' = s_gilt s \<and> hr_status r \<in> {200, 400, 404, 500}"
proof (cases "readJsonBody env (rq_body req)")
  case (Inl e)
  then show ?thesis using assms post_error_status [of env e] by (auto simp: handleVerifyPost_def)
next
  case (Inr body)
  obtain res t where run: "handleVerify (env_solc env) body s = (res, t)" by fastforce
  then have s': "s' = t" and r: "r = (case res of Inl e \<Rightarrow> post_error env e | Inr x \<Rightarrow> of_json x)"
    using assms Inr by (auto simp: handleVerifyPost_def split: sum.splits)
  from run show ?thesis
  proof (cases rule: handleVerify_cases)
    case unchanged
    then show ?thesis using post_error_status s' r by (auto simp: of_json_def split: sum.splits)
  next
    case (verified request c m compiled x)
    then show ?thesis using store_verified_effect(1,2) s' r by (auto simp: of_json_def)
  qed
qed

lemma handlePostRoute_effect:
  assumes "handlePostRoute env req s = Some (r, s')"
  shows "s_db s' = s_db s \<and> s_gilt s' = s_gilt s \<and> hr_status r \<in> {200, 400, 404, 500, 502, 503}"
proof (cases "readJsonBody env (rq_body req)")
  case (Inl e)
  then show ?thesis
    using assms handleVerifyPost_effect [of env req s r s'] post_error_status [of env e]
    by (auto simp: handlePostRoute_def Let_def split: if_splits)
next
  case (Inr b)
  then show ?thesis
    using assms handleVerifyPost_effect [of env req s r s'] contract_call_status [of "env_post env" "env_rpcUrl env" b]
      contract_encode_status [of "env_encode env" b]
    by (auto simp: handlePostRoute_def of_json_def Let_def split: if_splits)
qed

lemma encode_query_status: "hr_status (encode_query env url) \<in> {200, 400}"
  using contract_encode_status [of "env_encode env"]
  by (auto simp: encode_query_def error_body_def of_json_def Let_def split: option.split)

lemma handle_request_effect:
  assumes "handle_request env p req s = (r, s')"
  shows "s_db s' = s_db s \<and> s_gilt s' = s_gilt s \<and> (rq_method req \<noteq> ''POST'' \<longrightarrow> s' = s) \<and>
    hr_status r \<in> {200, 400, 404, 405, 500, 502, 503}"
proof (cases "handleEvmRequest env p req s")
  case (Some x)
  then show ?thesis using assms evm_request_status [OF Some] by (auto simp: handle_request_def)
next
  case evm: None
  show ?thesis
  proof (cases "rq_method req = ''POST''")
    case True
    show ?thesis
    proof (cases "handlePostRoute env req s")
      case None
      then show ?thesis using assms evm True by (auto simp: handle_request_def error_body_def)
    next
      case (Some x)
      then have "x = (r, s')" using assms evm True by (simp add: handle_request_def)
      with Some handlePostRoute_effect [of env req s r s'] True show ?thesis by auto
    qed
  next
    case False
    then show ?thesis
      using assms evm encode_query_status [of env "rq_url req"] gold_request_status [of env req "s_db s"]
      by (auto simp: handle_request_def error_body_def split: if_splits)
  qed
qed

end
