(* ===== verification/LiveFeed.thy ===== *)
theory LiveFeed
  imports IndexerProps "HOL-Library.Sublist"
begin

text \<open>
  \<^verbatim>\<open>packages/api/src/ws.ts\<close> and \<^verbatim>\<open>index-with-feed.ts\<close>: the live feed that passes the indexer's events to
  connected sockets.  The sockets belong to the package ws: that one is upgraded, starts to close or is
  closed is an action of the outside world, and the feed is a state machine over these actions and the
  broadcasts.  Broadcasts are synchronous, so an action is atomic.  A call of the indexer with the feed attached is
  interleaved with socket actions by a schedule.  The lemmas: a client is sent exactly what
  is broadcast while it is open, and, for every schedule, each event of a call reaches exactly the clients that are open
  when the indexer hands it over, in order.
\<close>

section \<open>ws.ts\<close>

datatype ReadyState = WsOpen | WsClosing | WsClosed

text \<open>The set of clients in the order of insertion, the state of every socket so far, what
  \<^verbatim>\<open>send\<close> was given on it, and what the emitter emitted.\<close>

record WebSocketFeed =
  fd_clients :: "nat list"
  fd_readyState :: "nat \<Rightarrow> ReadyState option"
  fd_sent :: "nat \<Rightarrow> LiveFeedEvent list"
  fd_emitted :: "LiveFeedEvent list"

definition createWebSocketFeed :: WebSocketFeed where
  "createWebSocketFeed = \<lparr>fd_clients = [], fd_readyState = (\<lambda>_. None), fd_sent = (\<lambda>_. []), fd_emitted = []\<rparr>"

definition send_if_open :: "LiveFeedEvent \<Rightarrow> nat \<Rightarrow> WebSocketFeed \<Rightarrow> WebSocketFeed" where
  "send_if_open event client f =
     (if fd_readyState f client = Some WsOpen
      then f\<lparr>fd_sent := (fd_sent f)(client := fd_sent f client @ [event])\<rparr> else f)"

definition broadcast :: "LiveFeedEvent \<Rightarrow> WebSocketFeed \<Rightarrow> WebSocketFeed" where
  "broadcast event f =
     (let f' = fold (send_if_open event) (fd_clients f) f in f'\<lparr>fd_emitted := fd_emitted f' @ [event]\<rparr>)"

text \<open>The listener of \<^verbatim>\<open>upgrade\<close> that \<^verbatim>\<open>attach\<close> installs: a socket for another path is left alone.\<close>

definition on_upgrade :: "string \<Rightarrow> string \<Rightarrow> nat \<Rightarrow> WebSocketFeed \<Rightarrow> WebSocketFeed" where
  "on_upgrade path pathname ws f =
     (if pathname \<noteq> path then f
      else f\<lparr>fd_clients := (if ws \<in> set (fd_clients f) then fd_clients f else fd_clients f @ [ws]),
             fd_readyState := (fd_readyState f)(ws := Some WsOpen)\<rparr>)"

definition on_closing :: "nat \<Rightarrow> WebSocketFeed \<Rightarrow> WebSocketFeed" where
  "on_closing ws f =
     (if fd_readyState f ws = Some WsOpen then f\<lparr>fd_readyState := (fd_readyState f)(ws := Some WsClosing)\<rparr> else f)"

definition on_close :: "nat \<Rightarrow> WebSocketFeed \<Rightarrow> WebSocketFeed" where
  "on_close ws f =
     (if fd_readyState f ws = None then f
      else f\<lparr>fd_clients := filter (\<lambda>c. c \<noteq> ws) (fd_clients f),
             fd_readyState := (fd_readyState f)(ws := Some WsClosed)\<rparr>)"

datatype FeedAction = Upgrade string nat | Closing nat | Close nat | Broadcast LiveFeedEvent

fun feed_step :: "string \<Rightarrow> FeedAction \<Rightarrow> WebSocketFeed \<Rightarrow> WebSocketFeed" where
  "feed_step path (Upgrade pathname ws) f = on_upgrade path pathname ws f"
| "feed_step path (Closing ws) f = on_closing ws f"
| "feed_step path (Close ws) f = on_close ws f"
| "feed_step path (Broadcast event) f = broadcast event f"

definition feed_run :: "string \<Rightarrow> FeedAction list \<Rightarrow> WebSocketFeed \<Rightarrow> WebSocketFeed" where
  "feed_run path acts f = fold (feed_step path) acts f"

section \<open>index-with-feed.ts\<close>

text \<open>
  A call of the indexer with \<^verbatim>\<open>onIndexed: feed.broadcast\<close>.  The indexer calls \<^verbatim>\<open>onIndexed\<close> without
  awaiting it, so a broadcast is finished before the indexer goes on; but it awaits the database and the node between
  two events, and there sockets are upgraded and closed.  A schedule says which socket actions happen: \<open>sched k\<close> are
  those between the event before the k-th and the k-th event, counted from 0, and those after the last event.
  The indexer neither reads the feed nor the sockets, so what it does to the world is the same for
  every schedule, and every interleaving of a call with socket actions is a schedule.
\<close>

fun weave :: "(nat \<Rightarrow> FeedAction list) \<Rightarrow> nat \<Rightarrow> LiveFeedEvent list \<Rightarrow> FeedAction list" where
  "weave sched k [] = sched k"
| "weave sched k (event # events) = sched k @ Broadcast event # weave sched (Suc k) events"

definition with_feed ::
  "string \<Rightarrow> (nat \<Rightarrow> FeedAction list) \<Rightarrow> (world, 'a) js \<Rightarrow> world \<times> WebSocketFeed \<Rightarrow> (js_error + 'a) \<times> world \<times> WebSocketFeed" where
  "with_feed path sched m = (\<lambda>(w, f).
     case m w of (r, w') \<Rightarrow> (r, w', feed_run path (weave sched 0 (drop (length (w_feed w)) (w_feed w'))) f))"

definition indexWithFeed ::
  "string \<Rightarrow> (nat \<Rightarrow> FeedAction list) \<Rightarrow> string option \<Rightarrow> RpcClient \<Rightarrow>
   world \<times> WebSocketFeed \<Rightarrow> (js_error + int) \<times> world \<times> WebSocketFeed" where
  "indexWithFeed path sched env rpc = with_feed path sched (indexToHead env rpc)"

definition indexBlockNumbersWithFeed ::
  "string \<Rightarrow> (nat \<Rightarrow> FeedAction list) \<Rightarrow> string option \<Rightarrow> RpcClient \<Rightarrow> int list \<Rightarrow>
   world \<times> WebSocketFeed \<Rightarrow> (js_error + unit) \<times> world \<times> WebSocketFeed" where
  "indexBlockNumbersWithFeed path sched env rpc blockNumbers = with_feed path sched (indexBlockNumbers env rpc blockNumbers)"

definition processBlockWithFeed ::
  "string \<Rightarrow> (nat \<Rightarrow> FeedAction list) \<Rightarrow> string option \<Rightarrow> RpcClient \<Rightarrow> int \<Rightarrow> int \<Rightarrow>
   world \<times> WebSocketFeed \<Rightarrow> (js_error + bool) \<times> world \<times> WebSocketFeed" where
  "processBlockWithFeed path sched env rpc blockNumber headNumber = with_feed path sched (processBlock env rpc blockNumber headNumber)"

section \<open>What a client is sent\<close>

definition feed_ok :: "WebSocketFeed \<Rightarrow> bool" where
  "feed_ok f \<longleftrightarrow> distinct (fd_clients f) \<and>
     (\<forall>c. fd_readyState f c = Some WsOpen \<longrightarrow> c \<in> set (fd_clients f))"

lemma feed_ok_create: "feed_ok createWebSocketFeed"
  by (simp add: feed_ok_def createWebSocketFeed_def)

lemma fold_send:
  "distinct cs \<Longrightarrow>
   fd_sent (fold (send_if_open ev) cs f) c =
     (if c \<in> set cs \<and> fd_readyState f c = Some WsOpen then fd_sent f c @ [ev] else fd_sent f c) \<and>
   fd_readyState (fold (send_if_open ev) cs f) = fd_readyState f \<and>
   fd_clients (fold (send_if_open ev) cs f) = fd_clients f"
  by (induction cs arbitrary: f) (auto simp: send_if_open_def)

lemma broadcast_fields [simp]:
  "feed_ok f \<Longrightarrow> fd_readyState (broadcast ev f) = fd_readyState f"
  "feed_ok f \<Longrightarrow> fd_clients (broadcast ev f) = fd_clients f"
  "feed_ok f \<Longrightarrow> fd_sent (broadcast ev f) c =
     fd_sent f c @ (if fd_readyState f c = Some WsOpen then [ev] else [])"
  using fold_send [of "fd_clients f" ev f c] by (auto simp: broadcast_def Let_def feed_ok_def)

lemma feed_ok_step: "feed_ok f \<Longrightarrow> feed_ok (feed_step path act f)"
  by (cases act) (auto simp: on_upgrade_def on_closing_def on_close_def feed_ok_def [of "broadcast _ _"]
      simp: feed_ok_def split: if_splits)

lemma feed_ok_run: "feed_ok f \<Longrightarrow> feed_ok (feed_run path acts f)"
  unfolding feed_run_def by (induction acts arbitrary: f) (simp_all add: feed_ok_step)

definition broadcasts :: "FeedAction list \<Rightarrow> LiveFeedEvent list" where
  "broadcasts acts = concat (map (\<lambda>a. case a of Broadcast ev \<Rightarrow> [ev] | _ \<Rightarrow> []) acts)"

text \<open>While a client stays open it is sent every broadcast; while it is not, nothing.\<close>

lemma sent_while_open:
  assumes "feed_ok f" and "fd_readyState f c = Some WsOpen"
    and "\<forall>a \<in> set acts. a \<noteq> Closing c \<and> a \<noteq> Close c"
  shows "fd_readyState (feed_run path acts f) c = Some WsOpen \<and>
    fd_sent (feed_run path acts f) c = fd_sent f c @ broadcasts acts"
  using assms
proof (induction acts arbitrary: f)
  case (Cons a acts)
  have "fd_readyState (feed_step path a f) c = Some WsOpen \<and>
      fd_sent (feed_step path a f) c = fd_sent f c @ broadcasts [a]"
    using Cons.prems by (cases a) (auto simp: broadcasts_def on_upgrade_def on_closing_def on_close_def)
  then show ?case
    using Cons.IH [of "feed_step path a f"] Cons.prems feed_ok_step [OF Cons.prems(1), of path a]
    by (simp add: feed_run_def broadcasts_def)
qed (simp add: feed_run_def broadcasts_def)

lemma sent_while_shut:
  assumes "feed_ok f" and "fd_readyState f c \<noteq> Some WsOpen" and "\<forall>p. Upgrade p c \<notin> set acts"
  shows "fd_readyState (feed_run path acts f) c \<noteq> Some WsOpen \<and> fd_sent (feed_run path acts f) c = fd_sent f c"
  using assms
proof (induction acts arbitrary: f)
  case (Cons a acts)
  have "fd_readyState (feed_step path a f) c \<noteq> Some WsOpen \<and> fd_sent (feed_step path a f) c = fd_sent f c"
    using Cons.prems by (cases a) (auto simp: on_upgrade_def on_closing_def on_close_def)
  then show ?case
    using Cons.IH [of "feed_step path a f"] Cons.prems feed_ok_step [OF Cons.prems(1), of path a]
    by (simp add: feed_run_def)
qed (simp add: feed_run_def)

lemma feed_run_append: "feed_run path (xs @ ys) f = feed_run path ys (feed_run path xs f)"
  by (simp add: feed_run_def)

text \<open>The session of a client: from its upgrade to the first action that closes it.\<close>

lemma sent_in_session:
  assumes fresh: "\<forall>p. Upgrade p c \<notin> set (before @ during @ rest)"
    and during: "\<forall>a \<in> set during. a \<noteq> Closing c \<and> a \<noteq> Close c"
    and rest: "rest = [] \<or> hd rest \<in> {Closing c, Close c}"
  shows "fd_sent (feed_run path (before @ Upgrade path c # during @ rest) createWebSocketFeed) c = broadcasts during"
proof -
  let ?f1 = "feed_run path before createWebSocketFeed"
  let ?f2 = "on_upgrade path path c ?f1"
  let ?f3 = "feed_run path during ?f2"
  have ok: "feed_ok ?f1" "feed_ok ?f2" "feed_ok ?f3"
    using feed_ok_run [OF feed_ok_create] feed_ok_step [of ?f1 path "Upgrade path c"] feed_ok_run by simp_all
  have "fd_sent ?f1 c = []"
    using sent_while_shut [OF feed_ok_create, of c before path] fresh by (simp add: createWebSocketFeed_def)
  then have "fd_sent ?f2 c = []" "fd_readyState ?f2 c = Some WsOpen" by (simp_all add: on_upgrade_def)
  then have open3: "fd_readyState ?f3 c = Some WsOpen" "fd_sent ?f3 c = broadcasts during"
    using sent_while_open [OF ok(2) _ during, of path] by simp_all
  have "fd_sent (feed_run path rest ?f3) c = fd_sent ?f3 c"
  proof (cases rest)
    case (Cons a as)
    then have a: "a = Closing c \<or> a = Close c" using rest by simp
    then have "fd_readyState (feed_step path a ?f3) c \<noteq> Some WsOpen" "fd_sent (feed_step path a ?f3) c = fd_sent ?f3 c"
      using open3(1) by (auto simp: on_closing_def on_close_def)
    then show ?thesis
      using sent_while_shut [OF feed_ok_step [OF ok(3), of path a], of c as path] fresh Cons
      by (simp add: feed_run_def)
  qed (simp add: feed_run_def)
  then show ?thesis using open3(2) by (simp add: feed_run_append) (simp add: feed_run_def)
qed

section \<open>What the indexer hands over\<close>

text \<open>The state of the sockets depends on the socket actions only.\<close>

lemma step_readyState:
  assumes "feed_ok f" and "feed_ok g" and "fd_readyState f = fd_readyState g"
  shows "fd_readyState (feed_step path act f) = fd_readyState (feed_step path act g)"
  using assms by (cases act) (simp_all add: on_upgrade_def on_closing_def on_close_def)

lemma run_readyState:
  assumes "feed_ok f" and "feed_ok g" and "fd_readyState f = fd_readyState g"
  shows "fd_readyState (feed_run path acts f) = fd_readyState (feed_run path acts g)"
  using assms
proof (induction acts arbitrary: f g)
  case (Cons a acts)
  then show ?case
    using Cons.IH [OF feed_ok_step feed_ok_step step_readyState, of f g path a] by (simp add: feed_run_def)
qed (simp add: feed_run_def)

lemma sent_no_broadcast:
  "broadcasts acts = [] \<Longrightarrow> fd_sent (feed_run path acts f) = fd_sent f"
proof (induction acts arbitrary: f)
  case (Cons a acts)
  then show ?case
    by (cases a) (simp_all add: feed_run_def broadcasts_def on_upgrade_def on_closing_def on_close_def)
qed (simp add: feed_run_def)

text \<open>The events that find the client open, when the socket actions up to each of them have happened.\<close>

definition open_at :: "string \<Rightarrow> (nat \<Rightarrow> FeedAction list) \<Rightarrow> nat \<Rightarrow> WebSocketFeed \<Rightarrow> nat \<Rightarrow> nat \<Rightarrow> bool" where
  "open_at path sched i f c k \<longleftrightarrow>
     fd_readyState (feed_run path (concat (map sched [i..<Suc k])) f) c = Some WsOpen"

definition heard :: "string \<Rightarrow> (nat \<Rightarrow> FeedAction list) \<Rightarrow> nat \<Rightarrow> WebSocketFeed \<Rightarrow> nat \<Rightarrow> LiveFeedEvent list \<Rightarrow> LiveFeedEvent list" where
  "heard path sched i f c events = map snd (filter (\<lambda>(k, event). open_at path sched i f c k) (enumerate i events))"

lemma heard_Cons:
  assumes "feed_ok f"
  shows "heard path sched i f c (ev # evs) =
    (if open_at path sched i f c i then [ev] else []) @
    heard path sched (Suc i) (broadcast ev (feed_run path (sched i) f)) c evs"
proof -
  let ?f1 = "feed_run path (sched i) f"
  have ok: "feed_ok ?f1" "feed_ok (broadcast ev ?f1)"
    using feed_ok_run [OF assms] feed_ok_step [of ?f1 path "Broadcast ev"] by simp_all
  have "open_at path sched i f c k = open_at path sched (Suc i) (broadcast ev ?f1) c k" if "i < k" for k
    using that run_readyState [OF ok, of path "concat (map sched [Suc i..<Suc k])"] ok(1)
    by (simp add: open_at_def upt_conv_Cons feed_run_append del: upt_Suc)
  moreover have "i < k" if "(k, e) \<in> set (enumerate (Suc i) evs)" for k e
    using that by (auto simp: in_set_enumerate_eq)
  ultimately have "filter (\<lambda>(k, event). open_at path sched i f c k) (enumerate (Suc i) evs) =
      filter (\<lambda>(k, event). open_at path sched (Suc i) (broadcast ev ?f1) c k) (enumerate (Suc i) evs)"
    by (intro filter_cong) auto
  then show ?thesis by (simp add: heard_def)
qed

lemma weave_sent:
  assumes "feed_ok f" and quiet: "\<And>k. broadcasts (sched k) = []"
  shows "fd_sent (feed_run path (weave sched i evs) f) c = fd_sent f c @ heard path sched i f c evs"
  using assms(1)
proof (induction evs arbitrary: i f)
  case Nil
  then show ?case by (simp add: heard_def sent_no_broadcast [OF quiet])
next
  case (Cons ev evs)
  let ?f1 = "feed_run path (sched i) f"
  have ok: "feed_ok ?f1" "feed_ok (broadcast ev ?f1)"
    using feed_ok_run [OF Cons.prems] feed_ok_step [of ?f1 path "Broadcast ev"] by simp_all
  have "feed_run path (weave sched i (ev # evs)) f = feed_run path (weave sched (Suc i) evs) (broadcast ev ?f1)"
    by (simp add: feed_run_append) (simp add: feed_run_def)
  then show ?case
    using Cons.IH [OF ok(2), of "Suc i"] ok(1)
    by (simp add: heard_Cons [OF Cons.prems] sent_no_broadcast [OF quiet] open_at_def)
qed

text \<open>A client that is open and never closed hears everything.\<close>

lemma heard_all:
  assumes "feed_ok f" and "fd_readyState f c = Some WsOpen" and "\<And>k. Closing c \<notin> set (sched k) \<and> Close c \<notin> set (sched k)"
  shows "heard path sched i f c evs = evs"
proof -
  have "open_at path sched i f c k" for k
    unfolding open_at_def using sent_while_open [OF assms(1,2), of "concat (map sched [i..<Suc k])" path] assms(3)
    by (auto simp del: upt_Suc)
  then show ?thesis by (simp add: heard_def)
qed

lemma feed_grows_dbM: "preserves (\<lambda>w. prefix evs (w_feed w)) (dbM m)"
  by (simp add: preserves_def dbM_def js_simps)

lemma feed_grows_onIndexed: "preserves (\<lambda>w. prefix evs (w_feed w)) (onIndexed ev)"
  unfolding onIndexed_def by (rule preserves_modify) simp

lemma feed_grows_state: "preserves (\<lambda>w. prefix evs (w_feed w)) (modifyM (\<lambda>w. w\<lparr>w_state := g w\<rparr>))"
  by (rule preserves_modify) simp

lemmas feed_grows_intros = preserves_intros feed_grows_dbM feed_grows_onIndexed feed_grows_state

lemma feed_grows_processBlock: "preserves (\<lambda>w. prefix evs (w_feed w)) (processBlock env rpc n head)"
  unfolding processBlock_def process_tx_def by (intro feed_grows_intros)

lemma feed_grows_indexToHead: "preserves (\<lambda>w. prefix evs (w_feed w)) (indexToHead env rpc)"
  unfolding indexToHead_def process_range_def Let_def by (intro feed_grows_intros feed_grows_processBlock)

lemma feed_grows_indexBlockNumbers: "preserves (\<lambda>w. prefix evs (w_feed w)) (indexBlockNumbers env rpc ns)"
  unfolding indexBlockNumbers_def Let_def by (intro feed_grows_intros feed_grows_processBlock)

lemma with_feed_sent:
  assumes "\<And>evs. preserves (\<lambda>w. prefix evs (w_feed w)) m" and "with_feed path sched m (w, f) = (r, w', f')"
    and "feed_ok f" and "\<And>k. broadcasts (sched k) = []"
  obtains evs where "w_feed w' = w_feed w @ evs" and "\<And>c. fd_sent f' c = fd_sent f c @ heard path sched 0 f c evs"
proof -
  have run: "m w = (r, w')" and f': "f' = feed_run path (weave sched 0 (drop (length (w_feed w)) (w_feed w'))) f"
    using assms(2) by (auto simp: with_feed_def split: prod.splits)
  have "prefix (w_feed w) (w_feed w')" using preserves_run [OF assms(1) run] by simp
  then obtain evs where evs: "w_feed w' = w_feed w @ evs" by (auto elim: prefixE)
  show thesis
    by (rule that [OF evs]) (use f' evs weave_sent [OF assms(3,4)] in simp)
qed

definition tx_event :: "int \<Rightarrow> FinalityStatus \<Rightarrow> RpcTransaction \<Rightarrow> TransactionRow \<Rightarrow> LiveFeedEvent" where
  "tx_event n st tx row = TxEvent (rt_hash tx) (number_str (JNum n)) (rt_from tx)
     (case rt_to tx of None \<Rightarrow> '''' | Some a \<Rightarrow> a) (tx_value row) st"

lemma process_txs_feed:
  assumes "forM txs (process_tx rpc n st) w = (Inr (), w')"
  shows "\<exists>rows. map (\<lambda>tx. tx_row rpc n tx st) txs = map Inr rows \<and>
    w_feed w' = w_feed w @ map2 (tx_event n st) txs rows"
  using assms
proof (induction txs arbitrary: w)
  case (Cons tx txs)
  from Cons.prems obtain w1 where t: "process_tx rpc n st tx w = (Inr (), w1)"
    and rest: "forM txs (process_tx rpc n st) w1 = (Inr (), w')"
    by (auto elim: thenM_InrE)
  obtain row where row: "tx_row rpc n tx st = Inr row" and f: "w_feed w1 = w_feed w @ [tx_event n st tx row]"
    using t unfolding process_tx_def tx_event_def
    by (elim bindM_InrE liftS_InrE thenM_InrE dbM_InrE onIndexed_InrE) simp
  obtain rows where "map (\<lambda>tx. tx_row rpc n tx st) txs = map Inr rows"
    and "w_feed w' = w_feed w1 @ map2 (tx_event n st) txs rows"
    using Cons.IH [OF rest] by blast
  with row f show ?case by (intro exI [of _ "row # rows"]) simp
qed (simp add: run_simps)

lemma block_body_feed:
  assumes "block_body env rpc n head b st w = (Inr (), w')"
  shows "\<exists>rows. map (\<lambda>tx. tx_row rpc n tx st) (rb_transactions b) = map Inr rows \<and>
    w_feed w' = w_feed w @ map2 (tx_event n st) (rb_transactions b) rows"
proof -
  obtain w0 w1 where txs: "forM (rb_transactions b) (process_tx rpc n st) w0 = (Inr (), w1)"
    and "w_feed w0 = w_feed w" and "w_feed w' = w_feed w1"
    using assms unfolding block_body_def by (elim thenM_InrE dbM_InrE) simp
  then show ?thesis using process_txs_feed [OF txs] by simp
qed

lemma processBlock_feed:
  assumes run: "processBlock env rpc n head w = (Inr x, w')" and b: "getBlockByNumber rpc n = Some b"
    and depth: "getConfirmationDepth env = Inr depth"
  shows "\<exists>rows. map (\<lambda>tx. tx_row rpc n tx (depth_status depth head n)) (rb_transactions b) = map Inr rows \<and>
    w_feed w' = w_feed w @ BlockEvent (number_str (JNum n)) (rb_hash b) (rb_timestamp b) (depth_status depth head n) #
      map2 (tx_event n (depth_status depth head n)) (rb_transactions b) rows"
proof -
  obtain st row d1 d2 w2 where fin: "finalityStatusForBlock env (JNum n) (JNum head) False = Inr st"
    and body: "block_body env rpc n head b st
      (w\<lparr>w_db := d2, w_feed := w_feed w @ [BlockEvent (number_str (JNum n)) (rb_hash b) (rb_timestamp b) st]\<rparr>)
      = (Inr (), w2)" and w': "w_feed w' = w_feed w2"
    by (rule processBlock_InrE [OF run b]) simp
  have st: "st = depth_status depth head n"
    using fin finality_of_depth [OF depth] by (simp add: depth_status_def)
  show ?thesis using block_body_feed [OF body] w' st by simp
qed

end
