(* ===== verification/ApiProps.thy ===== *)
theory ApiProps
  imports EvmFacts LiveFeed
begin

text \<open>
  The properties of the interface over the database the indexer writes, each with its witness: what
  the rows of an indexed database look like, solvency, receipts, pages, stakes, governance, the
  Etherscan lists, contract verification, the server as a whole and the live feed.
\<close>

interpretation wf_inv: indexer_invariant db_wf
proof
  show "db_wf empty_db" by (rule empty_db_wf)
qed (intro jobs_keep_wf preserves_intros)+

section \<open>Samples\<close>

definition sample_pg :: Pg where
  "sample_pg = \<lparr>pg_collate = (\<lambda>s. s), pg_numeric = (\<lambda>s. bindS (numeric_in s) (\<lambda>v. Inr (Some v))),
     pg_message = (\<lambda>_. ''error''), pg_id = (\<lambda>_ n. int n + 1)\<rparr>"

definition stake_of :: "string \<Rightarrow> string \<Rightarrow> string \<Rightarrow> StakeAsset \<Rightarrow> string \<Rightarrow> StakingEventRow" where
  "stake_of ty staker amount asset validator = \<lparr>st_blockNumber = JNum 1, st_transactionHash = ''0xt1'', st_eventType = ty,
     st_stakerAddress = staker, st_amount = amount, st_stakeAsset = asset, st_validatorAddress = Some validator,
     st_finalityStatus = Finalized\<rparr>"

definition validator_event :: "string \<Rightarrow> string \<Rightarrow> int \<Rightarrow> ValidatorEventRow" where
  "validator_event ty a bps = \<lparr>ve_blockNumber = JNum 1, ve_transactionHash = ''0xt1'', ve_eventType = ty,
     ve_validatorAddress = a, ve_amount = None, ve_commissionBps = JNum bps, ve_jailed = (ty = ''jailed''),
     ve_elected = (ty = ''elected''), ve_finalityStatus = Finalized\<rparr>"

definition bridge_of :: "BridgeState \<Rightarrow> string \<Rightarrow> BridgeTransferRow" where
  "bridge_of st amount = \<lparr>br_routeAsset = Paxg, br_rootAmount = amount, br_childAmount = amount,
     br_bridgeState = st, br_finalityStatus = Finalized, br_rootTxHash = Some ''0xt1'', br_childTxHash = None,
     br_direction = Deposit, br_sourceLayer = Ethereum, br_receiptCorrelationId = ''0xcc'', br_amountExact = True\<rparr>"

definition api_db :: db where
  "api_db = empty_db\<lparr>
     staking_events := [stake_of ''stake'' ''0xd1'' ''50'' Gilt ''0xa1'', stake_of ''stake'' ''0xd2'' ''7'' GoldId1 ''0xa1'',
       stake_of ''unstake'' ''0xd2'' ''2'' GoldId1 ''0xa1'', stake_of ''unbond'' ''0xd1'' ''50'' Gilt ''0xa1'',
       stake_of ''stake'' ''0xd1'' ''9'' GoldId2 ''0xa2''],
     validator_events := [validator_event ''created'' ''0xa1'' 500, validator_event ''jailed'' ''0xa1'' 0],
     bridge_transfers := [bridge_of Locked ''3'', bridge_of BurnedOrDebited ''2'', bridge_of Released ''2'']\<rparr>"

lemma api_db_rows: "gold_rows api_db"
  by code_simp

section \<open>What an indexed database holds\<close>

text \<open>
  C8. In every database the indexer can leave, also after throwing half-way, the amounts of bridge and
  staking rows are integers, only stakes of gold are withdrawn as \<^verbatim>\<open>unstake\<close>, the flags of a validator
  event are those of its type, governance events are the four types of the job with a proposal id, no
  checkpoint is diverged, and no contract has bytecode.
\<close>

theorem indexed_rows:
  assumes "reached w"
  shows "gold_rows (w_db w) \<and> no_bytecode (w_db w)"
  using assms by (simp add: rows_inv.in_reached code_inv.in_reached)

theorem indexed_rows_witness: "gold_rows (w_db world_a) \<and> no_bytecode (w_db world_a)"
proof -
  have "reached sample_start" unfolding sample_start_def by (rule reached_start)
  then have "reached world_a" using reached_head [of sample_start sample_env chain_a] by (simp add: run_a)
  then show ?thesis by (rule indexed_rows)
qed

section \<open>Solvency\<close>

text \<open>
  C9. After a call of \<^verbatim>\<open>indexToHead\<close> that returns, \<^verbatim>\<open>computeSolvency\<close> returns for both assets: what is
  locked on Ethereum is the sum of the finalized locks less the finalized releases, and the gold
  supply is what the finalized transfers minted less what they burned.
\<close>

theorem solvency_reported:
  assumes "reached w" and "indexToHead env rpc w = (Inr h, w')" and "0 < lastIndexedHead (w_state w')"
    and "pg_numeric pg ''1'' = Inr (Some (NumInt 1))" and "pg_numeric pg ''2'' = Inr (Some (NumInt 2))"
  shows "computeSolvency pg (w_db w') = Inr
    \<lparr>sr_paxg = \<lparr>sa_routeAsset = Paxg, sa_goldTokenId = ''1'',
       sa_lockedOnEthereum = bigint_str 10 (bridge_total Locked Paxg (w_db w') - bridge_total Released Paxg (w_db w')),
       sa_goldSupply = bigint_str 10 (net_supply (NumInt 1) (token_transfers (w_db w')))\<rparr>,
     sr_xaut = \<lparr>sa_routeAsset = Xaut, sa_goldTokenId = ''2'',
       sa_lockedOnEthereum = bigint_str 10 (bridge_total Locked Xaut (w_db w') - bridge_total Released Xaut (w_db w')),
       sa_goldSupply = bigint_str 10 (net_supply (NumInt 2) (token_transfers (w_db w')))\<rparr>\<rparr>"
proof -
  have "reached w'" using reached_head [OF assms(1), of env rpc] assms(2) by simp
  then have "gold_rows (w_db w')" and "db_wf (w_db w')" by (simp_all add: rows_inv.in_reached wf_inv.in_reached)
  then show ?thesis
    using assms(4,5) indexToHead_supply [OF assms(2,3)]
    by (simp add: computeSolvency_def outstanding_int goldSupply_def supply_of_at)
qed

theorem solvency_reported_witness:
  "computeSolvency sample_pg (w_db world_a) = Inr
    \<lparr>sr_paxg = \<lparr>sa_routeAsset = Paxg, sa_goldTokenId = ''1'', sa_lockedOnEthereum = ''0'', sa_goldSupply = ''0''\<rparr>,
     sr_xaut = \<lparr>sa_routeAsset = Xaut, sa_goldTokenId = ''2'', sa_lockedOnEthereum = ''0'', sa_goldSupply = ''0''\<rparr>\<rparr>"
proof -
  have start: "reached sample_start" unfolding sample_start_def by (rule reached_start)
  have head: "0 < lastIndexedHead (w_state world_a)" by (simp add: world_a_def)
  have reads: "pg_numeric sample_pg ''1'' = Inr (Some (NumInt 1))" "pg_numeric sample_pg ''2'' = Inr (Some (NumInt 2))"
    by code_simp+
  show ?thesis
    using solvency_reported [OF start run_a head reads]
    by (simp add: world_a_def empty_db_def bridge_total_def net_supply_def bigint_str_0)
qed

text \<open>
  C19. The locked total of a receiver's second deposit replaces the first: when a finalized lock is
  recorded and another lock of the same correlation id and asset is inserted, the reported total
  changes by the difference of the two amounts instead of growing by the second.
\<close>

theorem second_deposit_replaces:
  assumes "gold_rows d" and "bridge_ok row" and "insertBridgeTransfer row d = (Inr (), d')"
    and "filter (\<lambda>r. br_receiptCorrelationId r = br_receiptCorrelationId row \<and> br_bridgeState r = Locked)
           (bridge_transfers d) = [old]"
    and "br_bridgeState row = Locked" "br_routeAsset row = asset" "br_finalityStatus row = Finalized" "br_sourceLayer row = Ethereum"
    and "br_routeAsset old = asset" "br_finalityStatus old = Finalized" "br_sourceLayer old = Ethereum"
  shows "\<exists>x. outstandingLockedTotal asset d = Inr (bigint_str 10 x) \<and>
    outstandingLockedTotal asset d' =
      Inr (bigint_str 10 (x - amount_val (br_rootAmount old) + amount_val (br_rootAmount row)))"
proof -
  have "gold_rows d'"
    using preserves_run [OF gold_rows_insertBridge [OF assms(2)] assms(3) assms(1)] .
  moreover have "bridge_total Locked asset d' =
      bridge_total Locked asset d - amount_val (br_rootAmount old) + amount_val (br_rootAmount row)"
    by (rule insert_bridge_total [OF assms(3-11)])
  moreover have "bridge_total Released asset d' = bridge_total Released asset d"
    by (rule insert_other_state [OF assms(3,5)]) simp
  ultimately have "bridge_total Locked asset d' - bridge_total Released asset d' =
      (bridge_total Locked asset d - bridge_total Released asset d) - amount_val (br_rootAmount old) + amount_val (br_rootAmount row)"
    by simp
  then have "outstandingLockedTotal asset d' = Inr (bigint_str 10 ((bridge_total Locked asset d - bridge_total Released asset d) -
      amount_val (br_rootAmount old) + amount_val (br_rootAmount row)))"
    using outstanding_int [OF \<open>gold_rows d'\<close>] by simp
  then show ?thesis using outstanding_int [OF assms(1)] by blast
qed

theorem second_deposit_replaces_witness:
  "outstandingLockedTotal Paxg api_db = Inr ''1'' \<and>
   outstandingLockedTotal Paxg (snd (insertBridgeTransfer (bridge_of Locked ''8'') api_db)) = Inr ''6''"
proof -
  have run: "insertBridgeTransfer (bridge_of Locked ''8'') api_db =
      (Inr (), snd (insertBridgeTransfer (bridge_of Locked ''8'') api_db))"
  proof -
    have "fst (insertBridgeTransfer (bridge_of Locked ''8'') api_db) = Inr ()" by code_simp
    then show ?thesis by (simp add: prod_eq_iff)
  qed
  have ok: "bridge_ok (bridge_of Locked ''8'')" by code_simp
  have old: "filter (\<lambda>r. br_receiptCorrelationId r = br_receiptCorrelationId (bridge_of Locked ''8'') \<and> br_bridgeState r = Locked)
      (bridge_transfers api_db) = [bridge_of Locked ''3'']"
    by (simp add: api_db_def bridge_of_def)
  have now: "outstandingLockedTotal Paxg api_db = Inr ''1''" by code_simp
  obtain x where "outstandingLockedTotal Paxg api_db = Inr (bigint_str 10 x)"
    and after: "outstandingLockedTotal Paxg (snd (insertBridgeTransfer (bridge_of Locked ''8'') api_db)) =
      Inr (bigint_str 10 (x - amount_val ''3'' + amount_val ''8''))"
    using second_deposit_replaces [OF api_db_rows ok run old] by (auto simp: bridge_of_def)
  then have "amount_val (bigint_str 10 x) = amount_val ''1''" using now by simp
  moreover have "amount_val ''1'' = 1" "amount_val ''3'' = 3" "amount_val ''8'' = 8" by code_simp+
  moreover have "bigint_str 10 6 = ''6''" by code_simp
  ultimately show ?thesis using now after by simp
qed

section \<open>Receipts\<close>

text \<open>
  C12. A redemption receipt is found exactly for a correlation id with a burn or a release.  Its stages
  are the bridge rows of that id, ordered by stage, and it is complete exactly when it has a burn and
  a release and every row of the id is finalized.
\<close>

theorem redemption_receipt_exact:
  assumes "c \<noteq> ''''"
  shows "\<exists>o'. fetchRedemptionReceiptById pg c d = Inr o' \<and>
    (o' \<noteq> None \<longleftrightarrow> (\<exists>r \<in> set (bridge_transfers d). br_receiptCorrelationId r = c \<and>
       br_bridgeState r \<in> {BurnedOrDebited, Released})) \<and>
    (\<forall>r. o' = Some r \<longrightarrow>
       set (rr_stages r) = mapReceiptStage ` {x \<in> set (bridge_transfers d). br_receiptCorrelationId x = c} \<and>
       sorted (map (\<lambda>s. stageRank (rs_bridgeState s)) (rr_stages r)) \<and>
       (rr_complete r \<longleftrightarrow>
          (\<exists>x \<in> set (bridge_transfers d). br_receiptCorrelationId x = c \<and> br_bridgeState x = BurnedOrDebited) \<and>
          (\<exists>x \<in> set (bridge_transfers d). br_receiptCorrelationId x = c \<and> br_bridgeState x = Released) \<and>
          (\<forall>x \<in> set (bridge_transfers d). br_receiptCorrelationId x = c \<longrightarrow> br_finalityStatus x = Finalized)))"
  unfolding receipt_by_id [OF assms] using receipt_stages receipt_complete_iff receipt_sorted by auto

theorem redemption_receipt_exact_witness:
  "\<exists>r. fetchRedemptionReceiptById sample_pg ''0xcc'' api_db = Inr (Some r) \<and> rr_complete r"
proof -
  have rows: "bridge_transfers api_db = [bridge_of Locked ''3'', bridge_of BurnedOrDebited ''2'', bridge_of Released ''2'']"
    by (simp add: api_db_def)
  obtain o' where f: "fetchRedemptionReceiptById sample_pg ''0xcc'' api_db = Inr o'" and "o' \<noteq> None"
    and c: "\<And>r. o' = Some r \<Longrightarrow> rr_complete r"
    using redemption_receipt_exact [of "''0xcc''" sample_pg api_db] by (auto simp: rows bridge_of_def)
  then show ?thesis by auto
qed

section \<open>Pages\<close>

text \<open>
  C17. The pages of the five event lists, of any size from 1 to 100, put together are the whole list
  in the order of the ids, nothing twice and nothing left out, as soon as enough are asked for.
\<close>

theorem pages_cover:
  assumes "1 \<le> n" and "n \<le> 100" and "m * n < 9007199254740992"
    and "length (staking_events d) \<le> m * n" and "length (validator_events d) \<le> m * n"
    and "length (checkpoints d) \<le> m * n" and "length (governance_events d) \<le> m * n"
  shows "pages (\<lambda>ps. fetchStakingEvents pg ps d) ps n m = Inr (map staking_item (order_by fst (staking_rows pg ps d))) \<and>
    pages (\<lambda>ps. fetchValidatorEvents pg ps d) ps n m = Inr (map validator_item (order_by fst (validator_rows pg ps d))) \<and>
    pages (\<lambda>ps. fetchDelegationEvents pg ps d) ps n m = Inr (map (delegation_item pg d) (order_by fst (delegation_rows pg ps d))) \<and>
    pages (\<lambda>ps. fetchCheckpoints pg ps d) ps n m = Inr (map checkpoint_item (order_by fst (checkpoint_rows pg ps d))) \<and>
    pages (\<lambda>ps. fetchGovernanceEvents pg ps d) ps n m = Inr (map governance_item (order_by fst (governance_rows pg ps d)))"
proof -
  have m: "m * n < 2 ^ 53" using assms(3) by simp
  have len: "length (filter p (with_ids pg t rows)) \<le> length rows" for p t and rows :: "'r list"
    using length_filter_le [of p "with_ids pg t rows"] by (simp add: with_ids_def)
  note fits = le_trans [OF len]
  show ?thesis
    using staking_pages.pages_listing [OF assms(1,2) m, where pg = pg and d = d and ps = ps] validator_pages.pages_listing [OF assms(1,2) m, where pg = pg and d = d and ps = ps]
      delegation_pages.pages_listing [OF assms(1,2) m, where pg = pg and d = d and ps = ps] checkpoint_pages.pages_listing [OF assms(1,2) m, where pg = pg and d = d and ps = ps]
      governance_pages.pages_listing [OF assms(1,2) m, where pg = pg and d = d and ps = ps] assms(4-7)
    by (simp add: staking_rows_def validator_rows_def delegation_rows_def checkpoint_rows_def governance_rows_def fits)
qed

theorem pages_cover_witness:
  "pages (\<lambda>ps. fetchStakingEvents sample_pg ps api_db) [] 2 3 =
     Inr (map staking_item (order_by fst (staking_rows sample_pg [] api_db)))"
proof -
  have len: "length (staking_events api_db) = 5" "length (validator_events api_db) = 2"
    "length (checkpoints api_db) = 0" "length (governance_events api_db) = 0"
    by (simp_all add: api_db_def empty_db_def)
  show ?thesis using pages_cover [of 2 3 api_db sample_pg "[]"] by (simp add: len)
qed

text \<open>
  A page that is no number makes every event list of the Gold interface throw, where the
  Etherscan interface takes the first page: the default applies only when the parameter is absent.
\<close>

theorem nonnumeric_page_throws:
  assumes "param ps ''page'' = Some s" and "parseInt 10 s = JNaN"
  shows "fetchStakingEvents pg ps d = Inl (SqlError (InvalidText ''bigint'')) \<and>
    fetchValidatorEvents pg ps d = Inl (SqlError (InvalidText ''bigint'')) \<and>
    fetchDelegationEvents pg ps d = Inl (SqlError (InvalidText ''bigint'')) \<and>
    fetchCheckpoints pg ps d = Inl (SqlError (InvalidText ''bigint'')) \<and>
    fetchGovernanceEvents pg ps d = Inl (SqlError (InvalidText ''bigint'')) \<and>
    fetchRedemptionReceipts pg ps d = Inl (SqlError (InvalidText ''bigint'')) \<and>
    pgn_page (evm_parsePagination ps) = JNum 1"
  using staking_pages.fetch_page_NaN [OF assms] validator_pages.fetch_page_NaN [OF assms]
    delegation_pages.fetch_page_NaN [OF assms] checkpoint_pages.fetch_page_NaN [OF assms]
    governance_pages.fetch_page_NaN [OF assms] receipt_pages.fetch_page_NaN [OF assms] evm_page_NaN [OF assms] by simp

theorem nonnumeric_page_throws_witness:
  "fetchCheckpoints sample_pg [(''page'', ''last'')] api_db = Inl (SqlError (InvalidText ''bigint''))"
proof -
  have "param [(''page'', ''last'')] ''page'' = Some ''last''" by (simp add: param_def)
  moreover have "parseInt 10 ''last'' = JNaN" by code_simp
  ultimately show ?thesis using nonnumeric_page_throws by blast
qed

section \<open>Stakes\<close>

text \<open>
  C16. Two views of the same stakes agree: \<^verbatim>\<open>computeValidatorSet\<close> returns a row for every validator with a
  finalized event, and the voting power of a row is the sum of what \<^verbatim>\<open>computeDelegations\<close> lists for that
  validator, over all delegators and assets.
\<close>

theorem voting_power_is_delegated:
  assumes "gold_rows d"
  shows "\<exists>rows. computeValidatorSet pg d = Inr rows \<and>
    vs_validatorAddress ` set rows =
      ve_validatorAddress ` {r \<in> set (validator_events d). ve_finalityStatus r = Finalized} \<and>
    (\<forall>row \<in> set rows. vs_votingPower row =
       bigint_str 10 (delegated_to (vs_validatorAddress row) (fst (computeDelegations d))))"
proof -
  obtain rows where r: "computeValidatorSet pg d = Inr rows"
    and row: "\<And>row. row \<in> set rows \<Longrightarrow> validator_set_row pg d (vs_validatorAddress row) = Inr row"
    and dom: "vs_validatorAddress ` set rows =
      ve_validatorAddress ` {r \<in> set (validator_events d). ve_finalityStatus r = Finalized}"
    using computeValidatorSet_eval [OF assms, of pg] by blast
  have "vs_votingPower row = bigint_str 10 (delegated_to (vs_validatorAddress row) (fst (computeDelegations d)))"
    if "row \<in> set rows" for row
    using validator_set_power [OF assms row [OF that]] by (simp add: delegated_to_net [OF assms])
  with r dom show ?thesis by blast
qed

theorem voting_power_is_delegated_witness:
  "\<exists>row. computeValidatorSet sample_pg api_db = Inr [row] \<and> vs_votingPower row = ''55''"
proof -
  obtain row where run: "computeValidatorSet sample_pg api_db = Inr [row]" and a: "vs_validatorAddress row = ''0xa1''"
  proof -
    have "map_sum (\<lambda>e. e) (map vs_validatorAddress) (computeValidatorSet sample_pg api_db) = Inr [''0xa1'']" by code_simp
    then show ?thesis using that by (cases "computeValidatorSet sample_pg api_db") auto
  qed
  have "vs_votingPower row = bigint_str 10 (delegated_to ''0xa1'' (fst (computeDelegations api_db)))"
    using voting_power_is_delegated [OF api_db_rows, of sample_pg] by (auto simp: run a)
  moreover have "bigint_str 10 (delegated_to ''0xa1'' (fst (computeDelegations api_db))) = ''55''" by code_simp
  ultimately show ?thesis using run by auto
qed

text \<open>
  C20. Gilt that was unbonded still counts: the gilt stake of a validator is the sum of everything ever
  staked in gilt, whatever was unbonded since, because the job records the withdrawal of gilt as
  \<^verbatim>\<open>unbond\<close> and the views subtract only \<^verbatim>\<open>unstake\<close>.
\<close>

theorem unbonded_gilt_counts:
  assumes "gold_rows d"
  shows "net_stake (\<lambda>r. st_validatorAddress r = Some v \<and> st_stakeAsset r = Gilt) d =
    NumInt (sum_list (map (\<lambda>r. amount_val (st_amount r))
      (filter (\<lambda>r. st_finalityStatus r = Finalized \<and> st_eventType r = ''stake'' \<and>
                   st_validatorAddress r = Some v \<and> st_stakeAsset r = Gilt) (staking_events d))))"
proof -
  let ?p = "\<lambda>r. st_validatorAddress r = Some v \<and> st_stakeAsset r = Gilt"
  let ?q = "\<lambda>r. st_finalityStatus r = Finalized \<and> st_eventType r = ''stake'' \<and> ?p r"
  have "filter ?p (stake_rows d) = filter ?q (staking_events d)"
    using assms by (auto simp: stake_rows_def gold_rows_def staking_ok_def intro!: filter_cong)
  moreover have "map stake_delta_int (filter ?q (staking_events d)) = map (\<lambda>r. amount_val (st_amount r)) (filter ?q (staking_events d))"
    by (simp add: stake_delta_int_def)
  ultimately show ?thesis by (simp only: net_stake_eval [OF assms] net_stake_int_def)
qed

theorem unbonded_gilt_counts_witness:
  "net_stake (\<lambda>r. st_validatorAddress r = Some ''0xa1'' \<and> st_stakeAsset r = Gilt) api_db = NumInt 50"
proof -
  have "sum_list (map (\<lambda>r. amount_val (st_amount r)) (filter (\<lambda>r. st_finalityStatus r = Finalized \<and> st_eventType r = ''stake'' \<and>
      st_validatorAddress r = Some ''0xa1'' \<and> st_stakeAsset r = Gilt) (staking_events api_db))) = 50" by code_simp
  then show ?thesis using unbonded_gilt_counts [OF api_db_rows, of "''0xa1''"] by simp
qed

text \<open>
  The validator reported with a stake does not depend on whom the stake was made to: two
  stakes of one block are listed with the same validator.
\<close>

theorem delegation_validator_by_block:
  assumes "st_blockNumber r = st_blockNumber r'"
  shows "ad_validatorAddress (delegation_item pg d (i, r)) = ad_validatorAddress (delegation_item pg d (j, r'))"
  using assms by (simp add: delegation_item_def lateral_validator_def Let_def)

theorem delegation_validator_by_block_witness:
  "ad_validatorAddress (delegation_item sample_pg api_db (1, stake_of ''stake'' ''0xd1'' ''50'' Gilt ''0xa1'')) =
   ad_validatorAddress (delegation_item sample_pg api_db (5, stake_of ''stake'' ''0xd1'' ''9'' GoldId2 ''0xa2''))"
  by (rule delegation_validator_by_block) (simp add: stake_of_def)

section \<open>Governance and migration\<close>

text \<open>
  C18. The timelock queue lists exactly the finalized queued proposals that were not executed, with
  their time; if one of them was queued with the time 0, which the job stores as null, the board
  throws and lists nothing.
\<close>

theorem governance_board_cases:
  "(if \<exists>q. waiting d q \<and> gov_timelockEta q = None then computeGovernanceBoard pg d = Inl TypeError
    else (\<exists>b. computeGovernanceBoard pg d = Inr b \<and>
      set (gb_timelockQueue b) = {\<lparr>tq_proposalId = gov_proposalId q, tq_timelockEta = unix_text eta\<rparr> | q eta.
        waiting d q \<and> gov_timelockEta q = Some eta}))"
  using board_cases [of d pg] by simp

text \<open>
  On an indexed database the migration status is always \<^verbatim>\<open>INACTIVE\<close> and the chain never diverged: no
  job writes the events these answers are read from.
\<close>

theorem migration_never_reported:
  assumes "gold_rows d"
  shows "fetchMigrationStatus pg d = INACTIVE \<and> \<not> cs_diverged (computeCheckpointStatus pg d)"
proof -
  have *: "set (map fst MIGRATION_EVENT_TYPES) \<inter> {''proposal_created'', ''vote'', ''queued'', ''executed''} = {}" by code_simp
  have none: "gov_eventType r \<notin> set (map fst MIGRATION_EVENT_TYPES)" if "r \<in> set (governance_events d)" for r
  proof -
    have "gov_eventType r \<in> {''proposal_created'', ''vote'', ''queued'', ''executed''}"
      using assms that by (simp add: gold_rows_def governance_ok_def)
    with * show ?thesis by blast
  qed
  have "filter (\<lambda>(i, r). gov_finalityStatus r = Finalized \<and> gov_eventType r \<in> set (map fst MIGRATION_EVENT_TYPES))
      (with_ids pg ''governance_events'' (governance_events d)) = []"
  proof (unfold filter_empty_conv, clarify)
    fix i r
    assume "(i, r) \<in> set (with_ids pg ''governance_events'' (governance_events d))"
      and "gov_eventType r \<in> set (map fst MIGRATION_EVENT_TYPES)"
    moreover have "r \<in> set (governance_events d)"
      using set_with_ids [of pg "''governance_events''" "governance_events d"] calculation(1) by force
    ultimately show False using none by blast
  qed
  moreover have "filter (\<lambda>r. cp_finalityStatus r = Finalized \<and> cp_chainStatus r = Diverged) (checkpoints d) = []"
    using assms by (auto simp: gold_rows_def checkpoint_ok_def filter_empty_conv)
  ultimately show ?thesis
    by (simp add: fetchMigrationStatus_def computeCheckpointStatus_def order_by_desc_def Let_def del: filter_empty_conv)
qed

theorem migration_never_reported_witness: "fetchMigrationStatus sample_pg api_db = INACTIVE"
  using migration_never_reported [OF api_db_rows, of sample_pg] by simp

text \<open>
  A proposal queued with the time 0 is stored with a null time, and as long as it is not executed the
  board throws.
\<close>

lemma decode_zero_eta:
  assumes "0 \<le> pid" and "pid < 2 ^ 256" and "rl_topics log = PROPOSAL_QUEUED_TOPIC # ts"
    and "rl_data log = abiEncodeStatic [pid, 0]"
  shows "decodeGovernanceEvent log st = Inr (Some (governance_row log st ''queued'' None None pid None None))"
proof -
  have "\<forall>w \<in> set [pid, 0]. word_ok w" using assms(1,2) by (simp add: word_ok_def)
  then have ws: "abiDecodeStatic (rl_data log) 2 = Inr [pid, 0]"
    using abiDecodeStatic_prefix [of "[pid, 0]" 2] assms(4) by simp
  have t: "topic0_is log q \<longleftrightarrow> toLowerCase PROPOSAL_QUEUED_TOPIC = q" for q
    by (auto simp: topic0_is_def topic0_def assms(3))
  have "toLowerCase PROPOSAL_QUEUED_TOPIC \<noteq> PROPOSAL_CREATED_TOPIC" "toLowerCase PROPOSAL_QUEUED_TOPIC \<noteq> VOTE_CAST_TOPIC"
    "toLowerCase PROPOSAL_QUEUED_TOPIC = PROPOSAL_QUEUED_TOPIC" by code_simp+
  then show ?thesis by (simp add: decodeGovernanceEvent_def t ws)
qed

theorem zero_eta_breaks_board:
  assumes "0 \<le> pid" and "pid < 2 ^ 256" and "rl_topics log = PROPOSAL_QUEUED_TOPIC # ts"
    and "rl_data log = abiEncodeStatic [pid, 0]" and "processGovernanceEvents [log] Finalized d = (Inr (), d')"
    and "\<forall>e \<in> set (governance_events d). gov_eventType e = ''executed'' \<longrightarrow> gov_proposalId e \<noteq> Some (proposalIdFromWord pid)"
  shows "computeGovernanceBoard pg d' = Inl TypeError"
proof -
  let ?r = "governance_row log Finalized ''queued'' None None pid None None"
  have "topicMatches (topic0 (rl_topics log)) GOLD_GOVERNANCE_EVENT_TOPICS"
  proof -
    have "topicMatches (Some PROPOSAL_QUEUED_TOPIC) GOLD_GOVERNANCE_EVENT_TOPICS" by code_simp
    then show ?thesis by (simp add: topic0_def assms(3))
  qed
  then have "insertGovernanceEvent ?r d = (Inr (), d')"
    using assms(5) decode_zero_eta [OF assms(1-4), of Finalized]
    by (simp add: processGovernanceEvents_def bindM_def liftS_def thenM_returnM)
  then have ev: "governance_events d' = governance_events d @ [?r]"
    by (auto simp: insertGovernanceEvent_def ensure_optional_def governance_row_def truthy_def run_then returnM_def
      elim!: statement_InrE)
  have "waiting d' ?r"
    using assms(6) by (auto simp: waiting_def ev list_ex_iff sql_eq_def governance_row_def)
  moreover have "gov_timelockEta ?r = None" by (simp add: governance_row_def)
  ultimately show ?thesis by (intro board_cases(1)) blast
qed

section \<open>The Etherscan lists\<close>

text \<open>
  C13. Over a well-formed database the transactions of an account are listed exactly: the pages are
  those of one list that holds every transaction of the address in the block range once, if neither it
  nor its block is reverted, in the order of block and index, ascending or descending as asked.
\<close>

theorem account_txlist_exact:
  assumes "db_wf (s_db s)" and "requireAddress ps = Inr a" and "pg_bigint (fst (parseBlockRange ps)) = Inr lo"
    and "pg_bigint (snd (parseBlockRange ps)) = Inr hi"
    and "1 \<le> k" and "1 \<le> n" and "n \<le> 100" and "k * n < 9007199254740992"
  shows "let L = account_txs a lo hi (sortOrder ps) (s_db s) in
    accountTxList (evm_page_params k n @ ps) s =
      Inr (json_list ''No transactions found'' formatTransactionRow (take n (drop ((k - 1) * n) L))) \<and>
    tv_tx ` set L = {t \<in> set (transactions (s_db s)). of_account a lo hi (tx_view (s_db s) t)} \<and>
    distinct (map (\<lambda>v. tx_hash (tv_tx v)) L) \<and>
    sorted (map tx_key (case sortOrder ps of ASC \<Rightarrow> L | DESC \<Rightarrow> rev L))"
proof -
  have kn: "k * n < 2 ^ 53" using assms(8) by simp
  have "sorted (map tx_key (case sortOrder ps of ASC \<Rightarrow> account_txs a lo hi (sortOrder ps) (s_db s)
      | DESC \<Rightarrow> rev (account_txs a lo hi (sortOrder ps) (s_db s))))"
    unfolding account_txs_def by (rule sorted_ordered)
  then show ?thesis
    using accountTxList_page [OF assms(2-7) kn] account_txs_exact [OF assms(1)] by (simp add: Let_def)
qed

definition sample_address :: string where
  "sample_address = ''0x'' @ replicate 40 CHR ''a''"

definition sample_store :: ApiStore where
  "sample_store = \<lparr>s_db = sample_db\<lparr>transactions := [sample_tx_row\<lparr>tx_toAddress := Some sample_address\<rparr>]\<rparr>,
     s_meta = [], s_gilt = (\<lambda>_. NumInt 0)\<rparr>"

theorem account_txlist_exact_witness:
  "tv_tx ` set (account_txs sample_address 0 99999999 DESC (s_db sample_store)) =
     {t \<in> set (transactions (s_db sample_store)). of_account sample_address 0 99999999 (tx_view (s_db sample_store) t)}"
proof -
  let ?ps = "[(''address'', sample_address)]"
  have wf: "db_wf (s_db sample_store)" by code_simp
  have a: "requireAddress ?ps = Inr sample_address" by code_simp
  have lo: "pg_bigint (fst (parseBlockRange ?ps)) = Inr 0" and hi: "pg_bigint (snd (parseBlockRange ?ps)) = Inr 99999999"
    by code_simp+
  have "sortOrder ?ps = DESC" by code_simp
  then show ?thesis
    using account_txlist_exact [OF wf a lo hi, of 1 10] by (simp add: Let_def)
qed

text \<open>
  A block tag that is no number is answered with a message by \<^verbatim>\<open>getblocktxlist\<close> and makes
  \<^verbatim>\<open>getblockbynumber\<close> throw.
\<close>

theorem nonnumeric_block_tag:
  assumes "param ps ''tag'' = Some t" and "param ps ''blockno'' = None" and "t \<noteq> ''''" and "t \<noteq> ''latest''"
    and "parseInt 10 t = JNaN"
  shows "getBlockTxList ps s = Inr (notOk ''Invalid block number'') \<and>
    api_getBlockByNumber ps s = Inl (SqlError (InvalidText ''bigint''))"
  using assms by (simp add: getBlockTxList_def api_getBlockByNumber_def truthy_def pg_bigint_NaN Let_def)

text \<open>
  A module name that an object inherits is not reported as unknown: \<^verbatim>\<open>module=constructor\<close> is answered
  with status 200 and the action's text as the body, whatever the action, and \<^verbatim>\<open>module=__proto__\<close> with 500.
\<close>

theorem inherited_module_names:
  assumes "param (url_searchParams (rq_url req)) ''action'' = Some action" and "action \<noteq> ''''"
    and "url_pathname (rq_url req) = apiPath" and "rq_method req = ''GET''" and "\<not> isOversizedQuery (rq_url req)"
    and "param (url_searchParams (rq_url req)) ''module'' = Some m" and "toLowerCase m \<in> {''constructor'', ''__proto__''}"
  shows "handleEvmRequest env apiPath req s =
    Some (if toLowerCase m = ''constructor'' then \<lparr>hr_status = 200, hr_body = EvmBody (Boxed action)\<rparr>
          else evm_error 500 ''NOTOK'' (error_message (env_pg env) TypeError))"
  using assms by (auto simp: handleEvmRequest_def dispatchEvmApi_def nullish_def truthy_def evm_module_def Let_def)

definition sample_env_api :: Env where
  "sample_env_api = \<lparr>env_pg = sample_pg, env_parser = (\<lambda>_ _. None),
     env_solc = \<lparr>solc_version = ''0.8.20'', solc_bundled = (\<lambda>_. Some \<lparr>so_errors = [], so_contracts = [(''[]'', '''')]\<rparr>),
       solc_releases = FetchFailed, solc_load = (\<lambda>_. None)\<rparr>,
     env_encode = (\<lambda>_ _. EncodeThrows), env_post = (\<lambda>_ _ _. Inl ''offline''), env_rpcUrl = None,
     env_jsonParse = (\<lambda>_. None)\<rparr>"

definition sample_request :: HttpRequest where
  "sample_request = \<lparr>rq_method = ''GET'', rq_url = \<lparr>url_pathname = ''/api'', url_search = ''?module=constructor&action=x'',
     url_searchParams = [(''module'', ''constructor''), (''action'', ''x'')]\<rparr>, rq_body = ''''\<rparr>"

theorem inherited_module_names_witness:
  "handleEvmRequest sample_env_api ''/api'' sample_request sample_store =
     Some \<lparr>hr_status = 200, hr_body = EvmBody (Boxed ''x'')\<rparr>"
proof -
  have "toLowerCase ''constructor'' = ''constructor''" by code_simp
  then show ?thesis
    using inherited_module_names [of sample_request "''x''" "''/api''" "''constructor''" sample_env_api sample_store]
    by (simp add: sample_request_def param_def isOversizedQuery_def MAX_QUERY_BYTES_def)
qed

section \<open>Contract verification\<close>

text \<open>
  C10. A verification changes the store only when the address is a known contract, the source compiled
  under a version without path separators, and the compiled code equals the recorded one up to the
  metadata; then exactly that contract becomes verified, with the source and the ABI of the
  compilation, and nothing else changes.
\<close>

theorem verify_only_matching:
  assumes "handleVerify solc body s = (res, s')" and "s' \<noteq> s"
  shows "\<exists>request c m compiled. sanitizeVerifyRequest body = Inr request \<and>
    \<not> js_includes (vr_compilerVersion request) ''/'' \<and> \<not> js_includes (vr_compilerVersion request) ''..'' \<and>
    contract_at s (vr_address request) = Some (c, m) \<and> compileContract solc request = Inr compiled \<and>
    stripMetadata (toLowerCase (nullish (c_bytecode c) ''0x'')) = stripMetadata (toLowerCase (cd_bytecode compiled)) \<and>
    cm_isVerified (meta_of s' (vr_address request)) \<and>
    cm_sourceCode (meta_of s' (vr_address request)) = Some (vr_source request) \<and>
    cm_abi (meta_of s' (vr_address request)) = Some (cd_abi compiled) \<and>
    (\<forall>a. a \<noteq> vr_address request \<longrightarrow> meta_of s' a = meta_of s a) \<and> s_db s' = s_db s"
  using assms(1)
proof (cases rule: handleVerify_cases)
  case unchanged
  with assms(2) show ?thesis by simp
next
  case (verified request c m compiled r)
  moreover have "\<not> js_includes (vr_compilerVersion request) ''/''" "\<not> js_includes (vr_compilerVersion request) ''..''"
    using verified(1) by (auto simp: sanitizeVerifyRequest_def Let_def split: if_splits sum.splits)
  ultimately show ?thesis using store_verified_effect [OF verified(5)] by (auto simp: bytecodeMatches_def)
qed

definition sample_verify :: json where
  "sample_verify = JsObject [(''address'', JsString sample_address), (''source'', JsString ''interface I {}''),
     (''compilerVersion'', JsString ''v0.8.20'')]"

definition sample_contracts :: ApiStore where
  "sample_contracts = sample_store\<lparr>s_db := (s_db sample_store)\<lparr>contracts := [\<lparr>c_address = sample_address, c_bytecode = None\<rparr>]\<rparr>\<rparr>"

lemma sample_verify_run:
  "map_sum (\<lambda>e. e) jr_status (fst (handleVerify (env_solc sample_env_api) sample_verify sample_contracts)) = Inr 200"
  "s_meta (snd (handleVerify (env_solc sample_env_api) sample_verify sample_contracts)) \<noteq> []"
  by code_simp+

theorem verify_only_matching_witness:
  "\<exists>request. sanitizeVerifyRequest sample_verify = Inr request \<and>
     s_db (snd (handleVerify (env_solc sample_env_api) sample_verify sample_contracts)) = s_db sample_contracts"
proof -
  let ?run = "handleVerify (env_solc sample_env_api) sample_verify sample_contracts"
  have "s_meta sample_contracts = []" by (simp add: sample_contracts_def sample_store_def)
  then have "snd ?run \<noteq> sample_contracts" using sample_verify_run(2) by metis
  then show ?thesis using verify_only_matching [of "env_solc sample_env_api" sample_verify sample_contracts "fst ?run" "snd ?run"] by auto
qed

text \<open>
  C21. On an indexed database no contract has bytecode, so a request is verified only if its source
  compiles to no code at all: an interface verifies every indexed contract, and the true source of a
  contract none.
\<close>

theorem verify_indexed_contracts:
  assumes "no_bytecode (s_db s)" and "sanitizeVerifyRequest body = Inr request"
    and "contract_at s (vr_address request) = Some (c, m)" and "compileContract solc request = Inr compiled"
    and "fst (store_verified request compiled s) = Inr ()"
  shows "if cd_bytecode compiled = ''0x''
    then \<exists>r. fst (handleVerify solc body s) = Inr r \<and> jr_status r = 200 \<and>
      cm_isVerified (meta_of (snd (handleVerify solc body s)) (vr_address request))
    else handleVerify solc body s = (Inr (json_error 400 ''bytecode_mismatch''), s)"
proof -
  have "\<exists>rest. filter (\<lambda>c. c_address c = vr_address request) (contracts (s_db s)) = c # rest"
    using assms(3) by (auto simp: contract_at_def split: list.splits)
  then have "c \<in> set (filter (\<lambda>c. c_address c = vr_address request) (contracts (s_db s)))" by fastforce
  then have "c \<in> set (contracts (s_db s))" by simp
  then have code: "c_bytecode c = None" using assms(1) by (simp add: no_bytecode_def)
  obtain hex where hex: "cd_bytecode compiled = ''0x'' @ hex" using compileContract_prefix [OF assms(4)] by blast
  obtain s' where st: "store_verified request compiled s = (Inr (), s')"
    using assms(5) by (cases "store_verified request compiled s") simp
  show ?thesis
  proof (cases "hex = []")
    case True
    then have "bytecodeMatches (nullish (c_bytecode c) ''0x'') (cd_bytecode compiled)"
      using matches_no_code [of hex] by (simp add: code nullish_def hex)
    then have "snd (handleVerify solc body s) = s'"
      and "\<exists>r. fst (handleVerify solc body s) = Inr r \<and> jr_status r = 200"
      using assms(2-4) by (simp_all add: handleVerify_def run_then returnM_def st)
    then show ?thesis using True hex store_verified_effect(3) [OF st] by simp
  next
    case False
    then have "\<not> bytecodeMatches (nullish (c_bytecode c) ''0x'') (cd_bytecode compiled)"
      using matches_no_code [of hex] by (simp add: code nullish_def hex)
    then show ?thesis using False hex assms(2-4) by (simp add: handleVerify_def)
  qed
qed

theorem verify_indexed_contracts_witness:
  "cm_isVerified (meta_of (snd (handleVerify (env_solc sample_env_api) sample_verify sample_contracts)) sample_address)"
proof -
  obtain request where req: "sanitizeVerifyRequest sample_verify = Inr request" and a: "vr_address request = sample_address"
    and v: "vr_source request = ''interface I {}''" "vr_optimizationRuns request = None" "vr_evmVersion request = None"
      "vr_constructorArguments request = None" "vr_compilerVersion request = ''v0.8.20''" "vr_optimizationEnabled request = False"
  proof -
    have "sanitizeVerifyRequest sample_verify = Inr \<lparr>vr_address = sample_address, vr_source = ''interface I {}'',
      vr_compilerVersion = ''v0.8.20'', vr_optimizationEnabled = False, vr_optimizationRuns = None, vr_evmVersion = None,
      vr_constructorArguments = None\<rparr>" by code_simp
    then show ?thesis by (rule that) simp_all
  qed
  have code: "no_bytecode (s_db sample_contracts)" by code_simp
  have at: "contract_at sample_contracts (vr_address request) = Some (\<lparr>c_address = sample_address, c_bytecode = None\<rparr>, default_meta)"
    unfolding a by code_simp
  obtain compiled where comp: "compileContract (env_solc sample_env_api) request = Inr compiled"
    and b: "cd_bytecode compiled = ''0x''" "cd_abi compiled = ''[]''"
  proof -
    have n: "normalizeSolcVersion ''v0.8.20'' = Inr ''0.8.20''" "normalizeSolcVersion ''0.8.20'' = Inr ''0.8.20''" by code_simp+
    have "compileContract (env_solc sample_env_api) request = Inr \<lparr>cd_bytecode = ''0x'', cd_abi = ''[]'', cd_compilerVersion = ''0.8.20''\<rparr>"
      by (simp add: compileContract_def loadSolcCompiler_def v n sample_env_api_def truthy_def)
    then show ?thesis using that by simp
  qed
  have "fst (store_verified request compiled sample_contracts) = Inr ()"
    by (simp add: store_verified_def v b pg_integer_def pg_text_ok_def)
  then show ?thesis
    using verify_indexed_contracts [OF code req at comp] by (auto simp: a b)
qed

section \<open>The server\<close>

text \<open>
  C11. Whatever the request, the server answers with one of seven statuses, never changes what the
  indexer wrote nor a balance, and changes nothing at all unless the method is \<^verbatim>\<open>POST\<close>.
\<close>

theorem requests_keep_chain_data:
  "s_db (snd (handle_request env apiPath req s)) = s_db s \<and> s_gilt (snd (handle_request env apiPath req s)) = s_gilt s \<and>
   snd (handle_request env apiPath req s) \<in> (if rq_method req = ''POST'' then UNIV else {s}) \<and>
   hr_status (fst (handle_request env apiPath req s)) \<in> {200, 400, 404, 405, 500, 502, 503}"
  using handle_request_effect [of env apiPath req s "fst (handle_request env apiPath req s)" "snd (handle_request env apiPath req s)"]
  by auto

section \<open>The live feed\<close>

text \<open>
  C14. However upgrades, closings and broadcasts interleave, a client that was upgraded on the feed's path is sent
  exactly what is broadcast between its upgrade and the first action that closes it, in order and once
  each, whatever other clients do.
\<close>

theorem feed_session_exact:
  assumes "\<forall>p. Upgrade p c \<notin> set (before @ during @ rest)"
    and "\<forall>a \<in> set during. a \<noteq> Closing c \<and> a \<noteq> Close c"
    and "rest = [] \<or> hd rest \<in> {Closing c, Close c}"
  shows "fd_sent (feed_run path (before @ Upgrade path c # during @ rest) createWebSocketFeed) c = broadcasts during"
  by (rule sent_in_session [OF assms])

definition sample_event :: LiveFeedEvent where
  "sample_event = BlockEvent ''1'' ''0xh1'' ''0x10'' Pending"

theorem feed_session_exact_witness:
  "fd_sent (feed_run ''/ws'' [Broadcast sample_event, Upgrade ''/ws'' 1, Upgrade ''/ws'' 2, Broadcast sample_event, Close 2,
     Broadcast sample_event, Closing 1, Broadcast sample_event] createWebSocketFeed) 1 = [sample_event, sample_event]"
  using feed_session_exact [of 1 "[Broadcast sample_event]"
    "[Upgrade ''/ws'' 2, Broadcast sample_event, Close 2, Broadcast sample_event]" "[Closing 1, Broadcast sample_event]" "''/ws''"]
  by (simp add: broadcasts_def)

text \<open>
  C15. When the indexer processes a block of the node with the feed attached and returns, it hands over the block's event followed by
  one event per transaction in the block's order, with the values of rows that are stored; and whatever sockets are
  upgraded, start to close or close between these events, every client is sent exactly the events
  that find it open, in order, after what it was sent before.  A client that is open and is not closed meanwhile is sent all of them.
\<close>

theorem feed_follows_block:
  assumes "getBlockByNumber rpc n = Some b" and "getConfirmationDepth env = Inr depth"
    and "distinct (map rt_hash (rb_transactions b))" and "f = feed_run path acts createWebSocketFeed"
    and "\<And>k. broadcasts (sched k) = []"
    and "processBlockWithFeed path sched env rpc n head (w, f) = (Inr x, w', f')"
  shows "\<exists>rows events. let st = if head - n < depth then Pending else Finalized in
    map (\<lambda>tx. tx_row rpc n tx st) (rb_transactions b) = map Inr rows \<and> set rows \<subseteq> set (transactions (w_db w')) \<and>
    events = BlockEvent (number_str (JNum n)) (rb_hash b) (rb_timestamp b) st # map2 (tx_event n st) (rb_transactions b) rows \<and>
    (\<forall>c. fd_sent f' c = fd_sent f c @
       map snd (filter (\<lambda>(k, event).
         fd_readyState (feed_run path (concat (map sched [0..<Suc k])) f) c = Some WsOpen) (enumerate 0 events))) \<and>
    (\<forall>c. fd_readyState f c = Some WsOpen \<and> (\<forall>k. Closing c \<notin> set (sched k) \<and> Close c \<notin> set (sched k)) \<longrightarrow>
       fd_sent f' c = fd_sent f c @ events)"
proof -
  let ?st = "depth_status depth head n"
  have ok: "feed_ok f" unfolding assms(4) by (rule feed_ok_run [OF feed_ok_create])
  have run: "processBlock env rpc n head w = (Inr x, w')"
    using assms(6) by (auto simp: processBlockWithFeed_def with_feed_def split: prod.splits)
  obtain rows where rows: "map (\<lambda>tx. tx_row rpc n tx ?st) (rb_transactions b) = map Inr rows"
    and feed: "w_feed w' = w_feed w @ BlockEvent (number_str (JNum n)) (rb_hash b) (rb_timestamp b) ?st #
      map2 (tx_event n ?st) (rb_transactions b) rows"
    using processBlock_feed [OF run assms(1,2)] by blast
  obtain events where events: "w_feed w' = w_feed w @ events" and sent: "\<And>c. fd_sent f' c = fd_sent f c @ heard path sched 0 f c events"
    using with_feed_sent [OF feed_grows_processBlock assms(6) [unfolded processBlockWithFeed_def] ok assms(5)] by metis
  have "row \<in> set (transactions (w_db w'))" if "row \<in> set rows" for row
  proof -
    have "Inr row \<in> (\<lambda>tx. tx_row rpc n tx ?st) ` set (rb_transactions b)"
      using that rows by (metis image_eqI set_map)
    then show ?thesis using processBlock_transactions(1) [OF run assms(1,2,3)] by fastforce
  qed
  then have "set rows \<subseteq> set (transactions (w_db w'))" by blast
  moreover have "heard path sched 0 f c events = map snd (filter (\<lambda>(k, event).
      fd_readyState (feed_run path (concat (map sched [0..<Suc k])) f) c = Some WsOpen) (enumerate 0 events))" for c
    unfolding heard_def open_at_def ..
  moreover have "heard path sched 0 f c events = events"
    if "fd_readyState f c = Some WsOpen \<and> (\<forall>k. Closing c \<notin> set (sched k) \<and> Close c \<notin> set (sched k))" for c
    using that by (intro heard_all [OF ok]) auto
  ultimately show ?thesis
    using rows sent feed events unfolding depth_status_def
    by (intro exI [of _ rows] exI [of _ events]) (simp add: Let_def)
qed

text \<open>Between the two events of the sample block the first client starts to close and the second is upgraded.\<close>

definition sample_sched :: "nat \<Rightarrow> FeedAction list" where
  "sample_sched k = (if k = 1 then [Closing 1, Upgrade ''/ws'' 2] else [])"

definition sample_feed :: WebSocketFeed where
  "sample_feed = feed_run ''/ws'' [Upgrade ''/ws'' 1, Upgrade ''/ws'' 3] createWebSocketFeed"

definition feed_after :: WebSocketFeed where
  "feed_after = snd (snd (processBlockWithFeed ''/ws'' sample_sched sample_env chain_u 1 1 (world_t, sample_feed)))"

theorem feed_follows_block_witness:
  "fd_sent feed_after 1 = [BlockEvent ''1'' ''0xm1'' ''0x10'' Pending]
   \<and> fd_sent feed_after 2 = [TxEvent ''0xt2'' ''1'' ''0xaa'' ''0xc0'' ''7'' Pending]
   \<and> fd_sent feed_after 3 = [BlockEvent ''1'' ''0xm1'' ''0x10'' Pending, TxEvent ''0xt2'' ''1'' ''0xaa'' ''0xc0'' ''7'' Pending]"
proof -
  let ?tx = "sample_tx ''0xt2''" and ?row = "stored_tx ''0xt2'' Pending"
  have run: "processBlockWithFeed ''/ws'' sample_sched sample_env chain_u 1 1 (world_t, sample_feed) = (Inr True, world_u, feed_after)"
    by (simp add: feed_after_def processBlockWithFeed_def with_feed_def process_u)
  have d: "distinct (map rt_hash (rb_transactions (block_with ''0xm1'' ''0xt2'')))" by (simp add: block_with_txs)
  have quiet: "broadcasts (sample_sched k) = []" for k by (auto simp: sample_sched_def broadcasts_def)
  have row: "tx_row chain_u 1 ?tx Pending = Inr ?row" by code_simp
  have ev: "BlockEvent (number_str (JNum 1)) (rb_hash (block_with ''0xm1'' ''0xt2'')) (rb_timestamp (block_with ''0xm1'' ''0xt2'')) Pending =
      BlockEvent ''1'' ''0xm1'' ''0x10'' Pending" "tx_event 1 Pending ?tx ?row = TxEvent ''0xt2'' ''1'' ''0xaa'' ''0xc0'' ''7'' Pending"
    by code_simp+
  have sent: "fd_sent feed_after c = fd_sent sample_feed c @ map snd (filter (\<lambda>(k, event).
      fd_readyState (feed_run ''/ws'' (concat (map sample_sched [0..<Suc k])) sample_feed) c = Some WsOpen)
      (enumerate 0 [BlockEvent ''1'' ''0xm1'' ''0x10'' Pending, TxEvent ''0xt2'' ''1'' ''0xaa'' ''0xc0'' ''7'' Pending]))" for c
    using feed_follows_block [OF chain_u_block sample_depth d sample_feed_def quiet run] row ev
    by (auto simp: block_with_txs Let_def)
  show ?thesis
    unfolding sent
    by (simp add: sample_feed_def sample_sched_def feed_run_def on_upgrade_def on_closing_def createWebSocketFeed_def)
qed

end
