(* ===== verification/Fractions.thy ===== *)
theory Fractions
  imports Complex_Main JsText
begin

text \<open>
  The number layer of the exchange SDK (\<^verbatim>\<open>swap-sdk-core/src/fractions/fraction.ts\<close> and
  \<^verbatim>\<open>percent.ts\<close>, \<^verbatim>\<open>constants.ts\<close>): bigint division, which truncates toward zero and
  throws on a zero divisor, and the class \<^verbatim>\<open>Fraction\<close> with its subclass \<^verbatim>\<open>Percent\<close>.
  A class is a record and a subclass a record extension, so the operations a subclass inherits
  are the same functions on the extended record.  The lemmas relate every operation to the
  rational number \<open>frac_value\<close> a fraction stands for.
\<close>

named_theorems frac_simps \<open>evaluation of fractions\<close>

section \<open>Bigint division\<close>

text \<open>\<^verbatim>\<open>a / b\<close> and \<^verbatim>\<open>a % b\<close> on bigints.\<close>

definition tdiv :: "int \<Rightarrow> int \<Rightarrow> int" where
  "tdiv a b = sgn a * sgn b * (\<bar>a\<bar> div \<bar>b\<bar>)"

definition trem :: "int \<Rightarrow> int \<Rightarrow> int" where
  "trem a b = a - tdiv a b * b"

definition bigint_div :: "int \<Rightarrow> int \<Rightarrow> js_error + int" where
  "bigint_div a b = (if b = 0 then Inl RangeError else Inr (tdiv a b))"

definition bigint_rem :: "int \<Rightarrow> int \<Rightarrow> js_error + int" where
  "bigint_rem a b = (if b = 0 then Inl RangeError else Inr (trem a b))"

lemma tdiv_nonneg [simp]: "0 \<le> a \<Longrightarrow> 0 \<le> b \<Longrightarrow> tdiv a b = a div b"
  by (cases "a = 0"; cases "b = 0") (simp_all add: tdiv_def)

lemma tdiv_neg_left: "tdiv (- a) b = - tdiv a b"
  by (simp add: tdiv_def sgn_minus)

lemma tdiv_one [simp]: "tdiv a 1 = a"
  by (simp add: tdiv_def sgn_mult_abs)

lemma bigint_div_nonneg: "0 \<le> a \<Longrightarrow> 0 < b \<Longrightarrow> bigint_div a b = Inr (a div b)"
  by (simp add: bigint_div_def)

lemma bigint_div_eq_Inr: "bigint_div a b = Inr q \<longleftrightarrow> b \<noteq> 0 \<and> q = tdiv a b"
  by (auto simp: bigint_div_def)

lemma bigint_div_InrE [js_elims]:
  assumes "bigint_div a b = Inr q"
  obtains "b \<noteq> 0" and "q = tdiv a b"
  using assms by (auto simp: bigint_div_eq_Inr)

section \<open>Constants\<close>

definition MaxUint256 :: int where
  "MaxUint256 = 0xffffffffffffffffffffffffffffffffffffffffffffffffffffffffffffffff"

definition MINIMUM_LIQUIDITY :: int where
  "MINIMUM_LIQUIDITY = 1000"

datatype VMType = Uint8 | Uint256

fun VM_TYPE_MAXIMA :: "VMType \<Rightarrow> int" where
  "VM_TYPE_MAXIMA Uint8 = 0xff"
| "VM_TYPE_MAXIMA Uint256 = 0xffffffffffffffffffffffffffffffffffffffffffffffffffffffffffffffff"

datatype TradeType = EXACT_INPUT | EXACT_OUTPUT

lemma MaxUint256_eq: "MaxUint256 = 2 ^ 256 - 1"
  by (simp add: MaxUint256_def)

section \<open>Class \<open>Fraction\<close>\<close>

record Fraction =
  numerator :: int
  denominator :: int

definition new_Fraction :: "int \<Rightarrow> int \<Rightarrow> Fraction" where
  "new_Fraction n d = \<lparr>numerator = n, denominator = d\<rparr>"

text \<open>\<^verbatim>\<open>get asFraction()\<close>; it is also how a subclass instance is seen where a fraction is expected.\<close>

definition asFraction :: "'z Fraction_scheme \<Rightarrow> Fraction" where
  "asFraction f = new_Fraction (numerator f) (denominator f)"

datatype Fractionish = AsBigint int | AsFraction Fraction

fun tryParseFraction :: "Fractionish \<Rightarrow> Fraction" where
  "tryParseFraction (AsBigint b) = new_Fraction b 1"
| "tryParseFraction (AsFraction f) = f"

abbreviation frac :: "'z Fraction_scheme \<Rightarrow> Fractionish" where
  "frac f \<equiv> AsFraction (asFraction f)"

definition quotient :: "'z Fraction_scheme \<Rightarrow> js_error + int" where
  "quotient f = bigint_div (numerator f) (denominator f)"

definition Fraction_remainder :: "'z Fraction_scheme \<Rightarrow> js_error + Fraction" where
  "Fraction_remainder f =
     bindS (bigint_rem (numerator f) (denominator f)) (\<lambda>r. Inr (new_Fraction r (denominator f)))"

definition Fraction_invert :: "'z Fraction_scheme \<Rightarrow> Fraction" where
  "Fraction_invert f = new_Fraction (denominator f) (numerator f)"

definition Fraction_add :: "'z Fraction_scheme \<Rightarrow> Fractionish \<Rightarrow> Fraction" where
  "Fraction_add this other =
     (let otherParsed = tryParseFraction other in
      if denominator this = denominator otherParsed
      then new_Fraction (numerator this + numerator otherParsed) (denominator this)
      else new_Fraction
             (numerator this * denominator otherParsed + numerator otherParsed * denominator this)
             (denominator this * denominator otherParsed))"

definition Fraction_subtract :: "'z Fraction_scheme \<Rightarrow> Fractionish \<Rightarrow> Fraction" where
  "Fraction_subtract this other =
     (let otherParsed = tryParseFraction other in
      if denominator this = denominator otherParsed
      then new_Fraction (numerator this - numerator otherParsed) (denominator this)
      else new_Fraction
             (numerator this * denominator otherParsed - numerator otherParsed * denominator this)
             (denominator this * denominator otherParsed))"

definition Fraction_lessThan :: "'z Fraction_scheme \<Rightarrow> Fractionish \<Rightarrow> bool" where
  "Fraction_lessThan this other =
     (let otherParsed = tryParseFraction other in
      numerator this * denominator otherParsed < numerator otherParsed * denominator this)"

definition Fraction_equalTo :: "'z Fraction_scheme \<Rightarrow> Fractionish \<Rightarrow> bool" where
  "Fraction_equalTo this other =
     (let otherParsed = tryParseFraction other in
      numerator this * denominator otherParsed = numerator otherParsed * denominator this)"

definition Fraction_greaterThan :: "'z Fraction_scheme \<Rightarrow> Fractionish \<Rightarrow> bool" where
  "Fraction_greaterThan this other =
     (let otherParsed = tryParseFraction other in
      numerator this * denominator otherParsed > numerator otherParsed * denominator this)"

definition Fraction_multiply :: "'z Fraction_scheme \<Rightarrow> Fractionish \<Rightarrow> Fraction" where
  "Fraction_multiply this other =
     (let otherParsed = tryParseFraction other in
      new_Fraction (numerator this * numerator otherParsed) (denominator this * denominator otherParsed))"

definition Fraction_divide :: "'z Fraction_scheme \<Rightarrow> Fractionish \<Rightarrow> Fraction" where
  "Fraction_divide this other =
     (let otherParsed = tryParseFraction other in
      new_Fraction (numerator this * denominator otherParsed) (denominator this * numerator otherParsed))"

section \<open>Class \<open>Percent\<close>\<close>

record Percent = Fraction +
  isPercent :: bool

definition new_Percent :: "int \<Rightarrow> int \<Rightarrow> Percent" where
  "new_Percent n d = \<lparr>numerator = n, denominator = d, isPercent = True\<rparr>"

definition toPercent :: "Fraction \<Rightarrow> Percent" where
  "toPercent f = new_Percent (numerator f) (denominator f)"

definition Percent_add :: "Percent \<Rightarrow> Fractionish \<Rightarrow> Percent" where
  "Percent_add this other = toPercent (Fraction_add this other)"

definition Percent_subtract :: "Percent \<Rightarrow> Fractionish \<Rightarrow> Percent" where
  "Percent_subtract this other = toPercent (Fraction_subtract this other)"

definition Percent_multiply :: "Percent \<Rightarrow> Fractionish \<Rightarrow> Percent" where
  "Percent_multiply this other = toPercent (Fraction_multiply this other)"

definition Percent_divide :: "Percent \<Rightarrow> Fractionish \<Rightarrow> Percent" where
  "Percent_divide this other = toPercent (Fraction_divide this other)"

definition ZERO_PERCENT :: Percent where
  "ZERO_PERCENT = new_Percent 0 1"

definition ONE_HUNDRED_PERCENT :: Percent where
  "ONE_HUNDRED_PERCENT = new_Percent 1 1"

section \<open>The rational number of a fraction\<close>

definition frac_value :: "'z Fraction_scheme \<Rightarrow> rat" where
  "frac_value f = of_int (numerator f) / of_int (denominator f)"

text \<open>A fraction whose denominator is positive, and one that is an integer amount.\<close>

definition proper :: "'z Fraction_scheme \<Rightarrow> bool" where
  "proper f \<longleftrightarrow> 0 < denominator f"

lemma new_Fraction_sel [simp]:
  "numerator (new_Fraction n d) = n"
  "denominator (new_Fraction n d) = d"
  by (simp_all add: new_Fraction_def)

lemma new_Percent_sel [simp]:
  "numerator (new_Percent n d) = n"
  "denominator (new_Percent n d) = d"
  by (simp_all add: new_Percent_def)

lemma asFraction_sel [simp]:
  "numerator (asFraction f) = numerator f"
  "denominator (asFraction f) = denominator f"
  by (simp_all add: asFraction_def)

lemma toPercent_sel [simp]:
  "numerator (toPercent f) = numerator f"
  "denominator (toPercent f) = denominator f"
  by (simp_all add: toPercent_def)

lemma frac_value_asFraction [simp]: "frac_value (asFraction f) = frac_value f"
  by (simp add: frac_value_def)

lemma proper_new_Fraction [simp]: "proper (new_Fraction n d) \<longleftrightarrow> 0 < d"
  by (simp add: proper_def)

lemma proper_asFraction [simp]: "proper (asFraction f) \<longleftrightarrow> proper f"
  by (simp add: proper_def)

lemma frac_value_new [simp]: "frac_value (new_Fraction n d) = of_int n / of_int d"
  by (simp add: frac_value_def)

text \<open>The arithmetic is exact; comparisons are those of the rationals for positive denominators.\<close>

lemma frac_value_add:
  "denominator f \<noteq> 0 \<Longrightarrow> denominator (tryParseFraction g) \<noteq> 0 \<Longrightarrow>
    frac_value (Fraction_add f g) = frac_value f + frac_value (tryParseFraction g)"
  by (simp add: Fraction_add_def Let_def frac_value_def field_simps)

lemma frac_value_subtract:
  "denominator f \<noteq> 0 \<Longrightarrow> denominator (tryParseFraction g) \<noteq> 0 \<Longrightarrow>
    frac_value (Fraction_subtract f g) = frac_value f - frac_value (tryParseFraction g)"
  by (simp add: Fraction_subtract_def Let_def frac_value_def field_simps)

lemma frac_value_multiply:
  "frac_value (Fraction_multiply f g) = frac_value f * frac_value (tryParseFraction g)"
  by (simp add: Fraction_multiply_def Let_def frac_value_def)

lemma frac_value_divide:
  "frac_value (Fraction_divide f g) = frac_value f / frac_value (tryParseFraction g)"
  by (simp add: Fraction_divide_def Let_def frac_value_def)

lemma frac_value_invert: "frac_value (Fraction_invert f) = inverse (frac_value f)"
  by (simp add: Fraction_invert_def frac_value_def)

lemma cross_less:
  fixes a b c d :: int
  assumes "0 < b" "0 < d"
  shows "a * d < c * b \<longleftrightarrow> (of_int a / of_int b :: rat) < of_int c / of_int d"
proof -
  have "(of_int a / of_int b :: rat) < of_int c / of_int d
      \<longleftrightarrow> (of_int (a * d) :: rat) < of_int (c * b)"
    using assms by (simp add: divide_less_eq less_divide_eq mult.commute)
  also have "\<dots> \<longleftrightarrow> a * d < c * b" by (rule of_int_less_iff)
  finally show ?thesis by simp
qed

lemma cross_eq:
  fixes a b c d :: int
  assumes "0 < b" "0 < d"
  shows "a * d = c * b \<longleftrightarrow> (of_int a / of_int b :: rat) = of_int c / of_int d"
  using cross_less [OF assms, of a c] cross_less [OF assms(2,1), of c a]
  by (metis antisym_conv3 less_irrefl)

lemma lessThan_value:
  "proper f \<Longrightarrow> proper (tryParseFraction g) \<Longrightarrow>
    Fraction_lessThan f g \<longleftrightarrow> frac_value f < frac_value (tryParseFraction g)"
  by (simp add: Fraction_lessThan_def Let_def frac_value_def proper_def cross_less)

lemma greaterThan_value:
  "proper f \<Longrightarrow> proper (tryParseFraction g) \<Longrightarrow>
    Fraction_greaterThan f g \<longleftrightarrow> frac_value (tryParseFraction g) < frac_value f"
  by (simp add: Fraction_greaterThan_def Let_def frac_value_def proper_def cross_less)

lemma equalTo_value:
  "proper f \<Longrightarrow> proper (tryParseFraction g) \<Longrightarrow>
    Fraction_equalTo f g \<longleftrightarrow> frac_value f = frac_value (tryParseFraction g)"
  by (simp add: Fraction_equalTo_def Let_def frac_value_def proper_def cross_eq)

text \<open>The quotient rounds toward zero.\<close>

lemma quotient_eq_Inr:
  "quotient f = Inr q \<longleftrightarrow> denominator f \<noteq> 0 \<and> q = tdiv (numerator f) (denominator f)"
  by (simp add: quotient_def bigint_div_eq_Inr)

lemma quotient_whole [simp]: "denominator f = 1 \<Longrightarrow> quotient f = Inr (numerator f)"
  by (simp add: quotient_def bigint_div_def)

lemma floor_value: "proper f \<Longrightarrow> \<lfloor>frac_value f\<rfloor> = numerator f div denominator f"
  by (simp add: frac_value_def floor_divide_of_int_eq)

lemma quotient_floor:
  assumes "proper f" and "0 \<le> numerator f"
  shows "quotient f = Inr \<lfloor>frac_value f\<rfloor>"
  using assms by (simp add: quotient_eq_Inr floor_value) (simp add: proper_def)

lemma quotient_ceiling:
  assumes "proper f" and "numerator f \<le> 0"
  shows "quotient f = Inr \<lceil>frac_value f\<rceil>"
proof -
  have "tdiv (numerator f) (denominator f) = - (- numerator f div denominator f)"
    using assms tdiv_neg_left [of "- numerator f" "denominator f"] by (simp add: proper_def)
  also have "\<dots> = \<lceil>frac_value f\<rceil>"
    using floor_divide_of_int_eq [of "- numerator f" "denominator f", where 'a = rat]
    by (simp add: ceiling_def frac_value_def)
  finally show ?thesis using assms by (simp add: quotient_eq_Inr proper_def)
qed

end
