(* ===== verification/Currency.thy ===== *)
theory Currency
  imports Fractions
begin

text \<open>
  Currencies, amounts and prices of the exchange SDK (\<^verbatim>\<open>swap-sdk-core/src/baseCurrency.ts\<close>,
  \<^verbatim>\<open>token.ts\<close>, \<^verbatim>\<open>nativeCurrency.ts\<close>, \<^verbatim>\<open>fractions/currencyAmount.ts\<close>,
  \<^verbatim>\<open>fractions/price.ts\<close>, and \<^verbatim>\<open>swap-sdk-evm/src/entities/native.ts\<close>).
  A native currency carries the token its \<^verbatim>\<open>wrapped\<close> getter returns (the entry of the
  deployment table \<^verbatim>\<open>WNATIVE\<close> for its chain).  The classes \<^verbatim>\<open>CurrencyAmount\<close> and
  \<^verbatim>\<open>UnifiedCurrencyAmount\<close> have the same code, and one record stands for both.
  Decimals are integers; formatting (\<^verbatim>\<open>toSignificant\<close>, \<^verbatim>\<open>toFixed\<close>, \<^verbatim>\<open>toExact\<close>) is the
  work of the decimal libraries and is left out.
\<close>

section \<open>Currencies\<close>

record BaseCurrency =
  chainId :: int
  decimals :: int
  symbol :: string
  currencyName :: "string option"

record Token = BaseCurrency +
  address :: string
  projectLink :: "string option"

record NativeCurrency = BaseCurrency +
  wrappedToken :: Token

datatype Currency = ERC20 Token | Native NativeCurrency

definition ZERO_ADDRESS :: string where
  "ZERO_ADDRESS = ''0x0000000000000000000000000000000000000000''"

definition new_Token :: "int \<Rightarrow> string \<Rightarrow> int \<Rightarrow> string \<Rightarrow> string option \<Rightarrow> string option \<Rightarrow> js_error + Token" where
  "new_Token cid addr dec sy nam link =
     invariantS (0 \<le> dec \<and> dec < 255) ''DECIMALS''
       (Inr \<lparr>chainId = cid, decimals = dec, symbol = sy, currencyName = nam, address = addr,
             projectLink = link\<rparr>)"

fun isNative :: "Currency \<Rightarrow> bool" where
  "isNative (ERC20 t) = False"
| "isNative (Native n) = True"

fun isToken :: "Currency \<Rightarrow> bool" where
  "isToken (ERC20 t) = True"
| "isToken (Native n) = False"

fun currency_chainId :: "Currency \<Rightarrow> int" where
  "currency_chainId (ERC20 t) = chainId t"
| "currency_chainId (Native n) = chainId n"

fun currency_decimals :: "Currency \<Rightarrow> int" where
  "currency_decimals (ERC20 t) = decimals t"
| "currency_decimals (Native n) = decimals n"

definition Token_equals :: "Token \<Rightarrow> Token \<Rightarrow> bool" where
  "Token_equals a b \<longleftrightarrow> chainId a = chainId b \<and> address a = address b"

fun Currency_equals :: "Currency \<Rightarrow> Currency \<Rightarrow> bool" where
  "Currency_equals (ERC20 a) (ERC20 b) = Token_equals a b"
| "Currency_equals (ERC20 a) (Native b) = False"
| "Currency_equals (Native a) other = (isNative other \<and> currency_chainId other = chainId a)"

text \<open>\<^verbatim>\<open>s < t\<close> on texts: by code units, a proper prefix first.\<close>

fun text_less :: "string \<Rightarrow> string \<Rightarrow> bool" where
  "text_less s [] = False"
| "text_less [] (d # ds) = True"
| "text_less (c # cs) (d # ds) = ((of_char c :: nat) < of_char d \<or> (c = d \<and> text_less cs ds))"

definition sortsBefore :: "Token \<Rightarrow> Token \<Rightarrow> js_error + bool" where
  "sortsBefore this other =
     invariantS (chainId this = chainId other) ''CHAIN_IDS''
       (invariantS (address this \<noteq> address other) ''ADDRESSES''
         (Inr (text_less (toLowerCase (address this)) (toLowerCase (address other)))))"

fun wrapped :: "Currency \<Rightarrow> Token" where
  "wrapped (ERC20 t) = t"
| "wrapped (Native n) = wrappedToken n"

fun asToken :: "Currency \<Rightarrow> js_error + Token" where
  "asToken (ERC20 t) = Inr t"
| "asToken (Native n) =
     new_Token (chainId n) ZERO_ADDRESS (decimals n) (symbol n) (currencyName n) None"

section \<open>Class \<open>CurrencyAmount\<close>\<close>

record CurrencyAmount = Fraction +
  currency :: Currency
  decimalScale :: int

definition new_CurrencyAmount :: "Currency \<Rightarrow> int \<Rightarrow> int \<Rightarrow> js_error + CurrencyAmount" where
  "new_CurrencyAmount c n d =
     bindS (quotient (new_Fraction n d)) (\<lambda>q.
       invariantS (q \<le> MaxUint256) ''AMOUNT''
         (Inr \<lparr>numerator = n, denominator = d, currency = c,
               decimalScale = 10 ^ nat (currency_decimals c)\<rparr>))"

definition fromFractionalAmount :: "Currency \<Rightarrow> int \<Rightarrow> int \<Rightarrow> js_error + CurrencyAmount" where
  "fromFractionalAmount c n d = new_CurrencyAmount c n d"

definition fromRawAmount :: "Currency \<Rightarrow> int \<Rightarrow> js_error + CurrencyAmount" where
  "fromRawAmount c raw = new_CurrencyAmount c raw 1"

definition Amount_add :: "CurrencyAmount \<Rightarrow> CurrencyAmount \<Rightarrow> js_error + CurrencyAmount" where
  "Amount_add this other =
     invariantS (Currency_equals (currency this) (currency other)) ''CURRENCY''
       (let added = Fraction_add this (frac other) in
        fromFractionalAmount (currency this) (numerator added) (denominator added))"

text \<open>\<^verbatim>\<open>subtract\<close> is overloaded: a bigint, or an amount.\<close>

definition Amount_subtract_bigint :: "CurrencyAmount \<Rightarrow> int \<Rightarrow> js_error + CurrencyAmount" where
  "Amount_subtract_bigint this v =
     fromFractionalAmount (currency this) (numerator this - v * denominator this) (denominator this)"

definition Amount_subtract :: "CurrencyAmount \<Rightarrow> CurrencyAmount \<Rightarrow> js_error + CurrencyAmount" where
  "Amount_subtract this v =
     invariantS (Currency_equals (currency this) (currency v)) ''CURRENCY''
       (let subtracted = Fraction_subtract this (frac v) in
        fromFractionalAmount (currency this) (numerator subtracted) (denominator subtracted))"

definition Amount_multiply :: "CurrencyAmount \<Rightarrow> Fractionish \<Rightarrow> js_error + CurrencyAmount" where
  "Amount_multiply this other =
     (let multiplied = Fraction_multiply this other in
      fromFractionalAmount (currency this) (numerator multiplied) (denominator multiplied))"

definition Amount_divide :: "CurrencyAmount \<Rightarrow> Fractionish \<Rightarrow> js_error + CurrencyAmount" where
  "Amount_divide this other =
     (let divided = Fraction_divide this other in
      fromFractionalAmount (currency this) (numerator divided) (denominator divided))"

definition Amount_wrapped :: "CurrencyAmount \<Rightarrow> js_error + CurrencyAmount" where
  "Amount_wrapped this =
     (if isToken (currency this) then Inr this
      else fromFractionalAmount (ERC20 (wrapped (currency this))) (numerator this) (denominator this))"

section \<open>Class \<open>Price\<close>\<close>

record Price = Fraction +
  baseCurrency :: Currency
  quoteCurrency :: Currency
  scalar :: Fraction

definition new_Price :: "Currency \<Rightarrow> Currency \<Rightarrow> int \<Rightarrow> int \<Rightarrow> Price" where
  "new_Price base quo den num =
     \<lparr>numerator = num, denominator = den, baseCurrency = base, quoteCurrency = quo,
      scalar = new_Fraction (10 ^ nat (currency_decimals base)) (10 ^ nat (currency_decimals quo))\<rparr>"

definition Price_of_amounts :: "CurrencyAmount \<Rightarrow> CurrencyAmount \<Rightarrow> js_error + Price" where
  "Price_of_amounts baseAmount quoteAmount =
     bindS (Amount_divide quoteAmount (frac baseAmount)) (\<lambda>result.
       Inr (new_Price (currency baseAmount) (currency quoteAmount) (denominator result) (numerator result)))"

definition Price_invert :: "Price \<Rightarrow> Price" where
  "Price_invert p = new_Price (quoteCurrency p) (baseCurrency p) (numerator p) (denominator p)"

definition Price_multiply :: "Price \<Rightarrow> Price \<Rightarrow> js_error + Price" where
  "Price_multiply this other =
     invariantS (Currency_equals (quoteCurrency this) (baseCurrency other)) ''TOKEN''
       (let fraction = Fraction_multiply this (frac other) in
        Inr (new_Price (baseCurrency this) (quoteCurrency other) (denominator fraction) (numerator fraction)))"

definition Price_quote :: "Price \<Rightarrow> CurrencyAmount \<Rightarrow> js_error + CurrencyAmount" where
  "Price_quote this amount =
     invariantS (Currency_equals (currency amount) (baseCurrency this)) ''TOKEN''
       (let result = Fraction_multiply this (frac amount) in
        fromFractionalAmount (quoteCurrency this) (numerator result) (denominator result))"

definition adjustedForDecimals :: "Price \<Rightarrow> Fraction" where
  "adjustedForDecimals p = Fraction_multiply p (AsFraction (scalar p))"

definition Price_wrapped :: "Price \<Rightarrow> Price" where
  "Price_wrapped p =
     new_Price (ERC20 (wrapped (baseCurrency p))) (ERC20 (wrapped (quoteCurrency p)))
       (denominator p) (numerator p)"

section \<open>Lemmas\<close>

subsection \<open>Equality and order of currencies\<close>

lemma Token_equals_refl [simp]: "Token_equals t t"
  by (simp add: Token_equals_def)

lemma Token_equals_sym: "Token_equals a b \<longleftrightarrow> Token_equals b a"
  by (auto simp: Token_equals_def)

lemma Token_equals_trans: "Token_equals a b \<Longrightarrow> Token_equals b c \<Longrightarrow> Token_equals a c"
  by (simp add: Token_equals_def)

lemma Currency_equals_refl [simp]: "Currency_equals c c"
  by (cases c) simp_all

lemma Currency_equals_sym: "Currency_equals a b \<longleftrightarrow> Currency_equals b a"
  by (cases a; cases b) (auto simp: Token_equals_sym)

lemma Currency_equals_trans:
  "Currency_equals a b \<Longrightarrow> Currency_equals b c \<Longrightarrow> Currency_equals a c"
  by (cases a; cases b; cases c) (auto intro: Token_equals_trans)

lemma Currency_equals_isToken: "Currency_equals a b \<Longrightarrow> isToken a \<longleftrightarrow> isToken b"
  by (cases a; cases b) auto

lemma text_less_irrefl [simp]: "\<not> text_less s s"
  by (induction s) auto

lemma text_less_trans: "text_less s t \<Longrightarrow> text_less t u \<Longrightarrow> text_less s u"
proof (induction s t arbitrary: u rule: text_less.induct)
  case (2 d ds)
  then show ?case by (cases u) auto
next
  case (3 c cs d ds)
  then show ?case by (cases u) auto
qed simp

lemma text_less_total: "s \<noteq> t \<Longrightarrow> text_less s t \<or> text_less t s"
proof (induction s t rule: text_less.induct)
  case (1 s)
  then show ?case by (cases s) auto
next
  case (3 c cs d ds)
  then show ?case by (auto simp: neq_iff of_char_eq_iff)
qed auto

lemma text_less_asym: "text_less s t \<Longrightarrow> \<not> text_less t s"
  using text_less_trans text_less_irrefl by blast

lemma sortsBefore_eq_Inr:
  "sortsBefore a b = Inr r \<longleftrightarrow> chainId a = chainId b \<and> address a \<noteq> address b \<and>
    r = text_less (toLowerCase (address a)) (toLowerCase (address b))"
  by (auto simp: sortsBefore_def invariantS_eq_Inr)

subsection \<open>Amounts\<close>

lemma new_CurrencyAmount_eq_Inr:
  "new_CurrencyAmount c n d = Inr a \<longleftrightarrow>
    d \<noteq> 0 \<and> tdiv n d \<le> MaxUint256 \<and>
    a = \<lparr>numerator = n, denominator = d, currency = c, decimalScale = 10 ^ nat (currency_decimals c)\<rparr>"
  by (auto simp: new_CurrencyAmount_def bindS_eq_Inr quotient_eq_Inr invariantS_eq_Inr)

lemmas amount_defs =
  fromFractionalAmount_def fromRawAmount_def Amount_add_def Amount_subtract_def
  Amount_subtract_bigint_def Amount_multiply_def Amount_divide_def Let_def

lemmas amount_eq_Inr = amount_defs invariantS_eq_Inr new_CurrencyAmount_eq_Inr

lemma fromRawAmount_eq_Inr:
  "fromRawAmount c n = Inr a \<longleftrightarrow> n \<le> MaxUint256 \<and>
    a = \<lparr>numerator = n, denominator = 1, currency = c, decimalScale = 10 ^ nat (currency_decimals c)\<rparr>"
  by (auto simp: amount_eq_Inr)

lemma new_Price_sel [simp]:
  "numerator (new_Price b q d n) = n"
  "denominator (new_Price b q d n) = d"
  "baseCurrency (new_Price b q d n) = b"
  "quoteCurrency (new_Price b q d n) = q"
  by (simp_all add: new_Price_def)

text \<open>A price and its inverse: the quote of a quote is the amount one started from.\<close>

lemma Price_invert_invert: "Price_invert (Price_invert p) = new_Price (baseCurrency p) (quoteCurrency p) (denominator p) (numerator p)"
  by (simp add: Price_invert_def)

lemma Price_quote_value:
  "Price_quote p a = Inr b \<Longrightarrow> currency b = quoteCurrency p \<and> frac_value b = frac_value p * frac_value a"
  by (auto simp: Price_quote_def amount_eq_Inr Fraction_multiply_def frac_value_def)

end
