(* ===== verification/SwapUtils.thy ===== *)
theory SwapUtils
  imports Currency "HOL-Library.Multiset"
begin

text \<open>
  The helpers of \<^verbatim>\<open>swap-sdk-core/src/utils.ts\<close>: the integer square root the contracts use, the
  bounded sorted insertion, the price impact, and the comparators of token lists.
  A comparator may throw, so it returns a sum; the locale \<open>js_comparator\<close> states what
  \<^verbatim>\<open>sortedInsert\<close> relies on, and shows that the binary search with truncation is insertion
  after the last element that is not greater, cut to the size limit.
\<close>

section \<open>Definitions\<close>

definition validateVMTypeInstance :: "int \<Rightarrow> VMType \<Rightarrow> js_error + unit" where
  "validateVMTypeInstance v vmType =
     invariantS (0 \<le> v) (bigint_str 10 v @ '' is not a '' @ (case vmType of Uint8 \<Rightarrow> ''uint8'' | Uint256 \<Rightarrow> ''uint256'') @ ''.'')
       (invariantS (v \<le> VM_TYPE_MAXIMA vmType)
         (bigint_str 10 v @ '' is not a '' @ (case vmType of Uint8 \<Rightarrow> ''uint8'' | Uint256 \<Rightarrow> ''uint256'') @ ''.'')
         (Inr ()))"

text \<open>
  The loop of \<^verbatim>\<open>sqrt\<close>: its bigints are not negative, so they are natural numbers here; the
  division throws when \<open>x\<close> is 0.
\<close>

function sqrt_loop :: "nat \<Rightarrow> nat \<Rightarrow> nat \<Rightarrow> js_error + nat" where
  "sqrt_loop y z x =
     (if x < z then (if x = 0 then Inl RangeError else sqrt_loop y x ((y div x + x) div 2)) else Inr z)"
  by pat_completeness auto
termination
  by (relation "measure (\<lambda>(y, z, x). z)") auto

declare sqrt_loop.simps [simp del]

definition bigint_sqrt :: "int \<Rightarrow> js_error + int" where
  "bigint_sqrt y =
     invariantS (0 \<le> y) ''NEGATIVE''
       (if y > 3 then bindS (sqrt_loop (nat y) (nat y) (nat y div 2 + 1)) (\<lambda>z. Inr (int z))
        else if y \<noteq> 0 then Inr 1 else Inr 0)"

text \<open>The binary search of \<^verbatim>\<open>sortedInsert\<close>.\<close>

function insert_index ::
  "('a \<Rightarrow> 'a \<Rightarrow> js_error + int) \<Rightarrow> 'a list \<Rightarrow> 'a \<Rightarrow> nat \<Rightarrow> nat \<Rightarrow> js_error + nat" where
  "insert_index comparator items x lo hi =
     (if lo < hi then
        (let mid = (lo + hi) div 2 in
         bindS (comparator (items ! mid) x) (\<lambda>c.
           if c \<le> 0 then insert_index comparator items x (mid + 1) hi
           else insert_index comparator items x lo mid))
      else Inr lo)"
  by pat_completeness auto
termination
  by (relation "measure (\<lambda>(comparator, items, x, lo, hi). hi - lo)") auto

declare insert_index.simps [simp del]

text \<open>The result is the removed item, if any, with the list as it is afterwards.\<close>

definition sortedInsert ::
  "'a list \<Rightarrow> 'a \<Rightarrow> nat \<Rightarrow> ('a \<Rightarrow> 'a \<Rightarrow> js_error + int) \<Rightarrow> js_error + ('a option \<times> 'a list)" where
  "sortedInsert items x maxSize comparator =
     invariantS (0 < maxSize) ''MAX_SIZE_ZERO''
       (invariantS (length items \<le> maxSize) ''ITEMS_SIZE''
         (if items = [] then Inr (None, [x])
          else
            (let isFull = (length items = maxSize);
                 search =
                   bindS (insert_index comparator items x 0 (length items)) (\<lambda>lo.
                     let spliced = take lo items @ x # drop lo items in
                     if isFull then Inr (Some (last spliced), butlast spliced) else Inr (None, spliced)) in
             if isFull then
               bindS (comparator (items ! (length items - 1)) x) (\<lambda>c.
                 if c \<le> 0 then Inr (Some x, items) else search)
             else search)))"

definition computePriceImpact :: "Price \<Rightarrow> CurrencyAmount \<Rightarrow> CurrencyAmount \<Rightarrow> js_error + Percent" where
  "computePriceImpact midPrice inputAmount outputAmount =
     bindS (Price_quote midPrice inputAmount) (\<lambda>quotedOutputAmount.
     bindS (Amount_subtract quotedOutputAmount outputAmount) (\<lambda>d.
     bindS (Amount_divide d (frac quotedOutputAmount)) (\<lambda>priceImpact.
       Inr (new_Percent (numerator priceImpact) (denominator priceImpact)))))"

fun balanceComparator :: "CurrencyAmount option \<Rightarrow> CurrencyAmount option \<Rightarrow> int" where
  "balanceComparator (Some a) (Some b) =
     (if Fraction_greaterThan a (frac b) then - 1 else if Fraction_equalTo a (frac b) then 0 else 1)"
| "balanceComparator (Some a) None = (if Fraction_greaterThan a (AsBigint 0) then - 1 else 0)"
| "balanceComparator None (Some b) = (if Fraction_greaterThan b (AsBigint 0) then 1 else 0)"
| "balanceComparator None None = 0"

definition getTokenComparator :: "(string \<Rightarrow> CurrencyAmount option) \<Rightarrow> Token \<Rightarrow> Token \<Rightarrow> int" where
  "getTokenComparator balances tokenA tokenB =
     (let balanceComp = balanceComparator (balances (address tokenA)) (balances (address tokenB)) in
      if balanceComp \<noteq> 0 then balanceComp
      else if symbol tokenA \<noteq> [] \<and> symbol tokenB \<noteq> [] then
        (if text_less (toLowerCase (symbol tokenA)) (toLowerCase (symbol tokenB)) then - 1 else 1)
      else if symbol tokenA \<noteq> [] then - 1
      else if symbol tokenB \<noteq> [] then - 1
      else 0)"

text \<open>The comparator \<^verbatim>\<open>sortCurrencies\<close> passes to the array sort.\<close>

definition compareCurrencies :: "Currency \<Rightarrow> Currency \<Rightarrow> js_error + int" where
  "compareCurrencies a b =
     (if isNative a then Inr (- 1)
      else if isNative b then Inr 1
      else bindS (sortsBefore (wrapped a) (wrapped b)) (\<lambda>before. Inr (if before then - 1 else 1)))"

fun getCurrencyAddress :: "Currency \<Rightarrow> string" where
  "getCurrencyAddress (Native n) = ZERO_ADDRESS"
| "getCurrencyAddress (ERC20 t) = address t"

fun getMatchedCurrency :: "Currency \<Rightarrow> Currency list \<Rightarrow> bool \<Rightarrow> Currency option" where
  "getMatchedCurrency c [] matchWrapped = None"
| "getMatchedCurrency c (current # rest) matchWrapped =
     (let c' = (if matchWrapped then ERC20 (wrapped c) else c);
          checkAgainst = (if matchWrapped then ERC20 (wrapped current) else current) in
      if Currency_equals checkAgainst c' then Some current else getMatchedCurrency c rest matchWrapped)"

section \<open>The square root\<close>

lemma newton_above:
  fixes y x :: nat
  assumes "0 < x"
  shows "y < ((y div x + x) div 2 + 1) ^ 2"
proof -
  define q where "q = y div x"
  define x' where "x' = (q + x) div 2"
  have "y < (q + 1) * x"
    using assms dividend_less_times_div [of x y] by (simp add: q_def algebra_simps)
  then have "4 * int y < 4 * ((int q + 1) * int x)"
    by (metis mult_less_cancel_left_pos of_nat_1 of_nat_add of_nat_less_iff of_nat_mult zero_less_numeral)
  also have "\<dots> \<le> (int q + 1 + int x) ^ 2"
    using zero_le_power2 [of "int q + 1 - int x"] by (simp add: power2_eq_square algebra_simps)
  also have "\<dots> \<le> (2 * (int x' + 1)) ^ 2"
  proof (rule power_mono)
    have "q + 1 + x \<le> 2 * (x' + 1)" by (simp add: x'_def)
    then have "int (q + 1 + x) \<le> int (2 * (x' + 1))" by (simp only: of_nat_le_iff)
    then show "int q + 1 + int x \<le> 2 * (int x' + 1)" by simp
  qed simp
  also have "\<dots> = 4 * (int x' + 1) ^ 2" by (simp add: power2_eq_square algebra_simps)
  finally have "int y < int ((x' + 1) ^ 2)" by (simp add: add.commute)
  then show ?thesis by (simp only: of_nat_less_iff x'_def q_def)
qed

text \<open>
  Every iterate stays at or above the root, and the loop stops at the first one that does not
  decrease.
\<close>

lemma sqrt_loop_root:
  assumes "0 < y" and "y < (z + 1) ^ 2" and "y < (x + 1) ^ 2" and "0 < x" and "0 < z"
    and "x < z \<or> x = (y div z + z) div 2"
  shows "\<exists>r. sqrt_loop y z x = Inr r \<and> r ^ 2 \<le> y \<and> y < (r + 1) ^ 2"
  using assms
proof (induction y z x rule: sqrt_loop.induct)
  case (1 y z x)
  show ?case
  proof (cases "x < z")
    case True
    have "0 < (y div x + x) div 2"
    proof (rule ccontr)
      assume "\<not> 0 < (y div x + x) div 2"
      then have "y div x + x < 2" by simp
      with \<open>0 < x\<close> have "x = 1" and "y div x = 0" by auto
      with \<open>0 < y\<close> show False by simp
    qed
    with True 1 newton_above [OF \<open>0 < x\<close>, of y] show ?thesis
      by (simp add: sqrt_loop.simps [of y z x])
  next
    case False
    then have "x = (y div z + z) div 2" using "1.prems" by simp
    then have "z \<le> y div z" using False by simp
    then have "z * z \<le> y" using \<open>0 < z\<close> by (simp add: less_eq_div_iff_mult_less_eq)
    moreover have "sqrt_loop y z x = Inr z" using False by (simp add: sqrt_loop.simps)
    ultimately show ?thesis using "1.prems"(2) by (simp add: power2_eq_square)
  qed
qed

lemma bigint_sqrt_root:
  assumes "0 \<le> y"
  shows "\<exists>r. bigint_sqrt y = Inr r \<and> 0 \<le> r \<and> r ^ 2 \<le> y \<and> y < (r + 1) ^ 2"
proof (cases "3 < y")
  case True
  define n where "n = nat y"
  have n: "y = int n" and "3 < n" using True by (simp_all add: n_def)
  have "n < (n + 1) ^ 2" by (simp add: power2_eq_square)
  moreover have half_less: "0 < n" "0 < n div 2 + 1" "n div 2 + 1 < n" using \<open>3 < n\<close> by linarith+
  moreover have "n < (n div 2 + 1 + 1) ^ 2"
  proof -
    have "n < (n div 2 + 1) * 2" by simp
    also have "\<dots> \<le> (n div 2 + 2) * (n div 2 + 2)" by (rule mult_mono) simp_all
    finally show ?thesis by (simp add: power2_eq_square)
  qed
  ultimately obtain r where r: "sqrt_loop n n (n div 2 + 1) = Inr r" "r ^ 2 \<le> n" "n < (r + 1) ^ 2"
    using sqrt_loop_root [of n n "n div 2 + 1"] \<open>3 < n\<close> by (metis half_less)
  have "(int r) ^ 2 \<le> y" and "y < (int r + 1) ^ 2"
    using r(2,3) unfolding n by (simp_all flip: of_nat_power of_nat_Suc add: of_nat_le_iff)
       (metis of_nat_Suc of_nat_less_iff of_nat_power Suc_eq_plus1 add.commute)
  with r(1) True show ?thesis by (simp add: bigint_sqrt_def n_def)
next
  case False
  then consider "y = 0" | "y = 1" | "y = 2" | "y = 3" using assms by linarith
  then show ?thesis by cases (simp_all add: bigint_sqrt_def)
qed

section \<open>Bounded sorted insertion\<close>

text \<open>\<open>cmp_le cmp a b\<close>: the comparator returns, and does not put \<open>b\<close> before \<open>a\<close>.\<close>

definition cmp_le :: "('a \<Rightarrow> 'a \<Rightarrow> js_error + int) \<Rightarrow> 'a \<Rightarrow> 'a \<Rightarrow> bool" where
  "cmp_le cmp a b = (case cmp a b of Inl _ \<Rightarrow> False | Inr c \<Rightarrow> c \<le> 0)"

text \<open>
  The reference: insert after every element that is not greater.  Folding it over a list is a
  stable insertion sort.
\<close>

fun insert_after :: "('a \<Rightarrow> 'a \<Rightarrow> bool) \<Rightarrow> 'a \<Rightarrow> 'a list \<Rightarrow> 'a list" where
  "insert_after le x [] = [x]"
| "insert_after le x (y # ys) = (if le y x then y # insert_after le x ys else x # y # ys)"

definition stable_sort :: "('a \<Rightarrow> 'a \<Rightarrow> bool) \<Rightarrow> 'a list \<Rightarrow> 'a list" where
  "stable_sort le xs = foldl (\<lambda>ys x. insert_after le x ys) [] xs"

lemma mset_insert_after [simp]: "mset (insert_after le x ys) = add_mset x (mset ys)"
  by (induction ys) auto

lemma set_insert_after [simp]: "set (insert_after le x ys) = insert x (set ys)"
  by (induction ys) auto

lemma length_insert_after [simp]: "length (insert_after le x ys) = Suc (length ys)"
  by (induction ys) auto

lemma insert_after_split:
  assumes "k \<le> length ys" and "\<And>i. i < k \<Longrightarrow> le (ys ! i) x" and "k < length ys \<Longrightarrow> \<not> le (ys ! k) x"
  shows "insert_after le x ys = take k ys @ x # drop k ys"
  using assms
proof (induction ys arbitrary: k)
  case (Cons y ys)
  show ?case
  proof (cases k)
    case (Suc j)
    have "insert_after le x ys = take j ys @ x # drop j ys"
      using Cons.prems Suc by (intro Cons.IH) fastforce+
    then show ?thesis using Cons.prems(2) [of 0] Suc by simp
  qed (use Cons.prems in simp)
qed simp

lemma take_insert_after: "take n (insert_after le x (take n ys)) = take n (insert_after le x ys)"
proof (induction ys arbitrary: n)
  case (Cons y ys)
  then show ?case by (cases n) (auto simp: take_Cons')
qed simp

lemma foldl_take_insert_after:
  "foldl (\<lambda>acc x. take n (insert_after le x acc)) (take n ys) xs =
    take n (foldl (\<lambda>acc x. insert_after le x acc) ys xs)"
proof (induction xs arbitrary: ys)
  case (Cons x xs)
  show ?case using Cons [of "insert_after le x ys"] by (simp add: take_insert_after)
qed simp

lemma set_stable_sort [simp]: "set (stable_sort le xs) = set xs"
proof -
  have "set (foldl (\<lambda>ys x. insert_after le x ys) zs xs) = set zs \<union> set xs" for zs
    by (induction xs arbitrary: zs) auto
  then show ?thesis by (simp add: stable_sort_def)
qed

lemma mset_stable_sort [simp]: "mset (stable_sort le xs) = mset xs"
proof -
  have "mset (foldl (\<lambda>ys x. insert_after le x ys) zs xs) = mset zs + mset xs" for zs
    by (induction xs arbitrary: zs) auto
  then show ?thesis by (simp add: stable_sort_def)
qed

text \<open>What \<^verbatim>\<open>sortedInsert\<close> relies on, for the items that satisfy \<open>ok\<close>.\<close>

locale js_comparator =
  fixes cmp :: "'a \<Rightarrow> 'a \<Rightarrow> js_error + int"
    and ok :: "'a \<Rightarrow> bool"
  assumes cmp_returns: "ok a \<Longrightarrow> ok b \<Longrightarrow> \<exists>c. cmp a b = Inr c"
    and cmp_trans: "ok a \<Longrightarrow> ok b \<Longrightarrow> ok c \<Longrightarrow> cmp_le cmp a b \<Longrightarrow> cmp_le cmp b c \<Longrightarrow> cmp_le cmp a c"
    and cmp_total: "ok a \<Longrightarrow> ok b \<Longrightarrow> cmp_le cmp a b \<or> cmp_le cmp b a"
begin

lemma cmp_cases:
  assumes "ok a" "ok b"
  obtains c where "cmp a b = Inr c" and "c \<le> 0 \<longleftrightarrow> cmp_le cmp a b"
  using cmp_returns [OF assms] by (auto simp: cmp_le_def)

lemma insert_index_correct:
  assumes "sorted_wrt (cmp_le cmp) items" and "\<forall>y\<in>set items. ok y" and "ok x"
    and "lo \<le> hi" and "hi \<le> length items"
    and "\<And>i. i < lo \<Longrightarrow> cmp_le cmp (items ! i) x"
    and "\<And>i. hi \<le> i \<Longrightarrow> i < length items \<Longrightarrow> \<not> cmp_le cmp (items ! i) x"
  shows "\<exists>k \<le> length items. insert_index cmp items x lo hi = Inr k
    \<and> insert_after (cmp_le cmp) x items = take k items @ x # drop k items"
  using assms
proof (induction "hi - lo" arbitrary: lo hi rule: less_induct)
  case less
  show ?case
  proof (cases "lo < hi")
    case False
    with less.prems have "lo = hi" by simp
    with less.prems have "insert_after (cmp_le cmp) x items = take lo items @ x # drop lo items"
      by (intro insert_after_split) auto
    with \<open>lo = hi\<close> less.prems show ?thesis by (simp add: insert_index.simps)
  next
    case True
    define mid where "mid = (lo + hi) div 2"
    have mid: "lo \<le> mid" "mid < hi" using True by (auto simp: mid_def)
    then have "mid < length items" using less.prems by simp
    then have "ok (items ! mid)" using less.prems by simp
    then obtain c where c: "cmp (items ! mid) x = Inr c" "c \<le> 0 \<longleftrightarrow> cmp_le cmp (items ! mid) x"
      using cmp_cases \<open>ok x\<close> by metis
    have before: "cmp_le cmp (items ! i) x" if "i \<le> mid" "c \<le> 0" for i
    proof (cases "i = mid")
      case False
      then have "cmp_le cmp (items ! i) (items ! mid)"
        using that less.prems(1) \<open>mid < length items\<close> by (simp add: sorted_wrt_nth_less)
      then show ?thesis
        using cmp_trans c(2) that less.prems(2,3) \<open>mid < length items\<close>
        by (meson le_less_trans nth_mem)
    qed (use c that in simp)
    have after: "\<not> cmp_le cmp (items ! i) x" if "mid \<le> i" "i < length items" "\<not> c \<le> 0" for i
    proof (cases "i = mid")
      case False
      then have "cmp_le cmp (items ! mid) (items ! i)"
        using that less.prems(1) by (simp add: sorted_wrt_nth_less)
      then show ?thesis
        using cmp_trans c(2) that less.prems(2,3) \<open>ok (items ! mid)\<close> by (meson nth_mem)
    qed (use c that in simp)
    have unfold: "insert_index cmp items x lo hi =
        (if c \<le> 0 then insert_index cmp items x (mid + 1) hi else insert_index cmp items x lo mid)"
      using True c(1) by (simp add: insert_index.simps [of cmp items x lo hi] mid_def Let_def)
    show ?thesis
    proof (cases "c \<le> 0")
      case True
      then show ?thesis unfolding unfold
        using less.hyps [of hi "mid + 1"] less.prems mid before by simp
    next
      case False
      then show ?thesis unfolding unfold
        using less.hyps [of mid lo] less.prems mid after by simp
    qed
  qed
qed

lemma insert_after_last:
  assumes "sorted_wrt (cmp_le cmp) items" and "\<forall>y\<in>set items. ok y" and "ok x"
    and "items \<noteq> []" and "cmp_le cmp (last items) x"
  shows "insert_after (cmp_le cmp) x items = items @ [x]"
proof -
  have "cmp_le cmp y x" if "y \<in> set items" for y
  proof (cases "y = last items")
    case False
    have "items = butlast items @ [last items]" using assms(4) by simp
    with False that assms(1) have "cmp_le cmp y (last items)"
      by (metis Un_iff append_butlast_last_id empty_iff empty_set set_ConsD set_append
          sorted_wrt_append list.set_intros(1))
    then show ?thesis using cmp_trans assms that by (meson last_in_set)
  qed (use assms in simp)
  then have "\<And>i. i < length items \<Longrightarrow> cmp_le cmp (items ! i) x" by simp
  then show ?thesis by (subst insert_after_split [of "length items"]) simp_all
qed

lemma sorted_insert_after:
  assumes "sorted_wrt (cmp_le cmp) items" and "\<forall>y\<in>set items. ok y" and "ok x"
  shows "sorted_wrt (cmp_le cmp) (insert_after (cmp_le cmp) x items)"
  using assms
proof (induction items)
  case (Cons y ys)
  then have "cmp_le cmp x y" if "\<not> cmp_le cmp y x" using cmp_total that by auto
  with Cons show ?case by (auto intro: cmp_trans)
qed simp

theorem sortedInsert_correct:
  assumes "sorted_wrt (cmp_le cmp) items" and "\<forall>y\<in>set items. ok y" and "ok x"
    and "0 < maxSize" and "length items \<le> maxSize"
  shows "sortedInsert items x maxSize cmp =
    Inr (if length items = maxSize then Some (last (insert_after (cmp_le cmp) x items)) else None,
         take maxSize (insert_after (cmp_le cmp) x items))"
proof (cases "items = []")
  case True
  then show ?thesis using assms by (simp add: sortedInsert_def)
next
  case False
  let ?ins = "insert_after (cmp_le cmp) x items"
  obtain k where k: "insert_index cmp items x 0 (length items) = Inr k" "?ins = take k items @ x # drop k items"
    using insert_index_correct [OF assms(1-3), of 0 "length items"] by auto
  have full: "butlast ?ins = take maxSize ?ins" if "length items = maxSize"
    using that by (simp add: butlast_conv_take)
  show ?thesis
  proof (cases "length items = maxSize")
    case True
    have last: "items ! (length items - 1) = last items" using False by (simp add: last_conv_nth)
    obtain c where c: "cmp (last items) x = Inr c" "c \<le> 0 \<longleftrightarrow> cmp_le cmp (last items) x"
      using cmp_cases [of "last items" x] assms False by auto
    show ?thesis
    proof (cases "c \<le> 0")
      case le: True
      then have "?ins = items @ [x]" using insert_after_last assms False c by simp
      then show ?thesis using le True False assms(4) c last by (simp add: sortedInsert_def Let_def)
    next
      case gt: False
      then show ?thesis
        using True False assms(4) c last full [OF True] k by (simp add: sortedInsert_def Let_def)
    qed
  next
    case notfull: False
    then have "take maxSize ?ins = ?ins" using assms(5) by simp
    then show ?thesis using notfull False assms(4,5) k by (simp add: sortedInsert_def Let_def)
  qed
qed

text \<open>
  The list stays sorted and within the limit; nothing is lost but the item that is returned, and
  that one comes after every item kept.
\<close>

theorem sortedInsert_keeps_best:
  assumes "sorted_wrt (cmp_le cmp) items" and "\<forall>y\<in>set items. ok y" and "ok x"
    and "0 < maxSize" and "length items \<le> maxSize"
  shows "\<exists>removed items'. sortedInsert items x maxSize cmp = Inr (removed, items') \<and>
    sorted_wrt (cmp_le cmp) items' \<and> length items' \<le> maxSize \<and>
    mset items' + mset (case removed of None \<Rightarrow> [] | Some r \<Rightarrow> [r]) = add_mset x (mset items) \<and>
    sorted_wrt (cmp_le cmp) (items' @ (case removed of None \<Rightarrow> [] | Some r \<Rightarrow> [r]))"
proof -
  let ?ins = "insert_after (cmp_le cmp) x items"
  have sorted: "sorted_wrt (cmp_le cmp) ?ins" using assms by (intro sorted_insert_after)
  have split: "take maxSize ?ins @ (if length items = maxSize then [last ?ins] else []) = ?ins"
  proof (cases "length items = maxSize")
    case True
    then have "take maxSize ?ins = butlast ?ins" by (simp add: butlast_conv_take)
    moreover have "?ins \<noteq> []" using length_insert_after [of "cmp_le cmp" x items] by (metis Zero_not_Suc list.size(3))
    ultimately show ?thesis using True by simp
  qed (use assms(5) in simp)
  let ?rem = "if length items = maxSize then Some (last ?ins) else None"
  have opt: "(case ?rem of None \<Rightarrow> [] | Some r \<Rightarrow> [r]) = (if length items = maxSize then [last ?ins] else [])" by simp
  show ?thesis
  proof (intro exI conjI)
    show "sortedInsert items x maxSize cmp = Inr (?rem, take maxSize ?ins)" by (rule sortedInsert_correct [OF assms])
    show "sorted_wrt (cmp_le cmp) (take maxSize ?ins)" by (rule sorted_wrt_take [OF sorted])
    show "mset (take maxSize ?ins) + mset (case ?rem of None \<Rightarrow> [] | Some r \<Rightarrow> [r]) = add_mset x (mset items)"
      unfolding opt mset_append [symmetric] split by simp
    show "sorted_wrt (cmp_le cmp) (take maxSize ?ins @ (case ?rem of None \<Rightarrow> [] | Some r \<Rightarrow> [r]))"
      unfolding opt split by (rule sorted)
  qed simp
qed

lemma stable_sort_sorted:
  assumes "\<forall>y\<in>set xs. ok y"
  shows "sorted_wrt (cmp_le cmp) (stable_sort (cmp_le cmp) xs)"
proof -
  have "sorted_wrt (cmp_le cmp) (foldl (\<lambda>ys x. insert_after (cmp_le cmp) x ys) zs xs)"
    if "\<forall>y\<in>set zs. ok y" "sorted_wrt (cmp_le cmp) zs" for zs
    using assms that
  proof (induction xs arbitrary: zs)
    case (Cons x xs)
    then show ?case by (simp add: sorted_insert_after)
  qed simp
  then show ?thesis by (simp add: stable_sort_def)
qed

end

end
