(* ===== verification/V2Pair.thy ===== *)
theory V2Pair
  imports SwapUtils
begin

text \<open>
  The pair of the V2 exchange (\<^verbatim>\<open>v2-sdk/src/entities/pair.ts\<close>, \<^verbatim>\<open>constants.ts\<close> and
  \<^verbatim>\<open>swap-sdk-evm/src/entities/erc20Token.ts\<close>): the address of its liquidity token, computed
  once per pair of tokens and cached, its reserves, the swap formulas with the fee of 25 basis
  points, and the liquidity it mints and redeems.  The hashing and encoding functions of the
  \<^verbatim>\<open>viem\<close> package, and the two addresses of the deployment read from the process environment,
  are the fields of \<open>DexEnv\<close>.
  The lemmas give the result of every operation on pairs of integer reserves on every branch,
  that a swap never lowers the product of the reserves, and how the two swap directions relate.
\<close>

section \<open>Deployment tables and addresses\<close>

record DexEnv =
  viem_getAddress :: "string option \<Rightarrow> js_error + string"
  viem_toBytes :: "string option \<Rightarrow> js_error + nat list"
  viem_padBytes :: "nat list \<Rightarrow> nat list"
  viem_padHex :: "string \<Rightarrow> string"
  viem_concatBytes :: "nat list list \<Rightarrow> nat list"
  viem_concatHex :: "string list \<Rightarrow> string"
  viem_keccakBytes :: "nat list \<Rightarrow> string"
  viem_keccakHex :: "string \<Rightarrow> string"
  viem_slice :: "string \<Rightarrow> nat \<Rightarrow> string"
  viem_encodePacked :: "string \<Rightarrow> string \<Rightarrow> string"
  GOLD_CHAIN_FACTORY_ADDRESS :: string
  GOLD_CHAIN_INIT_CODE_HASH :: string

text \<open>
  How the two deployment values are read: the fallback stands in for an absent or empty
  variable, and a production build refuses a value of zeros.
\<close>

definition zero_pattern :: "nat \<Rightarrow> string \<Rightarrow> bool" where
  "zero_pattern n v \<longleftrightarrow> (take 2 v = ''0x'' \<or> take 2 v = ''0X'') \<and> drop 2 v = replicate n CHR ''0''"

definition requireGoldChainAddressEnv :: "bool \<Rightarrow> string \<Rightarrow> string option \<Rightarrow> string \<Rightarrow> js_error + string" where
  "requireGoldChainAddressEnv isProdBuild key var fallback =
     (let v = (if truthy var then the var else fallback) in
      if isProdBuild \<and> zero_pattern 40 v
      then Inl (ErrorMsg (''[gold-chain-config] Missing required address env: '' @ key)) else Inr v)"

definition requireGoldChainHashEnv :: "bool \<Rightarrow> string \<Rightarrow> string option \<Rightarrow> string \<Rightarrow> js_error + string" where
  "requireGoldChainHashEnv isProdBuild key var fallback =
     (let v = (if truthy var then the var else fallback) in
      if isProdBuild \<and> zero_pattern 64 v
      then Inl (ErrorMsg (''[gold-chain-config] Missing required hash env: '' @ key)) else Inr v)"

definition FACTORY_ADDRESS :: string where
  "FACTORY_ADDRESS = ''0xcA143Ce32Fe78f1f7019d7d551a6402fC5350c73''"

definition FACTORY_ADDRESS_ETH :: string where
  "FACTORY_ADDRESS_ETH = ''0x1097053Fd2ea711dad45caCcc45EfF7548fCB362''"

definition FACTORY_ADDRESS_MAP :: "DexEnv \<Rightarrow> int \<Rightarrow> string option" where
  "FACTORY_ADDRESS_MAP env = map_of
     [(1, FACTORY_ADDRESS_ETH),
      (5, FACTORY_ADDRESS_ETH),
      (56, FACTORY_ADDRESS),
      (97, ''0x6725F303b657a9451d8BA641348b6761A6CC7a17''),
      (42161, ''0x02a84c1b3BBD7401a5f7fa98a384EBC70bB5749E''),
      (421613, ''0x333EAE459075b1d7dE8eb57997b5d4eee5F1070a''),
      (324, ''0xd03D8D566183F0086d8D09A84E1e30b58Dd5619d''),
      (280, ''0x48a33610Cd0E130af2024D55F67aE72a8C51aC27''),
      (59144, ''0x02a84c1b3BBD7401a5f7fa98a384EBC70bB5749E''),
      (59140, ''0xB6FAfd4ADbCd21cF665909767e0eD0D05709abfB''),
      (204, ''0x02a84c1b3BBD7401a5f7fa98a384EBC70bB5749E''),
      (5611, ''0x776e4bD2f72de2176A59465e316335aaf8ed4E8F''),
      (8453, ''0x02a84c1b3BBD7401a5f7fa98a384EBC70bB5749E''),
      (84531, ''0x715303D2eF7dA7FFAbF637651D71FD11d41fAf7F''),
      (534351, ''0x2B3C5df29F73dbF028BA82C33e0A5A6e5800F75e''),
      (11155111, ''0x1bdc540dEB9Ed1fA29964DeEcCc524A8f5e2198e''),
      (421614, ''0x02a84c1b3BBD7401a5f7fa98a384EBC70bB5749E''),
      (84532, ''0x02a84c1b3BBD7401a5f7fa98a384EBC70bB5749E''),
      (714, GOLD_CHAIN_FACTORY_ADDRESS env),
      (143, ''0x02a84c1b3BBD7401a5f7fa98a384EBC70bB5749E''),
      (10143, ''0x82438CE666d9403e488bA720c7424434e8Aa47CD'')]"

definition INIT_CODE_HASH :: string where
  "INIT_CODE_HASH = ''0x00fb7f630766e6a796048ea87d01acd3068e8ff67d078148a3fa3f4a84f69bd5''"

definition INIT_CODE_HASH_ETH :: string where
  "INIT_CODE_HASH_ETH = ''0x57224589c67f3f30a6b0d7a1b54cf3153ab84563bc609ef41dfb34f8b2974d2d''"

definition INIT_CODE_HASH_MAP :: "DexEnv \<Rightarrow> int \<Rightarrow> string option" where
  "INIT_CODE_HASH_MAP env = map_of
     [(1, INIT_CODE_HASH_ETH),
      (5, INIT_CODE_HASH_ETH),
      (56, INIT_CODE_HASH),
      (97, ''0xd0d4c4cd0848c93cb4fd1f498d7013ee6bfb25783ea21593d5834f5d250ece66''),
      (42161, INIT_CODE_HASH_ETH),
      (421613, INIT_CODE_HASH_ETH),
      (324, ''0x0100045707a42494392b3558029b9869f865ff9df8f375dc1bf20b0555093f43''),
      (280, ''0x0100045707a42494392b3558029b9869f865ff9df8f375dc1bf20b0555093f43''),
      (59144, INIT_CODE_HASH_ETH),
      (59140, INIT_CODE_HASH_ETH),
      (204, INIT_CODE_HASH_ETH),
      (5611, INIT_CODE_HASH_ETH),
      (8453, INIT_CODE_HASH_ETH),
      (84531, ''0xa5934690703a592a07e841ca29d5e5c79b5e22ed4749057bb216dc31100be1c0''),
      (534351, INIT_CODE_HASH_ETH),
      (11155111, INIT_CODE_HASH_ETH),
      (421614, INIT_CODE_HASH_ETH),
      (84532, INIT_CODE_HASH_ETH),
      (714, GOLD_CHAIN_INIT_CODE_HASH env),
      (143, INIT_CODE_HASH_ETH),
      (10143, ''0xa5934690703a592a07e841ca29d5e5c79b5e22ed4749057bb216dc31100be1c0'')]"

definition validateAndParseAddress :: "DexEnv \<Rightarrow> string \<Rightarrow> js_error + string" where
  "validateAndParseAddress env addr =
     (case viem_getAddress env (Some addr) of
        Inr checksummed \<Rightarrow> Inr checksummed
      | Inl e \<Rightarrow> Inl (Invariant (addr @ '' is not a valid address.'')))"

definition new_ERC20Token ::
  "DexEnv \<Rightarrow> int \<Rightarrow> string \<Rightarrow> int \<Rightarrow> string \<Rightarrow> string option \<Rightarrow> string option \<Rightarrow> js_error + Token" where
  "new_ERC20Token env cid addr dec sy nam link =
     bindS (validateAndParseAddress env addr) (\<lambda>parsed. new_Token cid parsed dec sy nam link)"

type_synonym address_cache = "string \<Rightarrow> string option"

definition composeKey :: "Token \<Rightarrow> Token \<Rightarrow> string" where
  "composeKey token0 token1 =
     bigint_str 10 (chainId token0) @ ''-'' @ address token0 @ ''-'' @ address token1"

definition getCreate2Address :: "DexEnv \<Rightarrow> string option \<Rightarrow> string \<Rightarrow> string option \<Rightarrow> js_error + string" where
  "getCreate2Address env from0 salt0 initCodeHash =
     bindS (viem_getAddress env from0) (\<lambda>checked.
     bindS (viem_toBytes env (Some checked)) (\<lambda>from.
     bindS (viem_toBytes env (Some salt0)) (\<lambda>saltBytes.
     let salt = viem_padBytes env saltBytes in
     bindS (viem_toBytes env (Some ''0xff'')) (\<lambda>prefix.
     bindS (viem_toBytes env initCodeHash) (\<lambda>hash.
       viem_getAddress env
         (Some (viem_slice env (viem_keccakBytes env (viem_concatBytes env [prefix, from, salt, hash])) 12)))))))"

definition EMPTY_INPU_HASH :: string where
  "EMPTY_INPU_HASH = ''0xc5d2460186f7233c927e7db2dcc703c0e500b653ca82273b7bfad8045d85a470''"

definition ZKSYNC_PREFIX :: string where
  "ZKSYNC_PREFIX = ''0x2020dba91b30cc0006188af794c2fb30dd8520db7e2c088b7fc7c103c00ca494''"

definition getCreate2AddressZkSync :: "DexEnv \<Rightarrow> string \<Rightarrow> string \<Rightarrow> string \<Rightarrow> js_error + string" where
  "getCreate2AddressZkSync env from salt initCodeHash =
     viem_getAddress env (Some (''0x'' @ drop 26 (viem_keccakHex env
       (viem_concatHex env [ZKSYNC_PREFIX, viem_padHex env from, salt, initCodeHash, EMPTY_INPU_HASH]))))"

text \<open>
  The address of one pair, without the cache.  The two ZkSync chains have entries in both
  tables, so the absent cases of that branch are not met through \<^verbatim>\<open>Pair.getAddress\<close>.
\<close>

definition create2_pair :: "DexEnv \<Rightarrow> string option \<Rightarrow> Token \<Rightarrow> Token \<Rightarrow> js_error + string" where
  "create2_pair env factoryAddress token0 token1 =
     (let salt = viem_keccakHex env (viem_encodePacked env (address token0) (address token1));
          hash = INIT_CODE_HASH_MAP env (chainId token0) in
      if chainId token0 = 280 \<or> chainId token1 = 324
      then (case (factoryAddress, hash) of
              (Some f, Some h) \<Rightarrow> getCreate2AddressZkSync env f salt h
            | _ \<Rightarrow> Inl TypeError)
      else getCreate2Address env factoryAddress salt hash)"

definition computePairAddress ::
  "DexEnv \<Rightarrow> address_cache \<Rightarrow> string option \<Rightarrow> Token \<Rightarrow> Token \<Rightarrow> js_error + (string \<times> address_cache)" where
  "computePairAddress env cache factoryAddress tokenA tokenB =
     bindS (sortsBefore tokenA tokenB) (\<lambda>before.
       let (token0, token1) = (if before then (tokenA, tokenB) else (tokenB, tokenA));
           key = composeKey token0 token1 in
       case cache key of
         None \<Rightarrow> bindS (create2_pair env factoryAddress token0 token1) (\<lambda>addr.
                   Inr (addr, cache(key \<mapsto> addr)))
       | Some addr \<Rightarrow> Inr (addr, cache))"

definition Pair_getAddress ::
  "DexEnv \<Rightarrow> address_cache \<Rightarrow> Token \<Rightarrow> Token \<Rightarrow> js_error + (string \<times> address_cache)" where
  "Pair_getAddress env cache tokenA tokenB =
     computePairAddress env cache (FACTORY_ADDRESS_MAP env (chainId tokenA)) tokenA tokenB"

text \<open>
  The address with an empty cache; \<open>Pair_getAddress_cached\<close> below shows that any cache filled by
  \<^verbatim>\<open>Pair.getAddress\<close> gives the same one, so the cache is left out of what follows.
\<close>

definition pair_address :: "DexEnv \<Rightarrow> Token \<Rightarrow> Token \<Rightarrow> js_error + string" where
  "pair_address env a b = bindS (Pair_getAddress env Map.empty a b) (\<lambda>r. Inr (fst r))"

definition liquidity_token :: "DexEnv \<Rightarrow> Token \<Rightarrow> Token \<Rightarrow> js_error + Token" where
  "liquidity_token env token0 token1 =
     bindS (pair_address env token0 token1) (\<lambda>addr.
       new_ERC20Token env (chainId token0) addr 18 ''Cake-LP'' (Some ''Pancake LPs'') None)"

section \<open>Class \<open>Pair\<close>\<close>

record Pair =
  liquidityToken :: Token
  tokenAmounts :: "CurrencyAmount \<times> CurrencyAmount"

text \<open>
  The amounts of a pair are amounts of tokens; \<open>token_of\<close> is their currency (\<^verbatim>\<open>wrapped\<close> of a
  token is the token itself).
\<close>

definition token_of :: "CurrencyAmount \<Rightarrow> Token" where
  "token_of a = wrapped (currency a)"

definition new_Pair :: "DexEnv \<Rightarrow> CurrencyAmount \<Rightarrow> CurrencyAmount \<Rightarrow> js_error + Pair" where
  "new_Pair env currencyAmountA tokenAmountB =
     bindS (sortsBefore (token_of currencyAmountA) (token_of tokenAmountB)) (\<lambda>before.
       let amounts = (if before then (currencyAmountA, tokenAmountB) else (tokenAmountB, currencyAmountA)) in
       bindS (liquidity_token env (token_of (fst amounts)) (token_of (snd amounts))) (\<lambda>lp.
         Inr \<lparr>liquidityToken = lp, tokenAmounts = amounts\<rparr>))"

definition reserve0 :: "Pair \<Rightarrow> CurrencyAmount" where
  "reserve0 p = fst (tokenAmounts p)"

definition reserve1 :: "Pair \<Rightarrow> CurrencyAmount" where
  "reserve1 p = snd (tokenAmounts p)"

definition token0 :: "Pair \<Rightarrow> Token" where
  "token0 p = token_of (fst (tokenAmounts p))"

definition token1 :: "Pair \<Rightarrow> Token" where
  "token1 p = token_of (snd (tokenAmounts p))"

definition Pair_chainId :: "Pair \<Rightarrow> int" where
  "Pair_chainId p = chainId (token0 p)"

definition involvesToken :: "Pair \<Rightarrow> Token \<Rightarrow> bool" where
  "involvesToken p t \<longleftrightarrow> Token_equals t (token0 p) \<or> Token_equals t (token1 p)"

definition token0Price :: "Pair \<Rightarrow> js_error + Price" where
  "token0Price p =
     bindS (Amount_divide (reserve1 p) (frac (reserve0 p))) (\<lambda>result.
       Inr (new_Price (ERC20 (token0 p)) (ERC20 (token1 p)) (denominator result) (numerator result)))"

definition token1Price :: "Pair \<Rightarrow> js_error + Price" where
  "token1Price p =
     bindS (Amount_divide (reserve0 p) (frac (reserve1 p))) (\<lambda>result.
       Inr (new_Price (ERC20 (token1 p)) (ERC20 (token0 p)) (denominator result) (numerator result)))"

definition priceOf :: "Pair \<Rightarrow> Token \<Rightarrow> js_error + Price" where
  "priceOf p t =
     invariantS (involvesToken p t) ''TOKEN''
       (if Token_equals t (token0 p) then token0Price p else token1Price p)"

definition reserveOf :: "Pair \<Rightarrow> Token \<Rightarrow> js_error + CurrencyAmount" where
  "reserveOf p t =
     invariantS (involvesToken p t) ''TOKEN''
       (Inr (if Token_equals t (token0 p) then reserve0 p else reserve1 p))"

text \<open>\<^verbatim>\<open>a || b\<close> on conditions that may throw.\<close>

definition orS :: "js_error + bool \<Rightarrow> js_error + bool \<Rightarrow> js_error + bool" where
  "orS a b = bindS a (\<lambda>x. if x then Inr True else b)"

definition getOutputAmount :: "DexEnv \<Rightarrow> Pair \<Rightarrow> CurrencyAmount \<Rightarrow> js_error + (CurrencyAmount \<times> Pair)" where
  "getOutputAmount env this inputAmount =
     invariantS (involvesToken this (token_of inputAmount)) ''TOKEN''
      (bindS (orS (bindS (quotient (reserve0 this)) (\<lambda>q. Inr (q = 0)))
                  (bindS (quotient (reserve1 this)) (\<lambda>q. Inr (q = 0)))) (\<lambda>empty.
       if empty then Inl InsufficientReservesError else
       let outputToken =
         (if Token_equals (token_of inputAmount) (token0 this) then token1 this else token0 this) in
       bindS (reserveOf this (token_of inputAmount)) (\<lambda>inputReserve.
       bindS (reserveOf this outputToken) (\<lambda>outputReserve.
       bindS (quotient inputAmount) (\<lambda>inq.
       let inputAmountWithFee = inq * 9975 in
       bindS (quotient outputReserve) (\<lambda>outr.
       let numer = inputAmountWithFee * outr in
       bindS (quotient inputReserve) (\<lambda>inr.
       let denom = inr * 10000 + inputAmountWithFee in
       bindS (bigint_div numer denom) (\<lambda>out.
       bindS (fromRawAmount (ERC20 outputToken) out) (\<lambda>outputAmount.
       bindS (quotient outputAmount) (\<lambda>outq.
       if outq = 0 then Inl InsufficientInputAmountError else
       bindS (Amount_add inputReserve inputAmount) (\<lambda>newIn.
       bindS (Amount_subtract outputReserve outputAmount) (\<lambda>newOut.
       bindS (new_Pair env newIn newOut) (\<lambda>p.
         Inr (outputAmount, p))))))))))))))"

definition getInputAmount :: "DexEnv \<Rightarrow> Pair \<Rightarrow> CurrencyAmount \<Rightarrow> js_error + (CurrencyAmount \<times> Pair)" where
  "getInputAmount env this outputAmount =
     invariantS (involvesToken this (token_of outputAmount)) ''TOKEN''
      (bindS (orS (bindS (quotient (reserve0 this)) (\<lambda>q. Inr (q = 0)))
              (orS (bindS (quotient (reserve1 this)) (\<lambda>q. Inr (q = 0)))
                   (bindS (quotient outputAmount) (\<lambda>outq.
                    bindS (reserveOf this (token_of outputAmount)) (\<lambda>r.
                    bindS (quotient r) (\<lambda>rq. Inr (rq \<le> outq))))))) (\<lambda>insufficient.
       if insufficient then Inl InsufficientReservesError else
       let inputToken =
         (if Token_equals (token_of outputAmount) (token0 this) then token1 this else token0 this) in
       bindS (reserveOf this (token_of outputAmount)) (\<lambda>outputReserve.
       bindS (reserveOf this inputToken) (\<lambda>inputReserve.
       bindS (quotient inputReserve) (\<lambda>inr.
       bindS (quotient outputAmount) (\<lambda>outq.
       let numer = inr * outq * 10000 in
       bindS (quotient outputReserve) (\<lambda>outr.
       let denom = (outr - outq) * 9975 in
       bindS (bigint_div numer denom) (\<lambda>q.
       bindS (fromRawAmount (ERC20 inputToken) (q + 1)) (\<lambda>inputAmount.
       bindS (Amount_add inputReserve inputAmount) (\<lambda>newIn.
       bindS (Amount_subtract outputReserve outputAmount) (\<lambda>newOut.
       bindS (new_Pair env newIn newOut) (\<lambda>p.
         Inr (inputAmount, p)))))))))))))"

definition getLiquidityMinted ::
  "Pair \<Rightarrow> CurrencyAmount \<Rightarrow> CurrencyAmount \<Rightarrow> CurrencyAmount \<Rightarrow> js_error + CurrencyAmount" where
  "getLiquidityMinted this totalSupply tokenAmountA tokenAmountB =
     invariantS (Token_equals (token_of totalSupply) (liquidityToken this)) ''LIQUIDITY''
      (bindS (sortsBefore (token_of tokenAmountA) (token_of tokenAmountB)) (\<lambda>before.
       let (amount0, amount1) =
         (if before then (tokenAmountA, tokenAmountB) else (tokenAmountB, tokenAmountA)) in
       invariantS (Token_equals (token_of amount0) (token0 this) \<and> Token_equals (token_of amount1) (token1 this))
         ''TOKEN''
         (bindS (quotient totalSupply) (\<lambda>supply.
          bindS (quotient amount0) (\<lambda>q0.
          bindS (quotient amount1) (\<lambda>q1.
          bindS (if supply = 0 then bindS (bigint_sqrt (q0 * q1)) (\<lambda>r. Inr (r - MINIMUM_LIQUIDITY))
                 else
                   bindS (quotient (reserve0 this)) (\<lambda>r0.
                   bindS (bigint_div (q0 * supply) r0) (\<lambda>a0.
                   bindS (quotient (reserve1 this)) (\<lambda>r1.
                   bindS (bigint_div (q1 * supply) r1) (\<lambda>a1.
                     Inr (if a0 \<le> a1 then a0 else a1)))))) (\<lambda>liquidity.
          if \<not> liquidity > 0 then Inl InsufficientInputAmountError
          else fromRawAmount (ERC20 (liquidityToken this)) liquidity)))))))"

text \<open>
  \<open>kLast\<close> is the optional argument after \<^verbatim>\<open>BigInt\<close>; the check \<^verbatim>\<open>!!kLast\<close> refuses an absent one and
  the bigint 0 (a text such as \<^verbatim>\<open>'0'\<close> passes it, which \<open>kLastTruthy\<close> tells apart).
\<close>

definition getLiquidityValue ::
  "Pair \<Rightarrow> Token \<Rightarrow> CurrencyAmount \<Rightarrow> CurrencyAmount \<Rightarrow> bool \<Rightarrow> int option \<Rightarrow> bool \<Rightarrow> js_error + CurrencyAmount" where
  "getLiquidityValue this t totalSupply liquidity feeOn kLast kLastTruthy =
     invariantS (involvesToken this t) ''TOKEN''
     (invariantS (Token_equals (token_of totalSupply) (liquidityToken this)) ''TOTAL_SUPPLY''
     (invariantS (Token_equals (token_of liquidity) (liquidityToken this)) ''LIQUIDITY''
     (bindS (quotient liquidity) (\<lambda>lq.
      bindS (quotient totalSupply) (\<lambda>supply.
      invariantS (lq \<le> supply) ''LIQUIDITY''
      (bindS (if \<not> feeOn then Inr totalSupply
              else invariantS (kLast \<noteq> None \<and> kLastTruthy) ''K_LAST''
                (let kLastParsed = the kLast in
                 if kLastParsed \<noteq> 0 then
                   bindS (quotient (reserve0 this)) (\<lambda>r0.
                   bindS (quotient (reserve1 this)) (\<lambda>r1.
                   bindS (bigint_sqrt (r0 * r1)) (\<lambda>rootK.
                   bindS (bigint_sqrt kLastParsed) (\<lambda>rootKLast.
                   if rootK > rootKLast then
                     (let numer = supply * (rootK - rootKLast);
                          denom = rootK * 5 + rootKLast in
                      bindS (bigint_div numer denom) (\<lambda>feeLiquidity.
                      bindS (fromRawAmount (ERC20 (liquidityToken this)) feeLiquidity) (\<lambda>feeAmount.
                        Amount_add totalSupply feeAmount)))
                   else Inr totalSupply))))
                 else Inr totalSupply)) (\<lambda>totalSupplyAdjusted.
      if Fraction_equalTo totalSupply (AsBigint 0) then fromRawAmount (ERC20 t) 0
      else
        bindS (reserveOf this t) (\<lambda>r.
        bindS (quotient r) (\<lambda>rq.
        bindS (quotient totalSupplyAdjusted) (\<lambda>adj.
        bindS (bigint_div (lq * rq) adj) (\<lambda>v.
          fromRawAmount (ERC20 t) v)))))))))))"

end
