(* ===== verification/V2Trade.thy ===== *)
theory V2Trade
  imports V2Pair
begin

text \<open>
  Routes and trades of the V2 exchange (\<^verbatim>\<open>v2-sdk/src/entities/route.ts\<close>, \<^verbatim>\<open>entities/trade.ts\<close>,
  \<^verbatim>\<open>trade.ts\<close> and \<^verbatim>\<open>router.ts\<close>): a route through a list of pairs, the amounts of a trade along
  it, its slippage bounds, the search for the best trades over a set of pairs, and the call of
  the router contract that executes a trade.  A loop over an array is a fold or a map that ends
  at the first throw; the list of best trades the search mutates is threaded through it.
\<close>

section \<open>Class \<open>Route\<close>\<close>

fun foldS :: "('b \<Rightarrow> 'a \<Rightarrow> js_error + 'b) \<Rightarrow> 'b \<Rightarrow> 'a list \<Rightarrow> js_error + 'b" where
  "foldS f acc [] = Inr acc"
| "foldS f acc (x # xs) = bindS (f acc x) (\<lambda>a. foldS f a xs)"

record Route =
  pairs :: "Pair list"
  path :: "Token list"
  routeInput :: Currency
  routeOutput :: Currency

text \<open>The path the constructor builds: each pair turns the current token into its other token.\<close>

fun route_path :: "Token \<Rightarrow> Pair list \<Rightarrow> js_error + Token list" where
  "route_path currentInput [] = Inr [currentInput]"
| "route_path currentInput (pair # ps) =
     invariantS (Token_equals currentInput (token0 pair) \<or> Token_equals currentInput (token1 pair)) ''PATH''
       (bindS (route_path (if Token_equals currentInput (token0 pair) then token1 pair else token0 pair) ps)
         (\<lambda>rest. Inr (currentInput # rest)))"

definition new_Route :: "Pair list \<Rightarrow> Currency \<Rightarrow> Currency \<Rightarrow> js_error + Route" where
  "new_Route ps inp outp =
     invariantS (ps \<noteq> []) ''PAIRS''
      (invariantS (list_all (\<lambda>pair. Pair_chainId pair = Pair_chainId (hd ps)) ps) ''CHAIN_IDS''
       (let wrappedInput = wrapped inp in
        invariantS (involvesToken (hd ps) wrappedInput) ''INPUT''
         (invariantS (involvesToken (last ps) (wrapped outp)) ''OUTPUT''
           (bindS (route_path wrappedInput ps) (\<lambda>pth.
             Inr \<lparr>pairs = ps, path = pth, routeInput = inp, routeOutput = outp\<rparr>)))))"

definition hop_price :: "Token \<Rightarrow> Pair \<Rightarrow> js_error + Price" where
  "hop_price t pair =
     bindS (quotient (reserve0 pair)) (\<lambda>q0.
     bindS (quotient (reserve1 pair)) (\<lambda>q1.
       Inr (if Token_equals t (token0 pair)
            then new_Price (currency (reserve0 pair)) (currency (reserve1 pair)) q0 q1
            else new_Price (currency (reserve1 pair)) (currency (reserve0 pair)) q1 q0)))"

definition midPrice :: "Route \<Rightarrow> js_error + Price" where
  "midPrice r =
     bindS (mapS (\<lambda>(t, pair). hop_price t pair) (zip (path r) (pairs r))) (\<lambda>prices.
     bindS (foldS Price_multiply (hd prices) (tl prices)) (\<lambda>reduced.
       Inr (new_Price (routeInput r) (routeOutput r) (denominator reduced) (numerator reduced))))"

definition Route_chainId :: "Route \<Rightarrow> int" where
  "Route_chainId r = Pair_chainId (hd (pairs r))"

section \<open>Class \<open>Trade\<close>\<close>

record Trade =
  trade_route :: Route
  tradeType :: TradeType
  inputAmount :: CurrencyAmount
  outputAmount :: CurrencyAmount
  executionPrice :: Price
  priceImpact :: Percent

text \<open>The amounts along a route, forwards from an input and backwards from an output.\<close>

definition amounts_out :: "DexEnv \<Rightarrow> CurrencyAmount \<Rightarrow> Pair list \<Rightarrow> js_error + CurrencyAmount" where
  "amounts_out env a ps = foldS (\<lambda>amount pair. bindS (getOutputAmount env pair amount) (\<lambda>r. Inr (fst r))) a ps"

definition amounts_in :: "DexEnv \<Rightarrow> CurrencyAmount \<Rightarrow> Pair list \<Rightarrow> js_error + CurrencyAmount" where
  "amounts_in env a ps = foldS (\<lambda>amount pair. bindS (getInputAmount env pair amount) (\<lambda>r. Inr (fst r))) a (rev ps)"

definition new_Trade :: "DexEnv \<Rightarrow> Route \<Rightarrow> CurrencyAmount \<Rightarrow> TradeType \<Rightarrow> js_error + Trade" where
  "new_Trade env route amount tt =
     bindS
      (case tt of
         EXACT_INPUT \<Rightarrow>
           invariantS (Currency_equals (currency amount) (routeInput route)) ''INPUT''
            (bindS (Amount_wrapped amount) (\<lambda>first.
             bindS (amounts_out env first (pairs route)) (\<lambda>last.
             bindS (fromFractionalAmount (routeInput route) (numerator amount) (denominator amount)) (\<lambda>inp.
             bindS (fromFractionalAmount (routeOutput route) (numerator last) (denominator last)) (\<lambda>outp.
               Inr (inp, outp))))))
       | EXACT_OUTPUT \<Rightarrow>
           invariantS (Currency_equals (currency amount) (routeOutput route)) ''OUTPUT''
            (bindS (Amount_wrapped amount) (\<lambda>last.
             bindS (amounts_in env last (pairs route)) (\<lambda>first.
             bindS (fromFractionalAmount (routeInput route) (numerator first) (denominator first)) (\<lambda>inp.
             bindS (fromFractionalAmount (routeOutput route) (numerator amount) (denominator amount)) (\<lambda>outp.
               Inr (inp, outp)))))))
      (\<lambda>(inp, outp).
       bindS (quotient inp) (\<lambda>inq.
       bindS (quotient outp) (\<lambda>outq.
       bindS (midPrice route) (\<lambda>mid.
       bindS (computePriceImpact mid inp outp) (\<lambda>impact.
         Inr \<lparr>trade_route = route, tradeType = tt, inputAmount = inp, outputAmount = outp,
              executionPrice = new_Price (currency inp) (currency outp) inq outq,
              priceImpact = impact\<rparr>)))))"

definition exactIn :: "DexEnv \<Rightarrow> Route \<Rightarrow> CurrencyAmount \<Rightarrow> js_error + Trade" where
  "exactIn env route amountIn = new_Trade env route amountIn EXACT_INPUT"

definition exactOut :: "DexEnv \<Rightarrow> Route \<Rightarrow> CurrencyAmount \<Rightarrow> js_error + Trade" where
  "exactOut env route amountOut = new_Trade env route amountOut EXACT_OUTPUT"

definition minimumAmountOut :: "Trade \<Rightarrow> Percent \<Rightarrow> js_error + CurrencyAmount" where
  "minimumAmountOut t slippageTolerance =
     invariantS (\<not> Fraction_lessThan slippageTolerance (AsBigint 0)) ''SLIPPAGE_TOLERANCE''
      (if tradeType t = EXACT_OUTPUT then Inr (outputAmount t)
       else
         bindS (quotient (outputAmount t)) (\<lambda>outq.
         bindS (quotient (Fraction_multiply
                  (Fraction_invert (Fraction_add (new_Fraction 1 1) (frac slippageTolerance)))
                  (AsBigint outq))) (\<lambda>slippageAdjustedAmountOut.
           fromRawAmount (currency (outputAmount t)) slippageAdjustedAmountOut)))"

definition maximumAmountIn :: "Trade \<Rightarrow> Percent \<Rightarrow> js_error + CurrencyAmount" where
  "maximumAmountIn t slippageTolerance =
     invariantS (\<not> Fraction_lessThan slippageTolerance (AsBigint 0)) ''SLIPPAGE_TOLERANCE''
      (if tradeType t = EXACT_INPUT then Inr (inputAmount t)
       else
         bindS (quotient (inputAmount t)) (\<lambda>inq.
         bindS (quotient (Fraction_multiply
                  (Fraction_add (new_Fraction 1 1) (frac slippageTolerance))
                  (AsBigint inq))) (\<lambda>slippageAdjustedAmountIn.
           fromRawAmount (currency (inputAmount t)) slippageAdjustedAmountIn)))"

definition worstExecutionPrice :: "Trade \<Rightarrow> Percent \<Rightarrow> js_error + Price" where
  "worstExecutionPrice t slippageTolerance =
     bindS (maximumAmountIn t slippageTolerance) (\<lambda>mi.
     bindS (quotient mi) (\<lambda>miq.
     bindS (minimumAmountOut t slippageTolerance) (\<lambda>mo.
     bindS (quotient mo) (\<lambda>moq.
       Inr (new_Price (currency (inputAmount t)) (currency (outputAmount t)) miq moq)))))"

section \<open>Comparing trades\<close>

definition inputOutputComparator :: "Trade \<Rightarrow> Trade \<Rightarrow> js_error + int" where
  "inputOutputComparator a b =
     invariantS (Currency_equals (currency (inputAmount a)) (currency (inputAmount b))) ''INPUT_CURRENCY''
      (invariantS (Currency_equals (currency (outputAmount a)) (currency (outputAmount b))) ''OUTPUT_CURRENCY''
        (Inr
          (if Fraction_equalTo (outputAmount a) (frac (outputAmount b)) then
             (if Fraction_equalTo (inputAmount a) (frac (inputAmount b)) then 0
              else if Fraction_lessThan (inputAmount a) (frac (inputAmount b)) then - 1
              else 1)
           else if Fraction_lessThan (outputAmount a) (frac (outputAmount b)) then 1
           else - 1)))"

definition tradeComparator :: "Trade \<Rightarrow> Trade \<Rightarrow> js_error + int" where
  "tradeComparator a b =
     bindS (inputOutputComparator a b) (\<lambda>ioComp.
       Inr
         (if ioComp \<noteq> 0 then ioComp
          else if Fraction_lessThan (priceImpact a) (frac (priceImpact b)) then - 1
          else if Fraction_greaterThan (priceImpact a) (frac (priceImpact b)) then 1
          else int (length (path (trade_route a))) - int (length (path (trade_route b)))))"

definition isTradeBetter :: "Trade option \<Rightarrow> Trade option \<Rightarrow> Percent \<Rightarrow> js_error + bool option" where
  "isTradeBetter tradeA tradeB minimumDelta =
     (case (tradeA, tradeB) of
        (Some a, None) \<Rightarrow> Inr (Some False)
      | (None, Some b) \<Rightarrow> Inr (Some True)
      | (None, None) \<Rightarrow> Inr None
      | (Some a, Some b) \<Rightarrow>
          if tradeType a \<noteq> tradeType b
             \<or> \<not> Currency_equals (currency (inputAmount a)) (currency (inputAmount b))
             \<or> \<not> Currency_equals (currency (outputAmount a)) (currency (outputAmount b))
          then Inl (ErrorMsg ''Trades are not comparable'')
          else if Fraction_equalTo minimumDelta (frac ZERO_PERCENT)
          then Inr (Some (Fraction_lessThan (executionPrice a) (frac (executionPrice b))))
          else Inr (Some (Fraction_lessThan
                 (Fraction_multiply (asFraction (executionPrice a))
                   (frac (Percent_add minimumDelta (frac ONE_HUNDRED_PERCENT))))
                 (frac (executionPrice b)))))"

section \<open>The search for the best trades\<close>

text \<open>
  \<open>next\<close> is the optional argument \<^verbatim>\<open>nextAmountIn\<close>: absent, it is the original amount itself.  The
  number of hops left is the recursion argument.
\<close>

definition insert_trade :: "nat \<Rightarrow> Trade list \<Rightarrow> Trade \<Rightarrow> js_error + Trade list" where
  "insert_trade maxNumResults bestTrades t =
     bindS (sortedInsert bestTrades t maxNumResults tradeComparator) (\<lambda>r. Inr (snd r))"

definition trade_through :: "DexEnv \<Rightarrow> Pair list \<Rightarrow> Currency \<Rightarrow> Currency \<Rightarrow> CurrencyAmount \<Rightarrow> TradeType \<Rightarrow> js_error + Trade" where
  "trade_through env ps inp outp amount tt =
     bindS (new_Route ps inp outp) (\<lambda>route. new_Trade env route amount tt)"

fun bestTradeExactIn ::
  "DexEnv \<Rightarrow> nat \<Rightarrow> Pair list \<Rightarrow> CurrencyAmount \<Rightarrow> Currency \<Rightarrow> nat \<Rightarrow> Pair list \<Rightarrow> CurrencyAmount option \<Rightarrow>
   Trade list \<Rightarrow> js_error + Trade list" where
  "bestTradeExactIn env 0 ps amt currencyOut maxNumResults currentPairs nextAmountIn bestTrades =
     invariantS (ps \<noteq> []) ''PAIRS'' (Inl (Invariant ''MAX_HOPS''))"
| "bestTradeExactIn env (Suc hops) ps amt currencyOut maxNumResults currentPairs nextAmountIn bestTrades =
     invariantS (ps \<noteq> []) ''PAIRS''
      (invariantS (nextAmountIn = None \<or> currentPairs \<noteq> []) ''INVALID_RECURSION''
       (bindS (Amount_wrapped (case nextAmountIn of None \<Rightarrow> amt | Some a \<Rightarrow> a)) (\<lambda>amountIn.
        let tokenOut = wrapped currencyOut in
        foldS (\<lambda>best i.
          let pair = ps ! i in
          if \<not> Token_equals (token0 pair) (token_of amountIn) \<and> \<not> Token_equals (token1 pair) (token_of amountIn)
          then Inr best
          else if Fraction_equalTo (reserve0 pair) (AsBigint 0) \<or> Fraction_equalTo (reserve1 pair) (AsBigint 0)
          then Inr best
          else
            (case getOutputAmount env pair amountIn of
               Inl e \<Rightarrow> if e = InsufficientInputAmountError then Inr best else Inl e
             | Inr r \<Rightarrow>
                 (let amountOut = fst r in
                  if Token_equals (token_of amountOut) tokenOut then
                    bindS (trade_through env (currentPairs @ [pair]) (currency amt) currencyOut amt EXACT_INPUT)
                      (insert_trade maxNumResults best)
                  else if 0 < hops \<and> 1 < length ps then
                    bestTradeExactIn env hops (take i ps @ drop (Suc i) ps) amt currencyOut maxNumResults
                      (currentPairs @ [pair]) (Some amountOut) best
                  else Inr best)))
          bestTrades [0..<length ps])))"

fun bestTradeExactOut ::
  "DexEnv \<Rightarrow> nat \<Rightarrow> Pair list \<Rightarrow> Currency \<Rightarrow> CurrencyAmount \<Rightarrow> nat \<Rightarrow> Pair list \<Rightarrow> CurrencyAmount option \<Rightarrow>
   Trade list \<Rightarrow> js_error + Trade list" where
  "bestTradeExactOut env 0 ps currencyIn amt maxNumResults currentPairs nextAmountOut bestTrades =
     invariantS (ps \<noteq> []) ''PAIRS'' (Inl (Invariant ''MAX_HOPS''))"
| "bestTradeExactOut env (Suc hops) ps currencyIn amt maxNumResults currentPairs nextAmountOut bestTrades =
     invariantS (ps \<noteq> []) ''PAIRS''
      (invariantS (nextAmountOut = None \<or> currentPairs \<noteq> []) ''INVALID_RECURSION''
       (bindS (Amount_wrapped (case nextAmountOut of None \<Rightarrow> amt | Some a \<Rightarrow> a)) (\<lambda>amountOut.
        let tokenIn = wrapped currencyIn in
        foldS (\<lambda>best i.
          let pair = ps ! i in
          if \<not> Token_equals (token0 pair) (token_of amountOut) \<and> \<not> Token_equals (token1 pair) (token_of amountOut)
          then Inr best
          else if Fraction_equalTo (reserve0 pair) (AsBigint 0) \<or> Fraction_equalTo (reserve1 pair) (AsBigint 0)
          then Inr best
          else
            (case getInputAmount env pair amountOut of
               Inl e \<Rightarrow> if e = InsufficientReservesError then Inr best else Inl e
             | Inr r \<Rightarrow>
                 (let amountIn = fst r in
                  if Token_equals (token_of amountIn) tokenIn then
                    bindS (trade_through env (pair # currentPairs) currencyIn (currency amt) amt EXACT_OUTPUT)
                      (insert_trade maxNumResults best)
                  else if 0 < hops \<and> 1 < length ps then
                    bestTradeExactOut env hops (take i ps @ drop (Suc i) ps) currencyIn amt maxNumResults
                      (pair # currentPairs) (Some amountIn) best
                  else Inr best)))
          bestTrades [0..<length ps])))"

section \<open>Class \<open>Router\<close>\<close>

text \<open>\<open>Ttl s\<close>: seconds from now; \<open>Deadline d\<close>: the time itself.\<close>

datatype Expiry = Ttl int | Deadline int

record TradeOptions =
  allowedSlippage :: Percent
  expiry :: Expiry
  recipient :: string
  feeOnTransfer :: "bool option"

datatype CallArg = HexArg string | PathArg "string list"

record SwapParameters =
  methodName :: string
  args :: "CallArg list"
  callValue :: string

definition toHex :: "CurrencyAmount \<Rightarrow> js_error + string" where
  "toHex a = bindS (quotient a) (\<lambda>q. Inr (''0x'' @ bigint_str 16 q))"

definition ZERO_HEX :: string where
  "ZERO_HEX = ''0x0''"

text \<open>\<open>now\<close> is the time in milliseconds.\<close>

definition swapCallParameters :: "DexEnv \<Rightarrow> int \<Rightarrow> Trade \<Rightarrow> TradeOptions \<Rightarrow> js_error + SwapParameters" where
  "swapCallParameters env now t opts =
     (let etherIn = isNative (currency (inputAmount t));
          etherOut = isNative (currency (outputAmount t)) in
      invariantS (\<not> (etherIn \<and> etherOut)) ''ETHER_IN_OUT''
       (invariantS (case expiry opts of Ttl s \<Rightarrow> 0 < s | Deadline d \<Rightarrow> True) ''TTL''
         (bindS (validateAndParseAddress env (recipient opts)) (\<lambda>to.
          bindS (bindS (maximumAmountIn t (allowedSlippage opts)) toHex) (\<lambda>amountIn.
          bindS (bindS (minimumAmountOut t (allowedSlippage opts)) toHex) (\<lambda>amountOut.
          let pth = PathArg (map address (path (trade_route t)));
              deadline = HexArg (''0x'' @ bigint_str 16
                (case expiry opts of Ttl s \<Rightarrow> now div 1000 + s | Deadline d \<Rightarrow> d));
              useFeeOnTransfer = (feeOnTransfer opts = Some True) in
          case tradeType t of
            EXACT_INPUT \<Rightarrow>
              if etherIn then
                Inr \<lparr>methodName = (if useFeeOnTransfer then ''swapExactETHForTokensSupportingFeeOnTransferTokens''
                                   else ''swapExactETHForTokens''),
                     args = [HexArg amountOut, pth, HexArg to, deadline], callValue = amountIn\<rparr>
              else if etherOut then
                Inr \<lparr>methodName = (if useFeeOnTransfer then ''swapExactTokensForETHSupportingFeeOnTransferTokens''
                                   else ''swapExactTokensForETH''),
                     args = [HexArg amountIn, HexArg amountOut, pth, HexArg to, deadline], callValue = ZERO_HEX\<rparr>
              else
                Inr \<lparr>methodName = (if useFeeOnTransfer then ''swapExactTokensForTokensSupportingFeeOnTransferTokens''
                                   else ''swapExactTokensForTokens''),
                     args = [HexArg amountIn, HexArg amountOut, pth, HexArg to, deadline], callValue = ZERO_HEX\<rparr>
          | EXACT_OUTPUT \<Rightarrow>
              invariantS (\<not> useFeeOnTransfer) ''EXACT_OUT_FOT''
               (if etherIn then
                  Inr \<lparr>methodName = ''swapETHForExactTokens'',
                       args = [HexArg amountOut, pth, HexArg to, deadline], callValue = amountIn\<rparr>
                else if etherOut then
                  Inr \<lparr>methodName = ''swapTokensForExactETH'',
                       args = [HexArg amountOut, HexArg amountIn, pth, HexArg to, deadline], callValue = ZERO_HEX\<rparr>
                else
                  Inr \<lparr>methodName = ''swapTokensForExactTokens'',
                       args = [HexArg amountOut, HexArg amountIn, pth, HexArg to, deadline], callValue = ZERO_HEX\<rparr>)))))))"

end
