(* ===== verification/V2PairFacts.thy ===== *)
theory V2PairFacts
  imports V2Pair
begin

text \<open>
  What the V2 pair computes.  The first section is the arithmetic of the two swap formulas, the
  second evaluates the operations of the class on well-formed pairs (integer reserves within 256
  bits, tokens in order, the liquidity token of those tokens), the third shows that the cache of
  pair addresses is invisible.
\<close>

section \<open>The swap formulas\<close>

lemma le_div_iff:
  fixes a b q :: int
  assumes "0 < b"
  shows "q \<le> a div b \<longleftrightarrow> q * b \<le> a"
proof
  assume "q \<le> a div b"
  then have "q * b \<le> a div b * b" using assms by (simp add: mult_right_mono)
  also have "\<dots> \<le> a" using assms div_mult_mod_eq [of a b] pos_mod_sign [of b a] by linarith
  finally show "q * b \<le> a" .
next
  assume "q * b \<le> a"
  then have "q * b div b \<le> a div b" using assms by (rule zdiv_mono1)
  then show "q \<le> a div b" using assms by simp
qed

lemma less_mult_div_add_one:
  fixes a b :: int
  shows "0 < b \<Longrightarrow> a < b * (a div b + 1)"
  using le_div_iff [of b "a div b + 1" a] by (simp add: mult.commute)

definition out_amount :: "int \<Rightarrow> int \<Rightarrow> int \<Rightarrow> int" where
  "out_amount x ri ro = (x * 9975 * ro) div (ri * 10000 + x * 9975)"

definition in_amount :: "int \<Rightarrow> int \<Rightarrow> int \<Rightarrow> int" where
  "in_amount y ri ro = (ri * y * 10000) div ((ro - y) * 9975) + 1"

lemma out_amount_nonneg: "0 \<le> x \<Longrightarrow> 0 < ri \<Longrightarrow> 0 < ro \<Longrightarrow> 0 \<le> out_amount x ri ro"
  by (simp add: out_amount_def pos_imp_zdiv_nonneg_iff)

lemma le_out_amount_iff:
  assumes "0 \<le> x" and "0 < ri"
  shows "y \<le> out_amount x ri ro \<longleftrightarrow> y * (ri * 10000 + x * 9975) \<le> x * 9975 * ro"
proof -
  have "0 < ri * 10000 + x * 9975" using assms by linarith
  then show ?thesis unfolding out_amount_def by (rule le_div_iff)
qed

lemma out_amount_less:
  assumes "0 \<le> x" and "0 < ri" and "0 < ro"
  shows "out_amount x ri ro < ro"
proof -
  have "0 < ro * ri" using assms by simp
  then have "\<not> ro * (ri * 10000 + x * 9975) \<le> x * 9975 * ro" by (simp add: algebra_simps)
  then show ?thesis using le_out_amount_iff [OF assms(1,2), of ro ro] by simp
qed

text \<open>The product of the reserves, counting the input without its fee, does not fall.\<close>

lemma out_amount_product:
  assumes "0 \<le> x" and "0 < ri"
  shows "ri * 10000 * ro \<le> (ri * 10000 + x * 9975) * (ro - out_amount x ri ro)"
  using le_out_amount_iff [OF assms, of "out_amount x ri ro" ro] by (simp add: algebra_simps)

lemma out_amount_keeps_k:
  assumes "0 \<le> x" and "0 < ri" and "0 < ro"
  shows "ri * ro \<le> (ri + x) * (ro - out_amount x ri ro)"
proof -
  have "10000 * (ri * ro) \<le> (ri * 10000 + x * 9975) * (ro - out_amount x ri ro)"
    using out_amount_product [OF assms(1,2), of ro] by (simp add: algebra_simps)
  also have "\<dots> \<le> (10000 * (ri + x)) * (ro - out_amount x ri ro)"
    using assms out_amount_less [OF assms] by (intro mult_right_mono) simp_all
  finally have "10000 * (ri * ro) \<le> 10000 * ((ri + x) * (ro - out_amount x ri ro))"
    by (simp only: mult.assoc)
  then show ?thesis by simp
qed

lemma out_amount_mono:
  assumes "0 \<le> x" and "x \<le> x'" and "0 < ri" and "0 < ro"
  shows "out_amount x ri ro \<le> out_amount x' ri ro"
proof -
  let ?y = "out_amount x ri ro"
  have y: "?y * (ri * 10000 + x * 9975) \<le> x * 9975 * ro"
    using le_out_amount_iff [OF assms(1,3), of ?y ro] by simp
  have "(x' - x) * 9975 * ?y \<le> (x' - x) * 9975 * ro"
    using assms out_amount_less [OF assms(1,3,4)] by (intro mult_left_mono) simp_all
  with y have "?y * (ri * 10000 + x' * 9975) \<le> x' * 9975 * ro" by (simp add: algebra_simps)
  then show ?thesis using le_out_amount_iff assms by simp
qed

lemma in_amount_pos:
  assumes "0 < ri" and "0 \<le> y" and "y < ro"
  shows "0 < in_amount y ri ro"
  using assms by (simp add: in_amount_def pos_imp_zdiv_nonneg_iff add_strict_increasing2)

text \<open>The input asked for an output suffices for it, and is at most one above the least one that does.\<close>

lemma in_amount_suffices:
  assumes "0 < ri" and "0 \<le> y" and "y < ro"
  shows "y \<le> out_amount (in_amount y ri ro) ri ro"
proof -
  let ?d = "(ro - y) * 9975" and ?n = "ri * y * 10000" and ?x = "in_amount y ri ro"
  have "0 < ?d" using assms by simp
  then have "?n < ?d * ?x"
    unfolding in_amount_def using less_mult_div_add_one [of ?d ?n] by simp
  then have "y * (ri * 10000 + ?x * 9975) \<le> ?x * 9975 * ro" by (simp add: algebra_simps)
  then show ?thesis using le_out_amount_iff [of ?x ri y ro] in_amount_pos [OF assms] assms(1) by simp
qed

lemma in_amount_least:
  assumes "0 < ri" and "0 \<le> y" and "y < ro" and "0 \<le> x" and "y \<le> out_amount x ri ro"
  shows "in_amount y ri ro \<le> x + 1"
proof -
  have "ri * y * 10000 \<le> x * ((ro - y) * 9975)"
    using assms le_out_amount_iff [of x ri y ro] by (simp add: algebra_simps)
  then have "(ri * y * 10000) div ((ro - y) * 9975) \<le> (x * ((ro - y) * 9975)) div ((ro - y) * 9975)"
    using assms by (intro zdiv_mono1) simp_all
  then show ?thesis using assms by (simp add: in_amount_def)
qed

section \<open>Operations on well-formed pairs\<close>

subsection \<open>Integer amounts\<close>

definition raw :: "Currency \<Rightarrow> int \<Rightarrow> CurrencyAmount" where
  "raw c n = \<lparr>numerator = n, denominator = 1, currency = c, decimalScale = 10 ^ nat (currency_decimals c)\<rparr>"

lemma raw_sel [simp]:
  "numerator (raw c n) = n"
  "denominator (raw c n) = 1"
  "currency (raw c n) = c"
  "token_of (raw (ERC20 t) n) = t"
  by (simp_all add: raw_def token_of_def)

lemma quotient_raw [simp]: "quotient (raw c n) = Inr n"
  by simp

lemma fromRawAmount_raw:
  "fromRawAmount c n = (if n \<le> MaxUint256 then Inr (raw c n) else Inl (Invariant ''AMOUNT''))"
  by (simp add: fromRawAmount_def new_CurrencyAmount_def raw_def invariantS_def)

lemma Amount_add_raw:
  "Currency_equals c c' \<Longrightarrow> Amount_add (raw c m) (raw c' n) = fromRawAmount c (m + n)"
  by (simp add: Amount_add_def Fraction_add_def fromFractionalAmount_def fromRawAmount_def)

lemma Amount_subtract_raw:
  "Currency_equals c c' \<Longrightarrow> Amount_subtract (raw c m) (raw c' n) = fromRawAmount c (m - n)"
  by (simp add: Amount_subtract_def Fraction_subtract_def fromFractionalAmount_def fromRawAmount_def)

subsection \<open>Well-formed pairs\<close>

definition is_raw :: "CurrencyAmount \<Rightarrow> bool" where
  "is_raw a \<longleftrightarrow> a = raw (currency a) (numerator a) \<and> 0 \<le> numerator a \<and> numerator a \<le> MaxUint256"

definition wf_pair :: "DexEnv \<Rightarrow> Pair \<Rightarrow> bool" where
  "wf_pair env p \<longleftrightarrow>
     is_raw (reserve0 p) \<and> is_raw (reserve1 p) \<and>
     isToken (currency (reserve0 p)) \<and> isToken (currency (reserve1 p)) \<and>
     sortsBefore (token0 p) (token1 p) = Inr True \<and>
     liquidity_token env (token0 p) (token1 p) = Inr (liquidityToken p)"

definition mk_pair :: "Token \<Rightarrow> Token \<Rightarrow> Token \<Rightarrow> int \<Rightarrow> int \<Rightarrow> Pair" where
  "mk_pair lp t0 t1 r0 r1 = \<lparr>liquidityToken = lp, tokenAmounts = (raw (ERC20 t0) r0, raw (ERC20 t1) r1)\<rparr>"

lemma mk_pair_sel [simp]:
  "liquidityToken (mk_pair lp t0 t1 r0 r1) = lp"
  "reserve0 (mk_pair lp t0 t1 r0 r1) = raw (ERC20 t0) r0"
  "reserve1 (mk_pair lp t0 t1 r0 r1) = raw (ERC20 t1) r1"
  "token0 (mk_pair lp t0 t1 r0 r1) = t0"
  "token1 (mk_pair lp t0 t1 r0 r1) = t1"
  by (simp_all add: mk_pair_def reserve0_def reserve1_def token0_def token1_def)

lemma wf_mk_pair:
  "wf_pair env (mk_pair lp t0 t1 r0 r1) \<longleftrightarrow>
     0 \<le> r0 \<and> r0 \<le> MaxUint256 \<and> 0 \<le> r1 \<and> r1 \<le> MaxUint256 \<and>
     sortsBefore t0 t1 = Inr True \<and> liquidity_token env t0 t1 = Inr lp"
  by (auto simp: wf_pair_def is_raw_def)

lemma wf_pairE:
  assumes "wf_pair env p"
  obtains lp t0 t1 r0 r1 where "p = mk_pair lp t0 t1 r0 r1" and "wf_pair env (mk_pair lp t0 t1 r0 r1)"
proof -
  obtain a0 a1 where a: "tokenAmounts p = (a0, a1)" by (cases "tokenAmounts p")
  from assms a obtain t0 t1 where "currency a0 = ERC20 t0" "currency a1 = ERC20 t1"
    by (cases "currency a0"; cases "currency a1") (auto simp: wf_pair_def reserve0_def reserve1_def)
  with assms a have "p = mk_pair (liquidityToken p) t0 t1 (numerator a0) (numerator a1)"
    by (cases p) (auto simp: wf_pair_def is_raw_def mk_pair_def reserve0_def reserve1_def)
  with assms that show thesis by metis
qed

lemma sortsBefore_flip: "sortsBefore a b = Inr True \<Longrightarrow> sortsBefore b a = Inr False"
  by (auto simp: sortsBefore_eq_Inr dest: text_less_asym)

lemma sortsBefore_distinct:
  "sortsBefore a b = Inr True \<Longrightarrow> \<not> Token_equals a b" 
  "sortsBefore a b = Inr True \<Longrightarrow> \<not> Token_equals b a"
  by (auto simp: sortsBefore_eq_Inr Token_equals_def)

lemma new_Pair_sorted:
  assumes "sortsBefore t0 t1 = Inr True" and "liquidity_token env t0 t1 = Inr lp"
  shows "new_Pair env (raw (ERC20 t0) r0) (raw (ERC20 t1) r1) = Inr (mk_pair lp t0 t1 r0 r1)"
    and "new_Pair env (raw (ERC20 t1) r1) (raw (ERC20 t0) r0) = Inr (mk_pair lp t0 t1 r0 r1)"
  using assms sortsBefore_flip [OF assms(1)] by (simp_all add: new_Pair_def mk_pair_def)

subsection \<open>Swaps\<close>

text \<open>Seen from the token \<open>t\<close> that is paid in: the two reserves, the other token, the pair after the swap.\<close>

definition reserve_in :: "Pair \<Rightarrow> Token \<Rightarrow> int" where
  "reserve_in p t = numerator (if Token_equals t (token0 p) then reserve0 p else reserve1 p)"

definition reserve_out :: "Pair \<Rightarrow> Token \<Rightarrow> int" where
  "reserve_out p t = numerator (if Token_equals t (token0 p) then reserve1 p else reserve0 p)"

definition other_token :: "Pair \<Rightarrow> Token \<Rightarrow> Token" where
  "other_token p t = (if Token_equals t (token0 p) then token1 p else token0 p)"

definition swapped :: "Pair \<Rightarrow> Token \<Rightarrow> int \<Rightarrow> int \<Rightarrow> Pair" where
  "swapped p t x y =
     (if Token_equals t (token0 p)
      then mk_pair (liquidityToken p) (token0 p) (token1 p) (numerator (reserve0 p) + x) (numerator (reserve1 p) - y)
      else mk_pair (liquidityToken p) (token0 p) (token1 p) (numerator (reserve0 p) - y) (numerator (reserve1 p) + x))"

lemmas swap_view = reserve_in_def reserve_out_def other_token_def swapped_def

lemma getOutputAmount_eval:
  assumes "wf_pair env p" and "involvesToken p t" and "0 \<le> x"
  shows "getOutputAmount env p (raw (ERC20 t) x) =
    (let ri = reserve_in p t; ro = reserve_out p t; y = out_amount x ri ro in
     if ri = 0 \<or> ro = 0 then Inl InsufficientReservesError
     else if y = 0 then Inl InsufficientInputAmountError
     else if MaxUint256 < ri + x then Inl (Invariant ''AMOUNT'')
     else Inr (raw (ERC20 (other_token p t)) y, swapped p t x y))"
proof -
  from assms(1) obtain lp t0 t1 r0 r1 where p: "p = mk_pair lp t0 t1 r0 r1"
    and wf: "wf_pair env (mk_pair lp t0 t1 r0 r1)" by (rule wf_pairE)
  note w = wf [unfolded wf_mk_pair]
  have dist: "\<not> Token_equals t1 t0" "\<not> Token_equals t0 t1" using w sortsBefore_distinct by auto
  have bounds: "out_amount x ri ro \<le> MaxUint256" "0 \<le> out_amount x ri ro"
    if "0 < ri" "0 < ro" "ro \<le> MaxUint256" for ri ro
    using out_amount_less [OF assms(3) that(1,2)] out_amount_nonneg [OF assms(3) that(1,2)] that by simp_all
  show ?thesis
  proof (cases "r0 = 0 \<or> r1 = 0")
    case True
    then show ?thesis using assms(2) w
      by (auto simp: p getOutputAmount_def orS_def swap_view Let_def)
  next
    case False
    then have pos: "0 < r0" "0 < r1" using w by auto
    show ?thesis
    proof (cases "Token_equals t t0")
      case True
      have "bigint_div (x * 9975 * r1) (r0 * 10000 + x * 9975) = Inr (out_amount x r0 r1)"
        using assms(3) pos by (simp add: bigint_div_nonneg out_amount_def)
      moreover have "involvesToken p t1" "involvesToken p t" using True by (simp_all add: p involvesToken_def)
      moreover have "Currency_equals (ERC20 t0) (ERC20 t)" using True by (simp add: Token_equals_sym)
      ultimately show ?thesis
        using True w pos bounds [of r0 r1] dist assms(3) p new_Pair_sorted [of t0 t1 env lp]
        by (simp add: getOutputAmount_def orS_def swap_view Let_def reserveOf_def fromRawAmount_raw
            Amount_add_raw Amount_subtract_raw)
    next
      case False
      then have t1: "Token_equals t t1" using assms(2) by (simp add: p involvesToken_def)
      have "bigint_div (x * 9975 * r0) (r1 * 10000 + x * 9975) = Inr (out_amount x r1 r0)"
        using assms(3) pos by (simp add: bigint_div_nonneg out_amount_def)
      moreover have "involvesToken p t0" "involvesToken p t" using t1 by (simp_all add: p involvesToken_def)
      moreover have "Currency_equals (ERC20 t1) (ERC20 t)" using t1 by (simp add: Token_equals_sym)
      ultimately show ?thesis
        using False t1 w pos bounds [of r1 r0] dist assms(3) p new_Pair_sorted [of t0 t1 env lp]
        by (simp add: getOutputAmount_def orS_def swap_view Let_def reserveOf_def fromRawAmount_raw
            Amount_add_raw Amount_subtract_raw)
    qed
  qed
qed

lemma getInputAmount_eval:
  assumes "wf_pair env p" and "involvesToken p t" and "0 \<le> y"
  shows "getInputAmount env p (raw (ERC20 t) y) =
    (let t' = other_token p t; ri = reserve_in p t'; ro = reserve_out p t'; x = in_amount y ri ro in
     if ri = 0 \<or> ro \<le> y then Inl InsufficientReservesError
     else if MaxUint256 < ri + x then Inl (Invariant ''AMOUNT'')
     else Inr (raw (ERC20 t') x, swapped p t' x y))"
proof -
  from assms(1) obtain lp t0 t1 r0 r1 where p: "p = mk_pair lp t0 t1 r0 r1"
    and wf: "wf_pair env (mk_pair lp t0 t1 r0 r1)" by (rule wf_pairE)
  note w = wf [unfolded wf_mk_pair]
  have dist: "\<not> Token_equals t1 t0" "\<not> Token_equals t0 t1" using w sortsBefore_distinct by auto
  have bad: ?thesis if "r0 = 0 \<or> r1 = 0"
    using that assms(2,3) w dist
    by (auto simp: p getInputAmount_def orS_def swap_view Let_def reserveOf_def involvesToken_def)
  have div: "bigint_div (ri * y * 10000) ((ro - y) * 9975) = Inr (in_amount y ri ro - 1)"
    if "0 < ri" "y < ro" for ri ro
    using that assms(3) by (simp add: bigint_div_nonneg in_amount_def)
  have pos: "0 < in_amount y ri ro" if "0 < ri" "y < ro" for ri ro
    using in_amount_pos that assms(3) by simp
  show ?thesis
  proof (cases "r0 = 0 \<or> r1 = 0")
    case False
    then have nz: "0 < r0" "0 < r1" using w by auto
    show ?thesis
    proof (cases "Token_equals t t0")
      case True
      moreover have "involvesToken p t1" "involvesToken p t" using True by (simp_all add: p involvesToken_def)
      moreover have "Currency_equals (ERC20 t0) (ERC20 t)" using True by (simp add: Token_equals_sym)
      moreover have "y < r0 \<Longrightarrow> y \<le> MaxUint256" using w by simp
      ultimately show ?thesis
        using w nz dist assms(3) p div [of r1 r0] pos [of r1 r0] new_Pair_sorted [of t0 t1 env lp]
        by (simp add: getInputAmount_def orS_def swap_view Let_def reserveOf_def fromRawAmount_raw
            Amount_add_raw Amount_subtract_raw)
    next
      case False
      then have t1: "Token_equals t t1" using assms(2) by (simp add: p involvesToken_def)
      moreover have "involvesToken p t0" "involvesToken p t" using t1 by (simp_all add: p involvesToken_def)
      moreover have "Currency_equals (ERC20 t1) (ERC20 t)" using t1 by (simp add: Token_equals_sym)
      ultimately show ?thesis
        using False w nz dist assms(3) p div [of r0 r1] pos [of r0 r1] new_Pair_sorted [of t0 t1 env lp]
        by (simp add: getInputAmount_def orS_def swap_view Let_def reserveOf_def fromRawAmount_raw
            Amount_add_raw Amount_subtract_raw)
    qed
  qed (rule bad)
qed

text \<open>A swap keeps a pair well-formed.\<close>

lemma wf_reserves:
  assumes "wf_pair env p"
  shows "0 \<le> reserve_in p t" "0 \<le> reserve_out p t" "reserve_in p t \<le> MaxUint256" "reserve_out p t \<le> MaxUint256"
  using assms by (auto simp: wf_pair_def is_raw_def swap_view)

lemma wf_swapped:
  assumes "wf_pair env p" and "0 \<le> x" and "reserve_in p t + x \<le> MaxUint256"
    and "0 \<le> y" and "y \<le> reserve_out p t"
  shows "wf_pair env (swapped p t x y)"
proof -
  from assms(1) obtain lp t0 t1 r0 r1 where p: "p = mk_pair lp t0 t1 r0 r1"
    and wf: "wf_pair env (mk_pair lp t0 t1 r0 r1)" by (rule wf_pairE)
  show ?thesis using assms(2-) wf unfolding p by (auto simp: swap_view wf_mk_pair)
qed

lemma swapped_reserves:
  "reserve_in (swapped p t x y) t = reserve_in p t + x"
  "reserve_out (swapped p t x y) t = reserve_out p t - y"
  by (simp_all add: swap_view)

lemma other_token_back:
  assumes "wf_pair env p" and "involvesToken p t"
  shows "Token_equals (other_token p (other_token p t)) t" and "involvesToken p (other_token p t)"
    and "reserve_in p (other_token p t) = reserve_out p t"
    and "reserve_out p (other_token p t) = reserve_in p t"
proof -
  from assms(1) obtain lp t0 t1 r0 r1 where p: "p = mk_pair lp t0 t1 r0 r1"
    and wf: "wf_pair env (mk_pair lp t0 t1 r0 r1)" by (rule wf_pairE)
  have "\<not> Token_equals t1 t0" using wf sortsBefore_distinct unfolding wf_mk_pair by auto
  then show "Token_equals (other_token p (other_token p t)) t" and "involvesToken p (other_token p t)"
    and "reserve_in p (other_token p t) = reserve_out p t"
    and "reserve_out p (other_token p t) = reserve_in p t"
    using assms(2) unfolding p by (auto simp: swap_view involvesToken_def Token_equals_sym)
qed

lemma Token_equals_view:
  assumes "Token_equals t t'"
  shows "involvesToken p t = involvesToken p t'" "reserve_in p t = reserve_in p t'"
    "reserve_out p t = reserve_out p t'" "other_token p t = other_token p t'"
    "swapped p t x y = swapped p t' x y"
proof -
  have "Token_equals t u \<longleftrightarrow> Token_equals t' u" for u
    using assms Token_equals_sym Token_equals_trans by blast
  then show "involvesToken p t = involvesToken p t'" "reserve_in p t = reserve_in p t'"
    "reserve_out p t = reserve_out p t'" "other_token p t = other_token p t'"
    "swapped p t x y = swapped p t' x y"
    by (simp_all add: swap_view involvesToken_def)
qed

subsection \<open>Liquidity\<close>

lemma getLiquidityMinted_eval:
  assumes "wf_pair env p" and "0 \<le> q0" and "0 \<le> q1" and "0 < S"
    and "0 < numerator (reserve0 p)" and "0 < numerator (reserve1 p)"
  shows "getLiquidityMinted p (raw (ERC20 (liquidityToken p)) S) (raw (ERC20 (token0 p)) q0) (raw (ERC20 (token1 p)) q1) =
    (let L = min (q0 * S div numerator (reserve0 p)) (q1 * S div numerator (reserve1 p)) in
     if L = 0 then Inl InsufficientInputAmountError else fromRawAmount (ERC20 (liquidityToken p)) L)"
proof -
  from assms(1) obtain lp t0 t1 r0 r1 where p: "p = mk_pair lp t0 t1 r0 r1"
    and wf: "wf_pair env (mk_pair lp t0 t1 r0 r1)" by (rule wf_pairE)
  note w = wf [unfolded wf_mk_pair]
  have "0 \<le> q0 * S div r0" "0 \<le> q1 * S div r1"
    using assms by (simp_all add: p pos_imp_zdiv_nonneg_iff)
  then show ?thesis
    using w assms(2-) by (auto simp: p getLiquidityMinted_def Let_def bigint_div_nonneg min_def)
qed

lemma getLiquidityValue_eval:
  assumes "wf_pair env p" and "involvesToken p t" and "0 \<le> L" and "L \<le> S" and "0 < S"
  shows "getLiquidityValue p t (raw (ERC20 (liquidityToken p)) S) (raw (ERC20 (liquidityToken p)) L) False kLast b =
    Inr (raw (ERC20 t) (L * reserve_in p t div S))"
proof -
  from assms(1) obtain lp t0 t1 r0 r1 where p: "p = mk_pair lp t0 t1 r0 r1"
    and wf: "wf_pair env (mk_pair lp t0 t1 r0 r1)" by (rule wf_pairE)
  note w = wf [unfolded wf_mk_pair]
  have bound: "L * r div S \<le> MaxUint256" "0 \<le> L * r" if "0 \<le> r" "r \<le> MaxUint256" for r
  proof -
    have "L * r div S \<le> S * r div S" using assms that by (intro zdiv_mono1 mult_right_mono) auto
    then show "L * r div S \<le> MaxUint256" using that assms(5) by simp
  qed (use assms that in simp)
  have "Fraction_equalTo (raw (ERC20 lp) S) (AsBigint 0) = False"
    using assms(5) by (simp add: Fraction_equalTo_def)
  then show ?thesis
    using assms(2-) w bound [of r0] bound [of r1]
    by (simp add: p getLiquidityValue_def Let_def reserveOf_def reserve_in_def bigint_div_nonneg fromRawAmount_raw)
qed

text \<open>The share that was minted for a deposit is worth at most the deposit.\<close>

lemma minted_share_value:
  fixes q r S L :: int
  assumes "0 < r" and "0 \<le> q" and "0 < S" and "0 \<le> L" and "L \<le> q * S div r"
  shows "L * (r + q) div (S + L) \<le> q"
proof -
  have "L * r \<le> q * S" using assms le_div_iff [of r L "q * S"] by simp
  then have "L * (r + q) \<le> q * (S + L)" by (simp add: algebra_simps)
  then have "L * (r + q) div (S + L) \<le> q * (S + L) div (S + L)"
    using assms by (intro zdiv_mono1) simp_all
  then show ?thesis using assms by simp
qed

lemma getLiquidityMinted_first:
  assumes "wf_pair env p" and "0 \<le> q0" and "0 \<le> q1"
  obtains root where "0 \<le> root" and "root ^ 2 \<le> q0 * q1" and "q0 * q1 < (root + 1) ^ 2"
    and "getLiquidityMinted p (raw (ERC20 (liquidityToken p)) 0) (raw (ERC20 (token0 p)) q0) (raw (ERC20 (token1 p)) q1) =
      (if root \<le> MINIMUM_LIQUIDITY then Inl InsufficientInputAmountError
       else fromRawAmount (ERC20 (liquidityToken p)) (root - MINIMUM_LIQUIDITY))"
proof -
  from assms(1) obtain lp t0 t1 r0 r1 where p: "p = mk_pair lp t0 t1 r0 r1"
    and wf: "wf_pair env (mk_pair lp t0 t1 r0 r1)" by (rule wf_pairE)
  note w = wf [unfolded wf_mk_pair]
  obtain root where root: "bigint_sqrt (q0 * q1) = Inr root" "0 \<le> root" "root ^ 2 \<le> q0 * q1" "q0 * q1 < (root + 1) ^ 2"
    using bigint_sqrt_root [of "q0 * q1"] assms by auto
  show thesis by (rule that [OF root(2-4)]) (use w root(1) in \<open>auto simp: p getLiquidityMinted_def Let_def\<close>)
qed

text \<open>With the protocol's fee a share is worth no more than without it: the fee only adds to the supply.\<close>

lemma bigint_sqrt_nonneg: "bigint_sqrt y = Inr r \<Longrightarrow> 0 \<le> y \<and> 0 \<le> r"
  using bigint_sqrt_root [of y] by (cases "0 \<le> y") (auto simp: bigint_sqrt_def invariantS_eq_Inr)

lemma fee_supply:
  assumes "0 \<le> S" and "(if \<not> feeOn then Inr (raw (ERC20 lp) S)
      else invariantS ok ''K_LAST''
        (if k \<noteq> 0 then
           bindS (bigint_sqrt K) (\<lambda>rootK. bindS (bigint_sqrt k) (\<lambda>rootKLast.
             if rootK > rootKLast then
               bindS (bigint_div (S * (rootK - rootKLast)) (rootK * 5 + rootKLast)) (\<lambda>feeLiquidity.
               bindS (fromRawAmount (ERC20 lp) feeLiquidity) (\<lambda>feeAmount. Amount_add (raw (ERC20 lp) S) feeAmount))
             else Inr (raw (ERC20 lp) S)))
         else Inr (raw (ERC20 lp) S))) = Inr adjusted"
  obtains A where "adjusted = raw (ERC20 lp) A" and "S \<le> A"
proof -
  have fee: "0 \<le> S * (rootK - rootKLast) div (rootK * 5 + rootKLast)" if "0 \<le> rootKLast" "rootKLast < rootK" for rootK rootKLast :: int
    using that assms(1) by (intro pos_imp_zdiv_nonneg_iff [THEN iffD2]) simp_all
  show thesis
    using assms that
    by (auto simp: bindS_eq_Inr invariantS_eq_Inr bigint_div_nonneg fromRawAmount_raw Amount_add_raw fee
        dest!: bigint_sqrt_nonneg split: if_splits)
qed

lemma getLiquidityValue_le:
  assumes "wf_pair env p" and "involvesToken p t" and "0 \<le> L" and "L \<le> S" and "0 < S"
    and "getLiquidityValue p t (raw (ERC20 (liquidityToken p)) S) (raw (ERC20 (liquidityToken p)) L) feeOn kLast b = Inr v"
  shows "numerator v \<le> L * reserve_in p t div S"
proof -
  from assms(1) obtain lp t0 t1 r0 r1 where p: "p = mk_pair lp t0 t1 r0 r1"
    and wf: "wf_pair env (mk_pair lp t0 t1 r0 r1)" by (rule wf_pairE)
  note w = wf [unfolded wf_mk_pair]
  have z: "Fraction_equalTo (raw (ERC20 lp) S) (AsBigint 0) = False"
    using assms(5) by (simp add: Fraction_equalTo_def)
  have r: "bindS (reserveOf p t) quotient = Inr (reserve_in p t)" "0 \<le> reserve_in p t"
    using w assms(2) by (simp_all add: p reserveOf_def reserve_in_def)
  obtain A where A: "S \<le> A" and v: "bindS (bigint_div (L * reserve_in p t) A) (fromRawAmount (ERC20 t)) = Inr v"
  proof -
    from assms(5,6) r(1) z show thesis
      by (auto simp: p getLiquidityValue_def Let_def invariantS_eq_Inr bindS_eq_Inr cong: if_cong
          elim!: fee_supply [rotated] intro: that)
  qed
  have "L * reserve_in p t div A \<le> L * reserve_in p t div S" using assms(3,5) A r(2) by (intro zdiv_mono2) simp_all
  then show ?thesis using v A assms(3,5) r(2)
    by (auto simp: bigint_div_nonneg fromRawAmount_raw split: if_splits)
qed

text \<open>A deposit into a pair in use, or the first one into an empty pair, is worth at least what it mints.\<close>

lemma minted_worth:
  assumes "wf_pair env p" and "0 \<le> q0" and "0 \<le> q1"
    and "S = 0 \<and> numerator (reserve0 p) = 0 \<and> numerator (reserve1 p) = 0
      \<or> 0 < S \<and> 0 < numerator (reserve0 p) \<and> 0 < numerator (reserve1 p)"
    and "getLiquidityMinted p (raw (ERC20 (liquidityToken p)) S) (raw (ERC20 (token0 p)) q0) (raw (ERC20 (token1 p)) q1) = Inr minted"
  shows "\<exists>L. minted = raw (ERC20 (liquidityToken p)) L \<and> 0 < L
    \<and> L * (numerator (reserve0 p) + q0) div ((if S = 0 then MINIMUM_LIQUIDITY else S) + L) \<le> q0
    \<and> L * (numerator (reserve1 p) + q1) div ((if S = 0 then MINIMUM_LIQUIDITY else S) + L) \<le> q1"
  using assms(4)
proof
  let ?r0 = "numerator (reserve0 p)" and ?r1 = "numerator (reserve1 p)"
  assume used: "0 < S \<and> 0 < ?r0 \<and> 0 < ?r1"
  define L where "L = min (q0 * S div ?r0) (q1 * S div ?r1)"
  have "0 \<le> q0 * S div ?r0" "0 \<le> q1 * S div ?r1" using assms used by (simp_all add: pos_imp_zdiv_nonneg_iff)
  then have "0 \<le> L" by (simp add: L_def)
  have "L \<noteq> 0" "minted = raw (ERC20 (liquidityToken p)) L"
    using assms(5) getLiquidityMinted_eval [OF assms(1-3), of S] used
    by (auto simp: Let_def L_def fromRawAmount_raw split: if_splits)
  moreover have "L \<le> q0 * S div ?r0" "L \<le> q1 * S div ?r1" by (simp_all add: L_def)
  ultimately show ?thesis
    using minted_share_value [of ?r0 q0 S L] minted_share_value [of ?r1 q1 S L] used assms(2,3) \<open>0 \<le> L\<close> by auto
next
  assume none: "S = 0 \<and> numerator (reserve0 p) = 0 \<and> numerator (reserve1 p) = 0"
  obtain root where root: "getLiquidityMinted p (raw (ERC20 (liquidityToken p)) 0) (raw (ERC20 (token0 p)) q0) (raw (ERC20 (token1 p)) q1) =
      (if root \<le> MINIMUM_LIQUIDITY then Inl InsufficientInputAmountError
       else fromRawAmount (ERC20 (liquidityToken p)) (root - MINIMUM_LIQUIDITY))"
    by (rule getLiquidityMinted_first [OF assms(1-3)])
  have share: "L * q div (MINIMUM_LIQUIDITY + L) \<le> q" if "0 < L" "0 \<le> q" for L q
  proof -
    have "L * q div (MINIMUM_LIQUIDITY + L) \<le> q * (MINIMUM_LIQUIDITY + L) div (MINIMUM_LIQUIDITY + L)"
      using that by (intro zdiv_mono1) (simp_all add: MINIMUM_LIQUIDITY_def algebra_simps)
    then show ?thesis using that by (simp add: MINIMUM_LIQUIDITY_def)
  qed
  show ?thesis
    using assms(2,3,5) none root share [of "root - MINIMUM_LIQUIDITY" q0] share [of "root - MINIMUM_LIQUIDITY" q1]
    by (auto simp: fromRawAmount_raw split: if_splits)
qed

section \<open>The cache of pair addresses\<close>

definition key_ok :: "Token \<Rightarrow> bool" where
  "key_ok t \<longleftrightarrow> 0 \<le> chainId t \<and> CHR ''-'' \<notin> set (address t)"

lemma split_at_dash:
  assumes "c \<notin> set xs" and "c \<notin> set ys" and "xs @ c # us = ys @ c # vs"
  shows "xs = ys \<and> us = vs"
  using assms
proof (induction xs arbitrary: ys)
  case Nil
  then show ?case by (cases ys) auto
next
  case (Cons x xs)
  then show ?case by (cases ys) auto
qed

lemma no_dash_in_digits: "CHR ''-'' \<notin> set (nat_str 10 n)"
proof -
  have "list_all (is_digit 10) (nat_str 10 n)" by (rule nat_str_digits) simp_all
  moreover have "\<not> is_digit 10 CHR ''-''" by (simp add: is_digit_def digit_value_def)
  ultimately show ?thesis by (auto simp: list_all_iff)
qed

lemma composeKey_inj:
  assumes "key_ok a" "key_ok b" "key_ok a'" "key_ok b'" and "composeKey a b = composeKey a' b'"
  shows "chainId a = chainId a'" and "address a = address a'" and "address b = address b'"
proof -
  have str: "bigint_str 10 (chainId t) = nat_str 10 (nat (chainId t))" if "key_ok t" for t
    using that by (simp add: key_ok_def bigint_str_def)
  have "nat_str 10 (nat (chainId a)) @ CHR ''-'' # (address a @ CHR ''-'' # address b)
      = nat_str 10 (nat (chainId a')) @ CHR ''-'' # (address a' @ CHR ''-'' # address b')"
    using assms by (simp add: composeKey_def str)
  from split_at_dash [OF no_dash_in_digits no_dash_in_digits this]
  have n: "nat_str 10 (nat (chainId a)) = nat_str 10 (nat (chainId a'))"
    and rest: "address a @ CHR ''-'' # address b = address a' @ CHR ''-'' # address b'" by simp_all
  have "digits_val 10 (nat_str 10 (nat (chainId a))) = digits_val 10 (nat_str 10 (nat (chainId a')))"
    by (rule arg_cong [OF n])
  then have "nat (chainId a) = nat (chainId a')" by simp
  then show "chainId a = chainId a'" using assms by (auto simp: key_ok_def eq_nat_nat_iff)
  show "address a = address a'" and "address b = address b'"
    using split_at_dash [OF _ _ rest] assms by (simp_all add: key_ok_def)
qed

lemma create2_pair_cong:
  assumes "chainId a = chainId a'" "chainId b = chainId b'" "address a = address a'" "address b = address b'"
  shows "create2_pair env f a b = create2_pair env f a' b'"
  using assms by (simp add: create2_pair_def)

text \<open>Every entry of the cache is the address its key stands for.\<close>

definition cache_ok :: "DexEnv \<Rightarrow> address_cache \<Rightarrow> bool" where
  "cache_ok env cache \<longleftrightarrow>
     (\<forall>a b addr. key_ok a \<longrightarrow> key_ok b \<longrightarrow> chainId a = chainId b \<longrightarrow> cache (composeKey a b) = Some addr \<longrightarrow>
        create2_pair env (FACTORY_ADDRESS_MAP env (chainId a)) a b = Inr addr)"

lemma cache_ok_empty: "cache_ok env Map.empty"
  by (simp add: cache_ok_def)

lemma cache_ok_update:
  assumes "cache_ok env cache" and "key_ok a" "key_ok b" "chainId a = chainId b"
    and "create2_pair env (FACTORY_ADDRESS_MAP env (chainId a)) a b = Inr addr"
  shows "cache_ok env (cache(composeKey a b \<mapsto> addr))"
  unfolding cache_ok_def
proof (intro allI impI)
  fix a' b' addr'
  assume h: "key_ok a'" "key_ok b'" "chainId a' = chainId b'" "(cache(composeKey a b \<mapsto> addr)) (composeKey a' b') = Some addr'"
  show "create2_pair env (FACTORY_ADDRESS_MAP env (chainId a')) a' b' = Inr addr'"
  proof (cases "composeKey a' b' = composeKey a b")
    case True
    note inj = composeKey_inj [OF h(1,2) assms(2,3) True]
    have "create2_pair env f a' b' = create2_pair env f a b" for f
      using inj h(3) assms(4) by (intro create2_pair_cong) simp_all
    then show ?thesis using h(4) True inj assms(5) by simp
  qed (use h assms(1) in \<open>auto simp: cache_ok_def\<close>)
qed

lemma Pair_getAddress_cached:
  assumes "cache_ok env cache" and "key_ok a" and "key_ok b"
  shows "bindS (Pair_getAddress env cache a b) (\<lambda>r. Inr (fst r)) = pair_address env a b"
    and "Pair_getAddress env cache a b = Inr (addr, cache') \<Longrightarrow> cache_ok env cache'"
proof -
  show "bindS (Pair_getAddress env cache a b) (\<lambda>r. Inr (fst r)) = pair_address env a b"
  proof (cases "sortsBefore a b")
    case (Inr before)
    define t0 t1 where "t0 = (if before then a else b)" and "t1 = (if before then b else a)"
    have same: "chainId a = chainId b" using Inr by (simp add: sortsBefore_eq_Inr)
    have ok: "key_ok t0" "key_ok t1" "chainId t0 = chainId t1" "chainId t0 = chainId a"
      using assms same by (simp_all add: t0_def t1_def)
    have hit: "create2_pair env (FACTORY_ADDRESS_MAP env (chainId a)) t0 t1 = Inr v"
      if "cache (composeKey t0 t1) = Some v" for v
      using assms(1) ok that unfolding cache_ok_def by metis
    have pairs: "(if before then (a, b) else (b, a)) = (t0, t1)" by (simp add: t0_def t1_def)
    show ?thesis
      using Inr hit unfolding pair_address_def Pair_getAddress_def computePairAddress_def
      by (cases "cache (composeKey t0 t1)";
          cases "create2_pair env (FACTORY_ADDRESS_MAP env (chainId a)) t0 t1")
         (simp_all add: pairs Let_def)
  qed (simp add: Pair_getAddress_def computePairAddress_def pair_address_def)
  show "cache_ok env cache'" if "Pair_getAddress env cache a b = Inr (addr, cache')"
  proof -
    from that obtain before where before: "sortsBefore a b = Inr before"
      by (auto simp: Pair_getAddress_def computePairAddress_def elim: bindS_InrE)
    define t0 t1 where "t0 = (if before then a else b)" and "t1 = (if before then b else a)"
    have pairs: "(if before then (a, b) else (b, a)) = (t0, t1)" by (simp add: t0_def t1_def)
    have ok: "key_ok t0" "key_ok t1" "chainId t0 = chainId t1" "chainId t0 = chainId a"
      using assms before by (auto simp: t0_def t1_def sortsBefore_eq_Inr)
    show ?thesis
      using that before cache_ok_update [OF assms(1) ok(1-3)] assms(1) ok(4)
      unfolding Pair_getAddress_def computePairAddress_def
      by (auto simp: pairs Let_def bindS_eq_Inr split: option.splits)
  qed
qed

text \<open>The cache after a sequence of calls of \<^verbatim>\<open>Pair.getAddress\<close>; a call that throws leaves it as it is.\<close>

definition cache_step :: "DexEnv \<Rightarrow> address_cache \<Rightarrow> Token \<times> Token \<Rightarrow> address_cache" where
  "cache_step env cache c =
     (case Pair_getAddress env cache (fst c) (snd c) of Inr r \<Rightarrow> snd r | Inl e \<Rightarrow> cache)"

definition cache_after :: "DexEnv \<Rightarrow> (Token \<times> Token) list \<Rightarrow> address_cache" where
  "cache_after env calls = foldl (cache_step env) Map.empty calls"

lemma cache_after_ok:
  assumes "list_all (\<lambda>(a, b). key_ok a \<and> key_ok b) calls"
  shows "cache_ok env (cache_after env calls)"
proof -
  have "cache_ok env (foldl (cache_step env) cache calls)" if "cache_ok env cache" for cache
    using assms that
  proof (induction calls arbitrary: cache)
    case (Cons c calls)
    then have "cache_ok env (cache_step env cache c)"
      by (auto simp: cache_step_def split: sum.split intro: Pair_getAddress_cached(2))
    with Cons show ?case by simp
  qed simp
  then show ?thesis by (simp add: cache_after_def cache_ok_empty)
qed

text \<open>
  The key has no factory in it: once the address of a pair is cached, \<^verbatim>\<open>computePairAddress\<close> returns
  it for every other factory too.
\<close>

lemma computePairAddress_ignores_factory:
  assumes "computePairAddress env cache f a b = Inr (addr, cache')"
  shows "computePairAddress env cache' g a b = Inr (addr, cache')"
proof -
  from assms obtain before where before: "sortsBefore a b = Inr before"
    by (auto simp: computePairAddress_def elim: bindS_InrE)
  define t0 t1 where "t0 = (if before then a else b)" and "t1 = (if before then b else a)"
  have pairs: "(if before then (a, b) else (b, a)) = (t0, t1)" by (simp add: t0_def t1_def)
  show ?thesis
  proof (cases "cache (composeKey t0 t1)")
    case None
    then show ?thesis using assms before by (auto simp: computePairAddress_def pairs bindS_eq_Inr)
  next
    case (Some v)
    then show ?thesis using assms before by (auto simp: computePairAddress_def pairs)
  qed
qed

end
