(* ===== verification/V2TradeFacts.thy ===== *)
theory V2TradeFacts
  imports V2Trade V2PairFacts
begin

text \<open>
  What a trade computes along a route of well-formed pairs.  A route is read as its list of hops
  (the reserve paid into and the reserve paid out of); the amounts of a trade are then the two
  swap formulas iterated over the hops (\<open>chain_out\<close> forwards, \<open>chain_in\<close> backwards), and the
  mid price is the product of the reserve ratios.
\<close>

section \<open>Loops\<close>

lemma foldS_append: "foldS f a (xs @ ys) = bindS (foldS f a xs) (\<lambda>b. foldS f b ys)"
proof (induction xs arbitrary: a)
  case (Cons x xs)
  then show ?case by (cases "f a x") simp_all
qed simp

lemma foldS_mapS_concat:
  assumes "\<And>i b ts. i \<in> set is \<Longrightarrow> cand i = Inr ts \<Longrightarrow> body b i = foldS g b ts"
    and "mapS cand is = Inr tss"
  shows "foldS body b is = foldS g b (concat tss)"
  using assms
proof (induction "is" arbitrary: b tss)
  case (Cons i rest)
  from Cons.prems(2) obtain ts tss' where "cand i = Inr ts" "mapS cand rest = Inr tss'" "tss = ts # tss'"
    by (auto simp: bindS_eq_Inr)
  with Cons show ?case by (simp add: foldS_append)
qed simp

section \<open>Hops\<close>

type_synonym hop = "int \<times> int"

fun hops :: "Token \<Rightarrow> Pair list \<Rightarrow> hop list" where
  "hops t [] = []"
| "hops t (p # ps) = (reserve_in p t, reserve_out p t) # hops (other_token p t) ps"

fun connected :: "Token \<Rightarrow> Pair list \<Rightarrow> bool" where
  "connected t [] = True"
| "connected t (p # ps) = (involvesToken p t \<and> connected (other_token p t) ps)"

fun end_token :: "Token \<Rightarrow> Pair list \<Rightarrow> Token" where
  "end_token t [] = t"
| "end_token t (p # ps) = end_token (other_token p t) ps"

fun chain_out :: "int \<Rightarrow> hop list \<Rightarrow> js_error + int" where
  "chain_out x [] = Inr x"
| "chain_out x ((ri, ro) # hs) =
     (let y = out_amount x ri ro in
      if ri = 0 \<or> ro = 0 then Inl InsufficientReservesError
      else if y = 0 then Inl InsufficientInputAmountError
      else if MaxUint256 < ri + x then Inl (Invariant ''AMOUNT'')
      else chain_out y hs)"

fun chain_in :: "int \<Rightarrow> hop list \<Rightarrow> js_error + int" where
  "chain_in y [] = Inr y"
| "chain_in y ((ri, ro) # hs) =
     bindS (chain_in y hs) (\<lambda>m.
       let x = in_amount m ri ro in
       if ri = 0 \<or> ro \<le> m then Inl InsufficientReservesError
       else if MaxUint256 < ri + x then Inl (Invariant ''AMOUNT'')
       else Inr x)"

definition product_in :: "hop list \<Rightarrow> int" where
  "product_in hs = prod_list (map fst hs)"

definition product_out :: "hop list \<Rightarrow> int" where
  "product_out hs = prod_list (map snd hs)"

lemma hops_wf:
  assumes "list_all (wf_pair env) ps"
  shows "list_all (\<lambda>(ri, ro). 0 \<le> ri \<and> 0 \<le> ro \<and> ri \<le> MaxUint256 \<and> ro \<le> MaxUint256) (hops t ps)"
  using assms by (induction ps arbitrary: t) (auto simp: wf_reserves)

lemma length_hops [simp]: "length (hops t ps) = length ps"
  by (induction ps arbitrary: t) auto

subsection \<open>Arithmetic of chains\<close>

lemma chain_in_pos:
  assumes "chain_in y hs = Inr x" and "0 < y" and "list_all (\<lambda>(ri, ro). 0 \<le> ri) hs"
  shows "0 < x"
  using assms
proof (induction hs arbitrary: x)
  case (Cons h hs)
  obtain ri ro where h: "h = (ri, ro)" by (cases h)
  from Cons.prems h obtain m where "chain_in y hs = Inr m" "ri \<noteq> 0" "m < ro" "x = in_amount m ri ro"
    by (auto simp: bindS_eq_Inr Let_def split: if_splits)
  with Cons h show ?case by (auto intro!: in_amount_pos)
qed simp

text \<open>
  The input a chain asks for gives at least the output it was asked for, when the reserves fit
  the 112 bits the contracts keep them in.
\<close>

lemma chain_in_then_out:
  assumes "chain_in y hs = Inr x" and "0 < y" and "x \<le> x'"
    and "list_all (\<lambda>(ri, ro). 0 \<le> ri \<and> ri < 2 ^ 112 \<and> ro < 2 ^ 112) hs"
    and "hs = [] \<or> fst (hd hs) + x' \<le> MaxUint256"
  shows "\<exists>y'. chain_out x' hs = Inr y' \<and> y \<le> y'"
  using assms
proof (induction hs arbitrary: x x')
  case (Cons h hs)
  obtain ri ro where h: "h = (ri, ro)" by (cases h)
  from Cons.prems(1) h obtain m where m: "chain_in y hs = Inr m" "ri \<noteq> 0" "m < ro" "x = in_amount m ri ro"
    by (auto simp: bindS_eq_Inr Let_def split: if_splits)
  have "0 < m"
    by (rule chain_in_pos [OF m(1) Cons.prems(2)]) (use Cons.prems(4) in \<open>auto simp: list_all_iff\<close>)
  have ri: "0 < ri" using m(2) Cons.prems(4) h by auto
  have x: "0 < x" using in_amount_pos ri \<open>0 < m\<close> m by simp
  have "m \<le> out_amount x ri ro" using in_amount_suffices ri \<open>0 < m\<close> m by simp
  also have "\<dots> \<le> out_amount x' ri ro"
    using out_amount_mono x Cons.prems(3) ri \<open>0 < m\<close> m(3) by simp
  finally have ge: "m \<le> out_amount x' ri ro" .
  have less: "out_amount x' ri ro < ro" using out_amount_less x Cons.prems(3) ri \<open>0 < m\<close> m(3) by simp
  have "hs = [] \<or> fst (hd hs) + out_amount x' ri ro \<le> MaxUint256"
  proof (cases hs)
    case (Cons h' hs')
    then have "fst h' < 2 ^ 112" "ro < 2 ^ 112" using Cons.prems(4) h by auto
    moreover have "(2::int) ^ 112 + 2 ^ 112 \<le> MaxUint256" by (simp add: MaxUint256_def)
    ultimately show ?thesis using less Cons by simp
  qed simp
  then obtain y' where "chain_out (out_amount x' ri ro) hs = Inr y'" "y \<le> y'"
    using Cons.IH [OF m(1) Cons.prems(2) ge] Cons.prems(4) by auto
  then show ?case using h ri m(3) \<open>0 < m\<close> ge Cons.prems(5) by (simp add: Let_def)
qed simp

text \<open>Every hop pays less than its mid price.\<close>

lemma out_amount_below_mid:
  assumes "0 < x" and "0 < ri" and "0 < ro"
  shows "out_amount x ri ro * ri < x * ro"
proof -
  let ?y = "out_amount x ri ro"
  have "?y * (ri * 10000 + x * 9975) \<le> x * 9975 * ro"
    using le_out_amount_iff [of x ri ?y ro] assms by simp
  moreover have "0 \<le> ?y * x" using out_amount_nonneg [of x ri ro] assms by simp
  moreover have "0 < x * ro" using assms by simp
  ultimately have "10000 * (?y * ri) < 10000 * (x * ro)" by (simp add: algebra_simps)
  then show ?thesis by simp
qed

lemma mid_price_step:
  fixes y m x ri ro P Q :: int
  assumes "y * P \<le> m * Q" and "m * ri < x * ro" and "0 < Q" and "0 \<le> P" and "0 < ri"
  shows "y * (ri * P) < x * (ro * Q)"
proof -
  have "y * (ri * P) \<le> (m * Q) * ri"
    using mult_right_mono [OF assms(1), of ri] assms(5) by (simp add: algebra_simps)
  also have "\<dots> < (x * ro) * Q"
    using mult_strict_right_mono [OF assms(2,3)] by (simp add: algebra_simps)
  finally show ?thesis by (simp add: algebra_simps)
qed

lemma chain_out_below_mid:
  assumes "chain_out x hs = Inr y" and "0 < x" and "list_all (\<lambda>(ri, ro). 0 \<le> ri \<and> 0 \<le> ro) hs"
  shows "0 < y \<and> 0 < product_in hs \<and> 0 < product_out hs \<and>
    y * product_in hs \<le> x * product_out hs \<and> (hs \<noteq> [] \<longrightarrow> y * product_in hs < x * product_out hs)"
  using assms
proof (induction hs arbitrary: x)
  case (Cons h hs)
  obtain ri ro where h: "h = (ri, ro)" by (cases h)
  let ?m = "out_amount x ri ro"
  have c: "0 < ri" "0 < ro" "?m \<noteq> 0" "chain_out ?m hs = Inr y"
    using Cons.prems h by (auto simp: Let_def split: if_splits)
  have "0 < ?m" using c out_amount_nonneg [of x ri ro] Cons.prems(2) by simp
  with Cons c h have ih: "0 < y" "0 < product_in hs" "0 < product_out hs" "y * product_in hs \<le> ?m * product_out hs"
    by auto
  have "y * (ri * product_in hs) < x * (ro * product_out hs)"
    by (rule mid_price_step [OF ih(4) out_amount_below_mid]) (use c Cons.prems(2) ih in simp_all)
  then show ?case using h c ih by (simp add: product_in_def product_out_def)
qed (simp add: product_in_def product_out_def)

lemma chain_in_below_mid:
  assumes "chain_in y hs = Inr x" and "0 < y" and "list_all (\<lambda>(ri, ro). 0 \<le> ri \<and> 0 \<le> ro) hs"
  shows "0 < x \<and> 0 < product_in hs \<and> 0 < product_out hs \<and>
    y * product_in hs \<le> x * product_out hs \<and> (hs \<noteq> [] \<longrightarrow> y * product_in hs < x * product_out hs)"
  using assms
proof (induction hs arbitrary: x)
  case (Cons h hs)
  obtain ri ro where h: "h = (ri, ro)" by (cases h)
  from Cons.prems(1) h obtain m where m: "chain_in y hs = Inr m" "ri \<noteq> 0" "m < ro" "x = in_amount m ri ro"
    by (auto simp: bindS_eq_Inr Let_def split: if_splits)
  with Cons have ih: "0 < m" "0 < product_in hs" "0 < product_out hs" "y * product_in hs \<le> m * product_out hs"
    by auto
  have r: "0 < ri" "0 < ro" using m ih Cons.prems(3) h by auto
  have x: "0 < x" using in_amount_pos r ih m by simp
  have "m * ri \<le> out_amount x ri ro * ri"
    using in_amount_suffices r ih m by (intro mult_right_mono) simp_all
  also have "\<dots> < x * ro" using out_amount_below_mid x r by simp
  finally have "y * (ri * product_in hs) < x * (ro * product_out hs)"
    using mid_price_step [OF ih(4)] r ih by simp
  then show ?case using h r x ih by (simp add: product_in_def product_out_def)
qed (simp add: product_in_def product_out_def)

section \<open>Amounts along a route\<close>

lemma Token_equals_chain:
  assumes "Token_equals t t'"
  shows "hops t ps = hops t' ps" and "connected t ps = connected t' ps"
  using assms by (cases ps; simp add: Token_equals_view [OF assms])+

lemma amounts_out_eval:
  assumes "list_all (wf_pair env) ps" and "connected t ps" and "0 \<le> x"
  shows "amounts_out env (raw (ERC20 t) x) ps =
    bindS (chain_out x (hops t ps)) (\<lambda>y. Inr (raw (ERC20 (end_token t ps)) y))"
  using assms
proof (induction ps arbitrary: t x)
  case (Cons p ps)
  let ?ri = "reserve_in p t" and ?ro = "reserve_out p t"
  let ?y = "out_amount x ?ri ?ro"
  have wf: "wf_pair env p" "involvesToken p t" using Cons.prems by simp_all
  have "0 \<le> ?y" if "?ri \<noteq> 0" "?ro \<noteq> 0"
    using that wf_reserves [OF wf(1), of t] Cons.prems(3) by (intro out_amount_nonneg) simp_all
  then have "amounts_out env (raw (ERC20 (other_token p t)) ?y) ps =
      bindS (chain_out ?y (hops (other_token p t) ps)) (\<lambda>y. Inr (raw (ERC20 (end_token (other_token p t) ps)) y))"
    if "?ri \<noteq> 0" "?ro \<noteq> 0" using Cons that by simp
  then show ?case
    using getOutputAmount_eval [OF wf Cons.prems(3)]
    by (simp add: amounts_out_def Let_def)
qed (simp add: amounts_out_def)

lemma amounts_in_Cons:
  "amounts_in env a (p # ps) =
    bindS (amounts_in env a ps) (\<lambda>m. bindS (getInputAmount env p m) (\<lambda>r. Inr (fst r)))"
  by (simp add: amounts_in_def foldS_append bindS_def split: sum.split)

lemma amounts_in_eval:
  assumes "list_all (wf_pair env) ps" and "connected t ps" and "Token_equals e (end_token t ps)" and "0 < y"
  shows "\<exists>s. Token_equals s t \<and>
    amounts_in env (raw (ERC20 e) y) ps = bindS (chain_in y (hops t ps)) (\<lambda>x. Inr (raw (ERC20 s) x))"
  using assms
proof (induction ps arbitrary: t)
  case Nil
  then show ?case by (auto simp: amounts_in_def)
next
  case (Cons p ps)
  have wf: "wf_pair env p" "involvesToken p t" using Cons.prems by simp_all
  from Cons obtain s where s: "Token_equals s (other_token p t)"
    "amounts_in env (raw (ERC20 e) y) ps = bindS (chain_in y (hops (other_token p t) ps)) (\<lambda>x. Inr (raw (ERC20 s) x))"
    by auto
  note tok_back = other_token_back [OF wf]
  note view = Token_equals_view [OF s(1)]
  have inv: "involvesToken p s" using view tok_back by simp
  have eq: "Token_equals (other_token p s) t" using view tok_back by simp
  show ?case
  proof (intro exI conjI)
    show "Token_equals (other_token p s) t" by (rule eq)
    show "amounts_in env (raw (ERC20 e) y) (p # ps) =
        bindS (chain_in y (hops t (p # ps))) (\<lambda>x. Inr (raw (ERC20 (other_token p s)) x))"
    proof (cases "chain_in y (hops (other_token p t) ps)")
      case (Inr m)
      have "0 < m"
        using chain_in_pos [OF Inr Cons.prems(4)] hops_wf [of env ps] Cons.prems(1)
        by (auto simp: list_all_iff)
      then show ?thesis
        using s(2) Inr getInputAmount_eval [OF wf(1) inv, of m] Token_equals_view [OF eq, of p]
        by (simp add: amounts_in_Cons Let_def)
    qed (use s(2) in \<open>simp add: amounts_in_Cons\<close>)
  qed
qed

section \<open>Paths and mid prices\<close>

lemma route_path_connected:
  "route_path t ps = Inr pth \<Longrightarrow>
    connected t ps \<and> length pth = Suc (length ps) \<and> last pth = end_token t ps \<and> hd pth = t"
proof (induction ps arbitrary: t pth)
  case (Cons p ps)
  from Cons.prems obtain rest where "involvesToken p t" and
    "route_path (other_token p t) ps = Inr rest" and "pth = t # rest"
    by (auto simp: invariantS_eq_Inr bindS_eq_Inr involvesToken_def other_token_def)
  with Cons.IH show ?case by fastforce
qed auto

definition hop_prices :: "Token \<Rightarrow> Pair list \<Rightarrow> Price list \<Rightarrow> bool" where
  "hop_prices t ps prices \<longleftrightarrow>
     map (\<lambda>p. (denominator p, numerator p)) prices = hops t ps \<and>
     (prices \<noteq> [] \<longrightarrow> Currency_equals (baseCurrency (hd prices)) (ERC20 t)) \<and>
     successively (\<lambda>p q. Currency_equals (quoteCurrency p) (baseCurrency q)) prices"

lemma hop_price_eval:
  assumes "wf_pair env p" and "involvesToken p t"
  obtains b where "hop_price t p = Inr (new_Price (ERC20 b) (ERC20 (other_token p t)) (reserve_in p t) (reserve_out p t))"
    and "Token_equals b t"
proof -
  from assms(1) obtain lp t0 t1 r0 r1 where p: "p = mk_pair lp t0 t1 r0 r1" by (rule wf_pairE)
  show thesis
    by (rule that [of "if Token_equals t t0 then t0 else t1"])
       (use assms(2) in \<open>auto simp: p hop_price_def swap_view involvesToken_def Token_equals_sym\<close>)
qed

lemma hop_prices_eval:
  assumes "list_all (wf_pair env) ps" and "route_path t ps = Inr pth"
  shows "\<exists>prices. mapS (\<lambda>(t, pair). hop_price t pair) (zip pth ps) = Inr prices \<and> hop_prices t ps prices"
  using assms
proof (induction ps arbitrary: t pth)
  case Nil
  then show ?case by (simp add: hop_prices_def)
next
  case (Cons p ps)
  from Cons.prems(2) obtain rest where inv: "involvesToken p t" and
    rest: "route_path (other_token p t) ps = Inr rest" and pth: "pth = t # rest"
    by (auto simp: invariantS_eq_Inr bindS_eq_Inr involvesToken_def other_token_def)
  from Cons rest obtain prices where prices:
    "mapS (\<lambda>(t, pair). hop_price t pair) (zip rest ps) = Inr prices" "hop_prices (other_token p t) ps prices"
    by auto
  obtain b where b: "hop_price t p = Inr (new_Price (ERC20 b) (ERC20 (other_token p t)) (reserve_in p t) (reserve_out p t))"
    "Token_equals b t" using hop_price_eval [of env p t] Cons.prems(1) inv by auto
  show ?case
    using prices b pth by (cases prices) (auto simp: hop_prices_def Currency_equals_sym)
qed

lemma foldS_Price_multiply:
  assumes "successively (\<lambda>p q. Currency_equals (quoteCurrency p) (baseCurrency q)) (p # prices)"
  shows "\<exists>r. foldS Price_multiply p prices = Inr r \<and>
    numerator r = numerator p * prod_list (map numerator prices) \<and>
    denominator r = denominator p * prod_list (map denominator prices)"
  using assms
proof (induction prices arbitrary: p)
  case (Cons q prices)
  let ?pq = "new_Price (baseCurrency p) (quoteCurrency q) (denominator p * denominator q) (numerator p * numerator q)"
  have "Price_multiply p q = Inr ?pq" using Cons.prems by (simp add: Price_multiply_def Fraction_multiply_def)
  moreover have "successively (\<lambda>p q. Currency_equals (quoteCurrency p) (baseCurrency q)) (?pq # prices)"
    using Cons.prems by (cases prices) auto
  then have "\<exists>r. foldS Price_multiply ?pq prices = Inr r \<and>
      numerator r = numerator ?pq * prod_list (map numerator prices) \<and>
      denominator r = denominator ?pq * prod_list (map denominator prices)" by (rule Cons.IH)
  ultimately show ?case by (auto simp: mult.assoc)
qed simp

text \<open>
  A route of the development: the constructor's result on well-formed pairs, whose path ends at
  the output (which the constructor does not check).
\<close>

definition wf_route :: "DexEnv \<Rightarrow> Route \<Rightarrow> bool" where
  "wf_route env r \<longleftrightarrow>
     list_all (wf_pair env) (pairs r) \<and>
     new_Route (pairs r) (routeInput r) (routeOutput r) = Inr r \<and>
     Token_equals (last (path r)) (wrapped (routeOutput r))"

abbreviation route_hops :: "Route \<Rightarrow> hop list" where
  "route_hops r \<equiv> hops (wrapped (routeInput r)) (pairs r)"

lemma wf_routeD:
  assumes "wf_route env r"
  shows "list_all (wf_pair env) (pairs r)" and "pairs r \<noteq> []"
    and "route_path (wrapped (routeInput r)) (pairs r) = Inr (path r)"
    and "connected (wrapped (routeInput r)) (pairs r)"
    and "Token_equals (end_token (wrapped (routeInput r)) (pairs r)) (wrapped (routeOutput r))"
proof -
  show "list_all (wf_pair env) (pairs r)" using assms by (simp add: wf_route_def)
  have new: "new_Route (pairs r) (routeInput r) (routeOutput r) = Inr r" using assms by (simp add: wf_route_def)
  then show "pairs r \<noteq> []" and pth: "route_path (wrapped (routeInput r)) (pairs r) = Inr (path r)"
    by (cases r; auto simp: new_Route_def Let_def invariantS_eq_Inr bindS_eq_Inr)+
  from route_path_connected [OF pth] assms
  show "connected (wrapped (routeInput r)) (pairs r)"
    and "Token_equals (end_token (wrapped (routeInput r)) (pairs r)) (wrapped (routeOutput r))"
    by (auto simp: wf_route_def)
qed

lemma midPrice_eval:
  assumes "wf_route env r"
  shows "midPrice r = Inr (new_Price (routeInput r) (routeOutput r) (product_in (route_hops r)) (product_out (route_hops r)))"
proof -
  note w = wf_routeD [OF assms]
  obtain prices where prices: "mapS (\<lambda>(t, pair). hop_price t pair) (zip (path r) (pairs r)) = Inr prices"
    "hop_prices (wrapped (routeInput r)) (pairs r) prices"
    using hop_prices_eval [OF w(1,3)] by auto
  have h: "map (\<lambda>p. (denominator p, numerator p)) prices = route_hops r"
    using prices(2) by (simp add: hop_prices_def)
  have maps: "map denominator prices = map fst (route_hops r)" "map numerator prices = map snd (route_hops r)"
    unfolding h [symmetric] by simp_all
  have "prices \<noteq> []" using maps(1) w(2) by (cases "pairs r") auto
  then obtain p ps where p: "prices = p # ps" by (cases prices) auto
  from prices(2) have "successively (\<lambda>p q. Currency_equals (quoteCurrency p) (baseCurrency q)) (p # ps)"
    by (simp add: hop_prices_def p)
  from foldS_Price_multiply [OF this] maps show ?thesis
    by (auto simp: midPrice_def prices(1) p product_in_def product_out_def)
qed

section \<open>Trades\<close>

lemma computePriceImpact_eval:
  assumes "0 < D" and "0 < N" and "0 < x" and "0 \<le> y" and "y * D \<le> x * N"
  shows "computePriceImpact (new_Price ci co D N) (raw ci x) (raw co y) =
    (if N * x div D \<le> MaxUint256 then Inr (new_Percent ((N * x - y * D) * D) (D * (N * x)))
     else Inl (Invariant ''AMOUNT''))"
proof (cases "N * x div D \<le> MaxUint256")
  case False
  then show ?thesis using assms
    by (simp add: computePriceImpact_def Price_quote_def Fraction_multiply_def fromFractionalAmount_def
        new_CurrencyAmount_def quotient_def bigint_div_nonneg invariantS_def)
next
  case True
  define q where "q = \<lparr>numerator = N * x, denominator = D, currency = co, decimalScale = 10 ^ nat (currency_decimals co)\<rparr>"
  define s where "s = \<lparr>numerator = N * x - y * D, denominator = D, currency = co, decimalScale = 10 ^ nat (currency_decimals co)\<rparr>"
  have pos: "0 \<le> N * x - y * D" "0 < N * x" using assms by (simp_all add: mult.commute)
  have "Price_quote (new_Price ci co D N) (raw ci x) = Inr q"
    using True assms by (simp add: q_def Price_quote_def Fraction_multiply_def amount_eq_Inr)
  moreover have "(N * x - y * D) div D \<le> N * x div D" using assms by (intro zdiv_mono1) simp_all
  then have "Amount_subtract q (raw co y) = Inr s"
    using True assms pos by (auto simp: q_def s_def Amount_subtract_def Fraction_subtract_def amount_eq_Inr)
  moreover have "(N * x - y * D) * D div (D * (N * x)) \<le> MaxUint256"
  proof -
    have "(N * x - y * D) * D \<le> (N * x) * D" using assms by (intro mult_right_mono) simp_all
    then have "(N * x - y * D) * D div (D * (N * x)) \<le> (D * (N * x)) div (D * (N * x))"
      using assms pos by (intro zdiv_mono1) (simp_all add: mult.commute)
    also have "\<dots> = 1" using assms by simp
    finally show ?thesis by (simp add: MaxUint256_def)
  qed
  then have "Amount_divide s (frac q) =
      Inr \<lparr>numerator = (N * x - y * D) * D, denominator = D * (N * x), currency = co, decimalScale = 10 ^ nat (currency_decimals co)\<rparr>"
    using assms pos by (simp add: q_def s_def Amount_divide_def Fraction_divide_def amount_eq_Inr)
  ultimately show ?thesis using True by (simp add: computePriceImpact_def new_Percent_def)
qed

lemma Amount_wrapped_raw:
  "n \<le> MaxUint256 \<Longrightarrow> Amount_wrapped (raw c n) = Inr (raw (ERC20 (wrapped c)) n)"
  by (cases c) (simp_all add: Amount_wrapped_def raw_def amount_eq_Inr)

lemma fromFractional_raw:
  "fromFractionalAmount c n 1 = (if n \<le> MaxUint256 then Inr (raw c n) else Inl (Invariant ''AMOUNT''))"
  by (simp add: fromFractionalAmount_def fromRawAmount_raw flip: fromRawAmount_def)

text \<open>The trade with given amounts along a route.\<close>

definition mk_trade :: "Route \<Rightarrow> TradeType \<Rightarrow> int \<Rightarrow> int \<Rightarrow> Trade" where
  "mk_trade r tt x y =
     (let D = product_in (route_hops r); N = product_out (route_hops r) in
      \<lparr>trade_route = r, tradeType = tt, inputAmount = raw (routeInput r) x, outputAmount = raw (routeOutput r) y,
       executionPrice = new_Price (routeInput r) (routeOutput r) x y,
       priceImpact = new_Percent ((N * x - y * D) * D) (D * (N * x))\<rparr>)"

definition quotable :: "Route \<Rightarrow> int \<Rightarrow> bool" where
  "quotable r x \<longleftrightarrow> product_out (route_hops r) * x div product_in (route_hops r) \<le> MaxUint256"

lemma chain_out_bound:
  assumes "chain_out x hs = Inr y" and "0 < x" and "x \<le> MaxUint256"
    and "list_all (\<lambda>(ri, ro). 0 \<le> ri \<and> 0 \<le> ro \<and> ri \<le> MaxUint256 \<and> ro \<le> MaxUint256) hs"
  shows "y \<le> MaxUint256"
  using assms
proof (induction hs arbitrary: x)
  case (Cons h hs)
  obtain ri ro where h: "h = (ri, ro)" by (cases h)
  have c: "0 < ri" "0 < ro" "out_amount x ri ro \<noteq> 0" "chain_out (out_amount x ri ro) hs = Inr y"
    using Cons.prems h by (auto simp: Let_def split: if_splits)
  moreover have "0 < out_amount x ri ro" "out_amount x ri ro < ro"
    using c out_amount_nonneg [of x ri ro] out_amount_less [of x ri ro] Cons.prems(2) by simp_all
  ultimately show ?case using Cons h by auto
qed simp

lemma chain_in_bound:
  assumes "chain_in y hs = Inr x" and "y \<le> MaxUint256" and "list_all (\<lambda>(ri, ro). 0 \<le> ri) hs"
  shows "x \<le> MaxUint256"
  using assms by (cases hs) (auto simp: bindS_eq_Inr Let_def split: if_splits)

lemma hops_nonneg:
  assumes "wf_route env r"
  shows "list_all (\<lambda>(ri, ro). 0 \<le> ri \<and> 0 \<le> ro \<and> ri \<le> MaxUint256 \<and> ro \<le> MaxUint256) (route_hops r)"
    and "list_all (\<lambda>(ri, ro). 0 \<le> ri \<and> 0 \<le> ro) (route_hops r)"
    and "list_all (\<lambda>(ri, ro). 0 \<le> ri) (route_hops r)"
proof -
  show *: "list_all (\<lambda>(ri, ro). 0 \<le> ri \<and> 0 \<le> ro \<and> ri \<le> MaxUint256 \<and> ro \<le> MaxUint256) (route_hops r)"
    by (rule hops_wf) (rule wf_routeD(1) [OF assms])
  show "list_all (\<lambda>(ri, ro). 0 \<le> ri \<and> 0 \<le> ro) (route_hops r)"
    and "list_all (\<lambda>(ri, ro). 0 \<le> ri) (route_hops r)"
    using * by (auto simp: list_all_iff)
qed

lemma route_hops_nonempty: "wf_route env r \<Longrightarrow> route_hops r \<noteq> []"
  using wf_routeD(2) length_hops by (metis length_0_conv)

lemma new_Trade_exactIn_eval:
  assumes "wf_route env r" and "Currency_equals c (routeInput r)" and "wrapped c = wrapped (routeInput r)"
    and "0 < x" and "x \<le> MaxUint256"
  shows "new_Trade env r (raw c x) EXACT_INPUT =
    bindS (chain_out x (route_hops r)) (\<lambda>y.
      if quotable r x then Inr (mk_trade r EXACT_INPUT x y) else Inl (Invariant ''AMOUNT''))"
proof (cases "chain_out x (route_hops r)")
  case (Inl e)
  then show ?thesis
    using assms amounts_out_eval [of env "pairs r" "wrapped (routeInput r)" x] wf_routeD [OF assms(1)]
    by (simp add: new_Trade_def Amount_wrapped_raw)
next
  case (Inr y)
  note c = chain_out_below_mid [OF Inr assms(4) hops_nonneg(2) [OF assms(1)]]
  have y: "y \<le> MaxUint256" using chain_out_bound [OF Inr assms(4,5) hops_nonneg(1) [OF assms(1)]] .
  have "amounts_out env (raw (ERC20 (wrapped c)) x) (pairs r) = Inr (raw (ERC20 (end_token (wrapped c) (pairs r))) y)"
    using Inr assms amounts_out_eval [of env "pairs r" "wrapped (routeInput r)" x] wf_routeD [OF assms(1)] by simp
  then show ?thesis
    using Inr assms y c midPrice_eval [OF assms(1)]
    by (simp add: new_Trade_def Amount_wrapped_raw fromFractional_raw computePriceImpact_eval quotable_def
        mk_trade_def Let_def)
qed

lemma new_Trade_exactOut_eval:
  assumes "wf_route env r" and "Currency_equals c (routeOutput r)" and "wrapped c = wrapped (routeOutput r)"
    and "0 < y" and "y \<le> MaxUint256"
  shows "new_Trade env r (raw c y) EXACT_OUTPUT =
    bindS (chain_in y (route_hops r)) (\<lambda>x.
      if quotable r x then Inr (mk_trade r EXACT_OUTPUT x y) else Inl (Invariant ''AMOUNT''))"
proof -
  note w = wf_routeD [OF assms(1)]
  obtain s where s: "amounts_in env (raw (ERC20 (wrapped c)) y) (pairs r) =
      bindS (chain_in y (route_hops r)) (\<lambda>x. Inr (raw (ERC20 s) x))"
    using amounts_in_eval [OF w(1,4), of "wrapped c" y] w(5) assms(3,4) Token_equals_sym by metis
  show ?thesis
  proof (cases "chain_in y (route_hops r)")
    case (Inl e)
    then show ?thesis using assms s by (simp add: new_Trade_def Amount_wrapped_raw)
  next
    case (Inr x)
    note c = chain_in_below_mid [OF Inr assms(4) hops_nonneg(2) [OF assms(1)]]
    have x: "x \<le> MaxUint256" using chain_in_bound [OF Inr assms(5) hops_nonneg(3) [OF assms(1)]] .
    show ?thesis
      using Inr s assms x c midPrice_eval [OF assms(1)]
      by (simp add: new_Trade_def Amount_wrapped_raw fromFractional_raw computePriceImpact_eval quotable_def
          mk_trade_def Let_def)
  qed
qed

lemma mk_trade_impact:
  assumes "0 < product_in (route_hops r)" and "0 < product_out (route_hops r)" and "0 < x" and "0 < y"
    and "y * product_in (route_hops r) < x * product_out (route_hops r)"
  shows "proper (priceImpact (mk_trade r tt x y))"
    and "0 < frac_value (priceImpact (mk_trade r tt x y))"
    and "frac_value (priceImpact (mk_trade r tt x y)) < 1"
proof -
  let ?D = "product_in (route_hops r)" and ?N = "product_out (route_hops r)"
  have d: "0 < ?D * (?N * x)" using assms by simp
  then show "proper (priceImpact (mk_trade r tt x y))" by (simp add: mk_trade_def Let_def proper_def)
  have n: "0 < (?N * x - y * ?D) * ?D" using assms by (simp add: mult.commute)
  have "(?N * x - y * ?D) * ?D < (?N * x) * ?D" using assms by (intro mult_strict_right_mono) simp_all
  then have "(?N * x - y * ?D) * ?D < ?D * (?N * x)" by (simp add: mult.commute)
  then have "(of_int ((?N * x - y * ?D) * ?D) :: rat) < of_int (?D * (?N * x))" by (simp only: of_int_less_iff)
  moreover have "(0 :: rat) < of_int ((?N * x - y * ?D) * ?D)" using n by (simp only: of_int_0_less_iff)
  moreover have "(0 :: rat) < of_int (?D * (?N * x))" using d by (simp only: of_int_0_less_iff)
  ultimately show "0 < frac_value (priceImpact (mk_trade r tt x y))"
    and "frac_value (priceImpact (mk_trade r tt x y)) < 1"
    by (simp_all only: mk_trade_def Let_def Trade.simps frac_value_def new_Percent_sel divide_less_eq_1_pos
        zero_less_divide_iff simp_thms)
qed

end
