(* ===== verification/V2Search.thy ===== *)
theory V2Search
  imports V2TradeFacts
begin

text \<open>
  The search for the best trades.  \<open>tradeComparator\<close> is a total preorder on trades over the same
  two currencies (an interpretation of \<open>js_comparator\<close>), so the list the search keeps is the
  front of the stable sort of all trades it meets.  Those trades are named by \<open>candidatesExactIn\<close>,
  the search without its list: they are sound (each is the trade along a route over the given
  pairs) and complete (every such route that does not pass through the output token earlier is
  among them).
\<close>

section \<open>The order of trades\<close>

definition trade_ok :: "Currency \<Rightarrow> Currency \<Rightarrow> Trade \<Rightarrow> bool" where
  "trade_ok cin cout t \<longleftrightarrow>
     Currency_equals (currency (inputAmount t)) cin \<and> Currency_equals (currency (outputAmount t)) cout \<and>
     proper (inputAmount t) \<and> proper (outputAmount t) \<and> proper (priceImpact t)"

text \<open>More output, then less input, then less price impact, then fewer hops.\<close>

lemma cmp_le_trade:
  assumes "trade_ok cin cout a" and "trade_ok cin cout b"
  shows "cmp_le tradeComparator a b \<longleftrightarrow>
     frac_value (outputAmount b) < frac_value (outputAmount a) \<or>
     frac_value (outputAmount b) = frac_value (outputAmount a) \<and>
     (frac_value (inputAmount a) < frac_value (inputAmount b) \<or>
      frac_value (inputAmount a) = frac_value (inputAmount b) \<and>
      (frac_value (priceImpact a) < frac_value (priceImpact b) \<or>
       frac_value (priceImpact a) = frac_value (priceImpact b) \<and>
       length (path (trade_route a)) \<le> length (path (trade_route b))))"
    and "\<exists>c. tradeComparator a b = Inr c"
proof -
  have cur: "Currency_equals (currency (inputAmount a)) (currency (inputAmount b))"
    "Currency_equals (currency (outputAmount a)) (currency (outputAmount b))"
    using assms by (auto simp: trade_ok_def intro: Currency_equals_trans Currency_equals_sym [THEN iffD1])
  have p: "proper (inputAmount a)" "proper (outputAmount a)" "proper (priceImpact a)"
    "proper (inputAmount b)" "proper (outputAmount b)" "proper (priceImpact b)"
    using assms by (simp_all add: trade_ok_def)
  show "\<exists>c. tradeComparator a b = Inr c"
    using cur by (simp add: tradeComparator_def inputOutputComparator_def)
  show "cmp_le tradeComparator a b \<longleftrightarrow>
     frac_value (outputAmount b) < frac_value (outputAmount a) \<or>
     frac_value (outputAmount b) = frac_value (outputAmount a) \<and>
     (frac_value (inputAmount a) < frac_value (inputAmount b) \<or>
      frac_value (inputAmount a) = frac_value (inputAmount b) \<and>
      (frac_value (priceImpact a) < frac_value (priceImpact b) \<or>
       frac_value (priceImpact a) = frac_value (priceImpact b) \<and>
       length (path (trade_route a)) \<le> length (path (trade_route b))))"
    using cur p
    by (auto simp: cmp_le_def tradeComparator_def inputOutputComparator_def lessThan_value greaterThan_value
        equalTo_value)
qed

interpretation trade_order: js_comparator tradeComparator "trade_ok cin cout" for cin cout
proof
  fix a b assume ab: "trade_ok cin cout a" "trade_ok cin cout b"
  then show "\<exists>c. tradeComparator a b = Inr c" by (rule cmp_le_trade(2))
  show "cmp_le tradeComparator a b \<or> cmp_le tradeComparator b a"
    unfolding cmp_le_trade(1) [OF ab] cmp_le_trade(1) [OF ab(2,1)] by linarith
next
  fix a b c assume h: "trade_ok cin cout a" "trade_ok cin cout b" "trade_ok cin cout c"
    "cmp_le tradeComparator a b" "cmp_le tradeComparator b c"
  from h(4,5) show "cmp_le tradeComparator a c"
    unfolding cmp_le_trade(1) [OF h(1,2)] cmp_le_trade(1) [OF h(2,3)] cmp_le_trade(1) [OF h(1,3)] by linarith
qed

text \<open>Inserting one by one with a size limit keeps the front of the stable sort.\<close>

context js_comparator
begin

lemma insert_all:
  assumes "\<forall>x\<in>set xs. ok x" and "0 < n"
    and "sorted_wrt (cmp_le cmp) best" and "\<forall>x\<in>set best. ok x" and "length best \<le> n"
  shows "foldS (\<lambda>b x. bindS (sortedInsert b x n cmp) (\<lambda>r. Inr (snd r))) best xs =
    Inr (foldl (\<lambda>acc x. take n (insert_after (cmp_le cmp) x acc)) best xs)"
  using assms
proof (induction xs arbitrary: best)
  case (Cons x xs)
  let ?new = "take n (insert_after (cmp_le cmp) x best)"
  have ins: "sortedInsert best x n cmp =
      Inr (if length best = n then Some (last (insert_after (cmp_le cmp) x best)) else None, ?new)"
    using Cons.prems by (intro sortedInsert_correct) auto
  have "sorted_wrt (cmp_le cmp) (insert_after (cmp_le cmp) x best)"
    using Cons.prems by (intro sorted_insert_after) auto
  then have "sorted_wrt (cmp_le cmp) ?new" by (rule sorted_wrt_take)
  moreover have "\<forall>y\<in>set ?new. ok y" using Cons.prems by (auto dest!: in_set_takeD)
  ultimately show ?case using Cons ins by simp
qed simp

lemma insert_all_sorts:
  assumes "\<forall>x\<in>set xs. ok x" and "0 < n"
  shows "foldS (\<lambda>b x. bindS (sortedInsert b x n cmp) (\<lambda>r. Inr (snd r))) [] xs =
    Inr (take n (stable_sort (cmp_le cmp) xs))"
  using insert_all [OF assms] foldl_take_insert_after [of n "cmp_le cmp" "[]" xs]
  by (simp add: stable_sort_def)

end

section \<open>Candidates\<close>

lemma mapS_elem: "mapS f xs = Inr ys \<Longrightarrow> y \<in> set ys \<Longrightarrow> \<exists>x\<in>set xs. f x = Inr y"
  by (induction xs arbitrary: ys) (auto simp: bindS_eq_Inr)

lemma mapS_all: "mapS f xs = Inr ys \<Longrightarrow> x \<in> set xs \<Longrightarrow> \<exists>y\<in>set ys. f x = Inr y"
  by (induction xs arbitrary: ys) (auto simp: bindS_eq_Inr)

text \<open>What one pair contributes: nothing, the trade that ends here, or what \<open>recur\<close> finds behind it.\<close>

definition candidate_at ::
  "DexEnv \<Rightarrow> (Pair list \<Rightarrow> Pair list \<Rightarrow> CurrencyAmount \<Rightarrow> js_error + Trade list) \<Rightarrow> nat \<Rightarrow> Pair list \<Rightarrow>
   CurrencyAmount \<Rightarrow> Currency \<Rightarrow> Pair list \<Rightarrow> CurrencyAmount \<Rightarrow> nat \<Rightarrow> js_error + Trade list" where
  "candidate_at env recur h ps amt cout cur amountIn i =
     (let pair = ps ! i in
      if \<not> involvesToken pair (token_of amountIn)
         \<or> Fraction_equalTo (reserve0 pair) (AsBigint 0) \<or> Fraction_equalTo (reserve1 pair) (AsBigint 0)
      then Inr []
      else
        (case getOutputAmount env pair amountIn of
           Inl e \<Rightarrow> if e = InsufficientInputAmountError then Inr [] else Inl e
         | Inr r \<Rightarrow>
             if Token_equals (token_of (fst r)) (wrapped cout)
             then bindS (trade_through env (cur @ [pair]) (currency amt) cout amt EXACT_INPUT) (\<lambda>t. Inr [t])
             else if 0 < h \<and> 1 < length ps
             then recur (take i ps @ drop (Suc i) ps) (cur @ [pair]) (fst r)
             else Inr []))"

fun candidatesExactIn ::
  "DexEnv \<Rightarrow> nat \<Rightarrow> Pair list \<Rightarrow> CurrencyAmount \<Rightarrow> Currency \<Rightarrow> Pair list \<Rightarrow> CurrencyAmount \<Rightarrow> js_error + Trade list" where
  "candidatesExactIn env 0 ps amt cout cur amountIn = Inl (Invariant ''MAX_HOPS'')"
| "candidatesExactIn env (Suc h) ps amt cout cur amountIn =
     bindS (mapS (candidate_at env (\<lambda>ps' cur' a. candidatesExactIn env h ps' amt cout cur' a)
                    h ps amt cout cur amountIn) [0..<length ps])
       (\<lambda>tss. Inr (concat tss))"

text \<open>Agreement of the search with its candidates: it inserts them, or both throw.\<close>

definition agrees :: "('b \<Rightarrow> 'a \<Rightarrow> js_error + 'b) \<Rightarrow> 'b \<Rightarrow> js_error + 'b \<Rightarrow> js_error + 'a list \<Rightarrow> bool" where
  "agrees g b r s = (case s of Inl e \<Rightarrow> isl r | Inr ts \<Rightarrow> r = foldS g b ts)"

lemma agrees_simps [simp]:
  "agrees g b (Inl e) (Inl e')"
  "agrees g b (Inr b) (Inr [])"
  by (simp_all add: agrees_def)

lemma agrees_fold:
  assumes "\<And>i b. i \<in> set is \<Longrightarrow> agrees g b (body b i) (cand i)"
  shows "agrees g b (foldS body b is) (bindS (mapS cand is) (\<lambda>tss. Inr (concat tss)))"
  using assms
proof (induction "is" arbitrary: b)
  case (Cons i rest)
  have i: "agrees g b (body b i) (cand i)" using Cons.prems by simp
  have rest: "agrees g b' (foldS body b' rest) (bindS (mapS cand rest) (\<lambda>tss. Inr (concat tss)))" for b'
    using Cons by simp
  show ?case
  proof (cases "cand i")
    case (Inr ts)
    with i have body: "body b i = foldS g b ts" by (simp add: agrees_def)
    show ?thesis
    proof (cases "foldS g b ts")
      case (Inl e)
      then show ?thesis using body Inr by (cases "mapS cand rest") (simp_all add: agrees_def foldS_append)
    next
      case (Inr b')
      then show ?thesis using body \<open>cand i = Inr ts\<close> rest [of b']
        by (cases "mapS cand rest") (simp_all add: agrees_def foldS_append)
    qed
  qed (use i in \<open>auto simp: agrees_def isl_def\<close>)
qed simp

lemma search_agrees:
  assumes "ps \<noteq> []" and "nxt = None \<or> cur \<noteq> []"
    and "Amount_wrapped (case nxt of None \<Rightarrow> amt | Some a \<Rightarrow> a) = Inr amountIn"
    and "\<And>pair a r. getOutputAmount env pair a = Inr r \<Longrightarrow> Amount_wrapped (fst r) = Inr (fst r)"
  shows "agrees (insert_trade n) best
    (bestTradeExactIn env h ps amt cout n cur nxt best) (candidatesExactIn env h ps amt cout cur amountIn)"
  using assms(1-3)
proof (induction h arbitrary: ps cur nxt amountIn best)
  case (Suc h)
  show ?case
    using Suc.prems
    unfolding bestTradeExactIn.simps candidatesExactIn.simps
    apply (simp add: Let_def candidate_at_def [abs_def])
    apply (rule agrees_fold)
    subgoal for i b
    proof (cases "getOutputAmount env (ps ! i) amountIn")
      case (Inl e)
      then show ?thesis by (simp add: involvesToken_def Token_equals_sym)
    next
      case (Inr r)
      have "agrees (insert_trade n) b
          (bestTradeExactIn env h (take i ps @ drop (Suc i) ps) amt cout n (cur @ [ps ! i]) (Some (fst r)) b)
          (candidatesExactIn env h (take i ps @ drop (Suc i) ps) amt cout (cur @ [ps ! i]) (fst r))"
        if "Suc 0 < length ps" "i < length ps"
      proof (rule Suc.IH)
        have "length (take i ps @ drop (Suc i) ps) = length ps - 1" using that by simp
        then show "take i ps @ drop (Suc i) ps \<noteq> []" using that by auto
      qed (use assms(4) [OF Inr] in simp_all)
      moreover assume "i \<in> set [0..<length ps]"
      ultimately show ?thesis
        using Inr
        by (cases "trade_through env (cur @ [ps ! i]) (currency amt) cout amt EXACT_INPUT")
           (auto simp: involvesToken_def Token_equals_sym agrees_def bindS_def split: sum.split)
    qed
    done
qed simp

lemma getOutputAmount_token:
  assumes "getOutputAmount env p a = Inr r"
  shows "Amount_wrapped (fst r) = Inr (fst r)"
proof -
  obtain t n where "fromRawAmount (ERC20 t) n = Inr (fst r)"
    using assms unfolding getOutputAmount_def Let_def
    by (auto simp: invariantS_eq_Inr bindS_eq_Inr split: if_splits)
  then show ?thesis by (simp add: fromRawAmount_eq_Inr Amount_wrapped_def)
qed

lemma bestTradeExactIn_candidates:
  assumes "ps \<noteq> []" and "Amount_wrapped amt = Inr first"
  shows "agrees (insert_trade n) [] (bestTradeExactIn env h ps amt cout n [] None [])
    (candidatesExactIn env h ps amt cout [] first)"
  using assms by (intro search_agrees getOutputAmount_token) simp_all

subsection \<open>Soundness\<close>

lemma end_token_snoc: "end_token t (ps @ [p]) = other_token p (end_token t ps)"
  by (induction ps arbitrary: t) auto

lemma connected_snoc: "connected t (ps @ [p]) \<longleftrightarrow> connected t ps \<and> involvesToken p (end_token t ps)"
  by (induction ps arbitrary: t) auto

lemma set_remove_index: "set (take i ps @ drop (Suc i) ps) \<subseteq> set ps"
  using set_take_subset set_drop_subset by fastforce

text \<open>The trade along a route with the amounts the route gives for an exact input.\<close>

definition route_trade :: "DexEnv \<Rightarrow> Currency \<Rightarrow> Currency \<Rightarrow> int \<Rightarrow> Pair list \<Rightarrow> Trade \<Rightarrow> bool" where
  "route_trade env cin cout x ps t \<longleftrightarrow>
     wf_route env (trade_route t) \<and> routeInput (trade_route t) = cin \<and> routeOutput (trade_route t) = cout \<and>
     pairs (trade_route t) = ps \<and>
     (\<exists>y. chain_out x (route_hops (trade_route t)) = Inr y \<and> t = mk_trade (trade_route t) EXACT_INPUT x y)"

lemma new_Route_sel:
  assumes "new_Route ps inp outp = Inr r"
  shows "pairs r = ps" "routeInput r = inp" "routeOutput r = outp" "route_path (wrapped inp) ps = Inr (path r)"
  using assms by (auto simp: new_Route_def Let_def invariantS_eq_Inr bindS_eq_Inr)

lemma trade_through_sound:
  assumes "trade_through env ps cin cout (raw cin x) EXACT_INPUT = Inr t"
    and "list_all (wf_pair env) ps" and "Token_equals (end_token (wrapped cin) ps) (wrapped cout)"
    and "0 < x" and "x \<le> MaxUint256"
  shows "route_trade env cin cout x ps t"
proof -
  obtain r where r: "new_Route ps cin cout = Inr r" and t: "new_Trade env r (raw cin x) EXACT_INPUT = Inr t"
    using assms(1) by (auto simp: trade_through_def bindS_eq_Inr)
  note sel = new_Route_sel [OF r]
  have wf: "wf_route env r"
    using r sel assms(2,3) route_path_connected [OF sel(4)] by (simp add: wf_route_def)
  show ?thesis
    using t new_Trade_exactIn_eval [OF wf, of cin x] assms(4,5) sel wf
    by (auto simp: route_trade_def bindS_eq_Inr mk_trade_def Let_def split: if_splits)
qed

lemma candidates_sound:
  assumes "candidatesExactIn env h ps (raw cin x) cout cur (raw (ERC20 (end_token (wrapped cin) cur)) m) = Inr ts"
    and "list_all (wf_pair env) ps" and "list_all (wf_pair env) cur" and "0 < m" and "0 < x" and "x \<le> MaxUint256"
    and "t \<in> set ts"
  shows "\<exists>rest. rest \<noteq> [] \<and> set rest \<subseteq> set ps \<and> length rest \<le> h \<and> route_trade env cin cout x (cur @ rest) t"
  using assms
proof (induction h arbitrary: ps cur m ts)
  case (Suc h)
  let ?tok = "end_token (wrapped cin) cur"
  let ?recur = "\<lambda>ps' cur' a. candidatesExactIn env h ps' (raw cin x) cout cur' a"
  from Suc.prems(1,7) obtain tss ts' where
    tss: "mapS (candidate_at env ?recur h ps (raw cin x) cout cur (raw (ERC20 ?tok) m)) [0..<length ps] = Inr tss"
    and "ts' \<in> set tss" and "t \<in> set ts'"
    by (auto simp: bindS_eq_Inr)
  from mapS_elem [OF tss this(2)] obtain i where i: "i < length ps"
    and cand: "candidate_at env ?recur h ps (raw cin x) cout cur (raw (ERC20 ?tok) m) i = Inr ts'"
    by auto
  define p where "p = ps ! i"
  have p: "p \<in> set ps" "wf_pair env p" using i Suc.prems(2) by (auto simp: p_def list_all_iff)
  from cand \<open>t \<in> set ts'\<close> obtain r where inv: "involvesToken p ?tok"
    and r: "getOutputAmount env p (raw (ERC20 ?tok) m) = Inr r"
    by (auto simp: candidate_at_def p_def Let_def split: if_splits sum.splits)
  define y where "y = out_amount m (reserve_in p ?tok) (reserve_out p ?tok)"
  have fst: "fst r = raw (ERC20 (end_token (wrapped cin) (cur @ [p]))) y" and "y \<noteq> 0"
    and nz: "reserve_in p ?tok \<noteq> 0" "reserve_out p ?tok \<noteq> 0"
    using r getOutputAmount_eval [OF p(2) inv, of m] Suc.prems(4)
    by (auto simp: Let_def y_def end_token_snoc split: if_splits)
  then have "0 < y"
    using out_amount_nonneg [of m "reserve_in p ?tok" "reserve_out p ?tok"] Suc.prems(4) wf_reserves [OF p(2), of ?tok]
    by (simp add: y_def)
  have cur: "list_all (wf_pair env) (cur @ [p])" using Suc.prems(3) p by simp
  show ?case
  proof (cases "Token_equals (token_of (fst r)) (wrapped cout)")
    case True
    then have "trade_through env (cur @ [p]) cin cout (raw cin x) EXACT_INPUT = Inr t"
      using cand r inv \<open>t \<in> set ts'\<close> by (auto simp: candidate_at_def p_def Let_def bindS_eq_Inr split: if_splits)
    then have "route_trade env cin cout x (cur @ [p]) t"
      using trade_through_sound cur True fst Suc.prems(5,6) by simp
    then show ?thesis using p by (intro exI [of _ "[p]"]) simp
  next
    case False
    then have "candidatesExactIn env h (take i ps @ drop (Suc i) ps) (raw cin x) cout (cur @ [p]) (fst r) = Inr ts'"
      using cand r inv \<open>t \<in> set ts'\<close> by (auto simp: candidate_at_def p_def Let_def split: if_splits)
    moreover have "list_all (wf_pair env) (take i ps @ drop (Suc i) ps)"
      using Suc.prems(2) set_remove_index [of i ps] by (auto simp: list_all_iff)
    ultimately obtain rest where "rest \<noteq> []" "set rest \<subseteq> set (take i ps @ drop (Suc i) ps)"
      "length rest \<le> h" "route_trade env cin cout x ((cur @ [p]) @ rest) t"
      using Suc.IH [of "take i ps @ drop (Suc i) ps" "cur @ [p]" y ts'] cur fst \<open>0 < y\<close> Suc.prems(5,6) \<open>t \<in> set ts'\<close>
      by auto
    then show ?thesis using p set_remove_index [of i ps] by (intro exI [of _ "p # rest"]) auto
  qed
qed simp

subsection \<open>Completeness\<close>

text \<open>A list of pairs that leads from a token to another one, and meets that one only at its end.\<close>

fun direct_route :: "Token \<Rightarrow> Token \<Rightarrow> Pair list \<Rightarrow> bool" where
  "direct_route tok out [] = False"
| "direct_route tok out (p # ps) =
     (involvesToken p tok \<and>
      (if ps = [] then Token_equals (other_token p tok) out
       else \<not> Token_equals (other_token p tok) out \<and> direct_route (other_token p tok) out ps))"

lemma mset_remove_index:
  assumes "i < length ps"
  shows "mset ps = add_mset (ps ! i) (mset (take i ps @ drop (Suc i) ps))"
proof -
  have "mset ps = mset (take i ps @ ps ! i # drop (Suc i) ps)" using id_take_nth_drop [OF assms] by simp
  then show ?thesis by simp
qed

lemma reserve_nonzero:
  assumes "wf_pair env p" and "reserve_in p t \<noteq> 0" and "reserve_out p t \<noteq> 0"
  shows "\<not> Fraction_equalTo (reserve0 p) (AsBigint 0)" and "\<not> Fraction_equalTo (reserve1 p) (AsBigint 0)"
proof -
  from assms(1) obtain lp t0 t1 r0 r1 where p: "p = mk_pair lp t0 t1 r0 r1" by (rule wf_pairE)
  show "\<not> Fraction_equalTo (reserve0 p) (AsBigint 0)" and "\<not> Fraction_equalTo (reserve1 p) (AsBigint 0)"
    using assms(2,3) by (auto simp: p swap_view Fraction_equalTo_def split: if_splits)
qed

lemma candidates_complete:
  assumes "candidatesExactIn env h ps (raw cin x) cout cur (raw (ERC20 (end_token (wrapped cin) cur)) m) = Inr ts"
    and "list_all (wf_pair env) ps" and "list_all (wf_pair env) cur" and "0 < m" and "0 < x" and "x \<le> MaxUint256"
    and "mset rest \<subseteq># mset ps" and "length rest \<le> h"
    and "direct_route (end_token (wrapped cin) cur) (wrapped cout) rest"
    and "chain_out m (hops (end_token (wrapped cin) cur) rest) = Inr y"
  shows "\<exists>t\<in>set ts. route_trade env cin cout x (cur @ rest) t"
  using assms
proof (induction h arbitrary: ps cur m ts rest)
  case 0
  then show ?case by simp
next
  case (Suc h)
  let ?tok = "end_token (wrapped cin) cur"
  let ?recur = "\<lambda>ps' cur' a. candidatesExactIn env h ps' (raw cin x) cout cur' a"
  obtain p rest' where rest: "rest = p # rest'" using Suc.prems(9) by (cases rest) auto
  have "p \<in> set ps" using Suc.prems(7) rest by (metis mset_subset_eqD set_mset_mset list.set_intros(1) in_multiset_in_set)
  then obtain i where i: "i < length ps" "ps ! i = p" by (auto simp: in_set_conv_nth)
  have wf: "wf_pair env p" using Suc.prems(2) \<open>p \<in> set ps\<close> by (simp add: list_all_iff)
  let ?ri = "reserve_in p ?tok" and ?ro = "reserve_out p ?tok"
  let ?y = "out_amount m ?ri ?ro"
  have inv: "involvesToken p ?tok" using Suc.prems(9) rest by simp
  have nz: "?ri \<noteq> 0" "?ro \<noteq> 0" "?y \<noteq> 0" "?ri + m \<le> MaxUint256"
    and next_out: "chain_out ?y (hops (other_token p ?tok) rest') = Inr y"
    using Suc.prems(10) rest by (auto simp: Let_def split: if_splits)
  have "0 < ?y"
    using out_amount_nonneg [of m ?ri ?ro] Suc.prems(4) wf_reserves [OF wf, of ?tok] nz by simp
  from Suc.prems(1) obtain tss where
    tss: "mapS (candidate_at env ?recur h ps (raw cin x) cout cur (raw (ERC20 ?tok) m)) [0..<length ps] = Inr tss"
    and ts: "ts = concat tss" by (auto simp: bindS_eq_Inr)
  from mapS_all [OF tss, of i] i obtain ts' where "ts' \<in> set tss"
    and cand: "candidate_at env ?recur h ps (raw cin x) cout cur (raw (ERC20 ?tok) m) i = Inr ts'" by auto
  have sub: "set ts' \<subseteq> set ts" using \<open>ts' \<in> set tss\<close> ts by auto
  have get: "getOutputAmount env p (raw (ERC20 ?tok) m) = Inr (raw (ERC20 (other_token p ?tok)) ?y, swapped p ?tok m ?y)"
    using getOutputAmount_eval [OF wf inv, of m] Suc.prems(4) nz by (simp add: Let_def)
  have cur: "list_all (wf_pair env) (cur @ [p])" using Suc.prems(3) wf by simp
  note step = cand [unfolded candidate_at_def Let_def i(2)]
  show ?case
  proof (cases "rest' = []")
    case True
    then have reached: "Token_equals (other_token p ?tok) (wrapped cout)" using Suc.prems(9) rest by simp
    then obtain t where "trade_through env (cur @ [p]) cin cout (raw cin x) EXACT_INPUT = Inr t" "ts' = [t]"
      using step inv get reserve_nonzero [OF wf nz(1,2)] by (auto simp: bindS_eq_Inr)
    moreover from this have "route_trade env cin cout x (cur @ [p]) t"
      using trade_through_sound cur reached Suc.prems(5,6) by (simp add: end_token_snoc)
    ultimately show ?thesis using sub rest True by auto
  next
    case False
    then have direct: "\<not> Token_equals (other_token p ?tok) (wrapped cout)"
      "direct_route (other_token p ?tok) (wrapped cout) rest'" using Suc.prems(9) rest by simp_all
    have m: "mset rest' \<subseteq># mset (take i ps @ drop (Suc i) ps)"
      using Suc.prems(7) mset_remove_index [OF i(1)] rest i(2) by simp
    have "1 < length ps"
      using size_mset_mono [OF Suc.prems(7)] rest False by (cases rest') auto
    moreover have "0 < h" using Suc.prems(8) rest False by (cases rest') auto
    ultimately have "candidatesExactIn env h (take i ps @ drop (Suc i) ps) (raw cin x) cout (cur @ [p])
        (raw (ERC20 (end_token (wrapped cin) (cur @ [p]))) ?y) = Inr ts'"
      using step inv get reserve_nonzero [OF wf nz(1,2)] direct(1) by (auto simp: end_token_snoc)
    moreover have "list_all (wf_pair env) (take i ps @ drop (Suc i) ps)"
      using Suc.prems(2) set_remove_index [of i ps] by (auto simp: list_all_iff)
    ultimately have "\<exists>t\<in>set ts'. route_trade env cin cout x ((cur @ [p]) @ rest') t"
      using Suc.IH [of "take i ps @ drop (Suc i) ps" "cur @ [p]" ?y ts' rest'] cur \<open>0 < ?y\<close>
        Suc.prems(5,6,8) m direct(2) next_out rest
      by (simp add: end_token_snoc)
    then show ?thesis using sub rest by auto
  qed
qed

section \<open>The result of the search\<close>

lemma route_trade_ok:
  assumes "route_trade env cin cout x ps t" and "0 < x"
  shows "trade_ok cin cout t"
proof -
  from assms(1) obtain y where wf: "wf_route env (trade_route t)"
    and y: "chain_out x (route_hops (trade_route t)) = Inr y" "t = mk_trade (trade_route t) EXACT_INPUT x y"
    and cur: "routeInput (trade_route t) = cin" "routeOutput (trade_route t) = cout"
    by (auto simp: route_trade_def)
  note c = chain_out_below_mid [OF y(1) assms(2) hops_nonneg(2) [OF wf]]
  have "proper (priceImpact t)"
    using mk_trade_impact(1) [of "trade_route t" x y EXACT_INPUT] c route_hops_nonempty [OF wf] assms(2) y(2) by simp
  moreover have "inputAmount t = raw cin x" "outputAmount t = raw cout y"
    using arg_cong [OF y(2), of inputAmount] arg_cong [OF y(2), of outputAmount] cur
    by (simp_all add: mk_trade_def Let_def)
  ultimately show ?thesis by (simp add: trade_ok_def proper_def)
qed

lemma route_trade_output:
  assumes "route_trade env cin cout x ps t"
  shows "\<exists>y. chain_out x (hops (wrapped cin) ps) = Inr y \<and> outputAmount t = raw cout y"
proof -
  from assms obtain y where y: "chain_out x (route_hops (trade_route t)) = Inr y" "t = mk_trade (trade_route t) EXACT_INPUT x y"
    and cur: "routeInput (trade_route t) = cin" "routeOutput (trade_route t) = cout" "pairs (trade_route t) = ps"
    by (auto simp: route_trade_def)
  have "outputAmount t = raw cout y" using arg_cong [OF y(2), of outputAmount] cur by (simp add: mk_trade_def Let_def)
  with y(1) cur show ?thesis by simp
qed

lemma bestTradeExactIn_sorts:
  assumes "bestTradeExactIn env h ps (raw cin x) cout n [] None [] = Inr best"
    and "list_all (wf_pair env) ps" and "0 < x" and "x \<le> MaxUint256" and "0 < n"
  obtains ts where "candidatesExactIn env h ps (raw cin x) cout [] (raw (ERC20 (wrapped cin)) x) = Inr ts"
    and "best = take n (stable_sort (cmp_le tradeComparator) ts)" and "\<forall>t\<in>set ts. trade_ok cin cout t"
proof -
  have "ps \<noteq> []" using assms(1) by (cases h) (auto simp: invariantS_eq_Inr)
  then have agree: "agrees (insert_trade n) [] (Inr best)
      (candidatesExactIn env h ps (raw cin x) cout [] (raw (ERC20 (wrapped cin)) x))"
    using bestTradeExactIn_candidates [of ps "raw cin x" "raw (ERC20 (wrapped cin)) x" n env h cout] assms(1,4)
    by (simp add: Amount_wrapped_raw)
  then obtain ts where ts: "candidatesExactIn env h ps (raw cin x) cout [] (raw (ERC20 (wrapped cin)) x) = Inr ts"
    and best: "Inr best = foldS (insert_trade n) [] ts"
    by (auto simp: agrees_def split: sum.splits)
  have ok: "\<forall>t\<in>set ts. trade_ok cin cout t"
    using candidates_sound [of env h ps cin x cout "[]" x ts] ts assms route_trade_ok by (metis end_token.simps(1) list.pred_inject(1))
  have "foldS (insert_trade n) [] ts = Inr (take n (stable_sort (cmp_le tradeComparator) ts))"
    using trade_order.insert_all_sorts [OF ok assms(5)] by (simp add: insert_trade_def [abs_def])
  with ts best ok show thesis by (intro that) simp_all
qed

end
