(* ===== verification/StableSwap.thy ===== *)
theory StableSwap
  imports V2TradeFacts
begin

text \<open>
  The stable pools (\<^verbatim>\<open>stable-swap-sdk/src/amm\<close>): the invariant \<open>D\<close> and the balance \<open>y\<close> by
  Newton's method with at most 255 rounds, the amounts scaled to 18 decimals, the liquidity
  minted for a deposit, the output or input of a swap, and the pool after it.  A division by
  zero throws, as everywhere; the two loops carry the number of rounds left.
\<close>

section \<open>Definitions\<close>

text \<open>The two exits of the loops: within 1 from above or from below.\<close>

definition within_one :: "int \<Rightarrow> int \<Rightarrow> bool" where
  "within_one new old \<longleftrightarrow> (new > old \<and> new - old \<le> 1) \<or> (new \<le> old \<and> old - new \<le> 1)"

fun getD_loop :: "nat \<Rightarrow> int \<Rightarrow> int \<Rightarrow> int \<Rightarrow> int list \<Rightarrow> int \<Rightarrow> js_error + int" where
  "getD_loop 0 ann n sumB balances d = Inr d"
| "getD_loop (Suc k) ann n sumB balances d =
     bindS (foldS (\<lambda>dp b. bigint_div (dp * d) (b * n + 1)) d balances) (\<lambda>dp.
     bindS (bigint_div ((ann * sumB + dp * n) * d) ((ann - 1) * d + (n + 1) * dp)) (\<lambda>d'.
       if within_one d' d then Inr d' else getD_loop k ann n sumB balances d'))"

definition getD :: "int \<Rightarrow> int list \<Rightarrow> js_error + int" where
  "getD amplifier balances =
     invariantS (1 < length balances) ''To get constant D, pool should have at least two coins.''
      (let sumB = sum_list balances; n = int (length balances); ann = amplifier * n in
       if sumB = 0 then Inr 0 else getD_loop 255 ann n sumB balances sumB)"

fun getY_loop :: "nat \<Rightarrow> int \<Rightarrow> int \<Rightarrow> int \<Rightarrow> int \<Rightarrow> js_error + int" where
  "getY_loop 0 b c d y = Inr y"
| "getY_loop (Suc k) b c d y =
     bindS (bigint_div (y * y + c) (2 * y + b - d)) (\<lambda>y'.
       if within_one y' y then Inr y' else getY_loop k b c d y')"

definition getY :: "int \<Rightarrow> int list \<Rightarrow> int \<Rightarrow> int \<Rightarrow> int \<Rightarrow> js_error + int" where
  "getY amplifier balances i j x =
     (let numOfCoins = int (length balances) in
      invariantS (1 < numOfCoins) ''To get y, pool should have at least two coins.''
      (invariantS (i \<noteq> j \<and> 0 \<le> i \<and> 0 \<le> j \<and> i < numOfCoins \<and> j < numOfCoins)
        (''Invalid i: '' @ bigint_str 10 i @ '' and j: '' @ bigint_str 10 j)
       (let n = numOfCoins; ann = amplifier * n in
        bindS (getD amplifier balances) (\<lambda>d.
        bindS (foldS (\<lambda>(sumB, c) (index, b).
            if index = j then Inr (sumB, c)
            else
              (let balanceAfterDeposit = (if index = i then b + x else b) in
               invariantS (balanceAfterDeposit > 0) ''Insufficient liquidity''
                (bindS (bigint_div (c * d) (balanceAfterDeposit * n)) (\<lambda>c'.
                  Inr (sumB + balanceAfterDeposit, c')))))
          (0, d) (zip (map int [0..<length balances]) balances)) (\<lambda>(sumB, c).
        bindS (bigint_div (c * d) (ann * n)) (\<lambda>c'.
        bindS (bigint_div d ann) (\<lambda>q.
          getY_loop 255 (sumB + q) c' d d)))))))"

definition PRECISION :: int where
  "PRECISION = 10 ^ 18"

definition getRawAmount :: "CurrencyAmount \<Rightarrow> js_error + int" where
  "getRawAmount amount =
     bindS (Amount_multiply amount (AsBigint PRECISION)) (\<lambda>m.
     bindS (quotient m) (\<lambda>q. bigint_div q (10 ^ nat (currency_decimals (currency amount)))))"

definition parseAmount :: "Currency \<Rightarrow> int \<Rightarrow> js_error + CurrencyAmount" where
  "parseAmount c rawAmount =
     fromFractionalAmount c (rawAmount * 10 ^ nat (currency_decimals c)) PRECISION"

subsection \<open>Adding liquidity\<close>

text \<open>\<^verbatim>\<open>balances.every(b => b.quotient === ZERO)\<close>: stops at the first balance that is not zero.\<close>

fun every_zero :: "CurrencyAmount list \<Rightarrow> js_error + bool" where
  "every_zero [] = Inr True"
| "every_zero (b # bs) = bindS (quotient b) (\<lambda>q. if q = 0 then every_zero bs else Inr False)"

definition lp_balance :: "CurrencyAmount list \<Rightarrow> nat \<Rightarrow> CurrencyAmount \<Rightarrow> js_error + int \<times> int" where
  "lp_balance amounts i balance =
     bindS (if i < length amounts then Inr (amounts ! i) else fromRawAmount (currency balance) 0) (\<lambda>amount.
     invariantS (Token_equals (wrapped (currency amount)) (wrapped (currency balance)))
       ''User input currency should be the same as pool balance currency.''
      (bindS (getRawAmount balance) (\<lambda>balanceRaw.
       bindS (getRawAmount amount) (\<lambda>amountRaw.
         Inr (balanceRaw, balanceRaw + amountRaw)))))"

definition getLPOutput ::
  "int \<Rightarrow> CurrencyAmount list \<Rightarrow> CurrencyAmount \<Rightarrow> CurrencyAmount list \<Rightarrow> Percent \<Rightarrow> js_error + CurrencyAmount" where
  "getLPOutput amplifier balances totalSupply amounts fee =
     (let lpToken = currency totalSupply in
      bindS (quotient totalSupply) (\<lambda>lpTotalSupply.
      bindS (if lpTotalSupply = 0 \<or> balances = [] then Inr True else every_zero balances) (\<lambda>noLiquidity.
      if noLiquidity then
        bindS (mapS getRawAmount amounts) (\<lambda>raws.
        bindS (getD amplifier raws) (\<lambda>d. fromRawAmount lpToken d))
      else
        bindS (mapS (\<lambda>(i, b). lp_balance amounts i b) (zip [0..<length balances] balances)) (\<lambda>both.
        let currentBalances = map fst both; newBalances = map snd both in
        bindS (getD amplifier currentBalances) (\<lambda>d0.
        bindS (getD amplifier newBalances) (\<lambda>d1.
        invariantS (d1 \<ge> d0) ''D1 should be greater than or equal than d0.''
         (if lpTotalSupply \<le> 0 then fromRawAmount lpToken d1
          else
            (let n = int (length currentBalances);
                 eachTokenFee = Percent_divide (Percent_multiply fee (AsBigint n)) (AsBigint (4 * (n - 1))) in
             bindS (mapS (\<lambda>(b, new).
               bindS (bigint_div (d1 * b) d0) (\<lambda>idealBalance.
                 let diff = (if idealBalance > new then idealBalance - new else new - idealBalance) in
                 bindS (quotient (Percent_multiply eachTokenFee (AsBigint diff))) (\<lambda>feeAmount.
                   Inr (new - feeAmount)))) both) (\<lambda>reduced.
             bindS (getD amplifier reduced) (\<lambda>d2.
             bindS (bigint_div (lpTotalSupply * (d2 - d0)) d0) (\<lambda>expectedMintLP.
               fromRawAmount lpToken expectedMintLP)))))))))))"

definition getLPOutputWithoutFee ::
  "int \<Rightarrow> CurrencyAmount list \<Rightarrow> CurrencyAmount \<Rightarrow> CurrencyAmount list \<Rightarrow> js_error + CurrencyAmount" where
  "getLPOutputWithoutFee amplifier balances totalSupply amounts =
     getLPOutput amplifier balances totalSupply amounts (new_Percent 0 1)"

subsection \<open>Swapping\<close>

record StablePool =
  amplifier :: int
  balances :: "CurrencyAmount list"
  fee :: Percent

text \<open>The indices of the input and the output among the balances; a later match replaces an earlier one.\<close>

fun find_indices :: "Token \<Rightarrow> Token \<Rightarrow> nat \<Rightarrow> CurrencyAmount list \<Rightarrow> nat option \<Rightarrow> nat option \<Rightarrow> nat option \<times> nat option" where
  "find_indices tin tout index [] i j = (i, j)"
| "find_indices tin tout index (b # bs) i j =
     (if Token_equals (wrapped (currency b)) tin then find_indices tin tout (Suc index) bs (Some index) j
      else if Token_equals (wrapped (currency b)) tout then find_indices tin tout (Suc index) bs i (Some index)
      else find_indices tin tout (Suc index) bs i j)"

definition validateAmountOut :: "CurrencyAmount \<Rightarrow> js_error + CurrencyAmount" where
  "validateAmountOut a =
     invariantS (\<not> Fraction_lessThan a (AsBigint 0)) ''Insufficient liquidity to perform the swap'' (Inr a)"

definition getSwapOutput :: "StablePool \<Rightarrow> Currency \<Rightarrow> CurrencyAmount \<Rightarrow> js_error + CurrencyAmount" where
  "getSwapOutput pool outputCurrency amount =
     bindS (mapS getRawAmount (balances pool)) (\<lambda>raws.
     case find_indices (wrapped (currency amount)) (wrapped outputCurrency) 0 (balances pool) None None of
       (Some i, Some j) \<Rightarrow>
         invariantS (i \<noteq> j) ''Input currency or output currency does not match currencies of token balances.''
          (bindS (quotient amount) (\<lambda>q.
           bindS (getRawAmount amount) (\<lambda>rawIn.
           if q < 0 then
             bindS (quotient (Fraction_multiply
                      (Fraction_invert (Percent_subtract ONE_HUNDRED_PERCENT (frac (fee pool))))
                      (AsBigint rawIn))) (\<lambda>x.
             bindS (getY (amplifier pool) raws (int i) (int j) x) (\<lambda>y.
             bindS (parseAmount outputCurrency (y - raws ! j)) validateAmountOut))
           else
             bindS (getY (amplifier pool) raws (int i) (int j) rawIn) (\<lambda>y.
             let dy = raws ! j - y in
             bindS (quotient (Percent_multiply (fee pool) (AsBigint dy))) (\<lambda>feeAmount.
             bindS (parseAmount outputCurrency (dy - feeAmount)) validateAmountOut)))))
     | _ \<Rightarrow> Inl (Invariant ''Input currency or output currency does not match currencies of token balances.''))"

definition getSwapOutputWithoutFee :: "StablePool \<Rightarrow> Currency \<Rightarrow> CurrencyAmount \<Rightarrow> js_error + CurrencyAmount" where
  "getSwapOutputWithoutFee pool outputCurrency amount =
     getSwapOutput (pool\<lparr>fee := new_Percent 0 1\<rparr>) outputCurrency amount"

definition getSwapInput :: "StablePool \<Rightarrow> Currency \<Rightarrow> CurrencyAmount \<Rightarrow> js_error + CurrencyAmount" where
  "getSwapInput pool outputCurrency amount =
     bindS (quotient amount) (\<lambda>q.
     bindS (fromRawAmount (currency amount) (- q)) (\<lambda>neg. getSwapOutput pool outputCurrency neg))"

definition getSwapInputWithtouFee :: "StablePool \<Rightarrow> Currency \<Rightarrow> CurrencyAmount \<Rightarrow> js_error + CurrencyAmount" where
  "getSwapInputWithtouFee pool outputCurrency amount =
     getSwapInput (pool\<lparr>fee := new_Percent 0 1\<rparr>) outputCurrency amount"

definition applySwap ::
  "bool \<Rightarrow> CurrencyAmount list \<Rightarrow> CurrencyAmount \<Rightarrow> CurrencyAmount \<Rightarrow> js_error + CurrencyAmount list" where
  "applySwap isExactIn bs amount quo =
     mapS (\<lambda>b.
       if Currency_equals (currency b) (currency amount)
       then (if isExactIn then Amount_add b amount else Amount_subtract b amount)
       else if Currency_equals (currency b) (currency quo)
       then (if isExactIn then Amount_subtract b quo else Amount_add b quo)
       else Inr b) bs"

definition createQuoteGetter ::
  "bool \<Rightarrow> StablePool \<Rightarrow> Currency \<Rightarrow> CurrencyAmount \<Rightarrow> js_error + CurrencyAmount \<times> StablePool" where
  "createQuoteGetter isExactIn pool outputCurrency amount =
     bindS (if isExactIn then getSwapOutput pool outputCurrency amount
            else getSwapInput pool outputCurrency amount) (\<lambda>quo.
     bindS (applySwap isExactIn (balances pool) amount quo) (\<lambda>bs.
       Inr (quo, pool\<lparr>balances := bs\<rparr>)))"

definition getQuoteExactIn :: "StablePool \<Rightarrow> Currency \<Rightarrow> CurrencyAmount \<Rightarrow> js_error + CurrencyAmount \<times> StablePool" where
  "getQuoteExactIn = createQuoteGetter True"

definition getQuoteExactOut :: "StablePool \<Rightarrow> Currency \<Rightarrow> CurrencyAmount \<Rightarrow> js_error + CurrencyAmount \<times> StablePool" where
  "getQuoteExactOut = createQuoteGetter False"

section \<open>The invariant \<open>D\<close> is always found\<close>

lemma D_inner_nonneg:
  assumes "list_all (\<lambda>b. 0 \<le> b) bs" and "0 \<le> dp" and "0 \<le> d" and "0 \<le> n"
  shows "\<exists>dp'. foldS (\<lambda>dp b. bigint_div (dp * d) (b * n + 1)) dp bs = Inr dp' \<and> 0 \<le> dp'"
  using assms
proof (induction bs arbitrary: dp)
  case (Cons b bs)
  have "0 < b * n + 1" using Cons.prems by (simp add: add_nonneg_pos)
  then have "bigint_div (dp * d) (b * n + 1) = Inr (dp * d div (b * n + 1))" "0 \<le> dp * d div (b * n + 1)"
    using Cons.prems by (simp_all add: bigint_div_nonneg pos_imp_zdiv_nonneg_iff)
  then show ?case using Cons by simp
qed simp

lemma D_inner_one:
  assumes "list_all (\<lambda>b. 0 \<le> b) bs" and "0 \<le> dp" and "dp \<le> 1" and "0 \<le> n"
    and "foldS (\<lambda>dp b. bigint_div (dp * 1) (b * n + 1)) dp bs = Inr dp'"
  shows "dp' \<le> 1"
  using assms
proof (induction bs arbitrary: dp)
  case (Cons b bs)
  have pos: "0 < b * n + 1" using Cons.prems by (simp add: add_nonneg_pos)
  have "dp div (b * n + 1) \<le> dp div 1" using pos Cons.prems(2) by (intro zdiv_mono2) simp_all
  moreover have "0 \<le> dp div (b * n + 1)" using pos Cons.prems(2) by (simp add: pos_imp_zdiv_nonneg_iff)
  ultimately show ?case
    using Cons.IH [of "dp div (b * n + 1)"] Cons.prems pos by (simp add: bigint_div_nonneg)
qed simp

text \<open>A positive iterate is followed by a positive one: the division never meets zero.\<close>

lemma D_step_pos:
  fixes ann n S d dp :: int
  assumes "2 \<le> ann" and "2 \<le> n" and "1 \<le> S" and "1 \<le> d" and "0 \<le> dp" and "d = 1 \<Longrightarrow> dp \<le> 1"
  shows "0 < (ann - 1) * d + (n + 1) * dp"
    and "1 \<le> ((ann * S + dp * n) * d) div ((ann - 1) * d + (n + 1) * dp)"
proof -
  have "0 < (ann - 1) * d" "0 \<le> (n + 1) * dp" using assms by simp_all
  then show pos: "0 < (ann - 1) * d + (n + 1) * dp" by linarith
  have "(ann - 1) * d + (n + 1) * dp \<le> (ann * S + dp * n) * d"
  proof (cases "d = 1")
    case True
    have "ann * 1 \<le> ann * S" using assms by (intro mult_left_mono) simp_all
    then show ?thesis using True assms(6) by (simp add: algebra_simps)
  next
    case False
    have "ann * 1 \<le> ann * S" using assms by (intro mult_left_mono) simp_all
    then have "ann - 1 \<le> ann * S" by simp
    then have "(ann - 1) * d \<le> (ann * S) * d" using assms by (intro mult_right_mono) simp_all
    moreover have "(n + 1) * dp \<le> (n * d) * dp"
    proof (intro mult_right_mono)
      have "n * 2 \<le> n * d" using assms False by (intro mult_left_mono) simp_all
      then show "n + 1 \<le> n * d" using assms(2) by linarith
    qed (use assms in simp)
    ultimately show ?thesis by (simp add: algebra_simps)
  qed
  then show "1 \<le> ((ann * S + dp * n) * d) div ((ann - 1) * d + (n + 1) * dp)"
    using le_div_iff [OF pos, of 1] by simp
qed

lemma getD_loop_returns:
  assumes "2 \<le> ann" and "2 \<le> n" and "1 \<le> S" and "list_all (\<lambda>b. 0 \<le> b) bs" and "1 \<le> d"
  shows "\<exists>r. getD_loop k ann n S bs d = Inr r \<and> 1 \<le> r"
  using assms(5)
proof (induction k arbitrary: d)
  case (Suc k)
  obtain dp where dp: "foldS (\<lambda>dp b. bigint_div (dp * d) (b * n + 1)) d bs = Inr dp" "0 \<le> dp"
    using D_inner_nonneg [OF assms(4), of d d n] Suc.prems assms by auto
  have "dp \<le> 1" if "d = 1" using D_inner_one [OF assms(4), of 1 n dp] dp assms that by simp
  note step = D_step_pos [OF assms(1-3) Suc.prems dp(2) this]
  have "0 \<le> (ann * S + dp * n) * d" using assms Suc.prems dp by simp
  then have "bigint_div ((ann * S + dp * n) * d) ((ann - 1) * d + (n + 1) * dp) =
      Inr (((ann * S + dp * n) * d) div ((ann - 1) * d + (n + 1) * dp))"
    using step(1) by (simp add: bigint_div_nonneg)
  then show ?case using dp step(2) Suc.IH by simp
qed simp

lemma getD_returns:
  assumes "1 \<le> amp" and "list_all (\<lambda>b. 0 \<le> b) bs" and "1 < length bs"
  shows "\<exists>d. getD amp bs = Inr d \<and> 0 \<le> d \<and> (d = 0 \<longleftrightarrow> sum_list bs = 0)"
proof (cases "sum_list bs = 0")
  case False
  have "0 \<le> sum_list bs" using assms(2) by (intro sum_list_nonneg) (auto simp: list_all_iff)
  then have S: "1 \<le> sum_list bs" using False by simp
  have "1 * 2 \<le> amp * int (length bs)" using assms by (intro mult_mono) simp_all
  then obtain r where "getD_loop 255 (amp * int (length bs)) (int (length bs)) (sum_list bs) bs (sum_list bs) = Inr r" "1 \<le> r"
    using getD_loop_returns [of "amp * int (length bs)" "int (length bs)" "sum_list bs" bs "sum_list bs" 255] assms S
    by auto
  then show ?thesis using False assms(3) by (simp add: getD_def Let_def)
qed (use assms in \<open>simp add: getD_def Let_def\<close>)

section \<open>Scaling\<close>

lemma getRawAmount_raw:
  assumes "0 \<le> n" and "n * PRECISION \<le> MaxUint256" and "currency_decimals c = int k" and "k \<le> 18"
  shows "getRawAmount (raw c n) = Inr (n * 10 ^ (18 - k))"
proof -
  have "(PRECISION :: int) = 10 ^ k * 10 ^ (18 - k)" using assms(4) by (simp add: PRECISION_def flip: power_add)
  then have q: "n * PRECISION = n * 10 ^ (18 - k) * 10 ^ k" by (simp add: mult.commute)
  have "Amount_multiply (raw c n) (AsBigint PRECISION) = Inr (raw c (n * PRECISION))"
    using assms by (simp add: Amount_multiply_def Fraction_multiply_def fromFractional_raw)
  then show ?thesis using assms by (simp add: getRawAmount_def bigint_div_nonneg q)
qed

lemma parseAmount_value:
  assumes "parseAmount c v = Inr a"
  shows "currency a = c" and "frac_value a = of_int v * 10 ^ nat (currency_decimals c) / 10 ^ 18"
  using assms by (auto simp: parseAmount_def amount_eq_Inr frac_value_def PRECISION_def)

lemma raw_parse_value:
  assumes "0 \<le> n" and "n * PRECISION \<le> MaxUint256" and "currency_decimals c = int k" and "k \<le> 18"
  shows "\<exists>a. bindS (getRawAmount (raw c n)) (parseAmount c) = Inr a \<and> currency a = c \<and> frac_value a = of_int n"
proof -
  have p: "(PRECISION :: int) = 10 ^ (18 - k) * 10 ^ k" using assms(4) by (simp add: PRECISION_def flip: power_add)
  have eq: "n * 10 ^ (18 - k) * 10 ^ k = n * PRECISION" by (simp add: p)
  have "n * 10 ^ (18 - k) * 10 ^ k div PRECISION = n" unfolding eq by (simp add: PRECISION_def)
  moreover have "n \<le> n * PRECISION" using assms(1) by (simp add: PRECISION_def)
  ultimately have "tdiv (n * 10 ^ (18 - k) * 10 ^ k) PRECISION \<le> MaxUint256"
    using assms(1,2) by (simp add: PRECISION_def)
  then obtain a where a: "parseAmount c (n * 10 ^ (18 - k)) = Inr a"
    using assms(3) by (auto simp: parseAmount_def amount_eq_Inr PRECISION_def)
  have "(10 ^ (18 - k) * 10 ^ k :: rat) = 10 ^ 18" using assms(4) by (simp flip: power_add)
  then have "(of_int (n * 10 ^ (18 - k)) * 10 ^ k :: rat) = of_int n * 10 ^ 18" by (simp only: of_int_mult of_int_power of_int_numeral mult.assoc)
  then have "frac_value a = of_int n"
    using parseAmount_value(2) [OF a] assms(3) by (simp only: nat_int) simp
  then show ?thesis using a parseAmount_value(1) [OF a] getRawAmount_raw [OF assms] by simp
qed

section \<open>The pool after a swap\<close>

lemma Amount_add_value:
  "Amount_add a b = Inr c \<Longrightarrow> denominator a \<noteq> 0 \<Longrightarrow> denominator b \<noteq> 0 \<Longrightarrow>
    currency c = currency a \<and> frac_value c = frac_value a + frac_value b"
  using frac_value_add [of a "frac b"]
  by (auto simp: Amount_add_def fromFractionalAmount_def Let_def invariantS_eq_Inr new_CurrencyAmount_eq_Inr frac_value_def)

lemma Amount_subtract_value:
  "Amount_subtract a b = Inr c \<Longrightarrow> denominator a \<noteq> 0 \<Longrightarrow> denominator b \<noteq> 0 \<Longrightarrow>
    currency c = currency a \<and> frac_value c = frac_value a - frac_value b"
  using frac_value_subtract [of a "frac b"]
  by (auto simp: Amount_subtract_def fromFractionalAmount_def Let_def invariantS_eq_Inr new_CurrencyAmount_eq_Inr frac_value_def)

lemma mapS_nth: "mapS f xs = Inr ys \<Longrightarrow> i < length xs \<Longrightarrow> f (xs ! i) = Inr (ys ! i)"
proof (induction xs arbitrary: ys i)
  case (Cons x xs)
  then show ?case by (cases i) (auto simp: bindS_eq_Inr)
qed simp

end
