(* ===== verification/DexSamples.thy ===== *)
theory DexSamples
  imports V2Search StableSwap
begin

text \<open>
  Concrete tokens, pairs, routes and pools for the exchange, with a concrete instance of the
  hashing and encoding functions (addresses are left as they are, a hash is its input), and the
  results of the repository's own test of the stable pool.
\<close>

definition dex_env :: DexEnv where
  "dex_env = \<lparr>
     viem_getAddress = (\<lambda>a. case a of Some s \<Rightarrow> Inr s | None \<Rightarrow> Inl TypeError),
     viem_toBytes = (\<lambda>h. case h of Some s \<Rightarrow> Inr (map of_char s) | None \<Rightarrow> Inr []),
     viem_padBytes = (\<lambda>b. replicate (32 - length b) 0 @ b),
     viem_padHex = (\<lambda>h. ''0x'' @ padStart 64 (drop 2 h)),
     viem_concatBytes = concat,
     viem_concatHex = (\<lambda>hs. ''0x'' @ concat (map (drop 2) hs)),
     viem_keccakBytes = (\<lambda>b. ''0x'' @ map char_of b),
     viem_keccakHex = (\<lambda>h. h),
     viem_slice = (\<lambda>h k. ''0x'' @ drop (2 + 2 * k) h),
     viem_encodePacked = (\<lambda>a b. a @ drop 2 b),
     GOLD_CHAIN_FACTORY_ADDRESS = ''0x00000000000000000000000000000000000000f0'',
     GOLD_CHAIN_INIT_CODE_HASH = ''0xaa''\<rparr>"

definition sample_token :: "string \<Rightarrow> Token" where
  "sample_token a =
     \<lparr>chainId = 714, decimals = 18, symbol = ''T'', currencyName = None, address = a, projectLink = None\<rparr>"

definition token_a :: Token where "token_a = sample_token ''0xA1''"
definition token_b :: Token where "token_b = sample_token ''0xB2''"
definition token_c :: Token where "token_c = sample_token ''0xC3''"

definition gilt :: NativeCurrency where
  "gilt = \<lparr>chainId = 714, decimals = 18, symbol = ''GILT'', currencyName = None, wrappedToken = token_a\<rparr>"

definition sample_pair :: "Token \<Rightarrow> Token \<Rightarrow> int \<Rightarrow> int \<Rightarrow> Pair" where
  "sample_pair t0 t1 r0 r1 =
     (case liquidity_token dex_env t0 t1 of
        Inr lp \<Rightarrow> mk_pair lp t0 t1 r0 r1
      | Inl e \<Rightarrow> mk_pair t0 t0 t1 r0 r1)"

definition pair_ab :: Pair where "pair_ab = sample_pair token_a token_b 1000000 2000000"
definition pair_bc :: Pair where "pair_bc = sample_pair token_b token_c 3000000 1000000"
definition pair_ac :: Pair where "pair_ac = sample_pair token_a token_c 500000 300000"
definition empty_ab :: Pair where "empty_ab = sample_pair token_a token_b 0 0"

definition sample_pairs :: "Pair list" where "sample_pairs = [pair_ab, pair_bc, pair_ac]"

definition route_abc :: Route where
  "route_abc = \<lparr>pairs = [pair_ab, pair_bc], path = [token_a, token_b, token_c],
                routeInput = ERC20 token_a, routeOutput = ERC20 token_c\<rparr>"

definition sample_options :: TradeOptions where
  "sample_options = \<lparr>allowedSlippage = new_Percent 5 1000, expiry = Ttl 1200, recipient = ''0xE5'', feeOnTransfer = None\<rparr>"

definition stable_pool :: StablePool where
  "stable_pool = \<lparr>amplifier = 1000,
     balances = [raw (ERC20 token_a) 45783656091242964455008335, raw (ERC20 token_b) 67779343437455288075126268],
     fee = new_Percent 15000000 10000000000\<rparr>"

lemma sample_pairs_wf: "list_all (wf_pair dex_env) sample_pairs"
  by code_simp

lemma route_abc_wf: "wf_route dex_env route_abc"
  by code_simp

lemma sample_best: "(case bestTradeExactIn dex_env 3 sample_pairs (raw (ERC20 token_a) 10000) (ERC20 token_c) 3 [] None [] of
   Inr ts \<Rightarrow> map (\<lambda>t. numerator (outputAmount t)) ts = [6524, 5867] | Inl e \<Rightarrow> False)"
  by code_simp

text \<open>The two expectations of \<^verbatim>\<open>getSwapOutput.test.ts\<close>.\<close>

lemma getSwapOutput_test:
  "bindS (getSwapOutput stable_pool (ERC20 token_b) (raw (ERC20 token_a) 2000000000000000000)) quotient
    = Inr 1997834290490693375"
  by code_simp

lemma getSwapInput_test:
  "bindS (getSwapInput stable_pool (ERC20 token_a) (raw (ERC20 token_b) 1997834290490693375)) quotient
    = Inr 2000000000000000000"
  by code_simp

section \<open>Corner cases of the code\<close>

text \<open>
  The constructor of a route asks only that its last pair involves the output: from a token back
  to itself through one pair is accepted, with a path that ends at the other token.
\<close>

lemma route_ends_elsewhere:
  "(case new_Route [pair_ab] (ERC20 token_a) (ERC20 token_a) of
      Inr r \<Rightarrow> Token_equals (last (path r)) token_b \<and> \<not> Token_equals (last (path r)) (wrapped (routeOutput r))
    | Inl e \<Rightarrow> False)"
  by code_simp

text \<open>Of a token with a symbol and one without, each is put before the other.\<close>

lemma token_comparator_both_first:
  assumes "symbol a = []" and "symbol b \<noteq> []" and "held (address a) = None" and "held (address b) = None"
  shows "getTokenComparator held a b = - 1 \<and> getTokenComparator held b a = - 1"
  using assms by (simp add: getTokenComparator_def)

text \<open>
  The quote of a native input matches the pool by its wrapped token, the update of the pool by the
  currency itself: the quote is given and the balance of the input stays as it was.
\<close>

lemma native_input_not_added:
  "(case getQuoteExactIn stable_pool (ERC20 token_b) (raw (Native gilt) 2000000000000000000) of
      Inr (quo, pool) \<Rightarrow> quotient quo = Inr 1997834290490693375 \<and> hd (balances pool) = hd (balances stable_pool)
    | Inl e \<Rightarrow> False)"
  by code_simp

end
