(* ===== verification/DexProps.thy ===== *)
theory DexProps
  imports DexSamples
begin

text \<open>
  The properties of the exchange SDK, each over the definitions that translate it, with an
  application to concrete pairs where it has hypotheses.
\<close>

section \<open>Trades\<close>

text \<open>
  C23. The search for the best trades of an exact input, over pairs of integer reserves, returns
  at most the requested number of trades, sorted; each of them is the trade along a route of at
  most the allowed number of hops over the given pairs; and the first pays at least as much as
  every such route that uses each given pair at most once and meets the output token only at its
  end.
\<close>

theorem best_trades_exact_in:
  assumes "bestTradeExactIn env h ps (raw cin x) cout n [] None [] = Inr best"
    and "list_all (wf_pair env) ps" and "0 < x" and "x \<le> MaxUint256" and "0 < n"
  shows "length best \<le> n \<and> sorted_wrt (cmp_le tradeComparator) best \<and>
    (\<forall>t\<in>set best. \<exists>rest. set rest \<subseteq> set ps \<and> length rest \<le> h \<and> route_trade env cin cout x rest t) \<and>
    (\<forall>rest y. mset rest \<subseteq># mset ps \<longrightarrow> length rest \<le> h \<longrightarrow> direct_route (wrapped cin) (wrapped cout) rest \<longrightarrow>
       chain_out x (hops (wrapped cin) rest) = Inr y \<longrightarrow> best \<noteq> [] \<and> y \<le> numerator (outputAmount (hd best)))"
proof -
  obtain ts where ts: "candidatesExactIn env h ps (raw cin x) cout [] (raw (ERC20 (wrapped cin)) x) = Inr ts"
    and best: "best = take n (stable_sort (cmp_le tradeComparator) ts)" and ok: "\<forall>t\<in>set ts. trade_ok cin cout t"
    by (rule bestTradeExactIn_sorts [OF assms])
  have sorted: "sorted_wrt (cmp_le tradeComparator) (stable_sort (cmp_le tradeComparator) ts)"
    by (rule trade_order.stable_sort_sorted [OF ok])
  then have "sorted_wrt (cmp_le tradeComparator) best" unfolding best by (rule sorted_wrt_take)
  have sub: "t \<in> set ts" if "t \<in> set best" for t
    using that set_stable_sort [of "cmp_le tradeComparator" ts] unfolding best by (metis in_set_takeD)
  have sound: "\<exists>rest. set rest \<subseteq> set ps \<and> length rest \<le> h \<and> route_trade env cin cout x rest t" if "t \<in> set ts" for t
    using candidates_sound [of env h ps cin x cout "[]" x ts t] ts assms(2-4) that by auto
  have optimal: "best \<noteq> [] \<and> y \<le> numerator (outputAmount (hd best))"
    if rest: "mset rest \<subseteq># mset ps" "length rest \<le> h" "direct_route (wrapped cin) (wrapped cout) rest"
      "chain_out x (hops (wrapped cin) rest) = Inr y" for rest y
  proof -
    obtain t where t: "t \<in> set ts" "route_trade env cin cout x rest t"
      using candidates_complete [of env h ps cin x cout "[]" x ts rest y] ts assms(2-4) rest by auto
    have out: "outputAmount t = raw cout y" using route_trade_output [OF t(2)] rest(4) by auto
    have set: "set (stable_sort (cmp_le tradeComparator) ts) = set ts" by (rule set_stable_sort)
    with t(1) obtain b bs where b: "stable_sort (cmp_le tradeComparator) ts = b # bs"
      by (cases "stable_sort (cmp_le tradeComparator) ts") auto
    have hd: "best \<noteq> []" "hd best = b" using assms(5) by (simp_all add: best b take_Cons')
    have "b \<in> set ts" using b set by auto
    have "t = b \<or> cmp_le tradeComparator b t" using sorted t(1) set unfolding b by auto
    then have "frac_value (outputAmount t) \<le> frac_value (outputAmount b)"
      using cmp_le_trade(1) [of cin cout b t] ok t(1) \<open>b \<in> set ts\<close> by auto
    moreover from sound [OF \<open>b \<in> set ts\<close>] obtain z where "outputAmount b = raw cout z"
      using route_trade_output by blast
    ultimately show ?thesis using out hd by (simp add: frac_value_def)
  qed
  have "length best \<le> n" by (simp add: best)
  with \<open>sorted_wrt (cmp_le tradeComparator) best\<close> sub sound optimal show ?thesis by blast
qed

theorem best_trades_exact_in_witness:
  "\<exists>best. bestTradeExactIn dex_env 3 sample_pairs (raw (ERC20 token_a) 10000) (ERC20 token_c) 3 [] None [] = Inr best
     \<and> length best \<le> 3 \<and> sorted_wrt (cmp_le tradeComparator) best \<and> 6524 \<le> numerator (outputAmount (hd best))"
proof -
  obtain best where best:
    "bestTradeExactIn dex_env 3 sample_pairs (raw (ERC20 token_a) 10000) (ERC20 token_c) 3 [] None [] = Inr best"
    using sample_best by (auto split: sum.splits)
  have "direct_route (wrapped (ERC20 token_a)) (wrapped (ERC20 token_c)) [pair_ab, pair_bc]"
    "chain_out 10000 (hops (wrapped (ERC20 token_a)) [pair_ab, pair_bc]) = Inr 6524" by code_simp+
  moreover have "mset [pair_ab, pair_bc] \<subseteq># mset sample_pairs" by (simp add: sample_pairs_def)
  moreover have "(0::int) < 10000 \<and> 10000 \<le> MaxUint256" by (simp add: MaxUint256_def)
  ultimately show ?thesis
    using best_trades_exact_in [OF best sample_pairs_wf] best by fastforce
qed

text \<open>
  C24. A trade for an exact output asks for enough: with reserves in the 112 bits the contracts
  use, paying its input along the same route is a trade that pays at least the output.
\<close>

theorem exact_out_covered:
  assumes "wf_route env r" and "list_all (\<lambda>(ri, ro). ri < 2 ^ 112 \<and> ro < 2 ^ 112) (route_hops r)"
    and "0 < y" and "y \<le> MaxUint256" and "exactOut env r (raw (routeOutput r) y) = Inr t"
  shows "\<exists>t'. exactIn env r (inputAmount t) = Inr t' \<and> y \<le> numerator (outputAmount t')"
proof -
  from assms(5) new_Trade_exactOut_eval [OF assms(1) _ _ assms(3,4), of "routeOutput r"]
  obtain x where x: "chain_in y (route_hops r) = Inr x" "quotable r x" "t = mk_trade r EXACT_OUTPUT x y"
    by (auto simp: exactOut_def bindS_eq_Inr split: if_splits)
  have pos: "0 < x" using chain_in_below_mid [OF x(1) assms(3) hops_nonneg(2) [OF assms(1)]] by simp
  have max: "x \<le> MaxUint256" using chain_in_bound [OF x(1) assms(4) hops_nonneg(3) [OF assms(1)]] .
  have "list_all (\<lambda>(ri, ro). 0 \<le> ri \<and> ri < 2 ^ 112 \<and> ro < 2 ^ 112) (route_hops r)"
    using assms(2) hops_nonneg(3) [OF assms(1)] by (auto simp: list_all_iff)
  moreover have "fst (hd (route_hops r)) + x \<le> MaxUint256"
    using x(1) route_hops_nonempty [OF assms(1)]
    by (cases "route_hops r") (auto simp: bindS_eq_Inr Let_def split: if_splits)
  ultimately obtain y' where "chain_out x (route_hops r) = Inr y'" "y \<le> y'"
    using chain_in_then_out [OF x(1) assms(3) order_refl] by auto
  then show ?thesis
    using new_Trade_exactIn_eval [OF assms(1) _ _ pos max, of "routeInput r"] x
    by (simp add: exactIn_def mk_trade_def Let_def)
qed

theorem exact_out_covered_witness:
  "\<exists>t t'. exactOut dex_env route_abc (raw (ERC20 token_c) 6000) = Inr t
     \<and> exactIn dex_env route_abc (inputAmount t) = Inr t' \<and> 6000 \<le> numerator (outputAmount t')"
proof -
  have "(case exactOut dex_env route_abc (raw (ERC20 token_c) 6000) of Inr t \<Rightarrow> True | Inl e \<Rightarrow> False)" by code_simp
  then obtain t where t: "exactOut dex_env route_abc (raw (routeOutput route_abc) 6000) = Inr t"
    by (auto simp: route_abc_def split: sum.splits)
  have "list_all (\<lambda>(ri, ro). ri < 2 ^ 112 \<and> ro < 2 ^ 112) (route_hops route_abc)" by code_simp
  from exact_out_covered [OF route_abc_wf this _ _ t] t show ?thesis
    by (auto simp: MaxUint256_def route_abc_def)
qed

text \<open>
  C25. A swap of an exact input never lowers the product of the two reserves; the output is
  positive and below the reserve, and the pair it returns is well-formed with the input added and
  the output taken.
\<close>

theorem swap_keeps_product:
  assumes "wf_pair env p" and "involvesToken p t" and "0 \<le> x"
    and "getOutputAmount env p (raw (ERC20 t) x) = Inr (out, p')"
  shows "numerator (reserve0 p) * numerator (reserve1 p) \<le> numerator (reserve0 p') * numerator (reserve1 p')
    \<and> 0 < numerator out \<and> numerator out < reserve_out p t
    \<and> reserve_in p' t = reserve_in p t + x \<and> reserve_out p' t = reserve_out p t - numerator out
    \<and> wf_pair env p'"
proof -
  let ?ri = "reserve_in p t" and ?ro = "reserve_out p t"
  let ?y = "out_amount x ?ri ?ro"
  have c: "?ri \<noteq> 0" "?ro \<noteq> 0" "?y \<noteq> 0" "?ri + x \<le> MaxUint256"
    and res: "out = raw (ERC20 (other_token p t)) ?y" "p' = swapped p t x ?y"
    using assms(4) getOutputAmount_eval [OF assms(1-3)] by (auto simp: Let_def split: if_splits)
  have pos: "0 < ?ri" "0 < ?ro" using c wf_reserves [OF assms(1), of t] by simp_all
  have y: "0 < ?y" "?y < ?ro"
    using c out_amount_nonneg [OF assms(3) pos] out_amount_less [OF assms(3) pos] by simp_all
  have "?ri * ?ro \<le> (?ri + x) * (?ro - ?y)" using out_amount_keeps_k [OF assms(3) pos] .
  moreover have "numerator (reserve0 p) * numerator (reserve1 p) = ?ri * ?ro"
    "numerator (reserve0 p') * numerator (reserve1 p') = (?ri + x) * (?ro - ?y)"
    by (simp_all add: res swap_view mult.commute)
  ultimately show ?thesis
    using y c res wf_swapped [OF assms(1,3) c(4)] by (simp add: swapped_reserves)
qed

theorem swap_keeps_product_witness:
  "\<exists>out p'. getOutputAmount dex_env pair_ab (raw (ERC20 token_b) 777) = Inr (out, p')
     \<and> 1000000 * 2000000 \<le> numerator (reserve0 p') * numerator (reserve1 p') \<and> 0 < numerator out"
proof -
  have "(case getOutputAmount dex_env pair_ab (raw (ERC20 token_b) 777) of Inr t \<Rightarrow> True | Inl e \<Rightarrow> False)" by code_simp
  then obtain out p' where r: "getOutputAmount dex_env pair_ab (raw (ERC20 token_b) 777) = Inr (out, p')"
    by (auto split: sum.splits)
  have "wf_pair dex_env pair_ab" "involvesToken pair_ab token_b" by code_simp+
  moreover have "numerator (reserve0 pair_ab) * numerator (reserve1 pair_ab) = 1000000 * 2000000" by code_simp
  ultimately show ?thesis using swap_keeps_product [OF _ _ _ r] r by auto
qed

text \<open>
  The input computed for an exact output is accepted by the pair and pays at least that
  output, and it is at most one unit above any input that does.
\<close>

theorem swap_input_suffices:
  assumes "wf_pair env p" and "involvesToken p t" and "0 < y"
    and "getInputAmount env p (raw (ERC20 t) y) = Inr (inp, p')"
  shows "(\<exists>out q. getOutputAmount env p inp = Inr (out, q) \<and> y \<le> numerator out) \<and>
    (\<forall>x out q. 0 \<le> x \<longrightarrow> getOutputAmount env p (raw (currency inp) x) = Inr (out, q) \<longrightarrow> y \<le> numerator out \<longrightarrow>
       numerator inp \<le> x + 1)"
proof -
  define t' where "t' = other_token p t"
  let ?ri = "reserve_in p t'" and ?ro = "reserve_out p t'"
  let ?x = "in_amount y ?ri ?ro"
  have c: "?ri \<noteq> 0" "y < ?ro" "?ri + ?x \<le> MaxUint256" and inp: "inp = raw (ERC20 t') ?x"
    using assms(4) getInputAmount_eval [OF assms(1,2), of y] assms(3) by (auto simp: Let_def t'_def split: if_splits)
  have ri: "0 < ?ri" using c wf_reserves [OF assms(1), of t'] by simp
  have inv: "involvesToken p t'" unfolding t'_def by (rule other_token_back [OF assms(1,2)])
  have x: "0 < ?x" using in_amount_pos ri assms(3) c by simp
  have ge: "y \<le> out_amount ?x ?ri ?ro" using in_amount_suffices ri assms(3) c by simp
  have "getOutputAmount env p inp = Inr (raw (ERC20 (other_token p t')) (out_amount ?x ?ri ?ro), swapped p t' ?x (out_amount ?x ?ri ?ro))"
    using getOutputAmount_eval [OF assms(1) inv, of ?x] x c ge assms(3) by (simp add: inp Let_def)
  moreover have "numerator inp \<le> x' + 1"
    if "0 \<le> x'" "getOutputAmount env p (raw (currency inp) x') = Inr (out, q)" "y \<le> numerator out" for x' out q
  proof -
    have "numerator out = out_amount x' ?ri ?ro"
      using that getOutputAmount_eval [OF assms(1) inv that(1)] by (auto simp: inp Let_def split: if_splits)
    then show ?thesis using in_amount_least [OF ri _ c(2) that(1)] that(3) assms(3) by (simp add: inp)
  qed
  ultimately show ?thesis using ge by fastforce
qed

theorem swap_input_suffices_witness:
  "\<exists>inp p' out q. getInputAmount dex_env pair_ab (raw (ERC20 token_b) 777) = Inr (inp, p')
     \<and> getOutputAmount dex_env pair_ab inp = Inr (out, q) \<and> 777 \<le> numerator out"
proof -
  have "(case getInputAmount dex_env pair_ab (raw (ERC20 token_b) 777) of Inr t \<Rightarrow> True | Inl e \<Rightarrow> False)" by code_simp
  then obtain inp p' where r: "getInputAmount dex_env pair_ab (raw (ERC20 token_b) 777) = Inr (inp, p')"
    by (auto split: sum.splits)
  have "wf_pair dex_env pair_ab" "involvesToken pair_ab token_b" by code_simp+
  then show ?thesis using swap_input_suffices [OF _ _ _ r] r by auto
qed

text \<open>
  C26. The square root of the contracts: the loop ends, and its result is the integer root of
  every argument that is not negative.
\<close>

theorem sqrt_is_root:
  assumes "0 \<le> y"
  shows "\<exists>r. bigint_sqrt y = Inr r \<and> 0 \<le> r \<and> r ^ 2 \<le> y \<and> y < (r + 1) ^ 2"
  by (rule bigint_sqrt_root [OF assms])

theorem sqrt_is_root_witness:
  "\<exists>r. bigint_sqrt 1234567 = Inr r \<and> 0 \<le> r \<and> r ^ 2 \<le> 1234567 \<and> (1234567::int) < (r + 1) ^ 2"
  by (rule sqrt_is_root) simp

text \<open>
  Inserting a trade into a sorted list with a size limit: the list stays sorted and within
  the limit, and the trade that is dropped, if any, comes after all that are kept.
\<close>

theorem sorted_insert_keeps_best:
  assumes "sorted_wrt (cmp_le tradeComparator) items" and "list_all (trade_ok cin cout) (x # items)"
    and "0 < maxSize" and "length items \<le> maxSize"
  shows "\<exists>removed items'. sortedInsert items x maxSize tradeComparator = Inr (removed, items') \<and>
    sorted_wrt (cmp_le tradeComparator) items' \<and> length items' \<le> maxSize \<and>
    mset items' + mset (case removed of None \<Rightarrow> [] | Some r \<Rightarrow> [r]) = add_mset x (mset items) \<and>
    sorted_wrt (cmp_le tradeComparator) (items' @ (case removed of None \<Rightarrow> [] | Some r \<Rightarrow> [r]))"
  using assms by (intro trade_order.sortedInsert_keeps_best [of items cin cout]) (auto simp: list_all_iff)

theorem sorted_insert_keeps_best_witness:
  "\<exists>removed items'. sortedInsert [mk_trade route_abc EXACT_INPUT 10000 6524] (mk_trade route_abc EXACT_INPUT 9000 6524) 1
      tradeComparator = Inr (removed, items') \<and> length items' \<le> 1"
proof -
  have "list_all (trade_ok (ERC20 token_a) (ERC20 token_c))
    [mk_trade route_abc EXACT_INPUT 9000 6524, mk_trade route_abc EXACT_INPUT 10000 6524]" by code_simp
  from sorted_insert_keeps_best [OF _ this, of 1] show ?thesis by auto
qed

text \<open>
  The slippage bounds of a trade: an exact input keeps its input and asks for at least
  \<open>\<lfloor>out / (1 + s)\<rfloor>\<close>, an exact output keeps its output and offers at most \<open>\<lfloor>in * (1 + s)\<rfloor>\<close>, unless
  that exceeds 256 bits.
\<close>

theorem slippage_bounds:
  assumes "is_raw (inputAmount t)" and "is_raw (outputAmount t)" and "proper s" and "0 \<le> numerator s"
  shows "minimumAmountOut t s =
      Inr (if tradeType t = EXACT_OUTPUT then outputAmount t
           else raw (currency (outputAmount t)) \<lfloor>of_int (numerator (outputAmount t)) / (1 + frac_value s)\<rfloor>) \<and>
    maximumAmountIn t s =
      (if tradeType t = EXACT_INPUT then Inr (inputAmount t)
       else fromRawAmount (currency (inputAmount t)) \<lfloor>of_int (numerator (inputAmount t)) * (1 + frac_value s)\<rfloor>)"
proof -
  let ?a = "numerator s" and ?b = "denominator s"
  let ?x = "numerator (inputAmount t)" and ?y = "numerator (outputAmount t)"
  have b: "0 < ?b" using assms(3) by (simp add: proper_def)
  have q: "quotient (inputAmount t) = Inr ?x" "quotient (outputAmount t) = Inr ?y"
    and bounds: "0 \<le> ?x" "0 \<le> ?y" "?y \<le> MaxUint256"
    using assms(1,2) unfolding is_raw_def by (metis quotient_raw)+
  have slip: "\<not> Fraction_lessThan s (AsBigint 0)" using assms(4) by (simp add: Fraction_lessThan_def)
  have one: "1 + frac_value s = of_int (?b + ?a) / of_int ?b" using b by (simp add: frac_value_def field_simps)
  have add: "Fraction_add (new_Fraction 1 1) (frac s) = new_Fraction (?b + ?a) ?b"
    by (auto simp: Fraction_add_def Let_def)
  have "\<lfloor>of_int ?y / (1 + frac_value s)\<rfloor> = ?b * ?y div (?b + ?a)"
    using floor_divide_of_int_eq [of "?b * ?y" "?b + ?a", where 'a = rat] by (simp add: one mult.commute)
  moreover have "\<lfloor>of_int ?x * (1 + frac_value s)\<rfloor> = (?b + ?a) * ?x div ?b"
    using floor_divide_of_int_eq [of "(?b + ?a) * ?x" "?b", where 'a = rat] by (simp add: one mult.commute)
  moreover have "?b * ?y div (?b + ?a) \<le> ?y"
  proof -
    have "?b * ?y div (?b + ?a) \<le> (?b + ?a) * ?y div (?b + ?a)"
      using assms(4) b bounds by (intro zdiv_mono1 mult_right_mono) simp_all
    then show ?thesis using assms(4) b by simp
  qed
  moreover have "quotient (new_Fraction m d) = Inr (m div d)" if "0 \<le> m" "0 < d" for m d
    using that by (simp add: quotient_def bigint_div_nonneg)
  ultimately show ?thesis
    using b bounds assms(4)
    by (cases "tradeType t")
       (simp_all add: minimumAmountOut_def maximumAmountIn_def slip add q Fraction_invert_def Fraction_multiply_def
        fromRawAmount_raw)
qed

theorem slippage_bounds_witness:
  "minimumAmountOut (mk_trade route_abc EXACT_INPUT 10000 6524) (new_Percent 5 1000) =
     Inr (raw (ERC20 token_c) \<lfloor>6524 / (1 + frac_value (new_Percent 5 1000))\<rfloor>)"
proof -
  have raw: "is_raw (inputAmount (mk_trade route_abc EXACT_INPUT 10000 6524))"
    "is_raw (outputAmount (mk_trade route_abc EXACT_INPUT 10000 6524))"
    by (simp_all add: mk_trade_def Let_def is_raw_def MaxUint256_def)
  have "proper (new_Percent 5 1000)" by (simp add: proper_def)
  from slippage_bounds [OF raw this] show ?thesis by (simp add: mk_trade_def Let_def route_abc_def)
qed

text \<open>
  The price impact of every trade along a well-formed route, of either type, is strictly
  between 0 and 100 percent: a trade never pays its mid price or more.
\<close>

theorem price_impact_between:
  assumes "wf_route env r" and "0 < x" and "x \<le> MaxUint256"
    and "new_Trade env r (raw (if tt = EXACT_INPUT then routeInput r else routeOutput r) x) tt = Inr t"
  shows "0 < frac_value (priceImpact t) \<and> frac_value (priceImpact t) < 1"
proof (cases tt)
  case EXACT_INPUT
  with assms new_Trade_exactIn_eval [OF assms(1) _ _ assms(2,3), of "routeInput r"]
  obtain y where y: "chain_out x (route_hops r) = Inr y" "t = mk_trade r EXACT_INPUT x y"
    by (auto simp: bindS_eq_Inr split: if_splits)
  then show ?thesis
    using mk_trade_impact(2,3) [of r x y EXACT_INPUT] chain_out_below_mid [OF y(1) assms(2) hops_nonneg(2) [OF assms(1)]]
      route_hops_nonempty [OF assms(1)] assms(2) by simp
next
  case EXACT_OUTPUT
  with assms new_Trade_exactOut_eval [OF assms(1) _ _ assms(2,3), of "routeOutput r"]
  obtain z where z: "chain_in x (route_hops r) = Inr z" "t = mk_trade r EXACT_OUTPUT z x"
    by (auto simp: bindS_eq_Inr split: if_splits)
  then show ?thesis
    using mk_trade_impact(2,3) [of r z x EXACT_OUTPUT] chain_in_below_mid [OF z(1) assms(2) hops_nonneg(2) [OF assms(1)]]
      route_hops_nonempty [OF assms(1)] assms(2) by simp
qed

theorem price_impact_between_witness:
  "\<exists>t. new_Trade dex_env route_abc (raw (ERC20 token_a) 10000) EXACT_INPUT = Inr t
     \<and> 0 < frac_value (priceImpact t) \<and> frac_value (priceImpact t) < 1"
proof -
  have "(case new_Trade dex_env route_abc (raw (ERC20 token_a) 10000) EXACT_INPUT of Inr t \<Rightarrow> True | Inl e \<Rightarrow> False)"
    by code_simp
  then obtain t where "new_Trade dex_env route_abc (raw (ERC20 token_a) 10000) EXACT_INPUT = Inr t"
    by (auto split: sum.splits)
  then show ?thesis
    using price_impact_between [OF route_abc_wf, of 10000 EXACT_INPUT t] by (simp add: route_abc_def MaxUint256_def)
qed

section \<open>Addresses, router calls and liquidity\<close>

text \<open>
  The cache of pair addresses is invisible: after any sequence of lookups, a lookup gives
  the address that would be computed afresh.
\<close>

theorem pair_address_cache:
  assumes "list_all (\<lambda>(a, b). key_ok a \<and> key_ok b) calls" and "key_ok a" and "key_ok b"
  shows "bindS (Pair_getAddress env (cache_after env calls) a b) (\<lambda>r. Inr (fst r)) =
    bindS (Pair_getAddress env Map.empty a b) (\<lambda>r. Inr (fst r))"
  using Pair_getAddress_cached(1) [OF cache_after_ok [OF assms(1)] assms(2,3)] by (simp add: pair_address_def)

theorem pair_address_cache_witness:
  "bindS (Pair_getAddress dex_env (cache_after dex_env [(token_a, token_b), (token_c, token_a)]) token_b token_a) (\<lambda>r. Inr (fst r)) =
    bindS (Pair_getAddress dex_env Map.empty token_b token_a) (\<lambda>r. Inr (fst r))"
  by (rule pair_address_cache) code_simp+

text \<open>
  The router call of a trade: the value sent is the maximal input exactly when the native
  currency is spent, and otherwise the input bound is an argument; the output bound, the path of
  the route, the recipient and the deadline are always arguments; and a trade from native to
  native is refused.
\<close>

theorem router_call_carries_bounds:
  assumes "swapCallParameters env now t opts = Inr call"
  shows "\<exists>amountIn amountOut to.
     bindS (maximumAmountIn t (allowedSlippage opts)) toHex = Inr amountIn \<and>
     bindS (minimumAmountOut t (allowedSlippage opts)) toHex = Inr amountOut \<and>
     validateAndParseAddress env (recipient opts) = Inr to \<and>
     (isNative (currency (inputAmount t)) \<and> \<not> isNative (currency (outputAmount t)) \<and>
        callValue call = amountIn \<and> length (args call) = 4 \<or>
      \<not> isNative (currency (inputAmount t)) \<and>
        callValue call = ''0x0'' \<and> HexArg amountIn \<in> set (args call) \<and> length (args call) = 5) \<and>
     HexArg amountOut \<in> set (args call) \<and>
     PathArg (map address (path (trade_route t))) \<in> set (args call) \<and> HexArg to \<in> set (args call)"
  using assms
  by (cases "tradeType t")
     (auto simp: swapCallParameters_def Let_def invariantS_eq_Inr bindS_eq_Inr ZERO_HEX_def split: if_splits)

theorem router_call_carries_bounds_witness:
  "\<exists>call to. swapCallParameters dex_env 1700000000000 (mk_trade route_abc EXACT_INPUT 10000 6524) sample_options = Inr call
     \<and> methodName call = ''swapExactTokensForTokens'' \<and> length (args call) = 5
     \<and> PathArg [''0xA1'', ''0xB2'', ''0xC3''] \<in> set (args call) \<and> HexArg to \<in> set (args call)"
proof -
  have "(case swapCallParameters dex_env 1700000000000 (mk_trade route_abc EXACT_INPUT 10000 6524) sample_options of
     Inr c \<Rightarrow> methodName c = ''swapExactTokensForTokens'' | Inl e \<Rightarrow> False)" by code_simp
  then obtain call where call:
    "swapCallParameters dex_env 1700000000000 (mk_trade route_abc EXACT_INPUT 10000 6524) sample_options = Inr call"
    "methodName call = ''swapExactTokensForTokens''" by (auto split: sum.splits)
  have "map address (path (trade_route (mk_trade route_abc EXACT_INPUT 10000 6524))) = [''0xA1'', ''0xB2'', ''0xC3'']"
    "\<not> isNative (currency (inputAmount (mk_trade route_abc EXACT_INPUT 10000 6524)))" by code_simp+
  then show ?thesis using router_call_carries_bounds [OF call(1)] call by auto
qed

text \<open>
  C27. The invariant of a stable pool is always found: with a positive amplifier and at least two
  balances that are not negative, no division meets zero, the result is not negative, and it is
  zero exactly for the empty pool.
\<close>

theorem stable_invariant_found:
  assumes "1 \<le> amp" and "list_all (\<lambda>b. 0 \<le> b) bs" and "1 < length bs"
  shows "\<exists>d. getD amp bs = Inr d \<and> 0 \<le> d \<and> (d = 0 \<longleftrightarrow> sum_list bs = 0)"
  by (rule getD_returns [OF assms])

theorem stable_invariant_found_witness:
  "\<exists>d. getD 1000 [45783656091242964455008335, 67779343437455288075126268] = Inr d \<and> 0 \<le> d \<and> d \<noteq> 0"
  using stable_invariant_found [of 1000 "[45783656091242964455008335, 67779343437455288075126268]"] by auto

text \<open>
  C28. Adding liquidity to a pair and taking the minted share out again never gives back more of either token than
  was put in.  The pair either has a positive supply and positive reserves, or it is empty (no supply and no
  reserves) and the deposit is the first one, for which the exchange mints the root of the product less
  \<^verbatim>\<open>MINIMUM_LIQUIDITY\<close>, the part of the supply that stays locked.  With the protocol's fee off both values are
  returned; with the fee on, whatever \<^verbatim>\<open>kLast\<close> is, a value that is returned is bounded by the deposit too.
\<close>

theorem liquidity_round_trip:
  assumes "wf_pair env p" and "0 \<le> q0" and "0 \<le> q1"
    and "S = 0 \<and> numerator (reserve0 p) = 0 \<and> numerator (reserve1 p) = 0
      \<or> 0 < S \<and> 0 < numerator (reserve0 p) \<and> 0 < numerator (reserve1 p)"
    and "numerator (reserve0 p) + q0 \<le> MaxUint256" and "numerator (reserve1 p) + q1 \<le> MaxUint256"
    and "getLiquidityMinted p (raw (ERC20 (liquidityToken p)) S) (raw (ERC20 (token0 p)) q0) (raw (ERC20 (token1 p)) q1)
      = Inr minted"
    and "p' = mk_pair (liquidityToken p) (token0 p) (token1 p) (numerator (reserve0 p) + q0) (numerator (reserve1 p) + q1)"
    and "S' = raw (ERC20 (liquidityToken p)) ((if S = 0 then MINIMUM_LIQUIDITY else S) + numerator minted)"
  shows "0 < numerator minted
    \<and> (\<exists>v0 v1. getLiquidityValue p' (token0 p) S' minted False None False = Inr v0 \<and>
         getLiquidityValue p' (token1 p) S' minted False None False = Inr v1 \<and> numerator v0 \<le> q0 \<and> numerator v1 \<le> q1)
    \<and> (\<forall>feeOn kLast b v.
         (getLiquidityValue p' (token0 p) S' minted feeOn kLast b = Inr v \<longrightarrow> numerator v \<le> q0) \<and>
         (getLiquidityValue p' (token1 p) S' minted feeOn kLast b = Inr v \<longrightarrow> numerator v \<le> q1))"
proof -
  let ?r0 = "numerator (reserve0 p)" and ?r1 = "numerator (reserve1 p)"
  let ?lp = "liquidityToken p" and ?S = "(if S = 0 then MINIMUM_LIQUIDITY else S)"
  obtain L where L: "minted = raw (ERC20 ?lp) L" "0 < L"
    and worth: "L * (?r0 + q0) div (?S + L) \<le> q0" "L * (?r1 + q1) div (?S + L) \<le> q1"
    using minted_worth [OF assms(1-4,7)] by blast
  have S: "0 < ?S" using assms(4) by (auto simp: MINIMUM_LIQUIDITY_def)
  have sort: "sortsBefore (token0 p) (token1 p) = Inr True" using assms(1) by (simp add: wf_pair_def)
  have wf: "wf_pair env p'"
    using assms by (simp add: wf_mk_pair) (auto simp: wf_pair_def)
  have inv: "involvesToken p' (token0 p)" "involvesToken p' (token1 p)" and lp: "liquidityToken p' = ?lp"
    by (simp_all add: assms(8) involvesToken_def)
  have res: "reserve_in p' (token0 p) = ?r0 + q0" "reserve_in p' (token1 p) = ?r1 + q1"
    using sortsBefore_distinct [OF sort] by (simp_all add: assms(8) reserve_in_def)
  have range: "0 \<le> L" "L \<le> ?S + L" "0 < ?S + L" using L S by simp_all
  have S': "S' = raw (ERC20 ?lp) (?S + L)" using assms(9) L(1) by simp
  note off = getLiquidityValue_eval [OF wf inv(1) range, unfolded lp res] getLiquidityValue_eval [OF wf inv(2) range, unfolded lp res]
  note on = getLiquidityValue_le [OF wf inv(1) range, unfolded lp res] getLiquidityValue_le [OF wf inv(2) range, unfolded lp res]
  show ?thesis
  proof (intro conjI allI impI)
    show "0 < numerator minted" using L by simp
    show "\<exists>v0 v1. getLiquidityValue p' (token0 p) S' minted False None False = Inr v0 \<and>
        getLiquidityValue p' (token1 p) S' minted False None False = Inr v1 \<and> numerator v0 \<le> q0 \<and> numerator v1 \<le> q1"
      unfolding S' L(1) using off worth by simp
  next
    fix feeOn kLast b v
    show "numerator v \<le> q0" if "getLiquidityValue p' (token0 p) S' minted feeOn kLast b = Inr v"
      using on(1) [OF that [unfolded S' L(1)]] worth(1) by (rule order_trans)
    show "numerator v \<le> q1" if "getLiquidityValue p' (token1 p) S' minted feeOn kLast b = Inr v"
      using on(2) [OF that [unfolded S' L(1)]] worth(2) by (rule order_trans)
  qed
qed

theorem liquidity_round_trip_witness:
  "(\<exists>minted v0. getLiquidityMinted pair_ab (raw (ERC20 (liquidityToken pair_ab)) 1400000) (raw (ERC20 (token0 pair_ab)) 500)
       (raw (ERC20 (token1 pair_ab)) 1001) = Inr minted
     \<and> getLiquidityValue (mk_pair (liquidityToken pair_ab) (token0 pair_ab) (token1 pair_ab) 1000500 2001001) (token0 pair_ab)
         (raw (ERC20 (liquidityToken pair_ab)) (1400000 + numerator minted)) minted False None False = Inr v0
     \<and> numerator v0 \<le> 500)
   \<and> (\<exists>minted v0. getLiquidityMinted empty_ab (raw (ERC20 (liquidityToken empty_ab)) 0) (raw (ERC20 (token0 empty_ab)) 5000)
       (raw (ERC20 (token1 empty_ab)) 9000) = Inr minted
     \<and> getLiquidityValue (mk_pair (liquidityToken empty_ab) (token0 empty_ab) (token1 empty_ab) 5000 9000) (token0 empty_ab)
         (raw (ERC20 (liquidityToken empty_ab)) (1000 + numerator minted)) minted False None False = Inr v0
     \<and> numerator v0 \<le> 5000)"
proof (rule conjI)
  have "\<not> isl (getLiquidityMinted pair_ab (raw (ERC20 (liquidityToken pair_ab)) 1400000) (raw (ERC20 (token0 pair_ab)) 500)
       (raw (ERC20 (token1 pair_ab)) 1001))" by code_simp
  then obtain minted where m: "getLiquidityMinted pair_ab (raw (ERC20 (liquidityToken pair_ab)) 1400000)
      (raw (ERC20 (token0 pair_ab)) 500) (raw (ERC20 (token1 pair_ab)) 1001) = Inr minted"
    by (metis isl_def sum.exhaust_sel)
  have r: "numerator (reserve0 pair_ab) = 1000000" "numerator (reserve1 pair_ab) = 2000000"
    and wf: "wf_pair dex_env pair_ab" by code_simp+
  show "\<exists>minted v0. getLiquidityMinted pair_ab (raw (ERC20 (liquidityToken pair_ab)) 1400000) (raw (ERC20 (token0 pair_ab)) 500)
       (raw (ERC20 (token1 pair_ab)) 1001) = Inr minted
     \<and> getLiquidityValue (mk_pair (liquidityToken pair_ab) (token0 pair_ab) (token1 pair_ab) 1000500 2001001) (token0 pair_ab)
         (raw (ERC20 (liquidityToken pair_ab)) (1400000 + numerator minted)) minted False None False = Inr v0
     \<and> numerator v0 \<le> 500"
    using liquidity_round_trip [OF wf _ _ _ _ _ m refl refl, THEN conjunct2, THEN conjunct1] m
    by (simp add: r MaxUint256_def) blast
next
  have r: "numerator (reserve0 empty_ab) = 0" "numerator (reserve1 empty_ab) = 0"
    and wf: "wf_pair dex_env empty_ab" by code_simp+
  obtain root where root: "0 \<le> root" "root ^ 2 \<le> 45000000" "45000000 < (root + 1) ^ 2"
    and mint: "getLiquidityMinted empty_ab (raw (ERC20 (liquidityToken empty_ab)) 0) (raw (ERC20 (token0 empty_ab)) 5000)
       (raw (ERC20 (token1 empty_ab)) 9000) =
      (if root \<le> MINIMUM_LIQUIDITY then Inl InsufficientInputAmountError
       else fromRawAmount (ERC20 (liquidityToken empty_ab)) (root - MINIMUM_LIQUIDITY))"
    by (rule getLiquidityMinted_first [OF wf, of 5000 9000]) simp_all
  have "root < 6709" using power_mono [of 6709 root 2] root(2) by (cases "root < 6709") simp_all
  moreover have "1000 < root" using power_mono [of "root + 1" 1001 2] root(1,3) by (cases "1000 < root") simp_all
  ultimately obtain minted where m: "getLiquidityMinted empty_ab (raw (ERC20 (liquidityToken empty_ab)) 0)
      (raw (ERC20 (token0 empty_ab)) 5000) (raw (ERC20 (token1 empty_ab)) 9000) = Inr minted"
    using mint by (simp add: fromRawAmount_raw MINIMUM_LIQUIDITY_def MaxUint256_def)
  show "\<exists>minted v0. getLiquidityMinted empty_ab (raw (ERC20 (liquidityToken empty_ab)) 0) (raw (ERC20 (token0 empty_ab)) 5000)
       (raw (ERC20 (token1 empty_ab)) 9000) = Inr minted
     \<and> getLiquidityValue (mk_pair (liquidityToken empty_ab) (token0 empty_ab) (token1 empty_ab) 5000 9000) (token0 empty_ab)
         (raw (ERC20 (liquidityToken empty_ab)) (1000 + numerator minted)) minted False None False = Inr v0
     \<and> numerator v0 \<le> 5000"
    using liquidity_round_trip [OF wf _ _ _ _ _ m refl refl, THEN conjunct2, THEN conjunct1] m
    by (simp add: r MaxUint256_def MINIMUM_LIQUIDITY_def) blast
qed

end
