(* ===== verification/V3Math.thy ===== *)
theory V3Math
  imports V2PairFacts "HOL-Library.Word"
begin

text \<open>
  The integer arithmetic of the V3 exchange (\<^verbatim>\<open>v3-sdk/src/internalConstants.ts\<close> and
  \<^verbatim>\<open>v3-sdk/src/utils\<close>: \<^verbatim>\<open>fullMath.ts\<close>, \<^verbatim>\<open>liquidityMath.ts\<close>,
  \<^verbatim>\<open>mostSignificantBit.ts\<close>, \<^verbatim>\<open>sqrtPriceMath.ts\<close>, \<^verbatim>\<open>swapMath.ts\<close>).  Prices are square
  roots in Q64.96 fixed point.  Sums and products that the contracts compute modulo \<open>2 ^ 256\<close>
  are cut by the mask, as in the code.  The lemmas show that the rounded quotients are the floor
  and the ceiling of the exact ones and that one step of a swap neither overshoots its target nor
  the amount it is given.
\<close>

unbundle bit_operations_syntax

section \<open>Definitions\<close>

subsection \<open>Constants\<close>

definition Q96 :: int where "Q96 = 2 ^ 96"
definition Q192 :: int where "Q192 = Q96 ^ 2"
definition MAX_FEE :: int where "MAX_FEE = 10 ^ 6"
definition Q128 :: int where "Q128 = 2 ^ 128"
definition MaxUint160 :: int where "MaxUint160 = 2 ^ 160 - 1"

subsection \<open>\<open>FullMath\<close> and \<open>LiquidityMath\<close>\<close>

definition mulDivRoundingUp :: "int \<Rightarrow> int \<Rightarrow> int \<Rightarrow> js_error + int" where
  "mulDivRoundingUp a b d =
     (let product = a * b in
      bindS (bigint_div product d) (\<lambda>result.
      bindS (bigint_rem product d) (\<lambda>r.
        Inr (if r \<noteq> 0 then result + 1 else result))))"

definition addDelta :: "int \<Rightarrow> int \<Rightarrow> int" where
  "addDelta x y = (if y < 0 then x - y * (- 1) else x + y)"

subsection \<open>\<open>mostSignificantBit\<close>\<close>

definition POWERS_OF_2 :: "(nat \<times> int) list" where
  "POWERS_OF_2 = map (\<lambda>pow. (pow, 2 ^ pow)) [128, 64, 32, 16, 8, 4, 2, 1]"

fun msb_loop :: "(nat \<times> int) list \<Rightarrow> nat \<Rightarrow> int \<Rightarrow> nat" where
  "msb_loop [] msb x = msb"
| "msb_loop ((pow, least) # ps) msb x =
     (if x \<ge> least then msb_loop ps (msb + pow) (drop_bit pow x) else msb_loop ps msb x)"

definition mostSignificantBit :: "int \<Rightarrow> js_error + nat" where
  "mostSignificantBit x =
     invariantS (x > 0) ''ZERO''
       (invariantS (x \<le> MaxUint256) ''MAX'' (Inr (msb_loop POWERS_OF_2 0 x)))"

subsection \<open>\<open>SqrtPriceMath\<close>\<close>

definition multiplyIn256 :: "int \<Rightarrow> int \<Rightarrow> int" where
  "multiplyIn256 x y = (x * y) AND MaxUint256"

definition addIn256 :: "int \<Rightarrow> int \<Rightarrow> int" where
  "addIn256 x y = (x + y) AND MaxUint256"

definition getAmount0Delta :: "int \<Rightarrow> int \<Rightarrow> int \<Rightarrow> bool \<Rightarrow> js_error + int" where
  "getAmount0Delta sqrtRatioA sqrtRatioB liquidity roundUp =
     (let (sqrtRatioAX96, sqrtRatioBX96) =
            (if sqrtRatioA > sqrtRatioB then (sqrtRatioB, sqrtRatioA) else (sqrtRatioA, sqrtRatioB));
          numerator1 = push_bit 96 liquidity;
          numerator2 = sqrtRatioBX96 - sqrtRatioAX96 in
      if roundUp then
        bindS (mulDivRoundingUp numerator1 numerator2 sqrtRatioBX96) (\<lambda>q. mulDivRoundingUp q 1 sqrtRatioAX96)
      else
        bindS (bigint_div (numerator1 * numerator2) sqrtRatioBX96) (\<lambda>q. bigint_div q sqrtRatioAX96))"

definition getAmount1Delta :: "int \<Rightarrow> int \<Rightarrow> int \<Rightarrow> bool \<Rightarrow> js_error + int" where
  "getAmount1Delta sqrtRatioA sqrtRatioB liquidity roundUp =
     (let (sqrtRatioAX96, sqrtRatioBX96) =
            (if sqrtRatioA > sqrtRatioB then (sqrtRatioB, sqrtRatioA) else (sqrtRatioA, sqrtRatioB)) in
      if roundUp then mulDivRoundingUp liquidity (sqrtRatioBX96 - sqrtRatioAX96) Q96
      else bigint_div (liquidity * (sqrtRatioBX96 - sqrtRatioAX96)) Q96)"

definition getNextSqrtPriceFromAmount0RoundingUp :: "int \<Rightarrow> int \<Rightarrow> int \<Rightarrow> bool \<Rightarrow> js_error + int" where
  "getNextSqrtPriceFromAmount0RoundingUp sqrtPX96 liquidity amount add =
     (if amount = 0 then Inr sqrtPX96
      else
        (let numerator1 = push_bit 96 liquidity;
             product = multiplyIn256 amount sqrtPX96 in
         if add then
           bindS (bigint_div product amount) (\<lambda>q.
             let denominator = addIn256 numerator1 product in
             if q = sqrtPX96 \<and> denominator \<ge> numerator1
             then mulDivRoundingUp numerator1 sqrtPX96 denominator
             else bindS (bigint_div numerator1 sqrtPX96) (\<lambda>d. mulDivRoundingUp numerator1 1 (d + amount)))
         else
           bindS (bigint_div product amount) (\<lambda>q.
             invariantS (q = sqrtPX96) []
               (invariantS (numerator1 > product) []
                 (mulDivRoundingUp numerator1 sqrtPX96 (numerator1 - product))))))"

definition getNextSqrtPriceFromAmount1RoundingDown :: "int \<Rightarrow> int \<Rightarrow> int \<Rightarrow> bool \<Rightarrow> js_error + int" where
  "getNextSqrtPriceFromAmount1RoundingDown sqrtPX96 liquidity amount add =
     (if add then
        bindS (if amount \<le> MaxUint160 then bigint_div (push_bit 96 amount) liquidity
               else bigint_div (amount * Q96) liquidity) (\<lambda>quo. Inr (sqrtPX96 + quo))
      else
        bindS (mulDivRoundingUp amount Q96 liquidity) (\<lambda>quo.
          invariantS (sqrtPX96 > quo) [] (Inr (sqrtPX96 - quo))))"

definition getNextSqrtPriceFromInput :: "int \<Rightarrow> int \<Rightarrow> int \<Rightarrow> bool \<Rightarrow> js_error + int" where
  "getNextSqrtPriceFromInput sqrtPX96 liquidity amountIn zeroForOne =
     invariantS (sqrtPX96 > 0) []
       (invariantS (liquidity > 0) []
         (if zeroForOne then getNextSqrtPriceFromAmount0RoundingUp sqrtPX96 liquidity amountIn True
          else getNextSqrtPriceFromAmount1RoundingDown sqrtPX96 liquidity amountIn True))"

definition getNextSqrtPriceFromOutput :: "int \<Rightarrow> int \<Rightarrow> int \<Rightarrow> bool \<Rightarrow> js_error + int" where
  "getNextSqrtPriceFromOutput sqrtPX96 liquidity amountOut zeroForOne =
     invariantS (sqrtPX96 > 0) []
       (invariantS (liquidity > 0) []
         (if zeroForOne then getNextSqrtPriceFromAmount1RoundingDown sqrtPX96 liquidity amountOut False
          else getNextSqrtPriceFromAmount0RoundingUp sqrtPX96 liquidity amountOut False))"

subsection \<open>\<open>SwapMath\<close>\<close>

text \<open>
  The record of partial results: the price after the step, and the amounts as far as the first
  half of the function sets them.  The second half keeps an amount of the first half only where
  that half has set it.
\<close>

record SwapStep =
  sqrtRatioNextX96 :: int
  amountIn :: int
  amountOut :: int
  feeAmount :: int

definition swap_step_target ::
  "int \<Rightarrow> int \<Rightarrow> int \<Rightarrow> int \<Rightarrow> int \<Rightarrow> bool \<Rightarrow> js_error + (int \<times> int)" where
  "swap_step_target sqrtRatioCurrentX96 sqrtRatioTargetX96 liquidity amountRemaining feePips zeroForOne =
     (if amountRemaining \<ge> 0 then
        bindS (bigint_div (amountRemaining * (MAX_FEE - feePips)) MAX_FEE) (\<lambda>amountRemainingLessFee.
        bindS (if zeroForOne then getAmount0Delta sqrtRatioTargetX96 sqrtRatioCurrentX96 liquidity True
               else getAmount1Delta sqrtRatioCurrentX96 sqrtRatioTargetX96 liquidity True) (\<lambda>aIn.
        bindS (if amountRemainingLessFee \<ge> aIn then Inr sqrtRatioTargetX96
               else getNextSqrtPriceFromInput sqrtRatioCurrentX96 liquidity amountRemainingLessFee zeroForOne)
          (\<lambda>next. Inr (next, aIn))))
      else
        bindS (if zeroForOne then getAmount1Delta sqrtRatioTargetX96 sqrtRatioCurrentX96 liquidity False
               else getAmount0Delta sqrtRatioCurrentX96 sqrtRatioTargetX96 liquidity False) (\<lambda>aOut.
        bindS (if amountRemaining * (- 1) \<ge> aOut then Inr sqrtRatioTargetX96
               else getNextSqrtPriceFromOutput sqrtRatioCurrentX96 liquidity (amountRemaining * (- 1)) zeroForOne)
          (\<lambda>next. Inr (next, aOut))))"

definition computeSwapStep :: "int \<Rightarrow> int \<Rightarrow> int \<Rightarrow> int \<Rightarrow> int \<Rightarrow> js_error + SwapStep" where
  "computeSwapStep sqrtRatioCurrentX96 sqrtRatioTargetX96 liquidity amountRemaining feePips =
     (let zeroForOne = (sqrtRatioCurrentX96 \<ge> sqrtRatioTargetX96);
          exactIn = (amountRemaining \<ge> 0) in
      bindS (swap_step_target sqrtRatioCurrentX96 sqrtRatioTargetX96 liquidity amountRemaining feePips zeroForOne)
        (\<lambda>(next, amount).
      let atTarget = (sqrtRatioTargetX96 = next) in
      bindS (if atTarget \<and> exactIn then Inr amount
             else if zeroForOne then getAmount0Delta next sqrtRatioCurrentX96 liquidity True
             else getAmount1Delta sqrtRatioCurrentX96 next liquidity True) (\<lambda>aIn.
      bindS (if atTarget \<and> \<not> exactIn then Inr amount
             else if zeroForOne then getAmount1Delta next sqrtRatioCurrentX96 liquidity False
             else getAmount0Delta sqrtRatioCurrentX96 next liquidity False) (\<lambda>aOut0.
      let aOut = (if \<not> exactIn \<and> aOut0 > amountRemaining * (- 1) then amountRemaining * (- 1) else aOut0) in
      bindS (if exactIn \<and> next \<noteq> sqrtRatioTargetX96 then Inr (amountRemaining - aIn)
             else mulDivRoundingUp aIn feePips (MAX_FEE - feePips)) (\<lambda>fee.
        Inr \<lparr>sqrtRatioNextX96 = next, amountIn = aIn, amountOut = aOut, feeAmount = fee\<rparr>)))))"

section \<open>Lemmas\<close>

subsection \<open>Floor and ceiling of quotients\<close>

text \<open>The ceiling of a quotient; a bound on it or on the floor is a bound on the product.\<close>

definition cdiv :: "int \<Rightarrow> int \<Rightarrow> int" where
  "cdiv a b = - (- a div b)"

lemma cdiv_le_iff: "0 < b \<Longrightarrow> cdiv a b \<le> c \<longleftrightarrow> a \<le> c * b"
  using le_div_iff [of b "- c" "- a"] by (auto simp: cdiv_def)

lemma less_cdiv_iff: "0 < b \<Longrightarrow> c < cdiv a b \<longleftrightarrow> c * b < a"
  using cdiv_le_iff [of b a c] by linarith

lemma div_less_bound: "0 < b \<Longrightarrow> a div b < c \<longleftrightarrow> (a::int) < c * b"
  using le_div_iff [of b c a] by linarith

lemma cdiv_0 [simp]: "cdiv 0 b = 0"
  by (simp add: cdiv_def)

lemma cdiv_nonneg: "0 \<le> a \<Longrightarrow> 0 < b \<Longrightarrow> 0 \<le> cdiv a b"
  using less_cdiv_iff [of b "- 1" a] by simp

lemma cdiv_cdiv:
  assumes "0 < b" and "0 < c"
  shows "cdiv (cdiv a b) c = cdiv a (b * c)"
proof -
  have "cdiv (cdiv a b) c \<le> x \<longleftrightarrow> cdiv a (b * c) \<le> x" for x
    using assms by (simp add: cdiv_le_iff ac_simps)
  then show ?thesis by (meson order.antisym order_refl)
qed

lemma cdiv_self_bound: "0 < b \<Longrightarrow> a \<le> cdiv a b * b"
  using cdiv_le_iff by blast

lemma mulDivRoundingUp_cdiv:
  assumes "0 \<le> a * b" and "0 < d"
  shows "mulDivRoundingUp a b d = Inr (cdiv (a * b) d)"
proof -
  have "trem (a * b) d = a * b mod d" using assms by (simp add: trem_def minus_div_mult_eq_mod)
  moreover have "cdiv (a * b) d = a * b div d + (if a * b mod d = 0 then 0 else 1)"
    using assms by (simp add: cdiv_def zdiv_zminus1_eq_if)
  ultimately show ?thesis
    using assms by (simp add: mulDivRoundingUp_def Let_def bigint_div_def bigint_rem_def)
qed

lemma addDelta_add [simp]: "addDelta x y = x + y"
  by (simp add: addDelta_def)

lemma and_max256: "x AND MaxUint256 = x mod 2 ^ 256"
  by (simp only: MaxUint256_eq flip: take_bit_eq_mod mask_eq_exp_minus_1 take_bit_eq_mask)

lemma in256_mod: "multiplyIn256 x y = x * y mod 2 ^ 256" "addIn256 x y = (x + y) mod 2 ^ 256"
  by (simp_all only: multiplyIn256_def addIn256_def and_max256)

lemma Q96_pos [simp]: "0 < Q96" "Q96 \<noteq> 0" "0 \<le> Q96"
  by (simp_all add: Q96_def)

lemma push_96: "push_bit 96 x = x * Q96"
  by (simp add: push_bit_eq_mult Q96_def)

lemma MAX_FEE_pos [simp]: "0 < MAX_FEE"
  by (simp add: MAX_FEE_def)

subsection \<open>The most significant bit\<close>

lemma msb_loop_step:
  assumes "0 < x" and "x < 2 ^ (2 * k)" and "0 < k"
    and "\<And>m y. 0 < y \<Longrightarrow> y < 2 ^ k \<Longrightarrow> \<exists>n. msb_loop ps m y = m + n \<and> 2 ^ n \<le> y \<and> y < 2 ^ (n + 1)"
  shows "\<exists>n. msb_loop ((k, 2 ^ k) # ps) m x = m + n \<and> 2 ^ n \<le> x \<and> x < 2 ^ (n + 1)"
proof (cases "2 ^ k \<le> x")
  case True
  let ?y = "x div 2 ^ k"
  have "0 < ?y" using True by (simp add: pos_imp_zdiv_pos_iff)
  moreover have "?y < 2 ^ k" using assms(2) by (simp add: div_less_bound power_add mult_2)
  ultimately obtain n where n: "msb_loop ps (m + k) ?y = m + k + n" "2 ^ n \<le> ?y" "?y < 2 ^ (n + 1)"
    using assms(4) by blast
  have "2 ^ (k + n) \<le> x" using n(2) by (simp add: le_div_iff power_add mult.commute)
  moreover have "x < 2 ^ (k + n + 1)" using n(3) by (simp add: div_less_bound power_add ac_simps)
  ultimately show ?thesis
    using True n(1) by (intro exI [of _ "k + n"]) (simp add: drop_bit_eq_div ac_simps)
next
  case False
  then show ?thesis using assms by auto
qed

lemma msb_loop_spec:
  assumes "0 < x" and "x < 2 ^ 256"
  shows "\<exists>n. msb_loop POWERS_OF_2 m x = m + n \<and> 2 ^ n \<le> x \<and> x < 2 ^ (n + 1)"
proof -
  have base: "\<exists>n. msb_loop [] m y = m + n \<and> 2 ^ n \<le> y \<and> y < 2 ^ (n + 1)" if "0 < y" "y < 2 ^ 1" for m and y :: int
    using that by (intro exI [of _ 0]) simp
  have P: "POWERS_OF_2 = [(128, 2 ^ 128), (64, 2 ^ 64), (32, 2 ^ 32), (16, 2 ^ 16), (8, 2 ^ 8), (4, 2 ^ 4), (2, 2 ^ 2), (1, 2 ^ 1)]"
    by (simp add: POWERS_OF_2_def)
  note b1 = msb_loop_step [where k = 1 and ps = "[]", OF _ _ _ base]
  note b2 = msb_loop_step [where k = 2, OF _ _ _ b1]
  note b4 = msb_loop_step [where k = 4, OF _ _ _ b2]
  note b8 = msb_loop_step [where k = 8, OF _ _ _ b4]
  note b16 = msb_loop_step [where k = 16, OF _ _ _ b8]
  note b32 = msb_loop_step [where k = 32, OF _ _ _ b16]
  note b64 = msb_loop_step [where k = 64, OF _ _ _ b32]
  note b128 = msb_loop_step [where k = 128, OF _ _ _ b64]
  show ?thesis unfolding P by (rule b128) (use assms in simp_all)
qed

lemma mostSignificantBit_spec:
  assumes "0 < x" and "x \<le> MaxUint256"
  shows "\<exists>n. mostSignificantBit x = Inr n \<and> 2 ^ n \<le> x \<and> x < 2 ^ (n + 1)"
  using msb_loop_spec [of x 0] assms by (auto simp: mostSignificantBit_def MaxUint256_eq)

end
