(* ===== verification/V3TickMath.thy ===== *)
theory V3TickMath
  imports V3Math
begin

text \<open>
  Ticks and prices (\<^verbatim>\<open>v3-sdk/src/utils/tickMath.ts\<close> and \<^verbatim>\<open>nearestUsableTick.ts\<close>): the
  square root price of a tick, by multiplying precomputed powers, and the tick of a price, by the
  leading bits of its logarithm.  Ticks are integers, so the checks of \<^verbatim>\<open>Number.isInteger\<close>
  always pass.
\<close>

section \<open>Definitions\<close>

definition mulShift :: "int \<Rightarrow> int \<Rightarrow> int" where
  "mulShift v mulBy = drop_bit 128 (v * mulBy)"

definition Q32 :: int where "Q32 = 2 ^ 32"

definition MIN_TICK :: int where "MIN_TICK = - 887272"
definition MAX_TICK :: int where "MAX_TICK = - MIN_TICK"
definition MIN_SQRT_RATIO :: int where "MIN_SQRT_RATIO = 4295128739"
definition MAX_SQRT_RATIO :: int where "MAX_SQRT_RATIO = 1461446703485210103287273052203988822378723970342"

text \<open>The product of the precomputed powers for the bits of the tick.\<close>

definition tick_ratio :: "int \<Rightarrow> int" where
  "tick_ratio absTick =
     (let ratio = (if absTick AND 0x1 \<noteq> 0 then 0xfffcb933bd6fad37aa2d162d1a594001
                   else 0x100000000000000000000000000000000) in
      let ratio = (if absTick AND 0x2 \<noteq> 0 then mulShift ratio 0xfff97272373d413259a46990580e213a else ratio) in
      let ratio = (if absTick AND 0x4 \<noteq> 0 then mulShift ratio 0xfff2e50f5f656932ef12357cf3c7fdcc else ratio) in
      let ratio = (if absTick AND 0x8 \<noteq> 0 then mulShift ratio 0xffe5caca7e10e4e61c3624eaa0941cd0 else ratio) in
      let ratio = (if absTick AND 0x10 \<noteq> 0 then mulShift ratio 0xffcb9843d60f6159c9db58835c926644 else ratio) in
      let ratio = (if absTick AND 0x20 \<noteq> 0 then mulShift ratio 0xff973b41fa98c081472e6896dfb254c0 else ratio) in
      let ratio = (if absTick AND 0x40 \<noteq> 0 then mulShift ratio 0xff2ea16466c96a3843ec78b326b52861 else ratio) in
      let ratio = (if absTick AND 0x80 \<noteq> 0 then mulShift ratio 0xfe5dee046a99a2a811c461f1969c3053 else ratio) in
      let ratio = (if absTick AND 0x100 \<noteq> 0 then mulShift ratio 0xfcbe86c7900a88aedcffc83b479aa3a4 else ratio) in
      let ratio = (if absTick AND 0x200 \<noteq> 0 then mulShift ratio 0xf987a7253ac413176f2b074cf7815e54 else ratio) in
      let ratio = (if absTick AND 0x400 \<noteq> 0 then mulShift ratio 0xf3392b0822b70005940c7a398e4b70f3 else ratio) in
      let ratio = (if absTick AND 0x800 \<noteq> 0 then mulShift ratio 0xe7159475a2c29b7443b29c7fa6e889d9 else ratio) in
      let ratio = (if absTick AND 0x1000 \<noteq> 0 then mulShift ratio 0xd097f3bdfd2022b8845ad8f792aa5825 else ratio) in
      let ratio = (if absTick AND 0x2000 \<noteq> 0 then mulShift ratio 0xa9f746462d870fdf8a65dc1f90e061e5 else ratio) in
      let ratio = (if absTick AND 0x4000 \<noteq> 0 then mulShift ratio 0x70d869a156d2a1b890bb3df62baf32f7 else ratio) in
      let ratio = (if absTick AND 0x8000 \<noteq> 0 then mulShift ratio 0x31be135f97d08fd981231505542fcfa6 else ratio) in
      let ratio = (if absTick AND 0x10000 \<noteq> 0 then mulShift ratio 0x9aa508b5b7a84e1c677de54f3e99bc9 else ratio) in
      let ratio = (if absTick AND 0x20000 \<noteq> 0 then mulShift ratio 0x5d6af8dedb81196699c329225ee604 else ratio) in
      let ratio = (if absTick AND 0x40000 \<noteq> 0 then mulShift ratio 0x2216e584f5fa1ea926041bedfe98 else ratio) in
      let ratio = (if absTick AND 0x80000 \<noteq> 0 then mulShift ratio 0x48a170391f7dc42444e8fa2 else ratio) in
      ratio)"

definition getSqrtRatioAtTick :: "int \<Rightarrow> js_error + int" where
  "getSqrtRatioAtTick tick =
     invariantS (tick \<ge> MIN_TICK \<and> tick \<le> MAX_TICK) ''TICK''
       (let absTick = (if tick < 0 then tick * (- 1) else tick);
            ratio0 = tick_ratio absTick in
        bindS (if tick > 0 then bigint_div MaxUint256 ratio0 else Inr ratio0) (\<lambda>ratio.
        bindS (bigint_rem ratio Q32) (\<lambda>r.
        bindS (bigint_div ratio Q32) (\<lambda>q.
          Inr (if r > 0 then q + 1 else q)))))"

text \<open>One round of the loop that squares and reads off a bit of the logarithm.\<close>

definition log2_step :: "nat \<Rightarrow> int \<times> int \<Rightarrow> int \<times> int" where
  "log2_step i = (\<lambda>(r, log_2).
     let r = drop_bit 127 (r * r);
         f = drop_bit 128 r;
         log_2 = log_2 OR push_bit (63 - i) f;
         r = drop_bit (nat f) r in
     (r, log_2))"

definition getTickAtSqrtRatio :: "int \<Rightarrow> js_error + int" where
  "getTickAtSqrtRatio sqrtRatioX96 =
     invariantS (sqrtRatioX96 \<ge> MIN_SQRT_RATIO \<and> sqrtRatioX96 < MAX_SQRT_RATIO) ''SQRT_RATIO''
       (let sqrtRatioX128 = push_bit 32 sqrtRatioX96 in
        bindS (mostSignificantBit sqrtRatioX128) (\<lambda>msb.
          let r = (if msb \<ge> 128 then drop_bit (msb - 127) sqrtRatioX128 else push_bit (127 - msb) sqrtRatioX128);
              log_2 = push_bit 64 (int msb - 128);
              (r, log_2) = fold log2_step [0..<14] (r, log_2);
              log_sqrt10001 = log_2 * 255738958999603826347141;
              tickLow = drop_bit 128 (log_sqrt10001 - 3402992956809132418596140100660247210);
              tickHigh = drop_bit 128 (log_sqrt10001 + 291339464771989622907027621153398088495) in
          if tickLow = tickHigh then Inr tickLow
          else bindS (getSqrtRatioAtTick tickHigh) (\<lambda>ratioHigh.
            Inr (if ratioHigh \<le> sqrtRatioX96 then tickHigh else tickLow))))"

text \<open>
  \<^verbatim>\<open>Math.round\<close> of a quotient of integers: the nearest integer, a half rounded up.
\<close>

definition nearestUsableTick :: "int \<Rightarrow> int \<Rightarrow> js_error + int" where
  "nearestUsableTick tick tickSpacing =
     invariantS (tickSpacing > 0) ''TICK_SPACING''
       (invariantS (tick \<ge> MIN_TICK \<and> tick \<le> MAX_TICK) ''TICK_BOUND''
         (if tickSpacing = 1 then Inr tick
          else
            (let rounded = (2 * tick + tickSpacing) div (2 * tickSpacing) * tickSpacing in
             if rounded < MIN_TICK then Inr (rounded + tickSpacing)
             else if rounded > MAX_TICK then Inr (rounded - tickSpacing)
             else Inr rounded)))"

section \<open>Evaluation\<close>

text \<open>Shifts by constants as divisions, which evaluate in one step.\<close>

lemma mulShift_code [code]: "mulShift v m = v * m div 0x100000000000000000000000000000000"
  by (simp add: mulShift_def drop_bit_eq_div)

lemma log2_step_code [code]:
  "log2_step i (r, l) =
     (let r = r * r div 0x80000000000000000000000000000000;
          f = r div 0x100000000000000000000000000000000 in
      if f = 0 then (r, l)
      else (if f = 1 then r div 2 else drop_bit (nat f) r, l OR push_bit (63 - i) f))"
  by (simp add: log2_step_def Let_def drop_bit_eq_div)

end
