(* ===== verification/V3TickList.thy ===== *)
theory V3TickList
  imports V3TickMath
begin

text \<open>
  Lists of initialized ticks and the providers of tick data
  (\<^verbatim>\<open>v3-sdk/src/entities/tick.ts\<close>, \<^verbatim>\<open>tickDataProvider.ts\<close>,
  \<^verbatim>\<open>tickListDataProvider.ts\<close>, \<^verbatim>\<open>utils/tickList.ts\<close>, \<^verbatim>\<open>utils/isSorted.ts\<close>).
  The binary search is a loop without a bound; on lists that are not sorted it can run forever,
  so its results carry an option, \<open>None\<close> when it does not return.  What a client relies on is the
  locale \<open>tick_provider\<close>; the provider backed by a list of ticks satisfies it whenever the list
  is sorted and not empty.
\<close>

section \<open>Computations that may not return\<close>

type_synonym 'a run = "(js_error + 'a) option"

definition bindR :: "'a run \<Rightarrow> ('a \<Rightarrow> 'b run) \<Rightarrow> 'b run" where
  "bindR m f = (case m of None \<Rightarrow> None | Some (Inl e) \<Rightarrow> Some (Inl e) | Some (Inr x) \<Rightarrow> f x)"

definition runS :: "js_error + 'a \<Rightarrow> 'a run" where
  "runS m = Some m"

definition invariantR :: "bool \<Rightarrow> string \<Rightarrow> 'a run \<Rightarrow> 'a run" where
  "invariantR c m k = (if c then k else Some (Inl (Invariant m)))"

lemma bindR_simps [simp, js_simps]:
  "bindR None f = None"
  "bindR (Some (Inl e)) f = Some (Inl e)"
  "bindR (Some (Inr x)) f = f x"
  by (simp_all add: bindR_def)

lemma bindR_runS [simp]: "bindR (runS (Inr x)) f = f x" "bindR (runS (Inl e)) f = Some (Inl e)"
  by (simp_all add: runS_def)

lemma invariantR_simps [simp, js_simps]:
  "invariantR True m k = k"
  "invariantR False m k = Some (Inl (Invariant m))"
  by (simp_all add: invariantR_def)

lemma bindR_eq_Inr: "bindR m f = Some (Inr y) \<longleftrightarrow> (\<exists>x. m = Some (Inr x) \<and> f x = Some (Inr y))"
  by (auto simp: bindR_def split: option.splits sum.splits)

section \<open>Ticks\<close>

record Tick =
  index :: int
  liquidityGross :: int
  liquidityNet :: int

definition new_Tick :: "int \<Rightarrow> int \<Rightarrow> int \<Rightarrow> js_error + Tick" where
  "new_Tick i gross net =
     invariantS (i \<ge> MIN_TICK \<and> i \<le> MAX_TICK) ''TICK''
       (Inr \<lparr>index = i, liquidityGross = gross, liquidityNet = net\<rparr>)"

section \<open>\<open>TickList\<close>\<close>

fun isSorted :: "'a list \<Rightarrow> ('a \<Rightarrow> 'a \<Rightarrow> int) \<Rightarrow> bool" where
  "isSorted (a # b # rest) comparator = (if comparator a b > 0 then False else isSorted (b # rest) comparator)"
| "isSorted _ comparator = True"

definition tickComparator :: "Tick \<Rightarrow> Tick \<Rightarrow> int" where
  "tickComparator a b = index a - index b"

definition validateList :: "Tick list \<Rightarrow> int \<Rightarrow> js_error + unit" where
  "validateList ticks tickSpacing =
     invariantS (tickSpacing > 0) ''TICK_SPACING_NONZERO''
       (invariantS (list_all (\<lambda>t. trem (index t) tickSpacing = 0) ticks) ''TICK_SPACING''
         (invariantS (foldl (\<lambda>accumulator t. accumulator + liquidityNet t) 0 ticks = 0) ''ZERO_NET''
           (invariantS (isSorted ticks tickComparator) ''SORTED'' (Inr ()))))"

definition isBelowSmallest :: "Tick list \<Rightarrow> int \<Rightarrow> js_error + bool" where
  "isBelowSmallest ticks tick =
     invariantS (length ticks > 0) ''LENGTH'' (Inr (tick < index (ticks ! 0)))"

definition isAtOrAboveLargest :: "Tick list \<Rightarrow> int \<Rightarrow> js_error + bool" where
  "isAtOrAboveLargest ticks tick =
     invariantS (length ticks > 0) ''LENGTH'' (Inr (tick \<ge> index (ticks ! (length ticks - 1))))"

text \<open>An element of the list by a number: reading a property of an absent one throws.\<close>

definition tick_at :: "Tick list \<Rightarrow> int \<Rightarrow> js_error + Tick" where
  "tick_at ticks i = (if 0 \<le> i \<and> i < int (length ticks) then Inr (ticks ! nat i) else Inl TypeError)"

text \<open>One round of the search: the index found, or the bounds of the next round.\<close>

definition search_round :: "Tick list \<Rightarrow> int \<Rightarrow> int \<Rightarrow> int \<Rightarrow> js_error + (int + int \<times> int)" where
  "search_round ticks tick l r =
     (let i = (l + r) div 2 in
      bindS (tick_at ticks i) (\<lambda>ti.
      bindS (if index ti \<le> tick
             then (if i = int (length ticks) - 1 then Inr True
                   else bindS (tick_at ticks (i + 1)) (\<lambda>tn. Inr (index tn > tick)))
             else Inr False) (\<lambda>found.
        if found then Inr (Inl i)
        else if index ti < tick then Inr (Inr (i + 1, r))
        else Inr (Inr (l, i - 1)))))"

partial_function (option) search_loop :: "Tick list \<Rightarrow> int \<Rightarrow> int \<Rightarrow> int \<Rightarrow> int run" where
  "search_loop ticks tick l r =
     (case search_round ticks tick l r of
        Inl e \<Rightarrow> Some (Inl e)
      | Inr (Inl i) \<Rightarrow> Some (Inr i)
      | Inr (Inr (l', r')) \<Rightarrow> search_loop ticks tick l' r')"

declare search_loop.simps [code]

definition binarySearch :: "Tick list \<Rightarrow> int \<Rightarrow> int run" where
  "binarySearch ticks tick =
     bindR (runS (isBelowSmallest ticks tick)) (\<lambda>below.
       invariantR (\<not> below) ''BELOW_SMALLEST'' (search_loop ticks tick 0 (int (length ticks) - 1)))"

definition TickList_getTick :: "Tick list \<Rightarrow> int \<Rightarrow> Tick run" where
  "TickList_getTick ticks i =
     bindR (binarySearch ticks i) (\<lambda>pos.
     bindR (runS (tick_at ticks pos)) (\<lambda>tick.
       invariantR (index tick = i) ''NOT_CONTAINED'' (Some (Inr tick))))"

definition nextInitializedTick :: "Tick list \<Rightarrow> int \<Rightarrow> bool \<Rightarrow> Tick run" where
  "nextInitializedTick ticks tick lte =
     (if lte then
        bindR (runS (isBelowSmallest ticks tick)) (\<lambda>below.
        invariantR (\<not> below) ''BELOW_SMALLEST''
          (bindR (runS (isAtOrAboveLargest ticks tick)) (\<lambda>above.
             if above then runS (tick_at ticks (int (length ticks) - 1))
             else bindR (binarySearch ticks tick) (\<lambda>pos. runS (tick_at ticks pos)))))
      else
        bindR (runS (isAtOrAboveLargest ticks tick)) (\<lambda>above.
        invariantR (\<not> above) ''AT_OR_ABOVE_LARGEST''
          (bindR (runS (isBelowSmallest ticks tick)) (\<lambda>below.
             if below then runS (tick_at ticks 0)
             else bindR (binarySearch ticks tick) (\<lambda>pos. runS (tick_at ticks (pos + 1)))))))"

text \<open>The shifts of numbers work on 32 bits.\<close>

definition int32 :: "int \<Rightarrow> int" where
  "int32 x = signed_take_bit 31 x"

definition TickList_nextInitializedTickWithinOneWord :: "Tick list \<Rightarrow> int \<Rightarrow> bool \<Rightarrow> int \<Rightarrow> (int \<times> bool) run" where
  "TickList_nextInitializedTickWithinOneWord ticks tick lte tickSpacing =
     (let compressed = tick div tickSpacing in
      if lte then
        (let wordPos = drop_bit 8 (int32 compressed);
             minimum = int32 (push_bit 8 wordPos) * tickSpacing in
         bindR (runS (isBelowSmallest ticks tick)) (\<lambda>below.
           if below then Some (Inr (minimum, False))
           else bindR (nextInitializedTick ticks tick lte) (\<lambda>t.
             let next = max minimum (index t) in Some (Inr (next, next = index t)))))
      else
        (let wordPos = drop_bit 8 (int32 (compressed + 1));
             maximum = (int32 (push_bit 8 (wordPos + 1)) - 1) * tickSpacing in
         bindR (runS (isAtOrAboveLargest ticks tick)) (\<lambda>above.
           if above then Some (Inr (maximum, False))
           else bindR (nextInitializedTick ticks tick lte) (\<lambda>t.
             let next = min maximum (index t) in Some (Inr (next, next = index t))))))"

definition countInitializedTicksCrossed :: "Tick list \<Rightarrow> int \<Rightarrow> int \<Rightarrow> int run" where
  "countInitializedTicksCrossed ticks tickBefore tickAfter =
     (if tickBefore = tickAfter then Some (Inr 0)
      else bindR (binarySearch ticks tickBefore) (\<lambda>beforeIndex.
           bindR (binarySearch ticks tickAfter) (\<lambda>afterIndex.
             Some (Inr \<bar>beforeIndex - afterIndex\<bar>))))"

section \<open>Tick data providers\<close>

record TickDataProvider =
  provider_getTick :: "int \<Rightarrow> int run"
  provider_nextInitializedTickWithinOneWord :: "int \<Rightarrow> bool \<Rightarrow> int \<Rightarrow> (int \<times> bool) run"

text \<open>The swap reads only the net liquidity of a tick.\<close>

definition TickListDataProvider :: "Tick list \<Rightarrow> TickDataProvider" where
  "TickListDataProvider ticks =
     \<lparr>provider_getTick = (\<lambda>tick. bindR (TickList_getTick ticks tick) (\<lambda>t. Some (Inr (liquidityNet t)))),
      provider_nextInitializedTickWithinOneWord = TickList_nextInitializedTickWithinOneWord ticks\<rparr>"

definition NoTickDataProvider :: TickDataProvider where
  "NoTickDataProvider =
     \<lparr>provider_getTick = (\<lambda>_. Some (Inl (ErrorMsg ''No tick data provider was given''))),
      provider_nextInitializedTickWithinOneWord = (\<lambda>_ _ _. Some (Inl (ErrorMsg ''No tick data provider was given'')))\<rparr>"

end
