(* ===== verification/V3TickProvider.thy ===== *)
theory V3TickProvider
  imports V3TickList
begin

text \<open>
  The search in a sorted list of ticks returns, and finds the greatest tick that is not above the
  given one.  On that rest the two queries of a tick data provider; what they promise a swap is
  the locale \<open>tick_provider\<close>, interpreted on \<open>TickListDataProvider\<close>.
\<close>

section \<open>Well-formed lists of ticks\<close>

definition wf_ticks :: "Tick list \<Rightarrow> bool" where
  "wf_ticks ticks \<longleftrightarrow>
     ticks \<noteq> [] \<and> sorted_wrt (\<lambda>a b. index a < index b) ticks
     \<and> list_all (\<lambda>t. MIN_TICK \<le> index t \<and> index t \<le> MAX_TICK) ticks"

definition tick_indices :: "Tick list \<Rightarrow> int set" where
  "tick_indices ticks = index ` set ticks"

text \<open>The net liquidity of the tick at an index.\<close>

definition tick_net :: "Tick list \<Rightarrow> int \<Rightarrow> int" where
  "tick_net ticks i = (case find (\<lambda>t. index t = i) ticks of Some t \<Rightarrow> liquidityNet t | None \<Rightarrow> 0)"

lemma wf_ticks_less:
  "wf_ticks ticks \<Longrightarrow> i < j \<Longrightarrow> j < length ticks \<Longrightarrow> index (ticks ! i) < index (ticks ! j)"
  by (auto simp: wf_ticks_def intro: sorted_wrt_nth_less)

lemma wf_ticks_le_iff:
  "wf_ticks ticks \<Longrightarrow> i < length ticks \<Longrightarrow> j < length ticks \<Longrightarrow> index (ticks ! i) \<le> index (ticks ! j) \<longleftrightarrow> i \<le> j"
  using wf_ticks_less [of ticks i j] wf_ticks_less [of ticks j i] by (cases i j rule: linorder_cases) auto

lemma wf_ticks_inj:
  "wf_ticks ticks \<Longrightarrow> i < length ticks \<Longrightarrow> j < length ticks \<Longrightarrow> index (ticks ! i) = index (ticks ! j) \<longleftrightarrow> i = j"
  using wf_ticks_le_iff [of ticks i j] wf_ticks_le_iff [of ticks j i] by auto

lemma tick_indices_iff: "i \<in> tick_indices ticks \<longleftrightarrow> (\<exists>k < length ticks. index (ticks ! k) = i)"
  by (fastforce simp: tick_indices_def in_set_conv_nth image_iff)

lemma tick_net_nth:
  assumes "wf_ticks ticks" and "k < length ticks"
  shows "tick_net ticks (index (ticks ! k)) = liquidityNet (ticks ! k)"
proof -
  have "find (\<lambda>t. index t = index (ticks ! k)) ticks = Some (ticks ! k)"
    using assms wf_ticks_inj [OF assms(1)] by (auto simp: find_Some_iff intro!: exI [of _ k])
  then show ?thesis by (simp add: tick_net_def)
qed

lemma isBelowSmallest_wf: "wf_ticks ticks \<Longrightarrow> isBelowSmallest ticks tick = Inr (tick < index (ticks ! 0))"
  by (simp add: isBelowSmallest_def wf_ticks_def)

lemma isAtOrAboveLargest_wf: "wf_ticks ticks \<Longrightarrow> isAtOrAboveLargest ticks tick = Inr (index (ticks ! (length ticks - 1)) \<le> tick)"
  by (simp add: isAtOrAboveLargest_def wf_ticks_def)

lemma tick_at_nat [simp]: "k < length ticks \<Longrightarrow> tick_at ticks (int k) = Inr (ticks ! k)"
  by (simp add: tick_at_def)

section \<open>The binary search\<close>

text \<open>\<open>last_le ticks tick k\<close>: position \<open>k\<close> has the greatest tick not above \<open>tick\<close>.\<close>

definition last_le :: "Tick list \<Rightarrow> int \<Rightarrow> nat \<Rightarrow> bool" where
  "last_le ticks tick k \<longleftrightarrow>
     k < length ticks \<and> index (ticks ! k) \<le> tick \<and> (Suc k = length ticks \<or> tick < index (ticks ! Suc k))"

lemma last_le_exists:
  assumes "wf_ticks ticks" and "index (ticks ! 0) \<le> tick"
  shows "\<exists>k. last_le ticks tick k"
proof -
  let ?w = "takeWhile (\<lambda>t. index t \<le> tick) ticks"
  have "ticks \<noteq> []" using assms(1) by (simp add: wf_ticks_def)
  then have "?w \<noteq> []" using assms(2) by (cases ticks) auto
  then obtain k where k: "length ?w = Suc k" by (cases "length ?w") auto
  then have "k < length ticks" using length_takeWhile_le [of "\<lambda>t. index t \<le> tick" ticks] by simp
  moreover have "index (ticks ! k) \<le> tick"
    using k nth_mem [of k ?w] by (metis lessI set_takeWhileD takeWhile_nth)
  moreover have "Suc k = length ticks \<or> tick < index (ticks ! Suc k)"
    using k nth_length_takeWhile [of "\<lambda>t. index t \<le> tick" ticks] length_takeWhile_le [of "\<lambda>t. index t \<le> tick" ticks]
    by (metis le_neq_implies_less not_le)
  ultimately show ?thesis by (auto simp: last_le_def)
qed

lemma last_le_greatest:
  assumes "wf_ticks ticks" and "last_le ticks tick k" and "j < length ticks"
  shows "index (ticks ! j) \<le> tick \<longleftrightarrow> j \<le> k"
proof
  assume "index (ticks ! j) \<le> tick"
  show "j \<le> k"
  proof (rule ccontr)
    assume "\<not> j \<le> k"
    then have "index (ticks ! Suc k) \<le> index (ticks ! j)" "Suc k \<noteq> length ticks"
      using wf_ticks_le_iff [OF assms(1), of "Suc k" j] assms(3) by auto
    then show False using assms(2) \<open>index (ticks ! j) \<le> tick\<close> by (simp add: last_le_def)
  qed
next
  assume "j \<le> k"
  then show "index (ticks ! j) \<le> tick"
    using wf_ticks_le_iff [OF assms(1), of j k] assms(2,3) by (auto simp: last_le_def)
qed

lemma search_round_spec:
  assumes "wf_ticks ticks" and "last_le ticks tick k" and "0 \<le> l" and "l \<le> int k" and "int k \<le> r" and "r < int (length ticks)"
  defines "i \<equiv> (l + r) div 2"
  shows "search_round ticks tick l r =
    (if i = int k then Inr (Inl i) else if i < int k then Inr (Inr (i + 1, r)) else Inr (Inr (l, i - 1)))"
proof -
  have i: "0 \<le> i" "i < int (length ticks)" using assms by auto
  then obtain j where j: "i = int j" "j < length ticks" by (metis nonneg_int_cases of_nat_less_iff)
  note le = last_le_greatest [OF assms(1,2)]
  have after: "bindS (tick_at ticks (int j + 1)) (\<lambda>tn. Inr (index tn > tick)) = Inr (\<not> Suc j \<le> k)" if "Suc j < length ticks"
    using that le [OF that] tick_at_nat [of "Suc j" ticks] by (auto simp: add.commute)
  have last: "k \<le> j" if "\<not> Suc j < length ticks" using that j assms(2) by (simp add: last_le_def)
  have lt: "index (ticks ! j) < tick" if "j < k"
    using wf_ticks_less [OF assms(1) that] assms(2) by (auto simp: last_le_def)
  show ?thesis
    unfolding search_round_def Let_def i_def [symmetric] j(1)
    using j(2) le [OF j(2)] after last lt by (cases "Suc j < length ticks"; cases j k rule: linorder_cases) auto
qed

lemma search_loop_finds:
  assumes "wf_ticks ticks" and "last_le ticks tick k"
  shows "0 \<le> l \<Longrightarrow> l \<le> int k \<Longrightarrow> int k \<le> r \<Longrightarrow> r < int (length ticks) \<Longrightarrow> search_loop ticks tick l r = Some (Inr (int k))"
proof (induction "nat (r - l)" arbitrary: l r rule: less_induct)
  case less
  let ?i = "(l + r) div 2"
  note round = search_round_spec [OF assms less.prems]
  consider "?i = int k" | "?i < int k" | "int k < ?i" by linarith
  then show ?case
  proof cases
    case 1
    then show ?thesis using round by (simp add: search_loop.simps)
  next
    case 2
    then have "search_loop ticks tick (?i + 1) r = Some (Inr (int k))" using less.prems by (intro less.hyps) linarith+
    then show ?thesis using 2 round by (subst search_loop.simps) simp
  next
    case 3
    then have "search_loop ticks tick l (?i - 1) = Some (Inr (int k))" using less.prems by (intro less.hyps) linarith+
    then show ?thesis using 3 round by (subst search_loop.simps) simp
  qed
qed

lemma binarySearch_finds:
  assumes "wf_ticks ticks" and "index (ticks ! 0) \<le> tick"
  shows "\<exists>k. binarySearch ticks tick = Some (Inr (int k)) \<and> last_le ticks tick k"
proof -
  obtain k where k: "last_le ticks tick k" using last_le_exists [OF assms] by auto
  then have "k < length ticks" by (simp add: last_le_def)
  then have "search_loop ticks tick 0 (int (length ticks) - 1) = Some (Inr (int k))"
    by (intro search_loop_finds [OF assms(1) k]) simp_all
  then show ?thesis using k assms by (auto simp: binarySearch_def isBelowSmallest_wf)
qed

lemma binarySearch_below:
  assumes "wf_ticks ticks" and "tick < index (ticks ! 0)"
  shows "binarySearch ticks tick = Some (Inl (Invariant ''BELOW_SMALLEST''))"
  using assms by (simp add: binarySearch_def isBelowSmallest_wf)

section \<open>The next initialized tick\<close>

lemma nextInitializedTick_down:
  assumes "wf_ticks ticks" and "index (ticks ! 0) \<le> tick"
  shows "\<exists>k. nextInitializedTick ticks tick True = Some (Inr (ticks ! k)) \<and> last_le ticks tick k"
proof (cases "index (ticks ! (length ticks - 1)) \<le> tick")
  case True
  have n: "length ticks - 1 < length ticks" using assms(1) by (simp add: wf_ticks_def)
  then have "int (length ticks) - 1 = int (length ticks - 1)" by linarith
  then have "tick_at ticks (int (length ticks) - 1) = Inr (ticks ! (length ticks - 1))" using tick_at_nat [OF n] by (simp only:)
  then show ?thesis
    using True n assms by (intro exI [of _ "length ticks - 1"])
      (auto simp: nextInitializedTick_def isBelowSmallest_wf isAtOrAboveLargest_wf last_le_def runS_def)
next
  case False
  then show ?thesis
    using binarySearch_finds [OF assms] assms
    by (auto simp: nextInitializedTick_def isBelowSmallest_wf isAtOrAboveLargest_wf last_le_def runS_def)
qed

lemma nextInitializedTick_up:
  assumes "wf_ticks ticks" and "tick < index (ticks ! (length ticks - 1))"
  shows "\<exists>k < length ticks. nextInitializedTick ticks tick False = Some (Inr (ticks ! k)) \<and> tick < index (ticks ! k)
    \<and> (\<forall>j < length ticks. tick < index (ticks ! j) \<longrightarrow> k \<le> j)"
proof (cases "tick < index (ticks ! 0)")
  case True
  have "0 < length ticks" using assms(1) by (simp add: wf_ticks_def)
  then show ?thesis
    using True assms tick_at_nat [of 0 ticks] by (intro exI [of _ 0])
      (simp add: nextInitializedTick_def isBelowSmallest_wf isAtOrAboveLargest_wf runS_def)
next
  case False
  then obtain k where k: "binarySearch ticks tick = Some (Inr (int k))" "last_le ticks tick k"
    using binarySearch_finds [OF assms(1), of tick] by auto
  note le = last_le_greatest [OF assms(1) k(2)]
  have "length ticks - 1 < length ticks" using assms(1) by (simp add: wf_ticks_def)
  then have "Suc k < length ticks" using le [of "length ticks - 1"] assms(2) by simp
  moreover have "tick_at ticks (int k + 1) = Inr (ticks ! Suc k)"
    using tick_at_nat [OF \<open>Suc k < length ticks\<close>] by (simp add: add.commute)
  then have "nextInitializedTick ticks tick False = Some (Inr (ticks ! Suc k))"
    using False assms k(1) by (simp add: nextInitializedTick_def isBelowSmallest_wf isAtOrAboveLargest_wf runS_def)
  moreover have "tick < index (ticks ! Suc k)" using le [OF \<open>Suc k < length ticks\<close>] by simp
  moreover have "Suc k \<le> j" if "j < length ticks" "tick < index (ticks ! j)" for j using le [OF that(1)] that(2) by simp
  ultimately show ?thesis by blast
qed

lemma int32_small: "\<bar>x\<bar> < 2 ^ 31 \<Longrightarrow> int32 x = x"
  by (simp add: int32_def signed_take_bit_int_eq_self)

text \<open>The bounds of the word around a tick.\<close>

lemma word_bounds:
  assumes "0 < spacing" and "\<bar>t\<bar> < 2 ^ 20"
  shows "int32 (push_bit 8 (drop_bit 8 (int32 (t div spacing)))) * spacing \<le> t"
    and "t < (int32 (push_bit 8 (drop_bit 8 (int32 (t div spacing + 1)) + 1)) - 1) * spacing"
proof -
  let ?c = "t div spacing"
  have c: "?c * spacing \<le> t" "t < (?c + 1) * spacing"
    using le_div_iff [OF assms(1), of ?c t] div_less_bound [OF assms(1), of t "?c + 1"] by simp_all
  have "- (2 ^ 20) * spacing \<le> - (2 ^ 20) * 1" using assms(1) by simp
  then have "- (2 ^ 20) * spacing \<le> t" using assms(2) by simp
  then have lo: "- (2 ^ 20) \<le> ?c" using le_div_iff [OF assms(1)] by blast
  have "(2 ^ 20 :: int) * 1 \<le> 2 ^ 20 * spacing" using assms(1) by simp
  then have "t < 2 ^ 20 * spacing" using assms(2) by simp
  then have hi: "?c < 2 ^ 20" using div_less_bound [OF assms(1)] by blast
  have small: "int32 ?c = ?c" "int32 (?c + 1) = ?c + 1" using lo hi by (simp_all add: int32_small)
  have w: "?c div 256 * 256 \<le> ?c" "?c + 1 < ((?c + 1) div 256 + 1) * 256"
    using le_div_iff [of 256 "?c div 256" ?c] div_less_bound [of 256 "?c + 1" "(?c + 1) div 256 + 1"] by simp_all
  have "int32 (push_bit 8 (drop_bit 8 ?c)) = ?c div 256 * 256"
    using lo hi by (subst int32_small) (simp_all add: push_bit_eq_mult drop_bit_eq_div, presburger?)
  then show "int32 (push_bit 8 (drop_bit 8 (int32 ?c))) * spacing \<le> t"
    using c(1) order_trans [OF mult_right_mono [OF w(1), of spacing]] assms(1) unfolding small by simp
  have "int32 (push_bit 8 (drop_bit 8 (?c + 1) + 1)) = ((?c + 1) div 256 + 1) * 256"
    using lo hi by (subst int32_small) (simp_all add: push_bit_eq_mult drop_bit_eq_div, presburger?)
  moreover have "(?c + 1) * spacing \<le> (((?c + 1) div 256 + 1) * 256 - 1) * spacing"
    using w(2) assms(1) by (intro mult_right_mono) simp_all
  ultimately show "t < (int32 (push_bit 8 (drop_bit 8 (int32 (?c + 1)) + 1)) - 1) * spacing"
    using c(2) unfolding small by simp
qed

lemma within_word_down:
  assumes "wf_ticks ticks" and "0 < spacing" and "\<bar>t\<bar> < 2 ^ 20"
  shows "\<exists>n b. TickList_nextInitializedTickWithinOneWord ticks t True spacing = Some (Inr (n, b)) \<and> n \<le> t
    \<and> (\<forall>u \<in> tick_indices ticks. u \<le> t \<longrightarrow> u \<le> n) \<and> (b \<longleftrightarrow> n \<in> tick_indices ticks)"
proof -
  let ?m = "int32 (push_bit 8 (drop_bit 8 (int32 (t div spacing)))) * spacing"
  have m: "?m \<le> t" using word_bounds(1) [OF assms(2,3)] .
  show ?thesis
  proof (cases "t < index (ticks ! 0)")
    case True
    have above: "t < index (ticks ! k)" if "k < length ticks" for k
      using wf_ticks_le_iff [OF assms(1), of 0 k] that True by fastforce
    then have "?m \<notin> tick_indices ticks" using m by (fastforce simp: tick_indices_iff)
    then show ?thesis
      using True m above assms(1) unfolding TickList_nextInitializedTickWithinOneWord_def Let_def
      by (fastforce simp: isBelowSmallest_wf tick_indices_iff)
  next
    case False
    then obtain k where k: "nextInitializedTick ticks t True = Some (Inr (ticks ! k))" "last_le ticks t k"
      using nextInitializedTick_down [OF assms(1), of t] by auto
    have greatest: "u \<le> index (ticks ! k)" if "u \<in> tick_indices ticks" "u \<le> t" for u
      using that last_le_greatest [OF assms(1) k(2)] wf_ticks_le_iff [OF assms(1)] k(2)
      by (auto simp: tick_indices_iff last_le_def)
    have "index (ticks ! k) \<in> tick_indices ticks" using k(2) by (auto simp: tick_indices_iff last_le_def)
    moreover have "?m \<notin> tick_indices ticks" if "index (ticks ! k) < ?m" using greatest [of ?m] m that by auto
    ultimately show ?thesis
      using False m k assms(1) greatest unfolding TickList_nextInitializedTickWithinOneWord_def Let_def
      by (fastforce simp: isBelowSmallest_wf last_le_def max_def)
  qed
qed

lemma within_word_up:
  assumes "wf_ticks ticks" and "0 < spacing" and "\<bar>t\<bar> < 2 ^ 20"
  shows "\<exists>n b. TickList_nextInitializedTickWithinOneWord ticks t False spacing = Some (Inr (n, b)) \<and> t < n
    \<and> (\<forall>u \<in> tick_indices ticks. t < u \<longrightarrow> n \<le> u) \<and> (b \<longleftrightarrow> n \<in> tick_indices ticks)"
proof -
  let ?m = "(int32 (push_bit 8 (drop_bit 8 (int32 (t div spacing + 1)) + 1)) - 1) * spacing"
  have m: "t < ?m" using word_bounds(2) [OF assms(2,3)] .
  have last: "length ticks - 1 < length ticks" using assms(1) by (simp add: wf_ticks_def)
  show ?thesis
  proof (cases "index (ticks ! (length ticks - 1)) \<le> t")
    case True
    have below: "index (ticks ! k) \<le> t" if "k < length ticks" for k
      using wf_ticks_le_iff [OF assms(1), of k "length ticks - 1"] that True last by fastforce
    then have "?m \<notin> tick_indices ticks" using m by (fastforce simp: tick_indices_iff)
    then show ?thesis
      using True m below assms(1) unfolding TickList_nextInitializedTickWithinOneWord_def Let_def
      by (fastforce simp: isAtOrAboveLargest_wf tick_indices_iff)
  next
    case False
    then obtain k where k: "k < length ticks" "nextInitializedTick ticks t False = Some (Inr (ticks ! k))" "t < index (ticks ! k)"
      and least: "\<forall>j < length ticks. t < index (ticks ! j) \<longrightarrow> k \<le> j"
      using nextInitializedTick_up [OF assms(1), of t] by auto
    have least': "index (ticks ! k) \<le> u" if "u \<in> tick_indices ticks" "t < u" for u
      using that least wf_ticks_le_iff [OF assms(1) k(1)] by (auto simp: tick_indices_iff)
    have "index (ticks ! k) \<in> tick_indices ticks" using k(1) by (auto simp: tick_indices_iff)
    moreover have "?m \<notin> tick_indices ticks" if "?m < index (ticks ! k)" using least' [of ?m] m that by auto
    ultimately show ?thesis
      using False m k assms(1) least' unfolding TickList_nextInitializedTickWithinOneWord_def Let_def
      by (fastforce simp: isAtOrAboveLargest_wf min_def)
  qed
qed

lemma getTick_found:
  assumes "wf_ticks ticks" and "u \<in> tick_indices ticks"
  shows "\<exists>t. TickList_getTick ticks u = Some (Inr t) \<and> t \<in> set ticks \<and> index t = u \<and> liquidityNet t = tick_net ticks u"
proof -
  obtain j where j: "j < length ticks" "index (ticks ! j) = u" using assms(2) by (auto simp: tick_indices_iff)
  then have "index (ticks ! 0) \<le> u" using wf_ticks_le_iff [OF assms(1), of 0 j] by fastforce
  then obtain k where k: "binarySearch ticks u = Some (Inr (int k))" "last_le ticks u k"
    using binarySearch_finds [OF assms(1)] by auto
  then have "k < length ticks" "j \<le> k" "index (ticks ! k) \<le> index (ticks ! j)"
    using last_le_greatest [OF assms(1) k(2) j(1)] j by (auto simp: last_le_def)
  then have "k = j" using wf_ticks_le_iff [OF assms(1), of k j] j by simp
  then show ?thesis using k j tick_net_nth [OF assms(1) j(1)] by (auto simp: TickList_getTick_def runS_def)
qed

lemma getTick_missing:
  assumes "wf_ticks ticks" and "u \<notin> tick_indices ticks" and "index (ticks ! 0) \<le> u"
  shows "TickList_getTick ticks u = Some (Inl (Invariant ''NOT_CONTAINED''))"
proof -
  obtain k where k: "binarySearch ticks u = Some (Inr (int k))" "last_le ticks u k"
    using binarySearch_finds [OF assms(1,3)] by auto
  then have "index (ticks ! k) \<noteq> u" "k < length ticks" using assms(2) by (auto simp: last_le_def tick_indices_iff)
  then show ?thesis using k by (simp add: TickList_getTick_def runS_def)
qed

section \<open>What a swap relies on\<close>

locale tick_provider =
  fixes provider :: "'s \<Rightarrow> TickDataProvider"
    and invar :: "'s \<Rightarrow> bool"
    and indices :: "'s \<Rightarrow> int set"
    and net :: "'s \<Rightarrow> int \<Rightarrow> int"
  assumes finite_indices: "finite (indices s)"
    and indices_range: "invar s \<Longrightarrow> u \<in> indices s \<Longrightarrow> MIN_TICK \<le> u \<and> u \<le> MAX_TICK"
    and getTick_law: "invar s \<Longrightarrow> u \<in> indices s \<Longrightarrow> provider_getTick (provider s) u = Some (Inr (net s u))"
    and next_down: "invar s \<Longrightarrow> 0 < spacing \<Longrightarrow> \<bar>t\<bar> < 2 ^ 20 \<Longrightarrow>
      \<exists>n b. provider_nextInitializedTickWithinOneWord (provider s) t True spacing = Some (Inr (n, b)) \<and> n \<le> t
        \<and> (\<forall>u \<in> indices s. u \<le> t \<longrightarrow> u \<le> n) \<and> (b \<longleftrightarrow> n \<in> indices s)"
    and next_up: "invar s \<Longrightarrow> 0 < spacing \<Longrightarrow> \<bar>t\<bar> < 2 ^ 20 \<Longrightarrow>
      \<exists>n b. provider_nextInitializedTickWithinOneWord (provider s) t False spacing = Some (Inr (n, b)) \<and> t < n
        \<and> (\<forall>u \<in> indices s. t < u \<longrightarrow> n \<le> u) \<and> (b \<longleftrightarrow> n \<in> indices s)"
begin

text \<open>The liquidity in range at a tick: the net liquidity of the initialized ticks up to it.\<close>

definition liquidity_at :: "'s \<Rightarrow> int \<Rightarrow> int" where
  "liquidity_at s t = (\<Sum>u \<in> {u \<in> indices s. u \<le> t}. net s u)"

lemma liquidity_at_same:
  assumes "t \<le> t'" and "\<And>u. u \<in> indices s \<Longrightarrow> \<not> (t < u \<and> u \<le> t')"
  shows "liquidity_at s t' = liquidity_at s t"
  unfolding liquidity_at_def by (rule sum.cong) (use assms in \<open>auto simp: not_less\<close>)

lemma liquidity_at_cross:
  assumes "n \<in> indices s"
  shows "liquidity_at s n = liquidity_at s (n - 1) + net s n"
proof -
  have "{u \<in> indices s. u \<le> n} = insert n {u \<in> indices s. u \<le> n - 1}" using assms by auto
  then show ?thesis
    unfolding liquidity_at_def using finite_indices [of s] by (simp add: add.commute)
qed

lemma liquidity_at_skip:
  assumes "n \<notin> indices s"
  shows "liquidity_at s n = liquidity_at s (n - 1)"
proof (rule liquidity_at_same)
  fix u assume "u \<in> indices s"
  then have "u \<noteq> n" using assms by auto
  then show "\<not> (n - 1 < u \<and> u \<le> n)" by linarith
qed simp

end

interpretation tick_list: tick_provider TickListDataProvider wf_ticks tick_indices tick_net
proof
  fix ticks u
  show "finite (tick_indices ticks)" by (simp add: tick_indices_def)
  assume wf: "wf_ticks ticks"
  show "MIN_TICK \<le> u \<and> u \<le> MAX_TICK" if "u \<in> tick_indices ticks"
    using that wf by (auto simp: tick_indices_def wf_ticks_def list_all_iff)
  show "provider_getTick (TickListDataProvider ticks) u = Some (Inr (tick_net ticks u))" if "u \<in> tick_indices ticks"
    using getTick_found [OF wf that] by (auto simp: TickListDataProvider_def)
next
  fix ticks and spacing t :: int
  assume wf: "wf_ticks ticks" and t: "0 < spacing" "\<bar>t\<bar> < 2 ^ 20"
  show "\<exists>n b. provider_nextInitializedTickWithinOneWord (TickListDataProvider ticks) t True spacing = Some (Inr (n, b)) \<and> n \<le> t
      \<and> (\<forall>u \<in> tick_indices ticks. u \<le> t \<longrightarrow> u \<le> n) \<and> (b \<longleftrightarrow> n \<in> tick_indices ticks)"
    using within_word_down [OF wf t] by (simp add: TickListDataProvider_def)
  show "\<exists>n b. provider_nextInitializedTickWithinOneWord (TickListDataProvider ticks) t False spacing = Some (Inr (n, b)) \<and> t < n
      \<and> (\<forall>u \<in> tick_indices ticks. t < u \<longrightarrow> n \<le> u) \<and> (b \<longleftrightarrow> n \<in> tick_indices ticks)"
    using within_word_up [OF wf t] by (simp add: TickListDataProvider_def)
qed

end
