(* ===== verification/V3Pool.thy ===== *)
theory V3Pool
  imports V3TickProvider
begin

text \<open>
  The V3 pool: its deployment tables and address (\<^verbatim>\<open>v3-sdk/src/constants.ts\<close>,
  \<^verbatim>\<open>utils/computePoolAddress.ts\<close>), the class \<^verbatim>\<open>Pool\<close> (\<^verbatim>\<open>entities/pool.ts\<close>) with its
  swap loop.  The tick data
  provider of a pool is a record of two functions.  The swap loop has no bound of its own and
  asks the provider in every round, so a swap is a computation that may not return; what makes it
  return is shown in \<open>V3Swap\<close>.
\<close>

section \<open>Constants\<close>

definition V3_FACTORY_ADDRESS :: string where
  "V3_FACTORY_ADDRESS = ''0x0BFbCF9fa4f9C56B0F40a671Ad40E0805A091865''"

definition FACTORY_ADDRESSES :: "int \<Rightarrow> string option" where
  "FACTORY_ADDRESSES = map_of
     [(1, V3_FACTORY_ADDRESS),
      (5, V3_FACTORY_ADDRESS),
      (56, V3_FACTORY_ADDRESS),
      (97, V3_FACTORY_ADDRESS),
      (42161, V3_FACTORY_ADDRESS),
      (421613, ''0xBA40c83026213F9cbc79998752721a0312bdB74a''),
      (324, ''0x1BB72E0CbbEA93c08f535fc7856E0338D7F7a8aB''),
      (280, ''0x48e6Bc3f2546E63908cd09b04E2B3f78e57B6292''),
      (59144, V3_FACTORY_ADDRESS),
      (59140, ''0x02a84c1b3BBD7401a5f7fa98a384EBC70bB5749E''),
      (204, V3_FACTORY_ADDRESS),
      (5611, ''0x0F81fD8DaC20A21029B496D8F8E08385201B8ca0''),
      (8453, V3_FACTORY_ADDRESS),
      (84531, ''0x618f16159d489AA7761168F0200b7705dee9e2C0''),
      (534351, ''0x5A6919Dfd2C761788608b0D1bd1239961ADCB08B''),
      (11155111, V3_FACTORY_ADDRESS),
      (84532, V3_FACTORY_ADDRESS),
      (421614, V3_FACTORY_ADDRESS),
      (143, V3_FACTORY_ADDRESS),
      (10143, ''0x3b7838D96Fc18AD1972aFa17574686be79C50040'')]"

definition DEPLOYER_ADDRESS :: string where
  "DEPLOYER_ADDRESS = ''0x41ff9AA7e16B8B1a8a8dc4f0eFacd93D02d071c9''"

definition DEPLOYER_ADDRESSES :: "int \<Rightarrow> string option" where
  "DEPLOYER_ADDRESSES = map_of
     [(1, DEPLOYER_ADDRESS),
      (5, DEPLOYER_ADDRESS),
      (56, DEPLOYER_ADDRESS),
      (97, DEPLOYER_ADDRESS),
      (42161, DEPLOYER_ADDRESS),
      (421613, ''0xbC465fbf687e4184103b67Ed86557A8155FA4343''),
      (324, ''0x7f71382044A6a62595D5D357fE75CA8199123aD6''),
      (280, ''0xaC20647b8e9d1C4cb199104485518c136817b380''),
      (59144, DEPLOYER_ADDRESS),
      (59140, ''0xdAecee3C08e953Bd5f89A5Cc90ac560413d709E3''),
      (204, DEPLOYER_ADDRESS),
      (5611, ''0xD55CAFAB2Ffa1139Be46bc5C0b8259c620050dFC''),
      (8453, DEPLOYER_ADDRESS),
      (84531, ''0x5A6919Dfd2C761788608b0D1bd1239961ADCB08B''),
      (534351, ''0xC259d1D3476558630d83b0b60c105ae958382792''),
      (11155111, DEPLOYER_ADDRESS),
      (84532, DEPLOYER_ADDRESS),
      (421614, DEPLOYER_ADDRESS),
      (143, DEPLOYER_ADDRESS),
      (10143, ''0x2c63B2dC63D7e1f47294a0902da68B5E80f0d604'')]"

definition POOL_INIT_CODE_HASH :: string where
  "POOL_INIT_CODE_HASH = ''0x6ce8eb472fa82df5469c6ab6d485f17c3ad13c8cd7af59b3d4a8026c5ce0f7e2''"

definition POOL_INIT_CODE_HASHES :: "int \<Rightarrow> string option" where
  "POOL_INIT_CODE_HASHES = map_of
     [(1, POOL_INIT_CODE_HASH),
      (5, POOL_INIT_CODE_HASH),
      (56, POOL_INIT_CODE_HASH),
      (97, POOL_INIT_CODE_HASH),
      (42161, POOL_INIT_CODE_HASH),
      (421613, POOL_INIT_CODE_HASH),
      (324, ''0x01001487a7c45b21c52a0bc0558bf48d897d14792f1d0cc82733c8271d069178''),
      (280, ''0x01001487a7c45b21c52a0bc0558bf48d897d14792f1d0cc82733c8271d069178''),
      (59144, POOL_INIT_CODE_HASH),
      (59140, POOL_INIT_CODE_HASH),
      (204, POOL_INIT_CODE_HASH),
      (5611, POOL_INIT_CODE_HASH),
      (8453, POOL_INIT_CODE_HASH),
      (84531, POOL_INIT_CODE_HASH),
      (534351, POOL_INIT_CODE_HASH),
      (11155111, POOL_INIT_CODE_HASH),
      (421614, POOL_INIT_CODE_HASH),
      (84532, POOL_INIT_CODE_HASH),
      (143, POOL_INIT_CODE_HASH),
      (10143, ''0x6ce8eb472fa82df5469c6ab6d485f17c3ad13c8cd7af59b3d4a8026c5ce0f7e2'')]"

definition NFT_POSITION_MANAGER_ADDRESS :: string where
  "NFT_POSITION_MANAGER_ADDRESS = ''0x46A15B0b27311cedF172AB29E4f4766fbE7F4364''"

definition NFT_POSITION_MANAGER_ADDRESSES :: "int \<Rightarrow> string option" where
  "NFT_POSITION_MANAGER_ADDRESSES = map_of
     [(1, NFT_POSITION_MANAGER_ADDRESS),
      (5, ''0x427bF5b37357632377eCbEC9de3626C71A5396c1''),
      (56, NFT_POSITION_MANAGER_ADDRESS),
      (97, ''0x427bF5b37357632377eCbEC9de3626C71A5396c1''),
      (280, ''0xF84697CfE7c88F846e4ba5dAe14A6A8f67deF5c2''),
      (324, ''0xa815e2eD7f7d5B0c49fda367F249232a1B9D2883''),
      (42161, NFT_POSITION_MANAGER_ADDRESS),
      (59144, NFT_POSITION_MANAGER_ADDRESS),
      (59140, ''0xacFa791C833120c769Fd3066c940B7D30Cd8BC73''),
      (421613, ''0xb10120961f7504766976A89E29802Fa00553da5b''),
      (204, NFT_POSITION_MANAGER_ADDRESS),
      (5611, ''0x9d4277f1D41CCB30C0e91f7d1bBA2A739E19032C''),
      (8453, NFT_POSITION_MANAGER_ADDRESS),
      (84531, ''0x0F81fD8DaC20A21029B496D8F8E08385201B8ca0''),
      (534351, ''0x0F81fD8DaC20A21029B496D8F8E08385201B8ca0''),
      (11155111, NFT_POSITION_MANAGER_ADDRESS),
      (421614, NFT_POSITION_MANAGER_ADDRESS),
      (84532, NFT_POSITION_MANAGER_ADDRESS),
      (143, NFT_POSITION_MANAGER_ADDRESS),
      (10143, ''0x075A0Ba7bc4cdFBBdc9d8De5f228C834246e5AFc'')]"

datatype FeeAmount = LOWEST | LOW | MEDIUM | HIGH

fun fee_value :: "FeeAmount \<Rightarrow> int" where
  "fee_value LOWEST = 100"
| "fee_value LOW = 500"
| "fee_value MEDIUM = 2500"
| "fee_value HIGH = 10000"

fun TICK_SPACINGS :: "FeeAmount \<Rightarrow> int" where
  "TICK_SPACINGS LOWEST = 1"
| "TICK_SPACINGS LOW = 10"
| "TICK_SPACINGS MEDIUM = 50"
| "TICK_SPACINGS HIGH = 200"

section \<open>The address of a pool\<close>

text \<open>\<^verbatim>\<open>encodeAbiParameters\<close> of two addresses and a fee is one more function of \<^verbatim>\<open>viem\<close>.\<close>

record V3Env = DexEnv +
  viem_encodePoolKey :: "string \<Rightarrow> string \<Rightarrow> int \<Rightarrow> string"

definition computePoolAddress ::
  "V3Env \<Rightarrow> string option \<Rightarrow> Token \<Rightarrow> Token \<Rightarrow> FeeAmount \<Rightarrow> string option \<Rightarrow> js_error + string" where
  "computePoolAddress env deployerAddress tokenA tokenB fee initCodeHashManualOverride =
     bindS (sortsBefore tokenA tokenB) (\<lambda>before.
       let (token0, token1) = (if before then (tokenA, tokenB) else (tokenB, tokenA));
           salt = viem_keccakHex env (viem_encodePoolKey env (address token0) (address token1) (fee_value fee));
           hash = (case initCodeHashManualOverride of
                     Some h \<Rightarrow> Some h | None \<Rightarrow> POOL_INIT_CODE_HASHES (chainId token0)) in
       if chainId token0 = 324 \<or> chainId token0 = 280
       then (case (deployerAddress, hash) of
               (Some d, Some h) \<Rightarrow> getCreate2AddressZkSync (DexEnv.truncate env) d salt h
             | _ \<Rightarrow> Inl TypeError)
       else getCreate2Address (DexEnv.truncate env) deployerAddress salt hash)"

definition Pool_getAddress ::
  "V3Env \<Rightarrow> Token \<Rightarrow> Token \<Rightarrow> FeeAmount \<Rightarrow> string option \<Rightarrow> string option \<Rightarrow> js_error + string" where
  "Pool_getAddress env tokenA tokenB fee initCodeHashManualOverride deployerAddressOverride =
     computePoolAddress env
       (case deployerAddressOverride of Some d \<Rightarrow> Some d | None \<Rightarrow> DEPLOYER_ADDRESSES (chainId tokenA))
       tokenA tokenB fee initCodeHashManualOverride"

section \<open>Class \<open>Pool\<close>\<close>

record Pool =
  poolToken0 :: Token
  poolToken1 :: Token
  poolFee :: FeeAmount
  poolSqrtRatioX96 :: int
  poolLiquidity :: int
  poolTickCurrent :: int
  poolTickDataProvider :: TickDataProvider

text \<open>The ticks of a new pool: a provider, a list of ticks or of the arguments of their constructor, or neither.\<close>

datatype TickOrArgs = TickInstance Tick | TickConstructorArgs int int int

datatype PoolTicks = NoTicks | Provider TickDataProvider | TickList "TickOrArgs list"

text \<open>\<^verbatim>\<open>t instanceof Tick ? t : new Tick(t)\<close>: only the arguments are checked.\<close>

definition as_Tick :: "TickOrArgs \<Rightarrow> js_error + Tick" where
  "as_Tick t = (case t of TickInstance x \<Rightarrow> Inr x | TickConstructorArgs i gross net \<Rightarrow> new_Tick i gross net)"

definition provider_of :: "PoolTicks \<Rightarrow> js_error + TickDataProvider" where
  "provider_of ticks =
     (case ticks of
        NoTicks \<Rightarrow> Inr NoTickDataProvider
      | Provider p \<Rightarrow> Inr p
      | TickList ts \<Rightarrow> bindS (mapS as_Tick ts) (\<lambda>mapped. Inr (TickListDataProvider mapped)))"

definition new_Pool :: "Token \<Rightarrow> Token \<Rightarrow> FeeAmount \<Rightarrow> int \<Rightarrow> int \<Rightarrow> int \<Rightarrow> PoolTicks \<Rightarrow> js_error + Pool" where
  "new_Pool tokenA tokenB fee sqrtRatio liquidity tick ticks =
     invariantS (fee_value fee < 1000000) ''FEE''
       (bindS (sortsBefore tokenA tokenB) (\<lambda>before.
          let (token0, token1) = (if before then (tokenA, tokenB) else (tokenB, tokenA)) in
          bindS (provider_of ticks) (\<lambda>provider.
            Inr \<lparr>poolToken0 = token0, poolToken1 = token1, poolFee = fee, poolSqrtRatioX96 = sqrtRatio,
                 poolLiquidity = liquidity, poolTickCurrent = tick, poolTickDataProvider = provider\<rparr>)))"

definition Pool_involvesToken :: "Pool \<Rightarrow> Token \<Rightarrow> bool" where
  "Pool_involvesToken pool token \<longleftrightarrow> Token_equals token (poolToken0 pool) \<or> Token_equals token (poolToken1 pool)"

definition Pool_token0Price :: "Pool \<Rightarrow> Price" where
  "Pool_token0Price pool =
     new_Price (ERC20 (poolToken0 pool)) (ERC20 (poolToken1 pool)) Q192 (poolSqrtRatioX96 pool * poolSqrtRatioX96 pool)"

definition Pool_token1Price :: "Pool \<Rightarrow> Price" where
  "Pool_token1Price pool =
     new_Price (ERC20 (poolToken1 pool)) (ERC20 (poolToken0 pool)) (poolSqrtRatioX96 pool * poolSqrtRatioX96 pool) Q192"

definition Pool_priceOf :: "Pool \<Rightarrow> Token \<Rightarrow> js_error + Price" where
  "Pool_priceOf pool token =
     invariantS (Pool_involvesToken pool token) ''TOKEN''
       (Inr (if Token_equals token (poolToken0 pool) then Pool_token0Price pool else Pool_token1Price pool))"

definition Pool_chainId :: "Pool \<Rightarrow> int" where
  "Pool_chainId pool = chainId (poolToken0 pool)"

definition Pool_tickSpacing :: "Pool \<Rightarrow> int" where
  "Pool_tickSpacing pool = TICK_SPACINGS (poolFee pool)"

subsection \<open>The swap loop\<close>

record SwapState =
  amountSpecifiedRemaining :: int
  amountCalculated :: int
  sqrtPriceX96 :: int
  tick :: int
  liquidity :: int

text \<open>One round: the next tick, the step toward its price or the limit, and the transition.\<close>

definition swap_round :: "TickDataProvider \<Rightarrow> int \<Rightarrow> int \<Rightarrow> bool \<Rightarrow> bool \<Rightarrow> int \<Rightarrow> SwapState \<Rightarrow> SwapState run" where
  "swap_round provider spacing fee exactInput zeroForOne limit st =
     bindR (provider_nextInitializedTickWithinOneWord provider (tick st) zeroForOne spacing) (\<lambda>(found, initialized).
     let tickNext = (if found < MIN_TICK then MIN_TICK else if found > MAX_TICK then MAX_TICK else found) in
     bindR (runS (getSqrtRatioAtTick tickNext)) (\<lambda>sqrtPriceNextX96.
     bindR (runS (computeSwapStep (sqrtPriceX96 st)
              (if (if zeroForOne then sqrtPriceNextX96 < limit else sqrtPriceNextX96 > limit)
               then limit else sqrtPriceNextX96)
              (liquidity st) (amountSpecifiedRemaining st) fee)) (\<lambda>step.
     let st1 = (if exactInput
                then st\<lparr>amountSpecifiedRemaining := amountSpecifiedRemaining st - (amountIn step + feeAmount step),
                        amountCalculated := amountCalculated st - amountOut step,
                        sqrtPriceX96 := sqrtRatioNextX96 step\<rparr>
                else st\<lparr>amountSpecifiedRemaining := amountSpecifiedRemaining st + amountOut step,
                        amountCalculated := amountCalculated st + (amountIn step + feeAmount step),
                        sqrtPriceX96 := sqrtRatioNextX96 step\<rparr>) in
     if sqrtPriceX96 st1 = sqrtPriceNextX96 then
       bindR (if initialized
              then bindR (provider_getTick provider tickNext) (\<lambda>net.
                     let liquidityNet = (if zeroForOne then net * (- 1) else net) in
                     Some (Inr (addDelta (liquidity st1) liquidityNet)))
              else Some (Inr (liquidity st1))) (\<lambda>L.
         Some (Inr (st1\<lparr>liquidity := L, tick := (if zeroForOne then tickNext - 1 else tickNext)\<rparr>)))
     else if sqrtPriceX96 st1 \<noteq> sqrtPriceX96 st then
       bindR (runS (getTickAtSqrtRatio (sqrtPriceX96 st1))) (\<lambda>t. Some (Inr (st1\<lparr>tick := t\<rparr>)))
     else Some (Inr st1))))"

partial_function (option) swap_loop ::
  "TickDataProvider \<Rightarrow> int \<Rightarrow> int \<Rightarrow> bool \<Rightarrow> bool \<Rightarrow> int \<Rightarrow> SwapState \<Rightarrow> SwapState run" where
  "swap_loop provider spacing fee exactInput zeroForOne limit st =
     (if amountSpecifiedRemaining st \<noteq> 0 \<and> sqrtPriceX96 st \<noteq> limit
      then (case swap_round provider spacing fee exactInput zeroForOne limit st of
              None \<Rightarrow> None
            | Some (Inl e) \<Rightarrow> Some (Inl e)
            | Some (Inr st') \<Rightarrow> swap_loop provider spacing fee exactInput zeroForOne limit st')
      else Some (Inr st))"

declare swap_loop.simps [code]

text \<open>The price limit: an absent or zero one is the widest, and the checks on it.\<close>

definition swap_limit :: "bool \<Rightarrow> int option \<Rightarrow> int" where
  "swap_limit zeroForOne limit =
     (case limit of
        Some l \<Rightarrow> if l \<noteq> 0 then l else if zeroForOne then MIN_SQRT_RATIO + 1 else MAX_SQRT_RATIO - 1
      | None \<Rightarrow> if zeroForOne then MIN_SQRT_RATIO + 1 else MAX_SQRT_RATIO - 1)"

definition check_limit :: "bool \<Rightarrow> int \<Rightarrow> int \<Rightarrow> 'a run \<Rightarrow> 'a run" where
  "check_limit zeroForOne limit price k =
     (if zeroForOne
      then invariantR (limit > MIN_SQRT_RATIO) ''RATIO_MIN'' (invariantR (limit < price) ''RATIO_CURRENT'' k)
      else invariantR (limit < MAX_SQRT_RATIO) ''RATIO_MAX'' (invariantR (limit > price) ''RATIO_CURRENT'' k))"

definition Pool_swap :: "Pool \<Rightarrow> bool \<Rightarrow> int \<Rightarrow> int option \<Rightarrow> SwapState run" where
  "Pool_swap pool zeroForOne amountSpecified sqrtPriceLimitX96 =
     (let limit = swap_limit zeroForOne sqrtPriceLimitX96 in
      check_limit zeroForOne limit (poolSqrtRatioX96 pool)
        (swap_loop (poolTickDataProvider pool) (Pool_tickSpacing pool) (fee_value (poolFee pool))
           (amountSpecified \<ge> 0) zeroForOne limit
           \<lparr>amountSpecifiedRemaining = amountSpecified, amountCalculated = 0,
            sqrtPriceX96 = poolSqrtRatioX96 pool, tick = poolTickCurrent pool, liquidity = poolLiquidity pool\<rparr>))"

text \<open>The pool after a swap: the constructor is called with the state the swap left.\<close>

definition pool_after :: "Pool \<Rightarrow> SwapState \<Rightarrow> js_error + Pool" where
  "pool_after pool st =
     new_Pool (poolToken0 pool) (poolToken1 pool) (poolFee pool) (sqrtPriceX96 st) (liquidity st) (tick st)
       (Provider (poolTickDataProvider pool))"

definition Pool_getOutputAmount :: "Pool \<Rightarrow> CurrencyAmount \<Rightarrow> int option \<Rightarrow> (CurrencyAmount \<times> Pool) run" where
  "Pool_getOutputAmount pool inputAmount limit =
     (case currency inputAmount of Native n \<Rightarrow> Some (Inl (Invariant ''TOKEN'')) | ERC20 token \<Rightarrow>
     invariantR (Pool_involvesToken pool token) ''TOKEN''
       (let zeroForOne = Token_equals token (poolToken0 pool) in
        bindR (runS (quotient inputAmount)) (\<lambda>amount.
        bindR (Pool_swap pool zeroForOne amount limit) (\<lambda>st.
        let outputToken = (if zeroForOne then poolToken1 pool else poolToken0 pool) in
        bindR (runS (fromRawAmount (ERC20 outputToken) (amountCalculated st * (- 1)))) (\<lambda>out.
        bindR (runS (pool_after pool st)) (\<lambda>pool'.
          Some (Inr (out, pool'))))))))"

text \<open>A native currency equals no token of the pool.\<close>

definition Pool_getInputAmount :: "Pool \<Rightarrow> CurrencyAmount \<Rightarrow> int option \<Rightarrow> (CurrencyAmount \<times> Pool) run" where
  "Pool_getInputAmount pool outputAmount limit =
     (case currency outputAmount of Native n \<Rightarrow> Some (Inl (Invariant ''TOKEN'')) | ERC20 token \<Rightarrow>
        invariantR (Pool_involvesToken pool token) ''TOKEN''
          (let zeroForOne = Token_equals token (poolToken1 pool) in
           bindR (runS (quotient outputAmount)) (\<lambda>amount.
           bindR (Pool_swap pool zeroForOne (amount * (- 1)) limit) (\<lambda>st.
           let inputToken = (if zeroForOne then poolToken0 pool else poolToken1 pool) in
           bindR (runS (fromRawAmount (ERC20 inputToken) (amountCalculated st))) (\<lambda>inp.
           bindR (runS (pool_after pool st)) (\<lambda>pool'.
             Some (Inr (inp, pool'))))))))"

definition Pool_getInputAmountByExactOut :: "Pool \<Rightarrow> CurrencyAmount \<Rightarrow> int option \<Rightarrow> (CurrencyAmount \<times> Pool) run" where
  "Pool_getInputAmountByExactOut pool outputAmount limit =
     (case currency outputAmount of Native n \<Rightarrow> Some (Inl (Invariant ''TOKEN'')) | ERC20 token \<Rightarrow>
        invariantR (Pool_involvesToken pool token) ''TOKEN''
          (let zeroForOne = Token_equals token (poolToken1 pool) in
           bindR (runS (quotient outputAmount)) (\<lambda>amount.
           bindR (Pool_swap pool zeroForOne (amount * (- 1)) limit) (\<lambda>st.
           invariantR (amountSpecifiedRemaining st = 0) ''INSUFFICIENT_LIQUIDITY''
             (let inputToken = (if zeroForOne then poolToken0 pool else poolToken1 pool) in
              bindR (runS (fromRawAmount (ERC20 inputToken) (amountCalculated st))) (\<lambda>inp.
              bindR (runS (pool_after pool st)) (\<lambda>pool'.
                Some (Inr (inp, pool')))))))))"

end
