(* ===== verification/V3SwapStep.thy ===== *)
theory V3SwapStep
  imports V3Math
begin

text \<open>
  What one step of a V3 swap computes: the amounts for a move of the price within constant
  liquidity, rounded against the trader; the price an amount moves to; and that the step stops at
  its target or has used the amount up, never both overshooting.
\<close>

section \<open>Amounts for a move of the price\<close>

text \<open>
  What a move from \<open>p\<close> to \<open>n\<close> takes in, rounded up, and gives out, rounded down; downward moves
  (token 0 for token 1) when \<open>z\<close>.
\<close>

definition in_up :: "bool \<Rightarrow> int \<Rightarrow> int \<Rightarrow> int \<Rightarrow> int" where
  "in_up z p n L = (if z then cdiv (L * Q96 * (p - n)) (p * n) else cdiv (L * (n - p)) Q96)"

definition out_down :: "bool \<Rightarrow> int \<Rightarrow> int \<Rightarrow> int \<Rightarrow> int" where
  "out_down z p n L = (if z then L * (p - n) div Q96 else L * Q96 * (n - p) div (n * p))"

text \<open>\<open>n\<close> lies between the current price and the target, in the direction of the move.\<close>

definition toward :: "bool \<Rightarrow> int \<Rightarrow> int \<Rightarrow> int \<Rightarrow> bool" where
  "toward z p t n \<longleftrightarrow> (if z then t \<le> n \<and> n \<le> p else p \<le> n \<and> n \<le> t)"

lemma getAmount0Delta_eval:
  assumes "0 < a" and "a \<le> b" and "0 \<le> L"
  shows "getAmount0Delta a b L True = Inr (cdiv (L * Q96 * (b - a)) (b * a))"
    and "getAmount0Delta a b L False = Inr (L * Q96 * (b - a) div (b * a))"
proof -
  have "0 \<le> cdiv (L * Q96 * (b - a)) b" using assms by (intro cdiv_nonneg) simp_all
  then show "getAmount0Delta a b L True = Inr (cdiv (L * Q96 * (b - a)) (b * a))"
    using assms by (simp add: getAmount0Delta_def Let_def push_96 mulDivRoundingUp_cdiv cdiv_cdiv)
  have "0 \<le> L * Q96 * (b - a) div b" using assms by (simp add: pos_imp_zdiv_nonneg_iff)
  then show "getAmount0Delta a b L False = Inr (L * Q96 * (b - a) div (b * a))"
    using assms by (simp add: getAmount0Delta_def Let_def push_96 bigint_div_nonneg zdiv_zmult2_eq)
qed

lemma getAmount1Delta_eval:
  assumes "a \<le> b" and "0 \<le> L"
  shows "getAmount1Delta a b L True = Inr (cdiv (L * (b - a)) Q96)"
    and "getAmount1Delta a b L False = Inr (L * (b - a) div Q96)"
  using assms by (simp_all add: getAmount1Delta_def Let_def mulDivRoundingUp_cdiv bigint_div_nonneg)

lemma step_amounts_eval:
  assumes "0 < p" and "0 < n" and "toward z p n n" and "0 \<le> L"
  shows "(if z then getAmount0Delta n p L True else getAmount1Delta p n L True) = Inr (in_up z p n L)"
    and "(if z then getAmount1Delta n p L False else getAmount0Delta p n L False) = Inr (out_down z p n L)"
  using assms
  by (simp_all add: toward_def in_up_def out_down_def getAmount0Delta_eval getAmount1Delta_eval split: if_splits)

lemma step_amounts_nonneg:
  assumes "0 < p" and "0 < n" and "toward z p n n" and "0 \<le> L"
  shows "0 \<le> in_up z p n L" and "0 \<le> out_down z p n L"
  using assms
  by (auto simp: toward_def in_up_def out_down_def pos_imp_zdiv_nonneg_iff intro!: cdiv_nonneg split: if_splits)

section \<open>The price an amount moves to\<close>

lemma mult_mod_exact:
  fixes a p m :: int
  assumes "0 < a" and "0 \<le> p" and "0 < m" and "a * p mod m div a = p"
  shows "a * p mod m = a * p"
proof -
  have "p * a \<le> a * p mod m" using le_div_iff [of a p "a * p mod m"] assms by simp
  moreover have "a * p mod m \<le> a * p" using assms by (simp add: zmod_le_nonneg_dividend)
  ultimately show ?thesis by (simp add: mult.commute)
qed

lemma add_mod_exact:
  fixes x y m :: int
  assumes "0 \<le> x" and "0 \<le> y" and "y < m" and "x \<le> (x + y) mod m"
  shows "(x + y) mod m = x + y"
proof -
  have "x < m" using assms pos_mod_bound [of m "x + y"] by linarith
  show ?thesis
  proof (cases "x + y < m")
    case False
    then have "(x + y) mod m = x + y - m"
      using \<open>x < m\<close> assms mod_pos_pos_trivial [of "x + y - m" m] by (simp add: mod_diff_right_eq)
    then show ?thesis using assms by linarith
  qed (use assms in simp)
qed

lemma next_price_amount0_in:
  assumes "0 < p" and "0 < L" and "0 \<le> a"
  shows "\<exists>n. getNextSqrtPriceFromAmount0RoundingUp p L a True = Inr n \<and> 0 < n \<and> n \<le> p
    \<and> L * Q96 * p \<le> n * (L * Q96 + a * p)"
proof (cases "a = 0")
  case True
  then show ?thesis using assms by (auto simp: getNextSqrtPriceFromAmount0RoundingUp_def)
next
  case False
  let ?N = "L * Q96" and ?prod = "a * p mod 2 ^ 256"
  have N: "0 < ?N" using assms by simp
  have a: "0 < a" using False assms by simp
  have prod: "0 \<le> ?prod" "?prod < 2 ^ 256" by simp_all
  let ?exact = "?prod div a = p \<and> (?N + ?prod) mod 2 ^ 256 \<ge> ?N"
  have call: "getNextSqrtPriceFromAmount0RoundingUp p L a True =
      (if ?exact then mulDivRoundingUp ?N p ((?N + ?prod) mod 2 ^ 256)
       else mulDivRoundingUp ?N 1 (?N div p + a))"
    using a assms prod N unfolding getNextSqrtPriceFromAmount0RoundingUp_def Let_def in256_mod push_96
    by (simp add: bigint_div_nonneg)
  show ?thesis
  proof (cases ?exact)
    case True
    then have "?prod = a * p" using mult_mod_exact [of a p "2 ^ 256"] a assms by simp
    moreover have "(?N + ?prod) mod 2 ^ 256 = ?N + ?prod"
      using add_mod_exact [of ?N ?prod "2 ^ 256"] True N prod by simp
    ultimately have den: "(?N + ?prod) mod 2 ^ 256 = ?N + a * p" by simp
    have d: "0 < ?N + a * p" using N a assms by (simp add: add_pos_nonneg)
    let ?n = "cdiv (?N * p) (?N + a * p)"
    have "getNextSqrtPriceFromAmount0RoundingUp p L a True = mulDivRoundingUp ?N p (?N + a * p)"
      using call unfolding if_P [OF True] by (simp only: den)
    also have "\<dots> = Inr ?n" using d N assms by (intro mulDivRoundingUp_cdiv) simp_all
    finally have "getNextSqrtPriceFromAmount0RoundingUp p L a True = Inr ?n" .
    moreover have "0 < ?n" using less_cdiv_iff [OF d, of 0] N assms by simp
    moreover have "?n \<le> p" using cdiv_le_iff [OF d, of "?N * p" p] a assms by (simp add: algebra_simps)
    moreover have "?N * p \<le> ?n * (?N + a * p)" using d by (rule cdiv_self_bound)
    ultimately show ?thesis by blast
  next
    case False
    have d: "0 < ?N div p + a" using N a assms by (simp add: pos_imp_zdiv_nonneg_iff add_nonneg_pos)
    let ?n = "cdiv ?N (?N div p + a)"
    have 1: "getNextSqrtPriceFromAmount0RoundingUp p L a True = Inr ?n"
      unfolding call if_not_P [OF False] using mulDivRoundingUp_cdiv [of ?N 1] d N by simp
    have 2: "0 < ?n" using d N by (simp add: less_cdiv_iff)
    have "?N < p * (?N div p + 1)" using assms by (simp add: less_mult_div_add_one)
    also have "\<dots> \<le> p * (?N div p + a)" using a assms by simp
    finally have 3: "?n \<le> p" using d by (simp add: cdiv_le_iff)
    have "?N div p * p \<le> ?N" using le_div_iff [of p "?N div p" ?N] assms by simp
    then have "?n * (?N div p * p) \<le> ?n * ?N" using 2 by simp
    moreover have "?N * p \<le> ?n * (?N div p + a) * p"
      using cdiv_self_bound [OF d, of ?N] assms by simp
    ultimately have "?N * p \<le> ?n * (?N + a * p)" by (simp add: algebra_simps)
    then show ?thesis using 1 2 3 by blast
  qed
qed

lemma next_price_amount1_in:
  assumes "0 < L" and "0 \<le> a"
  shows "getNextSqrtPriceFromAmount1RoundingDown p L a True = Inr (p + a * Q96 div L)"
  using assms by (simp add: getNextSqrtPriceFromAmount1RoundingDown_def push_96 bigint_div_nonneg)

lemma next_price_amount1_out:
  assumes "0 < L" and "0 \<le> a" and "cdiv (a * Q96) L < p"
  shows "getNextSqrtPriceFromAmount1RoundingDown p L a False = Inr (p - cdiv (a * Q96) L)"
  using assms by (simp add: getNextSqrtPriceFromAmount1RoundingDown_def mulDivRoundingUp_cdiv)

lemma next_price_amount0_out:
  assumes "0 < p" and "0 < L" and "0 < a" and "a * p < L * Q96" and "L * Q96 < 2 ^ 256"
  shows "getNextSqrtPriceFromAmount0RoundingUp p L a False = Inr (cdiv (L * Q96 * p) (L * Q96 - a * p))"
proof -
  have "0 \<le> a * p" using assms by simp
  then have "a * p mod 2 ^ 256 = a * p" using assms by (intro mod_pos_pos_trivial) linarith+
  then show ?thesis
    using assms unfolding getNextSqrtPriceFromAmount0RoundingUp_def Let_def in256_mod push_96
    by (simp add: bigint_div_nonneg mulDivRoundingUp_cdiv)
qed

section \<open>Where a step stops\<close>

lemma next_price_input:
  assumes "0 < p" and "0 < t" and "0 \<le> a" and "0 \<le> L" and "a < in_up z p t L" and z: "z \<longleftrightarrow> t \<le> p"
  shows "\<exists>n. getNextSqrtPriceFromInput p L a z = Inr n \<and> 0 < n \<and> toward z p t n \<and> in_up z p n L \<le> a"
proof -
  have L: "0 < L" using assms by (cases "L = 0") (simp_all add: in_up_def split: if_splits)
  show ?thesis
  proof (cases z)
    case True
    obtain n where n: "getNextSqrtPriceFromAmount0RoundingUp p L a True = Inr n" "0 < n" "n \<le> p"
      and bound: "L * Q96 * p \<le> n * (L * Q96 + a * p)"
      using next_price_amount0_in [OF assms(1) L assms(3)] by auto
    have d: "0 < L * Q96 + a * p" using L assms by (simp add: add_pos_nonneg)
    have "a * (p * t) < L * Q96 * (p - t)" using assms True by (simp add: in_up_def less_cdiv_iff)
    then have "t * (L * Q96 + a * p) < L * Q96 * p" by (simp add: algebra_simps)
    then have "t * (L * Q96 + a * p) < n * (L * Q96 + a * p)" using bound by linarith
    then have "t < n" using d by (simp only: mult_less_cancel_right_pos)
    moreover have "in_up z p n L \<le> a"
      using True bound n assms by (simp add: in_up_def cdiv_le_iff algebra_simps)
    ultimately show ?thesis
      using n True L assms by (simp add: getNextSqrtPriceFromInput_def toward_def)
  next
    case False
    have "a * Q96 < L * (t - p)" using assms False by (simp add: in_up_def less_cdiv_iff)
    then have "a * Q96 div L < t - p" using div_less_bound [OF L, of "a * Q96" "t - p"] by (simp add: mult.commute)
    moreover have "0 \<le> a * Q96 div L" using L assms by (simp add: pos_imp_zdiv_nonneg_iff)
    moreover have "L * (a * Q96 div L) \<le> a * Q96"
      using le_div_iff [OF L, of "a * Q96 div L" "a * Q96"] by (simp add: mult.commute)
    ultimately show ?thesis
      using False L assms
      by (simp add: getNextSqrtPriceFromInput_def next_price_amount1_in toward_def in_up_def cdiv_le_iff)
  qed
qed

lemma next_price_output:
  assumes "0 < p" and "0 < t" and "0 < a" and "0 \<le> L" and "L < 2 ^ 128" and "a < out_down z p t L"
    and z: "z \<longleftrightarrow> t \<le> p"
  shows "\<exists>n. getNextSqrtPriceFromOutput p L a z = Inr n \<and> 0 < n \<and> toward z p t n \<and> a \<le> out_down z p n L"
proof -
  have L: "0 < L" using assms by (cases "L = 0") (simp_all add: out_down_def split: if_splits)
  show ?thesis
  proof (cases z)
    case True
    let ?c = "cdiv (a * Q96) L"
    have "a * Q96 \<le> L * (p - t)" using le_div_iff [of Q96 a "L * (p - t)"] assms True by (simp add: out_down_def)
    then have "?c \<le> p - t" using L by (simp add: cdiv_le_iff mult.commute)
    moreover have "0 \<le> ?c" using L assms by (intro cdiv_nonneg) simp_all
    moreover have "a \<le> L * ?c div Q96"
      using cdiv_self_bound [OF L, of "a * Q96"] by (simp add: le_div_iff mult.commute)
    ultimately show ?thesis
      using True L assms
      by (simp add: getNextSqrtPriceFromOutput_def next_price_amount1_out toward_def out_down_def)
  next
    case False
    let ?N = "L * Q96"
    let ?n = "cdiv (?N * p) (?N - a * p)"
    have tp: "0 < t * p" using assms by simp
    have "a * (t * p) \<le> ?N * (t - p)" using le_div_iff [OF tp, of a "?N * (t - p)"] assms False by (simp add: out_down_def)
    then have reach: "?N * p \<le> t * (?N - a * p)" by (simp add: algebra_simps)
    moreover have "0 < ?N * p" using L assms by simp
    ultimately have d: "0 < ?N - a * p" using assms by (metis order_less_le_trans zero_less_mult_pos)
    have "?N < 2 ^ 256"
    proof -
      have "?N < 2 ^ 128 * Q96" using assms by simp
      also have "\<dots> \<le> 2 ^ 256" by (simp add: Q96_def)
      finally show ?thesis .
    qed
    then have call: "getNextSqrtPriceFromAmount0RoundingUp p L a False = Inr ?n"
      using next_price_amount0_out [OF assms(1) L assms(3)] d by simp
    have "?n \<le> t" using cdiv_le_iff [OF d, of "?N * p" t] reach by simp
    moreover have "(p - 1) * (?N - a * p) < ?N * p"
    proof -
      have "(p - 1) * (?N - a * p) < p * (?N - a * p)" using d by simp
      also have "\<dots> \<le> p * ?N" using assms by simp
      finally show ?thesis by (simp add: mult.commute)
    qed
    then have "p \<le> ?n" using less_cdiv_iff [OF d, of "p - 1" "?N * p"] by linarith
    moreover have "a \<le> ?N * (?n - p) div (?n * p)"
    proof -
      have "0 < ?n * p" using \<open>p \<le> ?n\<close> assms by simp
      then show ?thesis using cdiv_self_bound [OF d, of "?N * p"] by (simp add: le_div_iff algebra_simps)
    qed
    ultimately show ?thesis
      using False L assms call by (simp add: getNextSqrtPriceFromOutput_def toward_def out_down_def)
  qed
qed

lemma toward_target: "z \<longleftrightarrow> t \<le> p \<Longrightarrow> toward z p t t"
  by (simp add: toward_def)

lemma toward_self: "toward z p t n \<Longrightarrow> toward z p n n"
  by (simp add: toward_def split: if_splits)

lemma swap_step_target_in:
  assumes "0 < p" and "0 < t" and "0 \<le> L" and "0 \<le> a" and "0 \<le> fee" and "fee < MAX_FEE" and z: "z \<longleftrightarrow> t \<le> p"
  shows "\<exists>n. swap_step_target p t L a fee z = Inr (n, in_up z p t L) \<and> 0 < n \<and> toward z p t n
    \<and> in_up z p n L \<le> a * (MAX_FEE - fee) div MAX_FEE"
proof -
  let ?a = "a * (MAX_FEE - fee) div MAX_FEE"
  have a: "0 \<le> ?a" using assms by (simp add: pos_imp_zdiv_nonneg_iff)
  have less: "bigint_div (a * (MAX_FEE - fee)) MAX_FEE = Inr ?a" using assms by (simp add: bigint_div_nonneg)
  note amount = step_amounts_eval(1) [OF assms(1,2) toward_target [OF z] assms(3)]
  show ?thesis
    using next_price_input [OF assms(1,2) a assms(3) _ z] toward_target [OF z] less amount assms
    by (cases "in_up z p t L \<le> ?a") (auto simp: swap_step_target_def)
qed

lemma swap_step_target_out:
  assumes "0 < p" and "0 < t" and "0 \<le> L" and "L < 2 ^ 128" and "a < 0" and z: "z \<longleftrightarrow> t \<le> p"
  shows "\<exists>n. swap_step_target p t L a fee z = Inr (n, out_down z p t L) \<and> 0 < n \<and> toward z p t n
    \<and> (n = t \<or> - a \<le> out_down z p n L)"
proof -
  note amount = step_amounts_eval(2) [OF assms(1,2) toward_target [OF z] assms(3)]
  show ?thesis
    using next_price_output [OF assms(1,2) _ assms(3,4) _ z, of "- a"] toward_target [OF z] amount assms
    by (cases "out_down z p t L \<le> - a") (auto simp: swap_step_target_def)
qed

text \<open>The whole step, in its two modes.\<close>

lemma fee_within:
  assumes "0 \<le> i" and "0 \<le> fee" and "fee < MAX_FEE" and "i \<le> a * (MAX_FEE - fee) div MAX_FEE"
  shows "i + cdiv (i * fee) (MAX_FEE - fee) \<le> a"
proof -
  have "i * MAX_FEE \<le> a * (MAX_FEE - fee)" using assms by (simp add: le_div_iff)
  then have "i * fee \<le> (a - i) * (MAX_FEE - fee)" by (simp add: algebra_simps)
  then have "cdiv (i * fee) (MAX_FEE - fee) \<le> a - i" using assms by (simp add: cdiv_le_iff)
  then show ?thesis by simp
qed

lemma computeSwapStep_exact_in:
  assumes "0 < p" and "0 < t" and "0 \<le> L" and "0 \<le> a" and "0 \<le> fee" and "fee < MAX_FEE" and z: "z \<longleftrightarrow> t \<le> p"
  shows "\<exists>n f. computeSwapStep p t L a fee =
      Inr \<lparr>sqrtRatioNextX96 = n, amountIn = in_up z p n L, amountOut = out_down z p n L, feeAmount = f\<rparr>
    \<and> 0 < n \<and> toward z p t n \<and> 0 \<le> f \<and> in_up z p n L + f \<le> a \<and> (n \<noteq> t \<longrightarrow> in_up z p n L + f = a)"
proof -
  obtain n where n: "swap_step_target p t L a fee z = Inr (n, in_up z p t L)" "0 < n" "toward z p t n"
    and less: "in_up z p n L \<le> a * (MAX_FEE - fee) div MAX_FEE"
    using swap_step_target_in [OF assms] by auto
  note amounts = step_amounts_eval [OF assms(1) n(2) toward_self [OF n(3)] assms(3)]
  note nonneg = step_amounts_nonneg [OF assms(1) n(2) toward_self [OF n(3)] assms(3)]
  let ?f = "if n \<noteq> t then a - in_up z p n L else cdiv (in_up z p n L * fee) (MAX_FEE - fee)"
  have fee: "mulDivRoundingUp (in_up z p n L) fee (MAX_FEE - fee) = Inr (cdiv (in_up z p n L * fee) (MAX_FEE - fee))"
    using nonneg assms by (simp add: mulDivRoundingUp_cdiv)
  have "0 \<le> cdiv (in_up z p n L * fee) (MAX_FEE - fee)" using nonneg assms by (intro cdiv_nonneg) simp_all
  then have f: "0 \<le> ?f" "in_up z p n L + ?f \<le> a"
    using fee_within [OF nonneg(1) assms(5,6) less] by auto
  have "computeSwapStep p t L a fee =
      Inr \<lparr>sqrtRatioNextX96 = n, amountIn = in_up z p n L, amountOut = out_down z p n L, feeAmount = ?f\<rparr>"
    using n(1) amounts fee assms(4) unfolding computeSwapStep_def Let_def z [symmetric]
    by (cases "n = t"; cases z) simp_all
  then show ?thesis using n f by (intro exI [of _ n] exI [of _ ?f]) simp
qed

lemma computeSwapStep_exact_out:
  assumes "0 < p" and "0 < t" and "0 \<le> L" and "L < 2 ^ 128" and "a < 0" and "0 \<le> fee" and "fee < MAX_FEE"
    and z: "z \<longleftrightarrow> t \<le> p"
  shows "\<exists>n. computeSwapStep p t L a fee =
      Inr \<lparr>sqrtRatioNextX96 = n, amountIn = in_up z p n L, amountOut = min (- a) (out_down z p n L),
           feeAmount = cdiv (in_up z p n L * fee) (MAX_FEE - fee)\<rparr>
    \<and> 0 < n \<and> toward z p t n \<and> 0 \<le> cdiv (in_up z p n L * fee) (MAX_FEE - fee) \<and> (n \<noteq> t \<longrightarrow> - a \<le> out_down z p n L)"
proof -
  obtain n where n: "swap_step_target p t L a fee z = Inr (n, out_down z p t L)" "0 < n" "toward z p t n"
    and out: "n = t \<or> - a \<le> out_down z p n L"
    using swap_step_target_out [OF assms(1-5) z] by auto
  note amounts = step_amounts_eval [OF assms(1) n(2) toward_self [OF n(3)] assms(3)]
  note nonneg = step_amounts_nonneg [OF assms(1) n(2) toward_self [OF n(3)] assms(3)]
  let ?f = "cdiv (in_up z p n L * fee) (MAX_FEE - fee)"
  have fee: "mulDivRoundingUp (in_up z p n L) fee (MAX_FEE - fee) = Inr ?f"
    using nonneg assms by (simp add: mulDivRoundingUp_cdiv)
  have "0 \<le> ?f" using nonneg assms by (intro cdiv_nonneg) simp_all
  moreover have "computeSwapStep p t L a fee =
      Inr \<lparr>sqrtRatioNextX96 = n, amountIn = in_up z p n L, amountOut = min (- a) (out_down z p n L), feeAmount = ?f\<rparr>"
    using n(1) amounts fee assms(5) unfolding computeSwapStep_def Let_def z [symmetric]
    by (cases "n = t"; cases z) (simp_all add: min_def)
  ultimately show ?thesis using n out by (intro exI [of _ n]) auto
qed

section \<open>Sizes\<close>

lemma step_amounts_bound:
  assumes "2 ^ 32 \<le> p" and "p \<le> 2 ^ 160" and "2 ^ 32 \<le> n" and "n \<le> 2 ^ 160" and "toward z p n n" and "0 \<le> L" and "L < 2 ^ 128"
  shows "in_up z p n L \<le> 2 ^ 192" and "out_down z p n L \<le> 2 ^ 192"
proof -
  have pos: "0 < p" "0 < n" using assms(1,3) by simp_all
  have amount0: "L * Q96 * d \<le> 2 ^ 192 * (b * a)" if "0 \<le> d" "d \<le> b" "2 ^ 32 \<le> a" "0 < b" for a b d
  proof -
    have "L * Q96 \<le> 2 ^ 128 * Q96" using assms(7) by (intro mult_right_mono) simp_all
    also have "\<dots> = 2 ^ 192 * 2 ^ 32" by (simp add: Q96_def)
    finally have "L * Q96 * d \<le> (2 ^ 192 * 2 ^ 32) * b" by (rule mult_mono) (use that assms(6) in simp_all)
    also have "2 ^ 192 * 2 ^ 32 * b \<le> 2 ^ 192 * (b * a)" using that by (simp add: mult.commute)
    finally show ?thesis .
  qed
  have amount1: "L * d \<le> 2 ^ 192 * Q96" if "0 \<le> d" "d \<le> 2 ^ 160" for d
  proof -
    have "L * d \<le> 2 ^ 128 * 2 ^ 160" using that assms(6,7) by (intro mult_mono) simp_all
    then show ?thesis by (simp add: Q96_def)
  qed
  have small: "a div b \<le> c" if "a \<le> c * b" "0 < b" for a b c :: int
    using that zdiv_mono1 [of a "c * b" b] by simp
  show "in_up z p n L \<le> 2 ^ 192"
    using assms pos amount0 [of "p - n" p n] amount1 [of "n - p"] by (cases z) (simp_all add: in_up_def toward_def cdiv_le_iff)
  show "out_down z p n L \<le> 2 ^ 192"
    using assms pos small [OF amount0 [of "n - p" n p]] small [OF amount1 [of "p - n"]]
    by (cases z) (simp_all add: out_down_def toward_def)
qed

lemma fee_bound:
  assumes "0 \<le> i" and "0 \<le> fee" and "fee < MAX_FEE"
  shows "cdiv (i * fee) (MAX_FEE - fee) \<le> i * MAX_FEE"
proof -
  have "i * fee \<le> i * MAX_FEE * 1" using assms by (simp add: mult_left_mono)
  also have "\<dots> \<le> i * MAX_FEE * (MAX_FEE - fee)" using assms by (intro mult_left_mono) simp_all
  finally show ?thesis using assms by (simp add: cdiv_le_iff)
qed

end
