(* ===== verification/V3TickFacts.thy ===== *)
theory V3TickFacts
  imports V3TickMath
begin

text \<open>
  The two directions between ticks and prices are inverse.  Every factor of \<open>tick_ratio\<close> is
  compared with the next one and the last with a power of two, by evaluating the code's own
  logarithm loop; this bounds the logarithm of every ratio within \<open>2 ^ (- 23)\<close> of the tick times
  \<open>tick_log\<close>, the reciprocal of the factor the code multiplies logarithms by.  Monotonicity of
  the ratios and correctness of the tick search follow by linear arithmetic.
\<close>

section \<open>Logarithms of rounded quotients\<close>

abbreviation lg :: "int \<Rightarrow> real" where
  "lg x \<equiv> log 2 (real_of_int x)"

lemma log2_one_plus: "0 \<le> x \<Longrightarrow> log 2 (1 + x) \<le> 2 * x"
proof -
  assume x: "0 \<le> x"
  have "(1 / 2 :: real) \<le> ln 2" using exp_half_le2 ln_ge_iff [of 2 "1 / 2"] by simp
  then have "x \<le> 2 * x * ln 2" using x mult_left_mono [of "1 / 2" "ln 2" "2 * x"] by simp
  then have "ln (1 + x) \<le> 2 * x * ln 2" using ln_add_one_self_le_self [OF x] by linarith
  then show ?thesis by (simp add: log_def divide_le_eq)
qed

lemma lg_div:
  assumes "0 < a" and "0 < b" and "2 ^ k \<le> a div b"
  shows "lg (a div b) \<le> lg a - lg b" and "lg a - lg b \<le> lg (a div b) + 2 / 2 ^ k"
proof -
  let ?q = "a div b"
  have q: "0 < ?q" using assms(3) by (smt (verit) zero_less_power)
  have "?q * b \<le> a" using le_div_iff [of b ?q a] assms by simp
  then have "lg (?q * b) \<le> lg a" using q assms by (simp add: log_le_cancel_iff flip: of_int_mult)
  then show "lg ?q \<le> lg a - lg b" using q assms by (simp add: log_mult)
  have "a < (?q + 1) * b" using div_less_bound [of b a "?q + 1"] assms by simp
  then have "lg a \<le> lg ((?q + 1) * b)" using q assms by (simp add: log_le_cancel_iff flip: of_int_mult of_int_add)
  also have "\<dots> = lg (?q + 1) + lg b" using q assms by (simp add: log_mult)
  also have "lg (?q + 1) = lg ?q + log 2 (1 + 1 / real_of_int ?q)"
  proof -
    have "real_of_int (?q + 1) = real_of_int ?q * (1 + 1 / real_of_int ?q)" using q by (simp add: field_simps)
    then show ?thesis using q by (simp only: log_mult_pos) (simp add: log_mult_pos add_pos_pos)
  qed
  also have "log 2 (1 + 1 / real_of_int ?q) \<le> 2 * (1 / real_of_int ?q)" using q by (intro log2_one_plus) simp
  also have "2 * (1 / real_of_int ?q) \<le> 2 / 2 ^ k"
  proof -
    have "(2 ^ k :: real) \<le> real_of_int ?q" using assms(3) by (metis of_int_le_iff of_int_numeral of_int_power)
    then show ?thesis by (simp add: frac_le)
  qed
  finally show "lg a - lg b \<le> lg ?q + 2 / 2 ^ k" by simp
qed

section \<open>The logarithm loop\<close>

definition mantissa :: "int \<Rightarrow> bool" where
  "mantissa r \<longleftrightarrow> 2 ^ 127 \<le> r \<and> r < 2 ^ 128"

lemma or_next_bit:
  fixes l f :: int
  assumes "i \<le> 63" and "2 ^ (64 - i) dvd l" and "f = 0 \<or> f = 1"
  shows "l OR push_bit (63 - i) f = l + f * 2 ^ (63 - i)" and "2 ^ (64 - Suc i) dvd l + f * 2 ^ (63 - i)"
proof -
  from assms(2) obtain k where k: "l = 2 ^ (64 - i) * k" by (elim dvdE)
  have "64 - i = Suc (63 - i)" using assms(1) by simp
  then have l: "l = push_bit (63 - i) (2 * k)" using k by (simp add: push_bit_eq_mult)
  then have "l OR push_bit (63 - i) 1 = l + push_bit (63 - i) 1"
    by (simp only: push_bit_or [symmetric] or_one_eq push_bit_add) simp
  then show "l OR push_bit (63 - i) f = l + f * 2 ^ (63 - i)"
    using assms(3) by (auto simp: push_bit_eq_mult)
  show "2 ^ (64 - Suc i) dvd l + f * 2 ^ (63 - i)"
    using l by (simp add: push_bit_eq_mult)
qed

lemma log2_step_spec:
  assumes "mantissa r" and "i \<le> 63" and "2 ^ (64 - i) dvd l"
  shows "\<exists>r' f. log2_step i (r, l) = (r', l + f * 2 ^ (63 - i)) \<and> mantissa r'
    \<and> 2 ^ (64 - Suc i) dvd l + f * 2 ^ (63 - i)
    \<and> real_of_int f + (lg r' - 127) \<le> 2 * (lg r - 127) \<and> 2 * (lg r - 127) \<le> real_of_int f + (lg r' - 127) + 2 / 2 ^ 127"
proof -
  define s where "s = r * r div 2 ^ 127"
  define f where "f = s div 2 ^ 128"
  define r' where "r' = s div 2 ^ nat f"
  have r: "2 ^ 127 \<le> r" "r < 2 ^ 128" using assms(1) by (simp_all add: mantissa_def)
  have "2 ^ 127 * 2 ^ 127 \<le> r * r" using r by (intro mult_mono) simp_all
  then have lo: "2 ^ 127 \<le> s" by (simp add: le_div_iff s_def)
  have "r * r < 2 ^ 128 * 2 ^ 128" using r by (intro mult_strict_mono) simp_all
  then have hi: "s < 2 * 2 ^ 128" by (simp add: div_less_bound s_def)
  have f: "f = 0 \<and> s < 2 ^ 128 \<or> f = 1 \<and> 2 ^ 128 \<le> s"
    using le_div_iff [of "2 ^ 128" 1 s] le_div_iff [of "2 ^ 128" 0 s] div_less_bound [of "2 ^ 128" s 2] lo hi
    by (auto simp: f_def)
  have m: "mantissa r'" using f lo hi by (auto simp: mantissa_def le_div_iff div_less_bound r'_def)
  have eq: "r' = r * r div 2 ^ (127 + nat f)" by (simp only: r'_def s_def zdiv_zmult2_eq power_add zero_le_power zero_le_numeral)
  have rr: "0 < r * r" using r by (simp add: zero_less_mult_iff)
  have k: "2 ^ 127 \<le> r * r div 2 ^ (127 + nat f)" using m unfolding eq [symmetric] by (simp only: mantissa_def)
  have "lg r' \<le> lg (r * r) - lg (2 ^ (127 + nat f))" "lg (r * r) - lg (2 ^ (127 + nat f)) \<le> lg r' + 2 / 2 ^ 127"
    unfolding eq by (rule lg_div [OF rr _ k], simp)+
  moreover have "lg (r * r) = 2 * lg r" using r by (simp add: log_mult)
  moreover have "lg (2 ^ (127 + nat f)) = 127 + real_of_int f" using f by (auto simp: log_nat_power simp del: power_numeral)
  ultimately have "real_of_int f + (lg r' - 127) \<le> 2 * (lg r - 127)"
    "2 * (lg r - 127) \<le> real_of_int f + (lg r' - 127) + 2 / 2 ^ 127"
    by argo+
  moreover have "log2_step i (r, l) = (r', l + f * 2 ^ (63 - i))"
    using or_next_bit(1) [OF assms(2,3), of f] f
    by (simp only: log2_step_def Let_def drop_bit_eq_div case_prod_conv s_def [symmetric] f_def [symmetric] r'_def) auto
  ultimately show ?thesis
    using m or_next_bit(2) [OF assms(2,3), of f] f by (intro exI [of _ r'] exI [of _ f]) auto
qed

lemma mantissa_lg:
  assumes "mantissa r"
  shows "127 \<le> lg r" and "lg r < 128"
proof -
  have r: "2 ^ 127 \<le> r" "r < 2 ^ 128" using assms by (simp_all add: mantissa_def)
  have "(2 ^ 127 :: real) \<le> real_of_int r" "real_of_int r < 2 ^ 128"
    using r by (metis of_int_le_iff of_int_numeral of_int_power, metis of_int_less_iff of_int_numeral of_int_power)
  moreover have "log 2 ((2 :: real) ^ 127) = 127" "log 2 ((2 :: real) ^ 128) = 128"
    by (simp_all add: log_nat_power del: power_numeral)
  ultimately show "127 \<le> lg r" "lg r < 128"
    by (smt (verit) log_le_cancel_iff log_less_cancel_iff zero_less_power)+
qed

lemma log2_loop_spec:
  assumes "mantissa r" and "2 ^ 64 dvd l" and "n \<le> 64"
  shows "\<exists>r' S. fold log2_step [0..<n] (r, l) = (r', l + S * 2 ^ (64 - n)) \<and> mantissa r'
    \<and> 2 ^ (64 - n) dvd l + S * 2 ^ (64 - n)
    \<and> real_of_int S + (lg r' - 127) \<le> 2 ^ n * (lg r - 127)
    \<and> 2 ^ n * (lg r - 127) \<le> real_of_int S + (lg r' - 127) + (2 ^ n - 1) * (2 / 2 ^ 127)"
  using assms(3)
proof (induction n)
  case 0
  then show ?case using assms by (intro exI [of _ r] exI [of _ 0]) simp
next
  case (Suc n)
  then obtain r1 S where 1: "fold log2_step [0..<n] (r, l) = (r1, l + S * 2 ^ (64 - n))" "mantissa r1"
      "2 ^ (64 - n) dvd l + S * 2 ^ (64 - n)"
    and lo: "real_of_int S + (lg r1 - 127) \<le> 2 ^ n * (lg r - 127)"
    and hi: "2 ^ n * (lg r - 127) \<le> real_of_int S + (lg r1 - 127) + (2 ^ n - 1) * (2 / 2 ^ 127)"
    by auto
  obtain r2 f where 2: "log2_step n (r1, l + S * 2 ^ (64 - n)) = (r2, l + S * 2 ^ (64 - n) + f * 2 ^ (63 - n))" "mantissa r2"
      "2 ^ (64 - Suc n) dvd l + S * 2 ^ (64 - n) + f * 2 ^ (63 - n)"
    and lo2: "real_of_int f + (lg r2 - 127) \<le> 2 * (lg r1 - 127)"
    and hi2: "2 * (lg r1 - 127) \<le> real_of_int f + (lg r2 - 127) + 2 / 2 ^ 127"
    using log2_step_spec [OF 1(2) _ 1(3)] Suc.prems by auto
  have e: "S * 2 ^ (64 - n) + f * 2 ^ (63 - n) = (2 * S + f) * 2 ^ (64 - Suc n)"
  proof -
    have "64 - n = Suc (63 - n)" using Suc.prems by simp
    then show ?thesis by (simp add: algebra_simps)
  qed
  have "fold log2_step [0..<Suc n] (r, l) = (r2, l + (2 * S + f) * 2 ^ (64 - Suc n))"
    using 1 2 e by (simp add: ac_simps)
  moreover have "real_of_int (2 * S + f) + (lg r2 - 127) \<le> 2 ^ Suc n * (lg r - 127)"
    using lo lo2 by (simp only: power_Suc of_int_add of_int_mult of_int_numeral mult.assoc) argo
  moreover have "2 ^ Suc n * (lg r - 127) \<le> real_of_int (2 * S + f) + (lg r2 - 127) + (2 ^ Suc n - 1) * (2 / 2 ^ 127)"
  proof -
    have "(2 ^ Suc n - 1) * e = 2 * ((2 ^ n - 1) * e) + e" for e :: real
      by (simp add: algebra_simps)
    from this [of "2 / 2 ^ 127"] show ?thesis using hi hi2 by (simp only: power_Suc of_int_add of_int_mult of_int_numeral mult.assoc) argo
  qed
  ultimately show ?case using 2 e by (intro exI [of _ r2] exI [of _ "2 * S + f"]) (simp add: ac_simps)
qed

text \<open>What the first \<open>n\<close> bits say about the logarithm.\<close>

lemma log2_loop_bounds:
  assumes "mantissa r" and "2 ^ 64 dvd l" and "n \<le> 64"
  shows "\<exists>r' S. fold log2_step [0..<n] (r, l) = (r', l + S * 2 ^ (64 - n))
    \<and> real_of_int S / 2 ^ n \<le> lg r - 127 \<and> lg r - 127 \<le> (real_of_int S + 1) / 2 ^ n + 2 / 2 ^ 127"
proof -
  obtain r' S where S: "fold log2_step [0..<n] (r, l) = (r', l + S * 2 ^ (64 - n))" "mantissa r'"
    and lo: "real_of_int S + (lg r' - 127) \<le> 2 ^ n * (lg r - 127)"
    and hi: "2 ^ n * (lg r - 127) \<le> real_of_int S + (lg r' - 127) + (2 ^ n - 1) * (2 / 2 ^ 127)"
    using log2_loop_spec [OF assms] by auto
  note m = mantissa_lg [OF S(2)]
  have "real_of_int S \<le> (lg r - 127) * 2 ^ n" using lo m by (subst mult.commute) linarith
  then have 1: "real_of_int S / 2 ^ n \<le> lg r - 127" by (simp add: divide_le_eq)
  have "(2 ^ n - 1) * (2 / 2 ^ 127) \<le> (2 / 2 ^ 127) * (2 ^ n :: real)" by (simp add: divide_right_mono)
  then have "(lg r - 127) * 2 ^ n \<le> real_of_int S + 1 + (2 / 2 ^ 127) * 2 ^ n" using hi m by (subst mult.commute) linarith
  then have "lg r - 127 \<le> (real_of_int S + 1 + (2 / 2 ^ 127) * 2 ^ n) / 2 ^ n" by (simp only: pos_le_divide_eq zero_less_power zero_less_numeral)
  also have "\<dots> = (real_of_int S + 1) / 2 ^ n + 2 / 2 ^ 127" by (simp add: add_divide_distrib)
  finally show ?thesis using S 1 by blast
qed

section \<open>The factors of the ratio\<close>

definition tick_factors :: "int list" where
  "tick_factors =
    [0xfffcb933bd6fad37aa2d162d1a594001,
     0xfff97272373d413259a46990580e213a,
     0xfff2e50f5f656932ef12357cf3c7fdcc,
     0xffe5caca7e10e4e61c3624eaa0941cd0,
     0xffcb9843d60f6159c9db58835c926644,
     0xff973b41fa98c081472e6896dfb254c0,
     0xff2ea16466c96a3843ec78b326b52861,
     0xfe5dee046a99a2a811c461f1969c3053,
     0xfcbe86c7900a88aedcffc83b479aa3a4,
     0xf987a7253ac413176f2b074cf7815e54,
     0xf3392b0822b70005940c7a398e4b70f3,
     0xe7159475a2c29b7443b29c7fa6e889d9,
     0xd097f3bdfd2022b8845ad8f792aa5825,
     0xa9f746462d870fdf8a65dc1f90e061e5,
     0x70d869a156d2a1b890bb3df62baf32f7,
     0x31be135f97d08fd981231505542fcfa6,
     0x9aa508b5b7a84e1c677de54f3e99bc9,
     0x5d6af8dedb81196699c329225ee604,
     0x2216e584f5fa1ea926041bedfe98,
     0x48a170391f7dc42444e8fa2]"

definition factor_step :: "int \<Rightarrow> nat \<Rightarrow> int \<Rightarrow> int" where
  "factor_step n i r = (if bit n i then mulShift r (tick_factors ! i) else r)"

lemma and_bits:
  fixes n :: int
  shows "n AND 0x1 = 0 \<longleftrightarrow> \<not> bit n 0"
    "n AND 0x2 = 0 \<longleftrightarrow> \<not> bit n 1"
    "n AND 0x4 = 0 \<longleftrightarrow> \<not> bit n 2"
    "n AND 0x8 = 0 \<longleftrightarrow> \<not> bit n 3"
    "n AND 0x10 = 0 \<longleftrightarrow> \<not> bit n 4"
    "n AND 0x20 = 0 \<longleftrightarrow> \<not> bit n 5"
    "n AND 0x40 = 0 \<longleftrightarrow> \<not> bit n 6"
    "n AND 0x80 = 0 \<longleftrightarrow> \<not> bit n 7"
    "n AND 0x100 = 0 \<longleftrightarrow> \<not> bit n 8"
    "n AND 0x200 = 0 \<longleftrightarrow> \<not> bit n 9"
    "n AND 0x400 = 0 \<longleftrightarrow> \<not> bit n 10"
    "n AND 0x800 = 0 \<longleftrightarrow> \<not> bit n 11"
    "n AND 0x1000 = 0 \<longleftrightarrow> \<not> bit n 12"
    "n AND 0x2000 = 0 \<longleftrightarrow> \<not> bit n 13"
    "n AND 0x4000 = 0 \<longleftrightarrow> \<not> bit n 14"
    "n AND 0x8000 = 0 \<longleftrightarrow> \<not> bit n 15"
    "n AND 0x10000 = 0 \<longleftrightarrow> \<not> bit n 16"
    "n AND 0x20000 = 0 \<longleftrightarrow> \<not> bit n 17"
    "n AND 0x40000 = 0 \<longleftrightarrow> \<not> bit n 18"
    "n AND 0x80000 = 0 \<longleftrightarrow> \<not> bit n 19"
  using
  and_exp_eq_0_iff_not_bit [of n 0]
  and_exp_eq_0_iff_not_bit [of n 1]
  and_exp_eq_0_iff_not_bit [of n 2]
  and_exp_eq_0_iff_not_bit [of n 3]
  and_exp_eq_0_iff_not_bit [of n 4]
  and_exp_eq_0_iff_not_bit [of n 5]
  and_exp_eq_0_iff_not_bit [of n 6]
  and_exp_eq_0_iff_not_bit [of n 7]
  and_exp_eq_0_iff_not_bit [of n 8]
  and_exp_eq_0_iff_not_bit [of n 9]
  and_exp_eq_0_iff_not_bit [of n 10]
  and_exp_eq_0_iff_not_bit [of n 11]
  and_exp_eq_0_iff_not_bit [of n 12]
  and_exp_eq_0_iff_not_bit [of n 13]
  and_exp_eq_0_iff_not_bit [of n 14]
  and_exp_eq_0_iff_not_bit [of n 15]
  and_exp_eq_0_iff_not_bit [of n 16]
  and_exp_eq_0_iff_not_bit [of n 17]
  and_exp_eq_0_iff_not_bit [of n 18]
  and_exp_eq_0_iff_not_bit [of n 19]
  by simp_all

lemma factor_steps:
  "(if n AND 0x2 \<noteq> 0 then mulShift r 0xfff97272373d413259a46990580e213a else r) = factor_step n 1 r"
  "(if n AND 0x4 \<noteq> 0 then mulShift r 0xfff2e50f5f656932ef12357cf3c7fdcc else r) = factor_step n 2 r"
  "(if n AND 0x8 \<noteq> 0 then mulShift r 0xffe5caca7e10e4e61c3624eaa0941cd0 else r) = factor_step n 3 r"
  "(if n AND 0x10 \<noteq> 0 then mulShift r 0xffcb9843d60f6159c9db58835c926644 else r) = factor_step n 4 r"
  "(if n AND 0x20 \<noteq> 0 then mulShift r 0xff973b41fa98c081472e6896dfb254c0 else r) = factor_step n 5 r"
  "(if n AND 0x40 \<noteq> 0 then mulShift r 0xff2ea16466c96a3843ec78b326b52861 else r) = factor_step n 6 r"
  "(if n AND 0x80 \<noteq> 0 then mulShift r 0xfe5dee046a99a2a811c461f1969c3053 else r) = factor_step n 7 r"
  "(if n AND 0x100 \<noteq> 0 then mulShift r 0xfcbe86c7900a88aedcffc83b479aa3a4 else r) = factor_step n 8 r"
  "(if n AND 0x200 \<noteq> 0 then mulShift r 0xf987a7253ac413176f2b074cf7815e54 else r) = factor_step n 9 r"
  "(if n AND 0x400 \<noteq> 0 then mulShift r 0xf3392b0822b70005940c7a398e4b70f3 else r) = factor_step n 10 r"
  "(if n AND 0x800 \<noteq> 0 then mulShift r 0xe7159475a2c29b7443b29c7fa6e889d9 else r) = factor_step n 11 r"
  "(if n AND 0x1000 \<noteq> 0 then mulShift r 0xd097f3bdfd2022b8845ad8f792aa5825 else r) = factor_step n 12 r"
  "(if n AND 0x2000 \<noteq> 0 then mulShift r 0xa9f746462d870fdf8a65dc1f90e061e5 else r) = factor_step n 13 r"
  "(if n AND 0x4000 \<noteq> 0 then mulShift r 0x70d869a156d2a1b890bb3df62baf32f7 else r) = factor_step n 14 r"
  "(if n AND 0x8000 \<noteq> 0 then mulShift r 0x31be135f97d08fd981231505542fcfa6 else r) = factor_step n 15 r"
  "(if n AND 0x10000 \<noteq> 0 then mulShift r 0x9aa508b5b7a84e1c677de54f3e99bc9 else r) = factor_step n 16 r"
  "(if n AND 0x20000 \<noteq> 0 then mulShift r 0x5d6af8dedb81196699c329225ee604 else r) = factor_step n 17 r"
  "(if n AND 0x40000 \<noteq> 0 then mulShift r 0x2216e584f5fa1ea926041bedfe98 else r) = factor_step n 18 r"
  "(if n AND 0x80000 \<noteq> 0 then mulShift r 0x48a170391f7dc42444e8fa2 else r) = factor_step n 19 r"
  by (simp_all add: factor_step_def tick_factors_def and_bits)

lemma factor_step_0:
  "(if n AND 0x1 \<noteq> 0 then 0xfffcb933bd6fad37aa2d162d1a594001 else 0x100000000000000000000000000000000) = factor_step n 0 (2 ^ 128)"
  by (simp add: factor_step_def tick_factors_def and_bits mulShift_def drop_bit_eq_div)

lemma tick_ratio_fold: "tick_ratio n = fold (factor_step n) [0..<20] (2 ^ 128)"
proof -
  have "[0..<20] = [0, 1, 2, 3, 4, 5, 6, 7, 8, 9, 10, 11, 12, 13, 14, 15, 16, 17, 18, 19]" by code_simp
  then show ?thesis by (simp only: tick_ratio_def factor_steps factor_step_0 Let_def fold_simps)
qed

section \<open>Logarithms of the factors\<close>

text \<open>The logarithm of the ratio of one tick, as the code has it: \<open>2 ^ 64\<close> over its multiplier.\<close>

definition tick_log :: real where
  "tick_log = 2 ^ 64 / 255738958999603826347141"

lemma tick_log_bounds: "7213 / 10 ^ 8 < tick_log" "tick_log < 7214 / 10 ^ 8"
  by (simp_all add: tick_log_def)

lemma lg_ge_iff: "0 < a \<Longrightarrow> real k \<le> lg a \<longleftrightarrow> 2 ^ k \<le> a"
proof -
  assume "0 < a"
  then have "real k \<le> lg a \<longleftrightarrow> 2 ^ k \<le> real_of_int a" by (simp add: le_log_iff powr_realpow)
  also have "\<dots> \<longleftrightarrow> 2 ^ k \<le> a" by (metis of_int_le_iff of_int_numeral of_int_power)
  finally show ?thesis .
qed

lemma lg_power: "lg (2 ^ k) = real k"
  by (simp add: log_nat_power)

lemma last_factor_loop:
  "fold log2_step [0..<25] (0x48a170391f7dc42444e8fa2 * 2 ^ 37, 0) = (325393422118056482361415523571395482330, 3366640282819887104)"
  by code_simp

lemma last_factor_lg: "\<bar>lg (tick_factors ! 19) - 128 + 2 ^ 19 * tick_log\<bar> \<le> 1 / 2 ^ 25"
proof -
  let ?c = "0x48a170391f7dc42444e8fa2 :: int"
  have c: "tick_factors ! 19 = ?c" by (simp add: tick_factors_def)
  have m: "mantissa (?c * 2 ^ 37)" by (simp add: mantissa_def)
  obtain S where S: "S * 2 ^ (64 - 25) = (3366640282819887104 :: int)"
    and lo: "real_of_int S / 2 ^ 25 \<le> lg (?c * 2 ^ 37) - 127"
    and hi: "lg (?c * 2 ^ 37) - 127 \<le> (real_of_int S + 1) / 2 ^ 25 + 2 / 2 ^ 127"
    using log2_loop_bounds [OF m, of 0 25] unfolding last_factor_loop by auto
  have "S = 6123883" using S by simp
  moreover have "lg (?c * 2 ^ 37) = lg ?c + 37"
    using log_mult_pos [of "real_of_int ?c" "2 ^ 37" 2] lg_power [of 37] by simp
  ultimately have "6123883 / 2 ^ 25 \<le> lg ?c - 90" "lg ?c - 90 \<le> 6123884 / 2 ^ 25 + 2 / 2 ^ 127"
    using lo hi by simp_all
  moreover have "\<bar>6123883 / 2 ^ 25 - 38 + 2 ^ 19 * tick_log\<bar> \<le> 1 / 2 ^ 25"
    "\<bar>6123884 / 2 ^ 25 + 2 / 2 ^ 127 - 38 + 2 ^ 19 * tick_log\<bar> \<le> 1 / 2 ^ 25"
    by (simp_all add: tick_log_def)
  ultimately show ?thesis unfolding c by linarith
qed

lemma near_lg:
  assumes "0 < a" and "0 < b" and "2 ^ 40 * a \<le> (2 ^ 40 + 1) * b"
  shows "lg a \<le> lg b + 2 / 2 ^ 40"
proof -
  have "real_of_int (2 ^ 40 * a) \<le> real_of_int ((2 ^ 40 + 1) * b)" using assms(3) by (rule of_int_le_iff [THEN iffD2])
  then have "real_of_int a \<le> real_of_int b * (1 + 1 / 2 ^ 40)" by simp
  then have "lg a \<le> log 2 (real_of_int b * (1 + 1 / 2 ^ 40))" using assms by simp
  also have "\<dots> = lg b + log 2 (1 + 1 / 2 ^ 40)" using assms by (intro log_mult_pos) simp_all
  also have "log 2 (1 + 1 / 2 ^ 40) \<le> 2 * (1 / 2 ^ 40)" by (rule log2_one_plus) simp
  finally show ?thesis by simp
qed

lemma factor_squares:
  "list_all (\<lambda>i. let a = tick_factors ! Suc i * 0x100000000000000000000000000000000; b = tick_factors ! i * tick_factors ! i in
     0x10000000000 * a \<le> 0x10000000001 * b \<and> 0x10000000000 * b \<le> 0x10000000001 * a) [0..<19]"
  by code_simp

lemma factor_pos: "i < 20 \<Longrightarrow> 0 < tick_factors ! i"
proof -
  assume "i < 20"
  moreover have "list_all (\<lambda>c. 0 < c) tick_factors" "length tick_factors = 20" by (simp_all add: tick_factors_def)
  ultimately show ?thesis by (simp add: list_all_length)
qed

lemma factor_double:
  assumes "i < 19"
  shows "\<bar>(lg (tick_factors ! Suc i) - 128) - 2 * (lg (tick_factors ! i) - 128)\<bar> \<le> 2 / 2 ^ 40"
proof -
  let ?a = "tick_factors ! Suc i * 2 ^ 128" and ?b = "tick_factors ! i * tick_factors ! i"
  have pos: "0 < tick_factors ! i" "0 < tick_factors ! Suc i" using factor_pos assms by simp_all
  have "2 ^ 40 * ?a \<le> (2 ^ 40 + 1) * ?b" "2 ^ 40 * ?b \<le> (2 ^ 40 + 1) * ?a"
    using factor_squares assms by (simp_all add: list_all_iff Let_def)
  then have "lg ?a \<le> lg ?b + 2 / 2 ^ 40" "lg ?b \<le> lg ?a + 2 / 2 ^ 40"
    using pos by (intro near_lg; simp)+
  moreover have "lg ?a = lg (tick_factors ! Suc i) + 128"
    using pos log_mult_pos [of "real_of_int (tick_factors ! Suc i)" "2 ^ 128" 2] lg_power [of 128] by simp
  moreover have "lg ?b = 2 * lg (tick_factors ! i)" using pos by (simp add: log_mult_pos)
  ultimately show ?thesis by argo
qed

lemma factor_lg_down:
  "k < 20 \<Longrightarrow> \<bar>lg (tick_factors ! (19 - k)) - 128 + 2 ^ (19 - k) * tick_log\<bar> \<le> 1 / 2 ^ 25 / 2 ^ k + 2 / 2 ^ 40"
proof (induction k)
  case 0
  then show ?case using last_factor_lg by simp
next
  case (Suc k)
  have i: "19 - k = Suc (19 - Suc k)" using Suc.prems by simp
  have "\<bar>(lg (tick_factors ! (19 - k)) - 128) - 2 * (lg (tick_factors ! (19 - Suc k)) - 128)\<bar> \<le> 2 / 2 ^ 40"
    unfolding i using Suc.prems by (intro factor_double) simp
  moreover have "\<bar>lg (tick_factors ! (19 - k)) - 128 + 2 ^ (19 - k) * tick_log\<bar> \<le> 1 / 2 ^ 25 / 2 ^ k + 2 / 2 ^ 40"
    using Suc by simp
  moreover have "2 ^ (19 - k) * tick_log = 2 * (2 ^ (19 - Suc k) * tick_log)" unfolding i by simp
  moreover have "(1 / 2 ^ 25 / 2 ^ k :: real) = 2 * (1 / 2 ^ 25 / 2 ^ Suc k)" by simp
  ultimately show ?case by argo
qed

lemma factor_lg:
  assumes "i < 20"
  shows "\<bar>lg (tick_factors ! i) - 128 + 2 ^ i * tick_log\<bar> \<le> 2 ^ i / 2 ^ 44 + 2 / 2 ^ 40"
proof -
  have "(1 / 2 ^ 25 / 2 ^ (19 - i) :: real) = 2 ^ i / 2 ^ 44"
  proof -
    have "(2 :: real) ^ (19 - i) * 2 ^ i = 2 ^ 19" using assms by (simp flip: power_add)
    then show ?thesis by (simp add: field_simps)
  qed
  moreover have "19 - (19 - i) = i" using assms by simp
  ultimately show ?thesis using factor_lg_down [of "19 - i"] by (simp only:)
qed

section \<open>Logarithms of the ratios\<close>

lemma mulShift_lg:
  assumes "0 < r" and "0 < c" and "179 \<le> lg r + lg c"
  shows "lg (mulShift r c) \<le> lg r + lg c - 128" and "lg r + lg c - 128 \<le> lg (mulShift r c) + 2 / 2 ^ 51"
    and "0 < mulShift r c"
proof -
  have "lg (r * c) = lg r + lg c" using assms by (simp add: log_mult_pos)
  then have "2 ^ 179 \<le> r * c" using lg_ge_iff [of "r * c" 179] assms by simp
  then have k: "2 ^ 51 \<le> r * c div 2 ^ 128" by (simp add: le_div_iff)
  have "lg (r * c div 2 ^ 128) \<le> lg (r * c) - lg (2 ^ 128)" "lg (r * c) - lg (2 ^ 128) \<le> lg (r * c div 2 ^ 128) + 2 / 2 ^ 51"
    using assms by (intro lg_div [OF _ _ k]; simp)+
  then show "lg (mulShift r c) \<le> lg r + lg c - 128" "lg r + lg c - 128 \<le> lg (mulShift r c) + 2 / 2 ^ 51"
    unfolding \<open>lg (r * c) = lg r + lg c\<close> lg_power mulShift_def drop_bit_eq_div by simp_all
  show "0 < mulShift r c" using k by (simp add: mulShift_def drop_bit_eq_div)
qed

lemma ratio_partial:
  assumes "k \<le> 20"
  shows "0 < fold (factor_step n) [0..<k] (2 ^ 128)
    \<and> \<bar>lg (fold (factor_step n) [0..<k] (2 ^ 128)) - 128 + real_of_int (take_bit k n) * tick_log\<bar> \<le> 2 ^ k / 2 ^ 44 + real k * (4 / 2 ^ 40)"
  using assms
proof (induction k)
  case 0
  then show ?case using lg_power [of 128] by simp
next
  case (Suc k)
  let ?r = "fold (factor_step n) [0..<k] (2 ^ 128)" and ?c = "tick_factors ! k"
  have r: "0 < ?r" and dev: "\<bar>lg ?r - 128 + real_of_int (take_bit k n) * tick_log\<bar> \<le> 2 ^ k / 2 ^ 44 + real k * (4 / 2 ^ 40)"
    using Suc by simp_all
  show ?case
  proof (cases "bit n k")
    case False
    then have "take_bit (Suc k) n = take_bit k n" by (simp add: take_bit_Suc_from_most)
    moreover have "(2 ^ k / 2 ^ 44 :: real) \<le> 2 ^ Suc k / 2 ^ 44" by (simp add: divide_right_mono)
    moreover have "real k * (4 / 2 ^ 40) \<le> real (Suc k) * (4 / 2 ^ 40)" by (intro mult_right_mono) simp_all
    moreover have "fold (factor_step n) [0..<Suc k] (2 ^ 128) = ?r" using False by (simp add: factor_step_def)
    ultimately show ?thesis using r dev by (simp only:) argo
  next
    case True
    have c: "0 < ?c" "\<bar>lg ?c - 128 + 2 ^ k * tick_log\<bar> \<le> 2 ^ k / 2 ^ 44 + 2 / 2 ^ 40"
      using factor_pos factor_lg Suc.prems by simp_all
    have t: "real_of_int (take_bit (Suc k) n) * tick_log = real_of_int (take_bit k n) * tick_log + 2 ^ k * tick_log"
      using True by (simp add: take_bit_Suc_from_most algebra_simps)
    have "take_bit (Suc k) n < 2 ^ 20"
      using take_bit_int_less_exp [of "Suc k" n] power_increasing [of "Suc k" 20 "2 :: int"] Suc.prems by linarith
    then have "real_of_int (take_bit (Suc k) n) * tick_log \<le> 2 ^ 20 * (7214 / 10 ^ 8)"
      using tick_log_bounds by (intro mult_mono) simp_all
    then have 1: "real_of_int (take_bit (Suc k) n) * tick_log \<le> 76" by simp
    have "(2 ^ Suc k / 2 ^ 44 :: real) \<le> 2 ^ 20 / 2 ^ 44"
      using power_increasing [of "Suc k" 20 "2 :: real"] Suc.prems by (intro divide_right_mono) simp_all
    then have 2: "2 * (2 ^ k / 2 ^ 44 :: real) \<le> 1 / 8" by simp
    have 3: "real k * (4 / 2 ^ 40) \<le> 1 / 8" "2 / 2 ^ 40 \<le> (1 / 8 :: real)" using Suc.prems by simp_all
    have "179 \<le> lg ?r + lg ?c" using dev c t 1 2 3 by argo
    note m = mulShift_lg [OF r c(1) this]
    have "fold (factor_step n) [0..<Suc k] (2 ^ 128) = mulShift ?r ?c" using True by (simp add: factor_step_def)
    moreover have "\<bar>lg (mulShift ?r ?c) - 128 + real_of_int (take_bit (Suc k) n) * tick_log\<bar> \<le> 2 ^ Suc k / 2 ^ 44 + real (Suc k) * (4 / 2 ^ 40)"
    proof -
      have "(2 ^ Suc k / 2 ^ 44 :: real) = 2 * (2 ^ k / 2 ^ 44)" by simp
      moreover have "real (Suc k) * (4 / 2 ^ 40) = real k * (4 / 2 ^ 40) + 4 / 2 ^ 40" by (simp add: algebra_simps)
      moreover have "2 / 2 ^ 51 \<le> (2 / 2 ^ 40 :: real)" "4 / 2 ^ 40 = (2 / 2 ^ 40 + 2 / 2 ^ 40 :: real)" by simp_all
      ultimately show ?thesis using m dev c(2) t by argo
    qed
    ultimately show ?thesis using m(3) by metis
  qed
qed

lemma tick_ratio_lg:
  assumes "0 \<le> n" and "n < 2 ^ 20"
  shows "0 < tick_ratio n" and "\<bar>lg (tick_ratio n) - 128 + real_of_int n * tick_log\<bar> \<le> 1 / 2 ^ 23"
proof -
  have "take_bit 20 n = n" using assms by (simp add: take_bit_int_eq_self)
  then have "0 < tick_ratio n" "\<bar>lg (tick_ratio n) - 128 + real_of_int n * tick_log\<bar> \<le> 2 ^ 20 / 2 ^ 44 + 20 * (4 / 2 ^ 40)"
    using ratio_partial [of 20 n] by (simp_all only: tick_ratio_fold order_refl of_nat_numeral)
  then show "0 < tick_ratio n" "\<bar>lg (tick_ratio n) - 128 + real_of_int n * tick_log\<bar> \<le> 1 / 2 ^ 23" by simp_all
qed

text \<open>The ratio with 128 fractional bits, and the price of a tick: that ratio rounded up to 96 bits.\<close>

definition ratioX128 :: "int \<Rightarrow> int" where
  "ratioX128 t = (if t > 0 then MaxUint256 div tick_ratio \<bar>t\<bar> else tick_ratio \<bar>t\<bar>)"

definition sqrt_ratio :: "int \<Rightarrow> int" where
  "sqrt_ratio t = cdiv (ratioX128 t) Q32"

lemma Q32_pos [simp]: "0 < Q32" "Q32 \<noteq> 0" by (simp_all add: Q32_def)

lemma max256_lg: "\<bar>lg MaxUint256 - 256\<bar> \<le> 2 / 2 ^ 40"
proof -
  have "lg (2 ^ 256) \<le> lg MaxUint256 + 2 / 2 ^ 40" "lg MaxUint256 \<le> lg (2 ^ 256) + 2 / 2 ^ 40"
    by (rule near_lg; simp add: MaxUint256_def)+
  then show ?thesis unfolding lg_power of_nat_numeral by argo
qed

lemma ratioX128_lg:
  assumes "\<bar>t\<bar> < 2 ^ 20"
  shows "0 < ratioX128 t" and "\<bar>lg (ratioX128 t) - 128 - real_of_int t * tick_log\<bar> \<le> 2 / 2 ^ 23"
proof -
  let ?r = "tick_ratio \<bar>t\<bar>"
  have r: "0 < ?r" and dev: "\<bar>lg ?r - 128 + real_of_int \<bar>t\<bar> * tick_log\<bar> \<le> 1 / 2 ^ 23"
    using tick_ratio_lg [of "\<bar>t\<bar>"] assms by simp_all
  have "0 < ratioX128 t \<and> \<bar>lg (ratioX128 t) - 128 - real_of_int t * tick_log\<bar> \<le> 2 / 2 ^ 23"
  proof (cases "t > 0")
    case True
    have "0 \<le> real_of_int \<bar>t\<bar> * tick_log" using tick_log_bounds by simp
    moreover have "1 / 2 ^ 23 \<le> (1 / 4 :: real)" by simp
    ultimately have "\<not> real 129 \<le> lg ?r" using dev by (simp only: of_nat_numeral)
    then have "?r < 2 ^ 129" using lg_ge_iff [OF r, of 129] by simp
    then have "2 ^ 100 * ?r \<le> MaxUint256" by (simp add: MaxUint256_def)
    then have k: "2 ^ 100 \<le> MaxUint256 div ?r" using r by (simp only: le_div_iff)
    have M: "0 < MaxUint256" by (simp add: MaxUint256_def)
    have "0 < MaxUint256 div ?r" using k by (rule less_le_trans [rotated]) simp
    moreover have "\<bar>lg (MaxUint256 div ?r) - 128 - real_of_int t * tick_log\<bar> \<le> 2 / 2 ^ 23"
    proof -
      have "2 / 2 ^ 100 \<le> (1 / 2 ^ 24 :: real)" "2 / 2 ^ 40 \<le> (1 / 2 ^ 24 :: real)" "2 / 2 ^ 23 = (1 / 2 ^ 23 + 1 / 2 ^ 24 + 1 / 2 ^ 24 :: real)"
        by simp_all
      moreover have "real_of_int \<bar>t\<bar> * tick_log = real_of_int t * tick_log" using True by simp
      ultimately show ?thesis using lg_div [OF M r k] max256_lg dev by argo
    qed
    ultimately show ?thesis using True by (simp add: ratioX128_def)
  next
    case False
    moreover have "1 / 2 ^ 23 \<le> (2 / 2 ^ 23 :: real)" by simp
    moreover have "real_of_int \<bar>t\<bar> * tick_log = - (real_of_int t * tick_log)" using False by simp
    ultimately show ?thesis using r dev by (simp only: ratioX128_def if_False) argo
  qed
  then show "0 < ratioX128 t" "\<bar>lg (ratioX128 t) - 128 - real_of_int t * tick_log\<bar> \<le> 2 / 2 ^ 23" by simp_all
qed

lemma cdiv_div_mod: "0 < d \<Longrightarrow> cdiv a d = a div d + (if a mod d = 0 then 0 else 1)"
  by (simp add: cdiv_def zdiv_zminus1_eq_if)

lemma getSqrtRatioAtTick_eval:
  assumes "MIN_TICK \<le> t" and "t \<le> MAX_TICK"
  shows "getSqrtRatioAtTick t = Inr (sqrt_ratio t)"
proof -
  have t: "\<bar>t\<bar> < 2 ^ 20" using assms by (simp add: MIN_TICK_def MAX_TICK_def)
  note r = ratioX128_lg(1) [OF t] tick_ratio_lg(1) [OF abs_ge_zero t]
  have "(if t > 0 then bigint_div MaxUint256 (tick_ratio (if t < 0 then t * - 1 else t))
       else Inr (tick_ratio (if t < 0 then t * - 1 else t))) = Inr (ratioX128 t)"
    using r(2) by (auto simp: ratioX128_def abs_if bigint_div_nonneg MaxUint256_def)
  moreover have "bigint_rem (ratioX128 t) Q32 = Inr (ratioX128 t mod Q32)" "bigint_div (ratioX128 t) Q32 = Inr (ratioX128 t div Q32)"
    using r(1) by (simp_all add: bigint_rem_def bigint_div_def trem_def minus_div_mult_eq_mod less_imp_le)
  moreover have "(if ratioX128 t mod Q32 > 0 then ratioX128 t div Q32 + 1 else ratioX128 t div Q32) = sqrt_ratio t"
    using pos_mod_sign [of Q32 "ratioX128 t"] by (simp only: sqrt_ratio_def cdiv_div_mod Q32_pos) (auto simp: le_less)
  ultimately show ?thesis
    using assms unfolding getSqrtRatioAtTick_def Let_def by simp
qed

lemma getSqrtRatioAtTick_throws:
  "t < MIN_TICK \<or> MAX_TICK < t \<Longrightarrow> getSqrtRatioAtTick t = Inl (Invariant ''TICK'')"
  by (auto simp: getSqrtRatioAtTick_def)

section \<open>The price of a tick is strictly increasing\<close>

lemma ratioX128_gap:
  assumes "\<bar>s\<bar> < 2 ^ 20" and "\<bar>t\<bar> < 2 ^ 20" and "s < t"
  shows "ratioX128 s + Q32 \<le> ratioX128 t"
proof (rule ccontr)
  assume "\<not> ratioX128 s + Q32 \<le> ratioX128 t"
  then have less: "ratioX128 t < ratioX128 s + Q32" by simp
  let ?s = "ratioX128 s"
  note s = ratioX128_lg [OF assms(1)] and t = ratioX128_lg [OF assms(2)]
  have "- (2 ^ 20) * (7214 / 10 ^ 8) \<le> real_of_int s * tick_log"
  proof -
    have "- (2 ^ 20) \<le> s" using assms(1) by simp
    then have "- (2 ^ 20) \<le> real_of_int s" by (metis of_int_le_iff of_int_minus of_int_numeral of_int_power)
    then have "- (2 ^ 20) * tick_log \<le> real_of_int s * tick_log" using tick_log_bounds by (intro mult_right_mono) simp_all
    then show ?thesis using tick_log_bounds by simp
  qed
  then have "- 75.7 \<le> real_of_int s * tick_log" by simp
  moreover have small: "2 / 2 ^ 23 \<le> (1 / 4 :: real)" by simp
  ultimately have "real 52 \<le> lg ?s" using s(2) by (simp only: of_nat_numeral)
  then have big: "2 ^ 52 \<le> ?s" using lg_ge_iff [OF s(1), of 52] by simp
  have "lg (ratioX128 t) \<le> lg (?s + Q32)" using less t(1) by simp
  also have "real_of_int (?s + Q32) = real_of_int ?s * (1 + 2 ^ 32 / real_of_int ?s)"
    using s(1) by (simp add: field_simps Q32_def)
  also have "log 2 \<dots> = lg ?s + log 2 (1 + 2 ^ 32 / real_of_int ?s)"
    using s(1) by (intro log_mult_pos) (simp_all add: add_pos_nonneg)
  also have "log 2 (1 + 2 ^ 32 / real_of_int ?s) \<le> 2 * (2 ^ 32 / real_of_int ?s)"
    using s(1) by (intro log2_one_plus) simp
  also have "2 ^ 32 / real_of_int ?s \<le> 2 ^ 32 / 2 ^ 52"
    using big by (intro divide_left_mono) (metis of_int_le_iff of_int_numeral of_int_power, simp_all add: s(1))
  finally have "lg (ratioX128 t) \<le> lg ?s + 2 * (2 ^ 32 / 2 ^ 52)" by simp
  moreover have "real_of_int s * tick_log + tick_log \<le> real_of_int t * tick_log"
  proof -
    have "real_of_int (s + 1) \<le> real_of_int t" using assms(3) by simp
    then have "real_of_int (s + 1) * tick_log \<le> real_of_int t * tick_log"
      using tick_log_bounds by (intro mult_right_mono) simp_all
    then show ?thesis by (simp add: algebra_simps)
  qed
  moreover have "2 * (2 ^ 32 / 2 ^ 52) \<le> (1 / 100000 :: real)" "2 / 2 ^ 23 \<le> (1 / 100000 :: real)" "7 / 100000 \<le> tick_log"
    using tick_log_bounds(1) by simp_all
  ultimately show False using s(2) t(2) by argo
qed

lemma sqrt_ratio_less:
  assumes "\<bar>s\<bar> < 2 ^ 20" and "\<bar>t\<bar> < 2 ^ 20" and "s < t"
  shows "sqrt_ratio s < sqrt_ratio t"
proof -
  have "ratioX128 s \<le> ratioX128 t - Q32" using ratioX128_gap [OF assms] by simp
  also have "\<dots> \<le> (sqrt_ratio t - 1) * Q32"
    using cdiv_self_bound [of Q32 "ratioX128 t"] by (simp add: sqrt_ratio_def algebra_simps)
  finally have "sqrt_ratio s \<le> sqrt_ratio t - 1" unfolding sqrt_ratio_def by (simp only: cdiv_le_iff Q32_pos)
  then show ?thesis by simp
qed

lemma sqrt_ratio_less_iff:
  assumes "\<bar>s\<bar> < 2 ^ 20" and "\<bar>t\<bar> < 2 ^ 20"
  shows "sqrt_ratio s < sqrt_ratio t \<longleftrightarrow> s < t"
  using sqrt_ratio_less [of s t] sqrt_ratio_less [of t s] assms by (cases s t rule: linorder_cases) auto

lemma sqrt_ratio_le_iff:
  assumes "\<bar>s\<bar> < 2 ^ 20" and "\<bar>t\<bar> < 2 ^ 20"
  shows "sqrt_ratio s \<le> sqrt_ratio t \<longleftrightarrow> s \<le> t"
  using sqrt_ratio_less_iff [of t s] assms by (simp flip: not_less)

lemma sqrt_ratio_pos: "\<bar>t\<bar> < 2 ^ 20 \<Longrightarrow> 0 < sqrt_ratio t"
  using ratioX128_lg(1) [of t] less_cdiv_iff [of Q32 0 "ratioX128 t"] by (simp add: sqrt_ratio_def)

lemma MIN_MAX_TICK: "MIN_TICK = - 887272" "MAX_TICK = 887272"
  by (simp_all add: MIN_TICK_def MAX_TICK_def)

lemma sqrt_ratio_ends: "sqrt_ratio MIN_TICK = MIN_SQRT_RATIO" "sqrt_ratio MAX_TICK = MAX_SQRT_RATIO"
proof -
  have "getSqrtRatioAtTick MIN_TICK = Inr MIN_SQRT_RATIO" by code_simp
  then show "sqrt_ratio MIN_TICK = MIN_SQRT_RATIO" by (simp add: getSqrtRatioAtTick_eval MIN_MAX_TICK)
  have "getSqrtRatioAtTick MAX_TICK = Inr MAX_SQRT_RATIO" by code_simp
  then show "sqrt_ratio MAX_TICK = MAX_SQRT_RATIO" by (simp add: getSqrtRatioAtTick_eval MIN_MAX_TICK)
qed

end
