(* ===== verification/V3TickSearch.thy ===== *)
theory V3TickSearch
  imports V3TickFacts
begin

text \<open>
  The search for the tick of a price: its 14 bits of logarithm leave at most two candidates, and
  the one it returns is the greatest tick whose price is not above the given one.
\<close>

section \<open>The logarithm of the price\<close>

text \<open>The mantissa the search starts from, and how it relates to the ratio.\<close>

definition start_mantissa :: "nat \<Rightarrow> int \<Rightarrow> int" where
  "start_mantissa msb R = (if msb \<ge> 128 then drop_bit (msb - 127) R else push_bit (127 - msb) R)"

lemma start_mantissa_lg:
  assumes "2 ^ n \<le> R" and "R < 2 ^ (n + 1)"
  shows "mantissa (start_mantissa n R)" and "\<bar>(lg R - 128) - (lg (start_mantissa n R) - 127 + (real n - 128))\<bar> \<le> 2 / 2 ^ 127"
proof -
  have R: "0 < R" using assms(1) by (rule less_le_trans [rotated]) simp
  have "mantissa (start_mantissa n R) \<and> \<bar>(lg R - 128) - (lg (start_mantissa n R) - 127 + (real n - 128))\<bar> \<le> 2 / 2 ^ 127"
  proof (cases "n \<ge> 128")
    case True
    let ?k = "n - 127"
    have k: "127 + ?k = n" "128 + ?k = n + 1" using True by simp_all
    have "2 ^ 127 * 2 ^ ?k \<le> R" "R < 2 ^ 128 * 2 ^ ?k" unfolding power_add [symmetric] k using assms by simp_all
    then have lo: "2 ^ 127 \<le> R div 2 ^ ?k" and hi: "R div 2 ^ ?k < 2 ^ 128"
      by (simp_all add: le_div_iff div_less_bound)
    have "lg (R div 2 ^ ?k) \<le> lg R - lg (2 ^ ?k)" "lg R - lg (2 ^ ?k) \<le> lg (R div 2 ^ ?k) + 2 / 2 ^ 127"
      using R by (intro lg_div [OF _ _ lo]; simp)+
    moreover have "real ?k = real n - 127" using True by simp
    ultimately show ?thesis
      using True lo hi unfolding lg_power by (simp only: start_mantissa_def mantissa_def drop_bit_eq_div if_True) argo
  next
    case False
    let ?k = "127 - n"
    have k: "n + ?k = 127" "n + 1 + ?k = 128" using False by simp_all
    have "2 ^ n * 2 ^ ?k \<le> R * 2 ^ ?k" "R * 2 ^ ?k < 2 ^ (n + 1) * 2 ^ ?k" using assms by simp_all
    then have "mantissa (R * 2 ^ ?k)" unfolding mantissa_def power_add [symmetric] k by simp
    moreover have "lg (R * 2 ^ ?k) = lg R + lg (2 ^ ?k)" using R by (simp add: log_mult_pos)
    moreover have "real ?k = 127 - real n" using False by simp
    moreover have "(0 :: real) \<le> 2 / 2 ^ 127" by simp
    ultimately show ?thesis
      using False unfolding lg_power by (simp only: start_mantissa_def push_bit_eq_mult if_False) argo
  qed
  then show "mantissa (start_mantissa n R)" "\<bar>(lg R - 128) - (lg (start_mantissa n R) - 127 + (real n - 128))\<bar> \<le> 2 / 2 ^ 127"
    by simp_all
qed

text \<open>After 14 rounds the accumulated logarithm is a multiple of \<open>2 ^ 50\<close> just below that of the ratio.\<close>

lemma search_log:
  assumes "2 ^ n \<le> R" and "R < 2 ^ (n + 1)"
  shows "\<exists>r K. fold log2_step [0..<14] (start_mantissa n R, push_bit 64 (int n - 128)) = (r, K * 2 ^ 50)
    \<and> real_of_int K / 2 ^ 14 \<le> lg R - 128 + 4 / 2 ^ 127 \<and> lg R - 128 \<le> real_of_int (K + 1) / 2 ^ 14 + 4 / 2 ^ 127"
proof -
  note m = start_mantissa_lg [OF assms]
  let ?l = "(int n - 128) * 2 ^ 64"
  obtain r S where S: "fold log2_step [0..<14] (start_mantissa n R, ?l) = (r, ?l + S * 2 ^ (64 - 14))"
    and lo: "real_of_int S / 2 ^ 14 \<le> lg (start_mantissa n R) - 127"
    and hi: "lg (start_mantissa n R) - 127 \<le> (real_of_int S + 1) / 2 ^ 14 + 2 / 2 ^ 127"
    using log2_loop_bounds [OF m(1), of ?l 14] by auto
  let ?K = "(int n - 128) * 2 ^ 14 + S"
  have "?l + S * 2 ^ (64 - 14) = ?K * 2 ^ 50" by (simp add: algebra_simps)
  moreover have "real_of_int ?K / 2 ^ 14 = real_of_int S / 2 ^ 14 + (real n - 128)"
    "real_of_int (?K + 1) / 2 ^ 14 = (real_of_int S + 1) / 2 ^ 14 + (real n - 128)"
    by (simp_all add: field_simps)
  moreover have "2 / 2 ^ 127 + 2 / 2 ^ 127 = (4 / 2 ^ 127 :: real)" "(0 :: real) \<le> 2 / 2 ^ 127" by simp_all
  ultimately have "real_of_int ?K / 2 ^ 14 \<le> lg R - 128 + 4 / 2 ^ 127" "lg R - 128 \<le> real_of_int (?K + 1) / 2 ^ 14 + 4 / 2 ^ 127"
    using lo hi m(2) by argo+
  then show ?thesis
    using S \<open>?l + S * 2 ^ (64 - 14) = ?K * 2 ^ 50\<close> by (intro exI [of _ r] exI [of _ ?K]) (simp only: push_bit_eq_mult)
qed

section \<open>The two candidates\<close>

definition tick_low :: "int \<Rightarrow> int" where
  "tick_low K = (K * 2 ^ 50 * 255738958999603826347141 - 3402992956809132418596140100660247210) div 2 ^ 128"

definition tick_high :: "int \<Rightarrow> int" where
  "tick_high K = (K * 2 ^ 50 * 255738958999603826347141 + 291339464771989622907027621153398088495) div 2 ^ 128"

lemma tick_low_high: "tick_low K \<le> tick_high K" "tick_high K \<le> tick_low K + 1"
proof -
  let ?x = "K * 2 ^ 50 * 255738958999603826347141" and ?a = "3402992956809132418596140100660247210 :: int"
    and ?b = "291339464771989622907027621153398088495 :: int"
  show "tick_low K \<le> tick_high K" unfolding tick_low_def tick_high_def by (intro zdiv_mono1) simp_all
  have "(?x + ?b) div 2 ^ 128 \<le> (?x - ?a + 1 * 2 ^ 128) div 2 ^ 128" by (intro zdiv_mono1) simp_all
  also have "\<dots> = (?x - ?a) div 2 ^ 128 + 1" by (subst div_mult_self1) simp_all
  finally show "tick_high K \<le> tick_low K + 1" unfolding tick_low_def tick_high_def .
qed

lemma tick_log_scale: "real_of_int (K * 2 ^ 50 * 255738958999603826347141) / 2 ^ 128 * tick_log = real_of_int K / 2 ^ 14"
  by (simp add: tick_log_def)

lemma div_real_bounds:
  fixes x :: int
  shows "real_of_int (x div 2 ^ 128) \<le> real_of_int x / 2 ^ 128" "real_of_int x / 2 ^ 128 < real_of_int (x div 2 ^ 128) + 1"
proof -
  have "x div 2 ^ 128 = \<lfloor>real_of_int x / 2 ^ 128\<rfloor>"
    using floor_divide_of_int_eq [of x "2 ^ 128", where 'a = real] by simp
  then show "real_of_int (x div 2 ^ 128) \<le> real_of_int x / 2 ^ 128" "real_of_int x / 2 ^ 128 < real_of_int (x div 2 ^ 128) + 1"
    by linarith+
qed

lemma tick_low_log: "real_of_int (tick_low K) * tick_log \<le> real_of_int K / 2 ^ 14 - 7 / 10000000"
proof -
  let ?x = "K * 2 ^ 50 * 255738958999603826347141" and ?a = "3402992956809132418596140100660247210 :: int"
  have "real_of_int (tick_low K) * tick_log \<le> real_of_int (?x - ?a) / 2 ^ 128 * tick_log"
    unfolding tick_low_def using tick_log_bounds div_real_bounds(1) [of "?x - ?a"] by (intro mult_right_mono) simp_all
  moreover have "real_of_int (?x - ?a) / 2 ^ 128 * tick_log = real_of_int ?x / 2 ^ 128 * tick_log - real_of_int ?a / 2 ^ 128 * tick_log"
    by (simp only: of_int_diff diff_divide_distrib left_diff_distrib)
  moreover have "7 / 10000000 \<le> real_of_int ?a / 2 ^ 128 * tick_log" by (simp add: tick_log_def)
  ultimately show ?thesis unfolding tick_log_scale by argo
qed

lemma tick_high_log: "real_of_int (K + 1) / 2 ^ 14 + 7 / 10000000 \<le> real_of_int (tick_high K + 1) * tick_log"
proof -
  let ?x = "K * 2 ^ 50 * 255738958999603826347141" and ?b = "291339464771989622907027621153398088495 :: int"
  have "real_of_int (K + 1) / 2 ^ 14 = real_of_int K / 2 ^ 14 + 1 / 2 ^ 14" by (simp add: add_divide_distrib)
  moreover have "1 / 2 ^ 14 + 7 / 10000000 \<le> real_of_int ?b / 2 ^ 128 * tick_log" by (simp add: tick_log_def)
  moreover have "real_of_int ?x / 2 ^ 128 * tick_log + real_of_int ?b / 2 ^ 128 * tick_log = real_of_int (?x + ?b) / 2 ^ 128 * tick_log"
    by (simp only: of_int_add add_divide_distrib distrib_right)
  moreover have "real_of_int (?x + ?b) / 2 ^ 128 * tick_log \<le> real_of_int (tick_high K + 1) * tick_log"
    unfolding tick_high_def using tick_log_bounds div_real_bounds(2) [of "?x + ?b"] by (intro mult_right_mono) simp_all
  ultimately show ?thesis unfolding tick_log_scale by argo
qed

text \<open>Prices between \<open>2 ^ 63\<close> and \<open>2 ^ 192\<close> (with 128 fractional bits) have their ticks within 20 bits.\<close>

lemma tick_range:
  assumes "- 65 \<le> real_of_int t * tick_log" and "real_of_int t * tick_log \<le> 65"
  shows "\<bar>t\<bar> < 2 ^ 20"
proof (rule ccontr)
  assume "\<not> \<bar>t\<bar> < 2 ^ 20"
  then have "2 ^ 20 \<le> \<bar>real_of_int t\<bar>" by (metis not_less of_int_abs of_int_le_iff of_int_numeral of_int_power)
  then have "2 ^ 20 * (7213 / 10 ^ 8) \<le> \<bar>real_of_int t\<bar> * tick_log"
    using tick_log_bounds by (intro mult_mono) simp_all
  then have "75 \<le> \<bar>real_of_int t * tick_log\<bar>" using tick_log_bounds by (simp add: abs_mult)
  then show False using assms by argo
qed

lemma candidates:
  assumes "2 ^ 64 \<le> R" and "R < 2 ^ 192"
    and lo: "real_of_int K / 2 ^ 14 \<le> lg R - 128 + 4 / 2 ^ 127"
    and hi: "lg R - 128 \<le> real_of_int (K + 1) / 2 ^ 14 + 4 / 2 ^ 127"
  shows "\<bar>tick_low K\<bar> < 2 ^ 20" and "\<bar>tick_high K + 1\<bar> < 2 ^ 20"
    and "ratioX128 (tick_low K) \<le> R" and "R < ratioX128 (tick_high K + 1)"
proof -
  have R: "0 < R" using assms(1) by (rule less_le_trans [rotated]) simp
  have lgR: "64 \<le> lg R" "lg R \<le> 192"
    using lg_ge_iff [OF R, of 64] lg_ge_iff [OF R, of 192] assms(1,2) by simp_all
  have e: "4 / 2 ^ 127 \<le> (1 / 10000000 :: real)" "2 / 2 ^ 23 \<le> (3 / 10000000 :: real)" by simp_all
  have step: "real_of_int (tick_high K + 1) * tick_log \<le> real_of_int (tick_low K) * tick_log + 2 * tick_log"
  proof -
    have "real_of_int (tick_high K + 1) \<le> real_of_int (tick_low K) + 2" using tick_low_high(2) [of K] by linarith
    then have "real_of_int (tick_high K + 1) * tick_log \<le> (real_of_int (tick_low K) + 2) * tick_log"
      using tick_log_bounds by (intro mult_right_mono) simp_all
    then show ?thesis by (simp add: distrib_right)
  qed
  have small: "tick_log \<le> 1 / 8" "0 \<le> tick_log" using tick_log_bounds by simp_all
  show low: "\<bar>tick_low K\<bar> < 2 ^ 20" "\<bar>tick_high K + 1\<bar> < 2 ^ 20"
    using tick_low_log [of K] tick_high_log [of K] step lo hi lgR e small by (intro tick_range; argo)+
  note l = ratioX128_lg [OF low(1)] and h = ratioX128_lg [OF low(2)]
  have "lg (ratioX128 (tick_low K)) \<le> lg R" using l(2) tick_low_log [of K] lo e by argo
  then show "ratioX128 (tick_low K) \<le> R" using l(1) R by simp
  have "lg R < lg (ratioX128 (tick_high K + 1))" using h(2) tick_high_log [of K] hi e by argo
  then show "R < ratioX128 (tick_high K + 1)" using h(1) R by simp
qed

section \<open>The search returns the greatest tick below the price\<close>

lemma getTickAtSqrtRatio_spec:
  assumes "MIN_SQRT_RATIO \<le> s" and "s < MAX_SQRT_RATIO"
  shows "\<exists>t. getTickAtSqrtRatio s = Inr t \<and> MIN_TICK \<le> t \<and> t < MAX_TICK \<and> sqrt_ratio t \<le> s \<and> s < sqrt_ratio (t + 1)"
proof -
  let ?R = "s * Q32"
  have R: "2 ^ 64 \<le> ?R" "?R < 2 ^ 192" "0 < ?R" "?R \<le> MaxUint256"
    using assms by (simp_all add: MIN_SQRT_RATIO_def MAX_SQRT_RATIO_def Q32_def MaxUint256_def)
  obtain n where n: "mostSignificantBit ?R = Inr n" "2 ^ n \<le> ?R" "?R < 2 ^ (n + 1)"
    using mostSignificantBit_spec [OF R(3,4)] by auto
  obtain r K where K: "fold log2_step [0..<14] (start_mantissa n ?R, push_bit 64 (int n - 128)) = (r, K * 2 ^ 50)"
    and lo: "real_of_int K / 2 ^ 14 \<le> lg ?R - 128 + 4 / 2 ^ 127" and hi: "lg ?R - 128 \<le> real_of_int (K + 1) / 2 ^ 14 + 4 / 2 ^ 127"
    using search_log [OF n(2,3)] by auto
  note c = candidates [OF R(1,2) lo hi]
  have low: "sqrt_ratio (tick_low K) \<le> s" using c(3) by (simp add: sqrt_ratio_def cdiv_le_iff)
  have high: "s < sqrt_ratio (tick_high K + 1)" using c(4) by (simp add: sqrt_ratio_def less_cdiv_iff)
  have ends: "\<bar>MIN_TICK\<bar> < 2 ^ 20" "\<bar>MAX_TICK\<bar> < 2 ^ 20" by (simp_all add: MIN_MAX_TICK)
  have "sqrt_ratio (tick_low K) < sqrt_ratio MAX_TICK" using low assms(2) by (simp add: sqrt_ratio_ends)
  then have below: "tick_low K < MAX_TICK" using sqrt_ratio_less_iff [OF c(1) ends(2)] by simp
  have "sqrt_ratio MIN_TICK < sqrt_ratio (tick_high K + 1)" using high assms(1) by (simp add: sqrt_ratio_ends)
  then have above: "MIN_TICK \<le> tick_high K" using sqrt_ratio_less_iff [OF ends(1) c(2)] by simp
  have call: "getTickAtSqrtRatio s =
      (if tick_low K = tick_high K then Inr (tick_low K)
       else bindS (getSqrtRatioAtTick (tick_high K)) (\<lambda>h. Inr (if h \<le> s then tick_high K else tick_low K)))"
  proof -
    have "push_bit 32 s = ?R" by (simp add: push_bit_eq_mult Q32_def)
    then show ?thesis
      using assms n(1) K unfolding getTickAtSqrtRatio_def start_mantissa_def
      by (simp only: Let_def invariantS_simps bindS_simps case_prod_conv simp_thms drop_bit_eq_div tick_low_def tick_high_def)
  qed
  consider "tick_high K = tick_low K" | "tick_high K = tick_low K + 1" using tick_low_high [of K] by linarith
  then show ?thesis
  proof cases
    case 1
    then show ?thesis using call low high above below by simp
  next
    case 2
    then have "getSqrtRatioAtTick (tick_high K) = Inr (sqrt_ratio (tick_high K))"
      using above below by (intro getSqrtRatioAtTick_eval) simp_all
    moreover have "MIN_TICK \<le> tick_low K" if "\<not> sqrt_ratio (tick_high K) \<le> s"
    proof -
      have "sqrt_ratio MIN_TICK < sqrt_ratio (tick_high K)" using that assms(1) by (simp add: sqrt_ratio_ends)
      moreover have "\<bar>tick_high K\<bar> < 2 ^ 20" using above below 2 by (simp add: MIN_MAX_TICK)
      ultimately show ?thesis using sqrt_ratio_less_iff [OF ends(1)] 2 by simp
    qed
    moreover have "tick_high K < MAX_TICK" if "sqrt_ratio (tick_high K) \<le> s"
    proof -
      have "sqrt_ratio (tick_high K) < sqrt_ratio MAX_TICK" using that assms(2) by (simp add: sqrt_ratio_ends)
      moreover have "\<bar>tick_high K\<bar> < 2 ^ 20" using above below 2 by (simp add: MIN_MAX_TICK)
      ultimately show ?thesis using sqrt_ratio_less_iff [OF _ ends(2)] by simp
    qed
    ultimately show ?thesis
      using call low high above below 2 by (cases "sqrt_ratio (tick_high K) \<le> s") (simp_all add: not_le)
  qed
qed

end
