(* ===== verification/V3Swap.thy ===== *)
theory V3Swap
  imports V3Pool V3SwapStep V3TickSearch
begin

text \<open>
  The swap loop of a V3 pool.  Every round keeps the invariant of the state: the price lies within
  its tick, the liquidity is the net liquidity of the ticks up to it, and the price has moved
  toward the limit and not past it.  A round that does not end the swap moves the tick, so the loop
  returns.  The lemmas are proved in the locale \<open>tick_provider\<close>, for every provider that answers
  as its interface promises.
\<close>

section \<open>One step in a direction\<close>

text \<open>\<open>ahead z p t\<close>: the price \<open>t\<close> lies in the direction of the swap.\<close>

definition ahead :: "bool \<Rightarrow> int \<Rightarrow> int \<Rightarrow> bool" where
  "ahead z p t \<longleftrightarrow> (if z then t \<le> p else p \<le> t)"

lemma toward_ahead: "ahead z p t \<Longrightarrow> toward (t \<le> p) p t n \<Longrightarrow> toward z p t n"
  by (auto simp: ahead_def toward_def split: if_splits)

text \<open>Prices within the range of the ticks, with their sizes.\<close>

definition price_sized :: "int \<Rightarrow> bool" where
  "price_sized p \<longleftrightarrow> 2 ^ 32 \<le> p \<and> p \<le> 2 ^ 160"

text \<open>The most one step can pay or charge.\<close>

definition step_bound :: int where
  "step_bound = 2 ^ 213"

lemma toward_sized: "toward z p t n \<Longrightarrow> price_sized p \<Longrightarrow> price_sized t \<Longrightarrow> price_sized n"
  by (auto simp: toward_def price_sized_def split: if_splits)

lemma step_spec:
  assumes "price_sized p" and "price_sized t" and "0 \<le> L" and "L < 2 ^ 128" and "0 \<le> fee" and "fee < MAX_FEE" and "ahead z p t"
  shows "\<exists>step. computeSwapStep p t L a fee = Inr step \<and> toward z p t (sqrtRatioNextX96 step)
    \<and> 0 \<le> amountIn step \<and> 0 \<le> amountOut step \<and> 0 \<le> feeAmount step \<and> amountOut step \<le> step_bound
    \<and> (0 \<le> a \<longrightarrow> amountIn step + feeAmount step \<le> a \<and> (sqrtRatioNextX96 step \<noteq> t \<longrightarrow> amountIn step + feeAmount step = a))
    \<and> (a < 0 \<longrightarrow> amountOut step \<le> - a \<and> (sqrtRatioNextX96 step \<noteq> t \<longrightarrow> amountOut step = - a)
         \<and> amountIn step + feeAmount step \<le> step_bound)"
proof -
  have pos: "0 < p" "0 < t" using assms(1,2) by (auto simp: price_sized_def intro: less_le_trans)
  have sizes: "0 \<le> in_up z' p n L \<and> 0 \<le> out_down z' p n L \<and> in_up z' p n L \<le> 2 ^ 192 \<and> out_down z' p n L \<le> 2 ^ 192"
    if "0 < n" "toward z' p t n" for n z'
    using step_amounts_nonneg [OF pos(1) that(1) toward_self [OF that(2)] assms(3)]
      step_amounts_bound [of p n z' L] toward_self [OF that(2)] toward_sized [OF that(2) assms(1,2)] assms(1,3,4)
    by (simp add: price_sized_def)
  have big: "2 ^ 192 \<le> step_bound" "2 ^ 192 + 2 ^ 192 * MAX_FEE \<le> step_bound" by (simp_all add: step_bound_def MAX_FEE_def)
  show ?thesis
  proof (cases "0 \<le> a")
    case True
    obtain n f where s: "computeSwapStep p t L a fee =
        Inr \<lparr>sqrtRatioNextX96 = n, amountIn = in_up (t \<le> p) p n L, amountOut = out_down (t \<le> p) p n L, feeAmount = f\<rparr>"
      "0 < n" "toward (t \<le> p) p t n" "0 \<le> f" "in_up (t \<le> p) p n L + f \<le> a" "n \<noteq> t \<longrightarrow> in_up (t \<le> p) p n L + f = a"
      using computeSwapStep_exact_in [OF pos assms(3) True assms(5,6) refl] by auto
    then show ?thesis using sizes [OF s(2,3)] toward_ahead [OF assms(7) s(3)] True big by simp
  next
    case False
    then have a: "a < 0" by simp
    let ?f = "\<lambda>n. cdiv (in_up (t \<le> p) p n L * fee) (MAX_FEE - fee)"
    obtain n where s: "computeSwapStep p t L a fee =
        Inr \<lparr>sqrtRatioNextX96 = n, amountIn = in_up (t \<le> p) p n L, amountOut = min (- a) (out_down (t \<le> p) p n L), feeAmount = ?f n\<rparr>"
      "0 < n" "toward (t \<le> p) p t n" "0 \<le> ?f n" "n \<noteq> t \<longrightarrow> - a \<le> out_down (t \<le> p) p n L"
      using computeSwapStep_exact_out [OF pos assms(3,4) a assms(5,6) refl] by blast
    note z = sizes [OF s(2,3)]
    have "in_up (t \<le> p) p n L * MAX_FEE \<le> 2 ^ 192 * MAX_FEE" using z by (intro mult_right_mono) (simp_all add: MAX_FEE_def)
    then have "in_up (t \<le> p) p n L + ?f n \<le> step_bound"
      using fee_bound [of "in_up (t \<le> p) p n L" fee] z assms(5,6) big(2) by linarith
    then show ?thesis using s z toward_ahead [OF assms(7) s(3)] a big(1) by auto
  qed
qed

section \<open>Prices and ticks\<close>

definition price_in_tick :: "int \<Rightarrow> int \<Rightarrow> bool" where
  "price_in_tick t p \<longleftrightarrow> MIN_TICK \<le> t \<and> t < MAX_TICK \<and> sqrt_ratio t \<le> p \<and> p \<le> sqrt_ratio (t + 1)"

lemma tick_small: "MIN_TICK \<le> t \<Longrightarrow> t \<le> MAX_TICK \<Longrightarrow> \<bar>t\<bar> < 2 ^ 20"
  by (simp add: MIN_MAX_TICK)

lemma price_in_tick_pos: "price_in_tick t p \<Longrightarrow> 0 < p"
  using sqrt_ratio_pos [OF tick_small, of t] by (force simp: price_in_tick_def)

lemma sqrt_ratio_mono: "MIN_TICK \<le> s \<Longrightarrow> s \<le> t \<Longrightarrow> t \<le> MAX_TICK \<Longrightarrow> sqrt_ratio s \<le> sqrt_ratio t"
  using sqrt_ratio_le_iff [OF tick_small tick_small, of s t] by simp

lemma sqrt_ratio_cancel:
  "sqrt_ratio s < sqrt_ratio t \<Longrightarrow> MIN_TICK \<le> s \<Longrightarrow> s \<le> MAX_TICK \<Longrightarrow> MIN_TICK \<le> t \<Longrightarrow> t \<le> MAX_TICK \<Longrightarrow> s < t"
  using sqrt_ratio_less_iff [OF tick_small tick_small, of s t] by simp

lemma price_range:
  assumes "price_in_tick t p"
  shows "MIN_SQRT_RATIO \<le> p" and "p \<le> MAX_SQRT_RATIO"
  using assms sqrt_ratio_mono [of MIN_TICK t] sqrt_ratio_mono [of "t + 1" MAX_TICK] sqrt_ratio_ends
  by (auto simp: price_in_tick_def)

lemma price_in_tick_sized: "price_in_tick t p \<Longrightarrow> price_sized p"
  using price_range [of t p] by (auto simp: price_sized_def MIN_SQRT_RATIO_def MAX_SQRT_RATIO_def)

section \<open>The invariant of the swap\<close>

text \<open>The limit is admissible and the price has not passed it.\<close>

definition within_limit :: "bool \<Rightarrow> int \<Rightarrow> int \<Rightarrow> bool" where
  "within_limit z limit p \<longleftrightarrow> (if z then MIN_SQRT_RATIO < limit \<and> limit \<le> p else p \<le> limit \<and> limit < MAX_SQRT_RATIO)"

text \<open>In \<open>k\<close> rounds the amounts only move one way, do not overshoot, and move by a bounded amount.\<close>

definition amounts_progress :: "nat \<Rightarrow> bool \<Rightarrow> SwapState \<Rightarrow> SwapState \<Rightarrow> bool" where
  "amounts_progress k exactInput st st' \<longleftrightarrow>
     (if exactInput
      then 0 \<le> amountSpecifiedRemaining st' \<and> amountSpecifiedRemaining st' \<le> amountSpecifiedRemaining st
           \<and> amountCalculated st' \<le> amountCalculated st \<and> amountCalculated st - amountCalculated st' \<le> int k * step_bound
      else amountSpecifiedRemaining st \<le> amountSpecifiedRemaining st' \<and> amountSpecifiedRemaining st' \<le> 0
           \<and> amountCalculated st \<le> amountCalculated st' \<and> amountCalculated st' - amountCalculated st \<le> int k * step_bound)"

definition right_sign :: "bool \<Rightarrow> SwapState \<Rightarrow> bool" where
  "right_sign exactInput st \<longleftrightarrow> (if exactInput then 0 \<le> amountSpecifiedRemaining st else amountSpecifiedRemaining st \<le> 0)"

definition swap_done :: "int \<Rightarrow> SwapState \<Rightarrow> bool" where
  "swap_done limit st \<longleftrightarrow> amountSpecifiedRemaining st = 0 \<or> sqrtPriceX96 st = limit"

definition ticks_left :: "bool \<Rightarrow> int \<Rightarrow> nat" where
  "ticks_left z t = nat (if z then t - MIN_TICK else MAX_TICK - t)"

lemma amounts_progress_refl: "right_sign e st \<Longrightarrow> amounts_progress 0 e st st"
  by (auto simp: amounts_progress_def right_sign_def)

lemma amounts_progress_trans: "amounts_progress j e a b \<Longrightarrow> amounts_progress k e b c \<Longrightarrow> amounts_progress (j + k) e a c"
  by (auto simp: amounts_progress_def distrib_right split: if_splits)

lemma amounts_progress_mono: "amounts_progress j e a b \<Longrightarrow> j \<le> k \<Longrightarrow> amounts_progress k e a b"
proof -
  assume "amounts_progress j e a b" and "j \<le> k"
  then have "int j * step_bound \<le> int k * step_bound" by (intro mult_right_mono) (simp_all add: step_bound_def)
  then show ?thesis using \<open>amounts_progress j e a b\<close> unfolding amounts_progress_def by (auto split: if_splits)
qed

lemma amounts_progress_sign: "amounts_progress k e a b \<Longrightarrow> right_sign e b"
  by (auto simp: amounts_progress_def right_sign_def)

lemma toward_trans: "toward z p l n \<Longrightarrow> toward z n l m \<Longrightarrow> toward z p l m"
  by (auto simp: toward_def split: if_splits)

text \<open>The state after the amounts and the price have been updated, before the tick is.\<close>

definition after_step :: "bool \<Rightarrow> SwapState \<Rightarrow> SwapStep \<Rightarrow> SwapState" where
  "after_step exactInput st step =
     (if exactInput
      then st\<lparr>amountSpecifiedRemaining := amountSpecifiedRemaining st - (amountIn step + feeAmount step),
              amountCalculated := amountCalculated st - amountOut step, sqrtPriceX96 := sqrtRatioNextX96 step\<rparr>
      else st\<lparr>amountSpecifiedRemaining := amountSpecifiedRemaining st + amountOut step,
              amountCalculated := amountCalculated st + (amountIn step + feeAmount step), sqrtPriceX96 := sqrtRatioNextX96 step\<rparr>)"

lemma after_step_sel [simp]:
  "sqrtPriceX96 (after_step e st step) = sqrtRatioNextX96 step"
  "tick (after_step e st step) = tick st"
  "liquidity (after_step e st step) = liquidity st"
  by (simp_all add: after_step_def)

lemma after_step_progress:
  assumes "computeSwapStep p t L (amountSpecifiedRemaining st) fee = Inr step" and "right_sign e st" and "amountSpecifiedRemaining st \<noteq> 0"
    and "price_sized p" and "price_sized t" and "0 \<le> L" and "L < 2 ^ 128" and "0 \<le> fee" and "fee < MAX_FEE" and "ahead z p t"
  shows "toward z p t (sqrtRatioNextX96 step)" and "amounts_progress 1 e st (after_step e st step)"
    and "sqrtRatioNextX96 step \<noteq> t \<Longrightarrow> amountSpecifiedRemaining (after_step e st step) = 0"
  using step_spec [OF assms(4-10), of "amountSpecifiedRemaining st"] assms(1-3)
  by (auto simp: right_sign_def amounts_progress_def after_step_def split: if_splits)

definition clamp_tick :: "int \<Rightarrow> int" where
  "clamp_tick t = (if t < MIN_TICK then MIN_TICK else if t > MAX_TICK then MAX_TICK else t)"

text \<open>The round, with its parts named.\<close>

definition step_target :: "bool \<Rightarrow> int \<Rightarrow> int \<Rightarrow> int" where
  "step_target z limit next = (if (if z then next < limit else next > limit) then limit else next)"

definition finish_round :: "TickDataProvider \<Rightarrow> bool \<Rightarrow> int \<Rightarrow> bool \<Rightarrow> int \<Rightarrow> int \<Rightarrow> SwapState \<Rightarrow> SwapState run" where
  "finish_round provider z n initialized nextPrice oldPrice st =
     (if sqrtPriceX96 st = nextPrice then
        bindR (if initialized
               then bindR (provider_getTick provider n) (\<lambda>net. Some (Inr (addDelta (liquidity st) (if z then net * (- 1) else net))))
               else Some (Inr (liquidity st))) (\<lambda>L.
          Some (Inr (st\<lparr>liquidity := L, tick := (if z then n - 1 else n)\<rparr>)))
      else if sqrtPriceX96 st \<noteq> oldPrice then
        bindR (runS (getTickAtSqrtRatio (sqrtPriceX96 st))) (\<lambda>t. Some (Inr (st\<lparr>tick := t\<rparr>)))
      else Some (Inr st))"

lemma swap_round_eval:
  assumes "provider_nextInitializedTickWithinOneWord provider (tick st) z spacing = Some (Inr (found, initialized))"
    and "computeSwapStep (sqrtPriceX96 st) (step_target z limit (sqrt_ratio (clamp_tick found))) (liquidity st)
           (amountSpecifiedRemaining st) fee = Inr step"
  shows "swap_round provider spacing fee e z limit st =
    finish_round provider z (clamp_tick found) initialized (sqrt_ratio (clamp_tick found)) (sqrtPriceX96 st) (after_step e st step)"
proof -
  have "getSqrtRatioAtTick (clamp_tick found) = Inr (sqrt_ratio (clamp_tick found))"
    by (rule getSqrtRatioAtTick_eval) (simp_all add: clamp_tick_def MIN_MAX_TICK)
  then show ?thesis
    using assms unfolding swap_round_def finish_round_def Let_def clamp_tick_def [symmetric] step_target_def [symmetric] after_step_def [symmetric]
    by simp
qed

context tick_provider
begin

definition state_ok :: "'s \<Rightarrow> SwapState \<Rightarrow> bool" where
  "state_ok s st \<longleftrightarrow> price_in_tick (tick st) (sqrtPriceX96 st) \<and> liquidity st = liquidity_at s (tick st)"

definition liquid :: "'s \<Rightarrow> bool" where
  "liquid s \<longleftrightarrow> (\<forall>t. 0 \<le> liquidity_at s t \<and> liquidity_at s t < 2 ^ 128)"

text \<open>No initialized tick is skipped between the tick \<open>t\<close> and the next one \<open>n\<close>.\<close>

definition adjacent :: "'s \<Rightarrow> bool \<Rightarrow> int \<Rightarrow> int \<Rightarrow> bool" where
  "adjacent s z t n \<longleftrightarrow>
     MIN_TICK \<le> n \<and> n \<le> MAX_TICK \<and> (if z then n \<le> t else t < n)
     \<and> (\<forall>u \<in> indices s. if z then u \<le> t \<longrightarrow> u \<le> n else t < u \<longrightarrow> n \<le> u)"

lemma next_tick:
  assumes "invar s" and "0 < spacing" and "MIN_TICK \<le> t" and "t < MAX_TICK"
  shows "\<exists>found b. provider_nextInitializedTickWithinOneWord (provider s) t z spacing = Some (Inr (found, b))
    \<and> adjacent s z t (clamp_tick found) \<and> (b \<longleftrightarrow> clamp_tick found \<in> indices s)"
proof -
  have small: "\<bar>t\<bar> < 2 ^ 20" using tick_small assms(3,4) by simp
  have range: "MIN_TICK \<le> u \<and> u \<le> MAX_TICK" if "u \<in> indices s" for u using indices_range [OF assms(1) that] .
  show ?thesis
  proof (cases z)
    case True
    obtain found b where f: "provider_nextInitializedTickWithinOneWord (provider s) t True spacing = Some (Inr (found, b))"
        "found \<le> t" "\<forall>u \<in> indices s. u \<le> t \<longrightarrow> u \<le> found" "b \<longleftrightarrow> found \<in> indices s"
      using next_down [OF assms(1,2) small] by auto
    have "adjacent s True t (clamp_tick found) \<and> (b \<longleftrightarrow> clamp_tick found \<in> indices s)"
    proof (cases "found < MIN_TICK")
      case True
      then have "\<not> u \<le> t" if "u \<in> indices s" for u using f(3) range [OF that] that by fastforce
      moreover have "\<not> b" using f(4) range True by fastforce
      ultimately show ?thesis using True assms(3,4) by (auto simp: adjacent_def clamp_tick_def MIN_MAX_TICK)
    next
      case False
      then have "clamp_tick found = found" using f(2) assms(4) by (simp add: clamp_tick_def)
      then show ?thesis using f False assms(4) by (simp add: adjacent_def)
    qed
    then show ?thesis using f(1) True by auto
  next
    case False
    obtain found b where f: "provider_nextInitializedTickWithinOneWord (provider s) t False spacing = Some (Inr (found, b))"
        "t < found" "\<forall>u \<in> indices s. t < u \<longrightarrow> found \<le> u" "b \<longleftrightarrow> found \<in> indices s"
      using next_up [OF assms(1,2) small] by auto
    have "adjacent s False t (clamp_tick found) \<and> (b \<longleftrightarrow> clamp_tick found \<in> indices s)"
    proof (cases "MAX_TICK < found")
      case True
      then have "\<not> t < u" if "u \<in> indices s" for u using f(3) range [OF that] that by fastforce
      moreover have "\<not> b" using f(4) range True by fastforce
      ultimately show ?thesis using True assms(3,4) by (auto simp: adjacent_def clamp_tick_def MIN_MAX_TICK)
    next
      case False
      then have "clamp_tick found = found" using f(2) assms(3) by (simp add: clamp_tick_def)
      then show ?thesis using f False assms(3) by (simp add: adjacent_def)
    qed
    then show ?thesis using f(1) False by auto
  qed
qed

text \<open>The liquidity beyond the next tick, and at any tick before it.\<close>

lemma liquidity_beyond:
  assumes "adjacent s z t n"
  shows "liquidity_at s (if z then n - 1 else n) =
    liquidity_at s t + (if n \<in> indices s then (if z then - net s n else net s n) else 0)"
proof (cases z)
  case True
  then have "liquidity_at s t = liquidity_at s n"
    using assms by (intro liquidity_at_same) (auto simp: adjacent_def)
  then show ?thesis using True liquidity_at_cross [of n s] liquidity_at_skip [of n s] by auto
next
  case False
  then have "liquidity_at s (n - 1) = liquidity_at s t"
    using assms by (intro liquidity_at_same) (force simp: adjacent_def)+
  then show ?thesis using False liquidity_at_cross [of n s] liquidity_at_skip [of n s] by auto
qed

lemma liquidity_before:
  assumes "adjacent s z t n" and "if z then n \<le> m \<and> m \<le> t else t \<le> m \<and> m < n"
  shows "liquidity_at s m = liquidity_at s t"
proof (cases z)
  case True
  then show ?thesis using assms by (intro liquidity_at_same [symmetric]) (force simp: adjacent_def)+
next
  case False
  then show ?thesis using assms by (intro liquidity_at_same) (force simp: adjacent_def)+
qed

lemma finish_crossing:
  assumes "invar s" and "adjacent s z t n" and "b \<longleftrightarrow> n \<in> indices s"
    and "sqrtPriceX96 st = sqrt_ratio n" and "within_limit z limit (sqrt_ratio n)" and "liquidity st = liquidity_at s t" and "tick st = t"
  shows "\<exists>st'. finish_round (provider s) z n b (sqrt_ratio n) p st = Some (Inr st') \<and> state_ok s st'
    \<and> ticks_left z (tick st') < ticks_left z t \<and> MIN_TICK \<le> tick st' \<and> tick st' < MAX_TICK
    \<and> sqrtPriceX96 st' = sqrtPriceX96 st \<and> amountSpecifiedRemaining st' = amountSpecifiedRemaining st \<and> amountCalculated st' = amountCalculated st"
proof -
  let ?t = "if z then n - 1 else n"
  have n: "MIN_TICK \<le> n" "n \<le> MAX_TICK" using assms(2) by (simp_all add: adjacent_def)
  have inside: "if z then MIN_TICK < n else n < MAX_TICK"
    using assms(5) n sqrt_ratio_ends by (cases "n = MIN_TICK"; cases "n = MAX_TICK") (auto simp: within_limit_def split: if_splits)
  have L: "liquidity_at s ?t = liquidity st + (if b then (if z then - net s n else net s n) else 0)"
    using liquidity_beyond [OF assms(2)] assms(3,6) by simp
  let ?st = "st\<lparr>liquidity := liquidity_at s ?t, tick := ?t\<rparr>"
  have "finish_round (provider s) z n b (sqrt_ratio n) p st = Some (Inr ?st)"
    using assms(3,4) getTick_law [OF assms(1), of n] L by (auto simp: finish_round_def)
  moreover have "price_in_tick ?t (sqrt_ratio n)"
    using inside n sqrt_ratio_mono [of "n - 1" n] sqrt_ratio_mono [of n "n + 1"] by (auto simp: price_in_tick_def)
  moreover have "ticks_left z ?t < ticks_left z t"
    using assms(2) inside n by (auto simp: ticks_left_def adjacent_def)
  ultimately show ?thesis
    using assms(4) inside n by (intro exI [of _ ?st]) (auto simp: state_ok_def price_in_tick_def)
qed

lemma finish_inside:
  assumes "adjacent s z t n" and "price_in_tick t p" and "liquidity st = liquidity_at s t"
    and "sqrtPriceX96 st \<noteq> sqrt_ratio n" and "sqrtPriceX96 st \<noteq> p" and "toward z p (sqrt_ratio n) (sqrtPriceX96 st)"
    and "within_limit z limit (sqrtPriceX96 st)"
  shows "\<exists>st'. finish_round (provider s) z n b (sqrt_ratio n) p st = Some (Inr st') \<and> state_ok s st'
    \<and> sqrtPriceX96 st' = sqrtPriceX96 st \<and> amountSpecifiedRemaining st' = amountSpecifiedRemaining st \<and> amountCalculated st' = amountCalculated st"
proof -
  let ?p = "sqrtPriceX96 st"
  have n: "MIN_TICK \<le> n" "n \<le> MAX_TICK" using assms(1) by (simp_all add: adjacent_def)
  have t: "MIN_TICK \<le> t" "t < MAX_TICK" "sqrt_ratio t \<le> p" "p \<le> sqrt_ratio (t + 1)" using assms(2) by (simp_all add: price_in_tick_def)
  have between: "if z then sqrt_ratio n < ?p \<and> ?p < p else p < ?p \<and> ?p < sqrt_ratio n"
    using assms(4-6) by (auto simp: toward_def split: if_splits)
  have "MIN_SQRT_RATIO \<le> ?p" "?p < MAX_SQRT_RATIO"
    using between price_range [OF assms(2)] assms(7) by (auto simp: within_limit_def split: if_splits)
  then obtain m where m: "getTickAtSqrtRatio ?p = Inr m" "MIN_TICK \<le> m" "m < MAX_TICK" "sqrt_ratio m \<le> ?p" "?p < sqrt_ratio (m + 1)"
    using getTickAtSqrtRatio_spec by blast
  have "if z then n \<le> m \<and> m \<le> t else t \<le> m \<and> m < n"
  proof (cases z)
    case True
    have "sqrt_ratio n < sqrt_ratio (m + 1)" "sqrt_ratio m < sqrt_ratio (t + 1)" using True between m t by simp_all
    then show ?thesis using True sqrt_ratio_cancel [of n "m + 1"] sqrt_ratio_cancel [of m "t + 1"] m t n by simp
  next
    case False
    have "sqrt_ratio t < sqrt_ratio (m + 1)" "sqrt_ratio m < sqrt_ratio n" using False between m t by simp_all
    then show ?thesis using False sqrt_ratio_cancel [of t "m + 1"] sqrt_ratio_cancel [of m n] m t n by simp
  qed
  note L = liquidity_before [OF assms(1) this]
  have "finish_round (provider s) z n b (sqrt_ratio n) p st = Some (Inr (st\<lparr>tick := m\<rparr>))"
    using assms(4,5) m(1) by (simp add: finish_round_def)
  then show ?thesis
    using m L assms(3) by (intro exI [of _ "st\<lparr>tick := m\<rparr>"]) (simp add: state_ok_def price_in_tick_def)
qed

text \<open>The target of a step lies ahead, and between the price and both the limit and the next tick's price.\<close>

lemma target_ahead:
  assumes "adjacent s z t n" and "price_in_tick t p" and "within_limit z limit p"
  shows "ahead z p (step_target z limit (sqrt_ratio n))" and "price_sized (step_target z limit (sqrt_ratio n))"
proof -
  have n: "MIN_TICK \<le> n" "n \<le> MAX_TICK" "if z then n \<le> t else t < n" using assms(1) by (simp_all add: adjacent_def)
  have t: "MIN_TICK \<le> t" "t < MAX_TICK" "sqrt_ratio t \<le> p" "p \<le> sqrt_ratio (t + 1)" using assms(2) by (simp_all add: price_in_tick_def)
  have "ahead z p (sqrt_ratio n)"
    using sqrt_ratio_mono [of n t] sqrt_ratio_mono [of "t + 1" n] n t by (auto simp: ahead_def split: if_splits)
  then show "ahead z p (step_target z limit (sqrt_ratio n))"
    using assms(3) by (auto simp: ahead_def step_target_def within_limit_def split: if_splits)
  have "MIN_SQRT_RATIO \<le> sqrt_ratio n" "sqrt_ratio n \<le> MAX_SQRT_RATIO"
    using sqrt_ratio_mono [of MIN_TICK n] sqrt_ratio_mono [of n MAX_TICK] n sqrt_ratio_ends by simp_all
  then show "price_sized (step_target z limit (sqrt_ratio n))"
    using assms(3) price_range [OF assms(2)]
    by (auto simp: price_sized_def step_target_def within_limit_def MIN_SQRT_RATIO_def MAX_SQRT_RATIO_def split: if_splits)
qed

lemma target_between:
  assumes "toward z p (step_target z limit q) m" and "ahead z p q" and "within_limit z limit p"
  shows "toward z p q m" and "toward z p limit m" and "within_limit z limit m"
    and "m = step_target z limit q \<Longrightarrow> m = q \<or> m = limit"
  using assms by (auto simp: toward_def ahead_def step_target_def within_limit_def split: if_splits)

lemma round_progress:
  assumes "invar s" and "liquid s" and "0 < spacing" and "0 \<le> fee" and "fee < MAX_FEE"
    and "state_ok s st" and "within_limit z limit (sqrtPriceX96 st)" and "right_sign e st" and "\<not> swap_done limit st"
  shows "\<exists>st'. swap_round (provider s) spacing fee e z limit st = Some (Inr st') \<and> state_ok s st'
    \<and> within_limit z limit (sqrtPriceX96 st') \<and> toward z (sqrtPriceX96 st) limit (sqrtPriceX96 st') \<and> amounts_progress 1 e st st'
    \<and> (swap_done limit st' \<or> ticks_left z (tick st') < ticks_left z (tick st))"
proof -
  let ?p = "sqrtPriceX96 st" and ?t = "tick st"
  have p: "price_in_tick ?t ?p" and L: "liquidity st = liquidity_at s ?t" using assms(6) by (simp_all add: state_ok_def)
  obtain found b where f: "provider_nextInitializedTickWithinOneWord (provider s) ?t z spacing = Some (Inr (found, b))"
      "adjacent s z ?t (clamp_tick found)" "b \<longleftrightarrow> clamp_tick found \<in> indices s"
    using next_tick [OF assms(1,3), of ?t z] p unfolding price_in_tick_def by blast
  let ?n = "clamp_tick found"
  let ?g = "step_target z limit (sqrt_ratio ?n)"
  note target = target_ahead [OF f(2) p assms(7)]
  have bound: "0 \<le> liquidity st" "liquidity st < 2 ^ 128" using assms(2) L by (simp_all add: liquid_def)
  obtain step where step: "computeSwapStep ?p ?g (liquidity st) (amountSpecifiedRemaining st) fee = Inr step"
    using step_spec [OF price_in_tick_sized [OF p] target(2) bound assms(4,5) target(1)] by blast
  have rem: "amountSpecifiedRemaining st \<noteq> 0" "?p \<noteq> limit" using assms(9) by (simp_all add: swap_done_def)
  note after = after_step_progress [OF step assms(8) rem(1) price_in_tick_sized [OF p] target(2) bound assms(4,5) target(1)]
  let ?st = "after_step e st step"
  have q: "ahead z ?p (sqrt_ratio ?n)"
    using f(2) p sqrt_ratio_mono [of ?n ?t] sqrt_ratio_mono [of "?t + 1" ?n] by (auto simp: ahead_def adjacent_def price_in_tick_def split: if_splits)
  note between = target_between [OF after(1) q assms(7)]
  have round: "swap_round (provider s) spacing fee e z limit st = finish_round (provider s) z ?n b (sqrt_ratio ?n) ?p ?st"
    using swap_round_eval [OF f(1) step] .
  have same: "amounts_progress 1 e st st'" if "amountSpecifiedRemaining st' = amountSpecifiedRemaining ?st" "amountCalculated st' = amountCalculated ?st" for st'
    using after(2) that unfolding amounts_progress_def by (simp only:)
  show ?thesis
  proof (cases "sqrtRatioNextX96 step = sqrt_ratio ?n")
    case True
    then have "within_limit z limit (sqrt_ratio ?n)" using between(3) by simp
    then obtain st' where "finish_round (provider s) z ?n b (sqrt_ratio ?n) ?p ?st = Some (Inr st')" "state_ok s st'"
      "ticks_left z (tick st') < ticks_left z ?t" "sqrtPriceX96 st' = sqrtRatioNextX96 step"
      "amountSpecifiedRemaining st' = amountSpecifiedRemaining ?st" "amountCalculated st' = amountCalculated ?st"
      using finish_crossing [OF assms(1) f(2,3), of ?st limit ?p] True L by auto
    then show ?thesis using round between(2,3) same by auto
  next
    case False
    have "amountSpecifiedRemaining ?st = 0 \<or> sqrtRatioNextX96 step = limit"
      using after(3) between(4) False by blast
    moreover have "\<exists>st'. finish_round (provider s) z ?n b (sqrt_ratio ?n) ?p ?st = Some (Inr st') \<and> state_ok s st'
      \<and> sqrtPriceX96 st' = sqrtPriceX96 ?st \<and> amountSpecifiedRemaining st' = amountSpecifiedRemaining ?st \<and> amountCalculated st' = amountCalculated ?st"
    proof (cases "sqrtRatioNextX96 step = ?p")
      case True
      then show ?thesis using False p L by (intro exI [of _ ?st]) (simp add: finish_round_def state_ok_def)
    next
      case moved: False
      then show ?thesis using finish_inside [OF f(2) p, of ?st limit b] L False between(1,3) by simp
    qed
    ultimately show ?thesis using round between(2,3) same by (auto simp: swap_done_def)
  qed
qed

lemma swap_loop_returns:
  assumes "invar s" and "liquid s" and "0 < spacing" and "0 \<le> fee" and "fee < MAX_FEE"
  shows "state_ok s st \<Longrightarrow> within_limit z limit (sqrtPriceX96 st) \<Longrightarrow> right_sign e st \<Longrightarrow>
    \<exists>st'. swap_loop (provider s) spacing fee e z limit st = Some (Inr st') \<and> state_ok s st' \<and> swap_done limit st'
      \<and> toward z (sqrtPriceX96 st) limit (sqrtPriceX96 st') \<and> amounts_progress (Suc (ticks_left z (tick st))) e st st'"
proof (induction "ticks_left z (tick st)" arbitrary: st rule: less_induct)
  case less
  show ?case
  proof (cases "swap_done limit st")
    case True
    then have "swap_loop (provider s) spacing fee e z limit st = Some (Inr st)"
      by (subst swap_loop.simps) (auto simp: swap_done_def)
    then show ?thesis
      using True less.prems amounts_progress_mono [OF amounts_progress_refl]
      by (auto simp: toward_def within_limit_def split: if_splits)
  next
    case False
    obtain st1 where 1: "swap_round (provider s) spacing fee e z limit st = Some (Inr st1)" "state_ok s st1"
        "within_limit z limit (sqrtPriceX96 st1)" "toward z (sqrtPriceX96 st) limit (sqrtPriceX96 st1)" "amounts_progress 1 e st st1"
      and progress: "swap_done limit st1 \<or> ticks_left z (tick st1) < ticks_left z (tick st)"
      using round_progress [OF assms less.prems False] by blast
    have loop: "swap_loop (provider s) spacing fee e z limit st = swap_loop (provider s) spacing fee e z limit st1"
      using False 1(1) by (subst swap_loop.simps) (auto simp: swap_done_def)
    show ?thesis
    proof (cases "swap_done limit st1")
      case True
      then have "swap_loop (provider s) spacing fee e z limit st1 = Some (Inr st1)"
        by (subst swap_loop.simps) (auto simp: swap_done_def)
      then show ?thesis using loop 1 True amounts_progress_mono [OF 1(5), of "Suc (ticks_left z (tick st))"] by auto
    next
      case False
      then have left: "ticks_left z (tick st1) < ticks_left z (tick st)" using progress by simp
      obtain st' where st': "swap_loop (provider s) spacing fee e z limit st1 = Some (Inr st')" "state_ok s st'" "swap_done limit st'"
        "toward z (sqrtPriceX96 st1) limit (sqrtPriceX96 st')" "amounts_progress (Suc (ticks_left z (tick st1))) e st1 st'"
        using less.hyps [OF left 1(2,3) amounts_progress_sign [OF 1(5)]] by blast
      have "amounts_progress (Suc (ticks_left z (tick st))) e st st'"
        using amounts_progress_mono [OF amounts_progress_trans [OF 1(5) st'(5)]] left by simp
      then show ?thesis using loop 1 st' toward_trans by metis
    qed
  qed
qed

end

end
