(* ===== verification/V3PoolFacts.thy ===== *)
theory V3PoolFacts
  imports V3Swap
begin

text \<open>
  Swaps and quotes of well-formed V3 pools: a pool over a sorted list of ticks whose price lies in
  its tick and whose liquidity is that of the ticks up to it.  A swap returns, keeps the pool
  well-formed, and its quotes fit in 256 bits.
\<close>

section \<open>Liquidity of a list of ticks\<close>

definition liquidity_in_range :: "Tick list \<Rightarrow> int \<Rightarrow> int" where
  "liquidity_in_range ticks t = sum_list (map liquidityNet (filter (\<lambda>k. index k \<le> t) ticks))"

lemma liquidity_in_range_eq:
  assumes "wf_ticks ticks"
  shows "tick_list.liquidity_at ticks t = liquidity_in_range ticks t"
proof -
  let ?S = "filter (\<lambda>k. index k \<le> t) ticks"
  have inj: "inj_on index (set ticks)"
    using wf_ticks_inj [OF assms] by (auto simp: inj_on_def in_set_conv_nth)
  have "distinct ticks" using wf_ticks_inj [OF assms] by (metis distinct_conv_nth)
  have "{u \<in> tick_indices ticks. u \<le> t} = index ` set ?S" by (auto simp: tick_indices_def)
  then have "tick_list.liquidity_at ticks t = sum (tick_net ticks) (index ` set ?S)"
    by (simp only: tick_list.liquidity_at_def)
  also have "\<dots> = (\<Sum>k \<in> set ?S. tick_net ticks (index k))"
    using inj by (subst sum.reindex) (auto intro: inj_on_subset)
  also have "\<dots> = (\<Sum>k \<in> set ?S. liquidityNet k)"
    using tick_net_nth [OF assms] by (intro sum.cong) (auto simp: in_set_conv_nth)
  also have "\<dots> = liquidity_in_range ticks t"
    unfolding liquidity_in_range_def using \<open>distinct ticks\<close> by (intro sum_list_distinct_conv_sum_set [symmetric]) simp
  finally show ?thesis .
qed

text \<open>The liquidity never leaves the 128 bits it has in the contract.\<close>

definition liquidity_sound :: "Tick list \<Rightarrow> bool" where
  "liquidity_sound ticks \<longleftrightarrow>
     list_all (\<lambda>k. 0 \<le> liquidity_in_range ticks (index k) \<and> liquidity_in_range ticks (index k) < 2 ^ 128) ticks"

lemma liquidity_sound_everywhere:
  assumes "wf_ticks ticks" and "liquidity_sound ticks"
  shows "0 \<le> liquidity_in_range ticks t \<and> liquidity_in_range ticks t < 2 ^ 128"
proof (cases "index (ticks ! 0) \<le> t")
  case True
  then obtain k where k: "last_le ticks t k" using last_le_exists [OF assms(1)] by auto
  have "index u \<le> t \<longleftrightarrow> index u \<le> index (ticks ! k)" if "u \<in> set ticks" for u
    using that last_le_greatest [OF assms(1) k] wf_ticks_le_iff [OF assms(1)] k by (auto simp: in_set_conv_nth last_le_def)
  then have "filter (\<lambda>u. index u \<le> t) ticks = filter (\<lambda>u. index u \<le> index (ticks ! k)) ticks" by (intro filter_cong) auto
  then have "liquidity_in_range ticks t = liquidity_in_range ticks (index (ticks ! k))" by (simp add: liquidity_in_range_def)
  then show ?thesis using assms(2) k by (simp add: liquidity_sound_def list_all_length last_le_def)
next
  case False
  then have "\<not> index u \<le> t" if "u \<in> set ticks" for u
    using that wf_ticks_le_iff [OF assms(1), of 0] by (fastforce simp: in_set_conv_nth)
  then have "liquidity_in_range ticks t = 0" by (simp add: liquidity_in_range_def filter_False)
  then show ?thesis by simp
qed

lemma liquid_list: "wf_ticks ticks \<Longrightarrow> liquidity_sound ticks \<Longrightarrow> tick_list.liquid ticks"
  using liquidity_sound_everywhere by (simp add: tick_list.liquid_def liquidity_in_range_eq)

section \<open>Well-formed pools\<close>

definition wf_pool :: "Tick list \<Rightarrow> Pool \<Rightarrow> bool" where
  "wf_pool ticks pool \<longleftrightarrow>
     wf_ticks ticks \<and> liquidity_sound ticks \<and> poolTickDataProvider pool = TickListDataProvider ticks
     \<and> sortsBefore (poolToken0 pool) (poolToken1 pool) = Inr True
     \<and> price_in_tick (poolTickCurrent pool) (poolSqrtRatioX96 pool)
     \<and> poolLiquidity pool = liquidity_in_range ticks (poolTickCurrent pool)"

text \<open>What a swap that returned has done.\<close>

definition swap_result :: "Tick list \<Rightarrow> Pool \<Rightarrow> bool \<Rightarrow> int \<Rightarrow> int \<Rightarrow> SwapState \<Rightarrow> bool" where
  "swap_result ticks pool z amount limit st \<longleftrightarrow>
     price_in_tick (tick st) (sqrtPriceX96 st) \<and> liquidity st = liquidity_in_range ticks (tick st)
     \<and> toward z (poolSqrtRatioX96 pool) limit (sqrtPriceX96 st)
     \<and> (amountSpecifiedRemaining st = 0 \<or> sqrtPriceX96 st = limit)
     \<and> (if 0 \<le> amount
        then 0 \<le> amountSpecifiedRemaining st \<and> amountSpecifiedRemaining st \<le> amount
             \<and> 0 \<le> - amountCalculated st \<and> - amountCalculated st \<le> MaxUint256
        else amount \<le> amountSpecifiedRemaining st \<and> amountSpecifiedRemaining st \<le> 0
             \<and> 0 \<le> amountCalculated st \<and> amountCalculated st \<le> MaxUint256)"

lemma spacing_pos: "0 < TICK_SPACINGS fee"
  by (cases fee) simp_all

lemma fee_value_bounds: "0 \<le> fee_value fee" "fee_value fee < MAX_FEE"
  by (cases fee; simp add: MAX_FEE_def)+

lemma rounds_bound: "MIN_TICK \<le> t \<Longrightarrow> t < MAX_TICK \<Longrightarrow> int (Suc (ticks_left z t)) * step_bound \<le> MaxUint256"
proof -
  assume t: "MIN_TICK \<le> t" "t < MAX_TICK"
  then have "int (Suc (ticks_left z t)) \<le> 2 ^ 21" by (simp add: ticks_left_def MIN_MAX_TICK)
  then have "int (Suc (ticks_left z t)) * step_bound \<le> 2 ^ 21 * step_bound" by (intro mult_right_mono) (simp_all add: step_bound_def)
  also have "\<dots> \<le> MaxUint256" by (simp add: step_bound_def MaxUint256_def)
  finally show ?thesis .
qed

lemma Pool_swap_returns:
  assumes "wf_pool ticks pool" and l: "l = swap_limit z limit"
    and "if z then MIN_SQRT_RATIO < l \<and> l < poolSqrtRatioX96 pool else poolSqrtRatioX96 pool < l \<and> l < MAX_SQRT_RATIO"
  shows "\<exists>st. Pool_swap pool z amount limit = Some (Inr st) \<and> swap_result ticks pool z amount l st"
proof -
  let ?st = "\<lparr>amountSpecifiedRemaining = amount, amountCalculated = 0,
            sqrtPriceX96 = poolSqrtRatioX96 pool, tick = poolTickCurrent pool, liquidity = poolLiquidity pool\<rparr>"
  have wf: "wf_ticks ticks" "liquidity_sound ticks" and prov: "poolTickDataProvider pool = TickListDataProvider ticks"
    and price: "price_in_tick (poolTickCurrent pool) (poolSqrtRatioX96 pool)"
    and L: "poolLiquidity pool = liquidity_in_range ticks (poolTickCurrent pool)"
    using assms(1) by (simp_all add: wf_pool_def)
  have ok: "tick_list.state_ok ticks ?st" using price L by (simp add: tick_list.state_ok_def liquidity_in_range_eq [OF wf(1)])
  have lim: "within_limit z l (sqrtPriceX96 ?st)" using assms(3) by (auto simp: within_limit_def)
  have sign: "right_sign (0 \<le> amount) ?st" by (simp add: right_sign_def)
  obtain st where st: "swap_loop (TickListDataProvider ticks) (Pool_tickSpacing pool) (fee_value (poolFee pool)) (0 \<le> amount) z l ?st = Some (Inr st)"
      "tick_list.state_ok ticks st" "swap_done l st" "toward z (poolSqrtRatioX96 pool) l (sqrtPriceX96 st)"
      "amounts_progress (Suc (ticks_left z (poolTickCurrent pool))) (0 \<le> amount) ?st st"
    using tick_list.swap_loop_returns [OF wf(1) liquid_list [OF wf] spacing_pos fee_value_bounds ok lim sign]
    unfolding Pool_tickSpacing_def by (auto simp only: SwapState.simps)
  have "int (Suc (ticks_left z (poolTickCurrent pool))) * step_bound \<le> MaxUint256"
    using price by (intro rounds_bound) (simp_all add: price_in_tick_def)
  then have "swap_result ticks pool z amount l st"
    using st(2-5) unfolding swap_result_def tick_list.state_ok_def liquidity_in_range_eq [OF wf(1)] swap_done_def amounts_progress_def
    by (auto split: if_splits)
  moreover have "Pool_swap pool z amount limit = Some (Inr st)"
    using st(1) assms(3) unfolding Pool_swap_def check_limit_def Let_def l [symmetric] prov by (cases z) simp_all
  ultimately show ?thesis by blast
qed

text \<open>The checks on the limit, in their order.\<close>

lemma Pool_swap_limit_errors:
  "swap_limit True limit \<le> MIN_SQRT_RATIO \<Longrightarrow> Pool_swap pool True amount limit = Some (Inl (Invariant ''RATIO_MIN''))"
  "MIN_SQRT_RATIO < swap_limit True limit \<Longrightarrow> poolSqrtRatioX96 pool \<le> swap_limit True limit \<Longrightarrow>
     Pool_swap pool True amount limit = Some (Inl (Invariant ''RATIO_CURRENT''))"
  "MAX_SQRT_RATIO \<le> swap_limit False limit \<Longrightarrow> Pool_swap pool False amount limit = Some (Inl (Invariant ''RATIO_MAX''))"
  "swap_limit False limit < MAX_SQRT_RATIO \<Longrightarrow> swap_limit False limit \<le> poolSqrtRatioX96 pool \<Longrightarrow>
     Pool_swap pool False amount limit = Some (Inl (Invariant ''RATIO_CURRENT''))"
  by (simp_all add: Pool_swap_def check_limit_def Let_def)

lemma pool_after_wf:
  assumes "wf_pool ticks pool" and "swap_result ticks pool z amount l st"
  shows "\<exists>pool'. pool_after pool st = Inr pool' \<and> wf_pool ticks pool' \<and> poolSqrtRatioX96 pool' = sqrtPriceX96 st
    \<and> poolToken0 pool' = poolToken0 pool \<and> poolToken1 pool' = poolToken1 pool \<and> poolFee pool' = poolFee pool"
proof -
  have "fee_value (poolFee pool) < 1000000" using fee_value_bounds(2) by (simp add: MAX_FEE_def)
  then show ?thesis using assms by (simp add: pool_after_def new_Pool_def provider_of_def wf_pool_def swap_result_def)
qed

section \<open>Quotes\<close>

lemma Pool_getOutputAmount_eval:
  assumes "wf_pool ticks pool" and "currency a = ERC20 token" and "Pool_involvesToken pool token" and "quotient a = Inr n" and "0 \<le> n"
    and z: "z = Token_equals token (poolToken0 pool)" and l: "l = swap_limit z limit"
    and "if z then MIN_SQRT_RATIO < l \<and> l < poolSqrtRatioX96 pool else poolSqrtRatioX96 pool < l \<and> l < MAX_SQRT_RATIO"
  shows "\<exists>out pool' st. Pool_getOutputAmount pool a limit = Some (Inr (out, pool')) \<and> Pool_swap pool z n limit = Some (Inr st)
    \<and> swap_result ticks pool z n l st \<and> wf_pool ticks pool' \<and> poolSqrtRatioX96 pool' = sqrtPriceX96 st
    \<and> out = raw (ERC20 (if z then poolToken1 pool else poolToken0 pool)) (- amountCalculated st)"
proof -
  obtain st where st: "Pool_swap pool z n limit = Some (Inr st)" "swap_result ticks pool z n l st"
    using Pool_swap_returns [OF assms(1) l assms(8)] by blast
  obtain pool' where pool': "pool_after pool st = Inr pool'" "wf_pool ticks pool'" "poolSqrtRatioX96 pool' = sqrtPriceX96 st"
    using pool_after_wf [OF assms(1) st(2)] by blast
  have "fromRawAmount c (- amountCalculated st) = Inr (raw c (- amountCalculated st))" for c
    using st(2) assms(5) by (simp add: swap_result_def fromRawAmount_eq_Inr raw_def)
  then show ?thesis
    using st pool' assms(2-4) unfolding Pool_getOutputAmount_def Let_def
    by (intro exI [of _ "raw (ERC20 (if z then poolToken1 pool else poolToken0 pool)) (- amountCalculated st)"] exI [of _ pool'] exI [of _ st])
      (simp add: z [symmetric])
qed

text \<open>
  The two quotes for an output: \<^verbatim>\<open>getInputAmountByExactOut\<close> also asks that all of the output could be given,
  \<^verbatim>\<open>getInputAmount\<close> does not.
\<close>

lemma pool_input_eval:
  assumes "wf_pool ticks pool" and "currency a = ERC20 token" and "Pool_involvesToken pool token" and "quotient a = Inr n" and "0 < n"
    and z: "z = Token_equals token (poolToken1 pool)" and l: "l = swap_limit z limit"
    and "if z then MIN_SQRT_RATIO < l \<and> l < poolSqrtRatioX96 pool else poolSqrtRatioX96 pool < l \<and> l < MAX_SQRT_RATIO"
  shows "\<exists>st pool'. Pool_swap pool z (- n) limit = Some (Inr st) \<and> swap_result ticks pool z (- n) l st \<and> wf_pool ticks pool'
    \<and> poolSqrtRatioX96 pool' = sqrtPriceX96 st
    \<and> Pool_getInputAmount pool a limit =
       Some (Inr (raw (ERC20 (if z then poolToken0 pool else poolToken1 pool)) (amountCalculated st), pool'))
    \<and> Pool_getInputAmountByExactOut pool a limit =
      (if amountSpecifiedRemaining st \<noteq> 0 then Some (Inl (Invariant ''INSUFFICIENT_LIQUIDITY''))
       else Some (Inr (raw (ERC20 (if z then poolToken0 pool else poolToken1 pool)) (amountCalculated st), pool')))"
proof -
  obtain st where st: "Pool_swap pool z (- n) limit = Some (Inr st)" "swap_result ticks pool z (- n) l st"
    using Pool_swap_returns [OF assms(1) l assms(8)] by blast
  obtain pool' where pool': "pool_after pool st = Inr pool'" "wf_pool ticks pool'" "poolSqrtRatioX96 pool' = sqrtPriceX96 st"
    using pool_after_wf [OF assms(1) st(2)] by blast
  have "fromRawAmount c (amountCalculated st) = Inr (raw c (amountCalculated st))" for c
    using st(2) assms(5) by (simp add: swap_result_def fromRawAmount_eq_Inr raw_def)
  then show ?thesis
    using st pool' assms(2-4) unfolding Pool_getInputAmount_def Pool_getInputAmountByExactOut_def Let_def
    by (intro exI [of _ st] exI [of _ pool']) (simp add: z [symmetric] invariantR_def)
qed

end
