(* ===== verification/V3Position.thy ===== *)
theory V3Position
  imports V3PoolFacts
begin

text \<open>
  Positions of the V3 exchange: conversions between ticks and prices
  (\<^verbatim>\<open>v3-sdk/src/utils/encodeSqrtRatioX96.ts\<close>, \<^verbatim>\<open>sqrtRatioX96ToPrice.ts\<close>,
  \<^verbatim>\<open>priceTickConversions.ts\<close>), the amounts a position holds and the liquidity amounts buy
  (\<^verbatim>\<open>positionMath.ts\<close>, \<^verbatim>\<open>maxLiquidityForAmounts.ts\<close>), fees growing inside a range modulo
  \<open>2 ^ 256\<close> (\<^verbatim>\<open>tickLibrary.ts\<close>, \<^verbatim>\<open>position.ts\<close>), and the class \<^verbatim>\<open>Position\<close>
  (\<^verbatim>\<open>entities/position.ts\<close>).  The amounts a position caches are left out: they are computed
  from fields that never change.
\<close>

section \<open>Prices\<close>

definition encodeSqrtRatioX96 :: "int \<Rightarrow> int \<Rightarrow> js_error + int" where
  "encodeSqrtRatioX96 amount1 amount0 =
     bindS (bigint_div (push_bit 192 amount1) amount0) bigint_sqrt"

definition sqrtRatioX96ToPrice :: "int \<Rightarrow> Currency \<Rightarrow> Currency \<Rightarrow> js_error + Price" where
  "sqrtRatioX96ToPrice sqrtRatio currencyA currencyB =
     (let ratioX192 = sqrtRatio * sqrtRatio in
      bindS (sortsBefore (wrapped currencyA) (wrapped currencyB)) (\<lambda>before.
        Inr (if before then new_Price (ERC20 (wrapped currencyA)) (ERC20 (wrapped currencyB)) Q192 ratioX192
             else new_Price (ERC20 (wrapped currencyA)) (ERC20 (wrapped currencyB)) ratioX192 Q192)))"

text \<open>The sort of two currencies puts the first one first when the comparator says so.\<close>

definition isCurrencySorted :: "Currency \<Rightarrow> Currency \<Rightarrow> js_error + bool" where
  "isCurrencySorted currencyA currencyB =
     bindS (compareCurrencies currencyA currencyB) (\<lambda>c. Inr (c < 0))"

definition tickToPrice :: "Currency \<Rightarrow> Currency \<Rightarrow> int \<Rightarrow> js_error + Price" where
  "tickToPrice baseToken quoteToken t =
     bindS (getSqrtRatioAtTick t) (\<lambda>sqrtRatio.
       let ratioX192 = sqrtRatio * sqrtRatio in
       bindS (isCurrencySorted baseToken quoteToken) (\<lambda>sorted.
         Inr (if sorted then new_Price baseToken quoteToken Q192 ratioX192
              else new_Price baseToken quoteToken ratioX192 Q192)))"

definition priceToClosestTick :: "Price \<Rightarrow> js_error + int" where
  "priceToClosestTick price =
     bindS (isCurrencySorted (baseCurrency price) (quoteCurrency price)) (\<lambda>sorted.
     bindS (if sorted then encodeSqrtRatioX96 (numerator price) (denominator price)
            else encodeSqrtRatioX96 (denominator price) (numerator price)) (\<lambda>sqrtRatio.
     bindS (getTickAtSqrtRatio sqrtRatio) (\<lambda>t.
     bindS (tickToPrice (baseCurrency price) (quoteCurrency price) (t + 1)) (\<lambda>nextTickPrice.
       Inr (if sorted then (if \<not> Fraction_lessThan price (frac nextTickPrice) then t + 1 else t)
            else (if \<not> Fraction_greaterThan price (frac nextTickPrice) then t + 1 else t))))))"

section \<open>Amounts and liquidity\<close>

definition getToken0Amount :: "int \<Rightarrow> int \<Rightarrow> int \<Rightarrow> int \<Rightarrow> int \<Rightarrow> js_error + int" where
  "getToken0Amount current lower upper sqrtRatio L =
     (if current < lower then
        bindS (getSqrtRatioAtTick lower) (\<lambda>a. bindS (getSqrtRatioAtTick upper) (\<lambda>b. getAmount0Delta a b L False))
      else if current < upper then
        bindS (getSqrtRatioAtTick upper) (\<lambda>b. getAmount0Delta sqrtRatio b L False)
      else Inr 0)"

definition getToken1Amount :: "int \<Rightarrow> int \<Rightarrow> int \<Rightarrow> int \<Rightarrow> int \<Rightarrow> js_error + int" where
  "getToken1Amount current lower upper sqrtRatio L =
     (if current < lower then Inr 0
      else if current < upper then
        bindS (getSqrtRatioAtTick lower) (\<lambda>a. getAmount1Delta a sqrtRatio L False)
      else
        bindS (getSqrtRatioAtTick lower) (\<lambda>a. bindS (getSqrtRatioAtTick upper) (\<lambda>b. getAmount1Delta a b L False)))"

definition maxLiquidityForAmount0Imprecise :: "int \<Rightarrow> int \<Rightarrow> int \<Rightarrow> js_error + int" where
  "maxLiquidityForAmount0Imprecise ratioA ratioB amount0 =
     (let (a, b) = (if ratioA > ratioB then (ratioB, ratioA) else (ratioA, ratioB)) in
      bindS (bigint_div (a * b) Q96) (\<lambda>intermediate. bigint_div (amount0 * intermediate) (b - a)))"

definition maxLiquidityForAmount0Precise :: "int \<Rightarrow> int \<Rightarrow> int \<Rightarrow> js_error + int" where
  "maxLiquidityForAmount0Precise ratioA ratioB amount0 =
     (let (a, b) = (if ratioA > ratioB then (ratioB, ratioA) else (ratioA, ratioB)) in
      bigint_div (amount0 * a * b) (Q96 * (b - a)))"

definition maxLiquidityForAmount1 :: "int \<Rightarrow> int \<Rightarrow> int \<Rightarrow> js_error + int" where
  "maxLiquidityForAmount1 ratioA ratioB amount1 =
     (let (a, b) = (if ratioA > ratioB then (ratioB, ratioA) else (ratioA, ratioB)) in
      bigint_div (amount1 * Q96) (b - a))"

definition maxLiquidityForAmounts :: "int \<Rightarrow> int \<Rightarrow> int \<Rightarrow> int \<Rightarrow> int \<Rightarrow> bool \<Rightarrow> js_error + int" where
  "maxLiquidityForAmounts current ratioA ratioB amount0 amount1 useFullPrecision =
     (let (a, b) = (if ratioA > ratioB then (ratioB, ratioA) else (ratioA, ratioB));
          maxLiquidityForAmount0 =
            (if useFullPrecision then maxLiquidityForAmount0Precise else maxLiquidityForAmount0Imprecise) in
      if current \<le> a then maxLiquidityForAmount0 a b amount0
      else if current < b then
        bindS (maxLiquidityForAmount0 current b amount0) (\<lambda>liquidity0.
        bindS (maxLiquidityForAmount1 a current amount1) (\<lambda>liquidity1.
          Inr (if liquidity0 < liquidity1 then liquidity0 else liquidity1)))
      else maxLiquidityForAmount1 a b amount1)"

section \<open>Fees inside a range\<close>

definition Q256 :: int where "Q256 = 2 ^ 256"

definition subIn256 :: "int \<Rightarrow> int \<Rightarrow> int" where
  "subIn256 x y = (let difference = x - y in if difference < 0 then Q256 + difference else difference)"

record FeeGrowthOutside =
  feeGrowthOutside0X128 :: int
  feeGrowthOutside1X128 :: int

definition getFeeGrowthInside ::
  "FeeGrowthOutside \<Rightarrow> FeeGrowthOutside \<Rightarrow> int \<Rightarrow> int \<Rightarrow> int \<Rightarrow> int \<Rightarrow> int \<Rightarrow> int \<times> int" where
  "getFeeGrowthInside lowerOutside upperOutside lower upper current global0 global1 =
     (let (below0, below1) =
            (if current \<ge> lower then (feeGrowthOutside0X128 lowerOutside, feeGrowthOutside1X128 lowerOutside)
             else (subIn256 global0 (feeGrowthOutside0X128 lowerOutside), subIn256 global1 (feeGrowthOutside1X128 lowerOutside)));
          (above0, above1) =
            (if current < upper then (feeGrowthOutside0X128 upperOutside, feeGrowthOutside1X128 upperOutside)
             else (subIn256 global0 (feeGrowthOutside0X128 upperOutside), subIn256 global1 (feeGrowthOutside1X128 upperOutside))) in
      (subIn256 (subIn256 global0 below0) above0, subIn256 (subIn256 global1 below1) above1))"

definition getTokensOwed :: "int \<Rightarrow> int \<Rightarrow> int \<Rightarrow> int \<Rightarrow> int \<Rightarrow> js_error + (int \<times> int)" where
  "getTokensOwed last0 last1 L inside0 inside1 =
     bindS (bigint_div (subIn256 inside0 last0 * L) Q128) (\<lambda>owed0.
     bindS (bigint_div (subIn256 inside1 last1 * L) Q128) (\<lambda>owed1. Inr (owed0, owed1)))"

text \<open>The arguments may be absent.\<close>

definition isPoolTickInRange :: "Pool option \<Rightarrow> int option \<Rightarrow> int option \<Rightarrow> bool" where
  "isPoolTickInRange pool lower upper =
     (case (pool, lower, upper) of
        (Some p, Some l, Some u) \<Rightarrow> \<not> poolTickCurrent p < l \<and> \<not> poolTickCurrent p \<ge> u
      | _ \<Rightarrow> False)"

section \<open>Class \<open>Position\<close>\<close>

record Position =
  positionPool :: Pool
  tickLower :: int
  tickUpper :: int
  positionLiquidity :: int

definition new_Position :: "Pool \<Rightarrow> int \<Rightarrow> int \<Rightarrow> int \<Rightarrow> js_error + Position" where
  "new_Position pool L lower upper =
     invariantS (lower < upper) ''TICK_ORDER''
       (invariantS (lower \<ge> MIN_TICK \<and> trem lower (Pool_tickSpacing pool) = 0) ''TICK_LOWER''
         (invariantS (upper \<le> MAX_TICK \<and> trem upper (Pool_tickSpacing pool) = 0) ''TICK_UPPER''
           (Inr \<lparr>positionPool = pool, tickLower = lower, tickUpper = upper, positionLiquidity = L\<rparr>)))"

definition token0PriceLower :: "Position \<Rightarrow> js_error + Price" where
  "token0PriceLower pos =
     tickToPrice (ERC20 (poolToken0 (positionPool pos))) (ERC20 (poolToken1 (positionPool pos))) (tickLower pos)"

definition token0PriceUpper :: "Position \<Rightarrow> js_error + Price" where
  "token0PriceUpper pos =
     tickToPrice (ERC20 (poolToken0 (positionPool pos))) (ERC20 (poolToken1 (positionPool pos))) (tickUpper pos)"

definition position_amount0 :: "Position \<Rightarrow> js_error + CurrencyAmount" where
  "position_amount0 pos =
     bindS (getToken0Amount (poolTickCurrent (positionPool pos)) (tickLower pos) (tickUpper pos)
              (poolSqrtRatioX96 (positionPool pos)) (positionLiquidity pos))
       (fromRawAmount (ERC20 (poolToken0 (positionPool pos))))"

definition position_amount1 :: "Position \<Rightarrow> js_error + CurrencyAmount" where
  "position_amount1 pos =
     bindS (getToken1Amount (poolTickCurrent (positionPool pos)) (tickLower pos) (tickUpper pos)
              (poolSqrtRatioX96 (positionPool pos)) (positionLiquidity pos))
       (fromRawAmount (ERC20 (poolToken1 (positionPool pos))))"

definition ratiosAfterSlippage :: "Position \<Rightarrow> Percent \<Rightarrow> js_error + (int \<times> int)" where
  "ratiosAfterSlippage pos slippageTolerance =
     (let price = asFraction (Pool_token0Price (positionPool pos));
          priceLower = Fraction_multiply price (frac (Percent_subtract (new_Percent 1 1) (frac slippageTolerance)));
          priceUpper = Fraction_multiply price (frac (Percent_add slippageTolerance (AsBigint 1))) in
      bindS (encodeSqrtRatioX96 (numerator priceLower) (denominator priceLower)) (\<lambda>lower.
      bindS (encodeSqrtRatioX96 (numerator priceUpper) (denominator priceUpper)) (\<lambda>upper.
        Inr (if lower \<le> MIN_SQRT_RATIO then MIN_SQRT_RATIO + 1 else lower,
             if upper \<ge> MAX_SQRT_RATIO then MAX_SQRT_RATIO - 1 else upper))))"

definition mintAmounts :: "Position \<Rightarrow> js_error + (int \<times> int)" where
  "mintAmounts pos =
     (let pool = positionPool pos; L = positionLiquidity pos in
      if poolTickCurrent pool < tickLower pos then
        bindS (getSqrtRatioAtTick (tickLower pos)) (\<lambda>a.
        bindS (getSqrtRatioAtTick (tickUpper pos)) (\<lambda>b.
        bindS (getAmount0Delta a b L True) (\<lambda>amount0. Inr (amount0, 0))))
      else if poolTickCurrent pool < tickUpper pos then
        bindS (getSqrtRatioAtTick (tickUpper pos)) (\<lambda>b.
        bindS (getAmount0Delta (poolSqrtRatioX96 pool) b L True) (\<lambda>amount0.
        bindS (getSqrtRatioAtTick (tickLower pos)) (\<lambda>a.
        bindS (getAmount1Delta a (poolSqrtRatioX96 pool) L True) (\<lambda>amount1. Inr (amount0, amount1)))))
      else
        bindS (getSqrtRatioAtTick (tickLower pos)) (\<lambda>a.
        bindS (getSqrtRatioAtTick (tickUpper pos)) (\<lambda>b.
        bindS (getAmount1Delta a b L True) (\<lambda>amount1. Inr (0, amount1)))))"

definition fromAmounts :: "Pool \<Rightarrow> int \<Rightarrow> int \<Rightarrow> int \<Rightarrow> int \<Rightarrow> bool \<Rightarrow> js_error + Position" where
  "fromAmounts pool lower upper amount0 amount1 useFullPrecision =
     bindS (getSqrtRatioAtTick lower) (\<lambda>a.
     bindS (getSqrtRatioAtTick upper) (\<lambda>b.
     bindS (maxLiquidityForAmounts (poolSqrtRatioX96 pool) a b amount0 amount1 useFullPrecision) (\<lambda>L.
       new_Position pool L lower upper)))"

definition fromAmount0 :: "Pool \<Rightarrow> int \<Rightarrow> int \<Rightarrow> int \<Rightarrow> bool \<Rightarrow> js_error + Position" where
  "fromAmount0 pool lower upper amount0 useFullPrecision =
     fromAmounts pool lower upper amount0 MaxUint256 useFullPrecision"

definition fromAmount1 :: "Pool \<Rightarrow> int \<Rightarrow> int \<Rightarrow> int \<Rightarrow> js_error + Position" where
  "fromAmount1 pool lower upper amount1 = fromAmounts pool lower upper MaxUint256 amount1 True"

text \<open>The pool as it would be at another price, without liquidity or tick data.\<close>

definition counterfactual_pool :: "Pool \<Rightarrow> int \<Rightarrow> js_error + Pool" where
  "counterfactual_pool pool sqrtRatio =
     bindS (getTickAtSqrtRatio sqrtRatio) (\<lambda>t.
       new_Pool (poolToken0 pool) (poolToken1 pool) (poolFee pool) sqrtRatio 0 t NoTicks)"

definition mintAmountsWithSlippage :: "Position \<Rightarrow> Percent \<Rightarrow> js_error + (int \<times> int)" where
  "mintAmountsWithSlippage pos slippageTolerance =
     bindS (ratiosAfterSlippage pos slippageTolerance) (\<lambda>(lower, upper).
     bindS (counterfactual_pool (positionPool pos) lower) (\<lambda>poolLower.
     bindS (counterfactual_pool (positionPool pos) upper) (\<lambda>poolUpper.
     bindS (mintAmounts pos) (\<lambda>(amount0, amount1).
     bindS (fromAmounts (positionPool pos) (tickLower pos) (tickUpper pos) amount0 amount1 False) (\<lambda>created.
     bindS (new_Position poolUpper (positionLiquidity created) (tickLower pos) (tickUpper pos)) (\<lambda>atUpper.
     bindS (mintAmounts atUpper) (\<lambda>(min0, _).
     bindS (new_Position poolLower (positionLiquidity created) (tickLower pos) (tickUpper pos)) (\<lambda>atLower.
     bindS (mintAmounts atLower) (\<lambda>(_, min1).
       Inr (min0, min1))))))))))"

definition burnAmountsWithSlippage :: "Position \<Rightarrow> Percent \<Rightarrow> js_error + (int \<times> int)" where
  "burnAmountsWithSlippage pos slippageTolerance =
     bindS (ratiosAfterSlippage pos slippageTolerance) (\<lambda>(lower, upper).
     bindS (counterfactual_pool (positionPool pos) lower) (\<lambda>poolLower.
     bindS (counterfactual_pool (positionPool pos) upper) (\<lambda>poolUpper.
     bindS (new_Position poolUpper (positionLiquidity pos) (tickLower pos) (tickUpper pos)) (\<lambda>atUpper.
     bindS (position_amount0 atUpper) (\<lambda>amount0.
     bindS (new_Position poolLower (positionLiquidity pos) (tickLower pos) (tickUpper pos)) (\<lambda>atLower.
     bindS (position_amount1 atLower) (\<lambda>amount1.
     bindS (quotient amount0) (\<lambda>q0.
     bindS (quotient amount1) (\<lambda>q1.
       Inr (q0, q1))))))))))"

end
