(* ===== verification/V3PositionFacts.thy ===== *)
theory V3PositionFacts
  imports V3Position
begin

text \<open>
  What positions compute: prices of ticks convert back to their ticks, the liquidity bought by two
  amounts is the largest whose mint amounts fit in them, minting and burning differ by at most
  one unit of rounding, and fee growth is arithmetic on 256-bit words.
\<close>

section \<open>Ticks and prices\<close>

lemma bigint_sqrt_square:
  assumes "0 \<le> r"
  shows "bigint_sqrt (r * r) = Inr r"
proof -
  obtain q where q: "bigint_sqrt (r * r) = Inr q" "0 \<le> q" "q\<^sup>2 \<le> r * r" "r * r < (q + 1)\<^sup>2"
    using bigint_sqrt_root [of "r * r"] by auto
  have "q \<le> r" using q(3) assms by (metis power2_eq_square power2_le_imp_le)
  moreover have "r < q + 1" using q(2,4) by (intro power_less_imp_less_base [of r 2 "q + 1"]) (simp_all add: power2_eq_square)
  ultimately show ?thesis using q(1) by simp
qed

lemma encodeSqrtRatioX96_exact:
  assumes "0 \<le> r"
  shows "encodeSqrtRatioX96 (r * r) Q192 = Inr r"
proof -
  have "push_bit 192 (r * r) = r * r * Q192" by (simp add: push_bit_eq_mult Q192_def Q96_def)
  moreover have "0 < Q192" by (simp add: Q192_def)
  ultimately have "bigint_div (push_bit 192 (r * r)) Q192 = Inr (r * r)" by (simp add: bigint_div_nonneg)
  then show ?thesis using bigint_sqrt_square [OF assms] by (simp add: encodeSqrtRatioX96_def)
qed

lemma encodeSqrtRatioX96_floor:
  assumes "0 \<le> x" and "0 < y"
  shows "\<exists>r. encodeSqrtRatioX96 x y = Inr r \<and> 0 \<le> r \<and> r\<^sup>2 * y \<le> x * Q192 \<and> x * Q192 < (r + 1)\<^sup>2 * y"
proof -
  have shift: "push_bit 192 x = x * Q192" by (simp add: push_bit_eq_mult Q192_def Q96_def)
  have "0 \<le> x * Q192" using assms(1) by (simp add: Q192_def)
  then have q: "bigint_div (push_bit 192 x) y = Inr (x * Q192 div y)" "0 \<le> x * Q192 div y"
    using assms shift by (simp_all add: bigint_div_nonneg pos_imp_zdiv_nonneg_iff)
  then obtain r where r: "bigint_sqrt (x * Q192 div y) = Inr r" "0 \<le> r" "r\<^sup>2 \<le> x * Q192 div y" "x * Q192 div y < (r + 1)\<^sup>2"
    using bigint_sqrt_root by blast
  then show ?thesis using q(1) assms(2) by (auto simp: encodeSqrtRatioX96_def le_div_iff div_less_bound)
qed

lemma getTickAtSqrtRatio_at_tick:
  assumes "MIN_TICK \<le> t" and "t < MAX_TICK"
  shows "getTickAtSqrtRatio (sqrt_ratio t) = Inr t"
proof -
  have "MIN_SQRT_RATIO \<le> sqrt_ratio t" using sqrt_ratio_mono [of MIN_TICK t] assms by (simp add: sqrt_ratio_ends)
  moreover have "sqrt_ratio t < MAX_SQRT_RATIO"
    using sqrt_ratio_less [OF tick_small tick_small, of t MAX_TICK] assms unfolding sqrt_ratio_ends by (simp add: MIN_MAX_TICK)
  ultimately obtain u where u: "getTickAtSqrtRatio (sqrt_ratio t) = Inr u" "MIN_TICK \<le> u" "u < MAX_TICK"
    "sqrt_ratio u \<le> sqrt_ratio t" "sqrt_ratio t < sqrt_ratio (u + 1)"
    using getTickAtSqrtRatio_spec by blast
  have "u \<le> t" using u assms sqrt_ratio_le_iff [OF tick_small tick_small, of u t] by simp
  moreover have "t < u + 1" using u assms sqrt_ratio_cancel [of t "u + 1"] by simp
  ultimately show ?thesis using u(1) by simp
qed

lemma tickToPrice_eval:
  assumes "MIN_TICK \<le> t" and "t \<le> MAX_TICK" and "isCurrencySorted b q = Inr s"
  shows "tickToPrice b q t = Inr (if s then new_Price b q Q192 (sqrt_ratio t * sqrt_ratio t) else new_Price b q (sqrt_ratio t * sqrt_ratio t) Q192)"
  using assms by (simp add: tickToPrice_def getSqrtRatioAtTick_eval Let_def)

lemma tick_price_roundtrip:
  assumes "MIN_TICK \<le> t" and "t < MAX_TICK" and s: "isCurrencySorted b q = Inr s"
  shows "bindS (tickToPrice b q t) priceToClosestTick = Inr t"
proof -
  have pos: "0 < sqrt_ratio t" "sqrt_ratio t < sqrt_ratio (t + 1)"
    using assms sqrt_ratio_pos [OF tick_small, of t] sqrt_ratio_less [OF tick_small tick_small, of t "t + 1"] by simp_all
  then have sq: "sqrt_ratio t * sqrt_ratio t < sqrt_ratio (t + 1) * sqrt_ratio (t + 1)" by (intro mult_strict_mono) simp_all
  have Q: "0 < Q192" by (simp add: Q192_def)
  have less: "Fraction_lessThan (new_Price b q Q192 (sqrt_ratio t * sqrt_ratio t)) (frac (new_Price b q Q192 (sqrt_ratio (t + 1) * sqrt_ratio (t + 1))))"
    "Fraction_greaterThan (new_Price b q (sqrt_ratio t * sqrt_ratio t) Q192) (frac (new_Price b q (sqrt_ratio (t + 1) * sqrt_ratio (t + 1)) Q192))"
    using sq Q by (simp_all add: Fraction_lessThan_def Fraction_greaterThan_def)
  show ?thesis
    using assms pos less encodeSqrtRatioX96_exact [of "sqrt_ratio t"] getTickAtSqrtRatio_at_tick [OF assms(1,2)]
    by (cases s) (simp_all add: tickToPrice_eval priceToClosestTick_def)
qed

section \<open>The largest liquidity two amounts buy\<close>

text \<open>What a liquidity costs at a price: the amounts of the two tokens, rounded up.\<close>

definition cost0 :: "int \<Rightarrow> int \<Rightarrow> int \<Rightarrow> int \<Rightarrow> int" where
  "cost0 p a b L = (let c = max a (min p b) in cdiv (L * Q96 * (b - c)) (b * c))"

definition cost1 :: "int \<Rightarrow> int \<Rightarrow> int \<Rightarrow> int \<Rightarrow> int" where
  "cost1 p a b L = (let c = max a (min p b) in cdiv (L * (c - a)) Q96)"

lemma cost0_le_iff:
  assumes "0 < a" and "a < b" and "c < b" and "a \<le> c"
  shows "cdiv (L * Q96 * (b - c)) (b * c) \<le> x \<longleftrightarrow> L \<le> x * c * b div (Q96 * (b - c))"
proof -
  have "0 < b * c" "0 < Q96 * (b - c)" using assms by simp_all
  then have "cdiv (L * Q96 * (b - c)) (b * c) \<le> x \<longleftrightarrow> L * (Q96 * (b - c)) \<le> x * c * b"
    by (simp add: cdiv_le_iff ac_simps)
  also have "\<dots> \<longleftrightarrow> L \<le> x * c * b div (Q96 * (b - c))" using \<open>0 < Q96 * (b - c)\<close> by (simp only: le_div_iff)
  finally show ?thesis .
qed

lemma cost1_le_iff:
  assumes "a < c"
  shows "cdiv (L * (c - a)) Q96 \<le> x \<longleftrightarrow> L \<le> x * Q96 div (c - a)"
  using assms by (simp add: cdiv_le_iff le_div_iff)

lemma maxLiquidityForAmounts_largest:
  assumes "0 < a" and "a < b" and "0 < p" and "0 \<le> amount0" and "0 \<le> amount1"
  shows "\<exists>M. maxLiquidityForAmounts p a b amount0 amount1 True = Inr M \<and> 0 \<le> M
    \<and> (\<forall>L. cost0 p a b L \<le> amount0 \<and> cost1 p a b L \<le> amount1 \<longleftrightarrow> L \<le> M)"
proof -
  have M0: "maxLiquidityForAmount0Precise c b amount0 = Inr (amount0 * c * b div (Q96 * (b - c)))
      \<and> 0 \<le> amount0 * c * b div (Q96 * (b - c))" if "a \<le> c" "c < b" for c
    using that assms by (simp add: maxLiquidityForAmount0Precise_def bigint_div_nonneg pos_imp_zdiv_nonneg_iff)
  have M1: "maxLiquidityForAmount1 a c amount1 = Inr (amount1 * Q96 div (c - a)) \<and> 0 \<le> amount1 * Q96 div (c - a)" if "a < c" for c
    using that assms by (simp add: maxLiquidityForAmount1_def bigint_div_nonneg pos_imp_zdiv_nonneg_iff)
  consider "p \<le> a" | "a < p" "p < b" | "b \<le> p" by linarith
  then show ?thesis
  proof cases
    case 1
    then have "max a (min p b) = a" using assms by simp
    then show ?thesis
      using 1 assms M0 [of a] cost0_le_iff [OF assms(1,2), of a]
      by (auto simp: maxLiquidityForAmounts_def cost0_def cost1_def Let_def)
  next
    case 2
    then have "max a (min p b) = p" by simp
    then show ?thesis
      using 2 assms M0 [of p] M1 [of p] cost0_le_iff [OF assms(1,2), of p] cost1_le_iff [of a p]
      by (auto simp: maxLiquidityForAmounts_def cost0_def cost1_def Let_def)
  next
    case 3
    then have "max a (min p b) = b" using assms by simp
    then show ?thesis
      using 3 assms M1 [of b] cost1_le_iff [of a b] by (auto simp: maxLiquidityForAmounts_def cost0_def cost1_def Let_def)
  qed
qed

lemma imprecise_le_precise:
  assumes "0 < a" and "a < b" and "0 \<le> x"
  shows "\<exists>M N. maxLiquidityForAmount0Imprecise a b x = Inr M \<and> maxLiquidityForAmount0Precise a b x = Inr N \<and> M \<le> N"
proof -
  let ?M = "x * (a * b div Q96) div (b - a)" and ?N = "x * a * b div (Q96 * (b - a))"
  have d: "0 < b - a" "0 < Q96 * (b - a)" using assms by simp_all
  have i: "0 \<le> a * b div Q96" using assms by (simp add: pos_imp_zdiv_nonneg_iff)
  have "?M * (b - a) \<le> x * (a * b div Q96)" using le_div_iff [OF d(1), of ?M "x * (a * b div Q96)"] by simp
  then have "?M * (b - a) * Q96 \<le> x * (a * b div Q96) * Q96" by (intro mult_right_mono) simp_all
  also have "\<dots> \<le> x * (a * b)"
    using le_div_iff [of Q96 "a * b div Q96" "a * b"] assms(3) by (simp add: mult.assoc mult_left_mono)
  finally have "?M \<le> ?N" using d(2) by (simp add: le_div_iff ac_simps)
  then show ?thesis
    using assms d i by (simp add: maxLiquidityForAmount0Imprecise_def maxLiquidityForAmount0Precise_def bigint_div_nonneg)
qed

text \<open>The prices may come in either order.\<close>

lemma maxLiquidityForAmounts_sorted:
  "maxLiquidityForAmounts p ratioA ratioB amount0 amount1 full =
   maxLiquidityForAmounts p (min ratioA ratioB) (max ratioA ratioB) amount0 amount1 full"
  by (cases "ratioA > ratioB") (auto simp: maxLiquidityForAmounts_def min_def max_def)

text \<open>Without full precision the router's formula is used, which may give less and never more.\<close>

lemma maxLiquidityForAmounts_imprecise:
  assumes "0 < a" and "a < b" and "0 < p" and "0 \<le> amount0" and "0 \<le> amount1"
    and "maxLiquidityForAmounts p a b amount0 amount1 True = Inr M"
  shows "\<exists>N. maxLiquidityForAmounts p a b amount0 amount1 False = Inr N \<and> N \<le> M"
proof -
  have M1: "maxLiquidityForAmount1 a c amount1 = Inr (amount1 * Q96 div (c - a))" if "a < c" for c
    using that assms by (simp add: maxLiquidityForAmount1_def bigint_div_nonneg)
  consider "p \<le> a" | "a < p" "p < b" | "b \<le> p" by linarith
  then show ?thesis
  proof cases
    case 1
    then show ?thesis using assms imprecise_le_precise [of a b amount0] by (auto simp: maxLiquidityForAmounts_def)
  next
    case 2
    then show ?thesis using assms imprecise_le_precise [of p b amount0] M1 [of p] by (auto simp: maxLiquidityForAmounts_def)
  next
    case 3
    then show ?thesis using assms by (auto simp: maxLiquidityForAmounts_def)
  qed
qed

section \<open>Positions in a pool\<close>

text \<open>Ticks a position of the pool can have.\<close>

definition usable_range :: "Pool \<Rightarrow> int \<Rightarrow> int \<Rightarrow> bool" where
  "usable_range pool lower upper \<longleftrightarrow>
     MIN_TICK \<le> lower \<and> lower < upper \<and> upper \<le> MAX_TICK
     \<and> trem lower (Pool_tickSpacing pool) = 0 \<and> trem upper (Pool_tickSpacing pool) = 0"

lemma new_Position_eval:
  "usable_range pool lower upper \<Longrightarrow>
    new_Position pool L lower upper = Inr \<lparr>positionPool = pool, tickLower = lower, tickUpper = upper, positionLiquidity = L\<rparr>"
  by (simp add: new_Position_def usable_range_def)

text \<open>The clipped price tells the three cases of the tick comparisons apart.\<close>

lemma clipped_price:
  assumes "price_in_tick t p" and "MIN_TICK \<le> lower" and "lower < upper" and "upper \<le> MAX_TICK"
  shows "t < lower \<Longrightarrow> p \<le> sqrt_ratio lower" and "lower \<le> t \<Longrightarrow> sqrt_ratio lower \<le> p"
    and "t < upper \<Longrightarrow> p \<le> sqrt_ratio upper" and "upper \<le> t \<Longrightarrow> sqrt_ratio upper \<le> p"
proof -
  have t: "MIN_TICK \<le> t" "t < MAX_TICK" "sqrt_ratio t \<le> p" "p \<le> sqrt_ratio (t + 1)" using assms(1) by (simp_all add: price_in_tick_def)
  show "p \<le> sqrt_ratio lower" if "t < lower" using sqrt_ratio_mono [of "t + 1" lower] that t assms by simp
  show "sqrt_ratio lower \<le> p" if "lower \<le> t" using sqrt_ratio_mono [of lower t] that t assms by simp
  show "p \<le> sqrt_ratio upper" if "t < upper" using sqrt_ratio_mono [of "t + 1" upper] that t assms by simp
  show "sqrt_ratio upper \<le> p" if "upper \<le> t" using sqrt_ratio_mono [of upper t] that t assms by simp
qed

lemma mintAmounts_eval:
  assumes "price_in_tick (poolTickCurrent pool) (poolSqrtRatioX96 pool)" and "MIN_TICK \<le> lower" and "lower < upper" and "upper \<le> MAX_TICK" and "0 \<le> L"
  shows "mintAmounts \<lparr>positionPool = pool, tickLower = lower, tickUpper = upper, positionLiquidity = L\<rparr> =
    Inr (cost0 (poolSqrtRatioX96 pool) (sqrt_ratio lower) (sqrt_ratio upper) L, cost1 (poolSqrtRatioX96 pool) (sqrt_ratio lower) (sqrt_ratio upper) L)"
proof -
  let ?a = "sqrt_ratio lower" and ?b = "sqrt_ratio upper" and ?p = "poolSqrtRatioX96 pool" and ?t = "poolTickCurrent pool"
  note c = clipped_price [OF assms(1-4)]
  have ab: "0 < ?a" "?a < ?b" "0 < ?p"
    using assms sqrt_ratio_pos [OF tick_small, of lower] sqrt_ratio_less [OF tick_small tick_small, of lower upper] price_in_tick_pos by simp_all
  have r: "getSqrtRatioAtTick lower = Inr ?a" "getSqrtRatioAtTick upper = Inr ?b" using assms by (simp_all add: getSqrtRatioAtTick_eval)
  consider "?t < lower" | "lower \<le> ?t" "?t < upper" | "upper \<le> ?t" by linarith
  then show ?thesis
  proof cases
    case 1
    then have "max ?a (min ?p ?b) = ?a" using c(1) ab by simp
    then show ?thesis using 1 r ab assms(5) by (simp add: mintAmounts_def Let_def cost0_def cost1_def getAmount0Delta_eval)
  next
    case 2
    then have "max ?a (min ?p ?b) = ?p" "?a \<le> ?p" "?p \<le> ?b" using c(2,3) by simp_all
    then show ?thesis using 2 r ab assms(5) by (simp add: mintAmounts_def Let_def cost0_def cost1_def getAmount0Delta_eval getAmount1Delta_eval)
  next
    case 3
    then have "max ?a (min ?p ?b) = ?b" using c(4) ab by simp
    then show ?thesis using 3 r ab assms(3,5) by (simp add: mintAmounts_def Let_def cost0_def cost1_def getAmount1Delta_eval)
  qed
qed

lemma cdiv_near: "0 < b \<Longrightarrow> x div b \<le> cdiv x b \<and> cdiv x b \<le> x div b + 1"
  by (simp add: cdiv_def zdiv_zminus1_eq_if)

text \<open>Burning gives back at most what minting took, and at most one unit less.\<close>

lemma burn_near_mint:
  assumes "price_in_tick (poolTickCurrent pool) (poolSqrtRatioX96 pool)" and "MIN_TICK \<le> lower" and "lower < upper" and "upper \<le> MAX_TICK" and "0 \<le> L"
  shows "\<exists>x0 x1. getToken0Amount (poolTickCurrent pool) lower upper (poolSqrtRatioX96 pool) L = Inr x0
    \<and> getToken1Amount (poolTickCurrent pool) lower upper (poolSqrtRatioX96 pool) L = Inr x1
    \<and> x0 \<le> cost0 (poolSqrtRatioX96 pool) (sqrt_ratio lower) (sqrt_ratio upper) L \<and> cost0 (poolSqrtRatioX96 pool) (sqrt_ratio lower) (sqrt_ratio upper) L \<le> x0 + 1
    \<and> x1 \<le> cost1 (poolSqrtRatioX96 pool) (sqrt_ratio lower) (sqrt_ratio upper) L \<and> cost1 (poolSqrtRatioX96 pool) (sqrt_ratio lower) (sqrt_ratio upper) L \<le> x1 + 1"
proof -
  let ?a = "sqrt_ratio lower" and ?b = "sqrt_ratio upper" and ?p = "poolSqrtRatioX96 pool" and ?t = "poolTickCurrent pool"
  note c = clipped_price [OF assms(1-4)]
  have ab: "0 < ?a" "?a < ?b" "0 < ?p"
    using assms sqrt_ratio_pos [OF tick_small, of lower] sqrt_ratio_less [OF tick_small tick_small, of lower upper] price_in_tick_pos by simp_all
  have r: "getSqrtRatioAtTick lower = Inr ?a" "getSqrtRatioAtTick upper = Inr ?b" using assms by (simp_all add: getSqrtRatioAtTick_eval)
  consider "?t < lower" | "lower \<le> ?t" "?t < upper" | "upper \<le> ?t" by linarith
  then show ?thesis
  proof cases
    case 1
    then have "max ?a (min ?p ?b) = ?a" using c(1) ab by simp
    then show ?thesis
      using 1 r ab assms(5) cdiv_near [of "?b * ?a"] by (simp add: getToken0Amount_def getToken1Amount_def cost0_def cost1_def Let_def getAmount0Delta_eval)
  next
    case 2
    then have "max ?a (min ?p ?b) = ?p" "?a \<le> ?p" "?p \<le> ?b" using c(2,3) by simp_all
    then show ?thesis
      using 2 r ab assms(5) cdiv_near [of "?b * ?p"] cdiv_near [of Q96]
      by (simp add: getToken0Amount_def getToken1Amount_def cost0_def cost1_def Let_def getAmount0Delta_eval getAmount1Delta_eval)
  next
    case 3
    then have "max ?a (min ?p ?b) = ?b" using c(4) ab by simp
    then show ?thesis
      using 3 r ab assms(3,5) cdiv_near [of Q96] by (simp add: getToken0Amount_def getToken1Amount_def cost0_def cost1_def Let_def getAmount1Delta_eval)
  qed
qed

section \<open>Fees modulo \<open>2 ^ 256\<close>\<close>

lemma subIn256_mod:
  assumes "0 \<le> x" and "x < Q256" and "0 \<le> y" and "y < Q256"
  shows "subIn256 x y = (x - y) mod Q256"
proof (cases "x < y")
  case True
  have "(x - y) mod Q256 = (x - y + Q256) mod Q256" by simp
  also have "\<dots> = x - y + Q256" using True assms by (intro mod_pos_pos_trivial) simp_all
  finally show ?thesis using True by (simp add: subIn256_def Let_def)
qed (use assms in \<open>simp add: subIn256_def Let_def\<close>)

lemma subIn256_range: "0 \<le> x \<Longrightarrow> x < Q256 \<Longrightarrow> 0 \<le> y \<Longrightarrow> y < Q256 \<Longrightarrow> 0 \<le> subIn256 x y \<and> subIn256 x y < Q256"
  by (simp add: subIn256_mod Q256_def)

lemma subIn256_word:
  assumes "0 \<le> x" and "x < Q256" and "0 \<le> y" and "y < Q256"
  shows "subIn256 x y = uint (word_of_int x - word_of_int y :: 256 word)"
proof -
  have "uint (word_of_int x :: 256 word) = x" "uint (word_of_int y :: 256 word) = y"
    using assms unfolding uint_word_of_int by (simp_all add: Q256_def)
  then have "uint (word_of_int x - word_of_int y :: 256 word) = (x - y) mod 2 ^ LENGTH(256)"
    by (simp only: uint_word_ariths)
  then show ?thesis using subIn256_mod [OF assms] by (simp add: Q256_def)
qed

section \<open>The nearest usable tick\<close>

lemma nearestUsableTick_spec:
  assumes "0 < s" and "MIN_TICK \<le> t" and "t \<le> MAX_TICK"
  shows "\<exists>u. nearestUsableTick t s = Inr u \<and> s dvd u \<and> MIN_TICK \<le> u \<and> u \<le> MAX_TICK \<and> \<bar>u - t\<bar> < s
    \<and> (2 * \<bar>u - t\<bar> \<le> s \<or> u - s < MIN_TICK \<or> MAX_TICK < u + s)"
proof (cases "s = 1")
  case True
  then show ?thesis using assms by (simp add: nearestUsableTick_def)
next
  case False
  define k where "k = (2 * t + s) div (2 * s)"
  define r where "r = k * s"
  have "k * (2 * s) \<le> 2 * t + s" "2 * t + s < (k + 1) * (2 * s)"
    using le_div_iff [of "2 * s" k "2 * t + s"] div_less_bound [of "2 * s" "2 * t + s" "k + 1"] assms(1) by (simp_all add: k_def)
  then have near: "2 * r \<le> 2 * t + s" "2 * t < 2 * r + s" by (simp_all add: r_def algebra_simps)
  have up: "r + s \<le> 0" if "r < 0"
  proof -
    have "k < 0" using that assms(1) by (simp add: r_def mult_less_0_iff)
    then have "(k + 1) * s \<le> 0 * s" using assms(1) by (intro mult_right_mono) simp_all
    then show ?thesis by (simp add: r_def algebra_simps)
  qed
  have down: "0 \<le> r - s" if "0 < r"
  proof -
    have "0 < k" using that assms(1) by (simp add: r_def zero_less_mult_iff)
    then have "0 * s \<le> (k - 1) * s" using assms(1) by (intro mult_right_mono) simp_all
    then show ?thesis by (simp add: r_def algebra_simps)
  qed
  have call: "nearestUsableTick t s = Inr (if r < MIN_TICK then r + s else if MAX_TICK < r then r - s else r)"
    using assms False by (simp add: nearestUsableTick_def Let_def r_def k_def)
  have "s dvd r" by (simp add: r_def)
  moreover have "2 * \<bar>r - t\<bar> \<le> s" using near by (simp add: abs_if)
  ultimately show ?thesis
    unfolding call using near up down assms by (cases "r < MIN_TICK"; cases "MAX_TICK < r") (auto simp: MIN_MAX_TICK)
qed

end
