(* ===== verification/V3Fees.thy ===== *)
theory V3Fees
  imports V3PositionFacts
begin

text \<open>
  The fee calculator of the V3 exchange (\<^verbatim>\<open>v3-sdk/src/utils/feeCalculator.ts\<close> and
  \<^verbatim>\<open>parseProtocolFees.ts\<close>): the liquidity at a tick, the average liquidity over a range, the
  liquidity and amounts of a prospective position, and the fees it would earn.  The daily volume
  is a number parsed by another package; its fraction, if any, is a parameter.  The lemmas show
  that the average is the exact mean of the liquidity over the ticks of the range, and what the
  liquidity at a tick leaves out.
\<close>

section \<open>Definitions\<close>

subsection \<open>Liquidity at a tick\<close>

fun liquidity_scan :: "Tick list \<Rightarrow> int \<Rightarrow> int \<Rightarrow> int" where
  "liquidity_scan (a # b # rest) t acc =
     (let acc = acc + liquidityNet a in
      if index a \<le> t \<and> t \<le> index b then acc else liquidity_scan (b # rest) t acc)"
| "liquidity_scan _ t acc = acc"

definition getLiquidityFromTick :: "Tick list \<Rightarrow> int \<Rightarrow> int" where
  "getLiquidityFromTick ticks t =
     (if ticks = [] then 0
      else if t < index (ticks ! 0) \<or> t > index (ticks ! (length ticks - 1)) then 0
      else liquidity_scan ticks t 0)"

definition getLiquidityFromSqrtRatioX96 :: "Tick list \<Rightarrow> int \<Rightarrow> js_error + int" where
  "getLiquidityFromSqrtRatioX96 ticks sqrtRatio =
     bindS (getTickAtSqrtRatio sqrtRatio) (\<lambda>t. Inr (getLiquidityFromTick ticks t))"

subsection \<open>Average liquidity\<close>

text \<open>The loop, over the weighted sum, the current liquidity, the last tick's index and the current tick.\<close>

partial_function (option) average_loop ::
  "Tick list \<Rightarrow> int \<Rightarrow> int \<Rightarrow> int \<Rightarrow> int \<Rightarrow> int \<Rightarrow> Tick \<Rightarrow> (int \<times> int \<times> int) run" where
  "average_loop ticks lower upper weightedL currentL lastIndex current =
     (if index current < upper then
        (let weightedL' = weightedL + currentL * (index current - max lastIndex lower);
             currentL' = currentL + liquidityNet current in
         if index current = index (ticks ! (length ticks - 1)) then Some (Inr (weightedL', currentL', index current))
         else (case nextInitializedTick ticks (index current) False of
                 None \<Rightarrow> None
               | Some (Inl e) \<Rightarrow> Some (Inl e)
               | Some (Inr following) \<Rightarrow>
                   average_loop ticks lower upper weightedL' currentL' (index current) following))
      else Some (Inr (weightedL, currentL, lastIndex)))"

declare average_loop.simps [code]

definition getAverageLiquidity :: "Tick list \<Rightarrow> int \<Rightarrow> int \<Rightarrow> int \<Rightarrow> int run" where
  "getAverageLiquidity ticks spacing lower upper =
     invariantR (lower \<le> upper) ''INVALID_TICK_RANGE''
       (bindR (runS (validateList ticks spacing)) (\<lambda>_.
        if lower = upper then Some (Inr (getLiquidityFromTick ticks lower))
        else
          bindR (runS (tick_at ticks 0)) (\<lambda>first.
          let lowerOutOfBound = (lower < index first) in
          bindR (if lowerOutOfBound then runS (new_Tick MIN_TICK 0 0) else nextInitializedTick ticks lower True) (\<lambda>lastTick.
          bindR (nextInitializedTick ticks lower False) (\<lambda>current.
          let currentL = (if lowerOutOfBound then 0 else getLiquidityFromTick ticks (index current)) in
          bindR (average_loop ticks lower upper 0 currentL (index lastTick) current) (\<lambda>(weightedL, L, lastIndex).
            runS (bigint_div (weightedL + L * (upper - max lastIndex lower)) (upper - lower))))))))"

subsection \<open>Prospective positions\<close>

text \<open>An error of the liquidity computation is caught and gives no result.\<close>

definition getLiquidityByAmountsAndPrice ::
  "CurrencyAmount \<Rightarrow> CurrencyAmount \<Rightarrow> int \<Rightarrow> int \<Rightarrow> int \<Rightarrow> js_error + int option" where
  "getLiquidityByAmountsAndPrice amountA amountB upper lower sqrtRatio =
     bindS (if address (wrapped (currency amountA)) \<noteq> address (wrapped (currency amountB))
            then sortsBefore (wrapped (currency amountA)) (wrapped (currency amountB)) else Inr True) (\<lambda>isToken0.
     bindS (if isToken0 then quotient amountA else quotient amountB) (\<lambda>inputAmount0.
     bindS (if isToken0 then quotient amountB else quotient amountA) (\<lambda>inputAmount1.
     bindS (getSqrtRatioAtTick lower) (\<lambda>a.
     bindS (getSqrtRatioAtTick upper) (\<lambda>b.
       Inr (case maxLiquidityForAmounts sqrtRatio a b inputAmount0 inputAmount1 True of
              Inr L \<Rightarrow> Some L | Inl e \<Rightarrow> None))))))"

definition getLiquidityBySingleAmount ::
  "CurrencyAmount \<Rightarrow> Currency \<Rightarrow> int \<Rightarrow> int \<Rightarrow> int \<Rightarrow> js_error + int option" where
  "getLiquidityBySingleAmount amount c upper lower sqrtRatio =
     bindS (fromRawAmount c MaxUint256) (\<lambda>amountB. getLiquidityByAmountsAndPrice amount amountB upper lower sqrtRatio)"

text \<open>No liquidity, and a liquidity of zero, count as none.\<close>

definition getDependentAmount ::
  "CurrencyAmount \<Rightarrow> Currency \<Rightarrow> int \<Rightarrow> int \<Rightarrow> int \<Rightarrow> js_error + CurrencyAmount option" where
  "getDependentAmount amount c upper lower sqrtRatio =
     bindS (getTickAtSqrtRatio sqrtRatio) (\<lambda>currentTick.
     bindS (getLiquidityBySingleAmount amount c upper lower sqrtRatio) (\<lambda>found.
     bindS (sortsBefore (wrapped c) (wrapped (currency amount))) (\<lambda>isToken0.
       case found of
         None \<Rightarrow> Inr None
       | Some L \<Rightarrow>
           if L = 0 then Inr None
           else bindS ((if isToken0 then getToken0Amount else getToken1Amount) currentTick lower upper sqrtRatio L) (\<lambda>v.
                bindS (fromRawAmount c v) (\<lambda>a. Inr (Some a))))))"

definition getAmountsByLiquidityAndPrice ::
  "Currency \<Rightarrow> Currency \<Rightarrow> int \<Rightarrow> int \<Rightarrow> int \<Rightarrow> int \<Rightarrow> js_error + (CurrencyAmount \<times> CurrencyAmount)" where
  "getAmountsByLiquidityAndPrice currencyA currencyB L sqrtRatio lower upper =
     bindS (getTickAtSqrtRatio sqrtRatio) (\<lambda>currentTick.
     bindS (sortsBefore (wrapped currencyA) (wrapped currencyB)) (\<lambda>isToken0.
     bindS (getToken0Amount currentTick lower upper sqrtRatio L) (\<lambda>amount0.
     bindS (getToken1Amount currentTick lower upper sqrtRatio L) (\<lambda>amount1.
     bindS (fromRawAmount currencyA (if isToken0 then amount0 else amount1)) (\<lambda>a.
     bindS (fromRawAmount currencyB (if isToken0 then amount1 else amount0)) (\<lambda>b.
       Inr (a, b)))))))"

definition getAmountsAtNewPrice ::
  "CurrencyAmount \<Rightarrow> CurrencyAmount \<Rightarrow> int \<Rightarrow> int \<Rightarrow> int \<Rightarrow> int \<Rightarrow> js_error + (CurrencyAmount \<times> CurrencyAmount) option" where
  "getAmountsAtNewPrice amountA amountB lower upper sqrtRatio newSqrtRatio =
     bindS (getLiquidityByAmountsAndPrice amountA amountB upper lower sqrtRatio) (\<lambda>found.
       case found of
         None \<Rightarrow> Inr None
       | Some L \<Rightarrow>
           if L = 0 then Inr None
           else bindS (getAmountsByLiquidityAndPrice (currency amountA) (currency amountB) L newSqrtRatio lower upper)
                  (\<lambda>r. Inr (Some r)))"

subsection \<open>Estimated fees\<close>

record EstimateFeeOptions =
  estAmountA :: CurrencyAmount
  estAmountB :: CurrencyAmount
  estTickLower :: int
  estTickUpper :: int
  estVolume24H :: "Fraction option"
  estSqrtRatioX96 :: int
  estMostActiveLiquidity :: int
  estFee :: int
  estInsidePercentage :: "Percent option"
  estProtocolFee :: "Percent option"

definition tryGetEstimatedLPFeeByAmounts :: "EstimateFeeOptions \<Rightarrow> js_error + Fraction" where
  "tryGetEstimatedLPFeeByAmounts opts =
     invariantS (estFee opts \<ge> 0) ''INVALID_FEE''
       (bindS (getTickAtSqrtRatio (estSqrtRatioX96 opts)) (\<lambda>tickCurrent.
        if tickCurrent < estTickLower opts \<or> tickCurrent \<ge> estTickUpper opts then Inr (new_Fraction 0 1)
        else
          bindS (getLiquidityByAmountsAndPrice (estAmountA opts) (estAmountB opts) (estTickUpper opts) (estTickLower opts)
                   (estSqrtRatioX96 opts)) (\<lambda>found.
            case found of
              None \<Rightarrow> Inr (new_Fraction 0 1)
            | Some L \<Rightarrow>
                if L = 0 then Inr (new_Fraction 0 1)
                else
                  (let volume = (case estVolume24H opts of Some v \<Rightarrow> v | None \<Rightarrow> new_Fraction 0 1);
                       inside = (case estInsidePercentage opts of Some p \<Rightarrow> p | None \<Rightarrow> ONE_HUNDRED_PERCENT) in
                   Inr (asFraction (Percent_divide
                          (Percent_multiply inside
                             (frac (Fraction_multiply (Fraction_multiply volume (AsBigint (estFee opts))) (AsBigint L))))
                          (AsBigint (MAX_FEE * (L + estMostActiveLiquidity opts)))))))))"

text \<open>The errors are caught: a failed estimate is zero.\<close>

definition getEstimatedLPFeeByAmountsWithProtocolFee :: "EstimateFeeOptions \<Rightarrow> Fraction" where
  "getEstimatedLPFeeByAmountsWithProtocolFee opts =
     (case tryGetEstimatedLPFeeByAmounts opts of Inr f \<Rightarrow> f | Inl e \<Rightarrow> new_Fraction 0 1)"

definition getEstimatedLPFeeByAmounts :: "EstimateFeeOptions \<Rightarrow> Fraction" where
  "getEstimatedLPFeeByAmounts opts =
     (case tryGetEstimatedLPFeeByAmounts opts of
        Inr f \<Rightarrow>
          (let protocolFee = (case estProtocolFee opts of Some p \<Rightarrow> p | None \<Rightarrow> ZERO_PERCENT) in
           asFraction (Percent_multiply (Percent_subtract ONE_HUNDRED_PERCENT (frac protocolFee)) (frac f)))
      | Inl e \<Rightarrow> new_Fraction 0 1)"

definition getEstimatedLPFeeWithProtocolFee :: "EstimateFeeOptions \<Rightarrow> Currency \<Rightarrow> js_error + Fraction" where
  "getEstimatedLPFeeWithProtocolFee opts c =
     bindS (fromRawAmount c MaxUint256) (\<lambda>amountB.
       Inr (getEstimatedLPFeeByAmountsWithProtocolFee (opts\<lparr>estAmountB := amountB\<rparr>)))"

definition getEstimatedLPFee :: "EstimateFeeOptions \<Rightarrow> Currency \<Rightarrow> js_error + Fraction" where
  "getEstimatedLPFee opts c =
     bindS (fromRawAmount c MaxUint256) (\<lambda>amountB.
       Inr (getEstimatedLPFeeByAmounts (opts\<lparr>estAmountB := amountB\<rparr>)))"

text \<open>The packed number has the fee of token 0 in its low 16 bits; the shift works on 32 bits.\<close>

definition parseProtocolFees :: "int \<Rightarrow> Percent \<times> Percent" where
  "parseProtocolFees packed =
     (new_Percent (trem packed (2 ^ 16)) (10 ^ 4), new_Percent (drop_bit 16 (int32 packed)) (10 ^ 4))"

section \<open>The liquidity at a tick\<close>

lemma liquidity_in_range_same:
  assumes "a \<le> b" and "\<And>k. k \<in> set ticks \<Longrightarrow> \<not> (a < index k \<and> index k \<le> b)"
  shows "liquidity_in_range ticks b = liquidity_in_range ticks a"
proof -
  have "filter (\<lambda>k. index k \<le> b) ticks = filter (\<lambda>k. index k \<le> a) ticks"
    using assms by (intro filter_cong) fastforce+
  then show ?thesis by (simp add: liquidity_in_range_def)
qed

lemma liquidity_in_range_cross:
  assumes "wf_ticks ticks" and "k < length ticks"
  shows "liquidity_in_range ticks (index (ticks ! k)) = liquidity_in_range ticks (index (ticks ! k) - 1) + liquidityNet (ticks ! k)"
proof -
  have "index (ticks ! k) \<in> tick_indices ticks" using assms(2) by (auto simp: tick_indices_iff)
  then show ?thesis
    using tick_list.liquidity_at_cross [of "index (ticks ! k)" ticks] tick_net_nth [OF assms]
    by (simp add: liquidity_in_range_eq [OF assms(1)])
qed

lemma liquidity_scan_eval:
  "sorted_wrt (\<lambda>a b. index a < index b) ticks \<Longrightarrow> ticks \<noteq> [] \<Longrightarrow> index (hd ticks) < t \<Longrightarrow> t \<le> index (last ticks)
   \<Longrightarrow> liquidity_scan ticks t acc = acc + liquidity_in_range ticks (t - 1)"
proof (induction ticks t acc rule: liquidity_scan.induct)
  case (1 a b rest t acc)
  show ?case
  proof (cases "t \<le> index b")
    case True
    then have "filter (\<lambda>k. index k \<le> t - 1) rest = []" using 1(2) by (fastforce simp: filter_empty_conv)
    then show ?thesis using True 1(4) by (simp add: liquidity_in_range_def)
  next
    case False
    then show ?thesis using 1 by (simp add: liquidity_in_range_def)
  qed
qed auto

text \<open>
  Strictly above the first tick the value is the liquidity just below the tick: the net liquidity of
  an initialized tick is left out of the liquidity at that tick, except at the first one.
\<close>

lemma getLiquidityFromTick_eval:
  assumes "wf_ticks ticks" and "index (ticks ! 0) < t" and "t \<le> index (ticks ! (length ticks - 1))"
  shows "getLiquidityFromTick ticks t = liquidity_in_range ticks (t - 1)"
proof -
  have "ticks \<noteq> []" "sorted_wrt (\<lambda>a b. index a < index b) ticks" using assms(1) by (simp_all add: wf_ticks_def)
  then show ?thesis
    using assms(2,3) liquidity_scan_eval [of ticks t 0] by (simp add: getLiquidityFromTick_def hd_conv_nth last_conv_nth)
qed

lemma getLiquidityFromTick_outside:
  "t < index (ticks ! 0) \<or> index (ticks ! (length ticks - 1)) < t \<Longrightarrow> getLiquidityFromTick ticks t = 0"
  by (auto simp: getLiquidityFromTick_def)

section \<open>The average liquidity\<close>

definition liquidity_sum :: "Tick list \<Rightarrow> int \<Rightarrow> int \<Rightarrow> int" where
  "liquidity_sum ticks a b = (\<Sum>t = a..<b. liquidity_in_range ticks t)"

lemma liquidity_sum_extend:
  assumes "a \<le> b" and "b \<le> c" and "\<And>k. k \<in> set ticks \<Longrightarrow> \<not> (b < index k \<and> index k < c)"
  shows "liquidity_sum ticks a c = liquidity_sum ticks a b + liquidity_in_range ticks b * (c - b)"
proof -
  have "liquidity_in_range ticks t = liquidity_in_range ticks b" if "t \<in> {b..<c}" for t
    using that assms(3) by (intro liquidity_in_range_same) (auto dest: order_le_less_trans)
  then have "(\<Sum>t = b..<c. liquidity_in_range ticks t) = (\<Sum>t = b..<c. liquidity_in_range ticks b)"
    by (intro sum.cong) blast+
  then have "(\<Sum>t = b..<c. liquidity_in_range ticks t) = liquidity_in_range ticks b * (c - b)"
    using assms(2) by simp
  moreover have "{a..<c} = {a..<b} \<union> {b..<c}" using assms(1,2) by auto
  ultimately show ?thesis
    unfolding liquidity_sum_def by (simp add: sum.union_disjoint ivl_disj_int)
qed

text \<open>
  At the head of the loop the weighted sum is that of the ticks below the greater of the last tick
  and the lower bound, from where the liquidity is the current one up to the current tick.
\<close>

lemma average_loop_sum:
  assumes "wf_ticks ticks"
  shows "k < length ticks \<Longrightarrow> lower \<le> base \<Longrightarrow> base < upper \<Longrightarrow> base < index (ticks ! k)
    \<Longrightarrow> (\<And>j. j < k \<Longrightarrow> index (ticks ! j) \<le> base) \<Longrightarrow> base = max lastIndex lower
    \<Longrightarrow> \<exists>w L l. average_loop ticks lower upper (liquidity_sum ticks lower base) (liquidity_in_range ticks base) lastIndex (ticks ! k)
          = Some (Inr (w, L, l)) \<and> w + L * (upper - max l lower) = liquidity_sum ticks lower upper"
proof (induction "length ticks - k" arbitrary: k base lastIndex rule: less_induct)
  case less
  let ?c = "index (ticks ! k)"
  have later: "j < k \<or> ?c \<le> index (ticks ! j)" if "j < length ticks" for j
    using wf_ticks_le_iff [OF assms less.prems(1) that] by linarith
  have gap: "\<not> (base < index u \<and> index u < ?c)" if "u \<in> set ticks" for u
    using that later less.prems(5) by (fastforce simp: in_set_conv_nth)
  show ?case
  proof (cases "?c < upper")
    case False
    then have "liquidity_sum ticks lower upper = liquidity_sum ticks lower base + liquidity_in_range ticks base * (upper - base)"
      using gap less.prems by (intro liquidity_sum_extend) fastforce+
    then show ?thesis using False less.prems(6) by (subst average_loop.simps) auto
  next
    case True
    have sum: "liquidity_sum ticks lower ?c = liquidity_sum ticks lower base + liquidity_in_range ticks base * (?c - base)"
      using gap less.prems by (intro liquidity_sum_extend) fastforce+
    have "liquidity_in_range ticks (?c - 1) = liquidity_in_range ticks base"
      using gap less.prems(4) by (intro liquidity_in_range_same) fastforce+
    then have L: "liquidity_in_range ticks base + liquidityNet (ticks ! k) = liquidity_in_range ticks ?c"
      using liquidity_in_range_cross [OF assms less.prems(1)] by simp
    have c: "max ?c lower = ?c" "lower \<le> ?c" using less.prems by auto
    show ?thesis
    proof (cases "k = length ticks - 1")
      case last: True
      have "\<not> (?c < index u \<and> index u < upper)" if "u \<in> set ticks" for u
        using that last wf_ticks_le_iff [OF assms _ less.prems(1)] less.prems(1) by (fastforce simp: in_set_conv_nth)
      then have "liquidity_sum ticks lower upper = liquidity_sum ticks lower ?c + liquidity_in_range ticks ?c * (upper - ?c)"
        using True c(2) by (intro liquidity_sum_extend) auto
      then show ?thesis
        using True last sum L c(1) less.prems(6) by (subst average_loop.simps) (simp add: Let_def)
    next
      case False
      then have k: "Suc k < length ticks" "?c < index (ticks ! (length ticks - 1))"
        using less.prems(1) wf_ticks_less [OF assms, of k "length ticks - 1"] by auto
      obtain n where n: "n < length ticks" "nextInitializedTick ticks ?c False = Some (Inr (ticks ! n))" "?c < index (ticks ! n)"
        "\<forall>j < length ticks. ?c < index (ticks ! j) \<longrightarrow> n \<le> j"
        using nextInitializedTick_up [OF assms k(2)] by blast
      then have "k < n" using wf_ticks_le_iff [OF assms n(1) less.prems(1)] by linarith
      have "index (ticks ! j) \<le> ?c" if "j < n" for j using n(1,4) that by (meson not_less less_trans)
      then obtain w L l where "average_loop ticks lower upper (liquidity_sum ticks lower ?c) (liquidity_in_range ticks ?c) ?c (ticks ! n)
          = Some (Inr (w, L, l))" "w + L * (upper - max l lower) = liquidity_sum ticks lower upper"
        using less.hyps [OF _ n(1) c(2) True n(3) _ c(1) [symmetric]] diff_less_mono2 [OF \<open>k < n\<close> less.prems(1)]
        by blast
      moreover have "?c \<noteq> index (ticks ! (length ticks - 1))" using k(2) by simp
      ultimately show ?thesis
        using True sum L n(2) less.prems(6) by (subst average_loop.simps) (simp add: Let_def)
    qed
  qed
qed

lemma getAverageLiquidity_mean:
  assumes "wf_ticks ticks" and "validateList ticks spacing = Inr ()"
    and "MIN_TICK \<le> lower" and "lower < upper" and "lower < index (ticks ! (length ticks - 1))"
  shows "getAverageLiquidity ticks spacing lower upper = Some (Inr (tdiv (liquidity_sum ticks lower upper) (upper - lower)))"
proof -
  obtain k where k: "k < length ticks" "nextInitializedTick ticks lower False = Some (Inr (ticks ! k))" "lower < index (ticks ! k)"
    "\<forall>j < length ticks. lower < index (ticks ! j) \<longrightarrow> k \<le> j"
    using nextInitializedTick_up [OF assms(1,5)] by blast
  have below: "index (ticks ! j) \<le> lower" if "j < k" for j using k(1,4) that by (meson not_less less_trans)
  let ?out = "lower < index (ticks ! 0)"
  have tick0: "tick_at ticks 0 = Inr (ticks ! 0)" using k(1) tick_at_nat [of 0 ticks] by (cases ticks) auto
  have "\<exists>i. (if ?out then runS (new_Tick MIN_TICK 0 0) else nextInitializedTick ticks lower True) = Some (Inr i) \<and> index i \<le> lower"
    using nextInitializedTick_down [OF assms(1), of lower] assms(3) MIN_MAX_TICK
    by (auto simp: runS_def new_Tick_def last_le_def)
  then obtain i where i: "(if ?out then runS (new_Tick MIN_TICK 0 0) else nextInitializedTick ticks lower True) = Some (Inr i)"
    "index i \<le> lower" by blast
  have L: "(if ?out then 0 else getLiquidityFromTick ticks (index (ticks ! k))) = liquidity_in_range ticks lower"
  proof (cases ?out)
    case True
    then have "\<not> index u \<le> lower" if "u \<in> set ticks" for u
      using that wf_ticks_le_iff [OF assms(1), of 0] by (fastforce simp: in_set_conv_nth)
    then show ?thesis using True by (simp add: liquidity_in_range_def filter_False)
  next
    case False
    have "\<not> (lower < index u \<and> index u \<le> index (ticks ! k) - 1)" if "u \<in> set ticks" for u
      using that below wf_ticks_le_iff [OF assms(1) k(1)] by (fastforce simp: in_set_conv_nth not_le)
    then have "liquidity_in_range ticks (index (ticks ! k) - 1) = liquidity_in_range ticks lower"
      using k(3) by (intro liquidity_in_range_same) auto
    moreover have "index (ticks ! k) \<le> index (ticks ! (length ticks - 1))" using wf_ticks_le_iff [OF assms(1) k(1)] k(1) by simp
    ultimately show ?thesis using False k(3) getLiquidityFromTick_eval [OF assms(1)] by simp
  qed
  have "liquidity_sum ticks lower lower = 0" by (simp add: liquidity_sum_def)
  then obtain w M l where loop: "average_loop ticks lower upper 0 (liquidity_in_range ticks lower) (index i) (ticks ! k) = Some (Inr (w, M, l))"
    "w + M * (upper - max l lower) = liquidity_sum ticks lower upper"
    using average_loop_sum [OF assms(1) k(1) order_refl assms(4) k(3) below, of "index i"] i(2) by auto
  show ?thesis
    using assms(2,4) tick0 i(1) k(2) L loop
    by (simp add: getAverageLiquidity_def Let_def runS_def bigint_div_def)
qed

text \<open>A range that starts at or above the last tick is refused by the search for its first tick.\<close>

lemma getAverageLiquidity_above:
  assumes "wf_ticks ticks" and "validateList ticks spacing = Inr ()"
    and "lower < upper" and "index (ticks ! (length ticks - 1)) \<le> lower"
  shows "getAverageLiquidity ticks spacing lower upper = Some (Inl (Invariant ''AT_OR_ABOVE_LARGEST''))"
proof -
  have "0 < length ticks" using assms(1) by (simp add: wf_ticks_def)
  then have "index (ticks ! 0) \<le> lower" using wf_ticks_le_iff [OF assms(1), of 0 "length ticks - 1"] assms(4) by simp
  moreover have "tick_at ticks 0 = Inr (ticks ! 0)" using \<open>0 < length ticks\<close> tick_at_nat [of 0 ticks] by simp
  moreover have "nextInitializedTick ticks lower False = Some (Inl (Invariant ''AT_OR_ABOVE_LARGEST''))"
    using assms(1,4) by (simp add: nextInitializedTick_def isAtOrAboveLargest_wf runS_def)
  ultimately show ?thesis
    using assms(2,3) nextInitializedTick_down [OF assms(1), of lower]
    by (auto simp: getAverageLiquidity_def runS_def)
qed

end
