(* ===== verification/V3Functions.thy ===== *)
theory V3Functions
  imports V3Fees
begin

text \<open>
  The functional interface of the V3 exchange (\<^verbatim>\<open>v3-sdk/src/functions\<close>): pools as plain records
  that may hold the native currency, their prices, and swaps and quotes on them.  \<^verbatim>\<open>functions/swap.ts\<close> has its own
  checks, loop and state, translated here apart from those of \<^verbatim>\<open>entities/pool.ts\<close>.  The lemmas relate the two by
  a simulation of their rounds: on the pools of the class both interfaces do the same, and one loop
  returns exactly when the other does; and they show where the price functions differ.
\<close>

section \<open>Pools as records\<close>

record PoolState =
  psCurrency0 :: Currency
  psCurrency1 :: Currency
  psFee :: int
  psTickCurrent :: int
  psTickSpacing :: int
  psSqrtRatioX96 :: int
  psLiquidity :: int
  psTickDataProvider :: TickDataProvider

definition MAX_FEE_AMOUNT :: int where
  "MAX_FEE_AMOUNT = 1000000"

text \<open>The sort of two currencies: its comparator decides, which is consistent unless both are native.\<close>

definition sortCurrencies :: "Currency \<Rightarrow> Currency \<Rightarrow> js_error + (Currency \<times> Currency)" where
  "sortCurrencies a b =
     bindS (compareCurrencies a b) (\<lambda>c. Inr (if c < 0 then (a, b) else (b, a)))"

definition getPool :: "Currency \<Rightarrow> Currency \<Rightarrow> int \<Rightarrow> int \<Rightarrow> int \<Rightarrow> int \<Rightarrow> int \<Rightarrow> PoolTicks \<Rightarrow> js_error + PoolState" where
  "getPool currencyA currencyB feeAmt sqrtRatio L tickCurrent spacing ticks =
     invariantS (feeAmt < MAX_FEE_AMOUNT) ''FEE''
       (bindS (sortCurrencies currencyA currencyB) (\<lambda>(currency0, currency1).
        bindS (provider_of ticks) (\<lambda>provider.
          Inr \<lparr>psCurrency0 = currency0, psCurrency1 = currency1, psFee = feeAmt, psTickCurrent = tickCurrent,
               psTickSpacing = spacing, psSqrtRatioX96 = sqrtRatio, psLiquidity = L,
               psTickDataProvider = provider\<rparr>)))"

definition hasInvolvedCurrency :: "PoolState \<Rightarrow> Currency \<Rightarrow> bool" where
  "hasInvolvedCurrency pool c =
     (if isNative c then isNative (psCurrency0 pool) \<and> currency_chainId (psCurrency1 pool) = currency_chainId c
      else Currency_equals (psCurrency0 pool) c \<or> Currency_equals (psCurrency1 pool) c)"

section \<open>Prices\<close>

definition getCurrency0Price :: "Currency \<times> Currency \<Rightarrow> int \<Rightarrow> Price" where
  "getCurrency0Price cs currentSqrtRatioX96 =
     (let ratio192 = currentSqrtRatioX96 * currentSqrtRatioX96 in new_Price (fst cs) (snd cs) Q192 ratio192)"

definition getCurrency1Price :: "Currency \<times> Currency \<Rightarrow> int \<Rightarrow> Price" where
  "getCurrency1Price cs currentSqrtRatioX96 =
     (let ratio192 = currentSqrtRatioX96 * currentSqrtRatioX96 in new_Price (snd cs) (fst cs) Q192 ratio192)"

definition getPriceOfCurrency0 :: "PoolState \<Rightarrow> Price" where
  "getPriceOfCurrency0 pool = getCurrency0Price (psCurrency0 pool, psCurrency1 pool) (psSqrtRatioX96 pool)"

definition getPriceOfCurrency1 :: "PoolState \<Rightarrow> Price" where
  "getPriceOfCurrency1 pool = getCurrency1Price (psCurrency0 pool, psCurrency1 pool) (psSqrtRatioX96 pool)"

definition getPriceOfCurrency :: "PoolState \<Rightarrow> Currency \<Rightarrow> js_error + Price" where
  "getPriceOfCurrency pool c =
     (if isNative c
      then invariantS (isNative (psCurrency0 pool)) ''CURRENCY''
             (Inr (getCurrency0Price (psCurrency0 pool, psCurrency1 pool) (psSqrtRatioX96 pool)))
      else invariantS (Currency_equals (psCurrency0 pool) c \<or> Currency_equals (psCurrency1 pool) c) ''CURRENCY''
             (Inr (if Currency_equals (psCurrency0 pool) c
                   then getCurrency0Price (psCurrency0 pool, psCurrency1 pool) (psSqrtRatioX96 pool)
                   else getCurrency1Price (psCurrency0 pool, psCurrency1 pool) (psSqrtRatioX96 pool))))"

text \<open>\<^verbatim>\<open>tickToPriceV2\<close> of \<^verbatim>\<open>utils/priceTickConversions.ts\<close> compares the first of the sorted currencies with the base.\<close>

definition tickToPriceV2 :: "Currency \<Rightarrow> Currency \<Rightarrow> int \<Rightarrow> js_error + Price" where
  "tickToPriceV2 baseToken quoteToken t =
     bindS (getSqrtRatioAtTick t) (\<lambda>sqrtRatio.
       let ratioX192 = sqrtRatio * sqrtRatio in
       bindS (sortCurrencies baseToken quoteToken) (\<lambda>(first, _).
         Inr (if first = baseToken then new_Price baseToken quoteToken Q192 ratioX192
              else new_Price baseToken quoteToken ratioX192 Q192)))"

section \<open>Swaps\<close>

text \<open>The variables of the loop in \<^verbatim>\<open>swap\<close>.\<close>

record FunctionsState =
  fsAmountSpecifiedRemaining :: int
  fsAmountCalculated :: int
  fsSqrtPriceX96 :: int
  fsTick :: int
  fsLiquidity :: int

text \<open>The body of the loop, lines 60 to 114 in their order.\<close>

definition functions_round :: "PoolState \<Rightarrow> bool \<Rightarrow> bool \<Rightarrow> int \<Rightarrow> FunctionsState \<Rightarrow> FunctionsState run" where
  "functions_round pool exactInput zeroForOne sqrtPriceLimitX96 state =
     (let sqrtPriceStartX96 = fsSqrtPriceX96 state in
      bindR (provider_nextInitializedTickWithinOneWord (psTickDataProvider pool) (fsTick state) zeroForOne (psTickSpacing pool))
        (\<lambda>(next, initialized).
      let tickNext = (if next < MIN_TICK then MIN_TICK else if next > MAX_TICK then MAX_TICK else next) in
      bindR (runS (getSqrtRatioAtTick tickNext)) (\<lambda>sqrtPriceNextX96.
      let beyond = (if zeroForOne then sqrtPriceNextX96 < sqrtPriceLimitX96 else sqrtPriceNextX96 > sqrtPriceLimitX96) in
      bindR (runS (computeSwapStep (fsSqrtPriceX96 state) (if beyond then sqrtPriceLimitX96 else sqrtPriceNextX96)
               (fsLiquidity state) (fsAmountSpecifiedRemaining state) (psFee pool))) (\<lambda>step.
      let state1 = state\<lparr>fsSqrtPriceX96 := sqrtRatioNextX96 step\<rparr>;
          state2 =
            (if exactInput
             then state1\<lparr>fsAmountSpecifiedRemaining := fsAmountSpecifiedRemaining state1 - (amountIn step + feeAmount step),
                         fsAmountCalculated := fsAmountCalculated state1 - amountOut step\<rparr>
             else state1\<lparr>fsAmountSpecifiedRemaining := fsAmountSpecifiedRemaining state1 + amountOut step,
                         fsAmountCalculated := fsAmountCalculated state1 + (amountIn step + feeAmount step)\<rparr>) in
      if fsSqrtPriceX96 state2 = sqrtPriceNextX96 then
        bindR (if \<not> initialized then Some (Inr state2)
               else
                 bindR (provider_getTick (psTickDataProvider pool) tickNext) (\<lambda>net.
                 let liquidityNet = (if zeroForOne then net * (- 1) else net) in
                 Some (Inr (state2\<lparr>fsLiquidity := addDelta (fsLiquidity state2) liquidityNet\<rparr>))))
          (\<lambda>state3. Some (Inr (state3\<lparr>fsTick := (if zeroForOne then tickNext - 1 else tickNext)\<rparr>)))
      else if fsSqrtPriceX96 state2 \<noteq> sqrtPriceStartX96 then
        bindR (runS (getTickAtSqrtRatio (fsSqrtPriceX96 state2))) (\<lambda>t. Some (Inr (state2\<lparr>fsTick := t\<rparr>)))
      else Some (Inr state2)))))"

partial_function (option) functions_loop ::
  "PoolState \<Rightarrow> bool \<Rightarrow> bool \<Rightarrow> int \<Rightarrow> FunctionsState \<Rightarrow> FunctionsState run" where
  "functions_loop pool exactInput zeroForOne sqrtPriceLimitX96 state =
     (if fsAmountSpecifiedRemaining state \<noteq> 0 \<and> fsSqrtPriceX96 state \<noteq> sqrtPriceLimitX96
      then (case functions_round pool exactInput zeroForOne sqrtPriceLimitX96 state of
              None \<Rightarrow> None
            | Some (Inl e) \<Rightarrow> Some (Inl e)
            | Some (Inr state') \<Rightarrow> functions_loop pool exactInput zeroForOne sqrtPriceLimitX96 state')
      else Some (Inr state))"

declare functions_loop.simps [code]

definition functions_swap :: "PoolState \<Rightarrow> bool \<Rightarrow> int \<Rightarrow> int option \<Rightarrow> FunctionsState run" where
  "functions_swap pool zeroForOne amountSpecified sqrtPriceLimitX96 =
     (let widest = (if zeroForOne then MIN_SQRT_RATIO + 1 else MAX_SQRT_RATIO - 1);
          limit = (case sqrtPriceLimitX96 of None \<Rightarrow> widest | Some l \<Rightarrow> if l = 0 then widest else l);
          exactInput = (amountSpecified \<ge> 0);
          run = functions_loop pool exactInput zeroForOne limit
            \<lparr>fsAmountSpecifiedRemaining = amountSpecified, fsAmountCalculated = 0,
             fsSqrtPriceX96 = psSqrtRatioX96 pool, fsTick = psTickCurrent pool, fsLiquidity = psLiquidity pool\<rparr> in
      if zeroForOne
      then invariantR (limit > MIN_SQRT_RATIO) ''RATIO_MIN''
             (invariantR (limit < psSqrtRatioX96 pool) ''RATIO_CURRENT'' run)
      else invariantR (limit < MAX_SQRT_RATIO) ''RATIO_MAX''
             (invariantR (limit > psSqrtRatioX96 pool) ''RATIO_CURRENT'' run))"

text \<open>\<^verbatim>\<open>{...pool, sqrtRatioX96, liquidity, tickCurrent}\<close>\<close>

definition state_after :: "PoolState \<Rightarrow> FunctionsState \<Rightarrow> PoolState" where
  "state_after pool st =
     pool\<lparr>psSqrtRatioX96 := fsSqrtPriceX96 st, psLiquidity := fsLiquidity st, psTickCurrent := fsTick st\<rparr>"

definition functions_getOutputAmount ::
  "PoolState \<Rightarrow> CurrencyAmount \<Rightarrow> int option \<Rightarrow> bool \<Rightarrow> (CurrencyAmount \<times> PoolState) run" where
  "functions_getOutputAmount pool inputAmount limit exact =
     invariantR (hasInvolvedCurrency pool (currency inputAmount)) ''CURRENCY''
       (let zeroForOne = Currency_equals (currency inputAmount) (psCurrency0 pool) in
        bindR (runS (quotient inputAmount)) (\<lambda>amount.
        bindR (functions_swap pool zeroForOne amount limit) (\<lambda>st.
        let outputToken = (if zeroForOne then psCurrency1 pool else psCurrency0 pool) in
        invariantR (exact \<longrightarrow> fsAmountSpecifiedRemaining st = 0) ''INSUFFICIENT_LIQUIDITY''
          (bindR (runS (fromRawAmount outputToken (fsAmountCalculated st * (- 1)))) (\<lambda>out.
            Some (Inr (out, state_after pool st)))))))"

definition functions_getInputAmount ::
  "PoolState \<Rightarrow> CurrencyAmount \<Rightarrow> int option \<Rightarrow> bool \<Rightarrow> (CurrencyAmount \<times> PoolState) run" where
  "functions_getInputAmount pool outputAmount limit exact =
     invariantR (hasInvolvedCurrency pool (currency outputAmount)) ''CURRENCY''
       (let zeroForOne = Currency_equals (currency outputAmount) (psCurrency1 pool) in
        bindR (runS (quotient outputAmount)) (\<lambda>amount.
        bindR (functions_swap pool zeroForOne (amount * (- 1)) limit) (\<lambda>st.
        invariantR (exact \<longrightarrow> fsAmountSpecifiedRemaining st = 0) ''INSUFFICIENT_LIQUIDITY''
          (let inputCurrency = (if zeroForOne then psCurrency0 pool else psCurrency1 pool) in
           bindR (runS (fromRawAmount inputCurrency (fsAmountCalculated st))) (\<lambda>inp.
             Some (Inr (inp, state_after pool st)))))))"

section \<open>The class and the functions\<close>

definition state_of :: "Pool \<Rightarrow> PoolState" where
  "state_of pool =
     \<lparr>psCurrency0 = ERC20 (poolToken0 pool), psCurrency1 = ERC20 (poolToken1 pool), psFee = fee_value (poolFee pool),
      psTickCurrent = poolTickCurrent pool, psTickSpacing = Pool_tickSpacing pool, psSqrtRatioX96 = poolSqrtRatioX96 pool,
      psLiquidity = poolLiquidity pool, psTickDataProvider = poolTickDataProvider pool\<rparr>"

definition mapR :: "('a \<Rightarrow> 'b) \<Rightarrow> 'a run \<Rightarrow> 'b run" where
  "mapR f m = map_option (map_sum id f) m"

text \<open>The state of the method's loop, as the function's loop holds it.\<close>

definition vars_of :: "SwapState \<Rightarrow> FunctionsState" where
  "vars_of st =
     \<lparr>fsAmountSpecifiedRemaining = amountSpecifiedRemaining st, fsAmountCalculated = amountCalculated st,
      fsSqrtPriceX96 = sqrtPriceX96 st, fsTick = tick st, fsLiquidity = liquidity st\<rparr>"

lemma vars_of_sel [simp]:
  "fsAmountSpecifiedRemaining (vars_of st) = amountSpecifiedRemaining st"
  "fsAmountCalculated (vars_of st) = amountCalculated st"
  "fsSqrtPriceX96 (vars_of st) = sqrtPriceX96 st"
  "fsTick (vars_of st) = tick st"
  "fsLiquidity (vars_of st) = liquidity st"
  by (simp_all add: vars_of_def)

lemma mapR_simps [simp]:
  "mapR f None = None" "mapR f (Some (Inl e)) = Some (Inl e)" "mapR f (Some (Inr x)) = Some (Inr (f x))"
  by (simp_all add: mapR_def)

lemma mapR_bindR: "mapR f (bindR m k) = bindR m (\<lambda>x. mapR f (k x))"
  by (simp add: bindR_def split: option.split sum.split)

lemma bindR_mapR: "bindR (mapR f m) k = bindR m (\<lambda>x. k (f x))"
  by (simp add: bindR_def mapR_def split: option.split sum.split)

lemma bindR_assoc: "bindR (bindR m k) l = bindR m (\<lambda>x. bindR (k x) l)"
  by (simp add: bindR_def split: option.split sum.split)

lemma mapR_eq:
  "mapR f m = Some (Inl e) \<longleftrightarrow> m = Some (Inl e)" "mapR f m = Some (Inr y) \<longleftrightarrow> (\<exists>x. m = Some (Inr x) \<and> f x = y)"
  by (cases m; auto simp: mapR_def map_sum_def split: sum.splits)+

lemma mapR_if: "mapR f (if b then m else n) = (if b then mapR f m else mapR f n)"
  by simp

lemma bindR_same: "(\<And>x. m = Some (Inr x) \<Longrightarrow> k x = k' x) \<Longrightarrow> bindR m k = bindR m k'"
  by (simp add: bindR_def split: option.split sum.split)

text \<open>One round of the method is one round of the function.\<close>

lemma round_simulates:
  "functions_round pool e z limit (vars_of st) =
   mapR vars_of (swap_round (psTickDataProvider pool) (psTickSpacing pool) (psFee pool) e z limit st)"
  unfolding functions_round_def swap_round_def Let_def mapR_bindR vars_of_sel
proof (rule bindR_same, clarify, unfold prod.case mapR_bindR, rule bindR_same, rule bindR_same, goal_cases)
  case (1 nextTick initialized price step)
  show ?case
    by (cases e; cases z; cases initialized) (simp_all add: vars_of_def mapR_bindR mapR_if bindR_assoc cong: if_cong)
qed

text \<open>A run of either loop is a run of the other, so they return on the same states with the same result.\<close>

lemma loop_forward:
  "swap_loop p spacing fee e z limit st = Some r \<Longrightarrow>
   \<forall>pool :: PoolState. psTickDataProvider pool = p \<and> psTickSpacing pool = spacing \<and> psFee pool = fee \<longrightarrow>
     functions_loop pool e z limit (vars_of st) = Some (map_sum id vars_of r)"
proof (induction rule: swap_loop.raw_induct [rotated, consumes 1, case_names step])
  case (step loop p spacing fee e z limit st r)
  show ?case
  proof (intro allI impI)
    fix pool :: PoolState
    assume "psTickDataProvider pool = p \<and> psTickSpacing pool = spacing \<and> psFee pool = fee"
    then show "functions_loop pool e z limit (vars_of st) = Some (map_sum id vars_of r)"
      using step(2) step(1) [of p spacing fee e z limit _ r]
      unfolding functions_loop.simps [of pool e z limit "vars_of st"]
      by (auto simp: round_simulates id_def split: if_splits option.splits sum.splits)
  qed
qed

lemma loop_backward:
  "functions_loop pool e z limit state = Some r \<Longrightarrow>
   \<forall>st. state = vars_of st \<longrightarrow>
     (\<exists>r'. swap_loop (psTickDataProvider pool) (psTickSpacing pool) (psFee pool) e z limit st = Some r')"
proof (induction rule: functions_loop.raw_induct [rotated, consumes 1, case_names step])
  case (step loop pool e z limit state r)
  show ?case
  proof (intro allI impI)
    fix st
    assume "state = vars_of st"
    then show "\<exists>r'. swap_loop (psTickDataProvider pool) (psTickSpacing pool) (psFee pool) e z limit st = Some r'"
      using step(2) step(1) [of pool e z limit _ r]
      unfolding swap_loop.simps [of "psTickDataProvider pool" "psTickSpacing pool" "psFee pool" e z limit st]
      by (auto simp: round_simulates mapR_eq split: if_splits option.splits sum.splits)
  qed
qed

lemma loop_simulates:
  "functions_loop pool e z limit (vars_of st) =
   mapR vars_of (swap_loop (psTickDataProvider pool) (psTickSpacing pool) (psFee pool) e z limit st)"
proof (cases "swap_loop (psTickDataProvider pool) (psTickSpacing pool) (psFee pool) e z limit st")
  case None
  then show ?thesis using loop_backward [of pool e z limit "vars_of st"] by (cases "functions_loop pool e z limit (vars_of st)") auto
next
  case (Some r)
  then show ?thesis using loop_forward [OF Some] by (simp add: mapR_def)
qed

lemma functions_swap_eq: "functions_swap (state_of pool) z amount limit = mapR vars_of (Pool_swap pool z amount limit)"
proof -
  have start: "\<lparr>fsAmountSpecifiedRemaining = amount, fsAmountCalculated = 0, fsSqrtPriceX96 = poolSqrtRatioX96 pool,
      fsTick = poolTickCurrent pool, fsLiquidity = poolLiquidity pool\<rparr> =
    vars_of \<lparr>amountSpecifiedRemaining = amount, amountCalculated = 0, sqrtPriceX96 = poolSqrtRatioX96 pool,
      tick = poolTickCurrent pool, liquidity = poolLiquidity pool\<rparr>"
    by (simp add: vars_of_def)
  have limits: "(case limit of None \<Rightarrow> w | Some l \<Rightarrow> if l = 0 then w else l) = swap_limit z limit"
    if "w = (if z then MIN_SQRT_RATIO + 1 else MAX_SQRT_RATIO - 1)" for w
    using that by (simp add: swap_limit_def split: option.split)
  have fields: "psSqrtRatioX96 (state_of pool) = poolSqrtRatioX96 pool" "psTickCurrent (state_of pool) = poolTickCurrent pool"
    "psLiquidity (state_of pool) = poolLiquidity pool" "psTickDataProvider (state_of pool) = poolTickDataProvider pool"
    "psTickSpacing (state_of pool) = Pool_tickSpacing pool" "psFee (state_of pool) = fee_value (poolFee pool)"
    by (simp_all add: state_of_def)
  show ?thesis
    unfolding functions_swap_def Pool_swap_def check_limit_def Let_def limits [OF refl] fields start loop_simulates
    by (simp add: invariantR_def)
qed

lemma functions_involved:
  "hasInvolvedCurrency (state_of pool) (ERC20 token) \<longleftrightarrow> Pool_involvesToken pool token"
  by (auto simp: hasInvolvedCurrency_def state_of_def Pool_involvesToken_def Token_equals_def)

lemma pool_after_update:
  assumes "sortsBefore (poolToken0 pool) (poolToken1 pool) = Inr True"
  shows "pool_after pool st =
    Inr (pool\<lparr>poolSqrtRatioX96 := sqrtPriceX96 st, poolLiquidity := liquidity st, poolTickCurrent := tick st\<rparr>)"
proof -
  have "fee_value (poolFee pool) < 1000000" using fee_value_bounds(2) by (simp add: MAX_FEE_def)
  then show ?thesis using assms by (simp add: pool_after_def new_Pool_def provider_of_def)
qed

lemma state_of_update:
  "state_of (pool\<lparr>poolSqrtRatioX96 := sqrtPriceX96 st, poolLiquidity := liquidity st, poolTickCurrent := tick st\<rparr>)
   = state_after (state_of pool) (vars_of st)"
  by (simp add: state_of_def state_after_def Pool_tickSpacing_def)

text \<open>
  The quotes of the class are those of the functions, through \<open>state_of\<close>; without \<^verbatim>\<open>exact\<close> for
  \<^verbatim>\<open>getOutputAmount\<close> and \<^verbatim>\<open>getInputAmount\<close>, with it for \<^verbatim>\<open>getInputAmountByExactOut\<close>.
\<close>

lemma quotes_refine:
  assumes "sortsBefore (poolToken0 pool) (poolToken1 pool) = Inr True"
    and "currency a = ERC20 token" and "Pool_involvesToken pool token"
  shows "mapR (map_prod id state_of) (Pool_getOutputAmount pool a limit) = functions_getOutputAmount (state_of pool) a limit False"
    and "mapR (map_prod id state_of) (Pool_getInputAmount pool a limit) = functions_getInputAmount (state_of pool) a limit False"
    and "mapR (map_prod id state_of) (Pool_getInputAmountByExactOut pool a limit) = functions_getInputAmount (state_of pool) a limit True"
proof -
  have cur: "psCurrency0 (state_of pool) = ERC20 (poolToken0 pool)" "psCurrency1 (state_of pool) = ERC20 (poolToken1 pool)"
    by (simp_all add: state_of_def)
  note defs = Let_def assms(2) functions_swap_eq functions_involved cur bindR_mapR mapR_bindR
  note facts = assms(3) pool_after_update [OF assms(1)] state_of_update
  show "mapR (map_prod id state_of) (Pool_getOutputAmount pool a limit) = functions_getOutputAmount (state_of pool) a limit False"
    unfolding Pool_getOutputAmount_def functions_getOutputAmount_def defs using facts
    by (simp add: mapR_bindR runS_def invariantR_def)
  show "mapR (map_prod id state_of) (Pool_getInputAmount pool a limit) = functions_getInputAmount (state_of pool) a limit False"
    unfolding Pool_getInputAmount_def functions_getInputAmount_def defs using facts
    by (simp add: mapR_bindR runS_def invariantR_def)
  show "mapR (map_prod id state_of) (Pool_getInputAmountByExactOut pool a limit) = functions_getInputAmount (state_of pool) a limit True"
    unfolding Pool_getInputAmountByExactOut_def functions_getInputAmount_def defs using facts
    by (simp add: mapR_bindR mapR_if runS_def invariantR_def cong: if_cong)
qed

lemma tickToPriceV2_eq:
  assumes "baseToken \<noteq> quoteToken"
  shows "tickToPriceV2 baseToken quoteToken t = tickToPrice baseToken quoteToken t"
  using assms
  by (auto simp: tickToPriceV2_def tickToPrice_def sortCurrencies_def isCurrencySorted_def bindS_def Let_def split: sum.splits)

text \<open>
  The price of the second currency is built from the same ratio as that of the first: the two are
  equal, so they are the inverse of each other only when the price is one.
\<close>

lemma currency_prices:
  assumes "0 < r"
  shows "frac_value (getCurrency1Price cs r) = frac_value (getCurrency0Price cs r)"
    and "frac_value (getCurrency0Price cs r) * frac_value (getCurrency1Price cs r) = 1 \<longleftrightarrow> r = Q96"
proof -
  have v: "frac_value (getCurrency0Price cs r) = of_int (r * r) / of_int Q192"
    "frac_value (getCurrency1Price cs r) = of_int (r * r) / of_int Q192"
    by (simp_all add: getCurrency0Price_def getCurrency1Price_def new_Price_def frac_value_def Let_def)
  then show "frac_value (getCurrency1Price cs r) = frac_value (getCurrency0Price cs r)" by simp
  have q: "Q192 = Q96 * Q96" "0 < Q96" by (simp_all add: Q192_def Q96_def)
  have "(of_int (r * r) / of_int Q192) * (of_int (r * r) / of_int Q192) = (1 :: rat) \<longleftrightarrow> (r * r) * (r * r) = Q192 * Q192"
    using q by (auto simp: field_simps simp flip: of_int_mult)
  also have "\<dots> \<longleftrightarrow> r = Q96"
    using power_eq_iff_eq_base [of 4 r Q96] q assms by (simp add: power4_eq_xxxx mult.assoc)
  finally show "frac_value (getCurrency0Price cs r) * frac_value (getCurrency1Price cs r) = 1 \<longleftrightarrow> r = Q96"
    unfolding v .
qed

lemma pool_prices_inverse:
  "0 < poolSqrtRatioX96 pool \<Longrightarrow> frac_value (Pool_token0Price pool) * frac_value (Pool_token1Price pool) = 1"
  by (simp add: Pool_token0Price_def Pool_token1Price_def new_Price_def frac_value_def Q192_def Q96_def)

end
