(* ===== verification/V3Trade.thy ===== *)
theory V3Trade
  imports V3Functions V2Search
begin

text \<open>
  Routes and trades of the V3 exchange (\<^verbatim>\<open>v3-sdk/src/entities/route.ts\<close>, \<^verbatim>\<open>entities/trade.ts\<close> and
  \<^verbatim>\<open>utils/encodeRouteToPath.ts\<close>).  A trade may be split over several routes.  A quote of a pool may
  not return, so what simulates swaps is a \<open>run\<close>; the rest only throws.  Values the class caches are
  computed from fields that never change and are not stored.
\<close>

section \<open>Class \<open>Route\<close>\<close>

fun foldR :: "('b \<Rightarrow> 'a \<Rightarrow> 'b run) \<Rightarrow> 'b \<Rightarrow> 'a list \<Rightarrow> 'b run" where
  "foldR f acc [] = Some (Inr acc)"
| "foldR f acc (x # xs) = bindR (f acc x) (\<lambda>a. foldR f a xs)"

record V3Route =
  routePools :: "Pool list"
  tokenPath :: "Token list"
  v3Input :: Currency
  v3Output :: Currency

fun v3_path :: "Token \<Rightarrow> Pool list \<Rightarrow> js_error + Token list" where
  "v3_path currentInput [] = Inr [currentInput]"
| "v3_path currentInput (pool # ps) =
     invariantS (Token_equals currentInput (poolToken0 pool) \<or> Token_equals currentInput (poolToken1 pool)) ''PATH''
       (bindS (v3_path (if Token_equals currentInput (poolToken0 pool) then poolToken1 pool else poolToken0 pool) ps)
         (\<lambda>rest. Inr (currentInput # rest)))"

definition new_V3Route :: "Pool list \<Rightarrow> Currency \<Rightarrow> Currency \<Rightarrow> js_error + V3Route" where
  "new_V3Route ps inp outp =
     invariantS (ps \<noteq> []) ''POOLS''
      (invariantS (list_all (\<lambda>pool. Pool_chainId pool = Pool_chainId (hd ps)) ps) ''CHAIN_IDS''
       (let wrappedInput = wrapped inp in
        invariantS (Pool_involvesToken (hd ps) wrappedInput) ''INPUT''
         (invariantS (Pool_involvesToken (last ps) (wrapped outp)) ''OUTPUT''
           (bindS (v3_path wrappedInput ps) (\<lambda>pth.
             Inr \<lparr>routePools = ps, tokenPath = pth, v3Input = inp, v3Output = outp\<rparr>)))))"

definition V3Route_chainId :: "V3Route \<Rightarrow> int" where
  "V3Route_chainId r = Pool_chainId (hd (routePools r))"

text \<open>The price of one pool from a token's side, with the token that comes out.\<close>

definition pool_price_from :: "Token \<Rightarrow> Pool \<Rightarrow> Token \<times> Price" where
  "pool_price_from nextInput pool =
     (if Token_equals nextInput (poolToken0 pool) then (poolToken1 pool, Pool_token0Price pool)
      else (poolToken0 pool, Pool_token1Price pool))"

definition V3Route_midPrice :: "V3Route \<Rightarrow> js_error + Price" where
  "V3Route_midPrice r =
     bindS (foldS (\<lambda>(nextInput, price) pool.
              let (nextInput', poolPrice) = pool_price_from nextInput pool in
              bindS (Price_multiply price poolPrice) (\<lambda>price'. Inr (nextInput', price')))
              (if Token_equals (poolToken0 (hd (routePools r))) (wrapped (v3Input r))
               then (poolToken1 (hd (routePools r)), Pool_token0Price (hd (routePools r)))
               else (poolToken0 (hd (routePools r)), Pool_token1Price (hd (routePools r))))
              (tl (routePools r))) (\<lambda>(_, price).
       Inr (new_Price (v3Input r) (v3Output r) (denominator price) (numerator price)))"

text \<open>The path of a route: \<^verbatim>\<open>encodePacked\<close> of \<^verbatim>\<open>viem\<close> is an argument, on the types and the values.\<close>

datatype PathElem = PathAddress string | PathFee int

definition path_step :: "Token \<times> PathElem list \<times> string list \<Rightarrow> Pool \<times> nat \<Rightarrow> Token \<times> PathElem list \<times> string list" where
  "path_step acc p =
     (case (acc, p) of ((inputToken, elems, types), (pool, i)) \<Rightarrow>
        let outputToken = (if Token_equals (poolToken0 pool) inputToken then poolToken1 pool else poolToken0 pool) in
        if i = 0
        then (outputToken,
              [PathAddress (address inputToken), PathFee (fee_value (poolFee pool)), PathAddress (address outputToken)],
              [''address'', ''uint24'', ''address''])
        else (outputToken,
              elems @ [PathFee (fee_value (poolFee pool)), PathAddress (address outputToken)],
              types @ [''uint24'', ''address'']))"

definition path_types :: "V3Route \<Rightarrow> PathElem list \<times> string list" where
  "path_types r = snd (foldl path_step (wrapped (v3Input r), [], []) (zip (routePools r) [0..<length (routePools r)]))"

definition encodeRouteToPath :: "(string list \<Rightarrow> PathElem list \<Rightarrow> string) \<Rightarrow> V3Route \<Rightarrow> bool \<Rightarrow> string" where
  "encodeRouteToPath encodePacked r exactOutput =
     (let (elems, types) = path_types r in
      if exactOutput then encodePacked (rev types) (rev elems) else encodePacked types elems)"

section \<open>Class \<open>Trade\<close>\<close>

record V3Leg =
  legRoute :: V3Route
  legInput :: CurrencyAmount
  legOutput :: CurrencyAmount

record V3Trade =
  swaps :: "V3Leg list"
  v3TradeType :: TradeType

text \<open>The first element of an empty array has no properties to read.\<close>

definition first_leg :: "V3Leg list \<Rightarrow> (V3Leg \<Rightarrow> js_error + 'a) \<Rightarrow> js_error + 'a" where
  "first_leg legs k = (case legs of [] \<Rightarrow> Inl TypeError | l # _ \<Rightarrow> k l)"

definition new_V3Trade :: "V3Env \<Rightarrow> V3Leg list \<Rightarrow> TradeType \<Rightarrow> js_error + V3Trade" where
  "new_V3Trade env routes tt =
     first_leg routes (\<lambda>first.
     let inputCurrency = currency (legInput first); outputCurrency = currency (legOutput first) in
     invariantS (list_all (\<lambda>l. Token_equals (wrapped inputCurrency) (wrapped (v3Input (legRoute l)))) routes) ''INPUT_CURRENCY_MATCH''
      (invariantS (list_all (\<lambda>l. Token_equals (wrapped outputCurrency) (wrapped (v3Output (legRoute l)))) routes) ''OUTPUT_CURRENCY_MATCH''
        (let pools = concat (map (\<lambda>l. routePools (legRoute l)) routes) in
         bindS (mapS (\<lambda>pool. Pool_getAddress env (poolToken0 pool) (poolToken1 pool) (poolFee pool) None None) pools) (\<lambda>addresses.
           invariantS (length pools = card (set addresses)) ''POOLS_DUPLICATED''
             (Inr \<lparr>swaps = routes, v3TradeType = tt\<rparr>)))))"

definition V3Trade_route :: "V3Trade \<Rightarrow> js_error + V3Route" where
  "V3Trade_route t =
     invariantS (length (swaps t) = 1) ''MULTIPLE_ROUTES'' (first_leg (swaps t) (\<lambda>l. Inr (legRoute l)))"

definition V3Trade_inputAmount :: "V3Trade \<Rightarrow> js_error + CurrencyAmount" where
  "V3Trade_inputAmount t =
     first_leg (swaps t) (\<lambda>first.
     bindS (fromRawAmount (currency (legInput first)) 0) (\<lambda>zero.
       foldS Amount_add zero (map legInput (swaps t))))"

definition V3Trade_outputAmount :: "V3Trade \<Rightarrow> js_error + CurrencyAmount" where
  "V3Trade_outputAmount t =
     first_leg (swaps t) (\<lambda>first.
     bindS (fromRawAmount (currency (legOutput first)) 0) (\<lambda>zero.
       foldS Amount_add zero (map legOutput (swaps t))))"

definition V3Trade_executionPrice :: "V3Trade \<Rightarrow> js_error + Price" where
  "V3Trade_executionPrice t =
     bindS (V3Trade_inputAmount t) (\<lambda>inp.
     bindS (V3Trade_outputAmount t) (\<lambda>outp.
     bindS (quotient inp) (\<lambda>inq.
     bindS (quotient outp) (\<lambda>outq.
       Inr (new_Price (currency inp) (currency outp) inq outq)))))"

definition V3Trade_priceImpact :: "V3Trade \<Rightarrow> js_error + Percent" where
  "V3Trade_priceImpact t =
     bindS (V3Trade_outputAmount t) (\<lambda>outp.
     bindS (fromRawAmount (currency outp) 0) (\<lambda>zero.
     bindS (foldS (\<lambda>spot l.
              bindS (V3Route_midPrice (legRoute l)) (\<lambda>mid.
              bindS (Price_quote mid (legInput l)) (\<lambda>quoted. Amount_add spot quoted))) zero (swaps t)) (\<lambda>spotOutputAmount.
     bindS (Amount_subtract spotOutputAmount outp) (\<lambda>d.
     bindS (Amount_divide d (frac spotOutputAmount)) (\<lambda>impact.
       Inr (new_Percent (numerator impact) (denominator impact)))))))"

subsection \<open>Simulating the swaps of a route\<close>

definition v3_amounts_out :: "CurrencyAmount \<Rightarrow> Pool list \<Rightarrow> CurrencyAmount run" where
  "v3_amounts_out a ps =
     foldR (\<lambda>amount pool. bindR (Pool_getOutputAmount pool amount None) (\<lambda>r. Some (Inr (fst r)))) a ps"

definition v3_amounts_in :: "CurrencyAmount \<Rightarrow> Pool list \<Rightarrow> CurrencyAmount run" where
  "v3_amounts_in a ps =
     foldR (\<lambda>amount pool. bindR (Pool_getInputAmount pool amount None) (\<lambda>r. Some (Inr (fst r)))) a (rev ps)"

definition fromRoute :: "V3Env \<Rightarrow> V3Route \<Rightarrow> CurrencyAmount \<Rightarrow> TradeType \<Rightarrow> V3Trade run" where
  "fromRoute env route amount tt =
     bindR
      (case tt of
         EXACT_INPUT \<Rightarrow>
           invariantR (Currency_equals (currency amount) (v3Input route)) ''INPUT''
            (bindR (runS (Amount_wrapped amount)) (\<lambda>first.
             bindR (v3_amounts_out first (routePools route)) (\<lambda>last.
             bindR (runS (fromFractionalAmount (v3Input route) (numerator amount) (denominator amount))) (\<lambda>inp.
             bindR (runS (fromFractionalAmount (v3Output route) (numerator last) (denominator last))) (\<lambda>outp.
               Some (Inr (inp, outp)))))))
       | EXACT_OUTPUT \<Rightarrow>
           invariantR (Currency_equals (currency amount) (v3Output route)) ''OUTPUT''
            (bindR (runS (Amount_wrapped amount)) (\<lambda>last.
             bindR (v3_amounts_in last (routePools route)) (\<lambda>first.
             bindR (runS (fromFractionalAmount (v3Input route) (numerator first) (denominator first))) (\<lambda>inp.
             bindR (runS (fromFractionalAmount (v3Output route) (numerator amount) (denominator amount))) (\<lambda>outp.
               Some (Inr (inp, outp))))))))
      (\<lambda>(inp, outp). runS (new_V3Trade env [\<lparr>legRoute = route, legInput = inp, legOutput = outp\<rparr>] tt))"

definition V3Trade_exactIn :: "V3Env \<Rightarrow> V3Route \<Rightarrow> CurrencyAmount \<Rightarrow> V3Trade run" where
  "V3Trade_exactIn env route amtIn = fromRoute env route amtIn EXACT_INPUT"

definition V3Trade_exactOut :: "V3Env \<Rightarrow> V3Route \<Rightarrow> CurrencyAmount \<Rightarrow> V3Trade run" where
  "V3Trade_exactOut env route amtOut = fromRoute env route amtOut EXACT_OUTPUT"

text \<open>One route of a split trade: the input is built before the swaps, the output before them when it is given.\<close>

definition populate_route :: "TradeType \<Rightarrow> CurrencyAmount \<times> V3Route \<Rightarrow> V3Leg run" where
  "populate_route tt p =
     (let (amount, route) = p in
      case tt of
        EXACT_INPUT \<Rightarrow>
          invariantR (Currency_equals (currency amount) (v3Input route)) ''INPUT''
           (bindR (runS (fromFractionalAmount (v3Input route) (numerator amount) (denominator amount))) (\<lambda>inp.
            bindR (runS (fromFractionalAmount (ERC20 (wrapped (v3Input route))) (numerator amount) (denominator amount))) (\<lambda>first.
            bindR (v3_amounts_out first (routePools route)) (\<lambda>last.
            bindR (runS (fromFractionalAmount (v3Output route) (numerator last) (denominator last))) (\<lambda>outp.
              Some (Inr \<lparr>legRoute = route, legInput = inp, legOutput = outp\<rparr>))))))
      | EXACT_OUTPUT \<Rightarrow>
          invariantR (Currency_equals (currency amount) (v3Output route)) ''OUTPUT''
           (bindR (runS (fromFractionalAmount (v3Output route) (numerator amount) (denominator amount))) (\<lambda>outp.
            bindR (runS (fromFractionalAmount (ERC20 (wrapped (v3Output route))) (numerator amount) (denominator amount))) (\<lambda>last.
            bindR (v3_amounts_in last (routePools route)) (\<lambda>first.
            bindR (runS (fromFractionalAmount (v3Input route) (numerator first) (denominator first))) (\<lambda>inp.
              Some (Inr \<lparr>legRoute = route, legInput = inp, legOutput = outp\<rparr>)))))))"

definition fromRoutes :: "V3Env \<Rightarrow> (CurrencyAmount \<times> V3Route) list \<Rightarrow> TradeType \<Rightarrow> V3Trade run" where
  "fromRoutes env routes tt =
     bindR (foldR (\<lambda>populated p. bindR (populate_route tt p) (\<lambda>l. Some (Inr (populated @ [l])))) [] routes)
       (\<lambda>populatedRoutes. runS (new_V3Trade env populatedRoutes tt))"

definition createUncheckedTrade ::
  "V3Env \<Rightarrow> V3Route \<Rightarrow> CurrencyAmount \<Rightarrow> CurrencyAmount \<Rightarrow> TradeType \<Rightarrow> js_error + V3Trade" where
  "createUncheckedTrade env route inp outp tt =
     new_V3Trade env [\<lparr>legRoute = route, legInput = inp, legOutput = outp\<rparr>] tt"

definition createUncheckedTradeWithMultipleRoutes :: "V3Env \<Rightarrow> V3Leg list \<Rightarrow> TradeType \<Rightarrow> js_error + V3Trade" where
  "createUncheckedTradeWithMultipleRoutes env routes tt = new_V3Trade env routes tt"

subsection \<open>Slippage\<close>

text \<open>The amount is an optional argument that defaults to the trade's own.\<close>

definition V3Trade_minimumAmountOut :: "V3Trade \<Rightarrow> Percent \<Rightarrow> CurrencyAmount option \<Rightarrow> js_error + CurrencyAmount" where
  "V3Trade_minimumAmountOut t slippageTolerance given =
     bindS (case given of Some a \<Rightarrow> Inr a | None \<Rightarrow> V3Trade_outputAmount t) (\<lambda>amtOut.
     invariantS (\<not> Fraction_lessThan slippageTolerance (AsBigint 0)) ''SLIPPAGE_TOLERANCE''
      (if v3TradeType t = EXACT_OUTPUT then Inr amtOut
       else
         bindS (quotient amtOut) (\<lambda>outq.
         bindS (quotient (Fraction_multiply
                  (Fraction_invert (Fraction_add (new_Fraction 1 1) (frac slippageTolerance)))
                  (AsBigint outq))) (\<lambda>slippageAdjustedAmountOut.
           fromRawAmount (currency amtOut) slippageAdjustedAmountOut))))"

definition V3Trade_maximumAmountIn :: "V3Trade \<Rightarrow> Percent \<Rightarrow> CurrencyAmount option \<Rightarrow> js_error + CurrencyAmount" where
  "V3Trade_maximumAmountIn t slippageTolerance given =
     bindS (case given of Some a \<Rightarrow> Inr a | None \<Rightarrow> V3Trade_inputAmount t) (\<lambda>amtIn.
     invariantS (\<not> Fraction_lessThan slippageTolerance (AsBigint 0)) ''SLIPPAGE_TOLERANCE''
      (if v3TradeType t = EXACT_INPUT then Inr amtIn
       else
         bindS (quotient amtIn) (\<lambda>inq.
         bindS (quotient (Fraction_multiply
                  (Fraction_add (new_Fraction 1 1) (frac slippageTolerance))
                  (AsBigint inq))) (\<lambda>slippageAdjustedAmountIn.
           fromRawAmount (currency amtIn) slippageAdjustedAmountIn))))"

definition V3Trade_worstExecutionPrice :: "V3Trade \<Rightarrow> Percent \<Rightarrow> js_error + Price" where
  "V3Trade_worstExecutionPrice t slippageTolerance =
     bindS (V3Trade_inputAmount t) (\<lambda>inp.
     bindS (V3Trade_outputAmount t) (\<lambda>outp.
     bindS (V3Trade_maximumAmountIn t slippageTolerance None) (\<lambda>mi.
     bindS (quotient mi) (\<lambda>miq.
     bindS (V3Trade_minimumAmountOut t slippageTolerance None) (\<lambda>mo.
     bindS (quotient mo) (\<lambda>moq.
       Inr (new_Price (currency inp) (currency outp) miq moq)))))))"

subsection \<open>Comparing trades\<close>

definition total_hops :: "V3Trade \<Rightarrow> int" where
  "total_hops t = foldl (\<lambda>n l. n + int (length (tokenPath (legRoute l)))) 0 (swaps t)"

definition V3_tradeComparator :: "V3Trade \<Rightarrow> V3Trade \<Rightarrow> js_error + int" where
  "V3_tradeComparator a b =
     bindS (V3Trade_inputAmount a) (\<lambda>inA.
     bindS (V3Trade_inputAmount b) (\<lambda>inB.
     invariantS (Currency_equals (currency inA) (currency inB)) ''INPUT_CURRENCY''
      (bindS (V3Trade_outputAmount a) (\<lambda>outA.
       bindS (V3Trade_outputAmount b) (\<lambda>outB.
       invariantS (Currency_equals (currency outA) (currency outB)) ''OUTPUT_CURRENCY''
        (Inr
          (if Fraction_equalTo outA (frac outB) then
             (if Fraction_equalTo inA (frac inB) then total_hops a - total_hops b
              else if Fraction_lessThan inA (frac inB) then - 1
              else 1)
           else if Fraction_lessThan outA (frac outB) then 1
           else - 1)))))))"

section \<open>The search for the best trades\<close>

text \<open>
  The list of best trades the search mutates is threaded through it; the number of hops left is the
  recursion argument; an absent next amount is the original one.
\<close>

definition insert_v3 :: "V3Env \<Rightarrow> nat \<Rightarrow> Pool list \<Rightarrow> Currency \<Rightarrow> Currency \<Rightarrow> CurrencyAmount \<Rightarrow> TradeType \<Rightarrow> V3Trade list \<Rightarrow> V3Trade list run" where
  "insert_v3 env maxNumResults ps inp outp amount tt bestTrades =
     bindR (runS (new_V3Route ps inp outp)) (\<lambda>route.
     bindR (fromRoute env route amount tt) (\<lambda>t.
     bindR (runS (sortedInsert bestTrades t maxNumResults V3_tradeComparator)) (\<lambda>r. Some (Inr (snd r)))))"

fun V3_bestTradeExactIn ::
  "V3Env \<Rightarrow> nat \<Rightarrow> Pool list \<Rightarrow> CurrencyAmount \<Rightarrow> Currency \<Rightarrow> nat \<Rightarrow> Pool list \<Rightarrow> CurrencyAmount option \<Rightarrow>
   V3Trade list \<Rightarrow> V3Trade list run" where
  "V3_bestTradeExactIn env 0 ps amt currencyOut maxNumResults currentPools nextAmountIn bestTrades =
     invariantR (ps \<noteq> []) ''POOLS'' (Some (Inl (Invariant ''MAX_HOPS'')))"
| "V3_bestTradeExactIn env (Suc h) ps amt currencyOut maxNumResults currentPools nextAmountIn bestTrades =
     invariantR (ps \<noteq> []) ''POOLS''
      (invariantR (nextAmountIn = None \<or> currentPools \<noteq> []) ''INVALID_RECURSION''
       (bindR (runS (Amount_wrapped (case nextAmountIn of None \<Rightarrow> amt | Some a \<Rightarrow> a))) (\<lambda>amtIn.
        foldR (\<lambda>best i.
          let pool = ps ! i in
          if \<not> Token_equals (poolToken0 pool) (token_of amtIn) \<and> \<not> Token_equals (poolToken1 pool) (token_of amtIn)
          then Some (Inr best)
          else
            (case Pool_getOutputAmount pool amtIn None of
               None \<Rightarrow> None
             | Some (Inl e) \<Rightarrow> if e = InsufficientInputAmountError then Some (Inr best) else Some (Inl e)
             | Some (Inr r) \<Rightarrow>
                 (let amtOut = fst r in
                  if isToken (currency amtOut) \<and> Token_equals (token_of amtOut) (wrapped currencyOut) then
                    insert_v3 env maxNumResults (currentPools @ [pool]) (currency amt) currencyOut amt EXACT_INPUT best
                  else if 0 < h \<and> 1 < length ps then
                    V3_bestTradeExactIn env h (take i ps @ drop (Suc i) ps) amt currencyOut maxNumResults
                      (currentPools @ [pool]) (Some amtOut) best
                  else Some (Inr best))))
          bestTrades [0..<length ps])))"

fun V3_bestTradeExactOut ::
  "V3Env \<Rightarrow> nat \<Rightarrow> Pool list \<Rightarrow> Currency \<Rightarrow> CurrencyAmount \<Rightarrow> nat \<Rightarrow> Pool list \<Rightarrow> CurrencyAmount option \<Rightarrow>
   V3Trade list \<Rightarrow> V3Trade list run" where
  "V3_bestTradeExactOut env 0 ps currencyIn amt maxNumResults currentPools nextAmountOut bestTrades =
     invariantR (ps \<noteq> []) ''POOLS'' (Some (Inl (Invariant ''MAX_HOPS'')))"
| "V3_bestTradeExactOut env (Suc h) ps currencyIn amt maxNumResults currentPools nextAmountOut bestTrades =
     invariantR (ps \<noteq> []) ''POOLS''
      (invariantR (nextAmountOut = None \<or> currentPools \<noteq> []) ''INVALID_RECURSION''
       (bindR (runS (Amount_wrapped (case nextAmountOut of None \<Rightarrow> amt | Some a \<Rightarrow> a))) (\<lambda>amtOut.
        foldR (\<lambda>best i.
          let pool = ps ! i in
          if \<not> Token_equals (poolToken0 pool) (token_of amtOut) \<and> \<not> Token_equals (poolToken1 pool) (token_of amtOut)
          then Some (Inr best)
          else
            (case Pool_getInputAmount pool amtOut None of
               None \<Rightarrow> None
             | Some (Inl e) \<Rightarrow> if e = InsufficientReservesError then Some (Inr best) else Some (Inl e)
             | Some (Inr r) \<Rightarrow>
                 (let amtIn = fst r in
                  if Token_equals (token_of amtIn) (wrapped currencyIn) then
                    insert_v3 env maxNumResults (pool # currentPools) currencyIn (currency amt) amt EXACT_OUTPUT best
                  else if 0 < h \<and> 1 < length ps then
                    V3_bestTradeExactOut env h (take i ps @ drop (Suc i) ps) currencyIn amt maxNumResults
                      (pool # currentPools) (Some amtIn) best
                  else Some (Inr best))))
          bestTrades [0..<length ps])))"

end
