(* ===== verification/V3TradeFacts.thy ===== *)
theory V3TradeFacts
  imports V3Trade
begin

text \<open>
  Routes and trades over well-formed V3 pools: the path of a route and its encoding, the amounts along
  it, and the totals of a split trade.  The comparator of trades is an interpretation of
  \<open>js_comparator\<close>.
\<close>

section \<open>Paths\<close>

definition v3_other :: "Pool \<Rightarrow> Token \<Rightarrow> Token" where
  "v3_other pool t = (if Token_equals t (poolToken0 pool) then poolToken1 pool else poolToken0 pool)"

fun v3_connected :: "Token \<Rightarrow> Pool list \<Rightarrow> bool" where
  "v3_connected t [] = True"
| "v3_connected t (p # ps) = (Pool_involvesToken p t \<and> v3_connected (v3_other p t) ps)"

fun v3_end :: "Token \<Rightarrow> Pool list \<Rightarrow> Token" where
  "v3_end t [] = t"
| "v3_end t (p # ps) = v3_end (v3_other p t) ps"

lemma v3_end_snoc: "v3_end t (ps @ [p]) = v3_other p (v3_end t ps)"
  by (induction ps arbitrary: t) auto

lemma v3_connected_snoc: "v3_connected t (ps @ [p]) \<longleftrightarrow> v3_connected t ps \<and> Pool_involvesToken p (v3_end t ps)"
  by (induction ps arbitrary: t) auto

fun v3_tokens :: "Token \<Rightarrow> Pool list \<Rightarrow> Token list" where
  "v3_tokens t [] = [t]"
| "v3_tokens t (p # ps) = t # v3_tokens (v3_other p t) ps"

lemma v3_path_eval:
  "v3_path t ps = (if v3_connected t ps then Inr (v3_tokens t ps) else Inl (Invariant ''PATH''))"
  by (induction ps arbitrary: t) (auto simp: v3_other_def Pool_involvesToken_def invariantS_def)

lemma v3_tokens_sel: "last (v3_tokens t ps) = v3_end t ps" "length (v3_tokens t ps) = Suc (length ps)" "v3_tokens t ps \<noteq> []"
proof -
  show ne: "v3_tokens t ps \<noteq> []" for t ps by (cases ps) auto
  show "last (v3_tokens t ps) = v3_end t ps" by (induction ps arbitrary: t) (auto simp: ne)
  show "length (v3_tokens t ps) = Suc (length ps)" by (induction ps arbitrary: t) auto
qed

lemma other_involved: "Pool_involvesToken p (v3_other p t)"
  by (simp add: v3_other_def Pool_involvesToken_def)

lemma involves_cong: "Token_equals t t' \<Longrightarrow> Pool_involvesToken p t \<longleftrightarrow> Pool_involvesToken p t'"
  by (auto simp: Pool_involvesToken_def Token_equals_def)

lemma last_involves_end: "ps \<noteq> [] \<Longrightarrow> Pool_involvesToken (last ps) (v3_end t ps)"
  by (induction ps arbitrary: t) (auto simp: other_involved)

text \<open>The route through connected pools of one chain that end in the output.\<close>

definition v3_route :: "Pool list \<Rightarrow> Currency \<Rightarrow> Currency \<Rightarrow> V3Route" where
  "v3_route ps inp outp = \<lparr>routePools = ps, tokenPath = v3_tokens (wrapped inp) ps, v3Input = inp, v3Output = outp\<rparr>"

lemma new_V3Route_eval:
  assumes "ps \<noteq> []" and "\<forall>p \<in> set ps. Pool_chainId p = c" and "v3_connected (wrapped inp) ps"
    and "Token_equals (v3_end (wrapped inp) ps) (wrapped outp)"
  shows "new_V3Route ps inp outp = Inr (v3_route ps inp outp)"
proof -
  have "Pool_involvesToken (last ps) (wrapped outp)"
    using last_involves_end [OF assms(1)] involves_cong [OF assms(4)] by blast
  moreover have "Pool_involvesToken (hd ps) (wrapped inp)" using assms(1,3) by (cases ps) auto
  moreover have "list_all (\<lambda>pool. Pool_chainId pool = Pool_chainId (hd ps)) ps" using assms(1,2) by (simp add: list_all_iff)
  ultimately show ?thesis using assms(1,3) by (simp add: new_V3Route_def v3_path_eval v3_route_def)
qed

lemma new_V3Route_Inr:
  assumes "new_V3Route ps inp outp = Inr r"
  shows "r = v3_route ps inp outp" and "v3_connected (wrapped inp) ps" and "ps \<noteq> []"
  using assms by (auto simp: new_V3Route_def Let_def invariantS_eq_Inr bindS_eq_Inr v3_path_eval v3_route_def split: if_splits)

section \<open>The encoded path\<close>

fun interleave :: "Token list \<Rightarrow> int list \<Rightarrow> PathElem list" where
  "interleave (t # ts) (f # fs) = PathAddress (address t) # PathFee f # interleave ts fs"
| "interleave [t] [] = [PathAddress (address t)]"
| "interleave _ _ = []"

fun interleave_types :: "nat \<Rightarrow> string list" where
  "interleave_types 0 = [''address'']"
| "interleave_types (Suc n) = ''address'' # ''uint24'' # interleave_types n"

lemma interleave_types_snoc: "interleave_types (Suc n) = interleave_types n @ [''uint24'', ''address'']"
  by (induction n) auto

lemma interleave_types_rev: "rev (interleave_types n) = interleave_types n"
proof (induction n)
  case (Suc n)
  have "rev (interleave_types (Suc n)) = rev (interleave_types n) @ [''uint24'', ''address'']" by simp
  then show ?case using Suc interleave_types_snoc by simp
qed simp

lemma interleave_snoc:
  "length ts = Suc (length fs) \<Longrightarrow> interleave (ts @ [t]) (fs @ [f]) = interleave ts fs @ [PathFee f, PathAddress (address t)]"
proof (induction ts fs rule: interleave.induct)
  case (1 a ts f' fs)
  then show ?case by simp
next
  case (2 a)
  then show ?case by simp
qed auto

lemma interleave_rev: "length ts = Suc (length fs) \<Longrightarrow> rev (interleave ts fs) = interleave (rev ts) (rev fs)"
proof (induction ts fs rule: interleave.induct)
  case (1 t ts f fs)
  then have "interleave (rev ts @ [t]) (rev fs @ [f]) = rev (interleave ts fs) @ [PathFee f, PathAddress (address t)]"
    using interleave_snoc [of "rev ts" "rev fs" t f] by simp
  then show ?case by simp
qed auto

lemma v3_tokens_snoc: "v3_tokens t (ps @ [p]) = v3_tokens t ps @ [v3_other p (v3_end t ps)]"
  by (induction ps arbitrary: t) auto

definition pool_fees :: "Pool list \<Rightarrow> int list" where
  "pool_fees ps = map (\<lambda>p. fee_value (poolFee p)) ps"

lemma path_step_fold:
  "ps \<noteq> [] \<Longrightarrow> foldl path_step (t, [], []) (zip ps [0..<length ps]) =
    (v3_end t ps, interleave (v3_tokens t ps) (pool_fees ps), interleave_types (length ps))"
proof (induction ps rule: rev_induct)
  case (snoc p ps)
  have zip: "zip (ps @ [p]) [0..<length (ps @ [p])] = zip ps [0..<length ps] @ [(p, length ps)]" by simp
  have other: "(if Token_equals (poolToken0 p) u then poolToken1 p else poolToken0 p) = v3_other p u" for u
    by (simp add: v3_other_def Token_equals_sym)
  show ?case
  proof (cases "ps = []")
    case True
    then show ?thesis by (simp add: path_step_def Let_def other pool_fees_def)
  next
    case False
    have "interleave (v3_tokens t ps @ [v3_other p (v3_end t ps)]) (pool_fees ps @ [fee_value (poolFee p)]) =
        interleave (v3_tokens t ps) (pool_fees ps) @ [PathFee (fee_value (poolFee p)), PathAddress (address (v3_other p (v3_end t ps)))]"
      by (rule interleave_snoc) (simp add: v3_tokens_sel pool_fees_def)
    then show ?thesis
      using snoc.IH [OF False] False unfolding zip
      by (simp add: path_step_def Let_def other v3_end_snoc v3_tokens_snoc pool_fees_def interleave_types_snoc del: interleave_types.simps)
  qed
qed simp

lemma encodeRouteToPath_eval:
  assumes "new_V3Route ps inp outp = Inr r"
  shows "encodeRouteToPath enc r exactOutput =
    enc (interleave_types (length ps))
      (if exactOutput then interleave (rev (tokenPath r)) (rev (pool_fees ps)) else interleave (tokenPath r) (pool_fees ps))"
proof -
  note r = new_V3Route_Inr [OF assms]
  have "rev (interleave (tokenPath r) (pool_fees ps)) = interleave (rev (tokenPath r)) (rev (pool_fees ps))"
    using r(1) by (intro interleave_rev) (simp add: v3_route_def v3_tokens_sel pool_fees_def)
  then show ?thesis
    using r by (simp add: encodeRouteToPath_def path_types_def v3_route_def path_step_fold interleave_types_rev)
qed

section \<open>Amounts along a route\<close>

text \<open>A well-formed pool whose price leaves room on both sides: a swap without a limit is accepted.\<close>

definition quotable_pool :: "Pool \<Rightarrow> bool" where
  "quotable_pool pool \<longleftrightarrow>
     (\<exists>ticks. wf_pool ticks pool) \<and> MIN_SQRT_RATIO + 1 < poolSqrtRatioX96 pool \<and> poolSqrtRatioX96 pool < MAX_SQRT_RATIO - 1"

lemma quotable_limit:
  assumes "quotable_pool pool" and "l = swap_limit z None"
  shows "if z then MIN_SQRT_RATIO < l \<and> l < poolSqrtRatioX96 pool else poolSqrtRatioX96 pool < l \<and> l < MAX_SQRT_RATIO"
  using assms by (simp add: quotable_pool_def swap_limit_def)

lemma quote_returns:
  assumes "quotable_pool pool" and "Pool_involvesToken pool t" and "0 \<le> n"
  shows "\<exists>m pool'. Pool_getOutputAmount pool (raw (ERC20 t) n) None = Some (Inr (raw (ERC20 (v3_other pool t)) m, pool'))
    \<and> 0 \<le> m \<and> m \<le> MaxUint256"
proof -
  obtain ticks where "wf_pool ticks pool" using assms(1) by (auto simp: quotable_pool_def)
  from Pool_getOutputAmount_eval [OF this _ assms(2) _ assms(3) refl refl quotable_limit [OF assms(1) refl], of "raw (ERC20 t) n"]
  show ?thesis using assms(3) by (auto simp: swap_result_def v3_other_def)
qed

lemma v3_amounts_out_returns:
  assumes "\<forall>p \<in> set ps. quotable_pool p" and "v3_connected t ps" and "0 \<le> n" and "n \<le> MaxUint256"
  shows "\<exists>m. v3_amounts_out (raw (ERC20 t) n) ps = Some (Inr (raw (ERC20 (v3_end t ps)) m)) \<and> 0 \<le> m \<and> m \<le> MaxUint256"
  using assms
proof (induction ps arbitrary: t n)
  case (Cons p ps)
  obtain m pool' where m: "Pool_getOutputAmount p (raw (ERC20 t) n) None = Some (Inr (raw (ERC20 (v3_other p t)) m, pool'))"
    "0 \<le> m" "m \<le> MaxUint256"
    using quote_returns [of p t n] Cons.prems by auto
  then show ?case using Cons.IH [of "v3_other p t" m] Cons.prems by (simp add: v3_amounts_out_def)
qed (auto simp: v3_amounts_out_def)

text \<open>The trade of one route with given amounts, once the pools have different addresses.\<close>

definition pool_address :: "V3Env \<Rightarrow> Pool \<Rightarrow> js_error + string" where
  "pool_address env pool = Pool_getAddress env (poolToken0 pool) (poolToken1 pool) (poolFee pool) None None"

definition addresses_apart :: "V3Env \<Rightarrow> Pool list \<Rightarrow> bool" where
  "addresses_apart env ps \<longleftrightarrow> (\<exists>addr. (\<forall>p \<in> set ps. pool_address env p = Inr (addr p)) \<and> distinct (map addr ps))"

lemma addresses_apart_subset:
  assumes "addresses_apart env ps" and "mset qs \<subseteq># mset ps"
  shows "addresses_apart env qs"
proof -
  obtain addr where addr: "\<forall>p \<in> set ps. pool_address env p = Inr (addr p)" "distinct (map addr ps)"
    using assms(1) by (auto simp: addresses_apart_def)
  have "mset (map addr qs) \<subseteq># mset (map addr ps)" using image_mset_subseteq_mono [OF assms(2)] by simp
  then have "distinct (map addr qs)"
    using addr(2) by (metis distinct_append mset_append mset_eq_imp_distinct_iff mset_subset_eq_exists_conv ex_mset)
  moreover have "set qs \<subseteq> set ps" using assms(2) by (metis set_mset_mono set_mset_mset)
  ultimately show ?thesis using addr(1) by (auto simp: addresses_apart_def)
qed

lemma new_V3Trade_single:
  assumes "addresses_apart env (routePools r)" and "Token_equals (wrapped (currency a)) (wrapped (v3Input r))"
    and "Token_equals (wrapped (currency b)) (wrapped (v3Output r))"
  shows "new_V3Trade env [\<lparr>legRoute = r, legInput = a, legOutput = b\<rparr>] tt =
    Inr \<lparr>swaps = [\<lparr>legRoute = r, legInput = a, legOutput = b\<rparr>], v3TradeType = tt\<rparr>"
proof -
  obtain addr where addr: "\<forall>p \<in> set (routePools r). pool_address env p = Inr (addr p)" "distinct (map addr (routePools r))"
    using assms(1) by (auto simp: addresses_apart_def)
  have "mapS (\<lambda>pool. Pool_getAddress env (poolToken0 pool) (poolToken1 pool) (poolFee pool) None None) ps = Inr (map addr ps)"
    if "set ps \<subseteq> set (routePools r)" for ps
    using that addr(1) by (induction ps) (auto simp: pool_address_def)
  then show ?thesis
    using assms(2,3) distinct_card [OF addr(2)] by (simp add: new_V3Trade_def first_leg_def Let_def)
qed

definition single_trade :: "V3Route \<Rightarrow> TradeType \<Rightarrow> int \<Rightarrow> int \<Rightarrow> V3Trade" where
  "single_trade r tt x y =
     \<lparr>swaps = [\<lparr>legRoute = r, legInput = raw (v3Input r) x, legOutput = raw (v3Output r) y\<rparr>], v3TradeType = tt\<rparr>"

lemma fromRoute_returns:
  assumes "\<forall>p \<in> set ps. quotable_pool p" and "addresses_apart env ps" and "v3_connected (wrapped inp) ps"
    and "0 \<le> x" and "x \<le> MaxUint256"
  shows "\<exists>y. fromRoute env (v3_route ps inp outp) (raw inp x) EXACT_INPUT = Some (Inr (single_trade (v3_route ps inp outp) EXACT_INPUT x y))
    \<and> v3_amounts_out (raw (ERC20 (wrapped inp)) x) ps = Some (Inr (raw (ERC20 (v3_end (wrapped inp) ps)) y)) \<and> 0 \<le> y \<and> y \<le> MaxUint256"
proof -
  obtain y where y: "v3_amounts_out (raw (ERC20 (wrapped inp)) x) ps = Some (Inr (raw (ERC20 (v3_end (wrapped inp) ps)) y))"
    "0 \<le> y" "y \<le> MaxUint256"
    using v3_amounts_out_returns [OF assms(1,3,4,5)] by blast
  moreover have "new_V3Trade env [\<lparr>legRoute = v3_route ps inp outp, legInput = raw inp x, legOutput = raw outp y\<rparr>] EXACT_INPUT
      = Inr (single_trade (v3_route ps inp outp) EXACT_INPUT x y)"
    using new_V3Trade_single [of env "v3_route ps inp outp"] assms(2) by (simp add: single_trade_def v3_route_def)
  ultimately show ?thesis
    using assms(4,5) by (intro exI [of _ y]) (simp add: fromRoute_def v3_route_def Amount_wrapped_raw fromFractional_raw runS_def)
qed

section \<open>Totals of split trades\<close>

lemma add_amounts:
  assumes "\<forall>(c', n) \<in> set ns. Currency_equals c c' \<and> 0 \<le> n" and "0 \<le> m" and "m + sum_list (map snd ns) \<le> MaxUint256"
  shows "foldS Amount_add (raw c m) (map (\<lambda>(c', n). raw c' n) ns) = Inr (raw c (m + sum_list (map snd ns)))"
  using assms
proof (induction ns arbitrary: m)
  case (Cons p ns)
  obtain c' n where p: "p = (c', n)" by fastforce
  have "0 \<le> sum_list (map snd ns)" using Cons.prems(1) by (intro sum_list_nonneg) auto
  then have "fromRawAmount c (m + n) = Inr (raw c (m + n))" using Cons.prems(3) by (simp add: fromRawAmount_raw p)
  then show ?case using Cons.IH [of "m + n"] Cons.prems by (simp add: p Amount_add_raw add.assoc)
qed simp

lemma single_trade_amounts:
  assumes "x \<le> MaxUint256" and "y \<le> MaxUint256"
  shows "V3Trade_inputAmount (single_trade r tt x y) = Inr (raw (v3Input r) x)"
    and "V3Trade_outputAmount (single_trade r tt x y) = Inr (raw (v3Output r) y)"
  using assms MaxUint256_def
  by (simp_all add: V3Trade_inputAmount_def V3Trade_outputAmount_def single_trade_def first_leg_def fromRawAmount_raw Amount_add_raw)

section \<open>The order of trades\<close>

definition v3_trade_ok :: "Currency \<Rightarrow> Currency \<Rightarrow> V3Trade \<Rightarrow> bool" where
  "v3_trade_ok cin cout t \<longleftrightarrow>
     (\<exists>a b. V3Trade_inputAmount t = Inr a \<and> V3Trade_outputAmount t = Inr b \<and> proper a \<and> proper b
        \<and> Currency_equals (currency a) cin \<and> Currency_equals (currency b) cout)"

definition trade_in :: "V3Trade \<Rightarrow> rat" where
  "trade_in t = (case V3Trade_inputAmount t of Inr a \<Rightarrow> frac_value a | Inl e \<Rightarrow> 0)"

definition trade_out :: "V3Trade \<Rightarrow> rat" where
  "trade_out t = (case V3Trade_outputAmount t of Inr a \<Rightarrow> frac_value a | Inl e \<Rightarrow> 0)"

text \<open>More output, then less input, then fewer hops.\<close>

lemma cmp_le_v3:
  assumes "v3_trade_ok cin cout a" and "v3_trade_ok cin cout b"
  shows "cmp_le V3_tradeComparator a b \<longleftrightarrow>
     trade_out b < trade_out a \<or>
     trade_out b = trade_out a \<and> (trade_in a < trade_in b \<or> trade_in a = trade_in b \<and> total_hops a \<le> total_hops b)"
    and "\<exists>c. V3_tradeComparator a b = Inr c"
proof -
  obtain ia oa where a: "V3Trade_inputAmount a = Inr ia" "V3Trade_outputAmount a = Inr oa" "proper ia" "proper oa"
    "Currency_equals (currency ia) cin" "Currency_equals (currency oa) cout"
    using assms(1) by (auto simp: v3_trade_ok_def)
  obtain ib ob where b: "V3Trade_inputAmount b = Inr ib" "V3Trade_outputAmount b = Inr ob" "proper ib" "proper ob"
    "Currency_equals (currency ib) cin" "Currency_equals (currency ob) cout"
    using assms(2) by (auto simp: v3_trade_ok_def)
  have cur: "Currency_equals (currency ia) (currency ib)" "Currency_equals (currency oa) (currency ob)"
    using a b by (auto intro: Currency_equals_trans Currency_equals_sym [THEN iffD1])
  show "\<exists>c. V3_tradeComparator a b = Inr c" using a b cur by (simp add: V3_tradeComparator_def)
  show "cmp_le V3_tradeComparator a b \<longleftrightarrow>
     trade_out b < trade_out a \<or>
     trade_out b = trade_out a \<and> (trade_in a < trade_in b \<or> trade_in a = trade_in b \<and> total_hops a \<le> total_hops b)"
    using a b cur
    by (auto simp: cmp_le_def V3_tradeComparator_def trade_in_def trade_out_def lessThan_value equalTo_value)
qed

interpretation v3_trade_order: js_comparator V3_tradeComparator "v3_trade_ok cin cout" for cin cout
proof
  fix a b assume ab: "v3_trade_ok cin cout a" "v3_trade_ok cin cout b"
  then show "\<exists>c. V3_tradeComparator a b = Inr c" by (rule cmp_le_v3(2))
  show "cmp_le V3_tradeComparator a b \<or> cmp_le V3_tradeComparator b a"
    unfolding cmp_le_v3(1) [OF ab] cmp_le_v3(1) [OF ab(2,1)] by linarith
next
  fix a b c assume h: "v3_trade_ok cin cout a" "v3_trade_ok cin cout b" "v3_trade_ok cin cout c"
    "cmp_le V3_tradeComparator a b" "cmp_le V3_tradeComparator b c"
  from h(4,5) show "cmp_le V3_tradeComparator a c"
    unfolding cmp_le_v3(1) [OF h(1,2)] cmp_le_v3(1) [OF h(2,3)] cmp_le_v3(1) [OF h(1,3)] by linarith
qed

lemma single_trade_ok:
  assumes "x \<le> MaxUint256" and "y \<le> MaxUint256"
  shows "v3_trade_ok (v3Input r) (v3Output r) (single_trade r tt x y)"
    and "trade_out (single_trade r tt x y) = of_int y"
  using single_trade_amounts [OF assms, of r tt]
  by (simp_all add: v3_trade_ok_def trade_out_def proper_def frac_value_def)

end
