(* ===== verification/V3Search.thy ===== *)
theory V3Search
  imports V3TradeFacts
begin

text \<open>
  The search for the best trades over well-formed V3 pools with different addresses: it returns, the
  list it returns is sorted and within its limit, each of its trades is the trade along a route
  over the given pools, and its first is at least as good as every such route that meets the output
  token only at its end.
\<close>

section \<open>Folds that keep an invariant and gain a fact per element\<close>

lemma foldR_gains:
  assumes "\<And>i b. i \<in> set is \<Longrightarrow> I b \<Longrightarrow> \<exists>b'. f b i = Some (Inr b') \<and> I b' \<and> (\<forall>t. D b t \<longrightarrow> D b' t) \<and> (\<forall>t. Q i t \<longrightarrow> D b' t)"
    and "I b"
  shows "\<exists>b'. foldR f b is = Some (Inr b') \<and> I b' \<and> (\<forall>t. D b t \<longrightarrow> D b' t) \<and> (\<forall>i \<in> set is. \<forall>t. Q i t \<longrightarrow> D b' t)"
  using assms
proof (induction "is" arbitrary: b)
  case (Cons i rest)
  obtain b1 where b1: "f b i = Some (Inr b1)" "I b1" "\<forall>t. D b t \<longrightarrow> D b1 t" "\<forall>t. Q i t \<longrightarrow> D b1 t"
    using Cons.prems(1) [of i b] Cons.prems(2) by auto
  obtain b2 where b2: "foldR f b1 rest = Some (Inr b2)" "I b2" "\<forall>t. D b1 t \<longrightarrow> D b2 t" "\<forall>i \<in> set rest. \<forall>t. Q i t \<longrightarrow> D b2 t"
    using Cons.IH [OF Cons.prems(1) b1(2)] by auto
  then show ?case using b1 by auto
qed auto

section \<open>The list of best trades\<close>

text \<open>What a search was asked: the pools, the currencies, the input, the number of hops and of results.\<close>

definition search_ok :: "V3Env \<Rightarrow> Pool list \<Rightarrow> int \<Rightarrow> nat \<Rightarrow> bool" where
  "search_ok env pools x n \<longleftrightarrow>
     (\<forall>p \<in> set pools. quotable_pool p \<and> Pool_chainId p = Pool_chainId (hd pools))
     \<and> addresses_apart env pools \<and> 0 \<le> x \<and> x \<le> MaxUint256 \<and> 0 < n"

text \<open>The trade along a list of pools.\<close>

definition trade_along :: "V3Env \<Rightarrow> Currency \<Rightarrow> Currency \<Rightarrow> int \<Rightarrow> Pool list \<Rightarrow> V3Trade \<Rightarrow> bool" where
  "trade_along env cin cout x ps t \<longleftrightarrow>
     (\<exists>r. new_V3Route ps cin cout = Inr r \<and> fromRoute env r (raw cin x) EXACT_INPUT = Some (Inr t))"

text \<open>The trades of the search, its list, and what the list beats.\<close>

definition found :: "V3Env \<Rightarrow> Pool list \<Rightarrow> Currency \<Rightarrow> Currency \<Rightarrow> int \<Rightarrow> nat \<Rightarrow> V3Trade \<Rightarrow> bool" where
  "found env pools cin cout x H t \<longleftrightarrow>
     (\<exists>ps. mset ps \<subseteq># mset pools \<and> length ps \<le> H \<and> trade_along env cin cout x ps t)"

definition best_list :: "V3Env \<Rightarrow> Pool list \<Rightarrow> Currency \<Rightarrow> Currency \<Rightarrow> int \<Rightarrow> nat \<Rightarrow> nat \<Rightarrow> V3Trade list \<Rightarrow> bool" where
  "best_list env pools cin cout x H n best \<longleftrightarrow>
     sorted_wrt (cmp_le V3_tradeComparator) best \<and> length best \<le> n
     \<and> (\<forall>t \<in> set best. v3_trade_ok cin cout t \<and> found env pools cin cout x H t)"

definition beats :: "V3Trade list \<Rightarrow> V3Trade \<Rightarrow> bool" where
  "beats best t \<longleftrightarrow> best \<noteq> [] \<and> cmp_le V3_tradeComparator (hd best) t"

lemma hd_insert_after: "hd (insert_after le t ys) = (if ys = [] \<or> \<not> le (hd ys) t then t else hd ys)" "insert_after le t ys \<noteq> []"
  by (cases ys; simp)+

lemma insert_keeps:
  assumes "best_list env pools cin cout x H n best" and "v3_trade_ok cin cout t" and "found env pools cin cout x H t" and "0 < n"
  shows "\<exists>r. sortedInsert best t n V3_tradeComparator = Inr r \<and> best_list env pools cin cout x H n (snd r)
    \<and> (\<forall>u. v3_trade_ok cin cout u \<longrightarrow> beats best u \<longrightarrow> beats (snd r) u) \<and> beats (snd r) t"
proof -
  let ?le = "cmp_le V3_tradeComparator" and ?ok = "v3_trade_ok cin cout"
  let ?new = "insert_after ?le t best"
  have best: "sorted_wrt ?le best" "\<forall>u \<in> set best. ?ok u" "length best \<le> n" using assms(1) by (auto simp: best_list_def)
  have ins: "sortedInsert best t n V3_tradeComparator = Inr (if length best = n then Some (last ?new) else None, take n ?new)"
    using best assms(2,4) by (intro v3_trade_order.sortedInsert_correct) auto
  have "sorted_wrt ?le ?new" using best assms(2) by (intro v3_trade_order.sorted_insert_after) auto
  then have "sorted_wrt ?le (take n ?new)" by (rule sorted_wrt_take)
  moreover have "u \<in> set (take n ?new) \<Longrightarrow> u \<in> insert t (set best)" for u using in_set_takeD [of u n ?new] by simp
  ultimately have list: "best_list env pools cin cout x H n (take n ?new)"
    using assms(1-3) by (auto simp: best_list_def)
  have refl: "?le t t" using v3_trade_order.cmp_total [OF assms(2,2)] by simp
  note hd = hd_insert_after [of ?le t best]
  have "beats (take n ?new) t" using hd refl assms(4) by (auto simp: beats_def)
  moreover have "beats (take n ?new) u" if u: "?ok u" "beats best u" for u
  proof -
    obtain b bs where b: "best = b # bs" using u(2) by (cases best) (auto simp: beats_def)
    then have le: "?ok b" "?le b u" using best(2) u(2) by (auto simp: beats_def)
    then show ?thesis
      using hd b assms(4) v3_trade_order.cmp_total [OF assms(2) le(1)] v3_trade_order.cmp_trans [OF assms(2) le(1) u(1)]
      by (auto simp: beats_def split: if_splits)
  qed
  ultimately show ?thesis using ins list by auto
qed

section \<open>The search\<close>

fun v3_direct :: "Token \<Rightarrow> Token \<Rightarrow> Pool list \<Rightarrow> bool" where
  "v3_direct t out [] = False"
| "v3_direct t out (p # ps) =
     (Pool_involvesToken p t \<and>
      (if Token_equals (v3_other p t) out then ps = [] else v3_direct (v3_other p t) out ps))"

lemma trade_along_returns:
  assumes "search_ok env pools x n" and "mset ps \<subseteq># mset pools" and "ps \<noteq> []" and "v3_connected (wrapped cin) ps"
    and "Token_equals (v3_end (wrapped cin) ps) (wrapped cout)"
  shows "\<exists>t. new_V3Route ps cin cout = Inr (v3_route ps cin cout)
    \<and> fromRoute env (v3_route ps cin cout) (raw cin x) EXACT_INPUT = Some (Inr t) \<and> v3_trade_ok cin cout t \<and> trade_along env cin cout x ps t"
proof -
  have sub: "set ps \<subseteq> set pools" using assms(2) by (metis set_mset_mono set_mset_mset)
  then have pools: "\<forall>p \<in> set ps. quotable_pool p" "\<forall>p \<in> set ps. Pool_chainId p = Pool_chainId (hd pools)"
    using assms(1) by (auto simp: search_ok_def)
  have route: "new_V3Route ps cin cout = Inr (v3_route ps cin cout)" using new_V3Route_eval [OF assms(3) pools(2) assms(4,5)] .
  obtain y where y: "fromRoute env (v3_route ps cin cout) (raw cin x) EXACT_INPUT = Some (Inr (single_trade (v3_route ps cin cout) EXACT_INPUT x y))"
    "y \<le> MaxUint256"
    using fromRoute_returns [OF pools(1) _ assms(4), of env x cout] addresses_apart_subset [OF _ assms(2)] assms(1)
    by (auto simp: search_ok_def)
  moreover have "v3_trade_ok cin cout (single_trade (v3_route ps cin cout) EXACT_INPUT x y)"
    using single_trade_ok(1) [of x y "v3_route ps cin cout"] y(2) assms(1) by (simp add: search_ok_def v3_route_def)
  ultimately show ?thesis using route by (auto simp: trade_along_def)
qed

text \<open>A result of the search keeps what the list was and beats the trades in \<open>Q\<close> too.\<close>

definition gains ::
  "V3Env \<Rightarrow> Pool list \<Rightarrow> Currency \<Rightarrow> Currency \<Rightarrow> int \<Rightarrow> nat \<Rightarrow> nat \<Rightarrow> V3Trade list \<Rightarrow> V3Trade list run \<Rightarrow> (V3Trade \<Rightarrow> bool) \<Rightarrow> bool" where
  "gains env pools cin cout x H n best res Q \<longleftrightarrow>
     (\<exists>best'. res = Some (Inr best') \<and> best_list env pools cin cout x H n best'
        \<and> (\<forall>u. v3_trade_ok cin cout u \<and> beats best u \<longrightarrow> v3_trade_ok cin cout u \<and> beats best' u)
        \<and> (\<forall>t. Q t \<longrightarrow> v3_trade_ok cin cout t \<and> beats best' t))"

lemma gains_none:
  "best_list env pools cin cout x H n best \<Longrightarrow> (\<And>t. \<not> Q t) \<Longrightarrow> gains env pools cin cout x H n best (Some (Inr best)) Q"
  by (simp add: gains_def)

lemma gains_mono: "gains env pools cin cout x H n best res Q \<Longrightarrow> (\<And>t. Q' t \<Longrightarrow> Q t) \<Longrightarrow> gains env pools cin cout x H n best res Q'"
  by (auto simp: gains_def)

lemma insert_v3_gains:
  assumes "search_ok env pools x n" and "mset ps \<subseteq># mset pools" and "length ps \<le> H" and "ps \<noteq> []" and "v3_connected (wrapped cin) ps"
    and "Token_equals (v3_end (wrapped cin) ps) (wrapped cout)" and "best_list env pools cin cout x H n best"
  shows "gains env pools cin cout x H n best (insert_v3 env n ps cin cout (raw cin x) EXACT_INPUT best) (trade_along env cin cout x ps)"
proof -
  obtain t where t: "new_V3Route ps cin cout = Inr (v3_route ps cin cout)"
    "fromRoute env (v3_route ps cin cout) (raw cin x) EXACT_INPUT = Some (Inr t)" "v3_trade_ok cin cout t" "trade_along env cin cout x ps t"
    using trade_along_returns [OF assms(1,2,4-6)] by blast
  then have "found env pools cin cout x H t" using assms(2,3) by (auto simp: found_def)
  from insert_keeps [OF assms(7) t(3) this] assms(1) obtain r where r: "sortedInsert best t n V3_tradeComparator = Inr r"
    "best_list env pools cin cout x H n (snd r)" "\<forall>u. v3_trade_ok cin cout u \<longrightarrow> beats best u \<longrightarrow> beats (snd r) u" "beats (snd r) t"
    by (auto simp: search_ok_def)
  have "u = t" if "trade_along env cin cout x ps u" for u using that t(1,2) by (auto simp: trade_along_def)
  then show ?thesis using t(1-3) r by (auto simp: gains_def insert_v3_def)
qed

text \<open>What the loop does with one pool; \<open>recur\<close> is the search behind it.\<close>

definition search_step ::
  "V3Env \<Rightarrow> (Pool list \<Rightarrow> Pool list \<Rightarrow> CurrencyAmount \<Rightarrow> V3Trade list \<Rightarrow> V3Trade list run) \<Rightarrow> nat \<Rightarrow> nat \<Rightarrow> Pool list \<Rightarrow>
   CurrencyAmount \<Rightarrow> Currency \<Rightarrow> Pool list \<Rightarrow> CurrencyAmount \<Rightarrow> V3Trade list \<Rightarrow> nat \<Rightarrow> V3Trade list run" where
  "search_step env recur n h ps amt cout cur amtIn best i =
     (let pool = ps ! i in
      if \<not> Token_equals (poolToken0 pool) (token_of amtIn) \<and> \<not> Token_equals (poolToken1 pool) (token_of amtIn)
      then Some (Inr best)
      else
        (case Pool_getOutputAmount pool amtIn None of
           None \<Rightarrow> None
         | Some (Inl e) \<Rightarrow> if e = InsufficientInputAmountError then Some (Inr best) else Some (Inl e)
         | Some (Inr r) \<Rightarrow>
             (let amtOut = fst r in
              if isToken (currency amtOut) \<and> Token_equals (token_of amtOut) (wrapped cout)
              then insert_v3 env n (cur @ [pool]) (currency amt) cout amt EXACT_INPUT best
              else if 0 < h \<and> 1 < length ps then recur (take i ps @ drop (Suc i) ps) (cur @ [pool]) amtOut best
              else Some (Inr best))))"

lemma bestTrade_steps:
  "V3_bestTradeExactIn env (Suc h) ps amt cout n cur nxt best =
     invariantR (ps \<noteq> []) ''POOLS''
      (invariantR (nxt = None \<or> cur \<noteq> []) ''INVALID_RECURSION''
       (bindR (runS (Amount_wrapped (case nxt of None \<Rightarrow> amt | Some a \<Rightarrow> a))) (\<lambda>amtIn.
        foldR (search_step env (\<lambda>ps' cur' a b. V3_bestTradeExactIn env h ps' amt cout n cur' (Some a) b) n h ps amt cout cur amtIn)
          best [0..<length ps])))"
  by (simp add: search_step_def [abs_def])

text \<open>The routes the search must beat behind a current list of pools.\<close>

definition routes_behind :: "V3Env \<Rightarrow> Currency \<Rightarrow> Currency \<Rightarrow> int \<Rightarrow> Pool list \<Rightarrow> Pool list \<Rightarrow> nat \<Rightarrow> V3Trade \<Rightarrow> bool" where
  "routes_behind env cin cout x cur ps h t \<longleftrightarrow>
     (\<exists>rest. mset rest \<subseteq># mset ps \<and> length rest \<le> h \<and> v3_direct (v3_end (wrapped cin) cur) (wrapped cout) rest
        \<and> trade_along env cin cout x (cur @ rest) t)"

definition routes_through :: "V3Env \<Rightarrow> Currency \<Rightarrow> Currency \<Rightarrow> int \<Rightarrow> Pool list \<Rightarrow> Pool list \<Rightarrow> nat \<Rightarrow> nat \<Rightarrow> V3Trade \<Rightarrow> bool" where
  "routes_through env cin cout x cur ps h i t \<longleftrightarrow>
     (\<exists>rest. mset (ps ! i # rest) \<subseteq># mset ps \<and> length rest \<le> h \<and> v3_direct (v3_end (wrapped cin) cur) (wrapped cout) (ps ! i # rest)
        \<and> trade_along env cin cout x (cur @ ps ! i # rest) t)"

lemma routes_behind_through:
  assumes "routes_behind env cin cout x cur ps (Suc h) t"
  shows "\<exists>i < length ps. routes_through env cin cout x cur ps h i t"
proof -
  obtain rest where rest: "mset rest \<subseteq># mset ps" "length rest \<le> Suc h" "v3_direct (v3_end (wrapped cin) cur) (wrapped cout) rest"
    "trade_along env cin cout x (cur @ rest) t" using assms by (auto simp: routes_behind_def)
  then obtain p rest' where p: "rest = p # rest'" by (cases rest) auto
  then have "p \<in> set ps" using rest(1) by (metis list.set_intros(1) mset_subset_eqD set_mset_mset)
  then obtain i where "i < length ps" "ps ! i = p" by (auto simp: in_set_conv_nth)
  then show ?thesis using rest unfolding p routes_through_def by (auto simp del: v3_direct.simps)
qed

lemma mset_remove_nth: "i < length ps \<Longrightarrow> mset ps = add_mset (ps ! i) (mset (take i ps @ drop (Suc i) ps))"
  by (subst id_take_nth_drop [of i ps]) simp_all

lemma mset_move:
  assumes "mset (cur @ ps) \<subseteq># mset pools" and "i < length ps"
  shows "mset ((cur @ [ps ! i]) @ take i ps @ drop (Suc i) ps) \<subseteq># mset pools" and "mset (cur @ [ps ! i]) \<subseteq># mset pools"
proof -
  have "mset ((cur @ [ps ! i]) @ take i ps @ drop (Suc i) ps) = mset (cur @ ps)"
    using mset_remove_nth [OF assms(2)] by simp
  then show "mset ((cur @ [ps ! i]) @ take i ps @ drop (Suc i) ps) \<subseteq># mset pools" using assms(1) by (simp only:)
  moreover have "mset (cur @ [ps ! i]) \<subseteq># mset ((cur @ [ps ! i]) @ take i ps @ drop (Suc i) ps)"
    unfolding mset_append [of "cur @ [ps ! i]"] by (rule mset_subset_eq_add_left)
  ultimately show "mset (cur @ [ps ! i]) \<subseteq># mset pools" by (metis subset_mset.order_trans)
qed

lemma step_gains:
  assumes ok: "search_ok env pools x n" and sub: "mset (cur @ ps) \<subseteq># mset pools" and i: "i < length ps"
    and H: "length cur + Suc h \<le> H" and con: "v3_connected (wrapped cin) cur" and m: "0 \<le> m" and best: "best_list env pools cin cout x H n best"
    and rec: "\<And>m'. 0 < h \<Longrightarrow> 1 < length ps \<Longrightarrow> 0 \<le> m' \<Longrightarrow> m' \<le> MaxUint256 \<Longrightarrow> v3_connected (wrapped cin) (cur @ [ps ! i]) \<Longrightarrow>
      gains env pools cin cout x H n best
        (recur (take i ps @ drop (Suc i) ps) (cur @ [ps ! i]) (raw (ERC20 (v3_end (wrapped cin) (cur @ [ps ! i]))) m') best)
        (routes_behind env cin cout x (cur @ [ps ! i]) (take i ps @ drop (Suc i) ps) h)"
  shows "gains env pools cin cout x H n best
    (search_step env recur n h ps (raw cin x) cout cur (raw (ERC20 (v3_end (wrapped cin) cur)) m) best i)
    (routes_through env cin cout x cur ps h i)"
proof (cases "Pool_involvesToken (ps ! i) (v3_end (wrapped cin) cur)")
  case False
  then have "search_step env recur n h ps (raw cin x) cout cur (raw (ERC20 (v3_end (wrapped cin) cur)) m) best i = Some (Inr best)"
    by (auto simp: search_step_def Pool_involvesToken_def Token_equals_sym token_of_def)
  then show ?thesis using gains_none [OF best] False by (simp add: routes_through_def)
next
  case inv: True
  let ?p = "ps ! i" and ?t = "v3_other (ps ! i) (v3_end (wrapped cin) cur)"
  have "?p \<in> set pools"
    using mset_move(2) [OF sub i] by (metis append_is_Nil_conv in_set_conv_decomp mset_subset_eqD set_mset_mset)
  then have "quotable_pool ?p" using ok by (auto simp: search_ok_def)
  from quote_returns [OF this inv m] obtain m' pool' where q: "Pool_getOutputAmount ?p (raw (ERC20 (v3_end (wrapped cin) cur)) m) None
      = Some (Inr (raw (ERC20 ?t) m', pool'))" "0 \<le> m'" "m' \<le> MaxUint256" by blast
  have step: "search_step env recur n h ps (raw cin x) cout cur (raw (ERC20 (v3_end (wrapped cin) cur)) m) best i =
      (if Token_equals ?t (wrapped cout) then insert_v3 env n (cur @ [?p]) cin cout (raw cin x) EXACT_INPUT best
       else if 0 < h \<and> 1 < length ps then recur (take i ps @ drop (Suc i) ps) (cur @ [?p]) (raw (ERC20 ?t) m') best
       else Some (Inr best))"
    using inv q(1) by (auto simp: search_step_def Pool_involvesToken_def Token_equals_sym token_of_def Let_def)
  have con': "v3_connected (wrapped cin) (cur @ [?p])" "v3_end (wrapped cin) (cur @ [?p]) = ?t"
    using con inv by (simp_all add: v3_connected_snoc v3_end_snoc)
  consider "Token_equals ?t (wrapped cout)" | "\<not> Token_equals ?t (wrapped cout)" "0 < h \<and> 1 < length ps"
    | "\<not> Token_equals ?t (wrapped cout)" "\<not> (0 < h \<and> 1 < length ps)" by blast
  then show ?thesis
  proof cases
    case 1
    have "gains env pools cin cout x H n best (insert_v3 env n (cur @ [?p]) cin cout (raw cin x) EXACT_INPUT best) (trade_along env cin cout x (cur @ [?p]))"
      using 1 con' H by (intro insert_v3_gains [OF ok mset_move(2) [OF sub i] _ _ con'(1) _ best]) simp_all
    then show ?thesis unfolding step using 1 by (auto simp: routes_through_def elim!: gains_mono)
  next
    case 2
    then show ?thesis
      unfolding step using rec [OF _ _ q(2,3) con'(1)] con'(2) mset_remove_nth [OF i]
      by (auto simp: routes_through_def routes_behind_def elim!: gains_mono)
  next
    case 3
    have "\<not> routes_through env cin cout x cur ps h i t" for t
    proof
      assume "routes_through env cin cout x cur ps h i t"
      then obtain rest where rest: "mset (?p # rest) \<subseteq># mset ps" "length rest \<le> h" "v3_direct ?t (wrapped cout) rest"
        using 3 by (auto simp: routes_through_def)
      moreover have "length (?p # rest) \<le> length ps" using size_mset_mono [OF rest(1)] by simp
      ultimately show False using 3 by (cases rest) auto
    qed
    then show ?thesis unfolding step using 3 gains_none [OF best] by auto
  qed
qed

lemma search_gains:
  assumes "search_ok env pools x n"
  shows "mset (cur @ ps) \<subseteq># mset pools \<Longrightarrow> ps \<noteq> [] \<Longrightarrow> 0 < h \<Longrightarrow> length cur + h \<le> H \<Longrightarrow> v3_connected (wrapped cin) cur
    \<Longrightarrow> nxt = None \<or> cur \<noteq> [] \<Longrightarrow> Amount_wrapped (case nxt of None \<Rightarrow> raw cin x | Some a \<Rightarrow> a) = Inr (raw (ERC20 (v3_end (wrapped cin) cur)) m)
    \<Longrightarrow> 0 \<le> m \<Longrightarrow> best_list env pools cin cout x H n best
    \<Longrightarrow> gains env pools cin cout x H n best (V3_bestTradeExactIn env h ps (raw cin x) cout n cur nxt best) (routes_behind env cin cout x cur ps h)"
proof (induction h arbitrary: ps cur nxt m best)
  case (Suc h)
  let ?recur = "\<lambda>ps' cur' a b. V3_bestTradeExactIn env h ps' (raw cin x) cout n cur' (Some a) b"
  let ?step = "search_step env ?recur n h ps (raw cin x) cout cur (raw (ERC20 (v3_end (wrapped cin) cur)) m)"
  have "gains env pools cin cout x H n b (?step b i) (routes_through env cin cout x cur ps h i)"
    if i: "i \<in> set [0..<length ps]" and b: "best_list env pools cin cout x H n b" for i b
  proof (rule step_gains [OF assms Suc.prems(1) _ Suc.prems(4,5,8) b])
    fix m' assume h: "0 < h" "1 < length ps" "0 \<le> m'" "m' \<le> MaxUint256" "v3_connected (wrapped cin) (cur @ [ps ! i])"
    have "length (take i ps @ drop (Suc i) ps) = length ps - 1" using i by simp
    then have "take i ps @ drop (Suc i) ps \<noteq> []" using h(2) by (metis diff_is_0_eq list.size(3) not_le)
    then show "gains env pools cin cout x H n b
        (?recur (take i ps @ drop (Suc i) ps) (cur @ [ps ! i]) (raw (ERC20 (v3_end (wrapped cin) (cur @ [ps ! i]))) m') b)
        (routes_behind env cin cout x (cur @ [ps ! i]) (take i ps @ drop (Suc i) ps) h)"
      using i h Suc.prems(4) by (intro Suc.IH [OF mset_move(1) [OF Suc.prems(1)] _ h(1) _ h(5) _ _ h(3) b]) (simp_all add: Amount_wrapped_raw)
  qed (use i in simp)
  then have steps: "\<exists>b'. ?step b i = Some (Inr b') \<and> best_list env pools cin cout x H n b'
      \<and> (\<forall>u. v3_trade_ok cin cout u \<and> beats b u \<longrightarrow> v3_trade_ok cin cout u \<and> beats b' u)
      \<and> (\<forall>t. routes_through env cin cout x cur ps h i t \<longrightarrow> v3_trade_ok cin cout t \<and> beats b' t)"
    if "i \<in> set [0..<length ps]" "best_list env pools cin cout x H n b" for i b
    using that unfolding gains_def by blast
  from foldR_gains [where f = ?step and Q = "routes_through env cin cout x cur ps h" and D = "\<lambda>b u. v3_trade_ok cin cout u \<and> beats b u" and I = "best_list env pools cin cout x H n", OF steps Suc.prems(9)]
  obtain best' where best': "foldR ?step best [0..<length ps] = Some (Inr best')" "best_list env pools cin cout x H n best'"
    "\<forall>u. v3_trade_ok cin cout u \<and> beats best u \<longrightarrow> v3_trade_ok cin cout u \<and> beats best' u"
    "\<forall>i \<in> set [0..<length ps]. \<forall>t. routes_through env cin cout x cur ps h i t \<longrightarrow> v3_trade_ok cin cout t \<and> beats best' t" by blast
  have "V3_bestTradeExactIn env (Suc h) ps (raw cin x) cout n cur nxt best = Some (Inr best')"
    unfolding bestTrade_steps using Suc.prems(2,6,7) best'(1) by (simp only: bindR_runS invariantR_simps not_False_eq_True)
  then show ?case using best' routes_behind_through unfolding gains_def by fastforce
qed simp

lemma V3_bestTradeExactIn_returns:
  assumes "search_ok env pools x n" and "pools \<noteq> []" and "0 < h"
  shows "gains env pools cin cout x h n [] (V3_bestTradeExactIn env h pools (raw cin x) cout n [] None []) (routes_behind env cin cout x [] pools h)"
  using assms by (intro search_gains [OF assms(1), where m = x]) (auto simp: search_ok_def Amount_wrapped_raw best_list_def)

end
