(* ===== verification/V3Samples.thy ===== *)
theory V3Samples
  imports DexSamples V3Search
begin

text \<open>
  Concrete ticks and pools for the V3 exchange, and what the definitions give on them.
\<close>

section \<open>Two positions around the current price\<close>

definition gold_a :: Token where "gold_a = token_a\<lparr>chainId := 56\<rparr>"
definition gold_b :: Token where "gold_b = token_b\<lparr>chainId := 56\<rparr>"
definition gold_c :: Token where "gold_c = token_c\<lparr>chainId := 56\<rparr>"

definition sample_ticks :: "Tick list" where
  "sample_ticks =
     [\<lparr>index = - 600, liquidityGross = 10 ^ 12, liquidityNet = 10 ^ 12\<rparr>,
      \<lparr>index = - 10, liquidityGross = 10 ^ 15, liquidityNet = 10 ^ 15\<rparr>,
      \<lparr>index = 20, liquidityGross = 10 ^ 15, liquidityNet = - (10 ^ 15)\<rparr>,
      \<lparr>index = 600, liquidityGross = 10 ^ 12, liquidityNet = - (10 ^ 12)\<rparr>]"

definition pool_of :: "Token \<Rightarrow> Token \<Rightarrow> Pool" where
  "pool_of t0 t1 =
     \<lparr>poolToken0 = t0, poolToken1 = t1, poolFee = LOW, poolSqrtRatioX96 = Q96,
      poolLiquidity = 10 ^ 15 + 10 ^ 12, poolTickCurrent = 0,
      poolTickDataProvider = TickListDataProvider sample_ticks\<rparr>"

definition sample_pool :: Pool where "sample_pool = pool_of gold_a gold_b"

lemma sample_ticks_wf: "wf_ticks sample_ticks"
  by code_simp

lemma sample_ticks_sound: "liquidity_sound sample_ticks"
  by code_simp

lemma sample_ticks_valid: "validateList sample_ticks 10 = Inr ()"
  by code_simp

lemma sample_price: "price_in_tick 0 Q96"
  by code_simp

lemma pool_of_wf:
  assumes "sortsBefore t0 t1 = Inr True"
  shows "wf_pool sample_ticks (pool_of t0 t1)"
proof -
  have "liquidity_in_range sample_ticks 0 = 10 ^ 15 + 10 ^ 12" by code_simp
  then show ?thesis
    using assms sample_ticks_wf sample_ticks_sound sample_price by (simp add: wf_pool_def pool_of_def)
qed

lemma gold_order: "sortsBefore gold_a gold_b = Inr True" "sortsBefore gold_b gold_c = Inr True"
  by code_simp+

lemmas sample_pool_wf = pool_of_wf [OF gold_order(1), folded sample_pool_def]

lemma sample_average: "getAverageLiquidity sample_ticks 10 (- 700) 100 = Some (Inr 38375000000000)"
  by code_simp

section \<open>Two pools and the routes over them\<close>

definition v3_env :: V3Env where
  "v3_env = DexEnv.extend dex_env \<lparr>viem_encodePoolKey = (\<lambda>a b f. ''0x'' @ drop 2 a @ drop 2 b)\<rparr>"

definition sample_pools :: "Pool list" where "sample_pools = [sample_pool, pool_of gold_b gold_c]"

lemma sample_pools_quotable: "\<forall>p \<in> set sample_pools. quotable_pool p"
proof -
  have "MIN_SQRT_RATIO + 1 < Q96 \<and> Q96 < MAX_SQRT_RATIO - 1" by (simp add: Q96_def MIN_SQRT_RATIO_def MAX_SQRT_RATIO_def)
  moreover have "poolSqrtRatioX96 (pool_of t0 t1) = Q96" for t0 t1 by (simp add: pool_of_def)
  ultimately show ?thesis
    using pool_of_wf [OF gold_order(1)] pool_of_wf [OF gold_order(2)]
    by (auto simp: sample_pools_def sample_pool_def quotable_pool_def)
qed

lemma sample_pools_apart: "addresses_apart v3_env sample_pools"
proof -
  let ?addr = "\<lambda>p. case pool_address v3_env p of Inr a \<Rightarrow> a | Inl e \<Rightarrow> []"
  have "list_all (\<lambda>p. \<not> isl (pool_address v3_env p)) sample_pools" "distinct (map ?addr sample_pools)" by code_simp+
  then show ?thesis
    unfolding addresses_apart_def by (intro exI [of _ ?addr]) (auto simp: list_all_iff isl_def split: sum.splits)
qed

lemma sample_search: "search_ok v3_env sample_pools 1000000 3"
proof -
  have "list_all (\<lambda>p. Pool_chainId p = Pool_chainId (hd sample_pools)) sample_pools" by code_simp
  then show ?thesis
    using sample_pools_quotable sample_pools_apart by (simp add: search_ok_def list_all_iff MaxUint256_def)
qed

end
