(* ===== verification/V3Props.thy ===== *)
theory V3Props
  imports V3Samples
begin

text \<open>
  The properties of the V3 exchange: the conversions between ticks and prices, the step of a swap,
  the searches in the list of ticks, swaps and quotes of a pool, positions and the fee calculator.
\<close>

section \<open>Ticks and prices\<close>

lemma getSqrtRatioAtTick_InrD:
  assumes "getSqrtRatioAtTick t = Inr r"
  shows "MIN_TICK \<le> t \<and> t \<le> MAX_TICK \<and> r = sqrt_ratio t"
  using assms getSqrtRatioAtTick_throws [of t] getSqrtRatioAtTick_eval [of t]
  by (cases "t < MIN_TICK \<or> MAX_TICK < t") auto

text \<open>C29. \<open>getSqrtRatioAtTick\<close> returns a ratio exactly for the ticks in range and throws for the others;
  the ratio grows strictly with the tick, from \<open>MIN_SQRT_RATIO\<close> to \<open>MAX_SQRT_RATIO\<close>, so it fits in 160 bits.\<close>

theorem sqrt_ratio_at_tick:
  "(\<forall>t. if MIN_TICK \<le> t \<and> t \<le> MAX_TICK
        then \<exists>r. getSqrtRatioAtTick t = Inr r \<and> MIN_SQRT_RATIO \<le> r \<and> r \<le> MAX_SQRT_RATIO \<and> r < 2 ^ 160
        else getSqrtRatioAtTick t = Inl (Invariant ''TICK''))
   \<and> getSqrtRatioAtTick MIN_TICK = Inr MIN_SQRT_RATIO \<and> getSqrtRatioAtTick MAX_TICK = Inr MAX_SQRT_RATIO
   \<and> (\<forall>t t' r r'. getSqrtRatioAtTick t = Inr r \<longrightarrow> getSqrtRatioAtTick t' = Inr r' \<longrightarrow> (r < r' \<longleftrightarrow> t < t'))"
proof (intro conjI allI impI)
  fix t
  show "if MIN_TICK \<le> t \<and> t \<le> MAX_TICK
        then \<exists>r. getSqrtRatioAtTick t = Inr r \<and> MIN_SQRT_RATIO \<le> r \<and> r \<le> MAX_SQRT_RATIO \<and> r < 2 ^ 160
        else getSqrtRatioAtTick t = Inl (Invariant ''TICK'')"
  proof (cases "MIN_TICK \<le> t \<and> t \<le> MAX_TICK")
    case True
    have "(MAX_SQRT_RATIO :: int) < 2 ^ 160" by (simp add: MAX_SQRT_RATIO_def)
    moreover have "sqrt_ratio MIN_TICK \<le> sqrt_ratio t" "sqrt_ratio t \<le> sqrt_ratio MAX_TICK"
      using True by (auto simp: sqrt_ratio_le_iff MIN_MAX_TICK)
    ultimately show ?thesis using True by (simp add: getSqrtRatioAtTick_eval sqrt_ratio_ends)
  next
    case False
    then show ?thesis using getSqrtRatioAtTick_throws [of t] by auto
  qed
next
  have "MIN_TICK \<le> MAX_TICK" by (simp add: MIN_MAX_TICK)
  show "getSqrtRatioAtTick MIN_TICK = Inr MIN_SQRT_RATIO"
    using getSqrtRatioAtTick_eval [OF order_refl \<open>MIN_TICK \<le> MAX_TICK\<close>] by (simp only: sqrt_ratio_ends)
  show "getSqrtRatioAtTick MAX_TICK = Inr MAX_SQRT_RATIO"
    using getSqrtRatioAtTick_eval [OF \<open>MIN_TICK \<le> MAX_TICK\<close> order_refl] by (simp only: sqrt_ratio_ends)
next
  fix t t' r r'
  assume "getSqrtRatioAtTick t = Inr r" "getSqrtRatioAtTick t' = Inr r'"
  then have "MIN_TICK \<le> t \<and> t \<le> MAX_TICK \<and> r = sqrt_ratio t" "MIN_TICK \<le> t' \<and> t' \<le> MAX_TICK \<and> r' = sqrt_ratio t'"
    by (simp_all add: getSqrtRatioAtTick_InrD)
  moreover from this have "\<bar>t\<bar> < 2 ^ 20" "\<bar>t'\<bar> < 2 ^ 20" by (blast intro: tick_small)+
  ultimately show "r < r' \<longleftrightarrow> t < t'" using sqrt_ratio_less_iff [of t t'] by blast
qed

theorem sqrt_ratio_at_tick_witness:
  "\<exists>r. getSqrtRatioAtTick 887 = Inr r \<and> MIN_SQRT_RATIO < r"
proof -
  have t: "MIN_TICK \<le> 887 \<and> 887 \<le> MAX_TICK" by (simp add: MIN_MAX_TICK)
  then obtain r where r: "getSqrtRatioAtTick 887 = Inr r" using sqrt_ratio_at_tick by metis
  moreover have "MIN_TICK < 887" by (simp add: MIN_MAX_TICK)
  ultimately show ?thesis using sqrt_ratio_at_tick by blast
qed

text \<open>C30. For every price in range \<open>getTickAtSqrtRatio\<close> returns the greatest tick whose ratio is not above it,
  and for the ratio of a tick that tick.\<close>

theorem tick_at_sqrt_ratio:
  assumes "MIN_SQRT_RATIO \<le> s" and "s < MAX_SQRT_RATIO"
  shows "\<exists>t r r'. getTickAtSqrtRatio s = Inr t \<and> getSqrtRatioAtTick t = Inr r \<and> getSqrtRatioAtTick (t + 1) = Inr r'
    \<and> r \<le> s \<and> s < r' \<and> getTickAtSqrtRatio r = Inr t"
proof -
  obtain t where t: "getTickAtSqrtRatio s = Inr t" "MIN_TICK \<le> t" "t < MAX_TICK" "sqrt_ratio t \<le> s" "s < sqrt_ratio (t + 1)"
    using getTickAtSqrtRatio_spec [OF assms] by blast
  then show ?thesis by (simp add: getSqrtRatioAtTick_eval getTickAtSqrtRatio_at_tick)
qed

theorem tick_at_sqrt_ratio_witness:
  "\<exists>t r. getTickAtSqrtRatio Q96 = Inr t \<and> getSqrtRatioAtTick t = Inr r \<and> r \<le> Q96"
  using tick_at_sqrt_ratio [of Q96] by (auto simp: Q96_def MIN_SQRT_RATIO_def MAX_SQRT_RATIO_def)

text \<open>The price of a tick leads back to that tick, for either order of the two currencies.\<close>

theorem price_of_tick_leads_back:
  assumes "MIN_TICK \<le> t" and "t < MAX_TICK" and "isCurrencySorted base quote = Inr inOrder"
  shows "bindS (tickToPrice base quote t) priceToClosestTick = Inr t"
  using tick_price_roundtrip [OF assms] .

theorem price_of_tick_leads_back_witness:
  "bindS (tickToPrice (ERC20 token_b) (ERC20 token_a) (- 74959)) priceToClosestTick = Inr (- 74959)"
proof -
  have "isCurrencySorted (ERC20 token_b) (ERC20 token_a) = Inr False" by code_simp
  then show ?thesis using price_of_tick_leads_back [of "- 74959"] by (simp add: MIN_MAX_TICK)
qed

section \<open>The step of a swap\<close>

text \<open>C31. A step of a swap with an exact input never passes its target, takes no more than what
  remains, and takes all of it when it stops before the target; the input is rounded up and the
  output down, so the step never pays out more than the curve gives.\<close>

theorem swap_step_exact_input:
  assumes "0 < p" and "0 < t" and "0 \<le> L" and "0 \<le> a" and "0 \<le> feePips" and "feePips < MAX_FEE"
  shows "\<exists>s n. computeSwapStep p t L a feePips = Inr s \<and> n = sqrtRatioNextX96 s \<and> 0 < n
    \<and> toward (t \<le> p) p t n \<and> 0 \<le> feeAmount s
    \<and> amountIn s + feeAmount s \<le> a \<and> (n = t \<or> amountIn s + feeAmount s = a)
    \<and> amountIn s = in_up (t \<le> p) p n L \<and> amountOut s = out_down (t \<le> p) p n L"
  using computeSwapStep_exact_in [OF assms refl] by force

theorem swap_step_exact_input_witness:
  "\<exists>s. computeSwapStep Q96 (Q96 div 2) (10 ^ 15) 1000000 500 = Inr s \<and> amountIn s + feeAmount s \<le> 1000000"
  using swap_step_exact_input [of Q96 "Q96 div 2" "10 ^ 15" 1000000 500] by (force simp: Q96_def MAX_FEE_def)

text \<open>C32. A step with an exact output never passes its target and gives no more than what is asked;
  when it stops before the target it gives exactly that.  The fee is the least that leaves the
  input after the fee.\<close>

theorem swap_step_exact_output:
  assumes "0 < p" and "0 < t" and "0 \<le> L" and "L < 2 ^ 128" and "a < 0" and "0 \<le> feePips" and "feePips < MAX_FEE"
  shows "\<exists>s n. computeSwapStep p t L a feePips = Inr s \<and> n = sqrtRatioNextX96 s \<and> 0 < n
    \<and> toward (t \<le> p) p t n \<and> amountOut s \<le> - a \<and> (n = t \<or> amountOut s = - a)
    \<and> amountOut s \<le> out_down (t \<le> p) p n L \<and> amountIn s = in_up (t \<le> p) p n L
    \<and> amountIn s * feePips \<le> feeAmount s * (MAX_FEE - feePips)
    \<and> (\<forall>f. amountIn s * feePips \<le> f * (MAX_FEE - feePips) \<longrightarrow> feeAmount s \<le> f)"
proof -
  obtain n where n: "computeSwapStep p t L a feePips =
      Inr \<lparr>sqrtRatioNextX96 = n, amountIn = in_up (t \<le> p) p n L, amountOut = min (- a) (out_down (t \<le> p) p n L),
           feeAmount = cdiv (in_up (t \<le> p) p n L * feePips) (MAX_FEE - feePips)\<rparr>"
    "0 < n" "toward (t \<le> p) p t n" "n \<noteq> t \<longrightarrow> - a \<le> out_down (t \<le> p) p n L"
    using computeSwapStep_exact_out [OF assms refl] by blast
  have d: "0 < MAX_FEE - feePips" using assms by simp
  show ?thesis
    using n cdiv_le_iff [OF d] by (intro exI [of _ n] exI, intro conjI) (assumption | force)+
qed

theorem swap_step_exact_output_witness:
  "\<exists>s. computeSwapStep Q96 (2 * Q96) (10 ^ 15) (- 1000000) 500 = Inr s \<and> amountOut s \<le> 1000000"
  using swap_step_exact_output [of Q96 "2 * Q96" "10 ^ 15" "- 1000000" 500] by (force simp: Q96_def MAX_FEE_def)

section \<open>Lists of ticks\<close>

text \<open>C33. In a sorted list of ticks the binary search ends, at the position of the greatest tick that is
  not above the one searched; below the first tick it throws.\<close>

theorem binary_search_finds:
  assumes "wf_ticks ticks"
  shows "if index (ticks ! 0) \<le> t
    then \<exists>k < length ticks. binarySearch ticks t = Some (Inr (int k)) \<and> index (ticks ! k) \<le> t
      \<and> (\<forall>j < length ticks. index (ticks ! j) \<le> t \<longleftrightarrow> j \<le> k)
    else binarySearch ticks t = Some (Inl (Invariant ''BELOW_SMALLEST''))"
proof (cases "index (ticks ! 0) \<le> t")
  case True
  then obtain k where k: "binarySearch ticks t = Some (Inr (int k))" "last_le ticks t k"
    using binarySearch_finds [OF assms] by blast
  then show ?thesis using True last_le_greatest [OF assms k(2)] by (auto simp: last_le_def)
next
  case False
  then show ?thesis using binarySearch_below [OF assms] by simp
qed

theorem binary_search_finds_witness:
  "\<exists>k. binarySearch sample_ticks 19 = Some (Inr (int k))"
proof -
  have "index (sample_ticks ! 0) \<le> 19" by code_simp
  then show ?thesis using binary_search_finds [OF sample_ticks_wf, of 19] by auto
qed

text \<open>C34. The query for the next initialized tick within one word returns, in both directions: the tick it
  gives lies on the right side of the current one, no initialized tick lies between the two, and the
  flag says whether the tick itself is initialized.\<close>

theorem next_tick_within_word:
  assumes "wf_ticks ticks" and "0 < spacing" and "\<bar>t\<bar> < 2 ^ 20"
  shows "\<exists>n flag. TickList_nextInitializedTickWithinOneWord ticks t lte spacing = Some (Inr (n, flag))
    \<and> (if lte then n \<le> t else t < n)
    \<and> (\<forall>k \<in> set ticks. \<not> (if lte then n < index k \<and> index k \<le> t else t < index k \<and> index k < n))
    \<and> (flag \<longleftrightarrow> n \<in> index ` set ticks)"
proof (cases lte)
  case True
  then show ?thesis using within_word_down [OF assms] by (fastforce simp: tick_indices_def)
next
  case False
  then show ?thesis using within_word_up [OF assms] by (fastforce simp: tick_indices_def)
qed

theorem next_tick_within_word_witness:
  "\<exists>n flag. TickList_nextInitializedTickWithinOneWord sample_ticks 0 False 10 = Some (Inr (n, flag)) \<and> 0 < n"
  using next_tick_within_word [OF sample_ticks_wf, of 10 0 False] by auto

section \<open>Swaps and quotes\<close>

text \<open>C35. A swap on a well-formed pool returns for every amount, whenever its price limit lies between the current
  price and the end of the range: the loop ends with nothing remaining or at the limit, at a price on
  the way to the limit that lies in the tick it reports, with the liquidity of that tick.\<close>

theorem swap_returns:
  assumes "wf_pool ticks pool" and "l = swap_limit zeroForOne limit"
    and "if zeroForOne then MIN_SQRT_RATIO < l \<and> l < poolSqrtRatioX96 pool else poolSqrtRatioX96 pool < l \<and> l < MAX_SQRT_RATIO"
  shows "\<exists>st. Pool_swap pool zeroForOne amount limit = Some (Inr st)
    \<and> (amountSpecifiedRemaining st = 0 \<or> sqrtPriceX96 st = l)
    \<and> toward zeroForOne (poolSqrtRatioX96 pool) l (sqrtPriceX96 st)
    \<and> price_in_tick (tick st) (sqrtPriceX96 st) \<and> liquidity st = liquidity_in_range ticks (tick st)"
  using Pool_swap_returns [OF assms] unfolding swap_result_def by blast

lemma sample_limit:
  "if True then MIN_SQRT_RATIO < swap_limit True None \<and> swap_limit True None < poolSqrtRatioX96 sample_pool
   else poolSqrtRatioX96 sample_pool < swap_limit True None \<and> swap_limit True None < MAX_SQRT_RATIO"
  by (simp add: swap_limit_def sample_pool_def pool_of_def MIN_SQRT_RATIO_def Q96_def)

theorem swap_returns_witness:
  "\<exists>st. Pool_swap sample_pool True 1000000000000 None = Some (Inr st)
    \<and> (amountSpecifiedRemaining st = 0 \<or> sqrtPriceX96 st = swap_limit True None)"
  using swap_returns [OF sample_pool_wf refl sample_limit] by blast

text \<open>C36. The quote for an input amount on a well-formed pool returns, its amount fits in 256 bits, the pool it
  gives is well-formed with a price on the way to the limit, and it may be given again to a quote.\<close>

theorem quote_keeps_pool:
  assumes "wf_pool ticks pool" and "currency amount = ERC20 token" and "Pool_involvesToken pool token"
    and "quotient amount = Inr n" and "0 \<le> n" and "zeroForOne = Token_equals token (poolToken0 pool)"
    and "l = swap_limit zeroForOne limit"
    and "if zeroForOne then MIN_SQRT_RATIO < l \<and> l < poolSqrtRatioX96 pool else poolSqrtRatioX96 pool < l \<and> l < MAX_SQRT_RATIO"
  shows "\<exists>out pool'. Pool_getOutputAmount pool amount limit = Some (Inr (out, pool')) \<and> wf_pool ticks pool'
    \<and> currency out = ERC20 (if zeroForOne then poolToken1 pool else poolToken0 pool)
    \<and> 0 \<le> numerator out \<and> numerator out \<le> MaxUint256 \<and> denominator out = 1
    \<and> toward zeroForOne (poolSqrtRatioX96 pool) l (poolSqrtRatioX96 pool')"
  using Pool_getOutputAmount_eval [OF assms] assms(5) unfolding swap_result_def by (force simp: raw_def)

theorem quote_keeps_pool_witness:
  "\<exists>out pool'. Pool_getOutputAmount sample_pool (raw (ERC20 gold_a) 1000000000000) None = Some (Inr (out, pool'))
    \<and> wf_pool sample_ticks pool' \<and> currency out = ERC20 gold_b"
proof -
  have z: "Token_equals gold_a (poolToken0 sample_pool)" "Pool_involvesToken sample_pool gold_a"
    "poolToken1 sample_pool = gold_b" by code_simp+
  have q: "quotient (raw (ERC20 gold_a) 1000000000000) = Inr 1000000000000"
    "currency (raw (ERC20 gold_a) 1000000000000) = ERC20 gold_a" by code_simp+
  show ?thesis
    using quote_keeps_pool [OF sample_pool_wf q(2) z(2) q(1) _ _ refl, of True None] z sample_limit by auto
qed

section \<open>Positions\<close>

text \<open>C37. For non-negative amounts, positive prices in either order and two distinct ends of the range,
  \<open>maxLiquidityForAmounts\<close> returns with both settings of \<open>useFullPrecision\<close>.  With full precision the result is the
  largest liquidity that costs no more than the amounts: a liquidity can be minted in the range for them exactly when it
  is at most the result.  Without it (the formula of the router) the result is not larger, so it can be minted for the
  amounts too, but it need not be the largest.\<close>

theorem largest_liquidity:
  assumes "0 < ratioA" and "0 < ratioB" and "ratioA \<noteq> ratioB" and "0 < p" and "0 \<le> amount0" and "0 \<le> amount1"
  shows "\<exists>M N. maxLiquidityForAmounts p ratioA ratioB amount0 amount1 True = Inr M
    \<and> maxLiquidityForAmounts p ratioA ratioB amount0 amount1 False = Inr N \<and> N \<le> M
    \<and> (\<forall>L. cost0 p (min ratioA ratioB) (max ratioA ratioB) L \<le> amount0
            \<and> cost1 p (min ratioA ratioB) (max ratioA ratioB) L \<le> amount1 \<longleftrightarrow> L \<le> M)"
proof -
  have "0 < min ratioA ratioB" "min ratioA ratioB < max ratioA ratioB" using assms by auto
  from maxLiquidityForAmounts_largest [OF this assms(4-6)] maxLiquidityForAmounts_imprecise [OF this assms(4-6)]
  show ?thesis unfolding maxLiquidityForAmounts_sorted [of p ratioA ratioB] by blast
qed

theorem largest_liquidity_witness:
  "\<exists>M N. maxLiquidityForAmounts (Q96 + 1) (2 * Q96) (Q96 div 2) (10 ^ 24) (2 * 10 ^ 24) True = Inr M
    \<and> maxLiquidityForAmounts (Q96 + 1) (2 * Q96) (Q96 div 2) (10 ^ 24) (2 * 10 ^ 24) False = Inr N \<and> N \<le> M
    \<and> cost0 (Q96 + 1) (Q96 div 2) (2 * Q96) M \<le> 10 ^ 24 \<and> cost1 (Q96 + 1) (Q96 div 2) (2 * Q96) M \<le> 2 * 10 ^ 24"
proof -
  have ends: "min (2 * Q96) (Q96 div 2) = Q96 div 2" "max (2 * Q96) (Q96 div 2) = 2 * Q96" by (simp_all add: Q96_def)
  have "0 < 2 * Q96" "0 < Q96 div 2" "2 * Q96 \<noteq> Q96 div 2" "0 < Q96 + 1" "(0 :: int) \<le> 10 ^ 24" "(0 :: int) \<le> 2 * 10 ^ 24"
    by (simp_all add: Q96_def)
  from largest_liquidity [OF this] show ?thesis unfolding ends by blast
qed

text \<open>The amounts a position pays when it is minted are the exact costs of its liquidity, rounded up; the amounts
  it holds are those rounded down: never more than what was paid and at most one unit less.\<close>

theorem burn_at_most_mint:
  assumes "price_in_tick (poolTickCurrent pool) (poolSqrtRatioX96 pool)"
    and "new_Position pool L lower upper = Inr pos" and "0 \<le> L"
  shows "\<exists>m0 m1 x0 x1. mintAmounts pos = Inr (m0, m1)
    \<and> getToken0Amount (poolTickCurrent pool) lower upper (poolSqrtRatioX96 pool) L = Inr x0
    \<and> getToken1Amount (poolTickCurrent pool) lower upper (poolSqrtRatioX96 pool) L = Inr x1
    \<and> x0 \<le> m0 \<and> m0 \<le> x0 + 1 \<and> x1 \<le> m1 \<and> m1 \<le> x1 + 1"
proof -
  have pos: "MIN_TICK \<le> lower" "lower < upper" "upper \<le> MAX_TICK"
    "pos = \<lparr>positionPool = pool, tickLower = lower, tickUpper = upper, positionLiquidity = L\<rparr>"
    using assms(2) by (auto simp: new_Position_def invariantS_def split: if_splits)
  show ?thesis using burn_near_mint [OF assms(1) pos(1-3) assms(3)] mintAmounts_eval [OF assms(1) pos(1-3) assms(3)] pos(4) by blast
qed

theorem burn_at_most_mint_witness:
  "\<exists>pos m0 m1. new_Position sample_pool 1000000 (- 600) 600 = Inr pos \<and> mintAmounts pos = Inr (m0, m1)"
proof -
  have "usable_range sample_pool (- 600) 600" by code_simp
  note pos = new_Position_eval [OF this, of 1000000]
  have "price_in_tick (poolTickCurrent sample_pool) (poolSqrtRatioX96 sample_pool)"
    using sample_price by (simp add: sample_pool_def pool_of_def)
  then show ?thesis using burn_at_most_mint [OF _ pos] pos by force
qed

section \<open>The fee calculator\<close>

text \<open>C38. For valid ticks and a range that starts below the last tick the average liquidity is the mean, over every
  single tick of the range, of the liquidity in range at that tick.\<close>

theorem average_liquidity_exact:
  assumes "wf_ticks ticks" and "validateList ticks spacing = Inr ()"
    and "MIN_TICK \<le> lower" and "lower < upper" and "lower < index (ticks ! (length ticks - 1))"
  shows "getAverageLiquidity ticks spacing lower upper
    = Some (Inr (tdiv (\<Sum>t = lower..<upper. liquidity_in_range ticks t) (upper - lower)))"
  using getAverageLiquidity_mean [OF assms] by (simp add: liquidity_sum_def)

theorem average_liquidity_exact_witness:
  "getAverageLiquidity sample_ticks 10 (- 700) 100
    = Some (Inr (tdiv (\<Sum>t = - 700..<100. liquidity_in_range sample_ticks t) 800))"
proof -
  have "- 700 < index (sample_ticks ! (length sample_ticks - 1))" by code_simp
  then show ?thesis
    using average_liquidity_exact [OF sample_ticks_wf sample_ticks_valid, of "- 700" 100] by (simp add: MIN_MAX_TICK)
qed

section \<open>Routes and trades\<close>

text \<open>C39. Over well-formed pools of one chain with different addresses the search for the best trades of an exact input
  always returns, with at most the requested number of trades, sorted; each is the trade along a route over
  the given pools of at most the allowed number of hops; and the first is at least as good as every
  such route that uses each pool at most once and meets the output token only at its end.\<close>

theorem v3_best_trades:
  assumes "search_ok env pools x n" and "pools \<noteq> []" and "0 < h"
  shows "\<exists>best. V3_bestTradeExactIn env h pools (raw cin x) cout n [] None [] = Some (Inr best)
    \<and> length best \<le> n \<and> sorted_wrt (cmp_le V3_tradeComparator) best
    \<and> (\<forall>t \<in> set best. \<exists>ps. mset ps \<subseteq># mset pools \<and> length ps \<le> h \<and> trade_along env cin cout x ps t)
    \<and> (\<forall>ps t. mset ps \<subseteq># mset pools \<longrightarrow> length ps \<le> h \<longrightarrow> v3_direct (wrapped cin) (wrapped cout) ps \<longrightarrow>
         trade_along env cin cout x ps t \<longrightarrow> best \<noteq> [] \<and> cmp_le V3_tradeComparator (hd best) t)"
proof -
  obtain best where best: "V3_bestTradeExactIn env h pools (raw cin x) cout n [] None [] = Some (Inr best)"
    "best_list env pools cin cout x h n best"
    "\<forall>t. routes_behind env cin cout x [] pools h t \<longrightarrow> v3_trade_ok cin cout t \<and> beats best t"
    using V3_bestTradeExactIn_returns [OF assms] unfolding gains_def by blast
  have "best \<noteq> [] \<and> cmp_le V3_tradeComparator (hd best) t"
    if "mset ps \<subseteq># mset pools" "length ps \<le> h" "v3_direct (wrapped cin) (wrapped cout) ps" "trade_along env cin cout x ps t" for ps t
    using best(3) that by (auto simp: routes_behind_def beats_def)
  then show ?thesis using best(1,2) unfolding best_list_def found_def by blast
qed

theorem v3_best_trades_witness:
  "\<exists>best. V3_bestTradeExactIn v3_env 2 sample_pools (raw (ERC20 gold_a) 1000000) (ERC20 gold_c) 3 [] None [] = Some (Inr best)
    \<and> best \<noteq> [] \<and> length best \<le> 3"
proof -
  have p: "v3_connected (wrapped (ERC20 gold_a)) sample_pools"
    "Token_equals (v3_end (wrapped (ERC20 gold_a)) sample_pools) (wrapped (ERC20 gold_c))"
    "v3_direct (wrapped (ERC20 gold_a)) (wrapped (ERC20 gold_c)) sample_pools" by code_simp+
  have ne: "sample_pools \<noteq> []" "length sample_pools \<le> 2" by (simp_all add: sample_pools_def)
  obtain t where "trade_along v3_env (ERC20 gold_a) (ERC20 gold_c) 1000000 sample_pools t"
    using trade_along_returns [OF sample_search _ ne(1) p(1,2)] by auto
  then show ?thesis
    using v3_best_trades [OF sample_search ne(1), of 2 "ERC20 gold_a" "ERC20 gold_c"] ne p(3) by fastforce
qed

text \<open>A trade along a route of well-formed pools with different addresses is always computed: it has the amount that was given
  and the amount the pools give one after the other, which fits in 256 bits.\<close>

theorem v3_trade_returns:
  assumes "new_V3Route ps cin cout = Inr r" and "\<forall>p \<in> set ps. quotable_pool p" and "addresses_apart env ps"
    and "0 \<le> x" and "x \<le> MaxUint256"
  shows "\<exists>t y. V3Trade_exactIn env r (raw cin x) = Some (Inr t)
    \<and> V3Trade_inputAmount t = Inr (raw cin x) \<and> V3Trade_outputAmount t = Inr (raw cout y) \<and> 0 \<le> y \<and> y \<le> MaxUint256
    \<and> v3_amounts_out (raw (ERC20 (wrapped cin)) x) ps = Some (Inr (raw (ERC20 (last (tokenPath r))) y))"
proof -
  note r = new_V3Route_Inr [OF assms(1)]
  obtain y where y: "fromRoute env r (raw cin x) EXACT_INPUT = Some (Inr (single_trade r EXACT_INPUT x y))" "0 \<le> y" "y \<le> MaxUint256"
    "v3_amounts_out (raw (ERC20 (wrapped cin)) x) ps = Some (Inr (raw (ERC20 (v3_end (wrapped cin) ps)) y))"
    using fromRoute_returns [OF assms(2,3) r(2) assms(4,5), of cout] r(1) by blast
  show ?thesis
    using y single_trade_amounts [OF assms(5) y(3), of r EXACT_INPUT] r(1)
    by (auto simp: V3Trade_exactIn_def v3_route_def v3_tokens_sel)
qed

theorem v3_trade_returns_witness:
  "\<exists>r t. new_V3Route sample_pools (ERC20 gold_a) (ERC20 gold_c) = Inr r
    \<and> V3Trade_exactIn v3_env r (raw (ERC20 gold_a) 1000000) = Some (Inr t)"
proof -
  have "\<not> isl (new_V3Route sample_pools (ERC20 gold_a) (ERC20 gold_c))" by code_simp
  then obtain r where r: "new_V3Route sample_pools (ERC20 gold_a) (ERC20 gold_c) = Inr r" by (metis isl_def sum.exhaust_sel)
  show ?thesis
    using v3_trade_returns [OF r sample_pools_quotable sample_pools_apart, of 1000000] r by (auto simp: MaxUint256_def)
qed

text \<open>The encoded path of a route lists its tokens with the fees of its pools between them, in the order of the route for an
  exact input and in the opposite order for an exact output, with the same types for both.\<close>

theorem encoded_path:
  assumes "new_V3Route ps inp outp = Inr r"
  shows "encodeRouteToPath enc r exactOutput =
    enc (interleave_types (length ps))
      (if exactOutput then interleave (rev (tokenPath r)) (rev (map (\<lambda>p. fee_value (poolFee p)) ps))
       else interleave (tokenPath r) (map (\<lambda>p. fee_value (poolFee p)) ps))"
  using encodeRouteToPath_eval [OF assms] by (simp add: pool_fees_def)

theorem encoded_path_witness:
  "\<exists>r. new_V3Route sample_pools (ERC20 gold_a) (ERC20 gold_c) = Inr r
    \<and> encodeRouteToPath (\<lambda>types elems. concat types) r True = concat [''address'', ''uint24'', ''address'', ''uint24'', ''address'']"
proof -
  have "\<not> isl (new_V3Route sample_pools (ERC20 gold_a) (ERC20 gold_c))" by code_simp
  then obtain r where r: "new_V3Route sample_pools (ERC20 gold_a) (ERC20 gold_c) = Inr r" by (metis isl_def sum.exhaust_sel)
  have "interleave_types (length sample_pools) = [''address'', ''uint24'', ''address'', ''uint24'', ''address'']" by code_simp
  then show ?thesis using encoded_path [OF r, of "\<lambda>types elems. concat types" True] r by simp
qed

section \<open>The functional interface\<close>

text \<open>C40. On the pools of the class the functions \<open>getOutputAmount\<close> and \<open>getInputAmount\<close> do what the methods of the class do: the
  amounts, the errors and the pool that is left agree, and they return exactly when the methods do.\<close>

theorem functions_refine_class:
  assumes "sortsBefore (poolToken0 pool) (poolToken1 pool) = Inr True"
    and "currency a = ERC20 token" and "Pool_involvesToken pool token"
  shows "mapR (map_prod id state_of) (Pool_getOutputAmount pool a limit) = functions_getOutputAmount (state_of pool) a limit False
    \<and> mapR (map_prod id state_of) (Pool_getInputAmount pool a limit) = functions_getInputAmount (state_of pool) a limit False
    \<and> mapR (map_prod id state_of) (Pool_getInputAmountByExactOut pool a limit) = functions_getInputAmount (state_of pool) a limit True"
  using quotes_refine [OF assms] by simp

theorem functions_refine_class_witness:
  "mapR (map_prod id state_of) (Pool_getOutputAmount sample_pool (raw (ERC20 gold_a) 5) None)
    = functions_getOutputAmount (state_of sample_pool) (raw (ERC20 gold_a) 5) None False"
proof -
  have "sortsBefore (poolToken0 sample_pool) (poolToken1 sample_pool) = Inr True" "Pool_involvesToken sample_pool gold_a" by code_simp+
  then show ?thesis using functions_refine_class [of sample_pool "raw (ERC20 gold_a) 5" gold_a None] by simp
qed

text \<open>The two prices of the functional interface are the same number: the price of the second currency is the inverse of the first
  one's only at a price of exactly one, while the two prices of the class are always the inverse of each other.\<close>

theorem second_price_not_inverted:
  assumes "0 < poolSqrtRatioX96 pool"
  shows "frac_value (getPriceOfCurrency1 (state_of pool)) = frac_value (getPriceOfCurrency0 (state_of pool))
    \<and> (frac_value (getPriceOfCurrency0 (state_of pool)) * frac_value (getPriceOfCurrency1 (state_of pool)) = 1
       \<longleftrightarrow> poolSqrtRatioX96 pool = Q96)
    \<and> frac_value (Pool_token0Price pool) * frac_value (Pool_token1Price pool) = 1
    \<and> frac_value (getPriceOfCurrency0 (state_of pool)) = frac_value (Pool_token0Price pool)"
proof -
  have r: "psSqrtRatioX96 (state_of pool) = poolSqrtRatioX96 pool" by (simp add: state_of_def)
  have "frac_value (getPriceOfCurrency0 (state_of pool)) = frac_value (Pool_token0Price pool)"
    by (simp add: getPriceOfCurrency0_def getCurrency0Price_def Pool_token0Price_def new_Price_def frac_value_def r Let_def)
  then show ?thesis
    unfolding getPriceOfCurrency0_def getPriceOfCurrency1_def r
    using currency_prices [OF assms] pool_prices_inverse [OF assms] by blast
qed

theorem second_price_not_inverted_witness:
  "frac_value (getPriceOfCurrency0 (state_of (sample_pool\<lparr>poolSqrtRatioX96 := 2 * Q96\<rparr>)))
    * frac_value (getPriceOfCurrency1 (state_of (sample_pool\<lparr>poolSqrtRatioX96 := 2 * Q96\<rparr>))) \<noteq> 1"
proof -
  have "poolSqrtRatioX96 (sample_pool\<lparr>poolSqrtRatioX96 := 2 * Q96\<rparr>) = 2 * Q96" by simp
  then show ?thesis
    using second_price_not_inverted [of "sample_pool\<lparr>poolSqrtRatioX96 := 2 * Q96\<rparr>"] Q96_pos by fastforce
qed

end
