(* ===== verification/Spec2Isabelle.thy ===== *)
theory Spec2Isabelle
  imports IndexerProps ForeignKeys EventProps ApiProps DexProps V3Props
begin

text \<open>
  Verification of the TypeScript core of the Gold Chain repository: the GoldScan indexer, the GoldScan
  API that serves what it wrote, and the computations of the exchange SDKs.

  \<^bold>\<open>The program.\<close>  Gold Chain is a chain with its explorer, exchange and bridge.  The explorer's
  indexer (\<^verbatim>\<open>src/gold scanner v2/packages/indexer/src\<close>) follows a node: for every block it
  fetches the block, its receipts and traces, notices reorganisations, and writes rows to a
  PostgreSQL database; eleven jobs per transaction decode logs to token transfers, bridge
  deposits, governance votes and gold mint and burn events, and keep balances and the supply; a
  finality pass moves rows from pending to finalized.  The API
  (\<^verbatim>\<open>src/gold scanner v2/packages/api/src\<close>) answers HTTP requests from these tables and writes only
  the verification columns of contracts.  The exchange
  (\<^verbatim>\<open>src/dex/pancake-frontend/packages\<close>) computes quotes, routes and calls for the pools in
  exact integer arithmetic that has to agree with the contracts.

  \<^bold>\<open>The indexer.\<close>  \<open>Prelude\<close>: errors, computations over a store and the calculi for them.
  \<open>JsText\<close>: strings, numbers and conversions of JavaScript.  \<open>GoldTopics\<close> and \<open>Abi\<close>:
  \<^verbatim>\<open>topics.ts\<close>, \<^verbatim>\<open>converters.ts\<close> and the decoding of event data.  \<open>Finality\<close>,
  \<open>Backfill\<close>, \<open>JobQueue\<close>: \<^verbatim>\<open>finality.ts\<close>, \<^verbatim>\<open>backfill.ts\<close> and the head tracker, and
  the queue with its locale \<open>job_queue\<close>.  \<open>Database\<close>: the tables of the schema as lists of
  records in one record, the constraints as \<open>db_wf\<close>, the locale \<open>finality_table\<close>
  interpreted on ten tables.  \<open>WriterEvm\<close>, \<open>WriterGold\<close>, \<open>Writer\<close>: one definition per SQL
  statement of \<^verbatim>\<open>writer.ts\<close>; a violated constraint is a throw and the writes made before it
  stay.  \<open>RpcTypes\<close>: the node's answers; the RPC client is a record of functions, a parameter of
  all that uses it.  \<open>JobsEvm\<close>, \<open>JobsGold\<close>: the eleven jobs.  \<open>Indexer\<close>: \<^verbatim>\<open>processBlock\<close>,
  \<^verbatim>\<open>indexToHead\<close> and the reorganisation checks.  \<open>IndexerFacts\<close>, \<open>ChainFacts\<close>,
  \<open>BlockFacts\<close>, \<open>TokenFacts\<close> hold the lemmas, \<open>Samples\<close> a recorded chain for the witnesses,
  \<open>IndexerProps\<close> and \<open>EventProps\<close> the properties: the tables converge to the node's chain, the
  schema's constraints hold on every path also when a call throws half-way, logs, transactions,
  balances and the supply are exact, events decode as encoded, ranges are covered.  \<open>ForeignKeys\<close>: the writers
  order their statements so that no call against a consistent node is stopped by a foreign key, a check or a
  not-null constraint, by a calculus for such computations (\<open>quiet\<close>) and an invariant of the reachable databases.

  \<^bold>\<open>The API.\<close>  \<open>ApiBase\<close>: query parameters, \<^verbatim>\<open>validate.ts\<close>, pagination and the reading side of SQL;
  what belongs to the database server (collation, ids of rows, the reading of a text as a number,
  messages) is the record \<open>Pg\<close>; rows that an \<^verbatim>\<open>ORDER BY\<close> leaves tied, whose order the server may choose, come in
  the order of insertion.  \<open>GoldQueries\<close>: the lists of \<^verbatim>\<open>gold/queries.ts\<close>, whose contract is the
  locale \<open>paged_query\<close>, interpreted on six of them.  \<open>GoldBoards\<close>: solvency, delegations, validator set,
  governance board and checkpoint status.  \<open>EvmApi\<close>: the modules of \<^verbatim>\<open>evm\<close> with Etherscan's parameters.
  \<open>ApiVerify\<close>: contract verification, calls and encoding.  \<open>ApiHttp\<close>: the routes and the request handler
  of \<^verbatim>\<open>http.ts\<close>; the compiler, the packages ethers and pg, the node and \<^verbatim>\<open>JSON.parse\<close> are the record \<open>Env\<close>.
  A request is a function of the store, which is the indexer's database with the columns only the API
  uses.  \<open>GoldRows\<close>: what the rows look like in every database the indexer can leave, by the locale
  \<open>indexer_invariant\<close>, interpreted on several invariants; the views need it, since they read texts as
  integers.  \<open>BoardFacts\<close>, \<open>EvmFacts\<close>: the views as integers, joins, pages, verification.  \<open>LiveFeed\<close>: the feed of
  \<^verbatim>\<open>ws.ts\<close> as a state machine over upgrades, closings and broadcasts, fed by the indexer; a call
  of the indexer with the feed takes a schedule of the socket actions that happen between its events, and the theorems hold for every
  schedule.  \<open>ApiProps\<close>: solvency is
  exact after indexing, receipts, pages and the lists of an account are exact, voting power agrees with
  the delegations, only a matching source verifies a contract and no request changes chain data, a client of the
  feed is sent exactly the events that find it open, in order; and
  where the code differs from what it means, what it does instead.

  \<^bold>\<open>The exchange.\<close>  \<open>Fractions\<close>, \<open>Currency\<close>, \<open>SwapUtils\<close>: \<^verbatim>\<open>swap-sdk-core\<close>.  \<open>V2Pair\<close>,
  \<open>V2Trade\<close>: the pairs, routes, trades, their search and the router call of \<^verbatim>\<open>v2-sdk\<close>, with
  lemmas in \<open>V2PairFacts\<close>, \<open>V2TradeFacts\<close> and \<open>V2Search\<close>.  \<open>StableSwap\<close>: the stable pools
  of \<^verbatim>\<open>smart-router\<close>.  \<open>DexSamples\<close>, \<open>DexProps\<close>: samples and properties.  The
  functions of the \<^verbatim>\<open>viem\<close> package are the fields of \<open>DexEnv\<close>, a parameter.

  \<^bold>\<open>The V3 exchange\<close> (\<^verbatim>\<open>v3-sdk/src\<close>).  \<open>V3Math\<close> and \<open>V3TickMath\<close>: the fixed-point arithmetic of
  \<^verbatim>\<open>utils\<close> (amounts between two prices, the next price, one step of a swap, the price of a tick
  and the tick of a price), with \<open>V3SwapStep\<close> (a step never passes its target and rounds against the
  trader), \<open>V3TickFacts\<close> (the price of a tick is strictly increasing, by error bounds on the twenty
  factors in logarithms) and \<open>V3TickSearch\<close> (the tick of a price is the greatest one below it).
  \<open>V3TickList\<close>: sorted lists of ticks, their searches and the tick data providers; what a swap relies on
  is the locale \<open>tick_provider\<close> of \<open>V3TickProvider\<close>, interpreted on the provider backed by a list.
  \<open>V3Pool\<close>: class \<^verbatim>\<open>Pool\<close> with its swap loop; \<open>V3Swap\<close> proves inside the locale that the loop returns,
  \<open>V3PoolFacts\<close> that swaps and quotes keep a pool well-formed.  \<open>V3Position\<close>, \<open>V3PositionFacts\<close>: positions,
  the liquidity amounts buy, prices and ticks.  \<open>V3Fees\<close>: the fee calculator.  \<open>V3Functions\<close>: the
  functional interface of \<^verbatim>\<open>functions\<close>, whose swap has its own loop; a simulation of the rounds relates it to
  the class through \<open>state_of\<close>.  \<open>V3Trade\<close>, \<open>V3TradeFacts\<close>,
  \<open>V3Search\<close>: routes, split trades and the search for the best ones, whose comparator is a further
  interpretation of \<open>js_comparator\<close>.  \<open>V3Samples\<close>, \<open>V3Props\<close>: samples and properties.

  \<^bold>\<open>Numbers and loops.\<close>  Bigints are integers, division truncates and throws on zero; 256-bit
  arithmetic masks its results as the code does, and shifts of numbers work on 32 bits.  Recursion
  follows the loops and terminates by a measure; loops the code bounds (255 Newton steps of the
  stable pool) carry that bound.  The binary search, the swap loop and the loop of the average liquidity
  have no bound in the code: they are partial functions whose value is \<open>None\<close> when they do not return,
  and that they return is proved (the interval shrinks; each round of a swap reaches the limit, uses
  the amount up or passes at least one tick).

  \<^bold>\<open>Not modelled.\<close>  The sockets of the API (the package ws) and listening on a port, the cache of its
  compiler releases; the GoldScan frontend, the web applications and UI packages, decimal
  formatting (decimal.js, big.js), the calldata builders of \<^verbatim>\<open>v3-sdk\<close> (they only assemble calls
  for the ABI encoder of \<^verbatim>\<open>viem\<close>), generated bindings, and the Go and Solidity code of the chain,
  its contracts and the bridge.
\<close>

end
